(* ===== verification/Js_Prelude.thy ===== *)
theory Js_Prelude
  imports Main "HOL-Library.Char_ord" "HOL-Library.List_Lexorder"
begin

text \<open>
  What every component of the model uses of the source language: a thrown
  \<open>Error\<close> as the left value of a sum, the string methods the code calls
  (\<open>trim\<close>, \<open>startsWith\<close>, \<open>split\<close>, template literals over integers),
  JSON values with \<open>JSON.stringify\<close>, and insertion-ordered maps
  (\<open>Map\<close>, object spread). Strings are lists of code units below 256, compared
  lexicographically as the language compares them.
\<close>

named_theorems js_eval "evaluation rules of the language library"
named_theorems inv_intro "preservation lemmas of component invariants"

section \<open>Errors\<close>

text \<open>\<open>throw new Error(message)\<close> is \<open>Inl (Error message)\<close>; the run-time errors the code can
  run into without a \<open>throw\<close> of its own are the other constructors.\<close>

datatype error =
    Error string
  | RangeError string
  | TypeError string
  | DatabaseError string

type_synonym 'a result = "error + 'a"

definition bind_result :: "'a result \<Rightarrow> ('a \<Rightarrow> 'b result) \<Rightarrow> 'b result" where
  "bind_result r f = (case r of Inl e \<Rightarrow> Inl e | Inr a \<Rightarrow> f a)"

lemma bind_result_simps [simp]:
  "bind_result (Inl e) f = Inl e"
  "bind_result (Inr a) f = f a"
  by (simp_all add: bind_result_def)

lemma bind_result_Inr_iff [simp]:
  "bind_result r f = Inr b \<longleftrightarrow> (\<exists>a. r = Inr a \<and> f a = Inr b)"
  by (cases r) simp_all

lemma bind_result_Inr_right [simp]: "bind_result r Inr = r"
  by (cases r) simp_all

definition throw_if :: "bool \<Rightarrow> string \<Rightarrow> 'a result \<Rightarrow> 'a result" where
  "throw_if c msg k = (if c then Inl (Error msg) else k)"

lemma throw_if_Inr [simp]: "throw_if c msg k = Inr a \<longleftrightarrow> \<not> c \<and> k = Inr a"
  by (simp add: throw_if_def)

lemma throw_if_simps [simp]:
  "throw_if True msg k = Inl (Error msg)" "throw_if False msg k = k"
  by (simp_all add: throw_if_def)

definition is_ok :: "'a result \<Rightarrow> bool" where
  "is_ok r = (case r of Inl _ \<Rightarrow> False | Inr _ \<Rightarrow> True)"

lemma is_ok_simps [simp]: "is_ok (Inl e) = False" "is_ok (Inr a) = True"
  by (simp_all add: is_ok_def)

lemma is_ok_iff: "is_ok r \<longleftrightarrow> (\<exists>a. r = Inr a)"
  by (cases r) simp_all

text \<open>An operation on a state returns its result and the state afterwards, also when it throws;
  \<open>and_then\<close> is the sequence \<open>await a; b\<close> without a \<open>catch\<close>.\<close>

definition and_then :: "'a result \<times> 's \<Rightarrow> ('a \<Rightarrow> 's \<Rightarrow> 'b result \<times> 's) \<Rightarrow> 'b result \<times> 's" where
  "and_then r f = (case r of (Inl e, s) \<Rightarrow> (Inl e, s) | (Inr a, s) \<Rightarrow> f a s)"

lemma and_then_simps [simp]:
  "and_then (Inl e, s) f = (Inl e, s)" "and_then (Inr a, s) f = f a s"
  by (simp_all add: and_then_def)

lemma and_then_state:
  "R (snd r) \<Longrightarrow> (\<And>a s. R s \<Longrightarrow> R (snd (f a s))) \<Longrightarrow> R (snd (and_then r f))"
  by (auto simp: and_then_def split: prod.split sum.split)

lemma and_then_pure [simp]: "snd (and_then r (\<lambda>a s. (f a, s))) = snd r"
  by (auto simp: and_then_def split: prod.split sum.split)

lemma and_then_state2:
  "P (snd r) \<Longrightarrow> (\<And>s. P s \<Longrightarrow> Q s) \<Longrightarrow> (\<And>a s. P s \<Longrightarrow> Q (snd (f a s))) \<Longrightarrow> Q (snd (and_then r f))"
  by (auto simp: and_then_def split: prod.split sum.split)

section \<open>Strings\<close>

definition js_space :: "char \<Rightarrow> bool" where
  "js_space c = ((of_char c :: nat) \<in> {9, 10, 11, 12, 13, 32, 160})"

definition trim :: "string \<Rightarrow> string" where
  "trim s = rev (dropWhile js_space (rev (dropWhile js_space s)))"

definition startsWith :: "string \<Rightarrow> string \<Rightarrow> bool" where
  "startsWith s p = (take (length p) s = p)"

fun split_on :: "char \<Rightarrow> string \<Rightarrow> string list" where
  "split_on c [] = [[]]"
| "split_on c (x # xs) =
     (if x = c then [] # split_on c xs
      else (case split_on c xs of [] \<Rightarrow> [[x]] | w # ws \<Rightarrow> (x # w) # ws))"

fun join_with :: "string \<Rightarrow> string list \<Rightarrow> string" where
  "join_with sep [] = []"
| "join_with sep [w] = w"
| "join_with sep (w # v # ws) = w @ sep @ join_with sep (v # ws)"

lemma startsWith_append [simp]: "startsWith (p @ s) p"
  by (simp add: startsWith_def)

lemma startsWith_iff: "startsWith s p \<longleftrightarrow> (\<exists>r. s = p @ r)"
  by (metis append_take_drop_id startsWith_def startsWith_append)

lemma split_on_not_Nil [simp]: "split_on c s \<noteq> []"
  by (induction s) (auto split: list.splits)

lemma join_split: "join_with [c] (split_on c s) = s"
proof (induction s)
  case Nil
  then show ?case by simp
next
  case (Cons x xs)
  then show ?case
    by (cases "split_on c xs"; cases "tl (split_on c xs)") auto
qed

lemma split_on_none: "c \<notin> set a \<Longrightarrow> split_on c a = [a]"
  by (induction a) auto

lemma split_on_part: "c \<notin> set a \<Longrightarrow> split_on c (a @ c # r) = a # split_on c r"
  by (induction a) auto

lemma hd_split_on: "hd (split_on c s) = takeWhile (\<lambda>x. x \<noteq> c) s"
  by (induction s) (auto split: list.splits)

lemma split_on_two: "split_on c s = [a, b] \<longleftrightarrow> s = a @ c # b \<and> c \<notin> set a \<and> c \<notin> set b"
proof
  assume s: "split_on c s = [a, b]"
  have parts: "c \<notin> set p" if "p \<in> set (split_on c s)" for p
    using that by (induction s arbitrary: p) (auto split: list.splits if_splits)
  have "s = a @ [c] @ b" using join_split [of c s] s by simp
  then show "s = a @ c # b \<and> c \<notin> set a \<and> c \<notin> set b" using parts s by simp
qed (simp add: split_on_part split_on_none)

lemma dropWhile_fixpoint: "xs \<noteq> [] \<Longrightarrow> \<not> P (hd xs) \<Longrightarrow> dropWhile P xs = xs"
  by (cases xs) auto

lemma hd_dropWhile_not: "dropWhile P xs \<noteq> [] \<Longrightarrow> \<not> P (hd (dropWhile P xs))"
  by (rule hd_dropWhile)

lemma trim_idem [simp]: "trim (trim s) = trim s"
proof -
  let ?a = "dropWhile js_space s"
  let ?b = "dropWhile js_space (rev ?a)"
  have b: "dropWhile js_space ?b = ?b" by simp
  have "dropWhile js_space (rev ?b) = rev ?b"
  proof (cases "?b = []")
    case False
    obtain us where us: "rev ?a = us @ ?b" by (metis takeWhile_dropWhile_id)
    then have a: "?a = rev ?b @ rev us" by (metis rev_append rev_rev_ident)
    from False have "?a \<noteq> []" by (metis dropWhile.simps(1) rev.simps(1))
    from a False have "hd ?a = hd (rev ?b)" by (metis hd_append2 rev_is_Nil_conv)
    have "\<not> js_space (hd (rev ?b))"
      using hd_dropWhile_not [OF \<open>?a \<noteq> []\<close>] \<open>hd ?a = hd (rev ?b)\<close> by simp
    moreover from False have "rev ?b \<noteq> []" by (metis rev_is_Nil_conv)
    ultimately show ?thesis by (rule dropWhile_fixpoint [rotated])
  next
    case True
    then show ?thesis by (simp only: True rev.simps dropWhile.simps)
  qed
  with b show ?thesis by (simp add: trim_def)
qed

lemma length_trim_le: "length (trim s) \<le> length s"
  unfolding trim_def using length_dropWhile_le le_trans by (metis length_rev)

section \<open>Numbers in template literals\<close>

fun show_nat :: "nat \<Rightarrow> string" where
  "show_nat n = (if n < 10 then [char_of (48 + n)] else show_nat (n div 10) @ [char_of (48 + n mod 10)])"

declare show_nat.simps [simp del]

definition show_int :: "int \<Rightarrow> string" where
  "show_int i = (if i < 0 then CHR ''-'' # show_nat (nat (- i)) else show_nat (nat i))"

definition show_bool :: "bool \<Rightarrow> string" where
  "show_bool b = (if b then ''true'' else ''false'')"

definition is_digit :: "char \<Rightarrow> bool" where
  "is_digit c = (48 \<le> (of_char c :: nat) \<and> (of_char c :: nat) \<le> 57)"

definition digit_val :: "char \<Rightarrow> nat" where
  "digit_val c = of_char c - 48"

definition digit_char :: "nat \<Rightarrow> char" where
  "digit_char d = char_of (48 + d)"

definition read_nat :: "string \<Rightarrow> nat" where
  "read_nat s = foldl (\<lambda>acc c. 10 * acc + digit_val c) 0 s"

lemma digit_char_val [simp]: "d < 10 \<Longrightarrow> digit_val (digit_char d) = d"
  by (simp add: digit_val_def digit_char_def)

lemma digit_char_is_digit [simp]: "d < 10 \<Longrightarrow> is_digit (digit_char d)"
  by (simp add: is_digit_def digit_char_def)

lemma show_nat_not_Nil [simp]: "show_nat n \<noteq> []"
  by (subst show_nat.simps) simp

lemma char_of_digit_is_digit: "d < 10 \<Longrightarrow> is_digit (char_of (48 + d :: nat))"
  by (simp add: is_digit_def)

lemma show_nat_digits: "list_all is_digit (show_nat n)"
proof (induction n rule: show_nat.induct)
  case (1 n)
  then show ?case
    by (subst show_nat.simps) (simp add: char_of_digit_is_digit)
qed

lemma read_show_nat: "read_nat (show_nat n) = n"
proof (induction n rule: show_nat.induct)
  case (1 n)
  then show ?case
    by (subst show_nat.simps) (auto simp: read_nat_def digit_val_def)
qed

lemma show_nat_inj: "show_nat m = show_nat n \<longleftrightarrow> m = n"
  by (metis read_show_nat)

section \<open>Lists read by key\<close>

text \<open>\<open>Array.prototype.find\<close> is \<^const>\<open>find\<close>; these are the facts the tables and stores share.\<close>

lemma find_Some_in: "find P xs = Some x \<Longrightarrow> x \<in> set xs \<and> P x"
  by (auto simp: find_Some_iff)

lemma find_append: "find P (xs @ ys) = (case find P xs of None \<Rightarrow> find P ys | Some x \<Rightarrow> Some x)"
  by (induction xs) auto

lemma find_None_filter: "find P xs = None \<longleftrightarrow> filter P xs = []"
  by (induction xs) auto

lemma find_distinct_key:
  assumes "distinct (map key xs)" and "x \<in> set xs"
  shows "find (\<lambda>r. key r = key x) xs = Some x"
  using assms
proof (induction xs)
  case Nil
  then show ?case by simp
next
  case (Cons y ys)
  then show ?case by (auto simp: image_iff)
qed

lemma find_cong_set: "(\<And>x. x \<in> set xs \<Longrightarrow> P x = Q x) \<Longrightarrow> find P xs = find Q xs"
  by (induction xs) auto

section \<open>Insertion-ordered maps\<close>

text \<open>\<open>Map\<close> and plain objects keep their keys in insertion order; setting a present key keeps
  its place. An association list without duplicate keys, read with \<^const>\<open>map_of\<close>.\<close>

fun assoc_set :: "'k \<Rightarrow> 'v \<Rightarrow> ('k \<times> 'v) list \<Rightarrow> ('k \<times> 'v) list" where
  "assoc_set k v [] = [(k, v)]"
| "assoc_set k v ((k', v') # m) = (if k = k' then (k, v) # m else (k', v') # assoc_set k v m)"

lemma map_of_assoc_set [simp]: "map_of (assoc_set k v m) = (map_of m)(k \<mapsto> v)"
  by (induction k v m rule: assoc_set.induct) (auto simp: fun_eq_iff)

lemma keys_assoc_set: "fst ` set (assoc_set k v m) = insert k (fst ` set m)"
  by (induction k v m rule: assoc_set.induct) auto

lemma distinct_assoc_set: "distinct (map fst m) \<Longrightarrow> distinct (map fst (assoc_set k v m))"
proof (induction k v m rule: assoc_set.induct)
  case (2 k v k' v' m)
  have "k' \<in> set (map fst (assoc_set k v m)) \<longleftrightarrow> k' = k \<or> k' \<in> set (map fst m)"
    using keys_assoc_set [of k v m] by (metis insert_iff set_map)
  with 2 show ?case by auto
qed simp

text \<open>The object literal \<open>{...a, ...b}\<close>.\<close>

definition spread :: "('k \<times> 'v) list \<Rightarrow> ('k \<times> 'v) list \<Rightarrow> ('k \<times> 'v) list" where
  "spread a b = fold (\<lambda>(k, v) m. assoc_set k v m) b a"

lemma map_of_fold_assoc_set:
  "map_of (fold (\<lambda>(k, v) m. assoc_set k v m) b a) = fold (\<lambda>(k, v) f. f(k \<mapsto> v)) b (map_of a)"
  by (induction b arbitrary: a) auto

lemma fold_upd_distinct:
  "distinct (map fst b) \<Longrightarrow> fold (\<lambda>(k, v) f. f(k \<mapsto> v)) b g = g ++ map_of b"
proof (induction b arbitrary: g)
  case Nil
  then show ?case by simp
next
  case (Cons p b)
  obtain k v where p: "p = (k, v)" by (cases p)
  with Cons.prems have "k \<notin> dom (map_of b)" by (simp add: dom_map_of_conv_image_fst)
  with Cons p show ?case by (auto simp: fun_eq_iff map_add_def split: option.splits)
qed

lemma map_of_spread: "distinct (map fst b) \<Longrightarrow> map_of (spread a b) = map_of a ++ map_of b"
  by (simp add: spread_def map_of_fold_assoc_set fold_upd_distinct)

lemma distinct_spread: "distinct (map fst a) \<Longrightarrow> distinct (map fst (spread a b))"
  unfolding spread_def by (induction b arbitrary: a) (auto simp: distinct_assoc_set)

section \<open>JSON\<close>

text \<open>The JSON values the code hashes hold strings, booleans, nulls, integers, arrays and
  objects; a number is an integer here.\<close>

datatype json =
    JNull
  | JBool bool
  | JNum int
  | JStr string
  | JArr "json list"
  | JObj "(string \<times> json) list"

definition json_escape_char :: "char \<Rightarrow> string" where
  "json_escape_char c =
     (if c = CHR 0x22 then [CHR 0x5C, CHR 0x22]
      else if c = CHR 0x5C then [CHR 0x5C, CHR 0x5C]
      else if c = CHR 0x0A then [CHR 0x5C, CHR ''n'']
      else if c = CHR 0x0D then [CHR 0x5C, CHR ''r'']
      else if c = CHR 0x09 then [CHR 0x5C, CHR ''t'']
      else if c = CHR 0x08 then [CHR 0x5C, CHR ''b'']
      else if c = CHR 0x0C then [CHR 0x5C, CHR ''f'']
      else if (of_char c :: nat) < 32 then
        [CHR 0x5C, CHR ''u'', CHR ''0'', CHR ''0'',
         (if (of_char c :: nat) < 16 then CHR ''0'' else CHR ''1''),
         ''0123456789abcdef'' ! ((of_char c :: nat) mod 16)]
      else [c])"

definition json_quote :: "string \<Rightarrow> string" where
  "json_quote s = CHR 0x22 # concat (map json_escape_char s) @ [CHR 0x22]"

fun stringify :: "json \<Rightarrow> string" where
  "stringify JNull = ''null''"
| "stringify (JBool b) = show_bool b"
| "stringify (JNum i) = show_int i"
| "stringify (JStr s) = json_quote s"
| "stringify (JArr xs) = ''['' @ join_with '','' (map stringify xs) @ '']''"
| "stringify (JObj kvs) =
     ''{'' @ join_with '','' (map (\<lambda>(k, v). json_quote k @ '':'' @ stringify v) kvs) @ ''}''"

section \<open>Step machines\<close>

text \<open>A component whose operations are given by a total step function keeps a predicate over
  a whole run once each operation keeps it. Components interpret this interface with their own
  step and invariant.\<close>

locale invariant_machine =
  fixes step :: "'o \<Rightarrow> 's \<Rightarrow> 's" and inv :: "'s \<Rightarrow> bool"
  assumes step_inv: "inv s \<Longrightarrow> inv (step o' s)"
begin

lemma run_inv: "inv s \<Longrightarrow> inv (fold step os s)"
  by (induction os arbitrary: s) (auto simp: step_inv)

end

text \<open>The same for a quantity that no operation lowers.\<close>

locale monotone_machine =
  fixes step :: "'o \<Rightarrow> 's \<Rightarrow> 's" and rank :: "'s \<Rightarrow> 'r::preorder"
  assumes step_mono: "rank s \<le> rank (step o' s)"
begin

lemma run_mono: "rank s \<le> rank (fold step os s)"
proof (induction os arbitrary: s)
  case Nil
  then show ?case by simp
next
  case (Cons x xs)
  have "rank s \<le> rank (step x s)" by (rule step_mono)
  also have "\<dots> \<le> rank (fold step xs (step x s))" by (rule Cons.IH)
  finally show ?case by simp
qed

lemma prefix_mono: "rank (fold step as s) \<le> rank (fold step (as @ bs) s)"
  by (simp add: run_mono)

end

end
