(* ===== verification/Js_Date.thy ===== *)
theory Js_Date
  imports Js_Prelude
begin

text \<open>
  The two conversions of \<open>Date\<close> the code relies on. An instant is a number of milliseconds
  since 1970-01-01T00:00:00Z; \<open>toISO\<close> is \<open>new Date(t).toISOString()\<close> and \<open>dateParse\<close> is
  \<open>Date.parse\<close> on the interchange format of the language standard
  (\<open>YYYY-MM-DD\<close> or \<open>YYYY-MM-DDTHH:mm[:ss[.sss]]\<close> with \<open>Z\<close> or a numeric offset, four-digit or
  signed six-digit years). \<open>None\<close> stands for \<open>NaN\<close>; a text outside that format, which the
  standard leaves to the engine, is \<open>None\<close> too. The main lemma is the round trip
  \<open>dateParse (toISO t) = t\<close> over the whole time range of the language.
\<close>

section \<open>Civil dates\<close>

text \<open>Days since 1970-01-01 of a date of the proleptic Gregorian calendar, and back. The year
  is counted from March inside, so that the leap day is the last day.\<close>

definition days_from_civil :: "int \<Rightarrow> int \<Rightarrow> int \<Rightarrow> int" where
  "days_from_civil y m d =
     (let y' = (if m \<le> 2 then y - 1 else y);
          era = y' div 400;
          yoe = y' mod 400;
          mp = (if 2 < m then m - 3 else m + 9);
          doy = (153 * mp + 2) div 5 + d - 1;
          doe = yoe * 365 + yoe div 4 - yoe div 100 + doy
      in era * 146097 + doe - 719468)"

definition civil_from_days :: "int \<Rightarrow> int \<times> int \<times> int" where
  "civil_from_days z =
     (let z' = z + 719468;
          era = z' div 146097;
          doe = z' mod 146097;
          n100 = min 3 (doe div 36524);
          r = doe - n100 * 36524;
          n4 = r div 1461;
          r4 = r mod 1461;
          n1 = min 3 (r4 div 365);
          doy = r4 - n1 * 365;
          yoe = n100 * 100 + n4 * 4 + n1;
          mp = (5 * doy + 2) div 153;
          d = doy - (153 * mp + 2) div 5 + 1;
          m = (if mp < 10 then mp + 3 else mp - 9);
          y = era * 400 + yoe
      in (if m \<le> 2 then y + 1 else y, m, d))"

lemma yoe_days:
  assumes "0 \<le> n100" "n100 \<le> 3" "0 \<le> n4" "n4 \<le> 24" "0 \<le> n1" "n1 \<le> (3::int)"
  shows "(n100 * 100 + n4 * 4 + n1) div 4 = n100 * 25 + n4"
    and "(n100 * 100 + n4 * 4 + n1) div 100 = n100"
    and "(n100 * 100 + n4 * 4 + n1) mod 400 = n100 * 100 + n4 * 4 + n1"
    and "(x * 400 + (n100 * 100 + n4 * 4 + n1)) div 400 = x"
    and "(x * 400 + (n100 * 100 + n4 * 4 + n1)) mod 400 = n100 * 100 + n4 * 4 + n1"
proof -
  let ?y = "n100 * 100 + n4 * 4 + n1"
  have "?y = n1 + (n100 * 25 + n4) * 4" by simp
  then show "?y div 4 = n100 * 25 + n4"
    using assms by (simp only: div_mult_self1)
  have "?y = (n4 * 4 + n1) + n100 * 100" by simp
  moreover have "(n4 * 4 + n1) div 100 = 0" using assms by (simp add: div_pos_pos_trivial)
  ultimately show "?y div 100 = n100"
    by (simp only: div_mult_self1)
  have y: "0 \<le> ?y" "?y < 400" using assms by linarith+
  then show "?y mod 400 = ?y" by (rule mod_pos_pos_trivial)
  have "?y div 400 = 0" using y by (rule div_pos_pos_trivial)
  then show "(x * 400 + ?y) div 400 = x" by (simp only: add.commute [of "x * 400"] div_mult_self1)
  show "(x * 400 + ?y) mod 400 = ?y"
    using mod_pos_pos_trivial [OF y] by (simp only: add.commute [of "x * 400"] mod_mult_self1)
qed

text \<open>The era, century, cycle and year numbers of a day, with their ranges.\<close>

lemma civil_parts:
  fixes z :: int
  defines "doe \<equiv> z mod 146097"
  defines "n100 \<equiv> min 3 (doe div 36524)"
  defines "r \<equiv> doe - n100 * 36524"
  defines "n4 \<equiv> r div 1461"
  defines "r4 \<equiv> r mod 1461"
  defines "n1 \<equiv> min 3 (r4 div 365)"
  defines "doy \<equiv> r4 - n1 * 365"
  shows "0 \<le> n100" "n100 \<le> 3" "0 \<le> n4" "n4 \<le> 24" "0 \<le> n1" "n1 \<le> 3" "0 \<le> doy" "doy \<le> 365"
    and "doe = n100 * 36524 + n4 * 1461 + n1 * 365 + doy"
proof -
  have doe: "0 \<le> doe" "doe < 146097" by (simp_all add: doe_def)
  then show n100: "0 \<le> n100" "n100 \<le> 3" by (simp_all add: n100_def)
  have r: "0 \<le> r" "r \<le> 36524"
    using doe by (auto simp: r_def n100_def min_def split: if_splits)
  then show "0 \<le> n4" "n4 \<le> 24" by (auto simp: n4_def)
  have r4: "0 \<le> r4" "r4 < 1461" by (simp_all add: r4_def)
  then show "0 \<le> n1" "n1 \<le> 3" by (simp_all add: n1_def)
  show "0 \<le> doy" "doy \<le> 365"
    using r4 by (auto simp: doy_def n1_def min_def split: if_splits)
  have "r = n4 * 1461 + r4" by (simp add: n4_def r4_def)
  then show "doe = n100 * 36524 + n4 * 1461 + n1 * 365 + doy"
    by (simp add: r_def doy_def)
qed

lemma month_parts:
  assumes "0 \<le> doy" "doy \<le> (365::int)"
  shows "0 \<le> (5 * doy + 2) div 153" and "(5 * doy + 2) div 153 \<le> 11"
    and "1 \<le> doy - (153 * ((5 * doy + 2) div 153) + 2) div 5 + 1"
    and "doy - (153 * ((5 * doy + 2) div 153) + 2) div 5 + 1 \<le> 31"
proof -
  define mp where "mp = (5 * doy + 2) div 153"
  define q where "q = (153 * mp + 2) div 5"
  have mp: "153 * mp \<le> 5 * doy + 2" "5 * doy + 2 < 153 * mp + 153"
    unfolding mp_def by linarith+
  have q: "5 * q \<le> 153 * mp + 2" "153 * mp + 2 < 5 * q + 5"
    unfolding q_def by linarith+
  show "0 \<le> (5 * doy + 2) div 153" using assms by simp
  show "(5 * doy + 2) div 153 \<le> 11" using mp assms unfolding mp_def [symmetric] by linarith
  show "1 \<le> doy - (153 * ((5 * doy + 2) div 153) + 2) div 5 + 1"
    unfolding mp_def [symmetric] q_def [symmetric] using mp q by linarith
  show "doy - (153 * ((5 * doy + 2) div 153) + 2) div 5 + 1 \<le> 31"
    unfolding mp_def [symmetric] q_def [symmetric] using mp q by linarith
qed

lemma civil_from_days_parts:
  assumes "civil_from_days z = (y, m, d)"
  obtains era n100 n4 n1 doy mp :: int where
    "0 \<le> n100" "n100 \<le> 3" "0 \<le> n4" "n4 \<le> 24" "0 \<le> n1" "n1 \<le> 3"
    "0 \<le> doy" "doy \<le> 365" "mp = (5 * doy + 2) div 153"
    "z + 719468 = era * 146097 + (n100 * 36524 + n4 * 1461 + n1 * 365 + doy)"
    "m = (if mp < 10 then mp + 3 else mp - 9)"
    "d = doy - (153 * mp + 2) div 5 + 1"
    "y = (if m \<le> 2 then era * 400 + (n100 * 100 + n4 * 4 + n1) + 1
          else era * 400 + (n100 * 100 + n4 * 4 + n1))"
proof -
  define z' where "z' = z + 719468"
  define era where "era = z' div 146097"
  define doe where "doe = z' mod 146097"
  define n100 where "n100 = min 3 (doe div 36524)"
  define n4 where "n4 = (doe - n100 * 36524) div 1461"
  define r4 where "r4 = (doe - n100 * 36524) mod 1461"
  define n1 where "n1 = min 3 (r4 div 365)"
  define doy where "doy = r4 - n1 * 365"
  define mp where "mp = (5 * doy + 2) div 153"
  note parts = civil_parts [of z', folded doe_def, folded n100_def, folded n4_def r4_def,
      folded n1_def, folded doy_def]
  have z: "z + 719468 = era * 146097 + (n100 * 36524 + n4 * 1461 + n1 * 365 + doy)"
    unfolding parts(9) [symmetric] by (simp add: era_def doe_def flip: z'_def)
  have eqs: "(y, m, d) =
      (let m' = (if mp < 10 then mp + 3 else mp - 9)
       in (if m' \<le> 2 then era * 400 + (n100 * 100 + n4 * 4 + n1) + 1
           else era * 400 + (n100 * 100 + n4 * 4 + n1), m', doy - (153 * mp + 2) div 5 + 1))"
    unfolding assms [symmetric] civil_from_days_def Let_def mp_def doy_def n1_def r4_def n4_def
      n100_def doe_def era_def z'_def by (rule refl)
  from eqs have "m = (if mp < 10 then mp + 3 else mp - 9)"
    "d = doy - (153 * mp + 2) div 5 + 1"
    "y = (if m \<le> 2 then era * 400 + (n100 * 100 + n4 * 4 + n1) + 1
          else era * 400 + (n100 * 100 + n4 * 4 + n1))"
    by (simp_all only: Let_def prod.inject)
  then show thesis by (rule that [OF parts(1-8) mp_def z])
qed

lemma civil_ranges:
  assumes "civil_from_days z = (y, m, d)"
  shows "1 \<le> m" "m \<le> 12" "1 \<le> d" "d \<le> 31"
proof -
  obtain doy mp :: int where doy: "0 \<le> doy" "doy \<le> 365" and mp: "mp = (5 * doy + 2) div 153"
    and m: "m = (if mp < 10 then mp + 3 else mp - 9)"
    and d: "d = doy - (153 * mp + 2) div 5 + 1"
    using civil_from_days_parts [OF assms] by metis
  note months = month_parts [OF doy, folded mp]
  show "1 \<le> m" "m \<le> 12" using months(1,2) by (simp_all add: m)
  show "1 \<le> d" "d \<le> 31" using months(3,4) by (simp_all add: d)
qed

lemma days_from_civil_from_days:
  assumes "civil_from_days z = (y, m, d)"
  shows "days_from_civil y m d = z"
proof -
  obtain era n100 n4 n1 doy mp :: int where
    r: "0 \<le> n100" "n100 \<le> 3" "0 \<le> n4" "n4 \<le> 24" "0 \<le> n1" "n1 \<le> 3"
    and doy: "0 \<le> doy" "doy \<le> 365" and mp: "mp = (5 * doy + 2) div 153"
    and z: "z + 719468 = era * 146097 + (n100 * 36524 + n4 * 1461 + n1 * 365 + doy)"
    and m: "m = (if mp < 10 then mp + 3 else mp - 9)"
    and d: "d = doy - (153 * mp + 2) div 5 + 1"
    and y: "y = (if m \<le> 2 then era * 400 + (n100 * 100 + n4 * 4 + n1) + 1
          else era * 400 + (n100 * 100 + n4 * 4 + n1))"
    by (rule civil_from_days_parts [OF assms])
  note months = month_parts [OF doy, folded mp]
  note ye = yoe_days [OF r]
  have mp': "(if 2 < m then m - 3 else m + 9) = mp" using months(1,2) by (simp add: m)
  have y': "(if m \<le> 2 then y - 1 else y) = era * 400 + (n100 * 100 + n4 * 4 + n1)"
    by (simp add: y)
  have "days_from_civil y m d = era * 146097 + ((n100 * 100 + n4 * 4 + n1) * 365
      + (n100 * 25 + n4) - n100 + doy) - 719468"
    unfolding days_from_civil_def Let_def mp' y' ye(1-5) by (simp add: d)
  also have "\<dots> = z" using z by simp
  finally show ?thesis .
qed


section \<open>Fixed-width decimal fields\<close>

fun pad :: "nat \<Rightarrow> nat \<Rightarrow> string" where
  "pad 0 n = []"
| "pad (Suc w) n = pad w (n div 10) @ [digit_char (n mod 10)]"

lemma length_pad [simp]: "length (pad w n) = w"
  by (induction w n rule: pad.induct) auto

lemma pad_digits [simp]: "list_all is_digit (pad w n)"
  by (induction w n rule: pad.induct) auto

lemma read_nat_snoc: "read_nat (s @ [c]) = 10 * read_nat s + digit_val c"
  by (simp add: read_nat_def)

lemma read_pad: "n < 10 ^ w \<Longrightarrow> read_nat (pad w n) = n"
proof (induction w n rule: pad.induct)
  case (1 n)
  then show ?case by (simp add: read_nat_def)
next
  case (2 w n)
  then have "n div 10 < 10 ^ w" by (simp add: less_mult_imp_div_less mult.commute)
  with "2.IH" show ?case by (simp add: read_nat_snoc)
qed

definition take_num :: "nat \<Rightarrow> string \<Rightarrow> (nat \<times> string) option" where
  "take_num w s =
     (if w \<le> length s \<and> list_all is_digit (take w s) then Some (read_nat (take w s), drop w s)
      else None)"

definition take_char :: "char \<Rightarrow> string \<Rightarrow> string option" where
  "take_char c s = (case s of [] \<Rightarrow> None | x # xs \<Rightarrow> if x = c then Some xs else None)"

lemma take_num_pad: "n < 10 ^ w \<Longrightarrow> take_num w (pad w n @ s) = Some (n, s)"
  by (simp add: take_num_def read_pad)

lemma take_char_simps [simp]:
  "take_char c (c # s) = Some s" "take_char c [] = None"
  "x \<noteq> c \<Longrightarrow> take_char c (x # s) = None"
  by (simp_all add: take_char_def)

section \<open>Printing an instant\<close>

definition ms_per_day :: int where "ms_per_day = 86400000"

definition max_time :: int where "max_time = 8640000000000000"

definition year_text :: "int \<Rightarrow> string" where
  "year_text y =
     (if 0 \<le> y \<and> y \<le> 9999 then pad 4 (nat y)
      else (if y < 0 then CHR ''-'' else CHR ''+'') # pad 6 (nat \<bar>y\<bar>))"

definition time_text :: "int \<Rightarrow> string" where
  "time_text ms =
     pad 2 (nat (ms div 3600000)) @ CHR '':'' # pad 2 (nat (ms div 60000 mod 60)) @
     CHR '':'' # pad 2 (nat (ms div 1000 mod 60)) @ CHR ''.'' # pad 3 (nat (ms mod 1000)) @ ''Z''"

definition iso_text :: "int \<Rightarrow> string" where
  "iso_text t =
     (case civil_from_days (t div ms_per_day) of (y, m, d) \<Rightarrow>
        year_text y @ CHR ''-'' # pad 2 (nat m) @ CHR ''-'' # pad 2 (nat d) @
        CHR ''T'' # time_text (t mod ms_per_day))"

fun toISO :: "int option \<Rightarrow> string result" where
  "toISO None = Inl (RangeError ''Invalid time value'')"
| "toISO (Some t) =
     (if \<bar>t\<bar> \<le> max_time then Inr (iso_text t) else Inl (RangeError ''Invalid time value''))"

section \<open>Reading an instant\<close>

definition parse_year :: "string \<Rightarrow> (int \<times> string) option" where
  "parse_year s =
     (case s of
        [] \<Rightarrow> None
      | c # cs \<Rightarrow>
          if c = CHR ''+'' then map_option (\<lambda>(n, r). (int n, r)) (take_num 6 cs)
          else if c = CHR ''-'' then
            (case take_num 6 cs of
               None \<Rightarrow> None
             | Some (n, r) \<Rightarrow> if n = 0 then None else Some (- int n, r))
          else map_option (\<lambda>(n, r). (int n, r)) (take_num 4 s))"

text \<open>The zone designator, up to the end of the text, in minutes east of UTC.\<close>

definition parse_zone :: "string \<Rightarrow> int option" where
  "parse_zone s =
     (case s of
        [] \<Rightarrow> None
      | c # cs \<Rightarrow>
          if c = CHR ''Z'' then (if cs = [] then Some 0 else None)
          else if c = CHR ''+'' \<or> c = CHR ''-'' then
            Option.bind (take_num 2 cs) (\<lambda>(h, r).
            Option.bind (take_char CHR '':'' r) (\<lambda>r.
            Option.bind (take_num 2 r) (\<lambda>(m, r).
              if r = [] \<and> h < 24 \<and> m < 60
              then Some ((if c = CHR ''-'' then -1 else 1) * int (60 * h + m)) else None)))
          else None)"

definition time_ms :: "nat \<Rightarrow> nat \<Rightarrow> nat \<Rightarrow> nat \<Rightarrow> string \<Rightarrow> int option" where
  "time_ms h m s f r =
     (if (h < 24 \<or> h = 24 \<and> m = 0 \<and> s = 0 \<and> f = 0) \<and> m < 60 \<and> s < 60
      then map_option (\<lambda>z. int (h * 3600000 + m * 60000 + s * 1000 + f) - z * 60000) (parse_zone r)
      else None)"

text \<open>The part after \<open>T\<close>: hours and minutes, then optional seconds and milliseconds, then
  the zone. A time without a zone is local time, which depends on the host: \<open>None\<close>.\<close>

definition parse_time :: "string \<Rightarrow> int option" where
  "parse_time s =
     Option.bind (take_num 2 s) (\<lambda>(h, r).
     Option.bind (take_char CHR '':'' r) (\<lambda>r.
     Option.bind (take_num 2 r) (\<lambda>(m, r).
       case take_char CHR '':'' r of
         None \<Rightarrow> time_ms h m 0 0 r
       | Some r' \<Rightarrow>
           Option.bind (take_num 2 r') (\<lambda>(sec, r).
             case take_char CHR ''.'' r of
               None \<Rightarrow> time_ms h m sec 0 r
             | Some r' \<Rightarrow> Option.bind (take_num 3 r') (\<lambda>(f, r). time_ms h m sec f r)))))"

text \<open>Days up to 31 are taken in every month and carried into the next, as the runtime's
  engine does.\<close>

definition time_clip :: "int \<Rightarrow> int option" where
  "time_clip t = (if \<bar>t\<bar> \<le> max_time then Some t else None)"

definition dateParse :: "string \<Rightarrow> int option" where
  "dateParse s =
     Option.bind (parse_year s) (\<lambda>(y, r).
     Option.bind (take_char CHR ''-'' r) (\<lambda>r.
     Option.bind (take_num 2 r) (\<lambda>(m, r).
     Option.bind (take_char CHR ''-'' r) (\<lambda>r.
     Option.bind (take_num 2 r) (\<lambda>(d, r).
       if 1 \<le> m \<and> m \<le> 12 \<and> 1 \<le> d \<and> d \<le> 31 then
         (let day = days_from_civil y (int m) (int d) * ms_per_day in
          if r = [] then time_clip day
          else Option.bind (take_char CHR ''T'' r) (\<lambda>r.
               Option.bind (parse_time r) (\<lambda>ms. time_clip (day + ms))))
       else None)))))"

section \<open>Round trip\<close>

lemma year_bound:
  assumes "\<bar>t\<bar> \<le> max_time" "civil_from_days (t div ms_per_day) = (y, m, d)"
  shows "\<bar>y\<bar> < 1000000"
proof -
  obtain era n100 n4 n1 doy :: int where
    r: "0 \<le> n100" "n100 \<le> 3" "0 \<le> n4" "n4 \<le> 24" "0 \<le> n1" "n1 \<le> 3" "0 \<le> doy" "doy \<le> 365"
    and z: "t div ms_per_day + 719468 = era * 146097 + (n100 * 36524 + n4 * 1461 + n1 * 365 + doy)"
    and y: "y = (if m \<le> 2 then era * 400 + (n100 * 100 + n4 * 4 + n1) + 1
          else era * 400 + (n100 * 100 + n4 * 4 + n1))"
    by (rule civil_from_days_parts [OF assms(2)])
  have "-100000001 \<le> t div ms_per_day" "t div ms_per_day \<le> 100000000"
    using assms(1) by (simp_all add: max_time_def ms_per_day_def)
  with z r have "-1000 \<le> era" "era \<le> 1000" by linarith+
  with y r show ?thesis by (auto split: if_splits)
qed

lemma is_digit_hd_pad: "0 < w \<Longrightarrow> is_digit (hd (pad w n))"
  by (metis length_greater_0_conv length_pad list.pred_set list.set_sel(1) pad_digits)

lemma not_is_digit_sign [simp]: "\<not> is_digit CHR ''+''" "\<not> is_digit CHR ''-''"
  by (simp_all add: is_digit_def)

lemma parse_year_text:
  assumes "\<bar>y\<bar> < 1000000"
  shows "parse_year (year_text y @ s) = Some (y, s)"
proof (cases "0 \<le> y \<and> y \<le> 9999")
  case True
  obtain c cs where c: "pad 4 (nat y) = c # cs" by (cases "pad 4 (nat y)") (auto dest: arg_cong [where f = length])
  with is_digit_hd_pad [of 4 "nat y"] have "c \<noteq> CHR ''+''" "c \<noteq> CHR ''-''" by auto
  moreover have "take_num 4 (c # cs @ s) = Some (nat y, s)"
    using take_num_pad [of "nat y" 4 s] True c by (auto simp: nat_less_iff)
  ultimately show ?thesis using True by (simp add: parse_year_def year_text_def c)
next
  case False
  with assms take_num_pad [of "nat \<bar>y\<bar>" 6 s] show ?thesis
    by (auto simp: parse_year_def year_text_def)
qed

lemma parse_time_text:
  assumes "0 \<le> ms" "ms < ms_per_day"
  shows "parse_time (time_text ms) = Some ms"
proof -
  define h m s f where "h = nat (ms div 3600000)" and "m = nat (ms div 60000 mod 60)"
    and "s = nat (ms div 1000 mod 60)" and "f = nat (ms mod 1000)"
  have "ms div 3600000 < 24" using assms by (simp add: ms_per_day_def)
  then have b: "h < 24" "m < 60" "s < 60" "f < 1000"
    by (simp_all add: h_def m_def s_def f_def)
  have "ms div 3600000 = ms div 60000 div 60" "ms div 60000 = ms div 1000 div 60"
    using zdiv_zmult2_eq [of 60 ms 60000] zdiv_zmult2_eq [of 60 ms 1000] by simp_all
  moreover have "ms div 60000 = 60 * (ms div 60000 div 60) + ms div 60000 mod 60"
    "ms div 1000 = 60 * (ms div 1000 div 60) + ms div 1000 mod 60"
    "ms = 1000 * (ms div 1000) + ms mod 1000" by simp_all
  ultimately have "ms div 3600000 * 3600000 + ms div 60000 mod 60 * 60000
      + ms div 1000 mod 60 * 1000 + ms mod 1000 = ms" by linarith
  then have "int h * 3600000 + int m * 60000 + int s * 1000 + int f = ms"
    using assms(1) unfolding h_def m_def s_def f_def
    by (simp only: int_nat_eq pos_imp_zdiv_nonneg_iff pos_mod_sign zero_less_numeral if_True)
  then have ms: "int (h * 3600000 + m * 60000 + s * 1000 + f) = ms" by simp
  have n: "take_num 2 (pad 2 h @ r) = Some (h, r)" "take_num 2 (pad 2 m @ r) = Some (m, r)"
    "take_num 2 (pad 2 s @ r) = Some (s, r)" "take_num 3 (pad 3 f @ r) = Some (f, r)" for r
    using b by (simp_all add: take_num_pad)
  have "parse_time (time_text ms) = time_ms h m s f ''Z''"
    unfolding parse_time_def time_text_def h_def [symmetric] m_def [symmetric] s_def [symmetric]
      f_def [symmetric] by (simp add: n)
  also have "\<dots> = Some ms" using b ms by (simp add: time_ms_def parse_zone_def)
  finally show ?thesis .
qed

theorem dateParse_iso_text:
  assumes "\<bar>t\<bar> \<le> max_time"
  shows "dateParse (iso_text t) = Some t"
proof -
  obtain y m d where c: "civil_from_days (t div ms_per_day) = (y, m, d)"
    by (cases "civil_from_days (t div ms_per_day)")
  note r = civil_ranges [OF c]
  have t: "days_from_civil y m d * ms_per_day + t mod ms_per_day = t"
    by (simp add: days_from_civil_from_days [OF c])
  have n: "take_num 2 (pad 2 (nat m) @ s) = Some (nat m, s)"
    "take_num 2 (pad 2 (nat d) @ s) = Some (nat d, s)" for s
    using r by (simp_all add: take_num_pad)
  have "parse_time (time_text (t mod ms_per_day)) = Some (t mod ms_per_day)"
    by (rule parse_time_text) (simp_all add: ms_per_day_def)
  moreover from r have "1 \<le> nat m \<and> nat m \<le> 12 \<and> 1 \<le> nat d \<and> nat d \<le> 31" by linarith
  ultimately show ?thesis using r t assms
    by (simp add: dateParse_def iso_text_def c parse_year_text year_bound [OF assms c] n time_clip_def)
qed

lemma toISO_Some: "toISO (Some t) = Inr s \<Longrightarrow> dateParse s = Some t"
  by (auto simp: dateParse_iso_text split: if_splits)

lemma toISO_inj: "toISO (Some t) = Inr s \<Longrightarrow> toISO (Some u) = Inr s \<Longrightarrow> t = u"
  by (metis toISO_Some option.inject)

lemma dateParse_range: "dateParse s = Some t \<Longrightarrow> \<bar>t\<bar> \<le> max_time"
  by (auto simp: dateParse_def time_clip_def Let_def bind_eq_Some_conv split: if_splits prod.splits)

section \<open>Evaluating on concrete texts\<close>

lemma pad_numerals:
  "pad 2 n = [digit_char (n div 10 mod 10), digit_char (n mod 10)]"
  "pad 3 n = [digit_char (n div 10 div 10 mod 10), digit_char (n div 10 mod 10), digit_char (n mod 10)]"
  "pad 4 n = [digit_char (n div 10 div 10 div 10 mod 10), digit_char (n div 10 div 10 mod 10),
     digit_char (n div 10 mod 10), digit_char (n mod 10)]"
proof -
  have n: "(2::nat) = Suc (Suc 0)" "(3::nat) = Suc (Suc (Suc 0))" "(4::nat) = Suc (Suc (Suc (Suc 0)))"
    by simp_all
  show "pad 2 n = [digit_char (n div 10 mod 10), digit_char (n mod 10)]"
    "pad 3 n = [digit_char (n div 10 div 10 mod 10), digit_char (n div 10 mod 10), digit_char (n mod 10)]"
    "pad 4 n = [digit_char (n div 10 div 10 div 10 mod 10), digit_char (n div 10 div 10 mod 10),
     digit_char (n div 10 mod 10), digit_char (n mod 10)]"
    unfolding n by (simp_all only: pad.simps append.simps)
qed

lemmas date_eval = dateParse_def parse_year_def take_num_def take_char_def parse_time_def time_ms_def
  parse_zone_def time_clip_def max_time_def ms_per_day_def days_from_civil_def is_digit_def
  read_nat_def digit_val_def

lemmas iso_eval = iso_text_def civil_from_days_def time_text_def year_text_def
  ms_per_day_def max_time_def pad_numerals digit_char_def

end
