(* ===== verification/Sql_Table.thy ===== *)
theory Sql_Table
  imports Js_Prelude
begin

text \<open>
  Relational tables as the code's SQL statements see them: a table is the list of its rows in
  insertion order, a \<open>SELECT\<close> is a filter, an \<open>UPDATE ... WHERE\<close> rewrites the matching rows,
  an \<open>INSERT ... ON CONFLICT DO NOTHING\<close> appends a row unless one with the same key is there.
  The interface \<open>keyed_table\<close> states what a client of a table with a unique key relies on; the
  list table provides it for every key function.
\<close>

section \<open>Statements\<close>

definition select :: "('r \<Rightarrow> bool) \<Rightarrow> 'r list \<Rightarrow> 'r list" where
  "select P t = filter P t"

definition update_where :: "('r \<Rightarrow> bool) \<Rightarrow> ('r \<Rightarrow> 'r) \<Rightarrow> 'r list \<Rightarrow> 'r list" where
  "update_where P f t = map (\<lambda>r. if P r then f r else r) t"

definition has_key :: "('r \<Rightarrow> 'k) \<Rightarrow> 'k \<Rightarrow> 'r list \<Rightarrow> bool" where
  "has_key key k t = list_ex (\<lambda>r. key r = k) t"

definition row_of :: "('r \<Rightarrow> 'k) \<Rightarrow> 'r list \<Rightarrow> 'k \<Rightarrow> 'r option" where
  "row_of key t k = find (\<lambda>r. key r = k) t"

definition insert_new :: "('r \<Rightarrow> 'k) \<Rightarrow> 'r \<Rightarrow> 'r list \<Rightarrow> 'r list" where
  "insert_new key r t = (if has_key key (key r) t then t else t @ [r])"

definition update_key :: "('r \<Rightarrow> 'k) \<Rightarrow> 'k \<Rightarrow> ('r \<Rightarrow> 'r) \<Rightarrow> 'r list \<Rightarrow> 'r list" where
  "update_key key k f t = update_where (\<lambda>r. key r = k) f t"

definition unique_key :: "('r \<Rightarrow> 'k) \<Rightarrow> 'r list \<Rightarrow> bool" where
  "unique_key key t = distinct (map key t)"

section \<open>Facts shared by the tables\<close>

lemma has_key_iff: "has_key key k t \<longleftrightarrow> k \<in> key ` set t"
  by (auto simp: has_key_def list_ex_iff)

lemma row_of_None: "row_of key t k = None \<longleftrightarrow> \<not> has_key key k t"
  by (auto simp: row_of_def has_key_iff find_None_iff)

lemma row_of_Some_key: "row_of key t k = Some r \<Longrightarrow> key r = k \<and> r \<in> set t"
  by (auto simp: row_of_def dest: find_Some_in)

lemma has_keyI: "r \<in> set t \<Longrightarrow> has_key key (key r) t"
  by (simp add: has_key_iff)

lemma row_of_has_key: "row_of key t k = Some r \<Longrightarrow> has_key key k t"
  using row_of_None [of key t k] by simp

lemma row_of_eq:
  assumes "unique_key key t" shows "row_of key t k = Some r \<longleftrightarrow> r \<in> set t \<and> key r = k"
  using assms find_distinct_key [of key t r] row_of_Some_key [of key t k r]
  by (auto simp: unique_key_def row_of_def)

lemma row_of_append:
  "row_of key (t @ u) k = (case row_of key t k of None \<Rightarrow> row_of key u k | Some r \<Rightarrow> Some r)"
  unfolding row_of_def by (rule find_append)

lemma row_of_insert_new:
  "row_of key (insert_new key r t) k =
     (if k = key r \<and> \<not> has_key key k t then Some r else row_of key t k)"
proof (cases "has_key key (key r) t")
  case True
  then show ?thesis by (auto simp: insert_new_def)
next
  case False
  then have "row_of key t (key r) = None" by (simp add: row_of_None)
  moreover have "row_of key [r] k = (if k = key r then Some r else None)"
    by (simp add: row_of_def)
  ultimately show ?thesis using False
    by (auto simp: insert_new_def row_of_append split: option.splits)
qed

lemma unique_insert_new [intro]: "unique_key key t \<Longrightarrow> unique_key key (insert_new key r t)"
  by (auto simp: unique_key_def insert_new_def has_key_iff)

lemma map_key_update:
  assumes "\<And>r. P r \<Longrightarrow> key (f r) = key r"
  shows "map key (update_where P f t) = map key t"
  using assms by (auto simp: update_where_def)

lemma unique_update_where:
  "unique_key key t \<Longrightarrow> (\<And>r. P r \<Longrightarrow> key (f r) = key r) \<Longrightarrow> unique_key key (update_where P f t)"
  by (simp add: unique_key_def map_key_update)

lemma row_of_update_where:
  assumes "\<And>r. P r \<Longrightarrow> key (f r) = key r"
  shows "row_of key (update_where P f t) k =
    map_option (\<lambda>r. if P r then f r else r) (row_of key t k)"
  using assms by (induction t) (auto simp: row_of_def update_where_def)

lemma length_update_where [simp]: "length (update_where P f t) = length t"
  by (simp add: update_where_def)

lemma update_where_id: "(\<And>r. r \<in> set t \<Longrightarrow> \<not> P r) \<Longrightarrow> update_where P f t = t"
  by (induction t) (auto simp: update_where_def)

lemma set_update_where:
  "set (update_where P f t) = {r \<in> set t. \<not> P r} \<union> f ` {r \<in> set t. P r}"
  by (auto simp: update_where_def)

lemma in_update_where:
  "r' \<in> set (update_where P f t) \<longleftrightarrow> (\<exists>r\<in>set t. r' = (if P r then f r else r))"
  by (auto simp: update_where_def)

lemma select_Nil_iff: "select P t = [] \<longleftrightarrow> (\<forall>r\<in>set t. \<not> P r)"
  by (simp add: select_def filter_empty_conv)

lemma select_unique:
  assumes "unique_key key t"
  shows "select (\<lambda>r. key r = k) t = (case row_of key t k of None \<Rightarrow> [] | Some r \<Rightarrow> [r])"
proof (cases "row_of key t k")
  case None
  then have "\<not> has_key key k t" by (simp add: row_of_None)
  with None show ?thesis by (auto simp: select_Nil_iff has_key_iff)
next
  case (Some r)
  then obtain as bs where t: "t = as @ r # bs" and r: "key r = k"
    using row_of_Some_key [OF Some] by (auto dest: split_list)
  with assms have "\<forall>x\<in>set as \<union> set bs. key x \<noteq> k" by (auto simp: unique_key_def image_iff)
  then have "filter (\<lambda>x. key x = k) as = []" "filter (\<lambda>x. key x = k) bs = []"
    by (auto simp: filter_empty_conv)
  with t r Some show ?thesis by (simp add: select_def)
qed

lemma unique_append: "unique_key key t \<Longrightarrow> \<not> has_key key (key r) t \<Longrightarrow> unique_key key (t @ [r])"
  by (auto simp: unique_key_def has_key_iff)

lemma unique_update_key:
  "unique_key key t \<Longrightarrow> (\<And>r. key (f r) = key r) \<Longrightarrow> unique_key key (update_key key' k f t)"
  by (simp add: update_key_def unique_update_where)

lemma has_key_append: "has_key key k (t @ u) \<longleftrightarrow> has_key key k t \<or> has_key key k u"
  by (auto simp: has_key_iff)

lemma has_key_update_where:
  "(\<And>r. P r \<Longrightarrow> key (f r) = key r) \<Longrightarrow> has_key key k (update_where P f t) \<longleftrightarrow> has_key key k t"
  using map_key_update [of P key f t] by (metis has_key_iff set_map)

lemma has_key_update_key:
  "(\<And>r. key (f r) = key r) \<Longrightarrow> has_key key k (update_key key' k' f t) \<longleftrightarrow> has_key key k t"
  by (simp add: update_key_def has_key_update_where)

lemma insert_new_present: "has_key key (key r) t \<Longrightarrow> insert_new key r t = t"
  by (simp add: insert_new_def)

lemma has_key_insert_new: "has_key key (key r) (insert_new key r t)"
  by (auto simp: insert_new_def has_key_iff)

text \<open>\<open>Map.set\<close> on a map from keys to the values that carry them: replace in place or append.\<close>

definition upsert :: "('r \<Rightarrow> 'k) \<Rightarrow> 'r \<Rightarrow> 'r list \<Rightarrow> 'r list" where
  "upsert key r t = (if has_key key (key r) t then update_key key (key r) (\<lambda>_. r) t else t @ [r])"

lemma row_of_update_key_gen:
  assumes "\<And>x. key x = k \<Longrightarrow> key (f x) = k"
  shows "row_of key (update_key key k f t) k' =
    (if k' = k then map_option f (row_of key t k) else row_of key t k')"
  using assms by (induction t) (auto simp: row_of_def update_key_def update_where_def)

lemma row_of_upsert: "row_of key (upsert key r t) k = (if k = key r then Some r else row_of key t k)"
proof (cases "has_key key (key r) t")
  case True
  then obtain x where "row_of key t (key r) = Some x"
    using row_of_None [of key t "key r"] by (cases "row_of key t (key r)") auto
  with True show ?thesis by (auto simp: upsert_def row_of_update_key_gen)
next
  case False
  then have "row_of key t (key r) = None" by (simp add: row_of_None)
  moreover have "row_of key [r] k = (if k = key r then Some r else None)" by (simp add: row_of_def)
  ultimately show ?thesis using False by (auto simp: upsert_def row_of_append split: option.splits)
qed

section \<open>The interface of a table with a unique key\<close>

locale keyed_table =
  fixes lookup :: "'t \<Rightarrow> 'k \<Rightarrow> 'r option"
    and insert_row :: "'r \<Rightarrow> 't \<Rightarrow> 't"
    and modify_row :: "'k \<Rightarrow> ('r \<Rightarrow> 'r) \<Rightarrow> 't \<Rightarrow> 't"
    and key :: "'r \<Rightarrow> 'k"
    and good :: "'t \<Rightarrow> bool"
  assumes lookup_key: "lookup t k = Some r \<Longrightarrow> key r = k"
    and lookup_insert: "lookup (insert_row r t) k =
          (if k = key r \<and> lookup t k = None then Some r else lookup t k)"
    and lookup_modify: "(\<And>r. key (f r) = key r) \<Longrightarrow>
          lookup (modify_row k f t) k' = (if k' = k then map_option f (lookup t k) else lookup t k')"
    and good_insert: "good t \<Longrightarrow> good (insert_row r t)"
    and good_modify: "(\<And>r. key (f r) = key r) \<Longrightarrow> good t \<Longrightarrow> good (modify_row k f t)"
begin

lemma lookup_after_insert: "lookup (insert_row r t) (key r) \<noteq> None"
  by (simp add: lookup_insert)

lemma insert_keeps: "lookup t k = Some r' \<Longrightarrow> lookup (insert_row r t) k = Some r'"
  by (simp add: lookup_insert)

lemma insert_twice: "lookup (insert_row r (insert_row r' t)) k = lookup (insert_row r' t) k"
  if "key r = key r'"
  using that by (auto simp: lookup_insert)

lemma modify_other: "(\<And>r. key (f r) = key r) \<Longrightarrow> k' \<noteq> k \<Longrightarrow>
    lookup (modify_row k f t) k' = lookup t k'"
  by (simp add: lookup_modify)

lemma modify_keeps_dom: "(\<And>r. key (f r) = key r) \<Longrightarrow>
    lookup (modify_row k f t) k' = None \<longleftrightarrow> lookup t k' = None"
  by (auto simp: lookup_modify)

end

interpretation list_table: keyed_table "row_of key" "insert_new key" "update_key key" key "unique_key key"
  for key :: "'r \<Rightarrow> 'k"
proof unfold_locales
  show "row_of key t k = Some r \<Longrightarrow> key r = k" for t k r
    by (auto dest: row_of_Some_key)
  show "row_of key (insert_new key r t) k =
      (if k = key r \<and> row_of key t k = None then Some r else row_of key t k)" for r t k
    by (simp add: row_of_insert_new row_of_None)
  show "row_of key (update_key key k f t) k' =
      (if k' = k then map_option f (row_of key t k) else row_of key t k')"
    if "\<And>r. key (f r) = key r" for f k t k'
    using that by (cases "row_of key t k'")
      (auto simp: update_key_def row_of_update_where dest: row_of_Some_key)
  show "unique_key key t \<Longrightarrow> unique_key key (insert_new key r t)" for r t
    by (rule unique_insert_new)
  show "unique_key key t \<Longrightarrow> unique_key key (update_key key k f t)"
    if "\<And>r. key (f r) = key r" for f k t
    using that by (simp add: update_key_def unique_update_where)
qed

end
