(* ===== verification/Workflow_Lease.thy ===== *)
theory Workflow_Lease
  imports Js_Date Sql_Table
begin

text \<open>
  Lease fencing of packages/workflow-runtime/src/index.ts: \<open>acquireLease\<close>, \<open>renewLease\<close> and the
  \<open>validateFencingToken\<close> of recovery-continuity.ts over the table \<open>workflow_leases\<close>.

  \<open>acquireLease\<close> is a sequence of SQL statements with other workers' statements in between, so
  it is modelled as a machine that runs one statement per step (\<open>acq_step\<close>). The sequential
  function \<open>acquireLease\<close> runs that machine to the end on an otherwise quiet table; the relation
  \<open>lease_step\<close> interleaves any number of workers. Instants are milliseconds; \<open>timestamptz\<close>
  columns hold instants, so the driver's textual form of \<open>expires_at\<close> is not modelled. The
  \<open>catch\<close> around the insert, which falls through to the re-read, is the same branch as a
  conflict.
\<close>

section \<open>Rows, requests and results\<close>

record lease_row =
  lr_key :: string
  lr_owner :: string
  lr_version :: int
  lr_acquired_at :: int
  lr_expires_at :: int

record lease_result =
  ls_key :: string
  ls_owner :: string
  ls_version :: int
  ls_expires_at :: int
  ls_acquired :: bool

text \<open>A request after the prologue of \<open>acquireLease\<close>: the parsed \<open>now\<close> and the new expiry.\<close>

record acq_req =
  rq_key :: string
  rq_owner :: string
  rq_now :: int
  rq_exp :: int

text \<open>\<open>Date.parse(now)\<close> and \<open>new Date(nowMs + ttlMs).toISOString()\<close>, the latter as the
  \<open>timestamptz\<close> it is stored as.\<close>

definition lease_times :: "string \<Rightarrow> int \<Rightarrow> (int \<times> int) result" where
  "lease_times now ttlMs =
     bind_result (toISO (map_option (\<lambda>ms. ms + ttlMs) (dateParse now))) (\<lambda>iso.
       case (dateParse now, dateParse iso) of
         (Some nowMs, Some expMs) \<Rightarrow> Inr (nowMs, expMs)
       | _ \<Rightarrow> Inl (DatabaseError ''invalid input syntax for type timestamp''))"

section \<open>acquireLease, one statement at a time\<close>

datatype acq_pc =
    AqSelect
  | AqRenew lease_row
  | AqTakeover lease_row
  | AqReread
  | AqInsert
  | AqRefetch
  | AqRaceTakeover lease_row
  | AqDone "lease_result result"

definition lease_of :: "lease_row \<Rightarrow> bool \<Rightarrow> lease_result" where
  "lease_of r got = \<lparr>ls_key = lr_key r, ls_owner = lr_owner r, ls_version = lr_version r,
     ls_expires_at = lr_expires_at r, ls_acquired = got\<rparr>"

definition granted :: "acq_req \<Rightarrow> int \<Rightarrow> lease_result" where
  "granted q v = \<lparr>ls_key = rq_key q, ls_owner = rq_owner q, ls_version = v,
     ls_expires_at = rq_exp q, ls_acquired = True\<rparr>"

text \<open>\<open>UPDATE workflow_leases SET ... WHERE lease_key=$ AND version=$ RETURNING ...\<close>: whether a
  row matched, and the table afterwards.\<close>

definition cas_lease ::
  "string \<Rightarrow> int \<Rightarrow> (lease_row \<Rightarrow> lease_row) \<Rightarrow> lease_row list \<Rightarrow> bool \<times> lease_row list" where
  "cas_lease k v f t =
     (select (\<lambda>r. lr_key r = k \<and> lr_version r = v) t \<noteq> [],
      update_where (\<lambda>r. lr_key r = k \<and> lr_version r = v) f t)"

definition renew_row :: "acq_req \<Rightarrow> int \<Rightarrow> lease_row \<Rightarrow> lease_row" where
  "renew_row q v r = r\<lparr>lr_version := v, lr_expires_at := rq_exp q, lr_acquired_at := rq_now q\<rparr>"

definition takeover_row :: "acq_req \<Rightarrow> int \<Rightarrow> lease_row \<Rightarrow> lease_row" where
  "takeover_row q v r = r\<lparr>lr_owner := rq_owner q, lr_version := v, lr_acquired_at := rq_now q,
     lr_expires_at := rq_exp q\<rparr>"

definition fresh_row :: "acq_req \<Rightarrow> lease_row" where
  "fresh_row q = \<lparr>lr_key = rq_key q, lr_owner = rq_owner q, lr_version = 1,
     lr_acquired_at = rq_now q, lr_expires_at = rq_exp q\<rparr>"

definition lease_expired :: "acq_req \<Rightarrow> lease_row \<Rightarrow> bool" where
  "lease_expired q r = (lr_expires_at r \<le> rq_now q)"

fun acq_step :: "acq_req \<Rightarrow> acq_pc \<Rightarrow> lease_row list \<Rightarrow> acq_pc \<times> lease_row list" where
  "acq_step q AqSelect t =
     (case row_of lr_key t (rq_key q) of
        Some row \<Rightarrow>
          (if \<not> lease_expired q row \<and> lr_owner row \<noteq> rq_owner q
           then (AqDone (Inr (lease_of row False)), t)
           else if \<not> lease_expired q row \<and> lr_owner row = rq_owner q
           then (AqRenew row, t)
           else (AqTakeover row, t))
      | None \<Rightarrow> (AqInsert, t))"
| "acq_step q (AqRenew row) t =
     (let v = lr_version row + 1;
          (hit, t') = cas_lease (rq_key q) (lr_version row) (renew_row q v) t
      in if hit then (AqDone (Inr (granted q v)), t') else (AqReread, t'))"
| "acq_step q (AqTakeover row) t =
     (let v = lr_version row + 1;
          (hit, t') = cas_lease (rq_key q) (lr_version row) (takeover_row q v) t
      in if hit then (AqDone (Inr (granted q v)), t') else (AqReread, t'))"
| "acq_step q AqReread t =
     (case row_of lr_key t (rq_key q) of
        Some row \<Rightarrow> (AqDone (Inr (lease_of row (lr_owner row = rq_owner q))), t)
      | None \<Rightarrow> (AqDone (Inl (TypeError ''rows[0] is undefined'')), t))"
| "acq_step q AqInsert t =
     (if has_key lr_key (rq_key q) t then (AqRefetch, t)
      else (AqDone (Inr (granted q 1)), insert_new lr_key (fresh_row q) t))"
| "acq_step q AqRefetch t =
     (case row_of lr_key t (rq_key q) of
        Some row \<Rightarrow>
          (if \<not> lease_expired q row \<and> lr_owner row \<noteq> rq_owner q
           then (AqDone (Inr (lease_of row False)), t)
           else (AqRaceTakeover row, t))
      | None \<Rightarrow> (AqDone (Inl (TypeError ''rows[0] is undefined'')), t))"
| "acq_step q (AqRaceTakeover row) t =
     (let v = lr_version row + 1;
          (hit, t') = cas_lease (rq_key q) (lr_version row) (takeover_row q v) t
      in if hit then (AqDone (Inr (granted q v)), t') else (AqReread, t'))"
| "acq_step q (AqDone r) t = (AqDone r, t)"

text \<open>Running the machine alone. \<open>None\<close> is out of fuel.\<close>

fun acq_run :: "nat \<Rightarrow> acq_req \<Rightarrow> acq_pc \<Rightarrow> lease_row list \<Rightarrow> (lease_result result \<times> lease_row list) option" where
  "acq_run 0 q pc t = None"
| "acq_run (Suc n) q pc t =
     (case pc of
        AqDone r \<Rightarrow> Some (r, t)
      | _ \<Rightarrow> (case acq_step q pc t of (pc', t') \<Rightarrow> acq_run n q pc' t'))"

definition acq_fuel :: nat where "acq_fuel = 6"

definition acquireLease ::
  "string \<Rightarrow> string \<Rightarrow> int \<Rightarrow> string \<Rightarrow> lease_row list \<Rightarrow> (lease_result result \<times> lease_row list) option" where
  "acquireLease leaseKey owner ttlMs now t =
     (case lease_times now ttlMs of
        Inl e \<Rightarrow> Some (Inl e, t)
      | Inr (nowMs, expMs) \<Rightarrow>
          acq_run acq_fuel \<lparr>rq_key = leaseKey, rq_owner = owner, rq_now = nowMs, rq_exp = expMs\<rparr> AqSelect t)"

section \<open>renewLease and validateFencingToken\<close>

text \<open>One conditional update; \<open>None\<close> is the code's \<open>null\<close>.\<close>

definition renew_stmt :: "string \<Rightarrow> string \<Rightarrow> int \<Rightarrow> int \<Rightarrow> int \<Rightarrow> lease_row list \<Rightarrow> lease_result option \<times> lease_row list" where
  "renew_stmt k owner v nowMs expMs t =
     (let P = (\<lambda>r. lr_key r = k \<and> lr_owner r = owner \<and> lr_version r = v);
          f = (\<lambda>r. r\<lparr>lr_version := lr_version r + 1, lr_expires_at := expMs, lr_acquired_at := nowMs\<rparr>)
      in case select P t of
           [] \<Rightarrow> (None, t)
         | r # _ \<Rightarrow> (Some \<lparr>ls_key = k, ls_owner = owner, ls_version = lr_version (f r),
                        ls_expires_at = lr_expires_at (f r), ls_acquired = True\<rparr>,
                      update_where P f t))"

definition renewLease ::
  "string \<Rightarrow> string \<Rightarrow> int \<Rightarrow> int \<Rightarrow> string \<Rightarrow> lease_row list \<Rightarrow> lease_result option result \<times> lease_row list" where
  "renewLease leaseKey owner expectedVersion ttlMs now t =
     (case lease_times now ttlMs of
        Inl e \<Rightarrow> (Inl e, t)
      | Inr (nowMs, expMs) \<Rightarrow>
          (case renew_stmt leaseKey owner expectedVersion nowMs expMs t of (r, t') \<Rightarrow> (Inr r, t')))"

record fencing_verdict =
  fv_valid :: bool
  fv_stale :: bool

definition validateFencingToken :: "string \<Rightarrow> string \<Rightarrow> int \<Rightarrow> int \<Rightarrow> lease_row list \<Rightarrow> fencing_verdict" where
  "validateFencingToken leaseKey owner version clock t =
     (case row_of lr_key t leaseKey of
        None \<Rightarrow> \<lparr>fv_valid = False, fv_stale = True\<rparr>
      | Some current \<Rightarrow>
          if lr_owner current \<noteq> owner \<or> lr_version current \<noteq> version
          then \<lparr>fv_valid = False, fv_stale = True\<rparr>
          else if lr_expires_at current \<le> clock then \<lparr>fv_valid = False, fv_stale = True\<rparr>
          else \<lparr>fv_valid = True, fv_stale = False\<rparr>)"

section \<open>Sequential behaviour\<close>

lemma lease_times_eq:
  "lease_times now ttl =
     (case dateParse now of
        None \<Rightarrow> Inl (RangeError ''Invalid time value'')
      | Some n \<Rightarrow> if \<bar>n + ttl\<bar> \<le> max_time then Inr (n, n + ttl)
                  else Inl (RangeError ''Invalid time value''))"
proof (cases "dateParse now")
  case None
  then show ?thesis by (simp add: lease_times_def)
next
  case (Some n)
  then show ?thesis
    by (cases "\<bar>n + ttl\<bar> \<le> max_time") (simp_all add: lease_times_def dateParse_iso_text)
qed

lemma select_key_version:
  assumes "unique_key lr_key t" "row_of lr_key t k = Some r"
  shows "select (\<lambda>r. lr_key r = k \<and> lr_version r = v) t \<noteq> [] \<longleftrightarrow> lr_version r = v"
proof -
  have "r' = r" if "r' \<in> set t" "lr_key r' = k" for r'
    using assms(2) that row_of_eq [OF assms(1), of k r'] by simp
  then have "\<And>r'. r' \<in> set t \<Longrightarrow> lr_key r' = k \<Longrightarrow> r' = r" .
  moreover have "r \<in> set t" "lr_key r = k" using row_of_Some_key [OF assms(2)] by simp_all
  ultimately show ?thesis unfolding select_Nil_iff by blast
qed

lemma cas_lease_hit:
  assumes "unique_key lr_key t" "row_of lr_key t k = Some r"
  shows "fst (cas_lease k (lr_version r) f t)"
  using select_key_version [OF assms, of "lr_version r"] by (simp add: cas_lease_def)

lemma cas_lease_row:
  assumes "\<And>r. lr_key (f r) = lr_key r" "row_of lr_key t k = Some r"
  shows "row_of lr_key (snd (cas_lease k (lr_version r) f t)) k = Some (f r)"
  using assms row_of_Some_key [OF assms(2)]
  by (simp add: cas_lease_def row_of_update_where)

text \<open>The four outcomes of \<open>acquireLease\<close> on a quiet table.\<close>

lemma acquireLease_run:
  fixes k w :: string
  assumes t: "unique_key lr_key t" and times: "lease_times now ttl = Inr (n, e)"
  defines "q \<equiv> \<lparr>rq_key = k, rq_owner = w, rq_now = n, rq_exp = e\<rparr>"
  shows "acquireLease k w ttl now t =
    (case row_of lr_key t k of
       None \<Rightarrow> Some (Inr (granted q 1), insert_new lr_key (fresh_row q) t)
     | Some r \<Rightarrow>
         if lease_expired q r then
           Some (Inr (granted q (lr_version r + 1)),
                 snd (cas_lease k (lr_version r) (takeover_row q (lr_version r + 1)) t))
         else if lr_owner r = w then
           Some (Inr (granted q (lr_version r + 1)),
                 snd (cas_lease k (lr_version r) (renew_row q (lr_version r + 1)) t))
         else Some (Inr (lease_of r False), t))"
proof (cases "row_of lr_key t k")
  case None
  then have "\<not> has_key lr_key k t" by (simp add: row_of_None)
  with None show ?thesis
    by (simp add: acquireLease_def times q_def acq_fuel_def eval_nat_numeral)
next
  case (Some r)
  have "fst (cas_lease k (lr_version r) f t)" for f
    using t Some by (rule cas_lease_hit)
  then show ?thesis using Some
    by (simp add: acquireLease_def times q_def acq_fuel_def eval_nat_numeral split_beta Let_def)
qed

lemma acquireLease_total:
  assumes "unique_key lr_key t"
  shows "\<exists>r t'. acquireLease k w ttl now t = Some (r, t')"
proof (cases "lease_times now ttl")
  case (Inl e)
  then show ?thesis by (simp add: acquireLease_def)
next
  case (Inr p)
  then show ?thesis
    by (cases p) (simp add: acquireLease_run [OF assms] split: option.splits)
qed

section \<open>Interleaved workers\<close>

text \<open>
  Any number of workers, each between statements of its own \<open>acquireLease\<close>; \<open>renewLease\<close> is one
  statement. Two fields are ghosts: \<open>lw_tokens\<close> is every (key, version, owner) the table ever held,
  \<open>lw_grants\<close> every lease that an \<open>acquireLease\<close> or a \<open>renewLease\<close> ever returned to its caller as
  acquired.
\<close>

datatype worker = WIdle | WAcquiring acq_req acq_pc

record lease_world =
  lw_table :: "lease_row list"
  lw_workers :: "nat \<Rightarrow> worker"
  lw_tokens :: "(string \<times> int \<times> string) set"
  lw_grants :: "lease_result set"

definition tokens_of :: "lease_row list \<Rightarrow> (string \<times> int \<times> string) set" where
  "tokens_of t = (\<lambda>r. (lr_key r, lr_version r, lr_owner r)) ` set t"

definition lease_init :: lease_world where
  "lease_init = \<lparr>lw_table = [], lw_workers = (\<lambda>_. WIdle), lw_tokens = {}, lw_grants = {}\<rparr>"

definition lw_write :: "lease_row list \<Rightarrow> lease_world \<Rightarrow> lease_world" where
  "lw_write t s = s\<lparr>lw_table := t, lw_tokens := lw_tokens s \<union> tokens_of t\<rparr>"

definition lw_grant :: "lease_result option \<Rightarrow> lease_world \<Rightarrow> lease_world" where
  "lw_grant r s =
     (case r of
        None \<Rightarrow> s
      | Some l \<Rightarrow> if ls_acquired l then s\<lparr>lw_grants := insert l (lw_grants s)\<rparr> else s)"

text \<open>What a worker that reached a program point returns.\<close>

definition returned :: "acq_pc \<Rightarrow> lease_result option" where
  "returned pc = (case pc of AqDone (Inr l) \<Rightarrow> Some l | _ \<Rightarrow> None)"

inductive lease_step :: "lease_world \<Rightarrow> lease_world \<Rightarrow> bool" where
  begin_acquire: "lw_workers s i = WIdle \<Longrightarrow>
     lease_step s (s\<lparr>lw_workers := (lw_workers s)(i := WAcquiring q AqSelect)\<rparr>)"
| acquire_stmt: "lw_workers s i = WAcquiring q pc \<Longrightarrow> acq_step q pc (lw_table s) = (pc', t') \<Longrightarrow>
     lease_step s (lw_grant (returned pc')
       (lw_write t' (s\<lparr>lw_workers := (lw_workers s)(i := WAcquiring q pc')\<rparr>)))"
| renew: "renew_stmt k w v n e (lw_table s) = (r, t') \<Longrightarrow> lease_step s (lw_grant r (lw_write t' s))"
| forget: "lw_workers s i = WAcquiring q (AqDone r) \<Longrightarrow>
     lease_step s (s\<lparr>lw_workers := (lw_workers s)(i := WIdle)\<rparr>)"

inductive lease_reachable :: "lease_world \<Rightarrow> bool" where
  start: "lease_reachable lease_init"
| step: "lease_reachable s \<Longrightarrow> lease_step s s' \<Longrightarrow> lease_reachable s'"

text \<open>What a table statement may do to the tokens: the table keeps one row per key, a row's
  version never falls, and a row that changes owner or expiry gets a version above all earlier ones.\<close>

definition table_advances :: "lease_row list \<Rightarrow> lease_row list \<Rightarrow> bool" where
  "table_advances t t' \<longleftrightarrow>
     (\<forall>k. case row_of lr_key t k of
            None \<Rightarrow> True
          | Some r \<Rightarrow> (case row_of lr_key t' k of
                None \<Rightarrow> False
              | Some r' \<Rightarrow> r' = r \<or> lr_version r < lr_version r'))"

lemma table_advances_refl [simp]: "table_advances t t"
  by (simp add: table_advances_def split: option.splits)

lemma table_advances_update:
  assumes "\<And>r. P r \<Longrightarrow> lr_key (f r) = lr_key r" "\<And>r. P r \<Longrightarrow> lr_version r < lr_version (f r)"
  shows "table_advances t (update_where P f t)"
  using assms by (auto simp: table_advances_def row_of_update_where split: option.splits)

lemma cas_key_simps [simp]:
  "lr_key (renew_row q v r) = lr_key r" "lr_version (renew_row q v r) = v"
  "lr_owner (renew_row q v r) = lr_owner r"
  "lr_key (takeover_row q v r) = lr_key r" "lr_version (takeover_row q v r) = v"
  "lr_owner (takeover_row q v r) = rq_owner q"
  by (simp_all add: renew_row_def takeover_row_def)

lemma acq_step_table:
  assumes "acq_step q pc t = (pc', t')" "unique_key lr_key t"
  shows "unique_key lr_key t' \<and> table_advances t t'"
proof -
  have upd: "unique_key lr_key (snd (cas_lease k v f t)) \<and> table_advances t (snd (cas_lease k v f t))"
    if "\<And>r. lr_key (f r) = lr_key r" "\<And>r. lr_version (f r) = v + 1" for k v f
    using that assms(2) unfolding cas_lease_def snd_conv
    by (intro conjI table_advances_update unique_update_where) auto
  have ins: "table_advances t (insert_new lr_key r t)" for r
    by (auto simp: table_advances_def row_of_insert_new row_of_None [symmetric] split: option.splits)
  show ?thesis
    using assms upd ins
    by (cases pc) (auto simp: Let_def split_beta split: option.splits if_splits)
qed

lemma renew_stmt_table:
  assumes "renew_stmt k w v n e t = (r, t')" "unique_key lr_key t"
  shows "unique_key lr_key t' \<and> table_advances t t'"
  using assms by (auto simp: renew_stmt_def Let_def split: list.splits
      intro!: unique_update_where table_advances_update)

text \<open>The invariant on the table and the tokens.\<close>

definition tokens_inv :: "lease_row list \<Rightarrow> (string \<times> int \<times> string) set \<Rightarrow> bool" where
  "tokens_inv t L \<longleftrightarrow>
     unique_key lr_key t \<and> tokens_of t \<subseteq> L \<and>
     (\<forall>k v w. (k, v, w) \<in> L \<longrightarrow> (\<exists>r. row_of lr_key t k = Some r \<and> v \<le> lr_version r)) \<and>
     (\<forall>k v w w'. (k, v, w) \<in> L \<longrightarrow> (k, v, w') \<in> L \<longrightarrow> w = w')"

lemma tokens_of_row: "row_of lr_key t k = Some r \<Longrightarrow> (k, lr_version r, lr_owner r) \<in> tokens_of t"
  using row_of_Some_key [of lr_key t k r] by (force simp: tokens_of_def)

lemma tokens_inv_bound:
  "tokens_inv t L \<Longrightarrow> (k, v, w) \<in> L \<Longrightarrow> \<exists>r. row_of lr_key t k = Some r \<and> v \<le> lr_version r"
  unfolding tokens_inv_def by blast

lemma tokens_inv_owner: "tokens_inv t L \<Longrightarrow> (k, v, w) \<in> L \<Longrightarrow> (k, v, w') \<in> L \<Longrightarrow> w = w'"
  unfolding tokens_inv_def by blast

lemma tokens_inv_unique: "tokens_inv t L \<Longrightarrow> unique_key lr_key t"
  unfolding tokens_inv_def by blast

lemma tokens_inv_sub: "tokens_inv t L \<Longrightarrow> tokens_of t \<subseteq> L"
  unfolding tokens_inv_def by blast

lemma table_advances_row:
  "table_advances t t' \<Longrightarrow> row_of lr_key t k = Some r \<Longrightarrow>
     \<exists>r'. row_of lr_key t' k = Some r' \<and> (r' = r \<or> lr_version r < lr_version r')"
  unfolding table_advances_def by (drule spec [of _ k]) (auto split: option.splits)

lemma token_row:
  "unique_key lr_key t \<Longrightarrow> (k, v, w) \<in> tokens_of t \<Longrightarrow>
     \<exists>r. row_of lr_key t k = Some r \<and> lr_version r = v \<and> lr_owner r = w"
  by (auto simp: tokens_of_def row_of_eq)

lemma tokens_inv_step:
  assumes inv: "tokens_inv t L" and u: "unique_key lr_key t'" and adv: "table_advances t t'"
  shows "tokens_inv t' (L \<union> tokens_of t')"
proof -
  have bound: "\<exists>r'. row_of lr_key t' k = Some r' \<and> v \<le> lr_version r'"
    if "(k, v, w) \<in> L \<union> tokens_of t'" for k v w
  proof (cases "(k, v, w) \<in> L")
    case True
    with inv obtain r where r: "row_of lr_key t k = Some r" "v \<le> lr_version r"
      using tokens_inv_bound by blast
    with adv obtain r' where "row_of lr_key t' k = Some r'" "r' = r \<or> lr_version r < lr_version r'"
      using table_advances_row by blast
    with r show ?thesis by auto
  next
    case False
    with that token_row [OF u, of k v w] show ?thesis by auto
  qed
  have new_old: "w = w'" if new: "(k, v, w) \<in> tokens_of t'" and old: "(k, v, w') \<in> L" for k v w w'
  proof -
    obtain r' where r': "row_of lr_key t' k = Some r'" "lr_version r' = v" "lr_owner r' = w"
      using token_row [OF u new] by blast
    obtain r where r: "row_of lr_key t k = Some r" "v \<le> lr_version r"
      using tokens_inv_bound [OF inv old] by blast
    have "r' = r" using table_advances_row [OF adv r(1)] r r' by auto
    with r r' have "(k, v, w) \<in> L" using tokens_inv_sub [OF inv] tokens_of_row [OF r(1)] by auto
    then show ?thesis using old by (rule tokens_inv_owner [OF inv])
  qed
  have new_new: "w = w'" if "(k, v, w) \<in> tokens_of t'" "(k, v, w') \<in> tokens_of t'" for k v w w'
    using token_row [OF u that(1)] token_row [OF u that(2)] by auto
  have "w = w'" if "(k, v, w) \<in> L \<union> tokens_of t'" "(k, v, w') \<in> L \<union> tokens_of t'" for k v w w'
    using that new_new new_old tokens_inv_owner [OF inv] by (metis UnE)
  with u bound show ?thesis unfolding tokens_inv_def by blast
qed

text \<open>What a grant says about the tokens.\<close>

lemma lw_grant_fields [simp]:
  "lw_table (lw_grant r s) = lw_table s" "lw_workers (lw_grant r s) = lw_workers s"
  "lw_tokens (lw_grant r s) = lw_tokens s"
  "lw_grants (lw_grant r s) = lw_grants s \<union> {l. r = Some l \<and> ls_acquired l}"
  by (auto simp: lw_grant_def split: option.split)

lemma lw_write_fields [simp]:
  "lw_table (lw_write t s) = t" "lw_workers (lw_write t s) = lw_workers s"
  "lw_tokens (lw_write t s) = lw_tokens s \<union> tokens_of t" "lw_grants (lw_write t s) = lw_grants s"
  by (simp_all add: lw_write_def)

definition backed :: "(string \<times> int \<times> string) set \<Rightarrow> lease_result \<Rightarrow> bool" where
  "backed L l \<longleftrightarrow> (ls_key l, ls_version l, ls_owner l) \<in> L"

lemma renew_stmt_backed:
  assumes "renew_stmt k w v n e t = (Some l, t')"
  shows "backed (tokens_of t') l"
proof -
  obtain r where r: "r \<in> set t" "lr_key r = k" "lr_owner r = w" "lr_version r = v"
    and l: "l = \<lparr>ls_key = k, ls_owner = w, ls_version = v + 1, ls_expires_at = e, ls_acquired = True\<rparr>"
    and t': "t' = update_where (\<lambda>r. lr_key r = k \<and> lr_owner r = w \<and> lr_version r = v)
      (\<lambda>r. r\<lparr>lr_version := lr_version r + 1, lr_expires_at := e, lr_acquired_at := n\<rparr>) t"
  proof -
    obtain r rs where s: "select (\<lambda>r. lr_key r = k \<and> lr_owner r = w \<and> lr_version r = v) t = r # rs"
      using assms by (auto simp: renew_stmt_def Let_def split: list.splits)
    then have "r \<in> set (select (\<lambda>r. lr_key r = k \<and> lr_owner r = w \<and> lr_version r = v) t)" by simp
    then have "r \<in> set t" "lr_key r = k" "lr_owner r = w" "lr_version r = v" by (simp_all add: select_def)
    with that show thesis using assms s by (auto simp: renew_stmt_def Let_def)
  qed
  have "r\<lparr>lr_version := lr_version r + 1, lr_expires_at := e, lr_acquired_at := n\<rparr> \<in> set t'"
    unfolding t' using r by (force simp: in_update_where)
  then show ?thesis unfolding backed_def tokens_of_def by (rule rev_image_eqI) (simp add: l r)
qed

text \<open>What a worker's result says about the tokens.\<close>

definition result_backed :: "acq_req \<Rightarrow> acq_pc \<Rightarrow> (string \<times> int \<times> string) set \<Rightarrow> bool" where
  "result_backed q pc L \<longleftrightarrow>
     (\<forall>r. pc = AqDone (Inr r) \<longrightarrow> ls_acquired r \<longrightarrow>
        ls_key r = rq_key q \<and> ls_owner r = rq_owner q \<and> (ls_key r, ls_version r, ls_owner r) \<in> L)"

lemma cas_lease_token:
  assumes "fst (cas_lease k v f t)" "\<And>r. lr_key (f r) = lr_key r"
    "\<And>r. lr_key r = k \<Longrightarrow> lr_version r = v \<Longrightarrow> r \<in> set t \<Longrightarrow> lr_version (f r) = v' \<and> lr_owner (f r) = w"
  shows "(k, v', w) \<in> tokens_of (snd (cas_lease k v f t))"
proof -
  from assms(1) obtain r where r: "r \<in> set t" "lr_key r = k" "lr_version r = v"
    by (auto simp: cas_lease_def select_Nil_iff)
  then have "f r \<in> set (snd (cas_lease k v f t))" by (force simp: cas_lease_def in_update_where)
  moreover have "lr_version (f r) = v'" "lr_owner (f r) = w" "lr_key (f r) = k"
    using assms(2,3) r by simp_all
  ultimately show ?thesis by (force simp: tokens_of_def)
qed

text \<open>The owner is not in the \<open>WHERE\<close> clause of the renewing update: that it is still the
  requester's follows because a version belongs to one owner. \<open>pc_backed\<close> records what the
  earlier read established.\<close>

definition pc_backed :: "acq_req \<Rightarrow> acq_pc \<Rightarrow> (string \<times> int \<times> string) set \<Rightarrow> bool" where
  "pc_backed q pc L \<longleftrightarrow>
     result_backed q pc L \<and>
     (\<forall>row. pc = AqRenew row \<longrightarrow> (rq_key q, lr_version row, rq_owner q) \<in> L)"

lemma pc_backed_mono: "pc_backed q pc L \<Longrightarrow> L \<subseteq> L' \<Longrightarrow> pc_backed q pc L'"
  by (auto simp: pc_backed_def result_backed_def)

lemma pc_backed_Un [intro]: "pc_backed q pc L \<Longrightarrow> pc_backed q pc (L \<union> L')"
  by (rule pc_backed_mono) auto

lemma acq_step_backed:
  assumes step: "acq_step q pc t = (pc', t')" and inv: "tokens_inv t L" and pc: "pc_backed q pc L"
  shows "pc_backed q pc' (L \<union> tokens_of t')"
proof (cases pc)
  case AqSelect
  then show ?thesis using step tokens_inv_sub [OF inv] tokens_of_row [of t "rq_key q"]
    by (auto simp: pc_backed_def result_backed_def lease_of_def split: option.splits if_splits)
next
  case (AqRenew row)
  with pc have tok: "(rq_key q, lr_version row, rq_owner q) \<in> L" by (simp add: pc_backed_def)
  have "lr_owner r = rq_owner q"
    if "r \<in> set t" "lr_key r = rq_key q" "lr_version r = lr_version row" for r
  proof -
    have "(rq_key q, lr_version row, lr_owner r) \<in> L"
      using tokens_inv_sub [OF inv] that by (force simp: tokens_of_def)
    with tok show ?thesis using tokens_inv_owner [OF inv] by blast
  qed
  then have "fst (cas_lease (rq_key q) (lr_version row) (renew_row q (lr_version row + 1)) t) \<Longrightarrow>
      (rq_key q, lr_version row + 1, rq_owner q) \<in>
        tokens_of (snd (cas_lease (rq_key q) (lr_version row) (renew_row q (lr_version row + 1)) t))"
    by (intro cas_lease_token) auto
  then show ?thesis using step AqRenew
    by (auto simp: Let_def split_beta pc_backed_def result_backed_def granted_def split: if_splits)
next
  case (AqTakeover row)
  then show ?thesis using step
      cas_lease_token [of "rq_key q" "lr_version row" "takeover_row q (lr_version row + 1)" t
        "lr_version row + 1" "rq_owner q"]
    by (auto simp: Let_def split_beta pc_backed_def result_backed_def granted_def split: if_splits)
next
  case (AqRaceTakeover row)
  then show ?thesis using step
      cas_lease_token [of "rq_key q" "lr_version row" "takeover_row q (lr_version row + 1)" t
        "lr_version row + 1" "rq_owner q"]
    by (auto simp: Let_def split_beta pc_backed_def result_backed_def granted_def split: if_splits)
next
  case AqReread
  then show ?thesis using step tokens_of_row [of t "rq_key q"] row_of_Some_key [of lr_key t "rq_key q"]
    by (auto simp: pc_backed_def result_backed_def lease_of_def split: option.splits)
next
  case AqInsert
  then show ?thesis using step
    by (auto simp: pc_backed_def result_backed_def granted_def insert_new_def fresh_row_def tokens_of_def
        split: if_splits)
next
  case AqRefetch
  then show ?thesis using step
    by (auto simp: pc_backed_def result_backed_def lease_of_def split: option.splits if_splits)
next
  case (AqDone r)
  then show ?thesis using step pc by auto
qed

definition lease_inv :: "lease_world \<Rightarrow> bool" where
  "lease_inv s \<longleftrightarrow>
     tokens_inv (lw_table s) (lw_tokens s) \<and>
     (\<forall>i q pc. lw_workers s i = WAcquiring q pc \<longrightarrow> pc_backed q pc (lw_tokens s)) \<and>
     (\<forall>l\<in>lw_grants s. backed (lw_tokens s) l)"

lemma lease_inv_init: "lease_inv lease_init"
  by (simp add: lease_inv_def lease_init_def tokens_inv_def unique_key_def tokens_of_def)

lemma lease_inv_write:
  assumes "lease_inv s" "unique_key lr_key t'" "table_advances (lw_table s) t'"
  shows "lease_inv (lw_write t' s)"
  using assms(1) tokens_inv_step [OF _ assms(2,3)] unfolding lease_inv_def by (auto simp: backed_def)

lemma lease_inv_grant:
  assumes "lease_inv s" "\<And>l. r = Some l \<Longrightarrow> ls_acquired l \<Longrightarrow> backed (lw_tokens s) l"
  shows "lease_inv (lw_grant r s)"
  using assms unfolding lease_inv_def by auto

lemma lease_inv_step:
  assumes "lease_step s s'" "lease_inv s" shows "lease_inv s'"
  using assms
proof (induction rule: lease_step.induct)
  case (begin_acquire s i q)
  have "pc_backed q AqSelect (lw_tokens s)" by (simp add: pc_backed_def result_backed_def)
  with begin_acquire show ?case by (simp add: lease_inv_def)
next
  case (acquire_stmt s i q pc pc' t')
  from acquire_stmt have inv: "tokens_inv (lw_table s) (lw_tokens s)" and pc: "pc_backed q pc (lw_tokens s)"
    by (simp_all add: lease_inv_def)
  note t = acq_step_table [OF acquire_stmt.hyps(2)]
  note u = tokens_inv_unique [OF inv]
  have tok: "tokens_inv t' (lw_tokens s \<union> tokens_of t')"
    using inv t [OF u] by (blast intro: tokens_inv_step)
  have pc': "pc_backed q pc' (lw_tokens s \<union> tokens_of t')"
    by (rule acq_step_backed [OF acquire_stmt.hyps(2) inv pc])
  have "lease_inv (lw_write t' (s\<lparr>lw_workers := (lw_workers s)(i := WAcquiring q pc')\<rparr>))"
    using acquire_stmt.prems tok pc' unfolding lease_inv_def by (auto simp: backed_def)
  then show ?case
    by (rule lease_inv_grant)
      (use pc' in \<open>auto simp: returned_def pc_backed_def result_backed_def backed_def split: acq_pc.splits sum.splits\<close>)
next
  case (renew k w v n e s r t')
  then have u: "unique_key lr_key (lw_table s)" unfolding lease_inv_def using tokens_inv_unique by blast
  from renew.prems renew_stmt_table [OF renew.hyps u] have "lease_inv (lw_write t' s)"
    by (blast intro: lease_inv_write)
  then show ?case
    by (rule lease_inv_grant) (use renew_stmt_backed renew.hyps in \<open>auto simp: backed_def\<close>)
next
  case (forget s i q r)
  then show ?case by (simp add: lease_inv_def)
qed

lemma lease_reachable_inv: "lease_reachable s \<Longrightarrow> lease_inv s"
  by (induction rule: lease_reachable.induct) (auto intro: lease_inv_init lease_inv_step)

section \<open>Properties\<close>

text \<open>On a quiet table \<open>acquireLease\<close> always returns; it grants exactly when the key is free,
  its lease has expired, or the requester holds it, and then the row carries the requester, the
  next version and the expiry \<open>now + ttl\<close>; a refusal names the live holder and changes nothing;
  other keys are never touched.\<close>

theorem acquireLease_spec:
  assumes t: "unique_key lr_key t" and now: "dateParse now = Some n" and range: "\<bar>n + ttl\<bar> \<le> max_time"
  obtains r t' where "acquireLease k w ttl now t = Some (Inr r, t')"
    and "ls_acquired r \<longleftrightarrow>
      (\<forall>x. row_of lr_key t k = Some x \<longrightarrow> lr_expires_at x \<le> n \<or> lr_owner x = w)"
    and "ls_acquired r \<Longrightarrow> row_of lr_key t' k = Some \<lparr>lr_key = k, lr_owner = w,
      lr_version = (case row_of lr_key t k of None \<Rightarrow> 1 | Some x \<Rightarrow> lr_version x + 1),
      lr_acquired_at = n, lr_expires_at = n + ttl\<rparr>"
    and "\<not> ls_acquired r \<Longrightarrow> t' = t \<and> (\<exists>x. row_of lr_key t k = Some x \<and> r = lease_of x False)"
    and "\<And>k'. k' \<noteq> k \<Longrightarrow> row_of lr_key t' k' = row_of lr_key t k'"
proof -
  have times: "lease_times now ttl = Inr (n, n + ttl)" by (simp add: lease_times_eq now range)
  let ?q = "\<lparr>rq_key = k, rq_owner = w, rq_now = n, rq_exp = n + ttl\<rparr>"
  note run = acquireLease_run [OF t times, of k w]
  show thesis
  proof (cases "row_of lr_key t k")
    case None
    with row_of_None [of lr_key t k] show thesis
      by (intro that [of "granted ?q 1" "insert_new lr_key (fresh_row ?q) t"])
        (auto simp: run granted_def row_of_insert_new fresh_row_def)
  next
    case (Some x)
    have key: "lr_key x = k" using row_of_Some_key [OF Some] by simp
    have other: "row_of lr_key (snd (cas_lease k v f t)) k' = row_of lr_key t k'"
      if "k' \<noteq> k" "\<And>r. lr_key (f r) = lr_key r" for k' v f
      using that row_of_Some_key [of lr_key t k']
      by (cases "row_of lr_key t k'") (auto simp: cas_lease_def row_of_update_where)
    show thesis
    proof (cases "lr_expires_at x \<le> n \<or> lr_owner x = w")
      case True
      then show thesis using Some key other
        by (intro that [of "granted ?q (lr_version x + 1)" "snd (cas_lease k (lr_version x)
              (if lease_expired ?q x then takeover_row ?q (lr_version x + 1)
               else renew_row ?q (lr_version x + 1)) t)"])
          (auto simp: run granted_def cas_lease_row lease_expired_def takeover_row_def renew_row_def)
    next
      case False
      then show thesis using Some
        by (intro that [of "lease_of x False" t]) (auto simp: run lease_of_def lease_expired_def)
    qed
  qed
qed

lemma valid_token:
  assumes "fv_valid (validateFencingToken k w v clock t)"
  shows "(k, v, w) \<in> tokens_of t"
proof (cases "row_of lr_key t k")
  case (Some c)
  then have "lr_owner c = w \<and> lr_version c = v"
    using assms by (auto simp: validateFencingToken_def split: if_split_asm)
  then show ?thesis using tokens_of_row [OF Some] by auto
qed (use assms in \<open>simp add: validateFencingToken_def\<close>)

text \<open>C1. Fencing: whatever way the statements of concurrent \<open>acquireLease\<close> and \<open>renewLease\<close> calls
  interleave, two calls that were ever granted the same version of a lease key, by acquiring or by
  renewing it, were granted it for one owner, and nobody else passes \<open>validateFencingToken\<close> with
  that version.\<close>

theorem fencing_token_single_owner:
  assumes "lease_reachable s" and "l \<in> lw_grants s"
  shows "(l' \<in> lw_grants s \<longrightarrow> ls_key l' = ls_key l \<longrightarrow> ls_version l' = ls_version l \<longrightarrow> ls_owner l' = ls_owner l) \<and>
    (fv_valid (validateFencingToken (ls_key l) w (ls_version l) clock (lw_table s)) \<longrightarrow> w = ls_owner l)"
proof -
  from lease_reachable_inv [OF assms(1)] have inv: "tokens_inv (lw_table s) (lw_tokens s)"
    and g: "\<And>l. l \<in> lw_grants s \<Longrightarrow> (ls_key l, ls_version l, ls_owner l) \<in> lw_tokens s"
    by (auto simp: lease_inv_def backed_def)
  have "(ls_key l, ls_version l, w) \<in> lw_tokens s"
    if "fv_valid (validateFencingToken (ls_key l) w (ls_version l) clock (lw_table s))"
    using valid_token [OF that] tokens_inv_sub [OF inv] by blast
  then show ?thesis using g [OF assms(2)] g [of l'] tokens_inv_owner [OF inv] by metis
qed

lemma lease_version_monotone_row:
  assumes "lease_reachable s" and "lease_step s s'" and "row_of lr_key (lw_table s) k = Some r"
  shows "\<exists>r'. row_of lr_key (lw_table s') k = Some r' \<and> (r' = r \<or> lr_version r < lr_version r')"
proof -
  have u: "unique_key lr_key (lw_table s)"
    using lease_reachable_inv [OF assms(1)] tokens_inv_unique unfolding lease_inv_def by blast
  have "table_advances (lw_table s) (lw_table s')"
    using assms(2) u
    by (cases rule: lease_step.cases) (auto simp: lw_write_def dest!: acq_step_table renew_stmt_table)
  then show ?thesis using assms(3) by (rule table_advances_row)
qed

text \<open>No statement lowers the version of a lease key or removes its row, and a change of
  owner always comes with a higher version.\<close>

theorem lease_version_monotone:
  assumes "lease_reachable s" and "lease_step s s'" and "row_of lr_key (lw_table s) k = Some r"
  shows "\<exists>r'. row_of lr_key (lw_table s') k = Some r' \<and> lr_version r \<le> lr_version r' \<and>
    (lr_owner r' \<noteq> lr_owner r \<longrightarrow> lr_version r < lr_version r')"
  using lease_version_monotone_row [OF assms] by auto

text \<open>A token stops validating for good once a newer one was granted: if the table's version of
  the key is above the token's, then after any further run the token is still stale.\<close>

theorem stale_token_rejected_forever:
  assumes "lease_reachable s" and "lease_step\<^sup>*\<^sup>* s s'"
    and "row_of lr_key (lw_table s) k = Some r" and "v < lr_version r"
  shows "validateFencingToken k w v clock (lw_table s') = \<lparr>fv_valid = False, fv_stale = True\<rparr>"
proof -
  from assms(2) assms(1,3,4)
  have "\<exists>r'. row_of lr_key (lw_table s') k = Some r' \<and> v < lr_version r' \<and> lease_reachable s'"
  proof (induction rule: rtranclp_induct)
    case base
    then show ?case by blast
  next
    case (step y z)
    then obtain r' where r': "row_of lr_key (lw_table y) k = Some r'" "v < lr_version r'"
      "lease_reachable y" by blast
    from lease_version_monotone_row [OF r'(3) step.hyps(2) r'(1)] r'(2)
    show ?case using lease_reachable.step [OF r'(3) step.hyps(2)] by fastforce
  qed
  then show ?thesis by (auto simp: validateFencingToken_def)
qed

section \<open>Concrete runs\<close>

text \<open>Running a chosen worker's next statement, for runs on concrete tables.\<close>

definition enlist :: "nat \<Rightarrow> acq_req \<Rightarrow> lease_world \<Rightarrow> lease_world" where
  "enlist i q s = s\<lparr>lw_workers := (lw_workers s)(i := WAcquiring q AqSelect)\<rparr>"

definition poke :: "nat \<Rightarrow> lease_world \<Rightarrow> lease_world" where
  "poke i s =
     (case lw_workers s i of
        WIdle \<Rightarrow> s
      | WAcquiring q pc \<Rightarrow>
          (case acq_step q pc (lw_table s) of
             (pc', t') \<Rightarrow> lw_grant (returned pc') (lw_write t' (s\<lparr>lw_workers := (lw_workers s)(i := WAcquiring q pc')\<rparr>))))"

text \<open>A renewal.\<close>

definition renew_in :: "string \<Rightarrow> string \<Rightarrow> int \<Rightarrow> int \<Rightarrow> int \<Rightarrow> lease_world \<Rightarrow> lease_world" where
  "renew_in k w v n e s = (case renew_stmt k w v n e (lw_table s) of (r, t') \<Rightarrow> lw_grant r (lw_write t' s))"

lemma reachable_renew: "lease_reachable s \<Longrightarrow> lease_reachable (renew_in k w v n e s)"
  unfolding renew_in_def
  by (cases "renew_stmt k w v n e (lw_table s)") (auto intro: lease_reachable.step lease_step.renew)

lemma reachable_enlist:
  "lease_reachable s \<Longrightarrow> lw_workers s i = WIdle \<Longrightarrow> lease_reachable (enlist i q s)"
  unfolding enlist_def by (blast intro: lease_reachable.step lease_step.begin_acquire)

lemma step_poke: "lw_workers s i \<noteq> WIdle \<Longrightarrow> lease_step s (poke i s)"
  by (auto simp: poke_def split: worker.splits prod.splits intro: lease_step.acquire_stmt)

lemma reachable_poke: "lease_reachable s \<Longrightarrow> lease_reachable (poke i s)"
  using step_poke [of s i] lease_reachable.step [of s "poke i s"]
  by (cases "lw_workers s i") (auto simp: poke_def)

lemma reachable_pokes: "lease_reachable s \<Longrightarrow> lease_reachable (fold poke is s)"
  by (induction "is" arbitrary: s) (auto intro: reachable_poke)

text \<open>Three workers of one process race for a free key: 0 inserts, 1 loses the insert and takes
  over, 2 loses the update to 1 and re-reads; 1 and 2 both hold version 2.\<close>

definition demo_req :: acq_req where
  "demo_req = \<lparr>rq_key = ''k'', rq_owner = ''w'', rq_now = 0, rq_exp = 10\<rparr>"

definition demo_start :: lease_world where
  "demo_start = enlist 2 demo_req (enlist 1 demo_req (enlist 0 demo_req lease_init))"

definition demo_world :: lease_world where
  "demo_world = fold poke [0, 1, 0, 1, 1, 2, 1, 2, 2] demo_start"

lemma demo_start_reachable: "lease_reachable demo_start"
  unfolding demo_start_def
  by (intro reachable_enlist lease_reachable.start) (simp_all add: enlist_def lease_init_def)

lemma demo_world_reachable: "lease_reachable demo_world"
  unfolding demo_world_def by (rule reachable_pokes [OF demo_start_reachable])

lemmas demo_eval = renew_in_def renew_stmt_def lw_grant_def returned_def Let_def demo_world_def demo_start_def demo_req_def enlist_def lease_init_def poke_def
  lw_write_def row_of_def has_key_def insert_new_def fresh_row_def granted_def lease_expired_def
  cas_lease_def select_def update_where_def takeover_row_def renew_row_def lease_of_def

lemma demo_results:
  "lw_workers demo_world 1 = WAcquiring demo_req (AqDone (Inr (granted demo_req 2)))"
  "lw_workers demo_world 2 = WAcquiring demo_req (AqDone (Inr (granted demo_req 2)))"
  "row_of lr_key (lw_table demo_world) ''k'' = Some \<lparr>lr_key = ''k'', lr_owner = ''w'',
     lr_version = 2, lr_acquired_at = 0, lr_expires_at = 10\<rparr>"
  by (simp_all add: demo_eval)

theorem acquireLease_spec_witness:
  "\<exists>r t'. acquireLease ''k'' ''w'' 1000 ''1970-01-01T00:00:00.000Z'' [] = Some (Inr r, t') \<and>
     ls_acquired r \<and> lr_expires_at (the (row_of lr_key t' ''k'')) = 1000"
proof -
  have u: "unique_key lr_key []" by (simp add: unique_key_def)
  have n: "dateParse ''1970-01-01T00:00:00.000Z'' = Some 0" by (simp add: date_eval)
  have m: "\<bar>0 + 1000\<bar> \<le> max_time" by (simp add: max_time_def)
  show ?thesis
    by (rule acquireLease_spec [OF u n m, of "''k''" "''w''"]) (auto simp: row_of_def)
qed

text \<open>After the race, a renewal of version 2.\<close>

definition demo_renewed :: lease_world where
  "demo_renewed = renew_in ''k'' ''w'' 2 5 20 demo_world"

definition demo_renewal :: lease_result where
  "demo_renewal = \<lparr>ls_key = ''k'', ls_owner = ''w'', ls_version = 3, ls_expires_at = 20, ls_acquired = True\<rparr>"

lemma demo_grants:
  "lw_grants demo_renewed = {demo_renewal, granted demo_req 1, granted demo_req 2}"
  "fv_valid (validateFencingToken ''k'' ''w'' 3 10 (lw_table demo_renewed))"
  by (auto simp: demo_renewed_def demo_renewal_def demo_eval validateFencingToken_def)

theorem fencing_token_single_owner_witness:
  "lease_reachable demo_renewed \<and> lw_grants demo_renewed = {demo_renewal, granted demo_req 1, granted demo_req 2} \<and>
   \<not> fv_valid (validateFencingToken ''k'' ''x'' 3 10 (lw_table demo_renewed))"
proof -
  have s: "lease_reachable demo_renewed"
    unfolding demo_renewed_def by (rule reachable_renew [OF demo_world_reachable])
  have "demo_renewal \<in> lw_grants demo_renewed" by (simp add: demo_grants)
  from fencing_token_single_owner [OF s this, of demo_renewal "''x''" 10] s demo_grants(1)
  show ?thesis by (auto simp: demo_renewal_def)
qed

theorem lease_version_monotone_witness:
  "\<exists>r'. row_of lr_key (lw_table (poke 0 demo_world)) ''k'' = Some r' \<and> 2 \<le> lr_version r'"
proof -
  have "lw_workers demo_world 0 \<noteq> WIdle" by (simp add: demo_eval)
  from lease_version_monotone [OF demo_world_reachable step_poke [OF this] demo_results(3)]
  show ?thesis by auto
qed

theorem stale_token_rejected_forever_witness:
  "validateFencingToken ''k'' ''w'' 1 5 (lw_table demo_world) = \<lparr>fv_valid = False, fv_stale = True\<rparr>"
  by (rule stale_token_rejected_forever [OF demo_world_reachable _ demo_results(3)]) simp_all

end
