(* ===== verification/Js_Number.thy ===== *)
theory Js_Number
  imports Complex_Main Js_Prelude
begin

text \<open>
  Numbers that need not be whole are exact rationals: \<open>Math.round\<close>, \<open>toFixed\<close>, the decimal text of
  a template literal (to 17 fractional digits) and \<open>JSON.stringify\<close> on values with such numbers.
  Double precision rounding is not modelled. Also \<open>Array.prototype.sort\<close> with a comparator, as
  a stable sort, and the canonical JSON the alert modules hash.
\<close>

section \<open>Rounding and text\<close>

definition math_round :: "rat \<Rightarrow> int" where
  "math_round x = \<lfloor>x + 1 / 2\<rfloor>"

definition round6 :: "rat \<Rightarrow> rat" where
  "round6 x = rat_of_int (math_round (x * 1000000)) / 1000000"

fun frac_digits :: "nat \<Rightarrow> rat \<Rightarrow> string" where
  "frac_digits 0 x = []"
| "frac_digits (Suc n) x =
     (if x = 0 then []
      else digit_char (nat \<lfloor>10 * x\<rfloor>) # frac_digits n (10 * x - rat_of_int \<lfloor>10 * x\<rfloor>))"

definition show_num :: "rat \<Rightarrow> string" where
  "show_num x =
     (let a = \<bar>x\<bar>; i = \<lfloor>a\<rfloor>; f = frac_digits 17 (a - rat_of_int i) in
      (if x < 0 then ''-'' else []) @ show_nat (nat i) @ (if f = [] then [] else CHR ''.'' # f))"

text \<open>\<open>x.toFixed(d)\<close>: halves away from zero.\<close>

fun zero_pad :: "nat \<Rightarrow> string \<Rightarrow> string" where
  "zero_pad w s = replicate (w - length s) CHR ''0'' @ s"

definition toFixed :: "rat \<Rightarrow> nat \<Rightarrow> string" where
  "toFixed x d =
     (let n = nat (math_round (\<bar>x\<bar> * 10 ^ d)); s = zero_pad (d + 1) (show_nat n) in
      (if x < 0 then ''-'' else []) @ take (length s - d) s @ CHR ''.'' # drop (length s - d) s)"

lemma math_round_bounds: "x - 1 / 2 < rat_of_int (math_round x)" "rat_of_int (math_round x) \<le> x + 1 / 2"
  using floor_correct [of "x + 1 / 2"] unfolding math_round_def by linarith+

lemma math_round_int [simp]: "math_round (rat_of_int n) = n"
  unfolding math_round_def by (rule floor_unique) linarith+

lemma math_round_mono: "x \<le> y \<Longrightarrow> math_round x \<le> math_round y"
  unfolding math_round_def by (intro floor_mono) simp

lemma round6_mono: "x \<le> y \<Longrightarrow> round6 x \<le> round6 y"
  unfolding round6_def using math_round_mono [of "x * 1000000" "y * 1000000"]
  by (simp add: divide_right_mono)

lemma round6_int [simp]: "round6 0 = 0" "round6 1 = 1"
  using math_round_int [of 0] math_round_int [of 1000000] by (simp_all add: round6_def)

lemma round6_unit: "0 \<le> x \<Longrightarrow> x \<le> 1 \<Longrightarrow> 0 \<le> round6 x \<and> round6 x \<le> 1"
  using round6_mono [of 0 x] round6_mono [of x 1] by simp

lemma round6_close: "\<bar>round6 x - x\<bar> \<le> 1 / 2000000"
  using math_round_bounds [of "x * 1000000"] unfolding round6_def abs_le_iff by (simp add: field_simps)

section \<open>Sorting with a comparator\<close>

text \<open>\<open>xs.sort(cmp)\<close> is a stable sort; \<open>cmp a b\<close> is positive when \<open>a\<close> goes after \<open>b\<close>.\<close>

fun js_insert :: "('a \<Rightarrow> 'a \<Rightarrow> int) \<Rightarrow> 'a \<Rightarrow> 'a list \<Rightarrow> 'a list" where
  "js_insert cmp x [] = [x]"
| "js_insert cmp x (y # ys) = (if 0 < cmp x y then y # js_insert cmp x ys else x # y # ys)"

definition js_sort :: "('a \<Rightarrow> 'a \<Rightarrow> int) \<Rightarrow> 'a list \<Rightarrow> 'a list" where
  "js_sort cmp xs = foldr (js_insert cmp) xs []"

lemma set_js_insert [simp]: "set (js_insert cmp x xs) = insert x (set xs)"
  by (induction xs) auto

lemma set_js_sort [simp]: "set (js_sort cmp xs) = set xs"
  unfolding js_sort_def by (induction xs) auto

lemma length_js_insert [simp]: "length (js_insert cmp x xs) = Suc (length xs)"
  by (induction xs) auto

lemma length_js_sort [simp]: "length (js_sort cmp xs) = length xs"
  unfolding js_sort_def by (induction xs) auto

lemma js_sort_Nil_iff [simp]: "js_sort cmp xs = [] \<longleftrightarrow> xs = []"
  using length_js_sort [of cmp xs] by (metis length_0_conv)

section \<open>JSON values with fractional numbers\<close>

text \<open>\<open>undefined\<close> members are dropped by \<open>JSON.stringify\<close>, so an object lists only the members it has.\<close>

datatype jval =
    VNull
  | VBool bool
  | VNum rat
  | VStr string
  | VArr "jval list"
  | VObj "(string \<times> jval) list"

fun stringify_val :: "jval \<Rightarrow> string" where
  "stringify_val VNull = ''null''"
| "stringify_val (VBool b) = show_bool b"
| "stringify_val (VNum x) = show_num x"
| "stringify_val (VStr s) = json_quote s"
| "stringify_val (VArr xs) = ''['' @ join_with '','' (map stringify_val xs) @ '']''"
| "stringify_val (VObj kvs) =
     ''{'' @ join_with '','' (map (\<lambda>(k, v). json_quote k @ '':'' @ stringify_val v) kvs) @ ''}''"

text \<open>\<open>canonicalize\<close> of the alert modules; \<open>lc\<close> is \<open>String.prototype.localeCompare\<close> of the host.\<close>

fun canonicalize :: "(string \<Rightarrow> string \<Rightarrow> int) \<Rightarrow> jval \<Rightarrow> jval" where
  "canonicalize lc (VArr xs) = VArr (map (canonicalize lc) xs)"
| "canonicalize lc (VObj kvs) =
     VObj (js_sort (\<lambda>a b. lc (fst a) (fst b)) (map (\<lambda>(k, v). (k, canonicalize lc v)) kvs))"
| "canonicalize lc VNull = VNull"
| "canonicalize lc (VBool b) = VBool b"
| "canonicalize lc (VNum x) = VNum x"
| "canonicalize lc (VStr s) = VStr s"

text \<open>Bytes of the UTF-8 encoding of a text of code units below 256.\<close>

definition utf8_bytes :: "string \<Rightarrow> nat" where
  "utf8_bytes s = sum_list (map (\<lambda>c. if (of_char c :: nat) < 128 then 1 else 2) s)"

end
