(* ===== verification/Workflow_Steps.thy ===== *)
theory Workflow_Steps
  imports Js_Number Sql_Table Js_Date
begin

text \<open>
  The durable workflow core of packages/workflow-runtime/src/index.ts apart from the leases: the
  trigger inbox, runs, steps, the retry taxonomy, dead letters, and the handler
  \<open>handleTriggerInboxRequest\<close>.

  A function of the code is a function from the database to a result and the database
  afterwards; every statement commits on its own, so a statement that fails leaves the earlier
  ones in place. The primary keys, unique keys and foreign keys of
  infra/migrations/0002_durable_workflow_core.sql are written out. A time stamp is the instant
  it denotes, \<open>sha\<close> is the hexadecimal SHA-256 digest, \<open>clock\<close> the value of \<open>Date.now()\<close>.
\<close>

section \<open>Rows\<close>

datatype trigger_status = TRECEIVED | TPROCESSING | TPROCESSED | TDUPLICATE | TFAILED

datatype run_status =
    RPENDING | RRUNNING | RWAITING | RRETRYING | RCOMPLETED | RPARTIAL | RFAILED | RCANCELLED
  | RTIMED_OUT | RDEAD_LETTERED

datatype step_status = SPENDING | SRUNNING | SCOMPLETED | SFAILED | SDEAD_LETTERED | SSKIPPED

datatype dl_status = DOPEN | DRETRYING | DRESOLVED | DCANCELLED

record trigger_row =
  ti_id :: string
  ti_source :: string
  ti_external :: string
  ti_schedule_id :: "string option"
  ti_scheduled_for :: "int option"
  ti_payload_hash :: string
  ti_received_at :: int
  ti_verified_at :: "int option"
  ti_run :: "string option"
  ti_status :: trigger_status

record run_row =
  rn_id :: string
  rn_name :: string
  rn_schedule_id :: "string option"
  rn_trigger :: "string option"
  rn_status :: run_status
  rn_created_at :: int
  rn_updated_at :: int
  rn_completed_at :: "int option"
  rn_error_class :: "string option"
  rn_retryable :: "bool option"

record step_row =
  sp_id :: string
  sp_run :: string
  sp_type :: string
  sp_key :: string
  sp_attempt :: int
  sp_input_hash :: string
  sp_output_hash :: "string option"
  sp_status :: step_status
  sp_lease_owner :: "string option"
  sp_lease_version :: int
  sp_lease_expires_at :: "int option"
  sp_started_at :: "int option"
  sp_completed_at :: "int option"
  sp_error_class :: "string option"
  sp_retryable :: bool
  sp_next_retry_at :: "int option"
  sp_created_at :: int
  sp_updated_at :: int

record attempt_row =
  sa_id :: string
  sa_step :: string
  sa_attempt :: int
  sa_started_at :: int
  sa_completed_at :: "int option"
  sa_error_class :: "string option"
  sa_error_message :: "string option"
  sa_retryable :: bool
  sa_output_hash :: "string option"

record dl_row =
  dl_id :: string
  dl_run :: string
  dl_step :: "string option"
  dl_error_class :: string
  dl_retryable :: bool
  dl_attempt :: int
  dl_payload :: "json option"
  dl_error_message :: "string option"
  dl_status :: dl_status
  dl_created_at :: int
  dl_resolved_at :: "int option"
  dl_last_retry_at :: "int option"

record wf_db =
  db_inbox :: "trigger_row list"
  db_runs :: "run_row list"
  db_steps :: "step_row list"
  db_attempts :: "attempt_row list"
  db_letters :: "dl_row list"

definition empty_db :: wf_db where
  "empty_db = \<lparr>db_inbox = [], db_runs = [], db_steps = [], db_attempts = [], db_letters = []\<rparr>"

text \<open>The keys the schema enforces.\<close>

definition wf_keys :: "wf_db \<Rightarrow> bool" where
  "wf_keys db \<longleftrightarrow>
     unique_key ti_id (db_inbox db) \<and> unique_key ti_external (db_inbox db) \<and>
     unique_key rn_id (db_runs db) \<and>
     unique_key sp_id (db_steps db) \<and> unique_key sp_key (db_steps db) \<and>
     unique_key sa_id (db_attempts db) \<and> unique_key dl_id (db_letters db)"

definition unique_violation :: error where
  "unique_violation = DatabaseError ''duplicate key value violates unique constraint''"

definition foreign_key_violation :: error where
  "foreign_key_violation = DatabaseError ''insert violates foreign key constraint''"

section \<open>Trigger inbox\<close>

definition canonicalizeExternalMessageId :: "string \<Rightarrow> string result" where
  "canonicalizeExternalMessageId raw =
     (let trimmed = trim raw in
      throw_if (length trimmed = 0) ''EXTERNAL_MESSAGE_ID_REQUIRED''
      (throw_if (512 < length trimmed) ''EXTERNAL_MESSAGE_ID_TOO_LONG''
      (Inr trimmed)))"

definition hashPayload :: "(string \<Rightarrow> string) \<Rightarrow> json option \<Rightarrow> string" where
  "hashPayload sha payload = sha (stringify (case payload of None \<Rightarrow> JNull | Some j \<Rightarrow> j))"

definition hashValue :: "(string \<Rightarrow> string) \<Rightarrow> json option \<Rightarrow> string" where
  "hashValue sha v =
     sha (case v of Some (JStr s) \<Rightarrow> s | Some j \<Rightarrow> stringify j | None \<Rightarrow> stringify JNull)"

record inbox_input =
  ii_id :: "string option"
  ii_source :: string
  ii_external :: string
  ii_schedule_id :: "string option"
  ii_scheduled_for :: "int option"
  ii_payload_hash :: string
  ii_received_at :: int
  ii_verified_at :: "int option"

record inbox_result =
  ir_inbox_id :: string
  ir_inserted :: bool
  ir_duplicate :: bool
  ir_run :: "string option"
  ir_status :: trigger_status

definition inbox_by_external :: "string \<Rightarrow> trigger_row list \<Rightarrow> trigger_row list" where
  "inbox_by_external m t = select (\<lambda>r. ti_external r = m) t"

definition inbox_of :: "trigger_row \<Rightarrow> bool \<Rightarrow> inbox_result" where
  "inbox_of r ins = \<lparr>ir_inbox_id = ti_id r, ir_inserted = ins, ir_duplicate = \<not> ins,
     ir_run = ti_run r, ir_status = ti_status r\<rparr>"

definition inbox_default_id :: "(string \<Rightarrow> string) \<Rightarrow> string \<Rightarrow> string" where
  "inbox_default_id sha c = ''inbox-'' @ take 16 c @ ''-'' @ take 8 (sha c)"

definition trigger_row_of :: "string \<Rightarrow> string \<Rightarrow> inbox_input \<Rightarrow> trigger_row" where
  "trigger_row_of inboxId c i = \<lparr>ti_id = inboxId, ti_source = ii_source i, ti_external = c,
     ti_schedule_id = ii_schedule_id i, ti_scheduled_for = ii_scheduled_for i,
     ti_payload_hash = ii_payload_hash i, ti_received_at = ii_received_at i,
     ti_verified_at = ii_verified_at i, ti_run = None, ti_status = TRECEIVED\<rparr>"

text \<open>\<open>INSERT INTO trigger_inbox ... ON CONFLICT (external_message_id) DO NOTHING RETURNING\<close>: the
  conflict target covers only that key, a clash of the primary key is raised.\<close>

definition inbox_insert :: "trigger_row \<Rightarrow> trigger_row list \<Rightarrow> trigger_row option result \<times> trigger_row list" where
  "inbox_insert r t =
     (if has_key ti_external (ti_external r) t then (Inr None, t)
      else if has_key ti_id (ti_id r) t then (Inl unique_violation, t)
      else (Inr (Some r), t @ [r]))"

definition inbox_refetch :: "string \<Rightarrow> wf_db \<Rightarrow> inbox_result result \<times> wf_db" where
  "inbox_refetch c db =
     (case inbox_by_external c (db_inbox db) of
        [] \<Rightarrow> (Inl (Error ''TRIGGER_INBOX_CONSISTENCY_ERROR''), db)
      | r # _ \<Rightarrow> (Inr (inbox_of r False), db))"

definition insertTriggerInbox ::
  "(string \<Rightarrow> string) \<Rightarrow> inbox_input \<Rightarrow> wf_db \<Rightarrow> inbox_result result \<times> wf_db" where
  "insertTriggerInbox sha i db =
     (case canonicalizeExternalMessageId (ii_external i) of
        Inl e \<Rightarrow> (Inl e, db)
      | Inr c \<Rightarrow>
          (case inbox_by_external c (db_inbox db) of
             [r] \<Rightarrow> (Inr (inbox_of r False), db)
           | _ \<Rightarrow>
               (let inboxId = (case ii_id i of Some x \<Rightarrow> x | None \<Rightarrow> inbox_default_id sha c) in
                case inbox_insert (trigger_row_of inboxId c i) (db_inbox db) of
                  (Inr (Some r), t) \<Rightarrow> (Inr (inbox_of r True), db\<lparr>db_inbox := t\<rparr>)
                | (Inr None, t) \<Rightarrow> inbox_refetch c db
                | (Inl e, t) \<Rightarrow> inbox_refetch c db)))"

definition linkTriggerToRun :: "string \<Rightarrow> string \<Rightarrow> wf_db \<Rightarrow> wf_db" where
  "linkTriggerToRun inboxId runId db =
     db\<lparr>db_inbox := update_where (\<lambda>r. ti_id r = inboxId)
        (\<lambda>r. r\<lparr>ti_run := Some runId, ti_status := TPROCESSED\<rparr>) (db_inbox db)\<rparr>"

definition shouldStartWorkflowForTrigger :: "inbox_result \<Rightarrow> bool" where
  "shouldStartWorkflowForTrigger r = ir_inserted r"

section \<open>Runs and steps\<close>

record run_input =
  ri_id :: string
  ri_name :: string
  ri_schedule_id :: "string option"
  ri_trigger :: "string option"
  ri_now :: int

definition run_row_of :: "run_input \<Rightarrow> run_row" where
  "run_row_of i = \<lparr>rn_id = ri_id i, rn_name = ri_name i, rn_schedule_id = ri_schedule_id i,
     rn_trigger = ri_trigger i, rn_status = RPENDING, rn_created_at = ri_now i,
     rn_updated_at = ri_now i, rn_completed_at = None, rn_error_class = None, rn_retryable = None\<rparr>"

definition trigger_exists :: "string option \<Rightarrow> wf_db \<Rightarrow> bool" where
  "trigger_exists tr db = (case tr of None \<Rightarrow> True | Some x \<Rightarrow> has_key ti_id x (db_inbox db))"

definition createWorkflowRun :: "run_input \<Rightarrow> wf_db \<Rightarrow> (string \<times> run_status) result \<times> wf_db" where
  "createWorkflowRun i db =
     (case row_of rn_id (db_runs db) (ri_id i) of
        Some r \<Rightarrow> (Inr (rn_id r, rn_status r), db)
      | None \<Rightarrow>
          if trigger_exists (ri_trigger i) db
          then (Inr (ri_id i, RPENDING), db\<lparr>db_runs := db_runs db @ [run_row_of i]\<rparr>)
          else (Inl foreign_key_violation, db))"

record step_input =
  si_id :: string
  si_run :: string
  si_type :: string
  si_key :: string
  si_input_hash :: string
  si_lease_owner :: "string option"
  si_lease_version :: "int option"
  si_lease_expires_at :: "int option"
  si_now :: int

definition step_row_of :: "step_input \<Rightarrow> step_row" where
  "step_row_of i = \<lparr>sp_id = si_id i, sp_run = si_run i, sp_type = si_type i, sp_key = si_key i,
     sp_attempt = 0, sp_input_hash = si_input_hash i, sp_output_hash = None, sp_status = SPENDING,
     sp_lease_owner = si_lease_owner i,
     sp_lease_version = (case si_lease_version i of None \<Rightarrow> 0 | Some v \<Rightarrow> v),
     sp_lease_expires_at = si_lease_expires_at i, sp_started_at = None, sp_completed_at = None,
     sp_error_class = None, sp_retryable = False, sp_next_retry_at = None,
     sp_created_at = si_now i, sp_updated_at = si_now i\<rparr>"

definition createWorkflowStep :: "step_input \<Rightarrow> wf_db \<Rightarrow> (string \<times> bool) result \<times> wf_db" where
  "createWorkflowStep i db =
     (case row_of sp_key (db_steps db) (si_key i) of
        Some r \<Rightarrow> (Inr (sp_id r, False), db)
      | None \<Rightarrow>
          if has_key sp_id (si_id i) (db_steps db) then (Inl unique_violation, db)
          else if \<not> has_key rn_id (si_run i) (db_runs db) then (Inl foreign_key_violation, db)
          else (Inr (si_id i, True), db\<lparr>db_steps := db_steps db @ [step_row_of i]\<rparr>))"

text \<open>\<open>ORDER BY created_at\<close>; rows of the same instant come in insertion order here, the database
  leaves their order open.\<close>

definition getWorkflowSteps :: "string \<Rightarrow> wf_db \<Rightarrow> step_row list" where
  "getWorkflowSteps runId db =
     sort_key sp_created_at (select (\<lambda>s. sp_run s = runId) (db_steps db))"

text \<open>\<open>ORDER BY completed_at DESC LIMIT 1\<close>, nulls first.\<close>

definition getLastCompletedStep :: "string \<Rightarrow> wf_db \<Rightarrow> step_row option" where
  "getLastCompletedStep runId db =
     (let rows = select (\<lambda>s. sp_run s = runId \<and> sp_status s = SCOMPLETED) (db_steps db);
          nulls = filter (\<lambda>s. sp_completed_at s = None) rows;
          dated = filter (\<lambda>s. sp_completed_at s \<noteq> None) rows
      in case nulls @ sort_key (\<lambda>s. - the (sp_completed_at s)) dated of
           [] \<Rightarrow> None | s # _ \<Rightarrow> Some s)"

definition getNextPendingStep :: "string \<Rightarrow> wf_db \<Rightarrow> step_row option" where
  "getNextPendingStep runId db =
     (case sort_key sp_created_at
         (select (\<lambda>s. sp_run s = runId \<and> (sp_status s = SPENDING \<or> sp_status s = SFAILED)) (db_steps db)) of
        [] \<Rightarrow> None | s # _ \<Rightarrow> Some s)"

record resume_point =
  rp_completed :: "step_row list"
  rp_next :: "step_row option"

definition resumeFromCheckpoint :: "string \<Rightarrow> wf_db \<Rightarrow> resume_point" where
  "resumeFromCheckpoint runId db =
     (let all = getWorkflowSteps runId db in
      \<lparr>rp_completed = filter (\<lambda>s. sp_status s = SCOMPLETED) all,
       rp_next = find (\<lambda>s. sp_status s = SPENDING \<or> sp_status s = SFAILED) all\<rparr>)"

section \<open>Fenced commit and claim\<close>

record commit_result =
  cr_committed :: bool
  cr_stale :: bool

definition committed_step :: "string \<Rightarrow> int \<Rightarrow> step_row \<Rightarrow> step_row" where
  "committed_step outputHash now s = s\<lparr>sp_output_hash := Some outputHash, sp_status := SCOMPLETED,
     sp_completed_at := Some now, sp_updated_at := now\<rparr>"

definition claimed_step :: "string \<Rightarrow> int \<Rightarrow> int \<Rightarrow> int \<Rightarrow> step_row \<Rightarrow> step_row" where
  "claimed_step owner version expiresAt now s = s\<lparr>sp_lease_owner := Some owner,
     sp_lease_version := version, sp_lease_expires_at := Some expiresAt, sp_status := SRUNNING,
     sp_started_at := Some now, sp_updated_at := now\<rparr>"

definition holds_lease :: "string \<Rightarrow> int \<Rightarrow> step_row \<Rightarrow> bool" where
  "holds_lease owner version s = (sp_lease_owner s = Some owner \<and> sp_lease_version s = version)"

definition claimable :: "step_row \<Rightarrow> bool" where
  "claimable s = (sp_status s = SPENDING \<or> sp_status s = SFAILED)"

definition commitStepWithFencing ::
  "string \<Rightarrow> string \<Rightarrow> int \<Rightarrow> string \<Rightarrow> int \<Rightarrow> wf_db \<Rightarrow> commit_result \<times> wf_db" where
  "commitStepWithFencing stepId owner version outputHash now db =
     (let P = (\<lambda>s. sp_id s = stepId \<and> holds_lease owner version s);
          db' = db\<lparr>db_steps := update_where P (committed_step outputHash now) (db_steps db)\<rparr>
      in if length (select P (db_steps db)) = 1 then (\<lparr>cr_committed = True, cr_stale = False\<rparr>, db')
         else (case row_of sp_id (db_steps db') stepId of
                 None \<Rightarrow> (\<lparr>cr_committed = False, cr_stale = False\<rparr>, db')
               | Some s \<Rightarrow>
                   (\<lparr>cr_committed = False,
                     cr_stale = (sp_lease_owner s \<noteq> Some owner \<or> sp_lease_version s \<noteq> version)\<rparr>, db')))"

definition claimStepForExecution ::
  "string \<Rightarrow> string \<Rightarrow> int \<Rightarrow> int \<Rightarrow> int \<Rightarrow> wf_db \<Rightarrow> bool \<times> wf_db" where
  "claimStepForExecution stepId owner version expiresAt now db =
     (let P = (\<lambda>s. sp_id s = stepId \<and> claimable s)
      in (length (select P (db_steps db)) = 1,
          db\<lparr>db_steps := update_where P (claimed_step owner version expiresAt now) (db_steps db)\<rparr>))"

section \<open>Retry taxonomy\<close>

text \<open>Delays are exact rationals: the powers of two of the code are exact in double precision, the
  jitter is rounded to whole milliseconds at the end.\<close>

record retry_decision =
  rd_retryable :: bool
  rd_max_attempts :: int
  rd_backoff :: "rat option"
  rd_jitter :: bool

definition computeExponentialBackoff :: "int \<Rightarrow> rat \<Rightarrow> rat \<Rightarrow> rat" where
  "computeExponentialBackoff attempt baseMs capMs =
     (let exp = baseMs * (if 0 \<le> attempt then 2 ^ nat attempt else 1 / 2 ^ nat (- attempt))
      in min exp capMs)"

definition computeJitteredBackoff :: "rat \<Rightarrow> rat \<Rightarrow> rat \<Rightarrow> int" where
  "computeJitteredBackoff backoffMs jitterFactor randomValue =
     (let jitter = (randomValue * 2 - 1) * jitterFactor * backoffMs
      in max 0 (math_round (backoffMs + jitter)))"

definition classifyRetry :: "string \<Rightarrow> int \<Rightarrow> retry_decision" where
  "classifyRetry errorClass attempt =
     (if errorClass \<in> {''AUTH_ERROR'', ''INVALID_INPUT'', ''BUDGET_EXCEEDED''} then
        \<lparr>rd_retryable = False, rd_max_attempts = 1, rd_backoff = None, rd_jitter = False\<rparr>
      else if errorClass = ''SCHEMA_DRIFT'' then
        \<lparr>rd_retryable = False, rd_max_attempts = 1, rd_backoff = None, rd_jitter = False\<rparr>
      else if errorClass = ''MODEL_FORMAT_ERROR'' then
        \<lparr>rd_retryable = (attempt < 1), rd_max_attempts = 2,
         rd_backoff = (if attempt = 0 then Some 500 else None), rd_jitter = False\<rparr>
      else if errorClass = ''RATE_LIMIT'' then
        \<lparr>rd_retryable = True, rd_max_attempts = 5,
         rd_backoff = Some (computeExponentialBackoff attempt 1000 30000), rd_jitter = True\<rparr>
      else if errorClass \<in> {''TIMEOUT'', ''HTTP_5XX''} then
        \<lparr>rd_retryable = True, rd_max_attempts = 5,
         rd_backoff = Some (computeExponentialBackoff attempt 500 30000), rd_jitter = True\<rparr>
      else if errorClass = ''SERIALIZATION_CONFLICT'' then
        \<lparr>rd_retryable = True, rd_max_attempts = 10, rd_backoff = Some 50, rd_jitter = True\<rparr>
      else if errorClass = ''NOTIFICATION_TRANSIENT'' then
        \<lparr>rd_retryable = True, rd_max_attempts = 8,
         rd_backoff = Some (computeExponentialBackoff attempt 1000 60000), rd_jitter = True\<rparr>
      else
        \<lparr>rd_retryable = True, rd_max_attempts = 3,
         rd_backoff = Some (computeExponentialBackoff attempt 1000 10000), rd_jitter = True\<rparr>)"

definition hasExhaustedRetries :: "string \<Rightarrow> int \<Rightarrow> bool" where
  "hasExhaustedRetries errorClass attempt =
     (let decision = classifyRetry errorClass attempt in
      if \<not> rd_retryable decision then True
      else rd_max_attempts decision \<le> attempt + 1)"

section \<open>Recording outcomes\<close>

record dl_input =
  di_id :: string
  di_run :: string
  di_step :: "string option"
  di_error_class :: string
  di_retryable :: bool
  di_attempt :: int
  di_error_message :: "string option"
  di_now :: int
  di_payload :: "json option"

definition dl_row_of :: "dl_input \<Rightarrow> dl_row" where
  "dl_row_of i = \<lparr>dl_id = di_id i, dl_run = di_run i, dl_step = di_step i,
     dl_error_class = di_error_class i, dl_retryable = di_retryable i, dl_attempt = di_attempt i,
     dl_payload = di_payload i, dl_error_message = di_error_message i, dl_status = DOPEN,
     dl_created_at = di_now i, dl_resolved_at = None, dl_last_retry_at = None\<rparr>"

definition createDeadLetterItem :: "dl_input \<Rightarrow> wf_db \<Rightarrow> unit result \<times> wf_db" where
  "createDeadLetterItem i db =
     (if has_key dl_id (di_id i) (db_letters db) then (Inr (), db)
      else if \<not> has_key rn_id (di_run i) (db_runs db) \<or>
              (case di_step i of None \<Rightarrow> False | Some s \<Rightarrow> \<not> has_key sp_id s (db_steps db))
      then (Inl foreign_key_violation, db)
      else (Inr (), db\<lparr>db_letters := db_letters db @ [dl_row_of i]\<rparr>))"

definition attempt_id :: "string \<Rightarrow> int \<Rightarrow> string" where
  "attempt_id stepId n = ''attempt-'' @ stepId @ ''-'' @ show_int n"

text \<open>The insert into \<open>step_attempts\<close> of a failure, with no conflict clause.\<close>

definition insert_attempt :: "attempt_row \<Rightarrow> wf_db \<Rightarrow> unit result \<times> wf_db" where
  "insert_attempt a db =
     (if has_key sa_id (sa_id a) (db_attempts db) then (Inl unique_violation, db)
      else if \<not> has_key sp_id (sa_step a) (db_steps db) then (Inl foreign_key_violation, db)
      else (Inr (), db\<lparr>db_attempts := db_attempts db @ [a]\<rparr>))"

definition failed_attempt :: "string \<Rightarrow> int \<Rightarrow> string \<Rightarrow> string \<Rightarrow> bool \<Rightarrow> int \<Rightarrow> attempt_row" where
  "failed_attempt stepId n ec msg retryable now =
     \<lparr>sa_id = attempt_id stepId n, sa_step = stepId, sa_attempt = n, sa_started_at = now,
      sa_completed_at = None, sa_error_class = Some ec, sa_error_message = Some msg,
      sa_retryable = retryable, sa_output_hash = None\<rparr>"

record failure_result =
  fr_status :: step_status
  fr_dead_lettered :: bool
  fr_next_retry_at :: "int option"

definition update_step :: "string \<Rightarrow> (step_row \<Rightarrow> step_row) \<Rightarrow> wf_db \<Rightarrow> wf_db" where
  "update_step stepId f db = db\<lparr>db_steps := update_key sp_id stepId f (db_steps db)\<rparr>"

definition update_run :: "string \<Rightarrow> (run_row \<Rightarrow> run_row) \<Rightarrow> wf_db \<Rightarrow> wf_db" where
  "update_run runId f db = db\<lparr>db_runs := update_key rn_id runId f (db_runs db)\<rparr>"

definition dead_step :: "string \<Rightarrow> int \<Rightarrow> step_row \<Rightarrow> step_row" where
  "dead_step ec now s = s\<lparr>sp_status := SDEAD_LETTERED, sp_error_class := Some ec,
     sp_retryable := False, sp_completed_at := Some now, sp_updated_at := now,
     sp_attempt := sp_attempt s + 1\<rparr>"

definition retry_step :: "string \<Rightarrow> int \<Rightarrow> int \<Rightarrow> step_row \<Rightarrow> step_row" where
  "retry_step ec next now s = s\<lparr>sp_status := SFAILED, sp_error_class := Some ec,
     sp_retryable := True, sp_next_retry_at := Some next, sp_updated_at := now,
     sp_attempt := sp_attempt s + 1\<rparr>"

text \<open>The exhausted branch of \<open>recordStepFailure\<close>.\<close>

definition dead_letter_failure ::
  "int \<Rightarrow> string \<Rightarrow> string \<Rightarrow> int \<Rightarrow> string \<Rightarrow> string \<Rightarrow> int \<Rightarrow> wf_db \<Rightarrow> failure_result result \<times> wf_db" where
  "dead_letter_failure clock stepId runId currentAttempt errorClass errorMessage now db =
     and_then (insert_attempt (failed_attempt stepId currentAttempt errorClass errorMessage False now)
                (update_step stepId (dead_step errorClass now) db)) (\<lambda>_ db2.
     and_then (createDeadLetterItem
                \<lparr>di_id = ''dl-'' @ stepId @ ''-'' @ show_int clock, di_run = runId,
                 di_step = Some stepId, di_error_class = errorClass, di_retryable = False,
                 di_attempt = currentAttempt + 1, di_error_message = Some errorMessage,
                 di_now = now, di_payload = None\<rparr> db2) (\<lambda>_ db3.
       (Inr \<lparr>fr_status = SDEAD_LETTERED, fr_dead_lettered = True, fr_next_retry_at = None\<rparr>,
        update_run runId (\<lambda>r. r\<lparr>rn_status := RDEAD_LETTERED, rn_error_class := Some errorClass,
          rn_retryable := Some False, rn_updated_at := now\<rparr>) db3)))"

text \<open>The retry branch; \<open>rnd\<close> is the value \<open>Math.random()\<close> returns if it is called.\<close>

definition retry_delay :: "rat \<Rightarrow> retry_decision \<Rightarrow> int" where
  "retry_delay rnd decision =
     (let backoff = (case rd_backoff decision of None \<Rightarrow> 1000 | Some b \<Rightarrow> b)
      in if rd_jitter decision then computeJitteredBackoff backoff (1 / 5) rnd else \<lfloor>backoff\<rfloor>)"

definition retry_failure ::
  "rat \<Rightarrow> retry_decision \<Rightarrow> string \<Rightarrow> int \<Rightarrow> string \<Rightarrow> string \<Rightarrow> int \<Rightarrow> wf_db \<Rightarrow> failure_result result \<times> wf_db" where
  "retry_failure rnd decision stepId currentAttempt errorClass errorMessage now db =
     (let nextRetryAt = now + retry_delay rnd decision in
      if max_time < \<bar>nextRetryAt\<bar> then (Inl (RangeError ''Invalid time value''), db)
      else
        and_then (insert_attempt (failed_attempt stepId currentAttempt errorClass errorMessage True now)
                   (update_step stepId (retry_step errorClass nextRetryAt now) db)) (\<lambda>_ db2.
          (Inr \<lparr>fr_status = SFAILED, fr_dead_lettered = False, fr_next_retry_at = Some nextRetryAt\<rparr>, db2)))"

definition recordStepFailure ::
  "int \<Rightarrow> rat \<Rightarrow> string \<Rightarrow> string \<Rightarrow> string \<Rightarrow> int \<Rightarrow> wf_db \<Rightarrow> failure_result result \<times> wf_db" where
  "recordStepFailure clock rnd stepId errorClass errorMessage now db =
     (case row_of sp_id (db_steps db) stepId of
        None \<Rightarrow> (Inl (Error ''STEP_NOT_FOUND''), db)
      | Some step \<Rightarrow>
          (let decision = classifyRetry errorClass (sp_attempt step) in
           if \<not> rd_retryable decision \<or> rd_max_attempts decision \<le> sp_attempt step + 1
           then dead_letter_failure clock stepId (sp_run step) (sp_attempt step) errorClass errorMessage now db
           else retry_failure rnd decision stepId (sp_attempt step) errorClass errorMessage now db))"

definition success_step :: "string \<Rightarrow> int \<Rightarrow> step_row \<Rightarrow> step_row" where
  "success_step outputHash now s = s\<lparr>sp_output_hash := Some outputHash, sp_status := SCOMPLETED,
     sp_completed_at := Some now, sp_updated_at := now, sp_error_class := None, sp_retryable := False\<rparr>"

definition recordStepSuccess :: "int \<Rightarrow> string \<Rightarrow> string \<Rightarrow> int \<Rightarrow> wf_db \<Rightarrow> unit result \<times> wf_db" where
  "recordStepSuccess clock stepId outputHash now db =
     (let db1 = update_step stepId (success_step outputHash now) db;
          a = \<lparr>sa_id = ''attempt-'' @ stepId @ ''-success-'' @ show_int clock, sa_step = stepId,
               sa_attempt = 0, sa_started_at = now, sa_completed_at = Some now, sa_error_class = None,
               sa_error_message = None, sa_retryable = False, sa_output_hash = Some outputHash\<rparr>
      in if has_key sa_id (sa_id a) (db_attempts db1) then (Inr (), db1)
         else if \<not> has_key sp_id stepId (db_steps db1) then (Inl foreign_key_violation, db1)
         else (Inr (), db1\<lparr>db_attempts := db_attempts db1 @ [a]\<rparr>))"

section \<open>Dead letters\<close>

definition listDeadLetters :: "string option \<Rightarrow> wf_db \<Rightarrow> dl_row list" where
  "listDeadLetters runId db =
     (case runId of
        Some r \<Rightarrow>
          if r \<noteq> [] then sort_key dl_created_at (select (\<lambda>d. dl_run d = r) (db_letters db))
          else sort_key dl_created_at (db_letters db)
      | None \<Rightarrow> sort_key dl_created_at (db_letters db))"

record dl_retry_result =
  dr_retried :: bool
  dr_step :: "string option"

definition reset_step :: "int \<Rightarrow> step_row \<Rightarrow> step_row" where
  "reset_step now s = s\<lparr>sp_status := SPENDING, sp_error_class := None, sp_retryable := False,
     sp_next_retry_at := None, sp_updated_at := now\<rparr>"

definition retryDeadLetterFromCheckpoint :: "string \<Rightarrow> int \<Rightarrow> wf_db \<Rightarrow> dl_retry_result result \<times> wf_db" where
  "retryDeadLetterFromCheckpoint deadLetterId now db =
     (case row_of dl_id (db_letters db) deadLetterId of
        None \<Rightarrow> (Inl (Error ''DEAD_LETTER_NOT_FOUND''), db)
      | Some d \<Rightarrow>
          if dl_status d \<noteq> DOPEN then (Inr \<lparr>dr_retried = False, dr_step = dl_step d\<rparr>, db)
          else
            (let db1 = (case dl_step d of
                   None \<Rightarrow> db
                 | Some s \<Rightarrow>
                     if s = [] then db
                     else update_step s (reset_step now) db);
                 db2 = update_run (dl_run d) (\<lambda>r. r\<lparr>rn_status := RRETRYING, rn_updated_at := now\<rparr>) db1;
                 db3 = db2\<lparr>db_letters := update_key dl_id deadLetterId
                         (\<lambda>r. r\<lparr>dl_status := DRETRYING, dl_last_retry_at := Some now\<rparr>) (db_letters db2)\<rparr>
             in (Inr \<lparr>dr_retried = True, dr_step = dl_step d\<rparr>, db3)))"

definition resolveDeadLetter :: "string \<Rightarrow> int \<Rightarrow> wf_db \<Rightarrow> wf_db" where
  "resolveDeadLetter deadLetterId now db =
     db\<lparr>db_letters := update_key dl_id deadLetterId
         (\<lambda>r. r\<lparr>dl_status := DRESOLVED, dl_resolved_at := Some now\<rparr>) (db_letters db)\<rparr>"

section \<open>Execution helpers\<close>

record step_definition =
  sd_type :: string
  sd_key :: string
  sd_input :: "json option"

definition step_id_of :: "string \<Rightarrow> nat \<Rightarrow> string" where
  "step_id_of runId index =
     (let n = show_nat (index + 1) in runId @ ''--step-'' @ replicate (3 - length n) CHR ''0'' @ n)"

definition ensure_input :: "(string \<Rightarrow> string) \<Rightarrow> string \<Rightarrow> nat \<Rightarrow> step_definition \<Rightarrow> int \<Rightarrow> step_input" where
  "ensure_input sha runId index d now =
     \<lparr>si_id = step_id_of runId index, si_run = runId, si_type = sd_type d, si_key = sd_key d,
      si_input_hash = hashValue sha (sd_input d), si_lease_owner = None, si_lease_version = None,
      si_lease_expires_at = None, si_now = now\<rparr>"

fun ensure_loop ::
  "(string \<Rightarrow> string) \<Rightarrow> string \<Rightarrow> nat \<Rightarrow> step_definition list \<Rightarrow> int \<Rightarrow> wf_db \<Rightarrow> unit result \<times> wf_db" where
  "ensure_loop sha runId index [] now db = (Inr (), db)"
| "ensure_loop sha runId index (d # ds) now db =
     and_then (createWorkflowStep (ensure_input sha runId index d now) db)
       (\<lambda>_ db'. ensure_loop sha runId (Suc index) ds now db')"

definition ensureWorkflowSteps ::
  "(string \<Rightarrow> string) \<Rightarrow> string \<Rightarrow> step_definition list \<Rightarrow> int \<Rightarrow> wf_db \<Rightarrow> unit result \<times> wf_db" where
  "ensureWorkflowSteps sha runId definitions now db = ensure_loop sha runId 0 definitions now db"

definition run_outcome :: "step_row list \<Rightarrow> run_status" where
  "run_outcome steps =
     (let allCompleted = (0 < length steps \<and> list_all (\<lambda>s. sp_status s = SCOMPLETED) steps);
          anyDead = list_ex (\<lambda>s. sp_status s = SDEAD_LETTERED) steps
      in if anyDead then RDEAD_LETTERED else if allCompleted then RCOMPLETED else RFAILED)"

definition completeWorkflowRun :: "string \<Rightarrow> int \<Rightarrow> wf_db \<Rightarrow> wf_db" where
  "completeWorkflowRun runId now db =
     update_run runId (\<lambda>r. r\<lparr>rn_status := run_outcome (getWorkflowSteps runId db),
       rn_completed_at := Some now, rn_updated_at := now\<rparr>) db"

section \<open>The trigger handler\<close>

record trigger_request =
  tr_source :: string
  tr_external :: string
  tr_schedule_id :: "string option"
  tr_scheduled_for :: "int option"
  tr_payload :: "json option"
  tr_received_at :: int
  tr_verified_at :: "int option"

record trigger_response =
  tp_inbox_id :: string
  tp_run :: "string option"
  tp_duplicate :: bool

definition run_id_of :: "(string \<Rightarrow> string) \<Rightarrow> string \<Rightarrow> string" where
  "run_id_of sha inboxId = ''run-'' @ take 16 (sha inboxId)"

definition inbox_input_of :: "(string \<Rightarrow> string) \<Rightarrow> trigger_request \<Rightarrow> inbox_input" where
  "inbox_input_of sha q = \<lparr>ii_id = None, ii_source = tr_source q, ii_external = tr_external q,
     ii_schedule_id = tr_schedule_id q, ii_scheduled_for = tr_scheduled_for q,
     ii_payload_hash = hashPayload sha (tr_payload q), ii_received_at = tr_received_at q,
     ii_verified_at = tr_verified_at q\<rparr>"

definition handleTriggerInboxRequest ::
  "(string \<Rightarrow> string) \<Rightarrow> trigger_request \<Rightarrow> wf_db \<Rightarrow> trigger_response result \<times> wf_db" where
  "handleTriggerInboxRequest sha q db =
     and_then (insertTriggerInbox sha (inbox_input_of sha q) db) (\<lambda>r db1.
       if ir_duplicate r
       then (Inr \<lparr>tp_inbox_id = ir_inbox_id r, tp_run = ir_run r, tp_duplicate = True\<rparr>, db1)
       else
         (let runId = run_id_of sha (ir_inbox_id r) in
          and_then (createWorkflowRun \<lparr>ri_id = runId, ri_name = ''discovery'',
                 ri_schedule_id = tr_schedule_id q, ri_trigger = Some (ir_inbox_id r),
                 ri_now = tr_received_at q\<rparr> db1) (\<lambda>_ db2.
            (Inr \<lparr>tp_inbox_id = ir_inbox_id r, tp_run = Some runId, tp_duplicate = False\<rparr>,
             linkTriggerToRun (ir_inbox_id r) runId db2))))"

end
