(* ===== verification/Workflow_Facts.thy ===== *)
theory Workflow_Facts
  imports Workflow_Steps "HOL-Library.Option_ord"
begin

text \<open>
  Facts and properties of the durable workflow core: the keys of the schema survive every
  operation, a trigger message starts one run however often it is delivered, a commit needs the
  lease of the claim, retries are bounded in number and delay, and resuming continues at the
  first step that is not done.
\<close>

section \<open>Operations as one step function\<close>

datatype wf_op =
    OpTrigger trigger_request
  | OpCreateRun run_input
  | OpCreateStep step_input
  | OpEnsure string "step_definition list" int
  | OpClaim string string int int int
  | OpCommit string string int string int
  | OpFailure int rat string string string int
  | OpSuccess int string string int
  | OpLetter dl_input
  | OpRetryLetter string int
  | OpResolveLetter string int
  | OpComplete string int

fun wf_exec :: "(string \<Rightarrow> string) \<Rightarrow> wf_op \<Rightarrow> wf_db \<Rightarrow> wf_db" where
  "wf_exec sha (OpTrigger q) db = snd (handleTriggerInboxRequest sha q db)"
| "wf_exec sha (OpCreateRun i) db = snd (createWorkflowRun i db)"
| "wf_exec sha (OpCreateStep i) db = snd (createWorkflowStep i db)"
| "wf_exec sha (OpEnsure r ds now) db = snd (ensureWorkflowSteps sha r ds now db)"
| "wf_exec sha (OpClaim s ow v ex now) db = snd (claimStepForExecution s ow v ex now db)"
| "wf_exec sha (OpCommit s ow v h now) db = snd (commitStepWithFencing s ow v h now db)"
| "wf_exec sha (OpFailure cl rnd s ec msg now) db = snd (recordStepFailure cl rnd s ec msg now db)"
| "wf_exec sha (OpSuccess cl s h now) db = snd (recordStepSuccess cl s h now db)"
| "wf_exec sha (OpLetter i) db = snd (createDeadLetterItem i db)"
| "wf_exec sha (OpRetryLetter d now) db = snd (retryDeadLetterFromCheckpoint d now db)"
| "wf_exec sha (OpResolveLetter d now) db = resolveDeadLetter d now db"
| "wf_exec sha (OpComplete r now) db = completeWorkflowRun r now db"

section \<open>Keys and references survive\<close>

text \<open>The keys of the schema, and every step's run is there.\<close>

definition wf_refs :: "wf_db \<Rightarrow> bool" where
  "wf_refs db \<longleftrightarrow> (\<forall>s\<in>set (db_steps db). has_key rn_id (sp_run s) (db_runs db))"

definition wf_inv :: "wf_db \<Rightarrow> bool" where
  "wf_inv db \<longleftrightarrow> wf_keys db \<and> wf_refs db"

lemma wf_inv_parts:
  "wf_inv db \<longleftrightarrow>
     (unique_key ti_id (db_inbox db) \<and> unique_key ti_external (db_inbox db)) \<and>
     unique_key rn_id (db_runs db) \<and>
     (unique_key sp_id (db_steps db) \<and> unique_key sp_key (db_steps db) \<and>
      (\<forall>s\<in>set (db_steps db). has_key rn_id (sp_run s) (db_runs db))) \<and>
     unique_key sa_id (db_attempts db) \<and> unique_key dl_id (db_letters db)"
  by (auto simp: wf_inv_def wf_keys_def wf_refs_def)

lemma wf_inv_inbox: "wf_inv db \<Longrightarrow> unique_key ti_id (db_inbox db) \<and> unique_key ti_external (db_inbox db)"
  unfolding wf_inv_parts by blast

lemma wf_inv_steps: "wf_inv db \<Longrightarrow> unique_key sp_id (db_steps db)"
  unfolding wf_inv_parts by blast

lemma wf_inv_run_of: "wf_inv db \<Longrightarrow> s \<in> set (db_steps db) \<Longrightarrow> has_key rn_id (sp_run s) (db_runs db)"
  unfolding wf_inv_parts by blast

lemma wf_inv_empty: "wf_inv empty_db"
  by (simp add: wf_inv_parts empty_db_def unique_key_def)

lemma wf_inv_set_inbox:
  "wf_inv db \<Longrightarrow> unique_key ti_id t \<Longrightarrow> unique_key ti_external t \<Longrightarrow> wf_inv (db\<lparr>db_inbox := t\<rparr>)"
  unfolding wf_inv_parts by simp

lemma wf_inv_add_run:
  "wf_inv db \<Longrightarrow> \<not> has_key rn_id (rn_id r) (db_runs db) \<Longrightarrow> wf_inv (db\<lparr>db_runs := db_runs db @ [r]\<rparr>)"
  unfolding wf_inv_parts by (simp add: unique_append has_key_append)

lemma wf_inv_update_run:
  "wf_inv db \<Longrightarrow> (\<And>r. rn_id (f r) = rn_id r) \<Longrightarrow> wf_inv (update_run k f db)"
  unfolding wf_inv_parts update_run_def by (simp add: unique_update_key has_key_update_key)

lemma wf_inv_update_steps:
  assumes "wf_inv db"
    and "\<And>s. P s \<Longrightarrow> sp_id (f s) = sp_id s \<and> sp_key (f s) = sp_key s \<and> sp_run (f s) = sp_run s"
  shows "wf_inv (db\<lparr>db_steps := update_where P f (db_steps db)\<rparr>)"
  using assms unfolding wf_inv_parts by (auto simp: unique_update_where in_update_where)

lemma wf_inv_update_step:
  assumes "wf_inv db"
    and "\<And>s. sp_id (f s) = sp_id s \<and> sp_key (f s) = sp_key s \<and> sp_run (f s) = sp_run s"
  shows "wf_inv (update_step k f db)"
  unfolding update_step_def update_key_def using assms by (rule wf_inv_update_steps)

lemma wf_inv_update_letters:
  "wf_inv db \<Longrightarrow> (\<And>r. dl_id (f r) = dl_id r) \<Longrightarrow>
     wf_inv (db\<lparr>db_letters := update_key dl_id k f (db_letters db)\<rparr>)"
  unfolding wf_inv_parts by (simp add: unique_update_key)

lemma wf_inv_insert_attempt:
  "wf_inv db \<Longrightarrow> wf_inv (snd (insert_attempt a db))"
  unfolding wf_inv_parts insert_attempt_def by (simp add: unique_append)

lemma wf_inv_createDeadLetterItem: "wf_inv db \<Longrightarrow> wf_inv (snd (createDeadLetterItem i db))"
  unfolding wf_inv_parts createDeadLetterItem_def by (simp add: unique_append dl_row_of_def)

lemma row_of_NoneD: "row_of key t k = None \<Longrightarrow> \<not> has_key key k t"
  by (simp add: row_of_None)

lemma wf_inv_createWorkflowRun: "wf_inv db \<Longrightarrow> wf_inv (snd (createWorkflowRun i db))"
proof (cases "row_of rn_id (db_runs db) (ri_id i)")
  case None
  assume "wf_inv db"
  with None row_of_NoneD [OF None] show ?thesis
    by (simp add: createWorkflowRun_def wf_inv_add_run run_row_of_def)
qed (simp add: createWorkflowRun_def)

lemma createWorkflowRun_ok:
  assumes "trigger_exists (ri_trigger i) db"
  shows "\<exists>rr db2. createWorkflowRun i db = (Inr rr, db2) \<and> has_key rn_id (ri_id i) (db_runs db2) \<and>
    db_inbox db2 = db_inbox db \<and> db_steps db2 = db_steps db"
proof (cases "row_of rn_id (db_runs db) (ri_id i)")
  case None
  with assms show ?thesis
    by (simp add: createWorkflowRun_def has_key_append) (simp add: has_key_iff run_row_of_def)
next
  case (Some r)
  then show ?thesis by (simp add: createWorkflowRun_def row_of_has_key)
qed

lemma wf_inv_add_step:
  assumes "wf_inv db" "\<not> has_key sp_key (sp_key s) (db_steps db)" "\<not> has_key sp_id (sp_id s) (db_steps db)"
    and "has_key rn_id (sp_run s) (db_runs db)"
  shows "wf_inv (db\<lparr>db_steps := db_steps db @ [s]\<rparr>)"
  using assms unfolding wf_inv_parts by (simp add: unique_append)

lemma wf_inv_createWorkflowStep: "wf_inv db \<Longrightarrow> wf_inv (snd (createWorkflowStep i db))"
proof (cases "row_of sp_key (db_steps db) (si_key i)")
  case None
  assume "wf_inv db"
  with None row_of_NoneD [OF None] show ?thesis
    by (simp add: createWorkflowStep_def wf_inv_add_step step_row_of_def)
qed (simp add: createWorkflowStep_def)

text \<open>The updates of a step row keep its keys.\<close>

lemma step_update_keys:
  "sp_id (dead_step ec now s) = sp_id s \<and> sp_key (dead_step ec now s) = sp_key s \<and> sp_run (dead_step ec now s) = sp_run s"
  "sp_id (retry_step ec nx now s) = sp_id s \<and> sp_key (retry_step ec nx now s) = sp_key s \<and> sp_run (retry_step ec nx now s) = sp_run s"
  "sp_id (committed_step h now s) = sp_id s \<and> sp_key (committed_step h now s) = sp_key s \<and> sp_run (committed_step h now s) = sp_run s"
  "sp_id (claimed_step ow v ex now s) = sp_id s \<and> sp_key (claimed_step ow v ex now s) = sp_key s \<and> sp_run (claimed_step ow v ex now s) = sp_run s"
  "sp_id (success_step h now s) = sp_id s \<and> sp_key (success_step h now s) = sp_key s \<and> sp_run (success_step h now s) = sp_run s"
  "sp_id (reset_step now s) = sp_id s \<and> sp_key (reset_step now s) = sp_key s \<and> sp_run (reset_step now s) = sp_run s"
  by (simp_all add: dead_step_def retry_step_def committed_step_def claimed_step_def success_step_def reset_step_def)

lemma wf_inv_claim: "wf_inv db \<Longrightarrow> wf_inv (snd (claimStepForExecution s ow v ex now db))"
  by (simp add: claimStepForExecution_def Let_def wf_inv_update_steps step_update_keys)

lemma commit_db:
  "snd (commitStepWithFencing s ow v h now db) = db\<lparr>db_steps := update_where
     (\<lambda>r. sp_id r = s \<and> holds_lease ow v r) (committed_step h now) (db_steps db)\<rparr>"
  by (simp add: commitStepWithFencing_def Let_def split: option.split)

lemma wf_inv_commit: "wf_inv db \<Longrightarrow> wf_inv (snd (commitStepWithFencing s ow v h now db))"
  unfolding commit_db by (rule wf_inv_update_steps) (simp_all add: step_update_keys)

lemmas wf_inv_and_then = and_then_state [where R = wf_inv]

lemma wf_inv_ensure_loop: "wf_inv db \<Longrightarrow> wf_inv (snd (ensure_loop sha r n ds now db))"
  by (induction ds arbitrary: n db) (simp_all add: wf_inv_and_then wf_inv_createWorkflowStep)

lemma wf_inv_dead_or_retry:
  "wf_inv db \<Longrightarrow> wf_inv (update_step s (dead_step ec now) db)"
  "wf_inv db \<Longrightarrow> wf_inv (update_step s (retry_step ec nx now) db)"
  by (rule wf_inv_update_step, assumption, rule step_update_keys)+

lemma wf_inv_dead_letter_failure:
  "wf_inv db \<Longrightarrow> wf_inv (snd (dead_letter_failure cl s r n ec msg now db))"
  unfolding dead_letter_failure_def
  by (intro wf_inv_and_then wf_inv_insert_attempt wf_inv_createDeadLetterItem wf_inv_dead_or_retry)
    (simp_all add: wf_inv_update_run)

lemma wf_inv_retry_failure: "wf_inv db \<Longrightarrow> wf_inv (snd (retry_failure rnd d s n ec msg now db))"
  by (simp add: retry_failure_def Let_def wf_inv_and_then wf_inv_insert_attempt wf_inv_dead_or_retry)

lemma wf_inv_failure: "wf_inv db \<Longrightarrow> wf_inv (snd (recordStepFailure cl rnd s ec msg now db))"
  by (simp add: recordStepFailure_def Let_def wf_inv_dead_letter_failure wf_inv_retry_failure
      split: option.split)

lemma wf_inv_success: "wf_inv db \<Longrightarrow> wf_inv (snd (recordStepSuccess cl s h now db))"
proof -
  assume "wf_inv db"
  then have "wf_inv (update_step s (success_step h now) db)"
    by (rule wf_inv_update_step) (rule step_update_keys)
  then show ?thesis
    unfolding recordStepSuccess_def Let_def wf_inv_parts by (simp add: unique_append)
qed

lemma wf_inv_retryLetter: "wf_inv db \<Longrightarrow> wf_inv (snd (retryDeadLetterFromCheckpoint d now db))"
  unfolding retryDeadLetterFromCheckpoint_def Let_def
  by (auto split: option.split simp: step_update_keys
      intro!: wf_inv_update_letters wf_inv_update_run wf_inv_update_step)

lemma wf_inv_resolve: "wf_inv db \<Longrightarrow> wf_inv (resolveDeadLetter d now db)"
  by (simp add: resolveDeadLetter_def wf_inv_update_letters)

lemma wf_inv_complete: "wf_inv db \<Longrightarrow> wf_inv (completeWorkflowRun r now db)"
  by (simp add: completeWorkflowRun_def wf_inv_update_run)

section \<open>The trigger handler\<close>

lemma inbox_by_external_row:
  "unique_key ti_external t \<Longrightarrow>
     inbox_by_external m t = (case row_of ti_external t m of None \<Rightarrow> [] | Some r \<Rightarrow> [r])"
  unfolding inbox_by_external_def by (rule select_unique)

text \<open>The three outcomes of the insert on a table with its keys.\<close>

lemma insertTriggerInbox_cases:
  fixes sha :: "string \<Rightarrow> string"
  assumes u: "unique_key ti_external (db_inbox db)"
    and c: "canonicalizeExternalMessageId (ii_external i) = Inr c"
  defines "x \<equiv> (case ii_id i of Some x \<Rightarrow> x | None \<Rightarrow> inbox_default_id sha c)"
  shows "insertTriggerInbox sha i db =
    (case row_of ti_external (db_inbox db) c of
       Some r \<Rightarrow> (Inr (inbox_of r False), db)
     | None \<Rightarrow>
         if has_key ti_id x (db_inbox db) then (Inl (Error ''TRIGGER_INBOX_CONSISTENCY_ERROR''), db)
         else (Inr (inbox_of (trigger_row_of x c i) True),
               db\<lparr>db_inbox := db_inbox db @ [trigger_row_of x c i]\<rparr>))"
proof (cases "row_of ti_external (db_inbox db) c")
  case None
  note n = row_of_NoneD [OF None]
  have "inbox_by_external c (db_inbox db) = []" using inbox_by_external_row [OF u] None by simp
  with None n show ?thesis
    by (simp add: insertTriggerInbox_def c inbox_insert_def inbox_refetch_def trigger_row_of_def x_def Let_def)
next
  case (Some r)
  then show ?thesis using inbox_by_external_row [OF u, of c] by (simp add: insertTriggerInbox_def c)
qed

definition fresh_inbox_row :: "(string \<Rightarrow> string) \<Rightarrow> trigger_request \<Rightarrow> string \<Rightarrow> trigger_row" where
  "fresh_inbox_row sha q c = (trigger_row_of (inbox_default_id sha c) c (inbox_input_of sha q))
     \<lparr>ti_run := Some (run_id_of sha (inbox_default_id sha c)), ti_status := TPROCESSED\<rparr>"

lemma fresh_inbox_row_simps [simp]:
  "ti_external (fresh_inbox_row sha q c) = c" "ti_id (fresh_inbox_row sha q c) = inbox_default_id sha c"
  "ti_run (fresh_inbox_row sha q c) = Some (run_id_of sha (inbox_default_id sha c))"
  by (simp_all add: fresh_inbox_row_def trigger_row_of_def)

text \<open>The handler: a duplicate answers from the stored row, a new message stores one row linked to
  its run, a clash of the derived id is an error; nothing else happens to the inbox.\<close>

lemma handle_cases:
  assumes inv: "wf_inv db" and c: "canonicalizeExternalMessageId (tr_external q) = Inr c"
  shows "(case row_of ti_external (db_inbox db) c of
      Some r \<Rightarrow> handleTriggerInboxRequest sha q db =
          (Inr \<lparr>tp_inbox_id = ti_id r, tp_run = ti_run r, tp_duplicate = True\<rparr>, db)
    | None \<Rightarrow>
        if has_key ti_id (inbox_default_id sha c) (db_inbox db)
        then handleTriggerInboxRequest sha q db = (Inl (Error ''TRIGGER_INBOX_CONSISTENCY_ERROR''), db)
        else \<exists>db'. handleTriggerInboxRequest sha q db =
            (Inr \<lparr>tp_inbox_id = inbox_default_id sha c,
                  tp_run = Some (run_id_of sha (inbox_default_id sha c)), tp_duplicate = False\<rparr>, db') \<and>
          db_inbox db' = db_inbox db @ [fresh_inbox_row sha q c] \<and>
          has_key rn_id (run_id_of sha (inbox_default_id sha c)) (db_runs db') \<and> wf_inv db' \<and>
          db_steps db' = db_steps db)"
proof (cases "row_of ti_external (db_inbox db) c")
  case (Some r)
  with insertTriggerInbox_cases [of db "inbox_input_of sha q" c sha] wf_inv_inbox [OF inv] c
  show ?thesis by (simp add: handleTriggerInboxRequest_def inbox_input_of_def inbox_of_def)
next
  case None
  let ?x = "inbox_default_id sha c" and ?i = "inbox_input_of sha q"
  note u = wf_inv_inbox [OF inv]
  have ins: "insertTriggerInbox sha ?i db =
      (if has_key ti_id ?x (db_inbox db) then (Inl (Error ''TRIGGER_INBOX_CONSISTENCY_ERROR''), db)
       else (Inr (inbox_of (trigger_row_of ?x c ?i) True),
             db\<lparr>db_inbox := db_inbox db @ [trigger_row_of ?x c ?i]\<rparr>))"
    using insertTriggerInbox_cases [of db ?i c sha] u c None by (simp add: inbox_input_of_def)
  show ?thesis
  proof (cases "has_key ti_id ?x (db_inbox db)")
    case True
    with None ins show ?thesis by (simp add: handleTriggerInboxRequest_def)
  next
    case False
    define db1 where "db1 = db\<lparr>db_inbox := db_inbox db @ [trigger_row_of ?x c ?i]\<rparr>"
    define i where "i = \<lparr>ri_id = run_id_of sha ?x, ri_name = ''discovery'',
        ri_schedule_id = tr_schedule_id q, ri_trigger = Some ?x, ri_now = tr_received_at q\<rparr>"
    have key: "ti_id (trigger_row_of ?x c ?i) = ?x" "ti_external (trigger_row_of ?x c ?i) = c"
      by (simp_all add: trigger_row_of_def)
    have inv1: "wf_inv db1" unfolding db1_def
      using inv u False row_of_NoneD [OF None] by (intro wf_inv_set_inbox) (simp_all add: unique_append key)
    have "has_key ti_id ?x (db_inbox db1)" by (simp add: db1_def has_key_append has_key_iff key)
    then have "trigger_exists (ri_trigger i) db1" by (simp add: i_def trigger_exists_def)
    from createWorkflowRun_ok [OF this] obtain rr db2 where run: "createWorkflowRun i db1 = (Inr rr, db2)"
      and runs: "has_key rn_id (run_id_of sha ?x) (db_runs db2)"
      and same: "db_inbox db2 = db_inbox db1" "db_steps db2 = db_steps db"
      by (auto simp: i_def db1_def)
    have inv2: "wf_inv db2" using wf_inv_createWorkflowRun [OF inv1, of i] run by simp
    have fresh: "ti_id r \<noteq> ?x" if "r \<in> set (db_inbox db)" for r
      using False that has_keyI [of r _ ti_id] by metis
    have "update_where (\<lambda>r. ti_id r = ?x) g (db_inbox db) = db_inbox db" for g
      by (rule update_where_id) (rule fresh)
    then have link: "db_inbox (linkTriggerToRun ?x (run_id_of sha ?x) db2) = db_inbox db @ [fresh_inbox_row sha q c]"
      by (simp add: linkTriggerToRun_def same db1_def update_where_def key fresh_inbox_row_def)
    have "wf_inv (linkTriggerToRun ?x (run_id_of sha ?x) db2)"
      using inv2 wf_inv_inbox [OF inv2] unfolding linkTriggerToRun_def
      by (intro wf_inv_set_inbox unique_update_where) auto
    moreover have "handleTriggerInboxRequest sha q db =
        (Inr \<lparr>tp_inbox_id = ?x, tp_run = Some (run_id_of sha ?x), tp_duplicate = False\<rparr>,
         linkTriggerToRun ?x (run_id_of sha ?x) db2)"
      using ins False run by (simp add: handleTriggerInboxRequest_def inbox_of_def key db1_def i_def Let_def)
    ultimately show ?thesis using None False link runs same
      by (simp add: linkTriggerToRun_def)
  qed
qed

lemma handle_bad_id:
  "canonicalizeExternalMessageId (tr_external q) = Inl e \<Longrightarrow> handleTriggerInboxRequest sha q db = (Inl e, db)"
  by (simp add: handleTriggerInboxRequest_def insertTriggerInbox_def inbox_input_of_def)

lemma wf_inv_handle: "wf_inv db \<Longrightarrow> wf_inv (snd (handleTriggerInboxRequest sha q db))"
proof (cases "canonicalizeExternalMessageId (tr_external q)")
  case (Inr c)
  assume "wf_inv db"
  from handle_cases [OF this Inr, of sha] \<open>wf_inv db\<close> show ?thesis
    by (auto split: option.splits if_splits)
qed (simp add: handle_bad_id)

lemma wf_inv_exec [inv_intro]: "wf_inv db \<Longrightarrow> wf_inv (wf_exec sha o' db)"
  by (cases o') (simp_all add: wf_inv_handle wf_inv_createWorkflowRun wf_inv_createWorkflowStep
      ensureWorkflowSteps_def wf_inv_ensure_loop wf_inv_claim wf_inv_commit wf_inv_failure wf_inv_success
      wf_inv_createDeadLetterItem wf_inv_retryLetter wf_inv_resolve wf_inv_complete)

interpretation wf: invariant_machine "wf_exec sha" wf_inv for sha
  by unfold_locales (rule wf_inv_exec)

text \<open>Whatever operations run, in any order and however they fail, the tables keep the keys of
  the schema and no step is left without its run.\<close>

theorem workflow_keys_preserved: "wf_inv (fold (wf_exec sha) ops empty_db)"
  by (rule wf.run_inv) (rule wf_inv_empty)

section \<open>The inbox under all operations\<close>

lemma update_inbox_same [simp]:
  "db_inbox (update_step k f db) = db_inbox db" "db_inbox (update_run k g db) = db_inbox db"
  by (simp_all add: update_step_def update_run_def)

lemma inbox_insert_attempt [simp]: "db_inbox (snd (insert_attempt a db)) = db_inbox db"
  by (simp add: insert_attempt_def)

lemma inbox_createDeadLetterItem [simp]: "db_inbox (snd (createDeadLetterItem i db)) = db_inbox db"
  by (simp add: createDeadLetterItem_def)

lemma inbox_createWorkflowStep [simp]: "db_inbox (snd (createWorkflowStep i db)) = db_inbox db"
  by (simp add: createWorkflowStep_def split: option.split)

lemma inbox_createWorkflowRun [simp]: "db_inbox (snd (createWorkflowRun i db)) = db_inbox db"
  by (simp add: createWorkflowRun_def split: option.split)

lemmas same_inbox_and_then = and_then_state [where R = "\<lambda>x. db_inbox x = i" for i]

lemma inbox_ensure_loop [simp]: "db_inbox (snd (ensure_loop sha r n ds now db)) = db_inbox db"
  by (induction ds arbitrary: n db) (simp_all add: same_inbox_and_then)

lemma inbox_failure [simp]: "db_inbox (snd (recordStepFailure cl rnd s ec msg now db)) = db_inbox db"
  by (simp add: recordStepFailure_def dead_letter_failure_def retry_failure_def Let_def
      same_inbox_and_then split: option.split)

lemma inbox_success [simp]: "db_inbox (snd (recordStepSuccess cl s h now db)) = db_inbox db"
  by (simp add: recordStepSuccess_def Let_def)

lemma inbox_retryLetter [simp]: "db_inbox (snd (retryDeadLetterFromCheckpoint d now db)) = db_inbox db"
  by (simp add: retryDeadLetterFromCheckpoint_def Let_def split: option.split)

lemma inbox_exec:
  assumes "wf_inv db" "row_of ti_external (db_inbox db) c = Some r"
  shows "row_of ti_external (db_inbox (wf_exec sha o' db)) c = Some r"
proof (cases o')
  case (OpTrigger q)
  show ?thesis
  proof (cases "canonicalizeExternalMessageId (tr_external q)")
    case (Inr d)
    from handle_cases [OF assms(1) Inr, of sha] assms(2) show ?thesis
      by (auto simp: OpTrigger row_of_append split: option.splits if_splits)
  qed (simp add: OpTrigger handle_bad_id assms(2))
qed (simp_all add: assms(2) ensureWorkflowSteps_def claimStepForExecution_def Let_def commit_db
    resolveDeadLetter_def completeWorkflowRun_def)

lemma inbox_run:
  assumes "wf_inv db" "row_of ti_external (db_inbox db) c = Some r"
  shows "row_of ti_external (db_inbox (fold (wf_exec sha) ops db)) c = Some r"
  using assms by (induction ops arbitrary: db) (auto simp: inbox_exec wf_inv_exec)

lemma handle_again:
  assumes "wf_inv db"
    and first: "handleTriggerInboxRequest sha q db = (Inr a, db1)"
    and same: "trim (tr_external q') = trim (tr_external q)"
    and later: "db2 = fold (wf_exec sha) ops db1"
  shows "handleTriggerInboxRequest sha q' db2 =
    (Inr \<lparr>tp_inbox_id = tp_inbox_id a, tp_run = tp_run a, tp_duplicate = True\<rparr>, db2)"
proof -
  obtain c where c: "canonicalizeExternalMessageId (tr_external q) = Inr c"
    using first handle_bad_id [of q _ sha db] by (cases "canonicalizeExternalMessageId (tr_external q)") auto
  with same have c': "canonicalizeExternalMessageId (tr_external q') = Inr c"
    by (simp add: canonicalizeExternalMessageId_def)
  have "wf_inv db1" using wf_inv_handle [OF assms(1), of sha q] first by simp
  moreover from handle_cases [OF assms(1) c, of sha] first
  have "\<exists>r. row_of ti_external (db_inbox db1) c = Some r \<and> ti_id r = tp_inbox_id a \<and> ti_run r = tp_run a"
    by (auto split: option.splits if_splits simp: row_of_append) (simp add: row_of_def)
  ultimately obtain r where r: "row_of ti_external (db_inbox db2) c = Some r"
    "ti_id r = tp_inbox_id a" "ti_run r = tp_run a" and inv: "wf_inv db2"
    using inbox_run later wf.run_inv by metis
  from handle_cases [OF inv c', of sha] r show ?thesis by simp
qed

text \<open>C2. A message is processed once. After a delivery was answered, the same message (its id
  up to surrounding white space) delivered again is answered as a duplicate with the same inbox
  entry and the same run, and changes nothing, whatever operations ran in between.\<close>

theorem trigger_exactly_once:
  assumes "wf_inv db"
    and first: "handleTriggerInboxRequest sha q db = (Inr a, db1)"
    and same: "trim (tr_external q') = trim (tr_external q)"
    and later: "db2 = fold (wf_exec sha) ops db1"
  shows "handleTriggerInboxRequest sha q' db2 =
    (Inr \<lparr>tp_inbox_id = tp_inbox_id a, tp_run = tp_run a, tp_duplicate = True\<rparr>, db2)"
  by (rule handle_again [OF assms])

section \<open>Steps under all operations\<close>

text \<open>What an operation does to one step row: a reflexive relation that holds between a row and each
  of its updates holds between the row before and after any operation.\<close>

definition claims :: "string \<Rightarrow> wf_op \<Rightarrow> bool" where
  "claims k o' = (case o' of OpClaim s ow v ex now \<Rightarrow> s = k | _ \<Rightarrow> False)"

definition step_kept :: "(step_row \<Rightarrow> step_row \<Rightarrow> bool) \<Rightarrow> string \<Rightarrow> step_row list \<Rightarrow> step_row list \<Rightarrow> bool" where
  "step_kept R k t t' \<longleftrightarrow>
     (\<forall>s. row_of sp_id t k = Some s \<longrightarrow> (\<exists>s'. row_of sp_id t' k = Some s' \<and> R s s'))"

lemma step_kept_refl: "(\<And>s. R s s) \<Longrightarrow> step_kept R k t t"
  by (simp add: step_kept_def)

lemma step_kept_trans: "(\<And>a b c. R a b \<Longrightarrow> R b c \<Longrightarrow> R a c) \<Longrightarrow>
  step_kept R k t u \<Longrightarrow> step_kept R k u v \<Longrightarrow> step_kept R k t v"
  unfolding step_kept_def by blast

lemma step_kept_update:
  assumes "\<And>s. R s s" "\<And>s. sp_id s = k \<Longrightarrow> P s \<Longrightarrow> R s (f s)" "\<And>s. P s \<Longrightarrow> sp_id (f s) = sp_id s"
  shows "step_kept R k t (update_where P f t)"
  using assms row_of_Some_key [of sp_id t k]
  by (auto simp: step_kept_def row_of_update_where)

lemma step_kept_append: "(\<And>s. R s s) \<Longrightarrow> step_kept R k t (t @ u)"
  by (simp add: step_kept_def row_of_append)

lemma steps_unchanged [simp]:
  "db_steps (snd (insert_attempt a db)) = db_steps db"
  "db_steps (snd (createDeadLetterItem i db)) = db_steps db"
  "db_steps (snd (createWorkflowRun ri db)) = db_steps db"
  "db_steps (update_run r g db) = db_steps db"
  by (simp_all add: insert_attempt_def createDeadLetterItem_def createWorkflowRun_def update_run_def
      split: option.split)

lemma steps_trigger [simp]: "db_steps (snd (handleTriggerInboxRequest sha q db)) = db_steps db"
proof -
  have ins: "db_steps (snd (insertTriggerInbox sha i db)) = db_steps db" for i
    by (simp add: insertTriggerInbox_def inbox_refetch_def Let_def
        split: sum.split list.split prod.split option.split)
  show ?thesis
    by (simp add: handleTriggerInboxRequest_def Let_def ins linkTriggerToRun_def
        and_then_state [where R = "\<lambda>x. db_steps x = db_steps db"])
qed

lemma step_kept_exec:
  assumes refl: "\<And>s. R s s" and trans: "\<And>a b c. R a b \<Longrightarrow> R b c \<Longrightarrow> R a c"
    and upd: "\<And>ec now s. R s (dead_step ec now s)" "\<And>ec nx now s. R s (retry_step ec nx now s)"
      "\<And>h now s. R s (committed_step h now s)" "\<And>h now s. R s (success_step h now s)"
      "\<And>now s. R s (reset_step now s)"
    and claim: "\<And>ow v ex now s. claims k o' \<Longrightarrow> R s (claimed_step ow v ex now s)"
  shows "step_kept R k (db_steps db) (db_steps (wf_exec sha o' db))"
proof -
  have u: "step_kept R k (db_steps db) (db_steps (update_step x f db))"
    if "\<And>s. R s (f s)" "\<And>s. sp_id (f s) = sp_id s \<and> sp_key (f s) = sp_key s \<and> sp_run (f s) = sp_run s" for x f
    using that refl by (simp add: update_step_def update_key_def step_kept_update)
  have new: "step_kept R k (db_steps x) (db_steps (snd (createWorkflowStep i x)))" for i x
    by (simp add: createWorkflowStep_def step_kept_refl step_kept_append refl split: option.split)
  have ens: "step_kept R k (db_steps x) (db_steps (snd (ensure_loop sha r n ds now x)))" for r n ds now x
  proof (induction ds arbitrary: n x)
    case (Cons d ds)
    have "step_kept R k (db_steps x) (db_steps (snd (and_then (createWorkflowStep i x)
        (\<lambda>_ db'. ensure_loop sha r (Suc n) ds now db'))))" for i
      by (rule and_then_state [where R = "\<lambda>y. step_kept R k (db_steps x) (db_steps y)"], rule new)
        (rule step_kept_trans [OF trans _ Cons.IH])
    then show ?case by simp
  qed (simp add: step_kept_refl refl)
  note keys = step_update_keys
  note after = and_then_state [where R = "\<lambda>y. db_steps y = z" for z]
  have fail: "step_kept R k (db_steps db) (db_steps (snd (recordStepFailure cl rnd s ec msg now db)))"
    for cl rnd s ec msg now
  proof -
    have "db_steps (snd (dead_letter_failure cl s r n ec msg now db)) = db_steps (update_step s (dead_step ec now) db)" for r n
      unfolding dead_letter_failure_def by (intro after) simp_all
    then have dl: "step_kept R k (db_steps db) (db_steps (snd (dead_letter_failure cl s r n ec msg now db)))" for r n
      using u [of "dead_step ec now" s] upd(1) keys(1) by simp
    have rr: "db_steps (snd (retry_failure rnd d s n ec msg now db)) =
        db_steps (update_step s (retry_step ec (now + retry_delay rnd d) now) db) \<or>
      db_steps (snd (retry_failure rnd d s n ec msg now db)) = db_steps db" for d n
    proof -
      have "db_steps (snd (and_then (insert_attempt a x) (\<lambda>_ y. (Inr c, y)))) = db_steps x"
        for a x and c :: failure_result
        by (intro after) simp_all
      then show ?thesis by (simp add: retry_failure_def Let_def)
    qed
    have rt: "step_kept R k (db_steps db) (db_steps (snd (retry_failure rnd d s n ec msg now db)))" for d n
      using u [of "retry_step ec (now + retry_delay rnd d) now" s] upd(2) keys(2)
        step_kept_refl [of R, OF refl] rr [of d n] by auto
    show ?thesis
      unfolding recordStepFailure_def Let_def
      by (cases "row_of sp_id (db_steps db) s") (simp_all add: step_kept_refl refl dl rt)
  qed
  show ?thesis
  proof (cases o')
    case (OpClaim s ow v ex now)
    have "step_kept R k (db_steps db) (update_where (\<lambda>r. sp_id r = s \<and> claimable r)
        (claimed_step ow v ex now) (db_steps db))"
      using refl claim OpClaim by (intro step_kept_update) (simp_all add: claims_def keys)
    with OpClaim show ?thesis by (simp add: claimStepForExecution_def Let_def)
  next
    case (OpCommit s ow v h now)
    have "step_kept R k (db_steps db) (db_steps (snd (commitStepWithFencing s ow v h now db)))"
      unfolding commit_db using refl upd(3) by (simp add: step_kept_update keys)
    with OpCommit show ?thesis by simp
  next
    case (OpSuccess cl s h now)
    have "db_steps (snd (recordStepSuccess cl s h now db)) = db_steps (update_step s (success_step h now) db)"
      by (simp add: recordStepSuccess_def Let_def)
    with OpSuccess u [of "success_step h now" s] upd(4) keys(5) show ?thesis by simp
  next
    case (OpRetryLetter d now)
    have "db_steps (snd (retryDeadLetterFromCheckpoint d now db)) = db_steps db \<or>
        (\<exists>x. db_steps (snd (retryDeadLetterFromCheckpoint d now db)) = db_steps (update_step x (reset_step now) db))"
      by (auto simp: retryDeadLetterFromCheckpoint_def Let_def split: option.split)
    then show ?thesis
      using u [of "reset_step now"] upd(5) keys(6) step_kept_refl [of R, OF refl]
      by (auto simp: OpRetryLetter)
  qed (simp_all add: fail new ens ensureWorkflowSteps_def resolveDeadLetter_def completeWorkflowRun_def
      step_kept_refl refl)
qed

lemma step_kept_run:
  assumes "\<And>s. R s s" "\<And>a b c. R a b \<Longrightarrow> R b c \<Longrightarrow> R a c"
    and "\<And>o' db. o' \<in> set ops \<Longrightarrow> step_kept R k (db_steps db) (db_steps (wf_exec sha o' db))"
  shows "step_kept R k (db_steps db) (db_steps (fold (wf_exec sha) ops db))"
  using assms(3)
proof (induction ops arbitrary: db)
  case Nil
  then show ?case by (simp add: step_kept_refl assms(1))
next
  case (Cons x xs)
  have "step_kept R k (db_steps db) (db_steps (wf_exec sha x db))" by (rule Cons.prems) simp
  moreover have "step_kept R k (db_steps (wf_exec sha x db)) (db_steps (fold (wf_exec sha) xs (wf_exec sha x db)))"
    by (rule Cons.IH) (rule Cons.prems, simp)
  ultimately show ?case using step_kept_trans [of R, OF assms(2)] by simp
qed

subsection \<open>Attempts only grow\<close>

lemma attempts_grow: "step_kept (\<lambda>a b. sp_attempt a \<le> sp_attempt b) k (db_steps db) (db_steps (wf_exec sha o' db))"
  by (rule step_kept_exec) (simp_all add: dead_step_def retry_step_def committed_step_def
      success_step_def reset_step_def claimed_step_def)

interpretation attempts: monotone_machine "wf_exec sha"
  "\<lambda>db. map_option sp_attempt (row_of sp_id (db_steps db) k)" for sha k
proof
  show "map_option sp_attempt (row_of sp_id (db_steps db) k) \<le>
      map_option sp_attempt (row_of sp_id (db_steps (wf_exec sha o' db)) k)" for db o'
    using attempts_grow [of k db sha o'] by (cases "row_of sp_id (db_steps db) k") (auto simp: step_kept_def)
qed

text \<open>No operation resets the attempt counter of a step or removes the step: along any run it
  only grows, so a step that came back from the dead letters keeps its count.\<close>

theorem attempts_never_reset:
  assumes "row_of sp_id (db_steps db) k = Some s"
  shows "\<exists>s'. row_of sp_id (db_steps (fold (wf_exec sha) ops db)) k = Some s' \<and> sp_attempt s \<le> sp_attempt s'"
  using attempts.run_mono [of db k sha ops] assms
  by (cases "row_of sp_id (db_steps (fold (wf_exec sha) ops db)) k") simp_all

subsection \<open>Fencing\<close>

lemma lease_kept:
  "\<not> claims k o' \<Longrightarrow> step_kept (\<lambda>a b. sp_lease_owner b = sp_lease_owner a \<and> sp_lease_version b = sp_lease_version a)
     k (db_steps db) (db_steps (wf_exec sha o' db))"
  by (rule step_kept_exec) (simp_all add: dead_step_def retry_step_def committed_step_def
      success_step_def reset_step_def)

lemma select_id_and:
  assumes "unique_key sp_id t" "row_of sp_id t k = Some s"
  shows "select (\<lambda>r. sp_id r = k \<and> Q r) t = (if Q s then [s] else [])"
proof -
  have "select (\<lambda>r. sp_id r = k \<and> Q r) t = filter Q (select (\<lambda>r. sp_id r = k) t)"
    by (simp add: select_def conj_commute)
  also have "\<dots> = filter Q [s]" using select_unique [OF assms(1), of k] assms(2) by simp
  finally show ?thesis by simp
qed

lemma update_miss: "row_of sp_id t k = Some s \<Longrightarrow> unique_key sp_id t \<Longrightarrow> \<not> Q s \<Longrightarrow>
    update_where (\<lambda>r. sp_id r = k \<and> Q r) f t = t"
  using select_id_and [of t k s Q] by (intro update_where_id) (auto simp: select_Nil_iff)

lemma commit_spec:
  assumes "wf_inv db" "row_of sp_id (db_steps db) k = Some s"
  shows "commitStepWithFencing k ow v h now db =
    (if holds_lease ow v s
     then (\<lparr>cr_committed = True, cr_stale = False\<rparr>, update_step k (committed_step h now) db)
     else (\<lparr>cr_committed = False, cr_stale = True\<rparr>, db))"
proof (cases "holds_lease ow v s")
  case True
  have only: "r = s" if "r \<in> set (db_steps db)" "sp_id r = k" for r
    using row_of_eq [OF wf_inv_steps [OF assms(1)], of k r] that assms(2) by simp
  have "update_where (\<lambda>r. sp_id r = k \<and> holds_lease ow v r) f (db_steps db) =
      update_where (\<lambda>r. sp_id r = k) f (db_steps db)" for f
    using only True by (auto simp: update_where_def)
  with True show ?thesis
    by (simp add: commitStepWithFencing_def Let_def select_id_and [OF wf_inv_steps [OF assms(1)] assms(2)]
        update_step_def update_key_def)
next
  case False
  then show ?thesis using update_miss [OF assms(2) wf_inv_steps [OF assms(1)], of "holds_lease ow v"]
    by (simp add: commitStepWithFencing_def Let_def select_id_and [OF wf_inv_steps [OF assms(1)] assms(2)]
        assms(2)) (simp add: holds_lease_def)
qed

lemma claim_lease:
  assumes "wf_inv db" "claimStepForExecution k ow v ex now db = (True, db1)"
  shows "\<exists>s. row_of sp_id (db_steps db1) k = Some s \<and> holds_lease ow v s \<and> sp_status s = SRUNNING"
proof -
  from assms(2) have "select (\<lambda>r. sp_id r = k \<and> claimable r) (db_steps db) \<noteq> []"
    and db1: "db1 = db\<lparr>db_steps := update_where (\<lambda>r. sp_id r = k \<and> claimable r) (claimed_step ow v ex now) (db_steps db)\<rparr>"
    by (auto simp: claimStepForExecution_def Let_def)
  then obtain s where "s \<in> set (db_steps db)" "sp_id s = k" and c: "claimable s"
    unfolding select_Nil_iff by blast
  then have "row_of sp_id (db_steps db) k = Some s" using row_of_eq [OF wf_inv_steps [OF assms(1)]] by simp
  with c \<open>sp_id s = k\<close> show ?thesis unfolding db1
    by (simp add: row_of_update_where step_update_keys) (simp add: claimed_step_def holds_lease_def)
qed

text \<open>C3. Fencing of step commits: once a step was claimed under a lease version, a commit under
  any other owner or version is refused as stale and writes nothing, and the commit under the
  claimed lease goes through, whatever ran in between short of another claim of that step.\<close>

theorem stale_commit_rejected:
  assumes "wf_inv db" and "claimStepForExecution k ow v ex now db = (True, db1)"
    and "\<forall>o'\<in>set ops. \<not> claims k o'" and later: "db2 = fold (wf_exec sha) ops db1"
  shows "commitStepWithFencing k ow' v' h now' db2 =
    (if ow' = ow \<and> v' = v
     then (\<lparr>cr_committed = True, cr_stale = False\<rparr>, update_step k (committed_step h now') db2)
     else (\<lparr>cr_committed = False, cr_stale = True\<rparr>, db2))"
proof -
  have inv: "wf_inv db1" using wf_inv_claim [OF assms(1), of k ow v ex now] assms(2) by simp
  then have inv2: "wf_inv db2" unfolding later by (rule wf.run_inv)
  obtain s where s: "row_of sp_id (db_steps db1) k = Some s" "holds_lease ow v s"
    using claim_lease [OF assms(1,2)] by blast
  have "step_kept (\<lambda>a b. sp_lease_owner b = sp_lease_owner a \<and> sp_lease_version b = sp_lease_version a)
      k (db_steps db1) (db_steps db2)"
    unfolding later using assms(3) by (intro step_kept_run lease_kept) auto
  with s obtain s2 where "row_of sp_id (db_steps db2) k = Some s2" "holds_lease ow v s2"
    unfolding step_kept_def holds_lease_def by auto
  then show ?thesis by (auto simp: commit_spec [OF inv2] holds_lease_def)
qed

section \<open>Retries\<close>

text \<open>The backoff starts at the base delay, never shrinks from one attempt to the next and
  never passes the cap.\<close>

theorem backoff_bounded_monotone:
  assumes "0 < base" "base \<le> cap" "0 \<le> a" "a \<le> b"
  shows "base \<le> computeExponentialBackoff a base cap \<and>
    computeExponentialBackoff a base cap \<le> computeExponentialBackoff b base cap \<and>
    computeExponentialBackoff b base cap \<le> cap"
proof -
  have "(2 :: rat) ^ nat a \<le> 2 ^ nat b" using assms(4) by (intro power_increasing) simp_all
  then have "base * 2 ^ nat a \<le> base * 2 ^ nat b" using assms(1) by simp
  moreover have "base * 1 \<le> base * 2 ^ nat a" using assms(1) by (intro mult_left_mono) simp_all
  moreover have "computeExponentialBackoff x base cap = min (base * 2 ^ nat x) cap" if "0 \<le> x" for x
    using that by (simp add: computeExponentialBackoff_def)
  ultimately show ?thesis using assms(2,3,4) by (auto simp: min_def)
qed

lemma jitter_bounds:
  assumes "0 \<le> b" "0 \<le> rnd" "rnd \<le> 1"
  shows "0 \<le> computeJitteredBackoff b (1 / 5) rnd \<and>
    rat_of_int (computeJitteredBackoff b (1 / 5) rnd) \<le> 6 / 5 * b + 1 / 2 \<and>
    4 / 5 * b - 1 / 2 \<le> rat_of_int (computeJitteredBackoff b (1 / 5) rnd)"
proof -
  define x where "x = b + (rnd * 2 - 1) * (1 / 5) * b"
  have "b * 0 \<le> b * rnd" "b * rnd \<le> b * 1" using assms by (intro mult_left_mono; simp)+
  then have x: "4 / 5 * b \<le> x" "x \<le> 6 / 5 * b" by (simp_all add: x_def algebra_simps)
  have "rat_of_int \<lfloor>x + 1 / 2\<rfloor> \<le> x + 1 / 2" "x - 1 / 2 \<le> rat_of_int \<lfloor>x + 1 / 2\<rfloor>"
    using of_int_floor_le [of "x + 1 / 2"] floor_correct [of "x + 1 / 2"] by (simp, linarith)
  moreover have "computeJitteredBackoff b (1 / 5) rnd = max 0 \<lfloor>x + 1 / 2\<rfloor>"
    by (simp add: computeJitteredBackoff_def math_round_def x_def)
  moreover have "0 \<le> x" using x(1) assms(1) by linarith
  then have "0 \<le> \<lfloor>x + 1 / 2\<rfloor>" by simp
  ultimately show ?thesis using x by (simp add: max_def) linarith
qed

lemma classify_backoff:
  assumes "0 \<le> n" "rd_backoff (classifyRetry ec n) = Some b"
  shows "50 \<le> b \<and> b \<le> 60000"
proof -
  have e: "1000 \<le> computeExponentialBackoff n 1000 c \<and> computeExponentialBackoff n 1000 c \<le> c" if "1000 \<le> c" for c
    using backoff_bounded_monotone [of 1000 c n n] that assms(1) by simp
  have e': "500 \<le> computeExponentialBackoff n 500 30000 \<and> computeExponentialBackoff n 500 30000 \<le> 30000"
    using backoff_bounded_monotone [of 500 30000 n n] assms(1) by simp
  show ?thesis using assms(2) e [of 30000] e [of 60000] e [of 10000] e'
    by (auto simp: classifyRetry_def split: if_splits)
qed

lemma retry_delay_bounds:
  assumes "0 \<le> n" "0 \<le> rnd" "rnd \<le> 1"
  shows "0 \<le> retry_delay rnd (classifyRetry ec n) \<and> retry_delay rnd (classifyRetry ec n) \<le> 72000"
proof -
  define b where "b = (case rd_backoff (classifyRetry ec n) of None \<Rightarrow> 1000 | Some b \<Rightarrow> b)"
  have b: "0 \<le> b" "b \<le> 60000" using classify_backoff [OF assms(1), of ec] by (auto simp: b_def split: option.split)
  have "rat_of_int (computeJitteredBackoff b (1 / 5) rnd) \<le> 72000 + 1 / 2"
    using jitter_bounds [OF b(1) assms(2,3)] b(2) by linarith
  then have "computeJitteredBackoff b (1 / 5) rnd \<le> 72000" by linarith
  moreover have "0 \<le> \<lfloor>b\<rfloor>" "\<lfloor>b\<rfloor> \<le> 72000" using b by (simp, linarith)
  ultimately show ?thesis using jitter_bounds [OF b(1) assms(2,3)]
    by (simp add: retry_delay_def Let_def flip: b_def)
qed

lemma max_attempts_bound: "rd_max_attempts (classifyRetry ec n) \<le> 10"
  by (simp add: classifyRetry_def)

text \<open>A failure of a step whose next attempt row is free and whose run is there: what it answers and
  what it writes.\<close>

lemma row_of_update_step:
  "(\<And>s. sp_id (f s) = sp_id s) \<Longrightarrow> row_of sp_id (db_steps (update_step k f db)) k' =
     (if k' = k then map_option f (row_of sp_id (db_steps db) k) else row_of sp_id (db_steps db) k')"
  unfolding update_step_def by (simp add: list_table.lookup_modify)

lemma has_step_update_step: "(\<And>s. sp_id (f s) = sp_id s) \<Longrightarrow>
    has_key sp_id k' (db_steps (update_step k f db)) \<longleftrightarrow> has_key sp_id k' (db_steps db)"
  unfolding update_step_def by (simp add: has_key_update_key)

lemma tables_update_step [simp]:
  "db_runs (update_step k f db) = db_runs db" "db_attempts (update_step k f db) = db_attempts db"
  "db_letters (update_step k f db) = db_letters db" "db_attempts (update_run r g db) = db_attempts db"
  by (simp_all add: update_step_def update_run_def)

lemma createDeadLetterItem_ok:
  assumes "has_key rn_id (di_run i) (db_runs db)" "di_step i = Some k" "has_key sp_id k (db_steps db)"
  shows "\<exists>db3. createDeadLetterItem i db = (Inr (), db3) \<and> db_steps db3 = db_steps db \<and>
    db_attempts db3 = db_attempts db"
  using assms by (simp add: createDeadLetterItem_def)

lemma failure_spec:
  fixes ec :: string
  assumes inv: "wf_inv db" and s: "row_of sp_id (db_steps db) k = Some s"
    and fresh: "\<not> has_key sa_id (attempt_id k (sp_attempt s)) (db_attempts db)"
    and n: "0 \<le> sp_attempt s" and rnd: "0 \<le> rnd" "rnd \<le> 1" and now: "0 \<le> now" "now \<le> max_time - 72000"
  defines "dead \<equiv> hasExhaustedRetries ec (sp_attempt s)"
  shows "\<exists>r db'. recordStepFailure cl rnd k ec msg now db = (Inr r, db') \<and>
    (fr_dead_lettered r \<longleftrightarrow> dead) \<and>
    (\<forall>t. fr_next_retry_at r = Some t \<longrightarrow> now \<le> t \<and> t \<le> now + 72000) \<and>
    (fr_next_retry_at r = None \<longleftrightarrow> dead) \<and>
    (\<exists>s'. row_of sp_id (db_steps db') k = Some s' \<and> sp_attempt s' = sp_attempt s + 1 \<and>
       sp_status s' = fr_status r \<and> fr_status r = (if dead then SDEAD_LETTERED else SFAILED)) \<and>
    db_attempts db' = db_attempts db @ [failed_attempt k (sp_attempt s) ec msg (\<not> dead) now]"
proof -
  have k: "has_key sp_id k (db_steps db)" by (rule row_of_has_key [OF s])
  have "s \<in> set (db_steps db)" using row_of_Some_key [OF s] by simp
  then have run: "has_key rn_id (sp_run s) (db_runs db)" by (rule wf_inv_run_of [OF inv])
  have ids: "sa_id (failed_attempt k m ec msg b now) = attempt_id k m"
    "sa_step (failed_attempt k m ec msg b now) = k" for m b
    by (simp_all add: failed_attempt_def)
  note keys = step_update_keys
  show ?thesis
  proof (cases dead)
    case True
    let ?db1 = "update_step k (dead_step ec now) db"
    let ?a = "failed_attempt k (sp_attempt s) ec msg False now"
    let ?db2 = "?db1\<lparr>db_attempts := db_attempts db @ [?a]\<rparr>"
    have "insert_attempt ?a ?db1 = (Inr (), ?db2)"
      using k fresh by (simp add: insert_attempt_def ids has_step_update_step keys)
    moreover obtain db3 where "createDeadLetterItem
        \<lparr>di_id = ''dl-'' @ k @ ''-'' @ show_int cl, di_run = sp_run s, di_step = Some k,
         di_error_class = ec, di_retryable = False, di_attempt = sp_attempt s + 1,
         di_error_message = Some msg, di_now = now, di_payload = None\<rparr> ?db2 = (Inr (), db3)"
      "db_steps db3 = db_steps ?db1" "db_attempts db3 = db_attempts ?db2"
      using createDeadLetterItem_ok [of "\<lparr>di_id = ''dl-'' @ k @ ''-'' @ show_int cl,
          di_run = sp_run s, di_step = Some k, di_error_class = ec, di_retryable = False,
          di_attempt = sp_attempt s + 1, di_error_message = Some msg, di_now = now,
          di_payload = None\<rparr>" ?db2 k] run k
      by (auto simp: has_step_update_step keys)
    moreover from True have "\<not> rd_retryable (classifyRetry ec (sp_attempt s)) \<or>
        rd_max_attempts (classifyRetry ec (sp_attempt s)) \<le> sp_attempt s + 1"
      by (auto simp: dead_def hasExhaustedRetries_def Let_def split: if_splits)
    moreover have "sp_attempt (dead_step ec now s) = sp_attempt s + 1" "sp_status (dead_step ec now s) = SDEAD_LETTERED"
      by (simp_all add: dead_step_def)
    ultimately show ?thesis using s True
      by (simp add: recordStepFailure_def Let_def dead_letter_failure_def row_of_update_step keys)
  next
    case False
    let ?d = "classifyRetry ec (sp_attempt s)"
    let ?db1 = "update_step k (retry_step ec (now + retry_delay rnd ?d) now) db"
    let ?a = "failed_attempt k (sp_attempt s) ec msg True now"
    have "insert_attempt ?a ?db1 = (Inr (), ?db1\<lparr>db_attempts := db_attempts db @ [?a]\<rparr>)"
      using k fresh by (simp add: insert_attempt_def ids has_step_update_step keys)
    moreover have "rd_retryable ?d" "\<not> rd_max_attempts ?d \<le> sp_attempt s + 1"
      using False by (auto simp: dead_def hasExhaustedRetries_def Let_def split: if_splits)
    moreover note d = retry_delay_bounds [OF n rnd, of ec]
    moreover have "\<not> max_time < \<bar>now + retry_delay rnd ?d\<bar>" using d now by linarith
    moreover have "sp_attempt (retry_step ec x now s) = sp_attempt s + 1"
      "sp_status (retry_step ec x now s) = SFAILED" for x
      by (simp_all add: retry_step_def)
    ultimately show ?thesis using s False
      by (simp add: recordStepFailure_def Let_def retry_failure_def row_of_update_step keys)
  qed
qed

text \<open>Failures of one step in a row, with the answers the code gives.\<close>

record failure_report =
  fp_clock :: int
  fp_random :: rat
  fp_class :: string
  fp_message :: string
  fp_now :: int

fun record_failures :: "string \<Rightarrow> failure_report list \<Rightarrow> wf_db \<Rightarrow> failure_result result list \<times> wf_db" where
  "record_failures k [] db = ([], db)"
| "record_failures k (p # ps) db =
     (case recordStepFailure (fp_clock p) (fp_random p) k (fp_class p) (fp_message p) (fp_now p) db of
        (r, db1) \<Rightarrow> (case record_failures k ps db1 of (rs, db2) \<Rightarrow> (r # rs, db2)))"

definition plain_report :: "failure_report \<Rightarrow> bool" where
  "plain_report p = (0 \<le> fp_random p \<and> fp_random p \<le> 1 \<and> 0 \<le> fp_now p \<and> fp_now p \<le> max_time - 72000)"

definition attempts_free :: "string \<Rightarrow> int \<Rightarrow> wf_db \<Rightarrow> bool" where
  "attempts_free k n db \<longleftrightarrow> (\<forall>a\<in>set (db_attempts db). \<forall>m\<ge>n. sa_id a \<noteq> attempt_id k m)"

lemma show_int_inj: "show_int a = show_int b \<longleftrightarrow> a = b"
proof -
  have d: "hd (show_nat n) \<noteq> CHR ''-''" for n
  proof
    assume h: "hd (show_nat n) = CHR ''-''"
    have "hd (show_nat n) \<in> set (show_nat n)" by simp
    then have "is_digit (hd (show_nat n))" using show_nat_digits [of n] by (auto simp: list_all_iff)
    with h show False by (simp add: is_digit_def)
  qed
  have "CHR ''-'' # x \<noteq> show_nat n" for x n using d [of n] by (metis list.sel(1))
  then show ?thesis by (auto simp: show_int_def show_nat_inj dest: sym)
qed

lemma attempt_id_inj: "attempt_id k m = attempt_id k n \<longleftrightarrow> m = n"
  by (simp add: attempt_id_def show_int_inj)

text \<open>What the tables say of a failure: the attempt that failed and the letter of a step given up.\<close>

definition failed_row :: "string \<Rightarrow> int \<Rightarrow> bool \<Rightarrow> failure_report \<Rightarrow> attempt_row" where
  "failed_row k n retryable p =
     \<lparr>sa_id = ''attempt-'' @ k @ ''-'' @ show_int n, sa_step = k, sa_attempt = n, sa_started_at = fp_now p,
      sa_completed_at = None, sa_error_class = Some (fp_class p), sa_error_message = Some (fp_message p),
      sa_retryable = retryable, sa_output_hash = None\<rparr>"

definition letter_id :: "string \<Rightarrow> failure_report \<Rightarrow> string" where
  "letter_id k p = ''dl-'' @ k @ ''-'' @ show_int (fp_clock p)"

definition letter_row :: "string \<Rightarrow> string \<Rightarrow> int \<Rightarrow> failure_report \<Rightarrow> dl_row" where
  "letter_row k run n p =
     \<lparr>dl_id = letter_id k p, dl_run = run, dl_step = Some k, dl_error_class = fp_class p, dl_retryable = False,
      dl_attempt = n, dl_payload = None, dl_error_message = Some (fp_message p), dl_status = DOPEN,
      dl_created_at = fp_now p, dl_resolved_at = None, dl_last_retry_at = None\<rparr>"

fun failed_rows :: "string \<Rightarrow> int \<Rightarrow> failure_report list \<Rightarrow> failure_result list \<Rightarrow> attempt_row list" where
  "failed_rows k n (p # ps) (r # rs) = failed_row k n (\<not> fr_dead_lettered r) p # failed_rows k (n + 1) ps rs"
| "failed_rows k n _ _ = []"

lemma letter_id_inj: "letter_id k p = letter_id k q \<longleftrightarrow> fp_clock p = fp_clock q"
  by (simp add: letter_id_def show_int_inj)

lemma failure_writes:
  assumes inv: "wf_inv db" and s: "row_of sp_id (db_steps db) k = Some s"
    and fresh: "\<not> has_key sa_id (attempt_id k (sp_attempt s)) (db_attempts db)"
    and r: "recordStepFailure (fp_clock p) rnd k (fp_class p) (fp_message p) (fp_now p) db = (Inr r, db')"
  shows "sp_run (the (row_of sp_id (db_steps db') k)) = sp_run s"
    and "\<not> fr_dead_lettered r \<Longrightarrow> db_letters db' = db_letters db"
    and "fr_dead_lettered r \<Longrightarrow> db_letters db' = db_letters db @
      (if has_key dl_id (letter_id k p) (db_letters db) then [] else [letter_row k (sp_run s) (sp_attempt s + 1) p])"
    and "fr_dead_lettered r \<Longrightarrow> \<exists>x. row_of rn_id (db_runs db') (sp_run s) = Some x \<and> rn_status x = RDEAD_LETTERED"
proof -
  have k: "has_key sp_id k (db_steps db)" by (rule row_of_has_key [OF s])
  have "s \<in> set (db_steps db)" using row_of_Some_key [OF s] by simp
  then have run: "has_key rn_id (sp_run s) (db_runs db)" by (rule wf_inv_run_of [OF inv])
  then obtain x where x: "row_of rn_id (db_runs db) (sp_run s) = Some x" using row_of_NoneD by fastforce
  have ins: "insert_attempt (failed_attempt k (sp_attempt s) ec msg b now) (update_step k f db) =
      (Inr (), (update_step k f db)\<lparr>db_attempts := db_attempts db @ [failed_attempt k (sp_attempt s) ec msg b now]\<rparr>)"
    if "\<And>s. sp_id (f s) = sp_id s" for ec msg b now f
    using k fresh that by (simp add: insert_attempt_def failed_attempt_def has_step_update_step)
  let ?d = "classifyRetry (fp_class p) (sp_attempt s)"
  have "sp_run (the (row_of sp_id (db_steps db') k)) = sp_run s \<and> (\<not> fr_dead_lettered r \<longrightarrow> db_letters db' = db_letters db) \<and>
      (fr_dead_lettered r \<longrightarrow> db_letters db' = db_letters db @
        (if has_key dl_id (letter_id k p) (db_letters db) then [] else [letter_row k (sp_run s) (sp_attempt s + 1) p])) \<and>
      (fr_dead_lettered r \<longrightarrow> (\<exists>x. row_of rn_id (db_runs db') (sp_run s) = Some x \<and> rn_status x = RDEAD_LETTERED))"
  proof (cases "\<not> rd_retryable ?d \<or> rd_max_attempts ?d \<le> sp_attempt s + 1")
    case True
    have c: "\<And>now ec s. sp_id (dead_step ec now s) = sp_id s" "\<And>now ec s. sp_run (dead_step ec now s) = sp_run s"
      by (simp_all add: dead_step_def)
    show ?thesis
      using r s True k run x
      by (auto simp: recordStepFailure_def dead_letter_failure_def ins c createDeadLetterItem_def has_step_update_step
          row_of_update_step letter_id_def letter_row_def dl_row_of_def update_run_def list_table.lookup_modify
          split: if_splits)
  next
    case False
    have c: "\<And>n now ec s. sp_id (retry_step ec n now s) = sp_id s" "\<And>n now ec s. sp_run (retry_step ec n now s) = sp_run s"
      by (simp_all add: retry_step_def)
    show ?thesis
      using r s False
      by (auto simp: recordStepFailure_def retry_failure_def ins c row_of_update_step Let_def split: if_splits)
  qed
  then show "sp_run (the (row_of sp_id (db_steps db') k)) = sp_run s"
    "\<not> fr_dead_lettered r \<Longrightarrow> db_letters db' = db_letters db"
    "fr_dead_lettered r \<Longrightarrow> db_letters db' = db_letters db @
      (if has_key dl_id (letter_id k p) (db_letters db) then [] else [letter_row k (sp_run s) (sp_attempt s + 1) p])"
    "fr_dead_lettered r \<Longrightarrow> \<exists>x. row_of rn_id (db_runs db') (sp_run s) = Some x \<and> rn_status x = RDEAD_LETTERED"
    by blast+
qed

lemma failures_dead:
  assumes "wf_inv db" "row_of sp_id (db_steps db) k = Some s" "attempts_free k (sp_attempt s) db"
    and "0 \<le> sp_attempt s" "list_all plain_report ps" "ps \<noteq> []" "9 \<le> sp_attempt s + int (length ps) - 1"
    and "distinct (map fp_clock ps)" "\<forall>p\<in>set ps. \<not> has_key dl_id (letter_id k p) (db_letters db)"
  shows "\<exists>rs db'. record_failures k ps db = (map Inr rs, db') \<and> length rs = length ps \<and> fr_dead_lettered (last rs) \<and>
    (\<exists>s'. row_of sp_id (db_steps db') k = Some s' \<and> sp_status s' = SDEAD_LETTERED \<and>
       sp_attempt s' = sp_attempt s + int (length ps)) \<and>
    (\<exists>x. row_of rn_id (db_runs db') (sp_run s) = Some x \<and> rn_status x = RDEAD_LETTERED) \<and>
    db_attempts db' = db_attempts db @ failed_rows k (sp_attempt s) ps rs \<and>
    letter_row k (sp_run s) (sp_attempt s + int (length ps)) (last ps) \<in> set (db_letters db')"
  using assms
proof (induction ps arbitrary: db s)
  case Nil
  then show ?case by simp
next
  case (Cons p ps)
  let ?dead = "hasExhaustedRetries (fp_class p) (sp_attempt s)"
  have p: "0 \<le> fp_random p" "fp_random p \<le> 1" "0 \<le> fp_now p" "fp_now p \<le> max_time - 72000"
    using Cons.prems(5) by (simp_all add: plain_report_def)
  have fresh: "\<not> has_key sa_id (attempt_id k (sp_attempt s)) (db_attempts db)"
    using Cons.prems(3) unfolding attempts_free_def has_key_iff by (metis imageE order_refl)
  from failure_spec [OF Cons.prems(1,2) this Cons.prems(4) p, of "fp_clock p" "fp_class p" "fp_message p"]
  obtain r db1 s1 where r: "recordStepFailure (fp_clock p) (fp_random p) k (fp_class p) (fp_message p) (fp_now p) db = (Inr r, db1)"
    and dead: "fr_dead_lettered r \<longleftrightarrow> ?dead"
    and s1: "row_of sp_id (db_steps db1) k = Some s1" "sp_attempt s1 = sp_attempt s + 1"
      "sp_status s1 = fr_status r" "fr_status r = (if ?dead then SDEAD_LETTERED else SFAILED)"
    and at: "db_attempts db1 = db_attempts db @ [failed_attempt k (sp_attempt s) (fp_class p) (fp_message p) (\<not> ?dead) (fp_now p)]"
    by blast
  note w = failure_writes [OF Cons.prems(1,2) fresh r]
  have run: "sp_run s1 = sp_run s" using w(1) s1(1) by simp
  have row: "db_attempts db1 = db_attempts db @ [failed_row k (sp_attempt s) (\<not> fr_dead_lettered r) p]"
    unfolding at dead by (simp add: failed_attempt_def failed_row_def attempt_id_def)
  show ?case
  proof (cases "ps = []")
    case True
    with Cons.prems(7) have "9 \<le> sp_attempt s" by simp
    then have d: ?dead using max_attempts_bound [of "fp_class p" "sp_attempt s"]
      by (auto simp: hasExhaustedRetries_def Let_def)
    have "letter_row k (sp_run s) (sp_attempt s + 1) p \<in> set (db_letters db1)"
      using w(3) d Cons.prems(9) unfolding dead by simp
    with True r d s1 dead row w(4) show ?thesis by (intro exI [of _ "[r]"] exI [of _ db1]) simp
  next
    case False
    have "wf_inv db1" using wf_inv_failure [OF Cons.prems(1)] r by (metis snd_conv)
    moreover have "attempts_free k (sp_attempt s1) db1"
      using Cons.prems(3) s1(2) at by (auto simp: attempts_free_def failed_attempt_def attempt_id_inj)
    moreover have "set (map dl_id (db_letters db1)) \<subseteq> insert (letter_id k p) (set (map dl_id (db_letters db)))"
      using w(2,3) by (cases "fr_dead_lettered r") (auto simp: letter_row_def)
    then have "\<not> has_key dl_id (letter_id k q) (db_letters db1)" if "q \<in> set ps" for q
    proof -
      have "fp_clock q \<noteq> fp_clock p" using Cons.prems(8) imageI [OF that, of fp_clock] by auto
      then have "letter_id k q \<noteq> letter_id k p" by (simp add: letter_id_inj)
      moreover have "letter_id k q \<notin> dl_id ` set (db_letters db)"
        using Cons.prems(9) that unfolding has_key_iff by simp
      ultimately show ?thesis using \<open>set (map dl_id (db_letters db1)) \<subseteq> _\<close> unfolding has_key_iff by auto
    qed
    ultimately obtain rs db2 where rs: "record_failures k ps db1 = (map Inr rs, db2)" "length rs = length ps"
      "fr_dead_lettered (last rs)"
      "\<exists>s'. row_of sp_id (db_steps db2) k = Some s' \<and> sp_status s' = SDEAD_LETTERED \<and>
         sp_attempt s' = sp_attempt s1 + int (length ps)"
      "\<exists>x. row_of rn_id (db_runs db2) (sp_run s1) = Some x \<and> rn_status x = RDEAD_LETTERED"
      "db_attempts db2 = db_attempts db1 @ failed_rows k (sp_attempt s1) ps rs"
      "letter_row k (sp_run s1) (sp_attempt s1 + int (length ps)) (last ps) \<in> set (db_letters db2)"
      using Cons.IH [of db1 s1] s1 Cons.prems False by auto
    have "rs \<noteq> []" using rs(2) False by auto
    have n: "sp_attempt s1 + int (length ps) = sp_attempt s + int (length (p # ps))" using s1(2) by simp
    have "record_failures k (p # ps) db = (map Inr (r # rs), db2)" using r rs(1) by simp
    moreover have "length (r # rs) = length (p # ps) \<and> fr_dead_lettered (last (r # rs))" using rs(2,3) \<open>rs \<noteq> []\<close> by simp
    moreover note rs(4) [unfolded n] rs(5) [unfolded run]
    moreover have "db_attempts db2 = db_attempts db @ failed_rows k (sp_attempt s) (p # ps) (r # rs)"
      using rs(6) row s1(2) by simp
    moreover have "letter_row k (sp_run s) (sp_attempt s + int (length (p # ps))) (last (p # ps)) \<in> set (db_letters db2)"
      using rs(7) False unfolding n run by simp
    ultimately show ?thesis by blast
  qed
qed

text \<open>C13. Retrying ends: ten or more failures of a step in a row, of whatever error classes, are all
  answered and all recorded as attempts, in order; the last one dead-letters the step and its run and
  leaves an open dead letter of its error class. (The clock readings that name the letters are distinct and
  not taken, and so are the attempt numbers from 0.)\<close>

theorem failures_end_dead_lettered:
  assumes "wf_inv db" and "row_of sp_id (db_steps db) k = Some s" and "sp_attempt s = 0"
    and "attempts_free k 0 db" and "list_all plain_report ps" and "10 \<le> length ps"
    and "distinct (map fp_clock ps)" and "\<forall>p\<in>set ps. \<not> has_key dl_id (letter_id k p) (db_letters db)"
  shows "\<exists>rs db'. record_failures k ps db = (map Inr rs, db') \<and> length rs = length ps \<and> fr_dead_lettered (last rs) \<and>
    (\<exists>s'. row_of sp_id (db_steps db') k = Some s' \<and> sp_status s' = SDEAD_LETTERED \<and>
       sp_attempt s' = int (length ps)) \<and>
    (\<exists>x. row_of rn_id (db_runs db') (sp_run s) = Some x \<and> rn_status x = RDEAD_LETTERED) \<and>
    db_attempts db' = db_attempts db @ failed_rows k 0 ps rs \<and>
    letter_row k (sp_run s) (int (length ps)) (last ps) \<in> set (db_letters db')"
proof -
  have "ps \<noteq> []" "9 \<le> sp_attempt s + int (length ps) - 1" using assms(3,6) by auto
  with failures_dead [OF assms(1,2) _ _ assms(5) _ _ assms(7,8)] assms(3,4) show ?thesis by simp
qed

text \<open>One failure: it dead-letters the step exactly when the taxonomy says its retries are
  exhausted; otherwise the step becomes FAILED with its attempt counted once and the next try lies
  at most 72 seconds ahead.\<close>

theorem failure_follows_taxonomy:
  assumes "wf_inv db" and "row_of sp_id (db_steps db) k = Some s"
    and "\<not> has_key sa_id (attempt_id k (sp_attempt s)) (db_attempts db)" and "0 \<le> sp_attempt s"
    and "0 \<le> rnd" "rnd \<le> 1" and "0 \<le> now" "now \<le> max_time - 72000"
  shows "\<exists>r db' s'. recordStepFailure cl rnd k ec msg now db = (Inr r, db') \<and>
    row_of sp_id (db_steps db') k = Some s' \<and> sp_attempt s' = sp_attempt s + 1 \<and>
    (if hasExhaustedRetries ec (sp_attempt s)
     then fr_dead_lettered r \<and> sp_status s' = SDEAD_LETTERED
     else \<not> fr_dead_lettered r \<and> sp_status s' = SFAILED \<and>
       (\<exists>t. fr_next_retry_at r = Some t \<and> now \<le> t \<and> t \<le> now + 72000))"
  using failure_spec [OF assms, of cl ec msg] by (smt (verit) option.exhaust)

section \<open>Dead letters\<close>

text \<open>An open dead letter is retried once: the retry puts its step back to PENDING with the
  attempts it had, its run to RETRYING and the letter to RETRYING; a second retry of the letter
  does nothing.\<close>

theorem dead_letter_retried_once:
  assumes d: "row_of dl_id (db_letters db) i = Some d" and open_: "dl_status d = DOPEN"
    and st: "dl_step d = Some k" "k \<noteq> []" and s: "row_of sp_id (db_steps db) k = Some s"
  shows "\<exists>db'. retryDeadLetterFromCheckpoint i now db = (Inr \<lparr>dr_retried = True, dr_step = Some k\<rparr>, db') \<and>
    row_of sp_id (db_steps db') k = Some (reset_step now s) \<and> sp_attempt (reset_step now s) = sp_attempt s \<and>
    (\<forall>r. row_of rn_id (db_runs db) (dl_run d) = Some r \<longrightarrow>
       row_of rn_id (db_runs db') (dl_run d) = Some (r\<lparr>rn_status := RRETRYING, rn_updated_at := now\<rparr>)) \<and>
    retryDeadLetterFromCheckpoint i later db' = (Inr \<lparr>dr_retried = False, dr_step = Some k\<rparr>, db')"
proof -
  define db2 where "db2 = update_run (dl_run d) (\<lambda>r. r\<lparr>rn_status := RRETRYING, rn_updated_at := now\<rparr>)
    (update_step k (reset_step now) db)"
  define f :: "dl_row \<Rightarrow> dl_row" where "f = (\<lambda>r. r\<lparr>dl_status := DRETRYING, dl_last_retry_at := Some now\<rparr>)"
  let ?db' = "db2\<lparr>db_letters := update_key dl_id i f (db_letters db)\<rparr>"
  have "row_of dl_id (db_letters ?db') i = Some (f d)"
    using d by (simp add: list_table.lookup_modify f_def)
  then have "retryDeadLetterFromCheckpoint i later ?db' = (Inr \<lparr>dr_retried = False, dr_step = Some k\<rparr>, ?db')"
    by (simp add: retryDeadLetterFromCheckpoint_def f_def st)
  moreover have "row_of sp_id (db_steps ?db') k = Some (reset_step now s)"
    using s by (simp add: db2_def row_of_update_step step_update_keys)
  moreover have "row_of rn_id (db_runs db) (dl_run d) = Some r \<Longrightarrow>
      row_of rn_id (db_runs ?db') (dl_run d) = Some (r\<lparr>rn_status := RRETRYING, rn_updated_at := now\<rparr>)" for r
    by (simp add: db2_def update_run_def list_table.lookup_modify)
  moreover have "db_letters db2 = db_letters db" by (simp add: db2_def update_run_def)
  then have "retryDeadLetterFromCheckpoint i now db = (Inr \<lparr>dr_retried = True, dr_step = Some k\<rparr>, ?db')"
    by (simp add: retryDeadLetterFromCheckpoint_def d open_ st Let_def f_def flip: db2_def)
  ultimately show ?thesis by (auto simp: reset_step_def)
qed

section \<open>Creating and resuming steps\<close>

lemma step_key_kept:
  assumes "has_key sp_key k (db_steps db)" "wf_inv db"
  shows "has_key sp_key k (db_steps (fold (wf_exec sha) ops db))"
proof -
  from assms(1) obtain s where s: "s \<in> set (db_steps db)" "sp_key s = k" by (auto simp: has_key_iff)
  then have row: "row_of sp_id (db_steps db) (sp_id s) = Some s"
    using row_of_eq [OF wf_inv_steps [OF assms(2)]] by simp
  have "step_kept (\<lambda>a b. sp_key b = sp_key a) (sp_id s) (db_steps db) (db_steps (fold (wf_exec sha) ops db))"
    by (rule step_kept_run) (simp_all add: step_kept_exec step_update_keys)
  with row obtain s' where "row_of sp_id (db_steps (fold (wf_exec sha) ops db)) (sp_id s) = Some s'" "sp_key s' = k"
    using s(2) by (auto simp: step_kept_def)
  then have "s' \<in> set (db_steps (fold (wf_exec sha) ops db))" by (blast dest: row_of_Some_key)
  then show ?thesis using has_keyI [of s' _ sp_key] \<open>sp_key s' = k\<close> by simp
qed

lemma ensure_loop_present:
  "list_all (\<lambda>d. has_key sp_key (sd_key d) (db_steps db)) ds \<Longrightarrow> ensure_loop sha r n ds now db = (Inr (), db)"
proof (induction ds arbitrary: n)
  case (Cons d ds)
  obtain s where "row_of sp_key (db_steps db) (sd_key d) = Some s"
    using Cons.prems row_of_None [of sp_key "db_steps db" "sd_key d"] by (cases "row_of sp_key (db_steps db) (sd_key d)") auto
  then have "createWorkflowStep (ensure_input sha r n d now) db = (Inr (sp_id s, False), db)"
    by (simp add: createWorkflowStep_def ensure_input_def)
  with Cons show ?case by simp
qed simp

lemma createWorkflowStep_key:
  "createWorkflowStep i db = (Inr x, db') \<Longrightarrow> has_key sp_key (si_key i) (db_steps db')"
proof (cases "row_of sp_key (db_steps db) (si_key i)")
  case None
  assume "createWorkflowStep i db = (Inr x, db')"
  with None show ?thesis
    by (auto simp: createWorkflowStep_def has_key_append split: if_splits) (simp add: has_key_def step_row_of_def)
next
  case (Some s)
  assume "createWorkflowStep i db = (Inr x, db')"
  with Some show ?thesis by (simp add: createWorkflowStep_def row_of_has_key)
qed

lemma createWorkflowStep_grows:
  "has_key sp_key k (db_steps db) \<Longrightarrow> has_key sp_key k (db_steps (snd (createWorkflowStep i db)))"
  by (simp add: createWorkflowStep_def has_key_append split: option.split)

lemma ensure_loop_grows:
  "has_key sp_key k (db_steps db) \<Longrightarrow> has_key sp_key k (db_steps (snd (ensure_loop sha r n ds now db)))"
  by (induction ds arbitrary: n db)
    (simp_all add: and_then_state [where R = "\<lambda>x. has_key sp_key k (db_steps x)"] createWorkflowStep_grows)

lemma ensure_loop_keys:
  "ensure_loop sha r n ds now db = (Inr (), db') \<Longrightarrow> list_all (\<lambda>d. has_key sp_key (sd_key d) (db_steps db')) ds"
proof (induction ds arbitrary: n db)
  case (Cons d ds)
  obtain x db1 where c: "createWorkflowStep (ensure_input sha r n d now) db = (x, db1)" by (rule prod.exhaust)
  with Cons.prems obtain y where y: "x = Inr y" by (cases x) auto
  with Cons.prems c have e: "ensure_loop sha r (Suc n) ds now db1 = (Inr (), db')" by simp
  have "has_key sp_key (sd_key d) (db_steps db1)"
    using createWorkflowStep_key [OF c [unfolded y]] by (simp add: ensure_input_def)
  then have "has_key sp_key (sd_key d) (db_steps db')"
    using ensure_loop_grows [of "sd_key d" db1 sha r "Suc n" ds now] e by simp
  with Cons.IH [OF e] show ?case by simp
qed simp

text \<open>Creating the steps of a run is idempotent: once \<open>ensureWorkflowSteps\<close> has succeeded,
  calling it again with the same definitions succeeds and writes nothing, whatever ran in between.\<close>

theorem ensure_steps_idempotent:
  assumes "wf_inv db" and "ensureWorkflowSteps sha r ds now db = (Inr (), db1)"
    and "db2 = fold (wf_exec sha) ops db1"
  shows "ensureWorkflowSteps sha r ds now' db2 = (Inr (), db2)"
proof -
  from assms(2) have e: "ensure_loop sha r 0 ds now db = (Inr (), db1)" by (simp add: ensureWorkflowSteps_def)
  have "wf_inv db1" using wf_inv_ensure_loop [OF assms(1), of sha r 0 ds now] e by simp
  with ensure_loop_keys [OF e] step_key_kept [of _ db1 sha ops]
  have "list_all (\<lambda>d. has_key sp_key (sd_key d) (db_steps db2)) ds"
    by (simp add: list_all_iff assms(3))
  then show ?thesis unfolding ensureWorkflowSteps_def by (rule ensure_loop_present)
qed

text \<open>A worker that keeps asking where to resume and completes the step it is given.\<close>

record completion =
  cp_clock :: int
  cp_hash :: string
  cp_now :: int

fun drive :: "string \<Rightarrow> completion list \<Rightarrow> wf_db \<Rightarrow> wf_db" where
  "drive runId [] db = db"
| "drive runId (c # cs) db =
     (case rp_next (resumeFromCheckpoint runId db) of
        None \<Rightarrow> db
      | Some s \<Rightarrow> drive runId cs (snd (recordStepSuccess (cp_clock c) (sp_id s) (cp_hash c) (cp_now c) db)))"

definition open_steps :: "string \<Rightarrow> wf_db \<Rightarrow> step_row list" where
  "open_steps runId db = select (\<lambda>s. sp_run s = runId \<and> claimable s) (db_steps db)"

lemma resume_next:
  "rp_next (resumeFromCheckpoint r db) = Some s \<Longrightarrow> s \<in> set (db_steps db) \<and> sp_run s = r \<and> claimable s"
  by (auto simp: resumeFromCheckpoint_def Let_def getWorkflowSteps_def select_def claimable_def
      dest!: find_Some_in)

lemma resume_none: "rp_next (resumeFromCheckpoint r db) = None \<longleftrightarrow> open_steps r db = []"
  by (auto simp: resumeFromCheckpoint_def Let_def getWorkflowSteps_def open_steps_def select_def
      claimable_def find_None_iff filter_empty_conv)

lemma success_steps: "db_steps (snd (recordStepSuccess cl k h now db)) = update_where (\<lambda>s. sp_id s = k) (success_step h now) (db_steps db)"
  by (simp add: recordStepSuccess_def Let_def update_step_def update_key_def)

lemma success_step_open [simp]: "\<not> claimable (success_step h now s)" "sp_status (success_step h now s) = SCOMPLETED"
  by (simp_all add: success_step_def claimable_def)

lemma success_closes_one:
  assumes "wf_inv db" "s \<in> set (db_steps db)" "sp_run s = r" "claimable s"
  shows "Suc (length (open_steps r (snd (recordStepSuccess cl (sp_id s) h now db)))) = length (open_steps r db)"
proof -
  obtain as bs where t: "db_steps db = as @ s # bs" using assms(2) by (auto dest: split_list)
  with wf_inv_steps [OF assms(1)] have "\<forall>x\<in>set as \<union> set bs. sp_id x \<noteq> sp_id s"
    by (auto simp: unique_key_def image_iff)
  then have "update_where (\<lambda>x. sp_id x = sp_id s) f as = as" "update_where (\<lambda>x. sp_id x = sp_id s) f bs = bs" for f
    by (auto intro: update_where_id)
  then have "update_where (\<lambda>x. sp_id x = sp_id s) f (db_steps db) = as @ f s # bs" for f
    by (simp add: t update_where_def)
  then show ?thesis using assms(3,4)
    by (simp add: open_steps_def success_steps select_def t)
qed

lemma drive_open: "wf_inv db \<Longrightarrow> length (open_steps r db) \<le> length cs \<Longrightarrow> open_steps r (drive r cs db) = []"
proof (induction cs arbitrary: db)
  case Nil
  then show ?case by simp
next
  case (Cons c cs)
  show ?case
  proof (cases "rp_next (resumeFromCheckpoint r db)")
    case None
    then show ?thesis using resume_none [of r db] by simp
  next
    case (Some s)
    note s = resume_next [OF Some]
    let ?db' = "snd (recordStepSuccess (cp_clock c) (sp_id s) (cp_hash c) (cp_now c) db)"
    have "length (open_steps r ?db') \<le> length cs"
      using success_closes_one [OF Cons.prems(1), of s r "cp_clock c" "cp_hash c" "cp_now c"] s Cons.prems(2) by simp
    then have "open_steps r (drive r cs ?db') = []"
      by (rule Cons.IH [OF wf_inv_success [OF Cons.prems(1)]])
    with Some show ?thesis by simp
  qed
qed

text \<open>What a worker makes of a step: it completes it with one of its outputs, or leaves it as it is.\<close>

definition worked :: "string \<Rightarrow> string set \<Rightarrow> step_row \<Rightarrow> step_row \<Rightarrow> bool" where
  "worked r outputs s s' \<longleftrightarrow> sp_id s' = sp_id s \<and> sp_run s' = sp_run s \<and>
     (s' = s \<or> sp_run s = r \<and> claimable s \<and> sp_status s' = SCOMPLETED \<and> sp_output_hash s' \<in> Some ` outputs)"

lemma worked_trans: "worked r A a b \<Longrightarrow> worked r B b c \<Longrightarrow> A \<union> B \<subseteq> C \<Longrightarrow> worked r C a c"
  unfolding worked_def claimable_def by auto

lemma worked_success:
  assumes "wf_inv db" "s \<in> set (db_steps db)" "sp_run s = r" "claimable s"
  shows "list_all2 (worked r {h}) (db_steps db) (db_steps (snd (recordStepSuccess cl (sp_id s) h now db)))"
proof -
  have "worked r {h} x (if sp_id x = sp_id s then success_step h now x else x)" if "x \<in> set (db_steps db)" for x
  proof (cases "sp_id x = sp_id s")
    case True
    then have "x = s" using wf_inv_steps [OF assms(1)] that assms(2) unfolding unique_key_def
      by (metis distinct_map inj_onD)
    with assms(3,4) show ?thesis by (simp add: worked_def success_step_def)
  qed (simp add: worked_def)
  then show ?thesis
    by (simp add: success_steps update_where_def list_all2_conv_all_nth)
qed

lemma drive_worked: "wf_inv db \<Longrightarrow> list_all2 (worked r (cp_hash ` set cs)) (db_steps db) (db_steps (drive r cs db))"
proof (induction cs arbitrary: db)
  case Nil
  then show ?case by (simp add: list_all2_conv_all_nth worked_def)
next
  case (Cons c cs)
  show ?case
  proof (cases "rp_next (resumeFromCheckpoint r db)")
    case None
    then show ?thesis by (simp add: list_all2_conv_all_nth worked_def)
  next
    case (Some s)
    let ?db' = "snd (recordStepSuccess (cp_clock c) (sp_id s) (cp_hash c) (cp_now c) db)"
    have "list_all2 (worked r {cp_hash c}) (db_steps db) (db_steps ?db')"
      using resume_next [OF Some] Cons.prems by (intro worked_success) simp_all
    moreover have "list_all2 (worked r (cp_hash ` set cs)) (db_steps ?db') (db_steps (drive r cs ?db'))"
      by (rule Cons.IH [OF wf_inv_success [OF Cons.prems]])
    ultimately have "list_all2 (worked r (cp_hash ` set (c # cs))) (db_steps db) (db_steps (drive r cs ?db'))"
      by (rule list_all2_trans [rotated]) (rule worked_trans, auto)
    with Some show ?thesis by simp
  qed
qed

text \<open>C31. A worker that resumes from the checkpoint and completes the step it is given, as often as there
  are PENDING and FAILED steps, leaves nothing to resume: it completed each of those steps with one of its
  outputs and changed no other step. Completing the run then marks it DEAD_LETTERED if a step of it is,
  COMPLETED if all its steps were open or completed before, and FAILED otherwise, as it is while a crashed
  worker's step is RUNNING, since such a step is never given out again.\<close>

theorem resume_finishes_run:
  assumes "wf_inv db" and "length (open_steps r db) \<le> length cs" and "db' = drive r cs db"
    and "mine = {s \<in> set (db_steps db). sp_run s = r}"
  shows "rp_next (resumeFromCheckpoint r db') = None \<and>
    list_all2 (\<lambda>s s'. if sp_run s = r \<and> (sp_status s = SPENDING \<or> sp_status s = SFAILED)
      then sp_id s' = sp_id s \<and> sp_status s' = SCOMPLETED \<and> sp_output_hash s' \<in> Some ` cp_hash ` set cs
      else s' = s) (db_steps db) (db_steps db') \<and>
    completeWorkflowRun r now db' = update_run r
      (\<lambda>x. x\<lparr>rn_status := (if \<exists>s\<in>mine. sp_status s = SDEAD_LETTERED then RDEAD_LETTERED
           else if mine \<noteq> {} \<and> (\<forall>s\<in>mine. sp_status s \<in> {SPENDING, SFAILED, SCOMPLETED}) then RCOMPLETED else RFAILED),
         rn_completed_at := Some now, rn_updated_at := now\<rparr>) db'"
proof -
  have none: "open_steps r db' = []" unfolding assms(3) by (rule drive_open [OF assms(1,2)])
  have w: "list_all2 (worked r (cp_hash ` set cs)) (db_steps db) (db_steps db')"
    unfolding assms(3) by (rule drive_worked [OF assms(1)])
  then have len: "length (db_steps db') = length (db_steps db)" by (simp add: list_all2_lengthD)
  have nth: "worked r (cp_hash ` set cs) (db_steps db ! k) (db_steps db' ! k)" if "k < length (db_steps db)" for k
    using w that by (simp add: list_all2_conv_all_nth)
  have closed: "\<not> (sp_run s' = r \<and> claimable s')" if "s' \<in> set (db_steps db')" for s'
    using none that unfolding open_steps_def select_Nil_iff by blast
  have fin: "if sp_run (db_steps db ! k) = r \<and> claimable (db_steps db ! k)
      then sp_id (db_steps db' ! k) = sp_id (db_steps db ! k) \<and> sp_status (db_steps db' ! k) = SCOMPLETED \<and>
        sp_output_hash (db_steps db' ! k) \<in> Some ` cp_hash ` set cs
      else db_steps db' ! k = db_steps db ! k" if "k < length (db_steps db)" for k
    using nth [OF that] closed [of "db_steps db' ! k"] that len unfolding worked_def by auto
  have run: "sp_run (db_steps db' ! k) = sp_run (db_steps db ! k)" if "k < length (db_steps db)" for k
    using nth [OF that] by (simp add: worked_def)
  let ?mine' = "{s \<in> set (db_steps db'). sp_run s = r}"
  have st: "sp_status (db_steps db' ! k) =
      (if claimable (db_steps db ! k) then SCOMPLETED else sp_status (db_steps db ! k))"
    if "k < length (db_steps db)" "sp_run (db_steps db ! k) = r" for k
    using fin [OF that(1)] that(2) by auto
  have img: "sp_status ` ?mine' = (\<lambda>s. if claimable s then SCOMPLETED else sp_status s) ` mine"
  proof -
    define K where "K = {k. k < length (db_steps db) \<and> sp_run (db_steps db ! k) = r}"
    have a: "?mine' = (\<lambda>k. db_steps db' ! k) ` K"
      unfolding K_def using run by (auto simp: in_set_conv_nth len)
    have b: "mine = (\<lambda>k. db_steps db ! k) ` K"
      unfolding assms(4) K_def by (auto simp: in_set_conv_nth)
    show ?thesis unfolding a b image_image by (rule image_cong [OF refl]) (simp only: K_def mem_Collect_eq st)
  qed
  have steps: "set (getWorkflowSteps r db') = ?mine'"
    by (auto simp: getWorkflowSteps_def select_def)
  have "run_outcome (getWorkflowSteps r db') =
      (if SDEAD_LETTERED \<in> sp_status ` ?mine' then RDEAD_LETTERED
       else if sp_status ` ?mine' \<noteq> {} \<and> sp_status ` ?mine' \<subseteq> {SCOMPLETED} then RCOMPLETED else RFAILED)"
    unfolding steps [symmetric] run_outcome_def Let_def list_ex_iff list_all_iff
    by (auto simp: image_iff eq_commute [of SDEAD_LETTERED])
  also have "\<dots> = (if \<exists>s\<in>mine. sp_status s = SDEAD_LETTERED then RDEAD_LETTERED
      else if mine \<noteq> {} \<and> (\<forall>s\<in>mine. sp_status s \<in> {SPENDING, SFAILED, SCOMPLETED}) then RCOMPLETED else RFAILED)"
  proof -
    let ?f = "\<lambda>s. if claimable s then SCOMPLETED else sp_status s"
    have "?f s = SDEAD_LETTERED \<longleftrightarrow> sp_status s = SDEAD_LETTERED" for s by (auto simp: claimable_def)
    then have d: "SDEAD_LETTERED \<in> ?f ` mine \<longleftrightarrow> (\<exists>s\<in>mine. sp_status s = SDEAD_LETTERED)"
      unfolding image_iff eq_commute [of SDEAD_LETTERED] by blast
    have c: "?f ` mine \<subseteq> {SCOMPLETED} \<longleftrightarrow> (\<forall>s\<in>mine. sp_status s \<in> {SPENDING, SFAILED, SCOMPLETED})"
      unfolding image_subset_iff by (auto simp: claimable_def)
    show ?thesis unfolding img d c image_is_empty ..
  qed
  finally have "run_outcome (getWorkflowSteps r db') = \<dots>" .
  moreover have "rp_next (resumeFromCheckpoint r db') = None" using none by (simp add: resume_none)
  ultimately show ?thesis
    using fin len unfolding completeWorkflowRun_def claimable_def by (simp add: list_all2_conv_all_nth)
qed

section \<open>Concrete runs\<close>

definition demo_request :: trigger_request where
  "demo_request = \<lparr>tr_source = ''qstash'', tr_external = '' m1 '', tr_schedule_id = None,
     tr_scheduled_for = None, tr_payload = None, tr_received_at = 5, tr_verified_at = None\<rparr>"

definition demo_step :: step_row where
  "demo_step = step_row_of \<lparr>si_id = ''s1'', si_run = ''r1'', si_type = ''scan'', si_key = ''k1'',
     si_input_hash = ''h'', si_lease_owner = None, si_lease_version = None,
     si_lease_expires_at = None, si_now = 0\<rparr>"

definition demo_run :: run_row where
  "demo_run = run_row_of \<lparr>ri_id = ''r1'', ri_name = ''discovery'', ri_schedule_id = None,
     ri_trigger = None, ri_now = 0\<rparr>"

definition demo_letter :: dl_row where
  "demo_letter = dl_row_of \<lparr>di_id = ''d1'', di_run = ''r1'', di_step = Some ''s1'',
     di_error_class = ''TIMEOUT'', di_retryable = False, di_attempt = 5, di_error_message = None,
     di_now = 0, di_payload = None\<rparr>"

definition demo_db :: wf_db where
  "demo_db = empty_db\<lparr>db_runs := [demo_run], db_steps := [demo_step], db_letters := [demo_letter]\<rparr>"

lemmas demo_wf = demo_db_def demo_step_def demo_run_def demo_letter_def empty_db_def step_row_of_def
  run_row_of_def dl_row_of_def

lemma demo_db_inv: "wf_inv demo_db"
  by (simp add: wf_inv_parts demo_wf unique_key_def has_key_def)

lemma demo_db_step: "row_of sp_id (db_steps demo_db) ''s1'' = Some demo_step" "sp_attempt demo_step = 0"
  by (simp_all add: demo_wf row_of_def)

lemma demo_db_free: "attempts_free ''s1'' 0 demo_db"
  by (simp add: attempts_free_def demo_wf)

theorem trigger_exactly_once_witness:
  "\<exists>a db1. handleTriggerInboxRequest (\<lambda>s. s) demo_request empty_db = (Inr a, db1) \<and> tp_run a \<noteq> None \<and>
     handleTriggerInboxRequest (\<lambda>s. s) (demo_request\<lparr>tr_external := ''m1''\<rparr>)
       (fold (wf_exec (\<lambda>s. s)) [OpResolveLetter ''x'' 1] db1) =
     (Inr \<lparr>tp_inbox_id = tp_inbox_id a, tp_run = tp_run a, tp_duplicate = True\<rparr>,
      fold (wf_exec (\<lambda>s. s)) [OpResolveLetter ''x'' 1] db1)"
proof -
  let ?h = "handleTriggerInboxRequest (\<lambda>s. s) demo_request empty_db"
  have "is_ok (fst ?h)" "(case fst ?h of Inl e \<Rightarrow> False | Inr a \<Rightarrow> tp_run a \<noteq> None)" by code_simp+
  then obtain a db1 where h: "?h = (Inr a, db1)" "tp_run a \<noteq> None"
    by (cases ?h; cases "fst ?h") auto
  have "trim (tr_external (demo_request\<lparr>tr_external := ''m1''\<rparr>)) = trim (tr_external demo_request)"
    by code_simp
  from trigger_exactly_once [OF wf_inv_empty h(1) this refl, of "[OpResolveLetter ''x'' 1]"] h
  show ?thesis by blast
qed

theorem attempts_never_reset_witness:
  "\<exists>s'. row_of sp_id (db_steps (fold (wf_exec (\<lambda>s. s)) [OpRetryLetter ''d1'' 3] demo_db)) ''s1'' = Some s' \<and>
     0 \<le> sp_attempt s'"
  using attempts_never_reset [OF demo_db_step(1), of "\<lambda>s. s" "[OpRetryLetter ''d1'' 3]"] demo_db_step(2) by simp

theorem stale_commit_rejected_witness:
  "\<exists>db1. claimStepForExecution ''s1'' ''w'' 2 100 1 demo_db = (True, db1) \<and>
     commitStepWithFencing ''s1'' ''w'' 1 ''out'' 5 db1 = (\<lparr>cr_committed = False, cr_stale = True\<rparr>, db1) \<and>
     fst (commitStepWithFencing ''s1'' ''w'' 2 ''out'' 5 db1) = \<lparr>cr_committed = True, cr_stale = False\<rparr>"
proof -
  obtain db1 where c: "claimStepForExecution ''s1'' ''w'' 2 100 1 demo_db = (True, db1)"
    by (simp add: claimStepForExecution_def demo_wf select_def claimable_def)
  note r = stale_commit_rejected [OF demo_db_inv c, of "[]", OF _ refl]
  show ?thesis using c r [of "''w''" 1 "''out''" 5] r [of "''w''" 2 "''out''" 5] by simp
qed

theorem backoff_bounded_monotone_witness:
  "1000 \<le> computeExponentialBackoff 1 1000 30000 \<and>
   computeExponentialBackoff 1 1000 30000 \<le> computeExponentialBackoff 6 1000 30000 \<and>
   computeExponentialBackoff 6 1000 30000 \<le> 30000"
  by (rule backoff_bounded_monotone) simp_all

definition demo_report :: "int \<Rightarrow> failure_report" where
  "demo_report t = \<lparr>fp_clock = t, fp_random = 1 / 2, fp_class = ''TIMEOUT'', fp_message = ''t'', fp_now = 5\<rparr>"

definition demo_reports :: "failure_report list" where
  "demo_reports = map demo_report [1, 2, 3, 4, 5, 6, 7, 8, 9, 10]"

lemma demo_reports_plain: "list_all plain_report demo_reports" "distinct (map fp_clock demo_reports)"
  by (simp_all add: demo_reports_def plain_report_def demo_report_def max_time_def)

lemma demo_reports_new: "\<forall>p\<in>set demo_reports. \<not> has_key dl_id (letter_id ''s1'' p) (db_letters demo_db)"
  by (simp add: has_key_iff letter_id_def demo_wf)

theorem failures_end_dead_lettered_witness:
  "\<exists>rs db'. record_failures ''s1'' demo_reports demo_db = (map Inr rs, db') \<and> fr_dead_lettered (last rs) \<and>
     (\<exists>s'. row_of sp_id (db_steps db') ''s1'' = Some s' \<and> sp_status s' = SDEAD_LETTERED) \<and>
     db_attempts db' = failed_rows ''s1'' 0 demo_reports rs \<and>
     letter_row ''s1'' ''r1'' 10 (demo_report 10) \<in> set (db_letters db')"
proof -
  have l: "10 \<le> length demo_reports" "last demo_reports = demo_report 10" "length demo_reports = 10"
    by (simp_all add: demo_reports_def)
  have d: "db_attempts demo_db = []" "sp_run demo_step = ''r1''" by (simp_all add: demo_wf)
  show ?thesis
    using failures_end_dead_lettered [OF demo_db_inv demo_db_step demo_db_free demo_reports_plain(1) l(1)
        demo_reports_plain(2) demo_reports_new] by (auto simp: l(2,3) d)
qed

theorem failure_follows_taxonomy_witness:
  "\<exists>r db'. recordStepFailure 7 (1 / 2) ''s1'' ''AUTH_ERROR'' ''denied'' 5 demo_db = (Inr r, db') \<and>
     fr_dead_lettered r"
proof -
  have "\<not> has_key sa_id (attempt_id ''s1'' (sp_attempt demo_step)) (db_attempts demo_db)"
    by (simp add: demo_wf has_key_def)
  from failure_follows_taxonomy [OF demo_db_inv demo_db_step(1) this,
      of "1 / 2" 5 7 "''AUTH_ERROR''" "''denied''"]
  show ?thesis by (auto simp: demo_db_step(2) max_time_def hasExhaustedRetries_def classifyRetry_def)
qed

theorem dead_letter_retried_once_witness:
  "\<exists>db'. retryDeadLetterFromCheckpoint ''d1'' 9 demo_db =
       (Inr \<lparr>dr_retried = True, dr_step = Some ''s1''\<rparr>, db') \<and>
     retryDeadLetterFromCheckpoint ''d1'' 10 db' = (Inr \<lparr>dr_retried = False, dr_step = Some ''s1''\<rparr>, db')"
proof -
  have "row_of dl_id (db_letters demo_db) ''d1'' = Some demo_letter" by (simp add: demo_wf row_of_def)
  from dead_letter_retried_once [OF this _ _ _ demo_db_step(1), of 9 10]
  show ?thesis by (auto simp: demo_letter_def dl_row_of_def)
qed

definition demo_defs :: "step_definition list" where
  "demo_defs = [\<lparr>sd_type = ''scan'', sd_key = ''k1'', sd_input = None\<rparr>,
     \<lparr>sd_type = ''score'', sd_key = ''k2'', sd_input = None\<rparr>]"

theorem ensure_steps_idempotent_witness:
  "\<exists>db1. ensureWorkflowSteps (\<lambda>s. s) ''r1'' demo_defs 5 demo_db = (Inr (), db1) \<and>
     length (db_steps db1) = 2 \<and>
     ensureWorkflowSteps (\<lambda>s. s) ''r1'' demo_defs 8 db1 = (Inr (), db1)"
proof -
  let ?e = "ensureWorkflowSteps (\<lambda>s. s) ''r1'' demo_defs 5 demo_db"
  have "fst ?e = Inr () \<and> length (db_steps (snd ?e)) = 2" by code_simp
  then obtain db1 where e: "?e = (Inr (), db1)" "length (db_steps db1) = 2" by (cases ?e) auto
  from ensure_steps_idempotent [OF demo_db_inv e(1), of db1 "[]" 8] e show ?thesis by simp
qed

theorem resume_finishes_run_witness:
  "rp_next (resumeFromCheckpoint ''r1'' (drive ''r1'' [\<lparr>cp_clock = 1, cp_hash = ''o'', cp_now = 2\<rparr>] demo_db)) = None"
proof -
  have "length (open_steps ''r1'' demo_db) \<le> length [\<lparr>cp_clock = 1, cp_hash = ''o'', cp_now = 2\<rparr>]"
    by (simp add: open_steps_def select_def claimable_def demo_wf)
  from resume_finishes_run [OF demo_db_inv this refl refl, of 0] show ?thesis by blast
qed

end
