(* ===== verification/Alert_Types.thy ===== *)
theory Alert_Types
  imports Js_Number Js_Date
begin

text \<open>
  The data of packages/alerts and packages/shared-schemas/src/alert.ts: alert classes and states,
  the candidate an alert policy judges, payloads, records and outbox entries, and the fingerprint
  and canonical JSON that identify them. \<open>sha\<close> is the hexadecimal SHA-256 digest, \<open>lc\<close> the host's
  \<open>localeCompare\<close>.
\<close>

section \<open>Enumerations\<close>

datatype alert_class =
    EARLY_WATCH | CONFIRMED_OPPORTUNITY | THESIS_STRENGTHENING | THESIS_WEAKENING
  | OPPORTUNITY_EXPIRED | RISK_ALERT

datatype actionability = ACTIONABLE | DETERIORATED | EXPIRED | CANCELLED | WATCH_ONLY

datatype priority = IMMEDIATE | HIGH_PRIORITY | NORMAL | LOW_PRIORITY | BATCH_DIGEST

datatype channel = Telegram | Admin_inbox | Chatgpt_scheduled | Shadow_log

datatype severity = SevLOW | SevMEDIUM | SevHIGH | SevCRITICAL

datatype lifecycle =
    LcDISCOVERED | LcQUALIFIED | LcEMERGING | LcCONFIRMED | LcMONITORING | LcDECAYING
  | LcREJECTED | LcARCHIVED

datatype risk_state = RkUNKNOWN | RkLOW | RkMEDIUM | RkHIGH | RkCRITICAL | RkCONFLICTING

datatype decision = DcALERT | DcWATCH | DcIGNORE | DcREJECT | DcINSUFFICIENT_DATA

datatype dependence = INDEPENDENT | PARTIALLY_DEPENDENT | HIGHLY_DEPENDENT | UNKNOWN_DEPENDENCE

datatype cost_mode = STRICT_FREE | BYOK_LIMITED | PERMISSIVE

datatype outbox_state = ObPENDING | ObDELIVERED | ObRETRY | ObEXPIRED | ObCANCELLED | ObFAILED

fun show_class :: "alert_class \<Rightarrow> string" where
  "show_class EARLY_WATCH = ''EARLY_WATCH''"
| "show_class CONFIRMED_OPPORTUNITY = ''CONFIRMED_OPPORTUNITY''"
| "show_class THESIS_STRENGTHENING = ''THESIS_STRENGTHENING''"
| "show_class THESIS_WEAKENING = ''THESIS_WEAKENING''"
| "show_class OPPORTUNITY_EXPIRED = ''OPPORTUNITY_EXPIRED''"
| "show_class RISK_ALERT = ''RISK_ALERT''"

fun show_actionability :: "actionability \<Rightarrow> string" where
  "show_actionability ACTIONABLE = ''ACTIONABLE''"
| "show_actionability DETERIORATED = ''DETERIORATED''"
| "show_actionability EXPIRED = ''EXPIRED''"
| "show_actionability CANCELLED = ''CANCELLED''"
| "show_actionability WATCH_ONLY = ''WATCH_ONLY''"

fun show_severity :: "severity \<Rightarrow> string" where
  "show_severity SevLOW = ''LOW''"
| "show_severity SevMEDIUM = ''MEDIUM''"
| "show_severity SevHIGH = ''HIGH''"
| "show_severity SevCRITICAL = ''CRITICAL''"

fun show_lifecycle :: "lifecycle \<Rightarrow> string" where
  "show_lifecycle LcDISCOVERED = ''DISCOVERED''"
| "show_lifecycle LcQUALIFIED = ''QUALIFIED''"
| "show_lifecycle LcEMERGING = ''EMERGING''"
| "show_lifecycle LcCONFIRMED = ''CONFIRMED''"
| "show_lifecycle LcMONITORING = ''MONITORING''"
| "show_lifecycle LcDECAYING = ''DECAYING''"
| "show_lifecycle LcREJECTED = ''REJECTED''"
| "show_lifecycle LcARCHIVED = ''ARCHIVED''"

fun show_risk :: "risk_state \<Rightarrow> string" where
  "show_risk RkUNKNOWN = ''UNKNOWN''"
| "show_risk RkLOW = ''LOW''"
| "show_risk RkMEDIUM = ''MEDIUM''"
| "show_risk RkHIGH = ''HIGH''"
| "show_risk RkCRITICAL = ''CRITICAL''"
| "show_risk RkCONFLICTING = ''CONFLICTING''"

fun show_dependence :: "dependence \<Rightarrow> string" where
  "show_dependence INDEPENDENT = ''INDEPENDENT''"
| "show_dependence PARTIALLY_DEPENDENT = ''PARTIALLY_DEPENDENT''"
| "show_dependence HIGHLY_DEPENDENT = ''HIGHLY_DEPENDENT''"
| "show_dependence UNKNOWN_DEPENDENCE = ''UNKNOWN_DEPENDENCE''"

section \<open>The candidate\<close>

record missing_item =
  mi_field :: string
  mi_reason :: string
  mi_severity :: severity

record tradability =
  td_executable :: bool
  td_slippage_bps :: rat
  td_fee_usd :: string
  td_net_return :: rat
  td_max_notional :: "string option"
  td_min_liquidity :: rat
  td_liquidity :: rat
  td_conservative_pass :: "bool option"
  td_p90_pass :: "bool option"
  td_reason :: "string option"

record security_input =
  se_mint_revoked :: bool
  se_freeze_disabled :: bool
  se_lp_locked :: bool
  se_critical_events :: "string list"
  se_findings :: "string list"

record freshness =
  fs_market :: string
  fs_holder :: string
  fs_security :: string

record cost_input =
  co_mode :: cost_mode
  co_usd :: rat
  co_unknown_ops :: int

record conflict =
  cf_description :: string
  cf_severity :: severity

record candidate =
  cd_asset :: string
  cd_chain :: string
  cd_contract :: string
  cd_symbol :: "string option"
  cd_as_of :: string
  cd_profile :: string
  cd_profile_version :: string
  cd_lifecycle :: lifecycle
  cd_risk :: risk_state
  cd_decision :: decision
  cd_score :: "rat option"
  cd_rank :: "int option"
  cd_coverage :: rat
  cd_independence :: rat
  cd_dependence :: dependence
  cd_stat_gate :: "bool option"
  cd_freshness :: freshness
  cd_tradability :: tradability
  cd_security :: security_input
  cd_cost :: cost_input
  cd_conflicts :: "conflict list"
  cd_positive :: "string list"
  cd_risks :: "string list"
  cd_missing :: "missing_item list"
  cd_thesis :: string
  cd_counter :: string
  cd_invalidation :: "string list"
  cd_evidence :: string
  cd_shadow :: bool
  cd_trace :: string

section \<open>Payloads, records, outbox entries\<close>

record execution_impact =
  ex_notional :: string
  ex_slippage_bps :: rat
  ex_fee_usd :: string
  ex_net_return :: rat
  ex_max_notional :: "string option"

record payload =
  pl_id :: string
  pl_asset :: string
  pl_chain :: string
  pl_contract :: string
  pl_symbol :: "string option"
  pl_class :: alert_class
  pl_lifecycle :: lifecycle
  pl_risk :: risk_state
  pl_profile :: string
  pl_profile_version :: string
  pl_as_of :: string
  pl_valid_until :: string
  pl_actionability :: actionability
  pl_score :: "rat option"
  pl_rank :: "int option"
  pl_thesis :: string
  pl_counter :: string
  pl_positive :: "string list"
  pl_risks :: "string list"
  pl_missing :: "missing_item list"
  pl_conflicts :: "string list"
  pl_invalidation :: "string list"
  pl_execution :: "execution_impact option"
  pl_parent :: "string option"
  pl_update_reason :: "string option"
  pl_evidence :: string
  pl_shadow :: bool
  pl_trace :: string

record alert_record =
  ar_id :: string
  ar_asset :: string
  ar_class :: alert_class
  ar_actionability :: actionability
  ar_fingerprint :: string
  ar_valid_until :: string
  ar_payload :: payload
  ar_json :: string
  ar_sha256 :: string
  ar_bytes :: nat
  ar_created_at :: string
  ar_shadow :: bool
  ar_trace :: string

record outbox_entry =
  ob_id :: string
  ob_topic :: string
  ob_payload :: payload
  ob_state :: outbox_state
  ob_attempts :: int
  ob_available_at :: string
  ob_trace :: string

section \<open>JSON form\<close>

definition opt_member :: "string \<Rightarrow> ('a \<Rightarrow> jval) \<Rightarrow> 'a option \<Rightarrow> (string \<times> jval) list" where
  "opt_member k f x = (case x of None \<Rightarrow> [] | Some v \<Rightarrow> [(k, f v)])"

definition nullable :: "('a \<Rightarrow> jval) \<Rightarrow> 'a option \<Rightarrow> jval" where
  "nullable f x = (case x of None \<Rightarrow> VNull | Some v \<Rightarrow> f v)"

definition missing_json :: "missing_item \<Rightarrow> jval" where
  "missing_json m = VObj [(''field'', VStr (mi_field m)), (''reason'', VStr (mi_reason m)),
     (''severity'', VStr (show_severity (mi_severity m)))]"

definition execution_json :: "execution_impact \<Rightarrow> jval" where
  "execution_json e = VObj ([(''notionalUsd'', VStr (ex_notional e)),
     (''expectedSlippageBps'', VNum (ex_slippage_bps e)), (''feeTotalUsd'', VStr (ex_fee_usd e)),
     (''netReturnEstimate'', VNum (ex_net_return e))] @
     opt_member ''maxExecutableNotionalUsd'' VStr (ex_max_notional e))"

definition payload_json :: "payload \<Rightarrow> jval" where
  "payload_json p = VObj (
     [(''alertId'', VStr (pl_id p)), (''assetId'', VStr (pl_asset p)), (''chainId'', VStr (pl_chain p)),
      (''contractAddress'', VStr (pl_contract p))] @
     opt_member ''symbol'' VStr (pl_symbol p) @
     [(''alertClass'', VStr (show_class (pl_class p))),
      (''lifecycleState'', VStr (show_lifecycle (pl_lifecycle p))),
      (''riskState'', VStr (show_risk (pl_risk p))), (''profileId'', VStr (pl_profile p)),
      (''profileVersion'', VStr (pl_profile_version p)), (''asOf'', VStr (pl_as_of p)),
      (''validUntil'', VStr (pl_valid_until p)),
      (''actionabilityState'', VStr (show_actionability (pl_actionability p))),
      (''score'', nullable VNum (pl_score p)), (''rank'', nullable (VNum \<circ> rat_of_int) (pl_rank p)),
      (''thesis'', VStr (pl_thesis p)), (''counterThesis'', VStr (pl_counter p)),
      (''positiveSignals'', VArr (map VStr (pl_positive p))),
      (''riskSignals'', VArr (map VStr (pl_risks p))),
      (''missingData'', VArr (map missing_json (pl_missing p))),
      (''providerConflicts'', VArr (map VStr (pl_conflicts p))),
      (''thesisInvalidationConditions'', VArr (map VStr (pl_invalidation p)))] @
     opt_member ''execution'' execution_json (pl_execution p) @
     opt_member ''parentAlertId'' VStr (pl_parent p) @
     opt_member ''updateReason'' VStr (pl_update_reason p) @
     [(''materialEvidenceFingerprint'', VStr (pl_evidence p)), (''shadowMode'', VBool (pl_shadow p)),
      (''traceId'', VStr (pl_trace p))])"

text \<open>\<open>computeAlertFingerprint\<close>.\<close>

definition computeAlertFingerprint ::
  "(string \<Rightarrow> string) \<Rightarrow> (string \<Rightarrow> string \<Rightarrow> int) \<Rightarrow> string \<Rightarrow> string \<Rightarrow> alert_class \<Rightarrow> lifecycle \<Rightarrow>
   risk_state \<Rightarrow> string \<Rightarrow> string" where
  "computeAlertFingerprint sha lc asset profile cls lifecycle risk evidence =
     sha (stringify_val (canonicalize lc (VObj [
       (''assetId'', VStr asset), (''profileId'', VStr profile), (''alertClass'', VStr (show_class cls)),
       (''lifecycleState'', VStr (show_lifecycle lifecycle)), (''riskState'', VStr (show_risk risk)),
       (''materialEvidenceFingerprint'', VStr evidence)])))"

text \<open>The part every branch of the policy and of the lifecycle ends with: the canonical JSON of the
  payload, its digest and size, the record and a pending outbox entry.\<close>

definition seal_record ::
  "(string \<Rightarrow> string) \<Rightarrow> (string \<Rightarrow> string \<Rightarrow> int) \<Rightarrow> string \<Rightarrow> string \<Rightarrow> string \<Rightarrow> string \<Rightarrow>
   payload \<Rightarrow> alert_record" where
  "seal_record sha lc asset fingerprint validUntil createdAt p =
     (let canonicalJson = stringify_val (canonicalize lc (payload_json p)) in
      \<lparr>ar_id = pl_id p, ar_asset = asset, ar_class = pl_class p,
       ar_actionability = pl_actionability p, ar_fingerprint = fingerprint,
       ar_valid_until = validUntil, ar_payload = p, ar_json = canonicalJson,
       ar_sha256 = sha canonicalJson, ar_bytes = utf8_bytes canonicalJson,
       ar_created_at = createdAt, ar_shadow = pl_shadow p, ar_trace = pl_trace p\<rparr>)"

definition pending_entry :: "string \<Rightarrow> string \<Rightarrow> payload \<Rightarrow> outbox_entry" where
  "pending_entry kind nowIso p =
     \<lparr>ob_id = ''outbox_'' @ pl_id p,
      ob_topic = (if pl_shadow p then ''alert.shadow.'' else ''alert.production.'') @ kind,
      ob_payload = p, ob_state = ObPENDING, ob_attempts = 0, ob_available_at = nowIso,
      ob_trace = pl_trace p\<rparr>"

lemmas alert_build_defs = seal_record_def pending_entry_def Let_def

end
