(* ===== verification/Alert_Guardrails.thy ===== *)
theory Alert_Guardrails
  imports Alert_Types
begin

text \<open>
  packages/alerts/src/guardrails.ts: the forbidden high-conviction phrases, the EARLY_WATCH
  guardrails and the semantic integrity check of a payload. The regular expressions are sequences
  of literals, \<open>\s+\<close> and \<open>\d+\<close> between word boundaries, matched without regard to case; no
  alternative of theirs needs backtracking, so a sequence is matched greedily.
\<close>

section \<open>Forbidden phrases\<close>

datatype pat = Lit string | Spaces | Digits

definition is_word_char :: "char \<Rightarrow> bool" where
  "is_word_char c =
     (let n = (of_char c :: nat) in
      48 \<le> n \<and> n \<le> 57 \<or> 65 \<le> n \<and> n \<le> 90 \<or> 97 \<le> n \<and> n \<le> 122 \<or> n = 95)"

definition lower_char :: "char \<Rightarrow> char" where
  "lower_char c = (let n = (of_char c :: nat) in if 65 \<le> n \<and> n \<le> 90 then char_of (n + 32) else c)"

definition boundary :: "char option \<Rightarrow> string \<Rightarrow> bool" where
  "boundary prev rest =
     ((case prev of None \<Rightarrow> False | Some c \<Rightarrow> is_word_char c) \<noteq>
      (case rest of [] \<Rightarrow> False | c # _ \<Rightarrow> is_word_char c))"

text \<open>Matching one sequence at a position: the last consumed character and the remaining text.\<close>

fun match_lit :: "string \<Rightarrow> char option \<Rightarrow> string \<Rightarrow> (char option \<times> string) option" where
  "match_lit [] prev s = Some (prev, s)"
| "match_lit (p # ps) prev [] = None"
| "match_lit (p # ps) prev (c # cs) =
     (if lower_char c = lower_char p then match_lit ps (Some c) cs else None)"

definition match_many :: "(char \<Rightarrow> bool) \<Rightarrow> string \<Rightarrow> (char option \<times> string) option" where
  "match_many P s =
     (case takeWhile P s of [] \<Rightarrow> None | w \<Rightarrow> Some (Some (last w), dropWhile P s))"

fun match_seq :: "pat list \<Rightarrow> char option \<Rightarrow> string \<Rightarrow> (char option \<times> string) option" where
  "match_seq [] prev s = Some (prev, s)"
| "match_seq (Lit w # ps) prev s =
     (case match_lit w prev s of None \<Rightarrow> None | Some (q, r) \<Rightarrow> match_seq ps q r)"
| "match_seq (Spaces # ps) prev s =
     (case match_many js_space s of None \<Rightarrow> None | Some (q, r) \<Rightarrow> match_seq ps q r)"
| "match_seq (Digits # ps) prev s =
     (case match_many is_digit s of None \<Rightarrow> None | Some (q, r) \<Rightarrow> match_seq ps q r)"

definition match_word_seq :: "pat list \<Rightarrow> char option \<Rightarrow> string \<Rightarrow> bool" where
  "match_word_seq ps prev s =
     (boundary prev s \<and>
      (case match_seq ps prev s of None \<Rightarrow> False | Some (q, r) \<Rightarrow> boundary q r))"

fun search :: "pat list \<Rightarrow> char option \<Rightarrow> string \<Rightarrow> bool" where
  "search ps prev [] = match_word_seq ps prev []"
| "search ps prev (c # cs) = (match_word_seq ps prev (c # cs) \<or> search ps (Some c) cs)"

definition forbidden_patterns :: "pat list list" where
  "forbidden_patterns =
     map (\<lambda>w. [Lit w])
       [''strong buy'', ''buy now'', ''guaranteed profit'', ''guaranteed return'', ''can'' @ [CHR 0x27] @ ''t lose'',
        ''moonshot guaranteed'', ''100x gem'', ''1000x gem'', ''sure thing'', ''massive breakout'',
        ''high conviction'', ''certain profit'', ''risk-free'', ''free money'', ''target return''] @
     [[Lit ''guaranteed'', Spaces, Digits, Lit ''x''], [Lit ''easy'', Spaces, Digits, Lit ''x''],
      [Lit ''100%'', Spaces, Lit ''guaranteed''], [Lit ''100%'', Spaces, Lit ''win'']]"

definition containsHighConvictionLanguage :: "string \<Rightarrow> bool" where
  "containsHighConvictionLanguage s =
     (if s = [] then False else list_ex (\<lambda>ps. search ps None s) forbidden_patterns)"

definition assertNotificationSource :: "bool \<Rightarrow> unit result" where
  "assertNotificationSource model_output =
     throw_if model_output
       ''MODEL_DIRECT_NOTIFICATION_PROHIBITED: Alerts must pass deterministic policy validation'' (Inr ())"

section \<open>EARLY_WATCH guardrails\<close>

definition minutes_between :: "int \<Rightarrow> int \<Rightarrow> rat" where
  "minutes_between a b = rat_of_int (b - a) / 60000"

definition ttl_violations :: "int option \<Rightarrow> int option \<Rightarrow> rat \<Rightarrow> string list" where
  "ttl_violations start stop ttl =
     (case (start, stop) of
        (Some a, Some b) \<Rightarrow>
          (let d = minutes_between a b in
           (if d \<le> 0 then [''VALID_UNTIL_MUST_BE_AFTER_AS_OF''] else []) @
           (if ttl + 1 / 10 < d
            then [''EARLY_WATCH_TTL_EXCEEDS_LIMIT:'' @ show_num d @ ''m_max_'' @ show_num ttl @ ''m'']
            else []))
      | _ \<Rightarrow> [''INVALID_ISO_TIMESTAMP''])"

definition item_violations :: "missing_item \<Rightarrow> string list" where
  "item_violations m =
     (if mi_field m = [] \<or> length (trim (mi_field m)) = 0 then [''MISSING_DATA_FIELD_REQUIRED''] else []) @
     (if mi_reason m = [] \<or> length (trim (mi_reason m)) = 0 then [''MISSING_DATA_REASON_REQUIRED''] else []) @
     (if show_severity (mi_severity m) \<notin> {''LOW'', ''MEDIUM'', ''HIGH'', ''CRITICAL''}
      then [''MISSING_DATA_SEVERITY_INVALID''] else [])"

definition validateEarlyWatchGuardrails ::
  "string \<Rightarrow> string \<Rightarrow> missing_item list \<Rightarrow> string \<Rightarrow> string \<Rightarrow> string list \<Rightarrow> rat \<Rightarrow> string list" where
  "validateEarlyWatchGuardrails asOf validUntil missing thesis counter positive ttl =
     ttl_violations (dateParse asOf) (dateParse validUntil) ttl @
     (if missing = [] then [''EARLY_WATCH_EXPLICIT_MISSING_DATA_REQUIRED'']
      else concat (map item_violations missing)) @
     (if containsHighConvictionLanguage thesis then [''EARLY_WATCH_HIGH_CONVICTION_THESIS_PROHIBITED''] else []) @
     (if counter \<noteq> [] \<and> containsHighConvictionLanguage counter
      then [''EARLY_WATCH_HIGH_CONVICTION_COUNTER_THESIS_PROHIBITED''] else []) @
     concat (map (\<lambda>s. if containsHighConvictionLanguage s
        then [''EARLY_WATCH_HIGH_CONVICTION_SIGNAL_PROHIBITED:'' @ s] else []) positive)"

section \<open>Semantic integrity\<close>

definition time_violations :: "int option \<Rightarrow> int option \<Rightarrow> rat \<Rightarrow> string list" where
  "time_violations asOf validUntil maxTtl =
     (case (asOf, validUntil) of
        (Some a, Some v) \<Rightarrow>
          if v < a then [''AS_OF_AFTER_VALID_UNTIL'']
          else if maxTtl < minutes_between a v
          then [''ALERT_TTL_EXCEEDS_MAX_LIMIT:'' @ show_num (minutes_between a v) @ ''m_max_'' @
                 show_num maxTtl @ ''m'']
          else []
      | _ \<Rightarrow> [''INVALID_ISO_TIMESTAMPS''])"

definition validateAlertSemanticIntegrity :: "payload \<Rightarrow> rat \<Rightarrow> rat \<Rightarrow> string list" where
  "validateAlertSemanticIntegrity p maxTtl earlyTtl =
     time_violations (dateParse (pl_as_of p)) (dateParse (pl_valid_until p)) maxTtl @
     (if containsHighConvictionLanguage (pl_thesis p)
      then [''HIGH_CONVICTION_LANGUAGE_DETECTED_IN_THESIS''] else []) @
     (if pl_class p = EARLY_WATCH then
        (if pl_actionability p \<noteq> WATCH_ONLY
         then [''EARLY_WATCH_ACTIONABILITY_MUST_BE_WATCH_ONLY''] else []) @
        validateEarlyWatchGuardrails (pl_as_of p) (pl_valid_until p) (pl_missing p) (pl_thesis p)
          (pl_counter p) (pl_positive p) earlyTtl
      else []) @
     (if pl_class p = RISK_ALERT then
        (if pl_risk p \<noteq> RkHIGH \<and> pl_risk p \<noteq> RkCRITICAL \<and> pl_risk p \<noteq> RkCONFLICTING
         then [''RISK_ALERT_REQUIRES_ELEVATED_RISK_STATE''] else [])
      else []) @
     (if pl_class p = CONFIRMED_OPPORTUNITY then
        (if pl_risk p = RkCRITICAL \<or> pl_risk p = RkCONFLICTING
         then [''CONFIRMED_OPPORTUNITY_CANNOT_HAVE_CRITICAL_OR_CONFLICTING_RISK''] else []) @
        (if pl_actionability p \<noteq> ACTIONABLE then [''CONFIRMED_OPPORTUNITY_MUST_BE_ACTIONABLE''] else [])
      else [])"

section \<open>Facts\<close>

lemma severity_names: "show_severity s \<in> {''LOW'', ''MEDIUM'', ''HIGH'', ''CRITICAL''}"
  by (cases s) simp_all

lemma item_violations_Nil:
  "item_violations m = [] \<longleftrightarrow> trim (mi_field m) \<noteq> [] \<and> trim (mi_reason m) \<noteq> []"
  using severity_names [of "mi_severity m"] by (auto simp: item_violations_def trim_def)

lemma containsHighConvictionLanguage_Nil [simp]: "\<not> containsHighConvictionLanguage []"
  by (simp add: containsHighConvictionLanguage_def)

lemma early_guardrails_Nil:
  "validateEarlyWatchGuardrails a v missing th ct pos ttl = [] \<longleftrightarrow>
     (\<exists>x y. dateParse a = Some x \<and> dateParse v = Some y \<and> 0 < minutes_between x y \<and>
        minutes_between x y \<le> ttl + 1 / 10) \<and>
     missing \<noteq> [] \<and> (\<forall>m\<in>set missing. trim (mi_field m) \<noteq> [] \<and> trim (mi_reason m) \<noteq> []) \<and>
     \<not> containsHighConvictionLanguage th \<and> \<not> containsHighConvictionLanguage ct \<and>
     (\<forall>s\<in>set pos. \<not> containsHighConvictionLanguage s)"
  by (auto simp: validateEarlyWatchGuardrails_def ttl_violations_def Let_def item_violations_Nil
      split: option.splits if_splits)

text \<open>The EARLY_WATCH guardrails accept exactly the watches with valid, increasing times within
  the limit (a tenth of a minute of tolerance), at least one fully described missing item and no
  high-conviction phrase in thesis, counter-thesis or signals.\<close>

theorem early_watch_guardrails_exact:
  "validateEarlyWatchGuardrails a v missing th ct pos ttl = [] \<longleftrightarrow>
     (\<exists>x y. dateParse a = Some x \<and> dateParse v = Some y \<and> x < y \<and>
        10 * rat_of_int (y - x) \<le> (10 * ttl + 1) * 60000) \<and>
     missing \<noteq> [] \<and> list_all (\<lambda>m. trim (mi_field m) \<noteq> [] \<and> trim (mi_reason m) \<noteq> []) missing \<and>
     \<not> list_ex containsHighConvictionLanguage (th # ct # pos)"
proof -
  have "0 < minutes_between x y \<longleftrightarrow> x < y" for x y by (simp add: minutes_between_def)
  moreover have "minutes_between x y \<le> ttl + 1 / 10 \<longleftrightarrow> 10 * rat_of_int (y - x) \<le> (10 * ttl + 1) * 60000" for x y
    by (simp add: minutes_between_def field_simps)
  ultimately show ?thesis
    by (simp add: early_guardrails_Nil list_all_iff list_ex_iff)
qed

end
