(* ===== verification/Alert_Policy.thy ===== *)
theory Alert_Policy
  imports Alert_Guardrails
begin

text \<open>
  \<open>evaluateAlertPolicy\<close> of packages/alerts/src/policy.ts: the checks collect rejection reasons,
  then the candidate becomes a RISK_ALERT, a CONFIRMED_OPPORTUNITY or an EARLY_WATCH, or is turned
  down with the sorted reasons. The only exception of the code is the \<open>RangeError\<close> of
  \<open>toISOString\<close> on an invalid date.
\<close>

section \<open>Policy\<close>

record quiet_hours =
  qh_enabled :: bool
  qh_start :: "int option"
  qh_end :: "int option"

datatype block_severity = BlockLOW | BlockMEDIUM | BlockHIGH | BlockCRITICAL | BlockNONE

record policy =
  po_id :: string
  po_version :: int
  po_auto_send :: bool
  po_min_coverage :: rat
  po_min_independence :: rat
  po_max_dependence :: dependence
  po_max_market_age :: rat
  po_max_holder_age :: rat
  po_max_security_age :: rat
  po_require_conservative :: bool
  po_require_p90 :: bool
  po_require_stat_gate :: bool
  po_block_critical :: bool
  po_block_conflict :: block_severity
  po_cooldown :: rat
  po_max_confirmed :: int
  po_max_watch :: int
  po_watch_ttl :: int
  po_watch_cooldown :: rat
  po_quiet :: quiet_hours
  po_cost :: cost_mode

definition DEFAULT_ALERT_POLICY_CONFIG :: policy where
  "DEFAULT_ALERT_POLICY_CONFIG =
     \<lparr>po_id = ''opportunity-alert'', po_version = 2, po_auto_send = False, po_min_coverage = 3 / 4,
      po_min_independence = 2, po_max_dependence = PARTIALLY_DEPENDENT, po_max_market_age = 180,
      po_max_holder_age = 3600, po_max_security_age = 21600, po_require_conservative = True,
      po_require_p90 = True, po_require_stat_gate = True, po_block_critical = True,
      po_block_conflict = BlockHIGH, po_cooldown = 360, po_max_confirmed = 5, po_max_watch = 10,
      po_watch_ttl = 30, po_watch_cooldown = 60,
      po_quiet = \<lparr>qh_enabled = False, qh_start = None, qh_end = None\<rparr>, po_cost = STRICT_FREE\<rparr>"

record policy_context =
  cx_alerts_today :: "int option"
  cx_watches_today :: "int option"

section \<open>The checks\<close>

definition push_if :: "bool \<Rightarrow> 'a \<Rightarrow> 'a list" where
  "push_if b x = (if b then [x] else [])"

lemma push_if_simps [simp]: "push_if True x = [x]" "push_if False x = []" "push_if b x = [] \<longleftrightarrow> \<not> b"
  by (simp_all add: push_if_def)

definition conflict_blocks :: "block_severity \<Rightarrow> severity \<Rightarrow> bool" where
  "conflict_blocks b s =
     (case b of
        BlockNONE \<Rightarrow> False
      | BlockLOW \<Rightarrow> True
      | BlockMEDIUM \<Rightarrow> s = SevMEDIUM \<or> s = SevHIGH \<or> s = SevCRITICAL
      | BlockHIGH \<Rightarrow> s = SevHIGH \<or> s = SevCRITICAL
      | BlockCRITICAL \<Rightarrow> s = SevCRITICAL)"

fun dependence_rank :: "dependence \<Rightarrow> nat" where
  "dependence_rank INDEPENDENT = 0"
| "dependence_rank PARTIALLY_DEPENDENT = 1"
| "dependence_rank HIGHLY_DEPENDENT = 2"
| "dependence_rank UNKNOWN_DEPENDENCE = 3"

text \<open>Age in seconds; \<open>None\<close> (\<open>NaN\<close>) is not above any limit.\<close>

definition age_seconds :: "int option \<Rightarrow> string \<Rightarrow> rat option" where
  "age_seconds asOf observed =
     (case (asOf, dateParse observed) of
        (Some a, Some b) \<Rightarrow> Some (rat_of_int (a - b) / 1000)
      | _ \<Rightarrow> None)"

definition too_old :: "rat option \<Rightarrow> rat \<Rightarrow> bool" where
  "too_old age limit = (case age of None \<Rightarrow> False | Some a \<Rightarrow> limit < a)"

definition stale_reason :: "string \<Rightarrow> rat option \<Rightarrow> rat \<Rightarrow> string list" where
  "stale_reason label age limit =
     (case age of
        None \<Rightarrow> []
      | Some a \<Rightarrow> push_if (limit < a) (label @ '':'' @ show_num a @ ''s_max_'' @ show_num limit @ ''s''))"

definition base_reasons :: "policy \<Rightarrow> candidate \<Rightarrow> string list" where
  "base_reasons po c =
     (let asOf = dateParse (cd_as_of c); f = cd_freshness c; se = cd_security c;
          td = cd_tradability c; co = cd_cost c in
      push_if ((cd_risk c = RkCRITICAL \<or> cd_risk c = RkCONFLICTING) \<and> cd_decision c = DcALERT \<and>
            cd_lifecycle c = LcCONFIRMED) ''CRITICAL_OR_CONFLICTING_RISK_BLOCKS_OPPORTUNITY'' @
      push_if (list_ex (\<lambda>x. conflict_blocks (po_block_conflict po) (cf_severity x)) (cd_conflicts c))
        ''UNRESOLVED_PROVIDER_CONFLICT_EXCEEDS_THRESHOLD'' @
      stale_reason ''MARKET_DATA_STALE'' (age_seconds asOf (fs_market f)) (po_max_market_age po) @
      stale_reason ''HOLDER_DATA_STALE'' (age_seconds asOf (fs_holder f)) (po_max_holder_age po) @
      stale_reason ''SECURITY_DATA_STALE'' (age_seconds asOf (fs_security f)) (po_max_security_age po) @
      push_if (cd_coverage c < po_min_coverage po)
        (''DATA_COVERAGE_BELOW_MINIMUM:'' @ show_num (cd_coverage c) @ ''_min_'' @ show_num (po_min_coverage po)) @
      push_if (cd_independence c < po_min_independence po)
        (''INSUFFICIENT_INDEPENDENCE_GROUPS:'' @ show_num (cd_independence c) @ ''_min_'' @
         show_num (po_min_independence po)) @
      push_if (dependence_rank (po_max_dependence po) < dependence_rank (cd_dependence c))
        (''SOURCE_DEPENDENCE_EXCEEDS_MAXIMUM:'' @ show_dependence (cd_dependence c) @ ''_max_'' @
         show_dependence (po_max_dependence po)) @
      push_if (\<not> se_mint_revoked se) ''SECURITY_MINT_AUTHORITY_NOT_REVOKED'' @
      push_if (\<not> se_freeze_disabled se) ''SECURITY_FREEZE_AUTHORITY_ACTIVE'' @
      push_if (\<not> se_lp_locked se) ''SECURITY_LP_NOT_LOCKED_OR_BURNED'' @
      push_if (se_critical_events se \<noteq> [])
        (''SECURITY_CRITICAL_EVENTS_PRESENT:'' @ join_with '','' (se_critical_events se)) @
      push_if (\<not> td_executable td)
        (''TRADABILITY_NOT_EXECUTABLE:'' @ (case td_reason td of None \<Rightarrow> ''UNKNOWN'' | Some r \<Rightarrow> r)) @
      push_if (td_liquidity td < td_min_liquidity td)
        (''INSUFFICIENT_LIQUIDITY:'' @ show_num (td_liquidity td) @ ''_min_'' @ show_num (td_min_liquidity td)) @
      push_if (td_net_return td \<le> 0) (''NET_RETURN_NON_POSITIVE:'' @ show_num (td_net_return td)) @
      push_if (po_require_conservative po \<and> td_conservative_pass td = Some False)
        ''CONSERVATIVE_EXECUTION_GATE_FAILED'' @
      push_if (po_require_p90 po \<and> td_p90_pass td = Some False) ''P90_ACTION_DELAY_GATE_FAILED'' @
      push_if (po_require_stat_gate po \<and> cd_stat_gate c = Some False) ''ACTIVE_STATISTICAL_GATE_FAILED'' @
      push_if (po_cost po = STRICT_FREE \<and> 0 < co_usd co)
        (''COST_POLICY_VIOLATION_PAID_OP:'' @ show_num (co_usd co) @ ''usd'') @
      push_if (po_cost po = STRICT_FREE \<and> 0 < co_unknown_ops co)
        (''COST_POLICY_VIOLATION_UNKNOWN_COST:'' @ show_int (co_unknown_ops co)))"

definition stale_items :: "policy \<Rightarrow> candidate \<Rightarrow> missing_item list" where
  "stale_items po c =
     (let asOf = dateParse (cd_as_of c); f = cd_freshness c in
      push_if (too_old (age_seconds asOf (fs_market f)) (po_max_market_age po))
        \<lparr>mi_field = ''marketData'', mi_reason = ''Market observation exceeded maximum freshness limit'',
         mi_severity = SevHIGH\<rparr> @
      push_if (too_old (age_seconds asOf (fs_holder f)) (po_max_holder_age po))
        \<lparr>mi_field = ''holderData'', mi_reason = ''Holder observation exceeded maximum freshness limit'',
         mi_severity = SevMEDIUM\<rparr> @
      push_if (too_old (age_seconds asOf (fs_security f)) (po_max_security_age po))
        \<lparr>mi_field = ''securityData'', mi_reason = ''Security observation exceeded maximum freshness limit'',
         mi_severity = SevHIGH\<rparr>)"

text \<open>\<open>new Date(asOfMs).getUTCHours()\<close>; with \<open>NaN\<close> no hour is quiet.\<close>

definition in_quiet_hours :: "quiet_hours \<Rightarrow> int option \<Rightarrow> bool" where
  "in_quiet_hours q asOf =
     (case asOf of
        None \<Rightarrow> False
      | Some t \<Rightarrow>
          (let h = t div 3600000 mod 24;
               startH = (case qh_start q of None \<Rightarrow> 22 | Some x \<Rightarrow> x);
               endH = (case qh_end q of None \<Rightarrow> 6 | Some x \<Rightarrow> x)
           in if startH \<le> endH then startH \<le> h \<and> h < endH else startH \<le> h \<or> h < endH))"

definition quiet_reasons :: "policy \<Rightarrow> candidate \<Rightarrow> string list" where
  "quiet_reasons po c =
     push_if (qh_enabled (po_quiet po) \<and> in_quiet_hours (po_quiet po) (dateParse (cd_as_of c)) \<and>
           cd_decision c = DcALERT) ''QUIET_HOURS_ACTIVE''"

definition score_dropped :: "rat option \<Rightarrow> rat option \<Rightarrow> bool" where
  "score_dropped prior now =
     (case (prior, now) of (Some p, Some n) \<Rightarrow> n < p * (7 / 10) | _ \<Rightarrow> False)"

definition cooldown_reasons :: "policy \<Rightarrow> candidate \<Rightarrow> alert_record option \<Rightarrow> string list \<Rightarrow> string list" where
  "cooldown_reasons po c prior reasons =
     (case prior of
        None \<Rightarrow> []
      | Some a \<Rightarrow>
          if ar_asset a = cd_asset c then
            (case (dateParse (cd_as_of c), dateParse (ar_created_at a)) of
               (Some now, Some before) \<Rightarrow>
                 (let elapsed = minutes_between before now;
                      confirmed = (cd_decision c = DcALERT \<and> reasons = []);
                      limit = (if confirmed then po_cooldown po else po_watch_cooldown po);
                      worse = (cd_risk c = RkCRITICAL \<or> cd_risk c = RkCONFLICTING \<or>
                        \<not> td_executable (cd_tradability c) \<or>
                        score_dropped (pl_score (ar_payload a)) (cd_score c))
                  in push_if (elapsed < limit \<and> \<not> worse \<and> pl_evidence (ar_payload a) = cd_evidence c)
                       (''COOLDOWN_ACTIVE:'' @ show_int (math_round elapsed) @ ''m_required_'' @
                        show_num limit @ ''m''))
             | _ \<Rightarrow> [])
          else [])"

definition limit_reasons :: "policy \<Rightarrow> policy_context \<Rightarrow> string list" where
  "limit_reasons po cx =
     (case cx_alerts_today cx of
        None \<Rightarrow> []
      | Some n \<Rightarrow> push_if (po_max_confirmed po \<le> n)
          (''DAILY_CONFIRMED_ALERT_LIMIT_REACHED:'' @ show_int n @ ''_max_'' @ show_int (po_max_confirmed po)))"

definition policy_reasons :: "policy \<Rightarrow> candidate \<Rightarrow> alert_record option \<Rightarrow> policy_context \<Rightarrow> string list" where
  "policy_reasons po c prior cx =
     (let rs = base_reasons po c @ quiet_reasons po c in
      rs @ cooldown_reasons po c prior rs @ limit_reasons po cx)"

section \<open>The branches\<close>

record evaluation =
  ev_passed :: bool
  ev_class :: "alert_class option"
  ev_actionability :: "actionability option"
  ev_reasons :: "string list"
  ev_missing :: "missing_item list"
  ev_payload :: "payload option"
  ev_record :: "alert_record option"
  ev_outbox :: "outbox_entry option"

definition rejected :: "string list \<Rightarrow> missing_item list \<Rightarrow> evaluation" where
  "rejected reasons missing = \<lparr>ev_passed = False, ev_class = None, ev_actionability = None,
     ev_reasons = reasons, ev_missing = missing, ev_payload = None, ev_record = None, ev_outbox = None\<rparr>"

definition sort_missing :: "(string \<Rightarrow> string \<Rightarrow> int) \<Rightarrow> missing_item list \<Rightarrow> missing_item list" where
  "sort_missing lc ms = js_sort (\<lambda>a b. lc (mi_field a) (mi_field b)) ms"

definition alert_id_of :: "(string \<Rightarrow> string) \<Rightarrow> string \<Rightarrow> string \<Rightarrow> candidate \<Rightarrow> string" where
  "alert_id_of sha prefix tag c =
     prefix @ take 24 (sha (cd_asset c @ '':'' @ tag @ '':'' @ cd_as_of c))"

definition candidate_payload ::
  "(string \<Rightarrow> string \<Rightarrow> int) \<Rightarrow> candidate \<Rightarrow> string \<Rightarrow> alert_class \<Rightarrow> actionability \<Rightarrow> string \<Rightarrow>
   missing_item list \<Rightarrow> string option \<Rightarrow> payload" where
  "candidate_payload lc c alertId cls act validUntil missing parent =
     \<lparr>pl_id = alertId, pl_asset = cd_asset c, pl_chain = cd_chain c, pl_contract = cd_contract c,
      pl_symbol = cd_symbol c, pl_class = cls, pl_lifecycle = cd_lifecycle c, pl_risk = cd_risk c,
      pl_profile = cd_profile c, pl_profile_version = cd_profile_version c, pl_as_of = cd_as_of c,
      pl_valid_until = validUntil, pl_actionability = act, pl_score = cd_score c, pl_rank = cd_rank c,
      pl_thesis = cd_thesis c, pl_counter = cd_counter c, pl_positive = cd_positive c,
      pl_risks = cd_risks c, pl_missing = sort_missing lc missing,
      pl_conflicts = map (\<lambda>x. show_severity (cf_severity x) @ '':'' @ cf_description x) (cd_conflicts c),
      pl_invalidation = cd_invalidation c, pl_execution = None, pl_parent = parent,
      pl_update_reason = None, pl_evidence = cd_evidence c, pl_shadow = cd_shadow c,
      pl_trace = cd_trace c\<rparr>"

definition emit_alert ::
  "(string \<Rightarrow> string) \<Rightarrow> (string \<Rightarrow> string \<Rightarrow> int) \<Rightarrow> candidate \<Rightarrow> string \<Rightarrow> payload \<Rightarrow> evaluation" where
  "emit_alert sha lc c kind p =
     (let fp = computeAlertFingerprint sha lc (cd_asset c) (cd_profile c) (pl_class p)
                 (cd_lifecycle c) (cd_risk c) (cd_evidence c) in
      \<lparr>ev_passed = True, ev_class = Some (pl_class p), ev_actionability = Some (pl_actionability p),
       ev_reasons = [], ev_missing = pl_missing p, ev_payload = Some p,
       ev_record = Some (seal_record sha lc (cd_asset c) fp (pl_valid_until p) (cd_as_of c) p),
       ev_outbox = Some (pending_entry kind (cd_as_of c) p)\<rparr>)"

definition execution_of :: "tradability \<Rightarrow> execution_impact" where
  "execution_of td =
     \<lparr>ex_notional = (if td_min_liquidity td \<noteq> 0 then show_num (td_min_liquidity td) else ''1000''),
      ex_slippage_bps = td_slippage_bps td, ex_fee_usd = td_fee_usd td,
      ex_net_return = td_net_return td, ex_max_notional = td_max_notional td\<rparr>"

definition risk_branch :: "candidate \<Rightarrow> bool" where
  "risk_branch c \<longleftrightarrow>
     (cd_risk c = RkCRITICAL \<or> cd_risk c = RkHIGH \<or> se_critical_events (cd_security c) \<noteq> []) \<and>
     (cd_decision c = DcREJECT \<or> cd_decision c = DcALERT \<or> cd_decision c = DcWATCH)"

definition confirmed_branch :: "candidate \<Rightarrow> string list \<Rightarrow> bool" where
  "confirmed_branch c reasons \<longleftrightarrow> cd_decision c = DcALERT \<and> reasons = [] \<and> cd_lifecycle c = LcCONFIRMED"

definition early_watch_eligible :: "policy \<Rightarrow> candidate \<Rightarrow> policy_context \<Rightarrow> missing_item list \<Rightarrow> bool" where
  "early_watch_eligible po c cx missing \<longleftrightarrow>
     (cd_decision c = DcWATCH \<or> cd_lifecycle c = LcEMERGING \<or> cd_lifecycle c = LcQUALIFIED) \<and>
     cd_risk c \<noteq> RkCRITICAL \<and> cd_risk c \<noteq> RkCONFLICTING \<and> 0 < length missing \<and>
     (case cx_watches_today cx of None \<Rightarrow> True | Some n \<Rightarrow> n < po_max_watch po)"

text \<open>\<open>new Date(asOfMs + minutes * 60 * 1000).toISOString()\<close>.\<close>

definition valid_until :: "candidate \<Rightarrow> int \<Rightarrow> string result" where
  "valid_until c minutes = toISO (map_option (\<lambda>t. t + minutes * 60000) (dateParse (cd_as_of c)))"

definition evaluateAlertPolicy ::
  "(string \<Rightarrow> string) \<Rightarrow> (string \<Rightarrow> string \<Rightarrow> int) \<Rightarrow> policy \<Rightarrow> candidate \<Rightarrow> alert_record option \<Rightarrow>
   policy_context \<Rightarrow> evaluation result" where
  "evaluateAlertPolicy sha lc po c prior cx =
     (let reasons = policy_reasons po c prior cx;
          missing = cd_missing c @ stale_items po c;
          parent = map_option ar_id prior
      in if risk_branch c then
           bind_result (valid_until c (24 * 60)) (\<lambda>vu.
             Inr (emit_alert sha lc c ''risk''
               ((candidate_payload lc c (alert_id_of sha ''alt_risk_'' ''risk'' c) RISK_ALERT ACTIONABLE
                   vu missing parent)
                \<lparr>pl_risks := (if cd_risks c \<noteq> [] then cd_risks c else se_critical_events (cd_security c))\<rparr>)))
         else if confirmed_branch c reasons then
           (if containsHighConvictionLanguage (cd_thesis c)
            then Inr (rejected [''HIGH_CONVICTION_LANGUAGE_DETECTED_IN_THESIS''] missing)
            else bind_result (valid_until c (6 * 60)) (\<lambda>vu.
              Inr (emit_alert sha lc c ''opportunity''
                ((candidate_payload lc c (alert_id_of sha ''alt_opp_'' ''conf'' c) CONFIRMED_OPPORTUNITY
                    ACTIONABLE vu missing parent)
                 \<lparr>pl_execution := Some (execution_of (cd_tradability c))\<rparr>))))
         else if early_watch_eligible po c cx missing then
           bind_result (valid_until c (po_watch_ttl po)) (\<lambda>vu.
             (let violations = validateEarlyWatchGuardrails (cd_as_of c) vu missing (cd_thesis c)
                    (cd_counter c) (cd_positive c) (rat_of_int (po_watch_ttl po))
              in if violations = [] then
                   Inr (emit_alert sha lc c ''watch''
                     (candidate_payload lc c (alert_id_of sha ''alt_watch_'' ''watch'' c) EARLY_WATCH
                        WATCH_ONLY vu missing parent))
                 else Inr (rejected (sort (remdups (reasons @ violations))) missing)))
         else Inr (rejected (sort (remdups reasons)) missing))"

section \<open>What the gates say\<close>

text \<open>The gates of a confirmed opportunity, stated over the candidate rather than over reasons.\<close>

definition fresh_enough :: "policy \<Rightarrow> candidate \<Rightarrow> bool" where
  "fresh_enough po c \<longleftrightarrow>
     (let asOf = dateParse (cd_as_of c); f = cd_freshness c in
      \<not> too_old (age_seconds asOf (fs_market f)) (po_max_market_age po) \<and>
      \<not> too_old (age_seconds asOf (fs_holder f)) (po_max_holder_age po) \<and>
      \<not> too_old (age_seconds asOf (fs_security f)) (po_max_security_age po))"

definition well_sourced :: "policy \<Rightarrow> candidate \<Rightarrow> bool" where
  "well_sourced po c \<longleftrightarrow>
     po_min_coverage po \<le> cd_coverage c \<and> po_min_independence po \<le> cd_independence c \<and>
     dependence_rank (cd_dependence c) \<le> dependence_rank (po_max_dependence po) \<and>
     \<not> list_ex (\<lambda>x. conflict_blocks (po_block_conflict po) (cf_severity x)) (cd_conflicts c)"

definition secure_token :: "security_input \<Rightarrow> bool" where
  "secure_token se \<longleftrightarrow> se_mint_revoked se \<and> se_freeze_disabled se \<and> se_lp_locked se \<and>
     se_critical_events se = []"

definition tradable :: "policy \<Rightarrow> tradability \<Rightarrow> bool" where
  "tradable po td \<longleftrightarrow> td_executable td \<and> td_min_liquidity td \<le> td_liquidity td \<and> 0 < td_net_return td \<and>
     (po_require_conservative po \<longrightarrow> td_conservative_pass td \<noteq> Some False) \<and>
     (po_require_p90 po \<longrightarrow> td_p90_pass td \<noteq> Some False)"

definition free_of_cost :: "policy \<Rightarrow> cost_input \<Rightarrow> bool" where
  "free_of_cost po co \<longleftrightarrow> (po_cost po = STRICT_FREE \<longrightarrow> co_usd co \<le> 0 \<and> co_unknown_ops co \<le> 0)"

definition cooled_down :: "policy \<Rightarrow> candidate \<Rightarrow> alert_record option \<Rightarrow> bool" where
  "cooled_down po c prior \<longleftrightarrow>
     (\<forall>a now before. prior = Some a \<and> ar_asset a = cd_asset c \<and> dateParse (cd_as_of c) = Some now \<and>
        dateParse (ar_created_at a) = Some before \<and> minutes_between before now < po_cooldown po \<and>
        pl_evidence (ar_payload a) = cd_evidence c \<longrightarrow>
        score_dropped (pl_score (ar_payload a)) (cd_score c))"

definition confirmed_gates :: "policy \<Rightarrow> candidate \<Rightarrow> alert_record option \<Rightarrow> policy_context \<Rightarrow> bool" where
  "confirmed_gates po c prior cx \<longleftrightarrow>
     cd_decision c = DcALERT \<and> cd_lifecycle c = LcCONFIRMED \<and>
     cd_risk c \<notin> {RkCRITICAL, RkCONFLICTING, RkHIGH} \<and>
     fresh_enough po c \<and> well_sourced po c \<and> secure_token (cd_security c) \<and>
     tradable po (cd_tradability c) \<and>
     (po_require_stat_gate po \<longrightarrow> cd_stat_gate c \<noteq> Some False) \<and>
     free_of_cost po (cd_cost c) \<and>
     \<not> (qh_enabled (po_quiet po) \<and> in_quiet_hours (po_quiet po) (dateParse (cd_as_of c))) \<and>
     cooled_down po c prior \<and>
     (\<forall>n. cx_alerts_today cx = Some n \<longrightarrow> n < po_max_confirmed po) \<and>
     \<not> containsHighConvictionLanguage (cd_thesis c)"

lemma stale_reason_Nil: "stale_reason l age limit = [] \<longleftrightarrow> \<not> too_old age limit"
  by (simp add: stale_reason_def too_old_def split: option.split)

lemma base_reasons_Nil:
  "base_reasons po c = [] \<longleftrightarrow>
     \<not> ((cd_risk c = RkCRITICAL \<or> cd_risk c = RkCONFLICTING) \<and> cd_decision c = DcALERT \<and>
        cd_lifecycle c = LcCONFIRMED) \<and>
     fresh_enough po c \<and> well_sourced po c \<and> secure_token (cd_security c) \<and>
     tradable po (cd_tradability c) \<and>
     (po_require_stat_gate po \<longrightarrow> cd_stat_gate c \<noteq> Some False) \<and> free_of_cost po (cd_cost c)"
  unfolding base_reasons_def fresh_enough_def well_sourced_def secure_token_def tradable_def
    free_of_cost_def Let_def append_is_Nil_conv push_if_simps stale_reason_Nil
  by (auto simp: not_less)

lemma cooldown_reasons_Nil:
  assumes "cd_decision c = DcALERT" "cd_risk c \<notin> {RkCRITICAL, RkCONFLICTING}" "td_executable (cd_tradability c)"
  shows "cooldown_reasons po c prior [] = [] \<longleftrightarrow> cooled_down po c prior"
  using assms by (cases prior) (auto simp: cooldown_reasons_def cooled_down_def Let_def split: option.splits)

lemma confirmed_iff_gates:
  "\<not> risk_branch c \<and> confirmed_branch c (policy_reasons po c prior cx) \<and>
     \<not> containsHighConvictionLanguage (cd_thesis c) \<longleftrightarrow> confirmed_gates po c prior cx"
proof (cases "cd_decision c = DcALERT \<and> cd_lifecycle c = LcCONFIRMED \<and> base_reasons po c = [] \<and> quiet_reasons po c = []")
  case True
  then have r: "policy_reasons po c prior cx = [] \<longleftrightarrow> cooldown_reasons po c prior [] = [] \<and> limit_reasons po cx = []"
    by (simp add: policy_reasons_def)
  from True have ok: "cd_risk c \<notin> {RkCRITICAL, RkCONFLICTING}" "td_executable (cd_tradability c)"
    by (auto simp: base_reasons_Nil tradable_def)
  have "limit_reasons po cx = [] \<longleftrightarrow> (\<forall>n. cx_alerts_today cx = Some n \<longrightarrow> n < po_max_confirmed po)"
    by (auto simp: limit_reasons_def split: option.split)
  with r cooldown_reasons_Nil [of c po prior] True ok show ?thesis
    unfolding confirmed_gates_def risk_branch_def confirmed_branch_def
    by (auto simp: base_reasons_Nil quiet_reasons_def secure_token_def)
next
  case False
  then have "\<not> confirmed_branch c (policy_reasons po c prior cx)"
    by (auto simp: confirmed_branch_def policy_reasons_def Let_def)
  moreover have "\<not> confirmed_gates po c prior cx"
    using False by (auto simp: confirmed_gates_def base_reasons_Nil quiet_reasons_def)
  ultimately show ?thesis by blast
qed

section \<open>Properties\<close>

lemma emit_simps [simp]:
  "ev_class (emit_alert sha lc c k p) = Some (pl_class p)" "ev_payload (emit_alert sha lc c k p) = Some p"
  "ev_passed (emit_alert sha lc c k p)"
  "ev_outbox (emit_alert sha lc c k p) = Some (pending_entry k (cd_as_of c) p)"
  "ev_record (emit_alert sha lc c k p) = Some (seal_record sha lc (cd_asset c)
     (computeAlertFingerprint sha lc (cd_asset c) (cd_profile c) (pl_class p) (cd_lifecycle c) (cd_risk c)
        (cd_evidence c)) (pl_valid_until p) (cd_as_of c) p)"
  "ev_class (rejected r m) = None" "ev_payload (rejected r m) = None" "ev_outbox (rejected r m) = None"
  by (simp_all add: emit_alert_def rejected_def)

lemma candidate_payload_simps [simp]:
  "pl_class (candidate_payload lc c i cls act vu m p) = cls"
  "pl_risk (candidate_payload lc c i cls act vu m p) = cd_risk c"
  "pl_as_of (candidate_payload lc c i cls act vu m p) = cd_as_of c"
  "pl_valid_until (candidate_payload lc c i cls act vu m p) = vu"
  "pl_actionability (candidate_payload lc c i cls act vu m p) = act"
  "pl_thesis (candidate_payload lc c i cls act vu m p) = cd_thesis c"
  "pl_counter (candidate_payload lc c i cls act vu m p) = cd_counter c"
  "pl_positive (candidate_payload lc c i cls act vu m p) = cd_positive c"
  "pl_missing (candidate_payload lc c i cls act vu m p) = sort_missing lc m"
  "pl_shadow (candidate_payload lc c i cls act vu m p) = cd_shadow c"
  by (simp_all add: candidate_payload_def)

lemma valid_until_ok:
  assumes "dateParse (cd_as_of c) = Some t" "\<bar>t + m * 60000\<bar> \<le> max_time"
  shows "\<exists>vu. valid_until c m = Inr vu \<and> dateParse vu = Some (t + m * 60000)"
  using assms by (simp add: valid_until_def dateParse_iso_text)

lemma valid_until_parse:
  "valid_until c m = Inr vu \<Longrightarrow> \<exists>t. dateParse (cd_as_of c) = Some t \<and> dateParse vu = Some (t + m * 60000)"
  by (cases "dateParse (cd_as_of c)") (auto simp: valid_until_def dateParse_iso_text split: if_splits)

text \<open>C28. A candidate becomes a CONFIRMED_OPPORTUNITY exactly when every gate holds: decision ALERT in
  state CONFIRMED, no high, critical or conflicting risk, fresh and independent data, a secure and
  tradable token, the statistical and cost gates, no quiet hours, no cooldown for the same
  evidence, the daily limit, and no high-conviction phrase in the thesis.\<close>

theorem confirmed_exactly_when_gates_pass:
  assumes "dateParse (cd_as_of c) = Some t" and "\<bar>t\<bar> \<le> max_time - 86400000"
  shows "(\<exists>r. evaluateAlertPolicy sha lc po c prior cx = Inr r \<and> ev_class r = Some CONFIRMED_OPPORTUNITY) \<longleftrightarrow>
    confirmed_gates po c prior cx"
proof -
  have "\<bar>t + 360 * 60000\<bar> \<le> max_time" "\<bar>t + 1440 * 60000\<bar> \<le> max_time" using assms(2) by linarith+
  then obtain vu vr where vu: "valid_until c 360 = Inr vu" and vr: "valid_until c 1440 = Inr vr"
    using valid_until_ok [OF assms(1), of 360] valid_until_ok [OF assms(1), of 1440] by blast
  show ?thesis
    unfolding confirmed_iff_gates [symmetric]
    by (auto simp: evaluateAlertPolicy_def vu vr Let_def split: if_splits)
qed

text \<open>Elevated risk is never silent: a candidate with high or critical risk or a critical security
  event that was decided ALERT, WATCH or REJECT always produces an actionable RISK_ALERT, whatever
  the quiet hours, cooldowns, limits and other gates say, and never a positive alert.\<close>

theorem elevated_risk_always_alerts:
  assumes "cd_risk c \<in> {RkHIGH, RkCRITICAL} \<or> se_critical_events (cd_security c) \<noteq> []"
    and "cd_decision c \<in> {DcALERT, DcWATCH, DcREJECT}"
    and "dateParse (cd_as_of c) = Some t" and "\<bar>t\<bar> \<le> max_time - 86400000"
  shows "\<exists>r p o'. evaluateAlertPolicy sha lc po c prior cx = Inr r \<and> ev_class r = Some RISK_ALERT \<and>
    ev_payload r = Some p \<and> pl_actionability p = ACTIONABLE \<and>
    dateParse (pl_valid_until p) = Some (t + 86400000) \<and>
    ev_outbox r = Some o' \<and> ob_state o' = ObPENDING \<and> ob_payload o' = p"
proof -
  have "\<bar>t + 1440 * 60000\<bar> \<le> max_time" using assms(4) by linarith
  then obtain vu where vu: "valid_until c 1440 = Inr vu" "dateParse vu = Some (t + 86400000)"
    using valid_until_ok [OF assms(3), of 1440] by auto
  from assms(1,2) have "risk_branch c" by (auto simp: risk_branch_def)
  with vu show ?thesis
    by (simp add: evaluateAlertPolicy_def Let_def pending_entry_def)
qed

lemma evaluate_cases:
  assumes "evaluateAlertPolicy sha lc po c prior cx = Inr r" "ev_payload r = Some p"
  obtains
    (risk) "risk_branch c" "pl_class p = RISK_ALERT" "pl_as_of p = cd_as_of c" "pl_risk p = cd_risk c"
      "ev_outbox r = Some (pending_entry ''risk'' (cd_as_of c) p)" "pl_shadow p = cd_shadow c"
  | (confirmed) vu where "confirmed_gates po c prior cx" "valid_until c (6 * 60) = Inr vu"
      "pl_class p = CONFIRMED_OPPORTUNITY" "pl_as_of p = cd_as_of c" "pl_risk p = cd_risk c"
      "pl_valid_until p = vu" "pl_actionability p = ACTIONABLE" "pl_thesis p = cd_thesis c"
      "ev_outbox r = Some (pending_entry ''opportunity'' (cd_as_of c) p)" "pl_shadow p = cd_shadow c"
  | (watch) vu where "early_watch_eligible po c cx (cd_missing c @ stale_items po c)"
      "valid_until c (po_watch_ttl po) = Inr vu"
      "validateEarlyWatchGuardrails (cd_as_of c) vu (cd_missing c @ stale_items po c) (cd_thesis c)
        (cd_counter c) (cd_positive c) (rat_of_int (po_watch_ttl po)) = []"
      "p = candidate_payload lc c (alert_id_of sha ''alt_watch_'' ''watch'' c) EARLY_WATCH WATCH_ONLY vu
        (cd_missing c @ stale_items po c) (map_option ar_id prior)"
      "ev_outbox r = Some (pending_entry ''watch'' (cd_as_of c) p)"
  using assms confirmed_iff_gates [of c po prior cx]
  by (auto simp: evaluateAlertPolicy_def Let_def split: if_splits)

text \<open>Every positive alert the policy emits passes the semantic integrity check of its payload
  (the day-long maximum and the watch limit of the policy): times in order, no high-conviction
  phrase, a watch only as WATCH_ONLY with its missing data, an opportunity never with critical or
  conflicting risk.\<close>

theorem positive_alerts_have_integrity:
  assumes "evaluateAlertPolicy sha lc po c prior cx = Inr r" and "ev_payload r = Some p"
    and "pl_class p \<noteq> RISK_ALERT" and "po_watch_ttl po \<le> 1440"
  shows "validateAlertSemanticIntegrity p 1440 (rat_of_int (po_watch_ttl po)) = []"
  using assms(1,2)
proof (cases rule: evaluate_cases)
  case risk
  with assms(3) show ?thesis by simp
next
  case (confirmed vu)
  obtain t where t: "dateParse (cd_as_of c) = Some t" "dateParse vu = Some (t + 6 * 60 * 60000)"
    using valid_until_parse [OF confirmed(2)] by auto
  from confirmed t show ?thesis
    by (auto simp: validateAlertSemanticIntegrity_def time_violations_def minutes_between_def
        confirmed_gates_def)
next
  case (watch vu)
  obtain t where t: "dateParse (cd_as_of c) = Some t" "dateParse vu = Some (t + po_watch_ttl po * 60000)"
    using valid_until_parse [OF watch(2)] by auto
  note g = watch(3) [unfolded early_guardrails_Nil]
  have pos: "0 < po_watch_ttl po" using g t by (auto simp: minutes_between_def)
  have "minutes_between t (t + po_watch_ttl po * 60000) = rat_of_int (po_watch_ttl po)"
    by (simp add: minutes_between_def)
  then have "time_violations (Some t) (Some (t + po_watch_ttl po * 60000)) 1440 = []"
    using pos assms(4) by (simp add: time_violations_def)
  moreover have "validateEarlyWatchGuardrails (cd_as_of c) vu (sort_missing lc (cd_missing c @ stale_items po c))
      (cd_thesis c) (cd_counter c) (cd_positive c) (rat_of_int (po_watch_ttl po)) = []"
    using g unfolding early_guardrails_Nil sort_missing_def by simp
  moreover have "\<not> containsHighConvictionLanguage (cd_thesis c)" using g by blast
  ultimately show ?thesis using t
    by (simp add: validateAlertSemanticIntegrity_def watch(4))
qed

section \<open>Concrete candidates\<close>

definition demo_candidate :: candidate where
  "demo_candidate =
     \<lparr>cd_asset = ''a1'', cd_chain = ''solana'', cd_contract = ''So11'', cd_symbol = None,
      cd_as_of = ''2024-01-01T00:00:00.000Z'', cd_profile = ''p'', cd_profile_version = ''1'',
      cd_lifecycle = LcCONFIRMED, cd_risk = RkLOW, cd_decision = DcALERT, cd_score = Some (1 / 2),
      cd_rank = None, cd_coverage = 1, cd_independence = 3, cd_dependence = INDEPENDENT,
      cd_stat_gate = Some True,
      cd_freshness = \<lparr>fs_market = ''2024-01-01T00:00:00.000Z'', fs_holder = ''2024-01-01T00:00:00.000Z'',
        fs_security = ''2024-01-01T00:00:00.000Z''\<rparr>,
      cd_tradability = \<lparr>td_executable = True, td_slippage_bps = 10, td_fee_usd = ''1'', td_net_return = 1,
        td_max_notional = None, td_min_liquidity = 1000, td_liquidity = 5000,
        td_conservative_pass = Some True, td_p90_pass = Some True, td_reason = None\<rparr>,
      cd_security = \<lparr>se_mint_revoked = True, se_freeze_disabled = True, se_lp_locked = True,
        se_critical_events = [], se_findings = []\<rparr>,
      cd_cost = \<lparr>co_mode = STRICT_FREE, co_usd = 0, co_unknown_ops = 0\<rparr>,
      cd_conflicts = [], cd_positive = [], cd_risks = [], cd_missing = [], cd_thesis = ''flow'',
      cd_counter = ''thin'', cd_invalidation = [], cd_evidence = ''e'', cd_shadow = False,
      cd_trace = ''t''\<rparr>"

definition no_context :: policy_context where
  "no_context = \<lparr>cx_alerts_today = None, cx_watches_today = None\<rparr>"

lemma demo_as_of: "dateParse (cd_as_of demo_candidate) = Some 1704067200000"
  by (simp add: demo_candidate_def date_eval)

lemma demo_thesis_plain: "\<not> containsHighConvictionLanguage ''flow''"
  by code_simp

lemma demo_gates: "confirmed_gates DEFAULT_ALERT_POLICY_CONFIG demo_candidate None no_context"
proof -
  have d: "dateParse ''2024-01-01T00:00:00.000Z'' = Some 1704067200000" by (simp add: date_eval)
  show ?thesis
    by (simp add: confirmed_gates_def demo_candidate_def DEFAULT_ALERT_POLICY_CONFIG_def no_context_def
        fresh_enough_def well_sourced_def secure_token_def tradable_def free_of_cost_def
        cooled_down_def too_old_def age_seconds_def d demo_thesis_plain)
qed

theorem confirmed_exactly_when_gates_pass_witness:
  "\<exists>r. evaluateAlertPolicy (\<lambda>s. s) (\<lambda>a b. 0) DEFAULT_ALERT_POLICY_CONFIG demo_candidate None no_context = Inr r \<and>
     ev_class r = Some CONFIRMED_OPPORTUNITY"
proof -
  have "\<bar>1704067200000\<bar> \<le> max_time - 86400000" by (simp add: max_time_def)
  from confirmed_exactly_when_gates_pass [OF demo_as_of this] demo_gates show ?thesis by blast
qed

theorem elevated_risk_always_alerts_witness:
  "\<exists>r. evaluateAlertPolicy (\<lambda>s. s) (\<lambda>a b. 0) DEFAULT_ALERT_POLICY_CONFIG
       (demo_candidate\<lparr>cd_risk := RkCRITICAL\<rparr>) None no_context = Inr r \<and> ev_class r = Some RISK_ALERT"
proof -
  have "\<bar>1704067200000\<bar> \<le> max_time - 86400000" by (simp add: max_time_def)
  with elevated_risk_always_alerts [of "demo_candidate\<lparr>cd_risk := RkCRITICAL\<rparr>" 1704067200000
      "\<lambda>s. s" "\<lambda>a b. 0" DEFAULT_ALERT_POLICY_CONFIG None no_context] demo_as_of
  show ?thesis by (simp add: demo_candidate_def) blast
qed

theorem positive_alerts_have_integrity_witness:
  "\<exists>r p. evaluateAlertPolicy (\<lambda>s. s) (\<lambda>a b. 0) DEFAULT_ALERT_POLICY_CONFIG demo_candidate None no_context = Inr r \<and>
     ev_payload r = Some p \<and> validateAlertSemanticIntegrity p 1440 30 = []"
proof -
  let ?e = "evaluateAlertPolicy (\<lambda>s. s) (\<lambda>a b. 0) DEFAULT_ALERT_POLICY_CONFIG demo_candidate None no_context"
  have b: "\<not> risk_branch demo_candidate \<and>
      confirmed_branch demo_candidate (policy_reasons DEFAULT_ALERT_POLICY_CONFIG demo_candidate None no_context) \<and>
      \<not> containsHighConvictionLanguage (cd_thesis demo_candidate)"
    using confirmed_iff_gates demo_gates by blast
  have "\<bar>1704067200000 + 360 * 60000\<bar> \<le> max_time" by (simp add: max_time_def)
  then obtain vu where "valid_until demo_candidate 360 = Inr vu"
    using valid_until_ok [OF demo_as_of, of 360] by blast
  with b obtain r p where r: "?e = Inr r" "ev_payload r = Some p" "pl_class p = CONFIRMED_OPPORTUNITY"
    by (simp add: evaluateAlertPolicy_def Let_def)
  have ttl: "po_watch_ttl DEFAULT_ALERT_POLICY_CONFIG = 30" by (simp add: DEFAULT_ALERT_POLICY_CONFIG_def)
  from r(3) have "pl_class p \<noteq> RISK_ALERT" by simp
  from positive_alerts_have_integrity [OF r(1,2) this] r ttl show ?thesis by auto
qed

end
