(* ===== verification/Alert_Lifecycle.thy ===== *)
theory Alert_Lifecycle
  imports Alert_Policy
begin

text \<open>
  \<open>evaluateAlertLifecycle\<close> of packages/alerts/src/lifecycle.ts: what a prior alert becomes, given
  the present candidate (if any) and time: expired, cancelled by a risk alert, deteriorated,
  strengthened, or left alone.
\<close>

section \<open>Decision and update\<close>

datatype transition = TrNONE | TrSTRENGTHENING | TrWEAKENING | TrEXPIRED | TrRISK

record lifecycle_decision =
  ld_transition :: transition
  ld_class :: alert_class
  ld_actionability :: actionability
  ld_reason :: string
  ld_parent :: string
  ld_evidence :: string
  ld_noop :: bool

record lifecycle_result =
  lf_decision :: lifecycle_decision
  lf_payload :: "payload option"
  lf_record :: "alert_record option"
  lf_outbox :: "outbox_entry option"

definition no_change :: "alert_record \<Rightarrow> string \<Rightarrow> string \<Rightarrow> lifecycle_result" where
  "no_change prior reason evidence =
     \<lparr>lf_decision = \<lparr>ld_transition = TrNONE, ld_class = ar_class prior,
        ld_actionability = ar_actionability prior, ld_reason = reason, ld_parent = ar_id prior,
        ld_evidence = evidence, ld_noop = True\<rparr>,
      lf_payload = None, lf_record = None, lf_outbox = None\<rparr>"

definition update_alert ::
  "(string \<Rightarrow> string) \<Rightarrow> (string \<Rightarrow> string \<Rightarrow> int) \<Rightarrow> alert_record \<Rightarrow> transition \<Rightarrow> string \<Rightarrow> string \<Rightarrow>
   lifecycle \<Rightarrow> string \<Rightarrow> string \<Rightarrow> payload \<Rightarrow> lifecycle_result" where
  "update_alert sha lc prior tr kind nowIso fpLifecycle validUntil reason p =
     \<lparr>lf_decision = \<lparr>ld_transition = tr, ld_class = pl_class p, ld_actionability = pl_actionability p,
        ld_reason = reason, ld_parent = ar_id prior, ld_evidence = pl_evidence p, ld_noop = False\<rparr>,
      lf_payload = Some p,
      lf_record = Some (seal_record sha lc (ar_asset prior)
        (computeAlertFingerprint sha lc (ar_asset prior) (pl_profile (ar_payload prior)) (pl_class p)
           fpLifecycle (pl_risk p) (pl_evidence p)) validUntil nowIso p),
      lf_outbox = Some (pending_entry kind nowIso p)\<rparr>"

definition update_id :: "(string \<Rightarrow> string) \<Rightarrow> string \<Rightarrow> string \<Rightarrow> alert_record \<Rightarrow> string \<Rightarrow> string" where
  "update_id sha prefix tag prior nowIso =
     prefix @ take 24 (sha (ar_id prior @ '':'' @ tag @ '':'' @ nowIso))"

text \<open>The fields every update from a candidate sets over the prior payload.\<close>

definition updated_payload ::
  "alert_record \<Rightarrow> candidate \<Rightarrow> string \<Rightarrow> alert_class \<Rightarrow> actionability \<Rightarrow> string \<Rightarrow> string \<Rightarrow> payload" where
  "updated_payload prior c alertId cls act nowIso reason =
     (ar_payload prior)\<lparr>pl_id := alertId, pl_class := cls, pl_actionability := act,
        pl_lifecycle := cd_lifecycle c, pl_risk := cd_risk c, pl_as_of := nowIso,
        pl_parent := Some (ar_id prior), pl_update_reason := Some reason,
        pl_evidence := cd_evidence c, pl_shadow := cd_shadow c, pl_trace := cd_trace c\<rparr>"

definition expire_alert ::
  "(string \<Rightarrow> string) \<Rightarrow> (string \<Rightarrow> string \<Rightarrow> int) \<Rightarrow> alert_record \<Rightarrow> candidate option \<Rightarrow> string \<Rightarrow> int \<Rightarrow>
   lifecycle_result" where
  "expire_alert sha lc prior c nowIso nowMs =
     (let reason = ''Opportunity validity lapsed at '' @ ar_valid_until prior;
          alertId = update_id sha ''alt_exp_'' ''expired'' prior nowIso;
          trace = (case c of Some x \<Rightarrow> cd_trace x
                   | None \<Rightarrow> ''trace_exp_'' @ ar_id prior @ ''_'' @ show_int nowMs)
      in update_alert sha lc prior TrEXPIRED ''expired'' nowIso LcARCHIVED nowIso reason
           ((ar_payload prior)\<lparr>pl_id := alertId, pl_class := OPPORTUNITY_EXPIRED,
              pl_actionability := EXPIRED, pl_as_of := nowIso, pl_valid_until := nowIso,
              pl_parent := Some (ar_id prior), pl_update_reason := Some reason,
              pl_shadow := ar_shadow prior, pl_trace := trace\<rparr>))"

definition cancel_alert ::
  "(string \<Rightarrow> string) \<Rightarrow> (string \<Rightarrow> string \<Rightarrow> int) \<Rightarrow> alert_record \<Rightarrow> candidate \<Rightarrow> string \<Rightarrow> lifecycle_result" where
  "cancel_alert sha lc prior c nowIso =
     (let events = se_critical_events (cd_security c);
          text = join_with '', '' events;
          reason = ''Risk escalated to '' @ show_risk (cd_risk c) @ '': '' @
            (if text \<noteq> [] then text else ''Critical security condition detected'')
      in update_alert sha lc prior TrRISK ''risk'' nowIso (cd_lifecycle c) (ar_valid_until prior) reason
           ((updated_payload prior c (update_id sha ''alt_risk_upd_'' ''risk'' prior nowIso) RISK_ALERT
               CANCELLED nowIso reason)
            \<lparr>pl_risks := (if cd_risks c \<noteq> [] then cd_risks c else events)\<rparr>))"

definition tradability_failed :: "candidate \<Rightarrow> bool" where
  "tradability_failed c \<longleftrightarrow>
     \<not> td_executable (cd_tradability c) \<or> td_net_return (cd_tradability c) \<le> 0"

definition risk_increased :: "alert_record \<Rightarrow> candidate \<Rightarrow> bool" where
  "risk_increased prior c \<longleftrightarrow>
     (pl_risk (ar_payload prior) = RkLOW \<or> pl_risk (ar_payload prior) = RkUNKNOWN) \<and> cd_risk c = RkHIGH"

definition show_score :: "rat option \<Rightarrow> string" where
  "show_score s = (case s of None \<Rightarrow> ''null'' | Some x \<Rightarrow> show_num x)"

definition weaken_alert ::
  "(string \<Rightarrow> string) \<Rightarrow> (string \<Rightarrow> string \<Rightarrow> int) \<Rightarrow> alert_record \<Rightarrow> candidate \<Rightarrow> string \<Rightarrow> lifecycle_result" where
  "weaken_alert sha lc prior c nowIso =
     (let p = ar_payload prior;
          reason = join_with ''; ''
            (push_if (tradability_failed c)
               (''Tradability failure: '' @
                (case td_reason (cd_tradability c) of None \<Rightarrow> ''non-executable'' | Some r \<Rightarrow> r)) @
             push_if (score_dropped (pl_score p) (cd_score c))
               (''Score dropped from '' @ show_score (pl_score p) @ '' to '' @ show_score (cd_score c)) @
             push_if (risk_increased prior c)
               (''Risk increased from '' @ show_risk (pl_risk p) @ '' to '' @ show_risk (cd_risk c)))
      in update_alert sha lc prior TrWEAKENING ''weakening'' nowIso (cd_lifecycle c) (ar_valid_until prior) reason
           ((updated_payload prior c (update_id sha ''alt_weak_'' ''weak'' prior nowIso) THESIS_WEAKENING
               DETERIORATED nowIso reason)\<lparr>pl_score := cd_score c\<rparr>))"

definition promoted :: "alert_record \<Rightarrow> candidate \<Rightarrow> bool" where
  "promoted prior c \<longleftrightarrow>
     pl_class (ar_payload prior) = EARLY_WATCH \<and> cd_lifecycle c = LcCONFIRMED \<and> cd_decision c = DcALERT"

definition score_strengthened :: "rat option \<Rightarrow> rat option \<Rightarrow> bool" where
  "score_strengthened prior now =
     (case (prior, now) of (Some p, Some n) \<Rightarrow> p * (6 / 5) \<le> n | _ \<Rightarrow> False)"

definition strengthen_alert ::
  "(string \<Rightarrow> string) \<Rightarrow> (string \<Rightarrow> string \<Rightarrow> int) \<Rightarrow> alert_record \<Rightarrow> candidate \<Rightarrow> string \<Rightarrow> lifecycle_result" where
  "strengthen_alert sha lc prior c nowIso =
     (let p = ar_payload prior;
          reason = (if promoted prior c then ''Candidate promoted from Early Watch to Confirmed Opportunity''
            else ''Thesis strengthened: score increased from '' @ show_score (pl_score p) @ '' to '' @
              show_score (cd_score c))
      in update_alert sha lc prior TrSTRENGTHENING ''strengthening'' nowIso (cd_lifecycle c)
           (ar_valid_until prior) reason
           ((updated_payload prior c (update_id sha ''alt_str_'' ''str'' prior nowIso) THESIS_STRENGTHENING
               ACTIONABLE nowIso reason)\<lparr>pl_score := cd_score c, pl_positive := cd_positive c\<rparr>))"

text \<open>\<open>nowMs >= validUntilMs\<close>, false when either is \<open>NaN\<close>.\<close>

definition lapsed :: "int option \<Rightarrow> int option \<Rightarrow> bool" where
  "lapsed now until = (case (now, until) of (Some n, Some u) \<Rightarrow> u \<le> n | _ \<Rightarrow> False)"

definition risk_escalated :: "alert_record \<Rightarrow> candidate \<Rightarrow> bool" where
  "risk_escalated prior c \<longleftrightarrow>
     cd_risk c = RkCRITICAL \<or> cd_risk c = RkCONFLICTING \<or>
     pl_risk (ar_payload prior) = RkLOW \<and> cd_risk c = RkHIGH"

definition identical_evidence :: "alert_record \<Rightarrow> candidate \<Rightarrow> bool" where
  "identical_evidence prior c \<longleftrightarrow>
     \<not> tradability_failed c \<and> \<not> score_dropped (pl_score (ar_payload prior)) (cd_score c) \<and>
     \<not> risk_escalated prior c \<and> cd_evidence c = pl_evidence (ar_payload prior) \<and>
     cd_risk c = pl_risk (ar_payload prior) \<and> cd_lifecycle c = pl_lifecycle (ar_payload prior)"

definition critical_now :: "candidate \<Rightarrow> bool" where
  "critical_now c \<longleftrightarrow> cd_risk c = RkCRITICAL \<or> cd_risk c = RkCONFLICTING \<or>
     0 < length (se_critical_events (cd_security c))"

definition evaluateAlertLifecycle ::
  "(string \<Rightarrow> string) \<Rightarrow> (string \<Rightarrow> string \<Rightarrow> int) \<Rightarrow> alert_record \<Rightarrow> candidate option \<Rightarrow> string \<Rightarrow>
   lifecycle_result" where
  "evaluateAlertLifecycle sha lc prior cur nowIso =
     (if ar_actionability prior \<noteq> ACTIONABLE \<and> ar_actionability prior \<noteq> WATCH_ONLY
      then no_change prior ''PRIOR_ALERT_NOT_ACTIONABLE'' (pl_evidence (ar_payload prior))
      else if lapsed (dateParse nowIso) (dateParse (ar_valid_until prior))
      then expire_alert sha lc prior cur nowIso (the (dateParse nowIso))
      else (case cur of
              None \<Rightarrow> no_change prior ''VALID_AND_UNMODIFIED'' (pl_evidence (ar_payload prior))
            | Some c \<Rightarrow>
                if identical_evidence prior c
                then no_change prior ''IDENTICAL_EVIDENCE_FINGERPRINT'' (pl_evidence (ar_payload prior))
                else if critical_now c then cancel_alert sha lc prior c nowIso
                else if tradability_failed c \<or> score_dropped (pl_score (ar_payload prior)) (cd_score c) \<or>
                        risk_increased prior c
                then weaken_alert sha lc prior c nowIso
                else if promoted prior c \<or>
                        score_strengthened (pl_score (ar_payload prior)) (cd_score c)
                then strengthen_alert sha lc prior c nowIso
                else no_change prior ''NO_MATERIAL_CHANGE'' (cd_evidence c)))"

section \<open>Chains of updates\<close>

text \<open>The caller stores the update record in place of the prior one; an observation is a candidate,
  if any, at a time.\<close>

definition apply_update ::
  "(string \<Rightarrow> string) \<Rightarrow> (string \<Rightarrow> string \<Rightarrow> int) \<Rightarrow> candidate option \<times> string \<Rightarrow> alert_record \<Rightarrow>
   alert_record" where
  "apply_update sha lc ob prior =
     (case lf_record (evaluateAlertLifecycle sha lc prior (fst ob) (snd ob)) of
        None \<Rightarrow> prior | Some r \<Rightarrow> r)"

definition open_alert :: "alert_record \<Rightarrow> bool" where
  "open_alert a \<longleftrightarrow> ar_actionability a = ACTIONABLE \<or> ar_actionability a = WATCH_ONLY"

lemma update_alert_simps [simp]:
  "lf_record (update_alert sha lc prior tr k now fl vu reason p) = Some (seal_record sha lc (ar_asset prior)
     (computeAlertFingerprint sha lc (ar_asset prior) (pl_profile (ar_payload prior)) (pl_class p) fl
        (pl_risk p) (pl_evidence p)) vu now p)"
  "lf_payload (update_alert sha lc prior tr k now fl vu reason p) = Some p"
  "lf_outbox (update_alert sha lc prior tr k now fl vu reason p) = Some (pending_entry k now p)"
  "ld_noop (lf_decision (update_alert sha lc prior tr k now fl vu reason p)) = False"
  "ld_class (lf_decision (update_alert sha lc prior tr k now fl vu reason p)) = pl_class p"
  "ld_actionability (lf_decision (update_alert sha lc prior tr k now fl vu reason p)) = pl_actionability p"
  "lf_record (no_change prior r e) = None" "ld_noop (lf_decision (no_change prior r e))"
  "lf_outbox (no_change prior r e) = None"
  by (simp_all add: update_alert_def no_change_def)

lemma seal_record_simps [simp]:
  "ar_actionability (seal_record sha lc a fp vu now p) = pl_actionability p"
  "ar_valid_until (seal_record sha lc a fp vu now p) = vu" "ar_payload (seal_record sha lc a fp vu now p) = p"
  "ar_asset (seal_record sha lc a fp vu now p) = a" "ar_class (seal_record sha lc a fp vu now p) = pl_class p"
  by (simp_all add: seal_record_def Let_def)

lemma closed_no_update: "\<not> open_alert prior \<Longrightarrow> apply_update sha lc ob prior = prior"
  by (simp add: apply_update_def evaluateAlertLifecycle_def open_alert_def)

text \<open>A closed alert stays closed: once an alert is expired, cancelled or deteriorated, no
  sequence of later observations changes it or emits anything for it.\<close>

theorem closed_alert_is_final:
  assumes "\<not> open_alert prior"
  shows "fold (apply_update sha lc) obs prior = prior \<and>
    lf_outbox (evaluateAlertLifecycle sha lc (fold (apply_update sha lc) obs prior) cur nowIso) = None"
proof -
  have "fold (apply_update sha lc) obs prior = prior"
    by (induction obs) (simp_all add: closed_no_update assms)
  then show ?thesis using assms by (simp add: evaluateAlertLifecycle_def open_alert_def)
qed

text \<open>Deterioration is never missed: if an open alert has not lapsed and the candidate shows
  critical or conflicting risk, an unexecutable or unprofitable trade, a score below seventy per
  cent of the prior one, or a rise from low to high risk, the alert is closed, cancelled or
  deteriorated, and a pending notification of that update is emitted.\<close>

theorem deterioration_always_closes:
  assumes "open_alert prior" and "\<not> lapsed (dateParse nowIso) (dateParse (ar_valid_until prior))"
    and "tradability_failed c \<or> score_dropped (pl_score (ar_payload prior)) (cd_score c) \<or>
      risk_escalated prior c"
  shows "\<exists>r o'. lf_record (evaluateAlertLifecycle sha lc prior (Some c) nowIso) = Some r \<and>
    ar_actionability r = (if critical_now c then CANCELLED else DETERIORATED) \<and> \<not> open_alert r \<and>
    lf_outbox (evaluateAlertLifecycle sha lc prior (Some c) nowIso) = Some o' \<and>
    ob_state o' = ObPENDING \<and> ob_payload o' = ar_payload r \<and> pl_parent (ar_payload r) = Some (ar_id prior)"
proof -
  have not_same: "\<not> identical_evidence prior c" using assms(3) by (auto simp: identical_evidence_def)
  have rest: "critical_now c \<or> tradability_failed c \<or> score_dropped (pl_score (ar_payload prior)) (cd_score c) \<or>
      risk_increased prior c"
    using assms(3) by (auto simp: risk_escalated_def critical_now_def risk_increased_def)
  have start: "evaluateAlertLifecycle sha lc prior (Some c) nowIso =
      (if critical_now c then cancel_alert sha lc prior c nowIso else weaken_alert sha lc prior c nowIso)"
    using assms(1,2) not_same rest by (auto simp: evaluateAlertLifecycle_def open_alert_def)
  show ?thesis unfolding start
    by (auto simp: cancel_alert_def weaken_alert_def Let_def updated_payload_def open_alert_def pending_entry_def)
qed

text \<open>An open alert observed at or after the end of its validity expires, whatever the candidate
  shows, and its expiry notice is emitted; before that time it never expires.\<close>

theorem expires_exactly_when_lapsed:
  assumes "open_alert prior" and "dateParse nowIso = Some n" and "dateParse (ar_valid_until prior) = Some u"
  shows "(\<exists>r. lf_record (evaluateAlertLifecycle sha lc prior cur nowIso) = Some r \<and>
      ar_actionability r = EXPIRED \<and> ar_class r = OPPORTUNITY_EXPIRED) \<longleftrightarrow> u \<le> n"
proof (cases "u \<le> n")
  case True
  then have "evaluateAlertLifecycle sha lc prior cur nowIso = expire_alert sha lc prior cur nowIso n"
    using assms by (auto simp: evaluateAlertLifecycle_def open_alert_def lapsed_def)
  with True show ?thesis by (simp add: expire_alert_def Let_def)
next
  case False
  then have "\<not> lapsed (dateParse nowIso) (dateParse (ar_valid_until prior))"
    using assms by (simp add: lapsed_def)
  with False assms(1) show ?thesis
    by (auto simp: evaluateAlertLifecycle_def open_alert_def cancel_alert_def weaken_alert_def
        strengthen_alert_def Let_def updated_payload_def split: option.splits if_splits)
qed

text \<open>A critical security event alone does not get past the identical-evidence check.\<close>

lemma unchanged_evidence_hides_events:
  assumes "open_alert prior" "\<not> lapsed (dateParse nowIso) (dateParse (ar_valid_until prior))"
    and "identical_evidence prior c"
  shows "ld_noop (lf_decision (evaluateAlertLifecycle sha lc prior
    (Some (c\<lparr>cd_security := (cd_security c)\<lparr>se_critical_events := events\<rparr>\<rparr>)) nowIso))"
  using assms
  by (auto simp: evaluateAlertLifecycle_def open_alert_def identical_evidence_def tradability_failed_def
      risk_escalated_def)

section \<open>Concrete alerts\<close>

definition demo_prior :: alert_record where
  "demo_prior = seal_record (\<lambda>s. s) (\<lambda>a b. 0) ''a1'' ''f'' ''2024-01-01T06:00:00.000Z'' ''2024-01-01T00:00:00.000Z''
     (candidate_payload (\<lambda>a b. 0) demo_candidate ''alt_1'' CONFIRMED_OPPORTUNITY ACTIONABLE
        ''2024-01-01T06:00:00.000Z'' [] None)"

lemma demo_prior_simps:
  "open_alert demo_prior" "ar_valid_until demo_prior = ''2024-01-01T06:00:00.000Z''"
  "dateParse ''2024-01-01T06:00:00.000Z'' = Some 1704088800000"
  "dateParse ''2024-01-01T01:00:00.000Z'' = Some 1704070800000"
  by (simp_all add: demo_prior_def open_alert_def date_eval)

theorem closed_alert_is_final_witness:
  "fold (apply_update (\<lambda>s. s) (\<lambda>a b. 0)) [(Some demo_candidate, ''2024-01-01T01:00:00.000Z'')]
     (demo_prior\<lparr>ar_actionability := EXPIRED\<rparr>) = demo_prior\<lparr>ar_actionability := EXPIRED\<rparr>"
proof -
  have "\<not> open_alert (demo_prior\<lparr>ar_actionability := EXPIRED\<rparr>)" by (simp add: open_alert_def)
  from closed_alert_is_final [OF this, of "\<lambda>s. s" "\<lambda>a b. 0" "[(Some demo_candidate, ''2024-01-01T01:00:00.000Z'')]"]
  show ?thesis by blast
qed

theorem deterioration_always_closes_witness:
  "\<exists>r. lf_record (evaluateAlertLifecycle (\<lambda>s. s) (\<lambda>a b. 0) demo_prior
       (Some (demo_candidate\<lparr>cd_risk := RkCRITICAL\<rparr>)) ''2024-01-01T01:00:00.000Z'') = Some r \<and>
     ar_actionability r = CANCELLED"
proof -
  have l: "\<not> lapsed (dateParse ''2024-01-01T01:00:00.000Z'') (dateParse (ar_valid_until demo_prior))"
    by (simp add: demo_prior_simps lapsed_def)
  have r: "risk_escalated demo_prior (demo_candidate\<lparr>cd_risk := RkCRITICAL\<rparr>)" by (simp add: risk_escalated_def)
  have c: "critical_now (demo_candidate\<lparr>cd_risk := RkCRITICAL\<rparr>)" by (simp add: critical_now_def)
  from deterioration_always_closes [OF demo_prior_simps(1) l, of "demo_candidate\<lparr>cd_risk := RkCRITICAL\<rparr>"
      "\<lambda>s. s" "\<lambda>a b. 0"] r c show ?thesis by auto
qed

theorem expires_exactly_when_lapsed_witness:
  "\<exists>r. lf_record (evaluateAlertLifecycle (\<lambda>s. s) (\<lambda>a b. 0) demo_prior None ''2024-01-01T06:00:00.000Z'') = Some r \<and>
     ar_actionability r = EXPIRED"
  using expires_exactly_when_lapsed [of demo_prior "''2024-01-01T06:00:00.000Z''" 1704088800000 1704088800000
      "\<lambda>s. s" "\<lambda>a b. 0" None] demo_prior_simps by auto

end
