(* ===== verification/Alert_Outbox.thy ===== *)
theory Alert_Outbox
  imports Alert_Lifecycle Sql_Table
begin

text \<open>
  packages/alerts/src/outbox.ts over the tables \<open>synthetic_observations\<close>, \<open>alerts\<close> and \<open>outbox\<close>
  with the keys and checks of infra/migrations/0001 and 0003. The notification adapter is outside
  the sources: its answer is a parameter of each delivery, and \<open>od_sent\<close> records what reached it.
\<close>

section \<open>Tables\<close>

record observation_row =
  os_id :: string
  os_asset :: string
  os_stage :: string
  os_payload :: jval
  os_event_time :: int
  os_observed_at :: int
  os_available_at :: int
  os_key :: string
  os_mode :: string
  os_trace :: string

record outbox_row =
  or_id :: string
  or_topic :: string
  or_payload :: payload
  or_state :: outbox_state
  or_attempts :: int
  or_available_at :: int
  or_delivered_at :: "int option"
  or_trace :: string

text \<open>A message handed to the adapter: outbox id, template, evidence keys.\<close>

record sent_message =
  sm_outbox :: string
  sm_template :: string
  sm_evidence :: "string list"

record alert_db =
  od_observations :: "observation_row list"
  od_alerts :: "alert_record list"
  od_outbox :: "outbox_row list"
  od_sent :: "sent_message list"

text \<open>\<open>CHECK (state IN ('PENDING','DELIVERED','RETRY','EXPIRED'))\<close> of migration 0001.\<close>

definition storable_state :: "outbox_state \<Rightarrow> bool" where
  "storable_state s = (s = ObPENDING \<or> s = ObDELIVERED \<or> s = ObRETRY \<or> s = ObEXPIRED)"

definition check_violation :: error where
  "check_violation = DatabaseError ''new row violates check constraint''"

section \<open>commitAlertTransaction\<close>







section \<open>processOutboxEntry\<close>

datatype adapter_answer =
    Available
  | Unavailable "string option"
  | Throws error

record delivery =
  de_delivered :: bool
  de_state :: outbox_state
  de_attempts :: int
  de_delivered_at :: "int option"
  de_reason :: "string option"

record delivery_options =
  dp_max_retries :: "int option"
  dp_shadow :: bool

text \<open>\<open>String(row.available_at)\<close> of the driver's \<open>Date\<close> has whole seconds.\<close>

definition whole_seconds :: "int \<Rightarrow> int" where
  "whole_seconds t = t div 1000 * 1000"

fun remove_first :: "string \<Rightarrow> string \<Rightarrow> string" where
  "remove_first w [] = []"
| "remove_first w (c # cs) =
     (if startsWith (c # cs) w then drop (length w) (c # cs) else c # remove_first w cs)"

definition message_of :: "outbox_row \<Rightarrow> sent_message" where
  "message_of row =
     \<lparr>sm_outbox = or_id row, sm_template = remove_first ''alert.'' (or_topic row),
      sm_evidence = (if pl_evidence (or_payload row) \<noteq> [] then [pl_evidence (or_payload row)] else [])\<rparr>"

fun show_outbox_state :: "outbox_state \<Rightarrow> string" where
  "show_outbox_state ObPENDING = ''PENDING''"
| "show_outbox_state ObDELIVERED = ''DELIVERED''"
| "show_outbox_state ObRETRY = ''RETRY''"
| "show_outbox_state ObEXPIRED = ''EXPIRED''"
| "show_outbox_state ObCANCELLED = ''CANCELLED''"
| "show_outbox_state ObFAILED = ''FAILED''"

text \<open>\<open>UPDATE outbox SET state=..., ... WHERE id=...\<close>, refused when the new state fails the check.\<close>

definition update_outbox ::
  "string \<Rightarrow> outbox_state \<Rightarrow> (outbox_row \<Rightarrow> outbox_row) \<Rightarrow> alert_db \<Rightarrow> unit result \<times> alert_db" where
  "update_outbox i s f db =
     (if \<not> storable_state s \<and> has_key or_id i (od_outbox db) then (Inl check_violation, db)
      else (Inr (), db\<lparr>od_outbox := update_key or_id i (\<lambda>r. f (r\<lparr>or_state := s\<rparr>)) (od_outbox db)\<rparr>))"

definition dispatch ::
  "bool \<Rightarrow> delivery_options \<Rightarrow> adapter_answer \<Rightarrow> outbox_row \<Rightarrow> alert_db \<Rightarrow> adapter_answer \<times> alert_db" where
  "dispatch shadowAdapter opts answer row db =
     (let isShadow = (dp_shadow opts \<or> startsWith (or_topic row) ''alert.shadow.'')
      in if isShadow \<and> \<not> shadowAdapter then (Available, db)
         else (answer, db\<lparr>od_sent := od_sent db @ [message_of row]\<rparr>))"

definition settle ::
  "int \<Rightarrow> int \<Rightarrow> adapter_answer \<Rightarrow> outbox_row \<Rightarrow> alert_db \<Rightarrow> delivery result \<times> alert_db" where
  "settle maxRetries nowMs answer row db =
     (let n = or_attempts row + 1 in
      case answer of
        Throws e \<Rightarrow> (Inl e, db)
      | Available \<Rightarrow>
          and_then (update_outbox (or_id row) ObDELIVERED
              (\<lambda>r. r\<lparr>or_attempts := n, or_delivered_at := Some nowMs\<rparr>) db) (\<lambda>_ db.
            (Inr \<lparr>de_delivered = True, de_state = ObDELIVERED, de_attempts = n,
                  de_delivered_at = Some nowMs, de_reason = None\<rparr>, db))
      | Unavailable why \<Rightarrow>
          (let next = (if maxRetries \<le> n then ObFAILED else ObRETRY) in
           and_then (update_outbox (or_id row) next (\<lambda>r. r\<lparr>or_attempts := n\<rparr>) db) (\<lambda>_ db.
             (Inr \<lparr>de_delivered = False, de_state = next, de_attempts = n, de_delivered_at = None,
                   de_reason = Some (case why of None \<Rightarrow> ''TRANSPORT_NOT_AVAILABLE'' | Some w \<Rightarrow> w)\<rparr>, db))))"

definition processOutboxEntry ::
  "bool \<Rightarrow> adapter_answer \<Rightarrow> string \<Rightarrow> int \<Rightarrow> delivery_options \<Rightarrow> alert_db \<Rightarrow> delivery result \<times> alert_db" where
  "processOutboxEntry shadowAdapter answer outboxId nowMs opts db =
     (let maxRetries = (case dp_max_retries opts of None \<Rightarrow> 5 | Some m \<Rightarrow> m) in
      case row_of or_id (od_outbox db) outboxId of
        None \<Rightarrow> (Inl (Error (''OUTBOX_ENTRY_NOT_FOUND:'' @ outboxId)), db)
      | Some row \<Rightarrow>
          if or_state row = ObDELIVERED then
            (Inr \<lparr>de_delivered = True, de_state = ObDELIVERED, de_attempts = or_attempts row,
                  de_delivered_at = or_delivered_at row, de_reason = Some ''IDEMPOTENT_ALREADY_DELIVERED''\<rparr>, db)
          else if or_state row = ObCANCELLED \<or> or_state row = ObFAILED then
            (Inr \<lparr>de_delivered = False, de_state = or_state row, de_attempts = or_attempts row,
                  de_delivered_at = None,
                  de_reason = Some (''OUTBOX_TERMINAL_STATE:'' @ show_outbox_state (or_state row))\<rparr>, db)
          else if nowMs < whole_seconds (or_available_at row) then
            (Inr \<lparr>de_delivered = False, de_state = or_state row, de_attempts = or_attempts row,
                  de_delivered_at = None, de_reason = Some ''NOT_YET_AVAILABLE''\<rparr>, db)
          else
            (case dispatch shadowAdapter opts answer row db of
               (got, db1) \<Rightarrow> settle maxRetries nowMs got row db1))"

section \<open>Committing\<close>



section \<open>Delivering\<close>

text \<open>One attempt to deliver an entry: which adapter, its answer, when, with which options.\<close>

record attempt =
  at_shadow_adapter :: bool
  at_answer :: adapter_answer
  at_now :: int
  at_options :: delivery_options

definition deliver :: "string \<Rightarrow> attempt \<Rightarrow> alert_db \<Rightarrow> alert_db" where
  "deliver i a db = snd (processOutboxEntry (at_shadow_adapter a) (at_answer a) i (at_now a) (at_options a) db)"

lemma outbox_after_update:
  "(\<And>r. or_id (f r) = or_id r) \<Longrightarrow> row_of or_id (od_outbox (snd (update_outbox i s f db))) k =
     (if k = i \<and> storable_state s then map_option (\<lambda>r. f (r\<lparr>or_state := s\<rparr>)) (row_of or_id (od_outbox db) i)
      else row_of or_id (od_outbox db) k)"
proof -
  assume f: "\<And>r. or_id (f r) = or_id r"
  show ?thesis
  proof (cases "\<not> storable_state s \<and> has_key or_id i (od_outbox db)")
    case True
    then show ?thesis by (auto simp: update_outbox_def)
  next
    case False
    have "\<not> storable_state s \<Longrightarrow> row_of or_id (od_outbox db) i = None"
      using False by (simp add: row_of_None)
    with False f show ?thesis
      by (auto simp: update_outbox_def list_table.lookup_modify)
  qed
qed

lemma sent_update_outbox [simp]: "od_sent (snd (update_outbox i s f db)) = od_sent db"
  by (simp add: update_outbox_def)

lemma deliver_delivered:
  "row_of or_id (od_outbox db) i = Some row \<Longrightarrow> or_state row = ObDELIVERED \<Longrightarrow> deliver i a db = db"
  by (simp add: deliver_def processOutboxEntry_def Let_def)

text \<open>C30. An entry that was delivered is never sent again: further attempts, with whatever adapter,
  answer, time and options, change nothing and hand nothing to an adapter.\<close>

theorem delivered_never_resent:
  assumes "processOutboxEntry sh ans i now opts db = (Inr d, db1)" and "de_delivered d"
  shows "fold (deliver i) as db1 = db1"
proof -
  obtain row where row: "row_of or_id (od_outbox db) i = Some row"
    using assms by (cases "row_of or_id (od_outbox db) i") (auto simp: processOutboxEntry_def Let_def)
  have "\<exists>r. row_of or_id (od_outbox db1) i = Some r \<and> or_state r = ObDELIVERED"
  proof (cases "or_state row = ObDELIVERED")
    case True
    with assms row show ?thesis by (auto simp: processOutboxEntry_def Let_def)
  next
    case False
    obtain got db0 where g: "dispatch sh opts ans row db = (got, db0)" by (rule prod.exhaust)
    have box: "od_outbox db0 = od_outbox db" using g by (auto simp: dispatch_def Let_def split: if_splits)
    from assms row False g have s: "settle (case dp_max_retries opts of None \<Rightarrow> 5 | Some m \<Rightarrow> m) now got row db0 = (Inr d, db1)"
      by (auto simp: processOutboxEntry_def Let_def split: if_splits)
    have id: "or_id row = i" using row_of_Some_key [OF row] by simp
    let ?f = "\<lambda>r. r\<lparr>or_attempts := or_attempts row + 1, or_delivered_at := Some now\<rparr>"
    from s assms(2) have "got = Available"
      by (cases got) (auto simp: settle_def Let_def and_then_def split: prod.splits sum.splits)
    with s have db1: "db1 = snd (update_outbox (or_id row) ObDELIVERED ?f db0)"
      by (auto simp: settle_def Let_def and_then_def update_outbox_def storable_state_def)
    have "row_of or_id (od_outbox db1) i = Some (?f (row\<lparr>or_state := ObDELIVERED\<rparr>))"
      unfolding db1 using outbox_after_update [of ?f "or_id row" ObDELIVERED db0 i] row id box
      by (simp add: storable_state_def)
    then show ?thesis by simp
  qed
  then show ?thesis by (induction as) (auto simp: deliver_delivered)
qed

text \<open>One attempt on an entry that is due, and on one that is not.\<close>

lemma deliver_row:
  assumes "row_of or_id (od_outbox db) i = Some row"
  shows "\<exists>row'. row_of or_id (od_outbox (deliver i a db)) i = Some row' \<and> or_topic row' = or_topic row"
proof -
  obtain got db0 where g: "dispatch (at_shadow_adapter a) (at_options a) (at_answer a) row db = (got, db0)"
    by (rule prod.exhaust)
  have box: "od_outbox db0 = od_outbox db" using g by (auto simp: dispatch_def Let_def split: if_splits)
  have id: "or_id row = i" using row_of_Some_key [OF assms] by simp
  have upd: "\<exists>row'. row_of or_id (od_outbox (snd (update_outbox (or_id row) s f db0))) i = Some row' \<and>
      or_topic row' = or_topic row"
    if "\<And>r. or_id (f r) = or_id r" "\<And>r. or_topic (f r) = or_topic r" for s f
    using that assms id box by (simp add: outbox_after_update)
  have "\<exists>row'. row_of or_id (od_outbox (snd (settle m n got row db0))) i = Some row' \<and> or_topic row' = or_topic row" for m n
  proof (cases got)
    case (Throws e)
    then show ?thesis using assms box by (simp add: settle_def Let_def)
  next
    case Available
    let ?f = "\<lambda>r. r\<lparr>or_attempts := or_attempts row + 1, or_delivered_at := Some n\<rparr>"
    have "snd (settle m n got row db0) = snd (update_outbox (or_id row) ObDELIVERED ?f db0)"
      by (simp add: settle_def Let_def Available and_then_def split: prod.split sum.split)
    then show ?thesis using upd [of ?f ObDELIVERED] by simp
  next
    case (Unavailable w)
    let ?f = "\<lambda>r. r\<lparr>or_attempts := or_attempts row + 1\<rparr>"
    let ?s = "if m \<le> or_attempts row + 1 then ObFAILED else ObRETRY"
    have "snd (settle m n got row db0) = snd (update_outbox (or_id row) ?s ?f db0)"
      by (simp add: settle_def Let_def Unavailable and_then_def split: prod.split sum.split)
    then show ?thesis using upd [of ?f ?s] by simp
  qed
  then show ?thesis using assms g by (simp add: deliver_def processOutboxEntry_def Let_def)
qed

lemma sent_settle [simp]: "od_sent (snd (settle m n got row db)) = od_sent db"
proof -
  have "snd (and_then (update_outbox i s f db) (\<lambda>_ y. (Inr (c :: delivery), y))) = snd (update_outbox i s f db)"
    for i s f c by (simp add: and_then_def split: prod.split sum.split)
  then show ?thesis by (cases got) (simp_all add: settle_def Let_def)
qed

lemma deliver_shadow_silent:
  assumes "row_of or_id (od_outbox db) i = Some row" "startsWith (or_topic row) ''alert.shadow.''"
    and "\<not> at_shadow_adapter a"
  shows "od_sent (deliver i a db) = od_sent db"
  using assms by (simp add: deliver_def processOutboxEntry_def Let_def dispatch_def)

text \<open>Shadow alerts have no external effect: however often an entry on a shadow topic is
  processed with a transport other than the shadow adapter, nothing is handed to that transport.\<close>

theorem shadow_entry_never_dispatched:
  assumes "row_of or_id (od_outbox db) i = Some row" and "startsWith (or_topic row) ''alert.shadow.''"
    and "list_all (\<lambda>a. \<not> at_shadow_adapter a) as"
  shows "od_sent (fold (deliver i) as db) = od_sent db"
  using assms
proof (induction as arbitrary: db row)
  case Nil
  then show ?case by simp
next
  case (Cons a as)
  obtain row' where "row_of or_id (od_outbox (deliver i a db)) i = Some row'" "or_topic row' = or_topic row"
    using deliver_row [OF Cons.prems(1)] by blast
  with Cons.IH [of "deliver i a db" row'] Cons.prems deliver_shadow_silent [OF Cons.prems(1,2)]
  show ?case by simp
qed

text \<open>A failing attempt on a due entry.\<close>

definition failing :: "outbox_row \<Rightarrow> int \<Rightarrow> attempt \<Rightarrow> bool" where
  "failing row m a \<longleftrightarrow>
     (\<exists>w. at_answer a = Unavailable w) \<and> at_shadow_adapter a \<and> dp_max_retries (at_options a) = Some m \<and>
     or_available_at row \<le> at_now a"

definition waiting :: "outbox_row \<Rightarrow> bool" where
  "waiting row \<longleftrightarrow> or_state row = ObPENDING \<or> or_state row = ObRETRY"

lemma whole_seconds_le: "whole_seconds t \<le> t"
  by (simp add: whole_seconds_def)

lemma deliver_failing:
  assumes "row_of or_id (od_outbox db) i = Some row" "waiting row" "failing row m a"
  shows "\<exists>row'. row_of or_id (od_outbox (deliver i a db)) i = Some row' \<and> waiting row' \<and>
    or_available_at row' = or_available_at row \<and>
    or_attempts row' = (if m \<le> or_attempts row + 1 then or_attempts row else or_attempts row + 1) \<and>
    length (od_sent (deliver i a db)) = Suc (length (od_sent db))"
proof -
  let ?n = "or_attempts row + 1"
  let ?f = "\<lambda>r. r\<lparr>or_attempts := ?n\<rparr>"
  let ?s = "if m \<le> ?n then ObFAILED else ObRETRY"
  let ?db0 = "db\<lparr>od_sent := od_sent db @ [message_of row]\<rparr>"
  from assms(3) obtain w where a: "at_answer a = Unavailable w" "at_shadow_adapter a"
    "dp_max_retries (at_options a) = Some m" "or_available_at row \<le> at_now a"
    by (auto simp: failing_def)
  have id: "or_id row = i" using row_of_Some_key [OF assms(1)] by simp
  have due: "\<not> at_now a < whole_seconds (or_available_at row)"
    using a(4) whole_seconds_le [of "or_available_at row"] by linarith
  have d: "deliver i a db = snd (update_outbox i ?s ?f ?db0)"
    using assms(1,2) a(1-3) due id
    by (auto simp: deliver_def processOutboxEntry_def Let_def dispatch_def settle_def waiting_def and_then_def
        split: prod.split sum.split)
  show ?thesis unfolding d using assms(1,2)
    by (auto simp: outbox_after_update storable_state_def waiting_def)
qed

text \<open>Exhausted deliveries are not given up, because the schema has no state FAILED: the update of
  the last permitted failure violates the check on \<open>outbox.state\<close>, so the entry keeps waiting with
  its old attempt count, and every further attempt is handed to the transport again.\<close>

theorem exhausted_entry_retried_forever:
  assumes "row_of or_id (od_outbox db) i = Some row" and "waiting row" and "or_attempts row < m"
    and "list_all (failing row m) as"
  shows "\<exists>row'. row_of or_id (od_outbox (fold (deliver i) as db)) i = Some row' \<and> waiting row' \<and>
    or_attempts row' < m \<and> length (od_sent (fold (deliver i) as db)) = length (od_sent db) + length as"
  using assms
proof (induction as arbitrary: db row)
  case Nil
  then show ?case by simp
next
  case (Cons a as)
  from Cons.prems have f: "failing row m a" by simp
  obtain row' where r: "row_of or_id (od_outbox (deliver i a db)) i = Some row'" "waiting row'"
    "or_available_at row' = or_available_at row"
    "or_attempts row' = (if m \<le> or_attempts row + 1 then or_attempts row else or_attempts row + 1)"
    "length (od_sent (deliver i a db)) = Suc (length (od_sent db))"
    using deliver_failing [OF Cons.prems(1,2) f] by blast
  have "failing row' m = failing row m" using r(3) by (simp add: fun_eq_iff failing_def)
  moreover have "or_attempts row' < m" using r(4) Cons.prems(3) by (simp split: if_splits)
  ultimately obtain row'' where "row_of or_id (od_outbox (fold (deliver i) as (deliver i a db))) i = Some row''"
    "waiting row''" "or_attempts row'' < m"
    "length (od_sent (fold (deliver i) as (deliver i a db))) = length (od_sent (deliver i a db)) + length as"
    using Cons.IH [OF r(1,2)] Cons.prems(4) by auto
  with r(5) show ?case by simp
qed

section \<open>Concrete deliveries\<close>

definition demo_outbox_row :: outbox_row where
  "demo_outbox_row = \<lparr>or_id = ''outbox_1'', or_topic = ''alert.shadow.risk'',
     or_payload = ar_payload demo_prior, or_state = ObPENDING, or_attempts = 0, or_available_at = 1000,
     or_delivered_at = None, or_trace = ''t''\<rparr>"

definition demo_alert_db :: alert_db where
  "demo_alert_db = \<lparr>od_observations = [], od_alerts = [], od_outbox = [demo_outbox_row], od_sent = []\<rparr>"

definition try_at :: "bool \<Rightarrow> adapter_answer \<Rightarrow> attempt" where
  "try_at sh ans = \<lparr>at_shadow_adapter = sh, at_answer = ans, at_now = 2000,
     at_options = \<lparr>dp_max_retries = Some 5, dp_shadow = False\<rparr>\<rparr>"

lemma demo_outbox: "row_of or_id (od_outbox demo_alert_db) ''outbox_1'' = Some demo_outbox_row"
  by (simp add: demo_alert_db_def row_of_def demo_outbox_row_def)



theorem delivered_never_resent_witness:
  "\<exists>d db1. processOutboxEntry True Available ''outbox_1'' 2000 (at_options (try_at True Available)) demo_alert_db =
       (Inr d, db1) \<and> length (od_sent db1) = 1 \<and>
     fold (deliver ''outbox_1'') [try_at True Available, try_at False Available] db1 = db1"
proof -
  let ?p = "processOutboxEntry True Available ''outbox_1'' 2000 (at_options (try_at True Available)) demo_alert_db"
  have "is_ok (fst ?p) \<and> (case fst ?p of Inl _ \<Rightarrow> False | Inr d \<Rightarrow> de_delivered d) \<and> length (od_sent (snd ?p)) = 1"
    by (simp add: processOutboxEntry_def demo_outbox try_at_def dispatch_def settle_def Let_def update_outbox_def
        storable_state_def whole_seconds_def and_then_def) (simp add: demo_outbox_row_def demo_alert_db_def whole_seconds_def)
  then obtain d db1 where p: "?p = (Inr d, db1)" "de_delivered d" "length (od_sent db1) = 1"
    by (cases ?p; cases "fst ?p") auto
  from delivered_never_resent [OF p(1,2)] p show ?thesis by blast
qed

theorem shadow_entry_never_dispatched_witness:
  "od_sent (fold (deliver ''outbox_1'') [try_at False Available, try_at False (Unavailable None)] demo_alert_db) = []"
proof -
  have "startsWith (or_topic demo_outbox_row) ''alert.shadow.''" by (simp add: demo_outbox_row_def startsWith_def)
  from shadow_entry_never_dispatched [OF demo_outbox this, of "[try_at False Available, try_at False (Unavailable None)]"]
  show ?thesis by (simp add: try_at_def) (simp add: demo_alert_db_def)
qed

theorem exhausted_entry_retried_forever_witness:
  "length (od_sent (fold (deliver ''outbox_1'') (replicate 20 (try_at True (Unavailable None))) demo_alert_db)) = 20"
proof -
  have "waiting demo_outbox_row" "or_attempts demo_outbox_row < 5"
    "list_all (failing demo_outbox_row 5) (replicate 20 (try_at True (Unavailable None)))"
    by (simp_all add: waiting_def demo_outbox_row_def failing_def try_at_def list_all_iff)
  from exhausted_entry_retried_forever [OF demo_outbox this] show ?thesis by (auto simp: demo_alert_db_def)
qed

end
