(* ===== verification/Alert_Metrics.thy ===== *)
theory Alert_Metrics
  imports Alert_Lifecycle
begin

text \<open>
  packages/alerts/src/metrics.ts and renderer.ts: alert metrics separated by class, the routing of
  an alert to a channel, and the rendered headline and body with the suppression of positive
  headlines. \<open>asOf\<close> of the metrics is given, the default \<open>new Date()\<close> is not modelled.
\<close>

section \<open>Metrics\<close>

record metric_record =
  mr_id :: string
  mr_class :: alert_class
  mr_asset :: string
  mr_as_of :: string
  mr_actionability :: actionability
  mr_tradable :: "bool option"
  mr_signal :: "bool option"
  mr_converted :: "bool option"
  mr_lead_time :: "rat option"
  mr_true_risk :: "bool option"
  mr_warning_time :: "rat option"

record confirmed_metrics =
  cm_total :: nat
  cm_wins :: nat
  cm_losses :: nat
  cm_precision :: rat
  cm_recall :: rat
  cm_fdr :: rat

record watch_metrics =
  wm_total :: nat
  wm_converted :: nat
  wm_conversion_rate :: rat
  wm_precision :: rat
  wm_median_lead :: rat

record risk_metrics =
  rm_total :: nat
  rm_true :: nat
  rm_precision :: rat
  rm_median_warning :: rat

record update_metrics =
  um_strengthening :: nat
  um_weakening :: nat
  um_expired :: nat
  um_cancelled :: nat

record class_metrics =
  km_as_of :: string
  km_confirmed :: confirmed_metrics
  km_watch :: watch_metrics
  km_risk :: risk_metrics
  km_updates :: update_metrics

definition median :: "rat list \<Rightarrow> rat" where
  "median values =
     (if values = [] then 0
      else
        (let sorted = js_sort (\<lambda>a b. if b < a then 1 else 0) values; mid = length sorted div 2 in
         if length sorted mod 2 = 0 then round6 ((sorted ! (mid - 1) + sorted ! mid) / 2)
         else round6 (sorted ! mid)))"

definition of_class :: "alert_class \<Rightarrow> metric_record list \<Rightarrow> metric_record list" where
  "of_class k rs = filter (\<lambda>r. mr_class r = k) rs"

definition count_if :: "('a \<Rightarrow> bool) \<Rightarrow> 'a list \<Rightarrow> nat" where
  "count_if P xs = length (filter P xs)"

definition ratio6 :: "nat \<Rightarrow> nat \<Rightarrow> rat" where
  "ratio6 a b = (if 0 < b then round6 (of_nat a / of_nat b) else 0)"

definition positive_times :: "(metric_record \<Rightarrow> rat option) \<Rightarrow> metric_record list \<Rightarrow> rat list" where
  "positive_times f rs = [t. r \<leftarrow> rs, t \<leftarrow> (case f r of None \<Rightarrow> [] | Some t \<Rightarrow> [t]), 0 < t]"

definition confirmed_part :: "metric_record list \<Rightarrow> int option \<Rightarrow> confirmed_metrics" where
  "confirmed_part rs universe =
     (let c = of_class CONFIRMED_OPPORTUNITY rs;
          total = length c;
          wins = count_if (\<lambda>r. mr_tradable r = Some True) c;
          losses = count_if (\<lambda>r. mr_tradable r = Some False) c;
          precision = ratio6 wins total
      in \<lparr>cm_total = total, cm_wins = wins, cm_losses = losses, cm_precision = precision,
          cm_recall = (case universe of None \<Rightarrow> 0
            | Some u \<Rightarrow> if 0 < u then round6 (of_nat wins / of_int u) else 0),
          cm_fdr = (if 0 < total then round6 (1 - precision) else 0)\<rparr>)"

definition watch_part :: "metric_record list \<Rightarrow> watch_metrics" where
  "watch_part rs =
     (let w = of_class EARLY_WATCH rs;
          converted = count_if (\<lambda>r. mr_converted r = Some True) w;
          wins = count_if (\<lambda>r. mr_converted r = Some True \<and> mr_tradable r = Some True) w
      in \<lparr>wm_total = length w, wm_converted = converted,
          wm_conversion_rate = ratio6 converted (length w), wm_precision = ratio6 wins converted,
          wm_median_lead = median (positive_times mr_lead_time w)\<rparr>)"

definition risk_part :: "metric_record list \<Rightarrow> risk_metrics" where
  "risk_part rs =
     (let r = of_class RISK_ALERT rs; t = count_if (\<lambda>x. mr_true_risk x = Some True) r
      in \<lparr>rm_total = length r, rm_true = t, rm_precision = ratio6 t (length r),
          rm_median_warning = median (positive_times mr_warning_time r)\<rparr>)"

definition computeAlertClassMetrics ::
  "metric_record list \<Rightarrow> string \<Rightarrow> int option \<Rightarrow> class_metrics" where
  "computeAlertClassMetrics rs asOf universe =
     \<lparr>km_as_of = asOf, km_confirmed = confirmed_part rs universe, km_watch = watch_part rs,
      km_risk = risk_part rs,
      km_updates = \<lparr>um_strengthening = length (of_class THESIS_STRENGTHENING rs),
        um_weakening = length (of_class THESIS_WEAKENING rs),
        um_expired = length (of_class OPPORTUNITY_EXPIRED rs),
        um_cancelled = count_if (\<lambda>r. mr_actionability r = CANCELLED) rs\<rparr>\<rparr>"

lemma ratio6_unit: "a \<le> b \<Longrightarrow> 0 \<le> ratio6 a b \<and> ratio6 a b \<le> 1"
  using round6_unit [of "of_nat a / of_nat b"] by (auto simp: ratio6_def divide_simps)

lemma count_if_le: "count_if P xs \<le> length xs"
  by (simp add: count_if_def)

lemma count_if_disjoint: "(\<And>x. \<not> (P x \<and> Q x)) \<Longrightarrow> count_if P xs + count_if Q xs \<le> length xs"
  by (induction xs) (auto simp: count_if_def)

lemma round6_complement: "round6 (1 - round6 x) = 1 - round6 x"
proof -
  have "(1 - round6 x) * 1000000 = rat_of_int (1000000 - math_round (x * 1000000))"
    by (simp add: round6_def field_simps)
  then have "round6 (1 - round6 x) = rat_of_int (1000000 - math_round (x * 1000000)) / 1000000"
    unfolding round6_def [of "1 - round6 x"] by (simp only: math_round_int)
  then show ?thesis by (simp add: round6_def field_simps)
qed

text \<open>Metrics are separated by class: whatever EARLY_WATCH, risk or update records are mixed in,
  the confirmed-opportunity metrics depend on the confirmed records alone; their precision and
  false discovery rate are rates that sum to one, wins and losses never exceed the total.\<close>

theorem confirmed_metrics_separated:
  "let m = km_confirmed (computeAlertClassMetrics rs asOf u) in
   m = km_confirmed (computeAlertClassMetrics (of_class CONFIRMED_OPPORTUNITY rs) asOf' u) \<and>
   cm_wins m + cm_losses m \<le> cm_total m \<and> 0 \<le> cm_precision m \<and> cm_precision m \<le> 1 \<and>
   cm_fdr m = (if cm_total m = 0 then 0 else 1 - cm_precision m)"
proof -
  define c where "c = of_class CONFIRMED_OPPORTUNITY rs"
  have idem: "of_class CONFIRMED_OPPORTUNITY c = c" by (simp add: c_def of_class_def)
  have counts: "count_if (\<lambda>r. mr_tradable r = Some True) c + count_if (\<lambda>r. mr_tradable r = Some False) c \<le> length c"
    by (rule count_if_disjoint) simp
  have fdr: "round6 (1 - ratio6 a b) = 1 - ratio6 a b" if "0 < b" for a b
    using that by (simp add: ratio6_def round6_complement)
  note unit = ratio6_unit [OF count_if_le [of "\<lambda>r. mr_tradable r = Some True" c]]
  show ?thesis
    unfolding computeAlertClassMetrics_def confirmed_part_def Let_def c_def [symmetric] idem
    using counts unit fdr [of "length c"] by (simp add: Let_def)
qed

section \<open>Routing\<close>

definition determineAlertRouting :: "payload \<Rightarrow> bool \<Rightarrow> channel \<times> priority" where
  "determineAlertRouting p isShadow =
     (if pl_shadow p \<or> isShadow then (Shadow_log, LOW_PRIORITY)
      else (case pl_class p of
              RISK_ALERT \<Rightarrow> (Telegram, IMMEDIATE)
            | CONFIRMED_OPPORTUNITY \<Rightarrow> (Telegram, HIGH_PRIORITY)
            | THESIS_WEAKENING \<Rightarrow> (Telegram, HIGH_PRIORITY)
            | OPPORTUNITY_EXPIRED \<Rightarrow> (Telegram, HIGH_PRIORITY)
            | EARLY_WATCH \<Rightarrow> (Admin_inbox, NORMAL)
            | THESIS_STRENGTHENING \<Rightarrow> (Admin_inbox, NORMAL)))"

section \<open>Rendering\<close>

definition RESEARCH_DISCLAIMER :: string where
  "RESEARCH_DISCLAIMER = ''DISCLAIMER: For research and educational intelligence purposes only. Not financial, investment, or trading advice. No guaranteed returns. All crypto transactions carry substantial financial risk.''"

record rendered_alert =
  ra_id :: string
  ra_class :: alert_class
  ra_channel :: channel
  ra_priority :: priority
  ra_headline :: string
  ra_body :: string
  ra_disclaimer :: string
  ra_rendered_at :: string
  ra_suppressed :: bool
  ra_reason :: "string option"
  ra_shadow :: bool

definition nl :: string where "nl = [CHR 0x0A]"

definition tick :: "string \<Rightarrow> string" where "tick s = CHR 0x60 # s @ [CHR 0x60]"

definition bullets :: "string list \<Rightarrow> string" where
  "bullets xs = join_with nl (map (\<lambda>s. ''- '' @ s) xs)"

definition headed :: "string \<Rightarrow> string list \<Rightarrow> string list" where
  "headed title xs = push_if (xs \<noteq> []) (nl @ title @ nl @ bullets xs)"

definition or_else :: "string option \<Rightarrow> string \<Rightarrow> string" where
  "or_else x d = (case x of None \<Rightarrow> d | Some s \<Rightarrow> s)"

definition truthy :: "string option \<Rightarrow> bool" where
  "truthy x = (case x of None \<Rightarrow> False | Some s \<Rightarrow> s \<noteq> [])"

definition token_label :: "payload \<Rightarrow> string" where
  "token_label p =
     (if truthy (pl_symbol p) then the (pl_symbol p) @ '' ('' @ take 8 (pl_contract p) @ ''...)''
      else pl_contract p)"

definition asset_line :: "payload \<Rightarrow> string" where
  "asset_line p = ''*Asset:* '' @ tick (pl_contract p) @ '' on '' @ tick (pl_chain p)"

definition watch_body :: "payload \<Rightarrow> string list" where
  "watch_body p =
     [asset_line p,
      ''*Status:* Emerging candidate under profile '' @ tick (pl_profile p @ ''@'' @ pl_profile_version p),
      ''*Valid Until:* '' @ pl_valid_until p @ '' (Short TTL: Watch Only)'',
      nl @ ''*Preliminary Thesis:*'' @ nl @ pl_thesis p,
      nl @ ''*Counter-Thesis:*'' @ nl @ pl_counter p] @
     (if pl_missing p \<noteq> [] then
        (nl @ ''*Explicit Missing Data / Information Gaps:*'') #
        map (\<lambda>m. ''- ['' @ show_severity (mi_severity m) @ ''] *'' @ mi_field m @ ''*: '' @ mi_reason m) (pl_missing p)
      else []) @
     headed ''*Observed Positive Signals:*'' (pl_positive p) @
     headed ''*Observed Risk Signals:*'' (pl_risks p) @
     [nl @ ''_Notice: This is an EARLY WATCH notification. Deep security and liquidity verification are in progress. Do not treat as a confirmed opportunity._'']"

definition execution_lines :: "execution_impact \<Rightarrow> string list" where
  "execution_lines e =
     [nl @ ''*Modeled Execution Impact:*'',
      ''- Configured Notional: $'' @ ex_notional e,
      ''- Expected Slippage: '' @ show_num (ex_slippage_bps e) @ '' bps'',
      ''- Estimated Fees: $'' @ ex_fee_usd e,
      ''- Net Return Estimate: '' @ toFixed (ex_net_return e * 100) 2 @ ''% (Modeled expectation, not guaranteed)''] @
     push_if (truthy (ex_max_notional e)) (''- Max Executable Notional: $'' @ the (ex_max_notional e))"

definition confirmed_body :: "payload \<Rightarrow> string list" where
  "confirmed_body p =
     [asset_line p,
      ''*Profile:* '' @ tick (pl_profile p @ ''@'' @ pl_profile_version p) @ '' | Lifecycle: '' @
        tick (show_lifecycle (pl_lifecycle p)) @ '' | Risk: '' @ tick (show_risk (pl_risk p)),
      ''*Detected At:* '' @ pl_as_of p @ '' | *Valid Until:* '' @ pl_valid_until p] @
     (case pl_score p of None \<Rightarrow> []
      | Some s \<Rightarrow> [''*Deterministic Score:* '' @ toFixed s 4 @
          (case pl_rank p of None \<Rightarrow> [] | Some r \<Rightarrow> if r = 0 then [] else '' (Rank: #'' @ show_int r @ '')'')]) @
     (case pl_execution p of None \<Rightarrow> [] | Some e \<Rightarrow> execution_lines e) @
     [nl @ ''*Thesis:*'' @ nl @ pl_thesis p, nl @ ''*Counter-Thesis:*'' @ nl @ pl_counter p] @
     headed ''*Positive Evidence:*'' (pl_positive p) @
     headed ''*Risk Assessment:*'' (pl_risks p) @
     headed ''*Thesis Invalidation Conditions:*'' (pl_invalidation p) @
     headed ''*Provider Conflicts:*'' (pl_conflicts p)"

definition parent_line :: "payload \<Rightarrow> string" where
  "parent_line p = ''*Parent Alert:* '' @ tick (or_else (pl_parent p) ''unknown'')"

definition score_line :: "string \<Rightarrow> payload \<Rightarrow> string list" where
  "score_line label p = (case pl_score p of None \<Rightarrow> [] | Some s \<Rightarrow> [label @ toFixed s 4])"

definition body_sections :: "payload \<Rightarrow> string list" where
  "body_sections p =
     (case pl_class p of
        EARLY_WATCH \<Rightarrow> watch_body p
      | CONFIRMED_OPPORTUNITY \<Rightarrow> confirmed_body p
      | THESIS_STRENGTHENING \<Rightarrow>
          [asset_line p, parent_line p, ''*Update Reason:* '' @
             or_else (pl_update_reason p) ''Independent verification strengthened research thesis''] @
          score_line ''*Updated Score:* '' p @
          [nl @ ''*Thesis:*'' @ nl @ pl_thesis p] @
          headed ''*Strengthening Evidence:*'' (pl_positive p)
      | THESIS_WEAKENING \<Rightarrow>
          [asset_line p, parent_line p,
           ''*Actionability:* '' @ tick (show_actionability (pl_actionability p)),
           ''*Deterioration Reason:* '' @ or_else (pl_update_reason p) ''Thesis weakening conditions observed''] @
          score_line ''*Revised Score:* '' p @
          headed ''*Negative Drivers:*'' (pl_risks p)
      | OPPORTUNITY_EXPIRED \<Rightarrow>
          [asset_line p, parent_line p,
           ''*Status:* Actionability window lapsed ('' @ pl_valid_until p @ '')'',
           ''*Expiry Reason:* '' @ or_else (pl_update_reason p) ''Configured actionability window expired'']
      | RISK_ALERT \<Rightarrow>
          [asset_line p] @
          push_if (truthy (pl_parent p)) (''*Prior Alert:* '' @ tick (the (pl_parent p)) @ '' (NOW CANCELLED)'') @
          [''*Risk Level:* '' @ tick (show_risk (pl_risk p)),
           ''*Trigger:* '' @ or_else (pl_update_reason p) ''Critical security or pool hazard identified''] @
          push_if (pl_risks p \<noteq> [])
            (nl @ ''*Critical Risk Evidence:*'' @ nl @ join_with nl (map (\<lambda>s. ''- [CRITICAL] '' @ s) (pl_risks p))))"

definition invalidated :: "payload \<Rightarrow> bool" where
  "invalidated p \<longleftrightarrow>
     pl_risk p = RkCRITICAL \<or> pl_risk p = RkCONFLICTING \<or>
     (case (dateParse (pl_as_of p), dateParse (pl_valid_until p)) of (Some a, Some v) \<Rightarrow> v < a | _ \<Rightarrow> False) \<or>
     pl_actionability p = EXPIRED \<or> pl_actionability p = CANCELLED \<or> pl_actionability p = DETERIORATED"

definition headline_of :: "payload \<Rightarrow> string" where
  "headline_of p =
     (case pl_class p of
        EARLY_WATCH \<Rightarrow> ''[EARLY WATCH] '' @ token_label p @ '' - Preliminary Observation''
      | CONFIRMED_OPPORTUNITY \<Rightarrow>
          (if invalidated p then ''[INVALIDATED OPPORTUNITY] '' @ token_label p @ '' - Critical Conditions Present''
           else ''[CONFIRMED OPPORTUNITY] '' @ token_label p @ '' - Research Qualification Pass'')
      | THESIS_STRENGTHENING \<Rightarrow> ''[THESIS UPDATE - STRENGTHENING] '' @ token_label p
      | THESIS_WEAKENING \<Rightarrow> ''[THESIS UPDATE - DETERIORATION] '' @ token_label p
      | OPPORTUNITY_EXPIRED \<Rightarrow> ''[OPPORTUNITY EXPIRED] '' @ token_label p
      | RISK_ALERT \<Rightarrow> ''[CRITICAL RISK ALERT] '' @ token_label p @ '' - Immediate Caution'')"

definition renderAlert :: "payload \<Rightarrow> bool \<Rightarrow> string option \<Rightarrow> rendered_alert" where
  "renderAlert p isShadow renderedAt =
     (case determineAlertRouting p isShadow of (ch, pr) \<Rightarrow>
        (let suppressed = (pl_class p = CONFIRMED_OPPORTUNITY \<and> invalidated p) in
         \<lparr>ra_id = pl_id p, ra_class = pl_class p, ra_channel = ch, ra_priority = pr,
          ra_headline = headline_of p, ra_body = join_with nl (body_sections p),
          ra_disclaimer = RESEARCH_DISCLAIMER, ra_rendered_at = or_else renderedAt (pl_as_of p),
          ra_suppressed = suppressed,
          ra_reason = (if suppressed then Some ''SUPPRESS_HEADLINE_ON_CRITICAL_RISK_OR_EXPIRY'' else None),
          ra_shadow = (pl_shadow p \<or> isShadow)\<rparr>))"

text \<open>Presentation follows the class: a positive headline is shown only for an opportunity that
  is neither at critical risk, expired nor closed; a shadow alert goes to the shadow log only; an
  early watch never reaches the push channel.\<close>

theorem rendering_respects_class:
  "let r = renderAlert p sh t in
   (startsWith (ra_headline r) ''[CONFIRMED OPPORTUNITY]'' \<longleftrightarrow>
      pl_class p = CONFIRMED_OPPORTUNITY \<and> \<not> invalidated p) \<and>
   (ra_channel r = Shadow_log \<longleftrightarrow> pl_shadow p \<or> sh) \<and>
   \<not> (ra_channel r = Telegram \<and> pl_class p = EARLY_WATCH)"
  by (cases "pl_class p")
    (simp_all add: renderAlert_def determineAlertRouting_def headline_of_def Let_def startsWith_def)

end
