(* ===== verification/Scheduler_Config.thy ===== *)
theory Scheduler_Config
  imports Js_Number
begin

text \<open>
  The data and pure functions of packages/scheduler/src/index.ts: schedules and their versions, the
  transition tables, the configuration hash, cron, time zone and version validation, and the
  precedence of configuration layers. \<open>sha\<close> is the hexadecimal SHA-256 digest; the host's time zone
  data and the version, budget, concurrency and cost checks a caller may inject are parameters.
\<close>

section \<open>Schedules and versions\<close>

datatype schedule_state = StDRAFT | StACTIVE | StPAUSED | StDEGRADED | StDISABLED | StDELETED

datatype config_lifecycle = ClDRAFT | ClVALIDATED | ClAPPROVED | ClACTIVE | ClDEPRECATED | ClROLLED_BACK

type_synonym config = "(string \<times> jval) list"

record version =
  ve_id :: string
  ve_schedule :: string
  ve_version :: int
  ve_cron :: string
  ve_timezone :: string
  ve_workflow :: string
  ve_agent :: string
  ve_tool :: string
  ve_model :: "string option"
  ve_prompt :: "string option"
  ve_outcome :: "string option"
  ve_ranking :: "string option"
  ve_alert :: "string option"
  ve_budgets :: config
  ve_concurrency :: rat
  ve_destination :: string
  ve_external :: "string option"
  ve_scope :: config
  ve_lifecycle :: config_lifecycle
  ve_hash :: string
  ve_created_at :: string
  ve_created_by :: string

record schedule =
  sc_id :: string
  sc_name :: string
  sc_description :: "string option"
  sc_state :: schedule_state
  sc_version_id :: "string option"
  sc_version_number :: "int option"
  sc_external :: "string option"
  sc_paused :: bool
  sc_created_at :: string
  sc_updated_at :: string

record issue =
  is_code :: string
  is_message :: string
  is_field :: "string option"

section \<open>Transition tables\<close>

fun ALLOWED_SCHEDULE_TRANSITIONS :: "schedule_state \<Rightarrow> schedule_state list" where
  "ALLOWED_SCHEDULE_TRANSITIONS StDRAFT = [StACTIVE, StDISABLED]"
| "ALLOWED_SCHEDULE_TRANSITIONS StACTIVE = [StPAUSED, StDEGRADED, StDISABLED]"
| "ALLOWED_SCHEDULE_TRANSITIONS StPAUSED = [StACTIVE, StDISABLED]"
| "ALLOWED_SCHEDULE_TRANSITIONS StDEGRADED = [StACTIVE, StPAUSED, StDISABLED]"
| "ALLOWED_SCHEDULE_TRANSITIONS StDISABLED = [StDELETED]"
| "ALLOWED_SCHEDULE_TRANSITIONS StDELETED = []"

fun ALLOWED_CONFIG_TRANSITIONS :: "config_lifecycle \<Rightarrow> config_lifecycle list" where
  "ALLOWED_CONFIG_TRANSITIONS ClDRAFT = [ClVALIDATED]"
| "ALLOWED_CONFIG_TRANSITIONS ClVALIDATED = [ClAPPROVED, ClDRAFT]"
| "ALLOWED_CONFIG_TRANSITIONS ClAPPROVED = [ClACTIVE, ClDRAFT]"
| "ALLOWED_CONFIG_TRANSITIONS ClACTIVE = [ClDEPRECATED, ClROLLED_BACK]"
| "ALLOWED_CONFIG_TRANSITIONS ClDEPRECATED = [ClROLLED_BACK]"
| "ALLOWED_CONFIG_TRANSITIONS ClROLLED_BACK = []"

definition canTransitionSchedule :: "schedule_state \<Rightarrow> schedule_state \<Rightarrow> bool" where
  "canTransitionSchedule a b = (b \<in> set (ALLOWED_SCHEDULE_TRANSITIONS a))"

definition canTransitionConfig :: "config_lifecycle \<Rightarrow> config_lifecycle \<Rightarrow> bool" where
  "canTransitionConfig a b = (b \<in> set (ALLOWED_CONFIG_TRANSITIONS a))"

section \<open>Configuration hash\<close>

text \<open>\<open>JSON.stringify(value, allow)\<close> with an array of property names: at every depth an object shows
  only the allowed names, in the order of the array.\<close>

fun stringify_allow :: "string list \<Rightarrow> jval \<Rightarrow> string" where
  "stringify_allow allow (VArr xs) = ''['' @ join_with '','' (map (stringify_allow allow) xs) @ '']''"
| "stringify_allow allow (VObj kvs) =
     (let shown = map (\<lambda>(k, v). (k, json_quote k @ '':'' @ stringify_allow allow v)) kvs
      in ''{'' @ join_with '','' (List.map_filter (map_of shown) allow) @ ''}'')"
| "stringify_allow allow VNull = stringify_val VNull"
| "stringify_allow allow (VBool b) = stringify_val (VBool b)"
| "stringify_allow allow (VNum x) = stringify_val (VNum x)"
| "stringify_allow allow (VStr s) = stringify_val (VStr s)"

text \<open>A member whose value is \<open>undefined\<close> still contributes its name to \<open>Object.keys\<close>.\<close>

definition hashConfig :: "(string \<Rightarrow> string) \<Rightarrow> (string \<times> jval option) list \<Rightarrow> string" where
  "hashConfig sha members =
     sha (stringify_allow (sort (map fst members))
       (VObj [(k, v). (k, w) \<leftarrow> members, v \<leftarrow> (case w of None \<Rightarrow> [] | Some v \<Rightarrow> [v])]))"

definition plain :: "config \<Rightarrow> (string \<times> jval option) list" where
  "plain c = map (\<lambda>(k, v). (k, Some v)) c"

section \<open>Cron and time zone\<close>

definition digits1 :: "string \<Rightarrow> bool" where
  "digits1 s = (s \<noteq> [] \<and> list_all is_digit s)"

definition cron_segment_ok :: "string \<Rightarrow> bool" where
  "cron_segment_ok seg =
     (case split_on CHR ''-'' seg of
        [a] \<Rightarrow> digits1 a
      | [a, b] \<Rightarrow> digits1 a \<and> digits1 b
      | _ \<Rightarrow> False)"

text \<open>\<open>CRON_PART_RE\<close>.\<close>

definition cron_part_ok :: "string \<Rightarrow> bool" where
  "cron_part_ok p =
     (p = ''*'' \<or> startsWith p ''*/'' \<and> digits1 (drop 2 p) \<or>
      list_all cron_segment_ok (split_on CHR '','' p))"

text \<open>\<open>trimmed.split(/\s+/)\<close>.\<close>

fun split_spaces :: "string \<Rightarrow> string list" where
  "split_spaces [] = [[]]"
| "split_spaces (c # cs) =
     (if js_space c
      then (case cs of [] \<Rightarrow> [[], []]
            | d # _ \<Rightarrow> if js_space d then split_spaces cs else [] # split_spaces cs)
      else (case split_spaces cs of [] \<Rightarrow> [[c]] | w # ws \<Rightarrow> (c # w) # ws))"

definition cron_ranges :: "(nat \<times> nat) list" where
  "cron_ranges = [(0, 59), (0, 23), (1, 31), (1, 12), (0, 7)]"

definition cron_issue :: "string \<Rightarrow> string \<Rightarrow> issue" where
  "cron_issue code msg = \<lparr>is_code = code, is_message = msg, is_field = Some ''cron''\<rparr>"

definition segment_in_range :: "nat \<times> nat \<Rightarrow> string \<Rightarrow> bool" where
  "segment_in_range r seg =
     list_all (\<lambda>n. fst r \<le> read_nat n \<and> read_nat n \<le> snd r) (split_on CHR ''-'' seg)"

fun range_issue :: "nat \<Rightarrow> ((nat \<times> nat) \<times> string) list \<Rightarrow> issue option" where
  "range_issue i [] = None"
| "range_issue i ((r, p) # rest) =
     (if p = ''*'' \<or> startsWith p ''*/'' then range_issue (Suc i) rest
      else (case find (\<lambda>seg. \<not> segment_in_range r seg) (split_on CHR '','' p) of
              Some seg \<Rightarrow> Some (cron_issue ''CRON_INVALID''
                (''cron field '' @ show_nat i @ '' out of range: '' @ seg))
            | None \<Rightarrow> range_issue (Suc i) rest))"

definition validateCron :: "string \<Rightarrow> issue option" where
  "validateCron cron =
     (let trimmed = trim cron; parts = split_spaces trimmed in
      if length trimmed = 0 then Some (cron_issue ''CRON_REQUIRED'' ''cron is required'')
      else if length parts \<noteq> 5
      then Some (cron_issue ''CRON_INVALID'' ''cron must have 5 fields (minute hour dom month dow)'')
      else (case find (\<lambda>p. \<not> cron_part_ok p) parts of
              Some p \<Rightarrow> Some (cron_issue ''CRON_INVALID'' (''cron part invalid: '' @ p))
            | None \<Rightarrow> range_issue 0 (zip cron_ranges parts)))"

definition validateTimezone :: "(string \<Rightarrow> bool) \<Rightarrow> string \<Rightarrow> issue option" where
  "validateTimezone known tz =
     (if tz = [] \<or> length (trim tz) = 0
      then Some \<lparr>is_code = ''TIMEZONE_REQUIRED'', is_message = ''timezone is required'', is_field = Some ''timezone''\<rparr>
      else if \<not> known tz
      then Some \<lparr>is_code = ''TIMEZONE_INVALID'', is_message = ''invalid timezone: '' @ tz, is_field = Some ''timezone''\<rparr>
      else None)"

section \<open>Configuration precedence\<close>

record resolved_config =
  rc_defaults :: config
  rc_workflow :: config
  rc_agent :: config
  rc_overrides :: config
  rc_run_now :: "config option"
  rc_resolved :: config
  rc_hash :: string

definition resolveConfigPrecedence ::
  "(string \<Rightarrow> string) \<Rightarrow> config \<Rightarrow> config \<Rightarrow> config \<Rightarrow> config \<Rightarrow> config option \<Rightarrow> resolved_config" where
  "resolveConfigPrecedence sha defaults workflow agent overrides runNow =
     (let resolved = spread (spread (spread (spread (spread [] defaults) workflow) agent) overrides)
            (case runNow of None \<Rightarrow> [] | Some r \<Rightarrow> r)
      in \<lparr>rc_defaults = defaults, rc_workflow = workflow, rc_agent = agent, rc_overrides = overrides,
          rc_run_now = runNow, rc_resolved = resolved, rc_hash = hashConfig sha (plain resolved)\<rparr>)"

section \<open>Version validation\<close>

record forecast =
  fo_sustainable :: bool
  fo_runs_per_day :: rat
  fo_cost_per_day :: rat
  fo_constraints :: "string list option"

record checks =
  ck_timezone :: "string \<Rightarrow> bool"
  ck_version :: "(string \<Rightarrow> string \<Rightarrow> bool \<times> string option) option"
  ck_budget :: "(config \<Rightarrow> bool \<times> string option) option"
  ck_concurrency :: "(rat \<Rightarrow> bool \<times> string option) option"
  ck_forecast :: "(version \<Rightarrow> forecast) option"

record validation =
  va_valid :: bool
  va_issues :: "issue list"
  va_forecast :: "forecast option"

definition version_issue :: "(string \<Rightarrow> string \<Rightarrow> bool \<times> string option) \<Rightarrow> string \<times> string \<times> string \<Rightarrow> issue list" where
  "version_issue exists c =
     (case c of (kind, i, field) \<Rightarrow>
        if i = [] \<or> length (trim i) = 0
        then [\<lparr>is_code = ''VERSION_REQUIRED'', is_message = field @ '' is required'', is_field = Some field\<rparr>]
        else (case exists kind i of
                (False, _) \<Rightarrow> [\<lparr>is_code = ''VERSION_NOT_FOUND'',
                    is_message = kind @ '' version not found: '' @ i, is_field = Some field\<rparr>]
              | (True, lc) \<Rightarrow>
                  if lc = Some ''DEPRECATED'' \<or> lc = Some ''RETIRED'' \<or> lc = Some ''ROLLED_BACK''
                  then [\<lparr>is_code = ''VERSION_DEPRECATED'',
                    is_message = kind @ '' version is deprecated: '' @ i, is_field = Some field\<rparr>]
                  else []))"

definition concurrency_issues :: "checks \<Rightarrow> rat \<Rightarrow> issue list" where
  "concurrency_issues ck n =
     (if rat_of_int \<lfloor>n\<rfloor> \<noteq> n \<or> n < 1 \<or> 32 < n
      then [\<lparr>is_code = ''CONCURRENCY_INVALID'', is_message = ''concurrency must be integer 1..32'',
             is_field = Some ''concurrency''\<rparr>]
      else (case ck_concurrency ck of
              None \<Rightarrow> []
            | Some f \<Rightarrow> (case f n of
                (True, _) \<Rightarrow> []
              | (False, why) \<Rightarrow> [\<lparr>is_code = ''CONCURRENCY_REJECTED'',
                  is_message = (case why of None \<Rightarrow> ''concurrency rejected'' | Some w \<Rightarrow> w),
                  is_field = Some ''concurrency''\<rparr>])))"

definition budget_issues :: "checks \<Rightarrow> config \<Rightarrow> issue list" where
  "budget_issues ck b =
     (case ck_budget ck of
        None \<Rightarrow> []
      | Some f \<Rightarrow> (case f b of
          (True, _) \<Rightarrow> []
        | (False, why) \<Rightarrow> [\<lparr>is_code = ''BUDGET_REJECTED'',
            is_message = (case why of None \<Rightarrow> ''budget rejected'' | Some w \<Rightarrow> w),
            is_field = Some ''budgets''\<rparr>]))"

definition forecast_issues :: "forecast option \<Rightarrow> issue list" where
  "forecast_issues f =
     (case f of
        None \<Rightarrow> []
      | Some x \<Rightarrow>
          if fo_sustainable x then []
          else
            (let text = join_with '', '' (case fo_constraints x of None \<Rightarrow> [] | Some c \<Rightarrow> c)
             in [\<lparr>is_code = ''COST_FORECAST_EXCEEDED'',
                  is_message = ''cost forecast not sustainable: '' @
                    (if text \<noteq> [] then text else ''exceeds budget''),
                  is_field = Some ''budgets''\<rparr>]))"

definition opt_list :: "'a option \<Rightarrow> 'a list" where
  "opt_list x = (case x of None \<Rightarrow> [] | Some a \<Rightarrow> [a])"

definition validateScheduleVersion :: "checks \<Rightarrow> version \<Rightarrow> validation" where
  "validateScheduleVersion ck v =
     (let forecast = map_option (\<lambda>f. f v) (ck_forecast ck);
          issues =
            opt_list (validateCron (ve_cron v)) @
            opt_list (validateTimezone (ck_timezone ck) (ve_timezone v)) @
            (case ck_version ck of
               None \<Rightarrow> []
             | Some exists \<Rightarrow> concat (map (version_issue exists)
                 [(''workflow'', ve_workflow v, ''workflowVersion''),
                  (''agentProfile'', ve_agent v, ''agentProfileVersion''),
                  (''toolProfile'', ve_tool v, ''toolProfileVersion'')])) @
            (if ve_destination v = [] \<or> length (trim (ve_destination v)) = 0
             then [\<lparr>is_code = ''DESTINATION_REQUIRED'', is_message = ''destination is required'',
                    is_field = Some ''destination''\<rparr>]
             else []) @
            concurrency_issues ck (ve_concurrency v) @
            budget_issues ck (ve_budgets v) @
            forecast_issues forecast
      in \<lparr>va_valid = (length issues = 0), va_issues = issues, va_forecast = forecast\<rparr>)"

end
