(* ===== verification/Scheduler_Service.thy ===== *)
theory Scheduler_Service
  imports Scheduler_Config Sql_Table
begin

text \<open>
  The stores and the \<open>SchedulerService\<close> of packages/scheduler/src/index.ts. \<open>ScheduleStore\<close> is a
  record of functions over a store state; \<open>InMemoryScheduleStore\<close> and \<open>DatabaseScheduleStore\<close> (with
  the keys, checks and the foreign key of infra/migrations/0004) are its two instances. The
  external scheduler is an interface without an implementation in the sources: a parameter of
  functions over a state of its own. The values \<open>idGen()\<close> and \<open>nowFn()\<close> return are arguments; time
  stamps are the ISO texts the code passes around.
\<close>

section \<open>Interfaces\<close>

record incident =
  in_type :: string
  in_schedule :: "string option"
  in_external :: "string option"
  in_detail :: string
  in_created_at :: string

record 's store_ops =
  so_get :: "string \<Rightarrow> 's \<Rightarrow> schedule option"
  so_list :: "'s \<Rightarrow> schedule list"
  so_put :: "schedule \<Rightarrow> 's \<Rightarrow> unit result \<times> 's"
  so_get_version :: "string \<Rightarrow> 's \<Rightarrow> version option"
  so_list_versions :: "string \<Rightarrow> 's \<Rightarrow> version list"
  so_put_version :: "version \<Rightarrow> 's \<Rightarrow> unit result \<times> 's"
  so_incident :: "incident \<Rightarrow> 's \<Rightarrow> unit result \<times> 's"

datatype external_patch = PatchCron string | PatchTimezone string | PatchDestination string

record external_schedule =
  es_id :: string
  es_cron :: string
  es_timezone :: string
  es_paused :: bool
  es_destination :: string
  es_schedule :: "string option"

record 'x external_ops =
  eo_list :: "'x \<Rightarrow> external_schedule list"
  eo_create :: "string \<Rightarrow> string \<Rightarrow> string \<Rightarrow> string \<Rightarrow> 'x \<Rightarrow> string result \<times> 'x"
  eo_update :: "string \<Rightarrow> external_patch \<Rightarrow> 'x \<Rightarrow> unit result \<times> 'x"
  eo_remove :: "string \<Rightarrow> 'x \<Rightarrow> unit result \<times> 'x"
  eo_set_paused :: "string \<Rightarrow> bool \<Rightarrow> 'x \<Rightarrow> unit result \<times> 'x"

text \<open>Both stores define \<open>getActiveVersion\<close> alike.\<close>

definition getActiveVersion :: "'s store_ops \<Rightarrow> string \<Rightarrow> 's \<Rightarrow> version option" where
  "getActiveVersion S i st =
     (case so_get S i st of
        None \<Rightarrow> None
      | Some s \<Rightarrow> (case sc_version_id s of
          None \<Rightarrow> None
        | Some v \<Rightarrow> if v = [] then None else so_get_version S v st))"

section \<open>InMemoryScheduleStore\<close>

record memory_store =
  ms_schedules :: "schedule list"
  ms_versions :: "version list"
  ms_incidents :: "incident list"

definition memory_ops :: "memory_store store_ops" where
  "memory_ops =
     \<lparr>so_get = (\<lambda>i st. row_of sc_id (ms_schedules st) i),
      so_list = ms_schedules,
      so_put = (\<lambda>s st. (Inr (), st\<lparr>ms_schedules := upsert sc_id s (ms_schedules st)\<rparr>)),
      so_get_version = (\<lambda>i st. row_of ve_id (ms_versions st) i),
      so_list_versions = (\<lambda>i st. sort_key ve_version (filter (\<lambda>v. ve_schedule v = i) (ms_versions st))),
      so_put_version = (\<lambda>v st. (Inr (), st\<lparr>ms_versions := upsert ve_id v (ms_versions st)\<rparr>)),
      so_incident = (\<lambda>i st. (Inr (), st\<lparr>ms_incidents := ms_incidents st @ [i]\<rparr>))\<rparr>"

section \<open>DatabaseScheduleStore\<close>

record database_store =
  ds_schedules :: "schedule list"
  ds_versions :: "version list"
  ds_incidents :: "incident list"

definition merge_schedule :: "schedule \<Rightarrow> schedule \<Rightarrow> schedule" where
  "merge_schedule new old = new\<lparr>sc_created_at := sc_created_at old\<rparr>"

definition database_put :: "schedule \<Rightarrow> database_store \<Rightarrow> unit result \<times> database_store" where
  "database_put s st =
     (if has_key sc_id (sc_id s) (ds_schedules st)
      then (Inr (), st\<lparr>ds_schedules := update_key sc_id (sc_id s) (merge_schedule s) (ds_schedules st)\<rparr>)
      else (Inr (), st\<lparr>ds_schedules := ds_schedules st @ [s]\<rparr>))"

definition merge_version :: "version \<Rightarrow> version \<Rightarrow> version" where
  "merge_version new old = old\<lparr>ve_lifecycle := ve_lifecycle new, ve_hash := ve_hash new\<rparr>"

definition database_put_version :: "version \<Rightarrow> database_store \<Rightarrow> unit result \<times> database_store" where
  "database_put_version v st =
     (if rat_of_int \<lfloor>ve_concurrency v\<rfloor> \<noteq> ve_concurrency v \<or> ve_concurrency v < 1 \<or> 32 < ve_concurrency v
      then (Inl (DatabaseError ''schedule_versions_concurrency_check''), st)
      else if has_key ve_id (ve_id v) (ds_versions st)
      then (Inr (), st\<lparr>ds_versions := update_key ve_id (ve_id v) (merge_version v) (ds_versions st)\<rparr>)
      else if list_ex (\<lambda>w. ve_schedule w = ve_schedule v \<and> ve_version w = ve_version v) (ds_versions st)
      then (Inl (DatabaseError ''schedule_versions_schedule_id_version_key''), st)
      else if \<not> has_key sc_id (ve_schedule v) (ds_schedules st)
      then (Inl (DatabaseError ''schedule_versions_schedule_id_fkey''), st)
      else (Inr (), st\<lparr>ds_versions := ds_versions st @ [v]\<rparr>))"

definition database_ops :: "database_store store_ops" where
  "database_ops =
     \<lparr>so_get = (\<lambda>i st. row_of sc_id (ds_schedules st) i),
      so_list = (\<lambda>st. sort_key sc_created_at (select (\<lambda>s. sc_state s \<noteq> StDELETED) (ds_schedules st))),
      so_put = database_put,
      so_get_version = (\<lambda>i st. row_of ve_id (ds_versions st) i),
      so_list_versions = (\<lambda>i st. sort_key ve_version (select (\<lambda>v. ve_schedule v = i) (ds_versions st))),
      so_put_version = database_put_version,
      so_incident = (\<lambda>i st. (Inr (), st\<lparr>ds_incidents := ds_incidents st @ [i]\<rparr>))\<rparr>"

section \<open>SchedulerService\<close>

record ('s, 'x) deps =
  dp_store :: "'s store_ops"
  dp_ext :: "'x external_ops option"
  dp_checks :: checks
  dp_defaults :: config
  dp_workflows :: "string \<Rightarrow> config option"
  dp_agents :: "string \<Rightarrow> config option"
  dp_sha :: "string \<Rightarrow> string"

definition on_store :: "('s \<Rightarrow> 'a result \<times> 's) \<Rightarrow> 's \<times> 'x \<Rightarrow> 'a result \<times> ('s \<times> 'x)" where
  "on_store f w = (case w of (st, x) \<Rightarrow> (case f st of (r, st') \<Rightarrow> (r, (st', x))))"

definition on_external :: "('x \<Rightarrow> 'a result \<times> 'x) \<Rightarrow> 's \<times> 'x \<Rightarrow> 'a result \<times> ('s \<times> 'x)" where
  "on_external f w = (case w of (st, x) \<Rightarrow> (case f x of (r, x') \<Rightarrow> (r, (st, x'))))"

definition nextVersionNumber :: "'s store_ops \<Rightarrow> string \<Rightarrow> 's \<Rightarrow> int" where
  "nextVersionNumber S i st =
     (let vs = so_list_versions S i st in
      if length vs = 0 then 1 else foldr max (map ve_version vs) (ve_version (hd vs)) + 1)"

record create_input =
  ci_name :: string
  ci_description :: "string option"
  ci_cron :: string
  ci_timezone :: string
  ci_workflow :: string
  ci_agent :: string
  ci_tool :: string
  ci_model :: "string option"
  ci_prompt :: "string option"
  ci_outcome :: "string option"
  ci_ranking :: "string option"
  ci_alert :: "string option"
  ci_budgets :: config
  ci_concurrency :: rat
  ci_destination :: string
  ci_scope :: "config option"
  ci_created_by :: "string option"

definition or_default :: "'a option \<Rightarrow> 'a \<Rightarrow> 'a" where
  "or_default x d = (case x of None \<Rightarrow> d | Some a \<Rightarrow> a)"

definition new_version :: "(string \<Rightarrow> string) \<Rightarrow> create_input \<Rightarrow> string \<Rightarrow> string \<Rightarrow> string \<Rightarrow> version" where
  "new_version sha i scheduleId versionId now =
     \<lparr>ve_id = versionId, ve_schedule = scheduleId, ve_version = 1, ve_cron = ci_cron i,
      ve_timezone = ci_timezone i, ve_workflow = ci_workflow i, ve_agent = ci_agent i,
      ve_tool = ci_tool i, ve_model = ci_model i, ve_prompt = ci_prompt i, ve_outcome = ci_outcome i,
      ve_ranking = ci_ranking i, ve_alert = ci_alert i, ve_budgets = ci_budgets i,
      ve_concurrency = ci_concurrency i, ve_destination = ci_destination i, ve_external = None,
      ve_scope = or_default (ci_scope i) [], ve_lifecycle = ClDRAFT,
      ve_hash = hashConfig sha
        [(''cron'', Some (VStr (ci_cron i))), (''timezone'', Some (VStr (ci_timezone i))),
         (''workflowVersion'', Some (VStr (ci_workflow i))),
         (''agentProfileVersion'', Some (VStr (ci_agent i))),
         (''toolProfileVersion'', Some (VStr (ci_tool i))), (''budgets'', Some (VObj (ci_budgets i))),
         (''concurrency'', Some (VNum (ci_concurrency i))),
         (''destination'', Some (VStr (ci_destination i))),
         (''targetScope'', map_option VObj (ci_scope i))],
      ve_created_at = now, ve_created_by = or_default (ci_created_by i) ''system''\<rparr>"

definition draft_schedule :: "string \<Rightarrow> string \<Rightarrow> string option \<Rightarrow> string \<Rightarrow> string \<Rightarrow> schedule" where
  "draft_schedule scheduleId name description versionId now =
     \<lparr>sc_id = scheduleId, sc_name = name, sc_description = description, sc_state = StDRAFT,
      sc_version_id = Some versionId, sc_version_number = Some 1, sc_external = None,
      sc_paused = False, sc_created_at = now, sc_updated_at = now\<rparr>"

definition put_both ::
  "('s, 'x) deps \<Rightarrow> version \<Rightarrow> schedule \<Rightarrow> 's \<times> 'x \<Rightarrow> (schedule \<times> version) result \<times> ('s \<times> 'x)" where
  "put_both d v s w =
     and_then (on_store (so_put_version (dp_store d) v) w) (\<lambda>_ w.
     and_then (on_store (so_put (dp_store d) s) w) (\<lambda>_ w. (Inr (s, v), w)))"

definition create ::
  "('s, 'x) deps \<Rightarrow> create_input \<Rightarrow> string \<Rightarrow> string \<Rightarrow> string \<Rightarrow> 's \<times> 'x \<Rightarrow>
   (schedule \<times> version) result \<times> ('s \<times> 'x)" where
  "create d i scheduleId versionId now w =
     (if ci_name i = [] \<or> length (trim (ci_name i)) = 0 then (Inl (Error ''SCHEDULE_NAME_REQUIRED''), w)
      else (case validateCron (ci_cron i) of
              Some e \<Rightarrow> (Inl (Error (is_code e)), w)
            | None \<Rightarrow> (case validateTimezone (ck_timezone (dp_checks d)) (ci_timezone i) of
                Some e \<Rightarrow> (Inl (Error (is_code e)), w)
              | None \<Rightarrow> put_both d (new_version (dp_sha d) i scheduleId versionId now)
                  (draft_schedule scheduleId (ci_name i) (ci_description i) versionId now) w)))"

record draft_patch =
  pa_name :: "string option"
  pa_description :: "string option option"
  pa_cron :: "string option"
  pa_timezone :: "string option"
  pa_workflow :: "string option"
  pa_agent :: "string option"
  pa_tool :: "string option"
  pa_budgets :: "config option"
  pa_concurrency :: "rat option"
  pa_destination :: "string option"
  pa_scope :: "config option"

definition patched_version ::
  "(string \<Rightarrow> string) \<Rightarrow> draft_patch \<Rightarrow> version \<Rightarrow> string \<Rightarrow> int \<Rightarrow> string \<Rightarrow> string option \<Rightarrow> version" where
  "patched_version sha p cur versionId n now actor =
     cur\<lparr>ve_id := versionId, ve_version := n, ve_cron := or_default (pa_cron p) (ve_cron cur),
         ve_timezone := or_default (pa_timezone p) (ve_timezone cur),
         ve_workflow := or_default (pa_workflow p) (ve_workflow cur),
         ve_agent := or_default (pa_agent p) (ve_agent cur),
         ve_tool := or_default (pa_tool p) (ve_tool cur),
         ve_budgets := or_default (pa_budgets p) (ve_budgets cur),
         ve_concurrency := or_default (pa_concurrency p) (ve_concurrency cur),
         ve_destination := or_default (pa_destination p) (ve_destination cur),
         ve_scope := or_default (pa_scope p) (ve_scope cur), ve_lifecycle := ClDRAFT,
         ve_hash := hashConfig sha
           [(''cron'', Some (VStr (or_default (pa_cron p) (ve_cron cur)))),
            (''timezone'', Some (VStr (or_default (pa_timezone p) (ve_timezone cur)))),
            (''workflowVersion'', Some (VStr (or_default (pa_workflow p) (ve_workflow cur))))],
         ve_created_at := now, ve_created_by := or_default actor ''system''\<rparr>"

definition editDraft ::
  "('s, 'x) deps \<Rightarrow> string \<Rightarrow> draft_patch \<Rightarrow> string option \<Rightarrow> string \<Rightarrow> string \<Rightarrow> 's \<times> 'x \<Rightarrow>
   (schedule \<times> version) result \<times> ('s \<times> 'x)" where
  "editDraft d scheduleId p actor versionId now w =
     (case so_get (dp_store d) scheduleId (fst w) of
        None \<Rightarrow> (Inl (Error ''SCHEDULE_NOT_FOUND''), w)
      | Some s \<Rightarrow>
          if sc_state s \<noteq> StDRAFT then (Inl (Error ''EDIT_ONLY_IN_DRAFT''), w)
          else (case getActiveVersion (dp_store d) scheduleId (fst w) of
                  None \<Rightarrow> (Inl (Error ''VERSION_NOT_FOUND''), w)
                | Some cur \<Rightarrow>
                    (let n = nextVersionNumber (dp_store d) scheduleId (fst w) in
                     put_both d (patched_version (dp_sha d) p cur versionId n now actor)
                       (s\<lparr>sc_name := or_default (pa_name p) (sc_name s),
                          sc_description := or_default (pa_description p) (sc_description s),
                          sc_version_id := Some versionId, sc_version_number := Some n,
                          sc_updated_at := now\<rparr>) w)))"

definition validate :: "('s, 'x) deps \<Rightarrow> string \<Rightarrow> 's \<times> 'x \<Rightarrow> validation result \<times> ('s \<times> 'x)" where
  "validate d scheduleId w =
     (case getActiveVersion (dp_store d) scheduleId (fst w) of
        None \<Rightarrow> (Inl (Error ''VERSION_NOT_FOUND''), w)
      | Some v \<Rightarrow>
          (let result = validateScheduleVersion (dp_checks d) v in
           if va_valid result \<and> ve_lifecycle v = ClDRAFT
           then and_then (on_store (so_put_version (dp_store d) (v\<lparr>ve_lifecycle := ClVALIDATED\<rparr>)) w)
                  (\<lambda>_ w. (Inr result, w))
           else (Inr result, w)))"

text \<open>The three promotions in a row.\<close>

definition promote :: "config_lifecycle \<Rightarrow> config_lifecycle" where
  "promote l =
     (let l = (if l = ClDRAFT then ClVALIDATED else l);
          l = (if l = ClVALIDATED then ClAPPROVED else l)
      in if l = ClAPPROVED then ClACTIVE else l)"

definition create_external ::
  "('s, 'x) deps \<Rightarrow> schedule \<Rightarrow> version \<Rightarrow> 's \<times> 'x \<Rightarrow> string option result \<times> ('s \<times> 'x)" where
  "create_external d s v w =
     (case dp_ext d of
        None \<Rightarrow> (Inr (sc_external s), w)
      | Some e \<Rightarrow> and_then (on_external (eo_create e (sc_id s) (ve_cron v) (ve_timezone v) (ve_destination v)) w)
          (\<lambda>i w. (Inr (Some i), w)))"

definition enable ::
  "('s, 'x) deps \<Rightarrow> string \<Rightarrow> string \<Rightarrow> 's \<times> 'x \<Rightarrow> (schedule \<times> version) result \<times> ('s \<times> 'x)" where
  "enable d scheduleId now w =
     (case so_get (dp_store d) scheduleId (fst w) of
        None \<Rightarrow> (Inl (Error ''SCHEDULE_NOT_FOUND''), w)
      | Some s \<Rightarrow>
          if sc_state s \<noteq> StDRAFT then (Inl (Error ''ENABLE_ONLY_FROM_DRAFT''), w)
          else (case getActiveVersion (dp_store d) scheduleId (fst w) of
                  None \<Rightarrow> (Inl (Error ''VERSION_NOT_FOUND''), w)
                | Some v \<Rightarrow>
                    (let va = validateScheduleVersion (dp_checks d) v;
                         v' = v\<lparr>ve_lifecycle := promote (ve_lifecycle v)\<rparr> in
                     if \<not> va_valid va
                     then (Inl (Error (''VALIDATION_FAILED:'' @ join_with '','' (map is_code (va_issues va)))), w)
                     else
                       and_then (on_store (so_put_version (dp_store d) v') w) (\<lambda>_ w.
                       and_then (create_external d s v w) (\<lambda>ext w.
                         (let s' = s\<lparr>sc_state := StACTIVE, sc_external := ext, sc_paused := False,
                                     sc_updated_at := now, sc_version_id := Some (ve_id v')\<rparr> in
                          and_then (on_store (so_put (dp_store d) s') w) (\<lambda>_ w. (Inr (s', v'), w))))))))"

text \<open>The external call of \<open>pause\<close>, \<open>resume\<close> and \<open>disable\<close>: only with an external scheduler and a
  non-empty external id.\<close>

definition call_external ::
  "('s, 'x) deps \<Rightarrow> schedule \<Rightarrow> ('x external_ops \<Rightarrow> string \<Rightarrow> 'x \<Rightarrow> unit result \<times> 'x) \<Rightarrow> 's \<times> 'x \<Rightarrow>
   unit result \<times> ('s \<times> 'x)" where
  "call_external d s f w =
     (case (dp_ext d, sc_external s) of
        (Some e, Some i) \<Rightarrow> if i = [] then (Inr (), w) else on_external (f e i) w
      | _ \<Rightarrow> (Inr (), w))"

definition put_schedule :: "('s, 'x) deps \<Rightarrow> schedule \<Rightarrow> 's \<times> 'x \<Rightarrow> schedule result \<times> ('s \<times> 'x)" where
  "put_schedule d s w = and_then (on_store (so_put (dp_store d) s) w) (\<lambda>_ w. (Inr s, w))"

definition pause :: "('s, 'x) deps \<Rightarrow> string \<Rightarrow> string \<Rightarrow> 's \<times> 'x \<Rightarrow> schedule result \<times> ('s \<times> 'x)" where
  "pause d scheduleId now w =
     (case so_get (dp_store d) scheduleId (fst w) of
        None \<Rightarrow> (Inl (Error ''SCHEDULE_NOT_FOUND''), w)
      | Some s \<Rightarrow>
          if sc_state s \<noteq> StACTIVE \<and> sc_state s \<noteq> StDEGRADED
          then (Inl (Error ''PAUSE_ONLY_FROM_ACTIVE_OR_DEGRADED''), w)
          else and_then (call_external d s (\<lambda>e i. eo_set_paused e i True) w) (\<lambda>_ w.
            put_schedule d (s\<lparr>sc_state := StPAUSED, sc_paused := True, sc_updated_at := now\<rparr>) w))"

definition resume :: "('s, 'x) deps \<Rightarrow> string \<Rightarrow> string \<Rightarrow> 's \<times> 'x \<Rightarrow> schedule result \<times> ('s \<times> 'x)" where
  "resume d scheduleId now w =
     (case so_get (dp_store d) scheduleId (fst w) of
        None \<Rightarrow> (Inl (Error ''SCHEDULE_NOT_FOUND''), w)
      | Some s \<Rightarrow>
          if sc_state s \<noteq> StPAUSED then (Inl (Error ''RESUME_ONLY_FROM_PAUSED''), w)
          else and_then (call_external d s (\<lambda>e i. eo_set_paused e i False) w) (\<lambda>_ w.
            put_schedule d (s\<lparr>sc_state := StACTIVE, sc_paused := False, sc_updated_at := now\<rparr>) w))"

definition schedule_overrides :: "version \<Rightarrow> config" where
  "schedule_overrides v =
     spread [(''cron'', VStr (ve_cron v)), (''timezone'', VStr (ve_timezone v)),
             (''destination'', VStr (ve_destination v)), (''budgets'', VObj (ve_budgets v)),
             (''concurrency'', VNum (ve_concurrency v))] (ve_scope v)"

definition resolved_for :: "('s, 'x) deps \<Rightarrow> version \<Rightarrow> config option \<Rightarrow> resolved_config" where
  "resolved_for d v overrides =
     resolveConfigPrecedence (dp_sha d) (dp_defaults d) (or_default (dp_workflows d (ve_workflow v)) [])
       (or_default (dp_agents d (ve_agent v)) []) (schedule_overrides v) overrides"

record run_now =
  rw_schedule :: schedule
  rw_config :: resolved_config
  rw_run_id :: string

definition runNow :: "('s, 'x) deps \<Rightarrow> string \<Rightarrow> config option \<Rightarrow> string \<Rightarrow> 's \<Rightarrow> run_now result" where
  "runNow d scheduleId overrides now st =
     (case so_get (dp_store d) scheduleId st of
        None \<Rightarrow> Inl (Error ''SCHEDULE_NOT_FOUND'')
      | Some s \<Rightarrow>
          if sc_state s \<noteq> StACTIVE \<and> sc_state s \<noteq> StPAUSED \<and> sc_state s \<noteq> StDEGRADED
          then Inl (Error ''RUN_NOW_ONLY_WHEN_ACTIVE_OR_PAUSED'')
          else (case getActiveVersion (dp_store d) scheduleId st of
                  None \<Rightarrow> Inl (Error ''VERSION_NOT_FOUND'')
                | Some v \<Rightarrow>
                    (let rc = resolved_for d v overrides in
                     Inr \<lparr>rw_schedule = s, rw_config = rc,
                          rw_run_id = ''run-'' @ take 16 (dp_sha d
                            (scheduleId @ '':'' @ ve_id v @ '':'' @ rc_hash rc @ '':'' @ now))\<rparr>)))"

text \<open>\<open>dryRun\<close> without overrides.\<close>

definition dryRun :: "('s, 'x) deps \<Rightarrow> string \<Rightarrow> 's \<Rightarrow> (validation \<times> resolved_config) result" where
  "dryRun d scheduleId st =
     (case getActiveVersion (dp_store d) scheduleId st of
        None \<Rightarrow> Inl (Error ''VERSION_NOT_FOUND'')
      | Some v \<Rightarrow> Inr (validateScheduleVersion (dp_checks d) v, resolved_for d v None))"

definition duplicate ::
  "('s, 'x) deps \<Rightarrow> string \<Rightarrow> string option \<Rightarrow> string \<Rightarrow> string \<Rightarrow> string \<Rightarrow> 's \<times> 'x \<Rightarrow>
   (schedule \<times> version) result \<times> ('s \<times> 'x)" where
  "duplicate d scheduleId newName newScheduleId newVersionId now w =
     (case so_get (dp_store d) scheduleId (fst w) of
        None \<Rightarrow> (Inl (Error ''SCHEDULE_NOT_FOUND''), w)
      | Some s \<Rightarrow> (case getActiveVersion (dp_store d) scheduleId (fst w) of
          None \<Rightarrow> (Inl (Error ''VERSION_NOT_FOUND''), w)
        | Some v \<Rightarrow>
            put_both d (v\<lparr>ve_id := newVersionId, ve_schedule := newScheduleId, ve_version := 1,
                          ve_lifecycle := ClDRAFT, ve_created_at := now, ve_created_by := ''system''\<rparr>)
              (draft_schedule newScheduleId (or_default newName (sc_name s @ '' (copy)'')) (sc_description s)
                 newVersionId now) w))"

definition deprecate_active :: "('s, 'x) deps \<Rightarrow> string \<Rightarrow> 's \<times> 'x \<Rightarrow> unit result \<times> ('s \<times> 'x)" where
  "deprecate_active d scheduleId w =
     (case getActiveVersion (dp_store d) scheduleId (fst w) of
        None \<Rightarrow> (Inr (), w)
      | Some v \<Rightarrow> if ve_lifecycle v = ClACTIVE
          then on_store (so_put_version (dp_store d) (v\<lparr>ve_lifecycle := ClDEPRECATED\<rparr>)) w
          else (Inr (), w))"

definition disable :: "('s, 'x) deps \<Rightarrow> string \<Rightarrow> string \<Rightarrow> 's \<times> 'x \<Rightarrow> schedule result \<times> ('s \<times> 'x)" where
  "disable d scheduleId now w =
     (case so_get (dp_store d) scheduleId (fst w) of
        None \<Rightarrow> (Inl (Error ''SCHEDULE_NOT_FOUND''), w)
      | Some s \<Rightarrow>
          if sc_state s = StDISABLED \<or> sc_state s = StDELETED then (Inl (Error ''ALREADY_DISABLED_OR_DELETED''), w)
          else if sc_state s \<notin> {StDRAFT, StACTIVE, StPAUSED, StDEGRADED}
          then (Inl (Error ''DISABLE_NOT_ALLOWED_FROM_STATE''), w)
          else and_then (call_external d s eo_remove w) (\<lambda>_ w.
            and_then (deprecate_active d scheduleId w) (\<lambda>_ w.
              put_schedule d (s\<lparr>sc_state := StDISABLED, sc_paused := False, sc_external := None,
                sc_updated_at := now\<rparr>) w)))"

definition delete :: "('s, 'x) deps \<Rightarrow> string \<Rightarrow> string \<Rightarrow> 's \<times> 'x \<Rightarrow> schedule result \<times> ('s \<times> 'x)" where
  "delete d scheduleId now w =
     (case so_get (dp_store d) scheduleId (fst w) of
        None \<Rightarrow> (Inl (Error ''SCHEDULE_NOT_FOUND''), w)
      | Some s \<Rightarrow>
          if sc_state s \<noteq> StDISABLED then (Inl (Error ''DELETE_ONLY_FROM_DISABLED''), w)
          else put_schedule d (s\<lparr>sc_state := StDELETED, sc_updated_at := now\<rparr>) w)"

definition getResolvedConfig :: "('s, 'x) deps \<Rightarrow> string \<Rightarrow> 's \<Rightarrow> resolved_config result" where
  "getResolvedConfig d scheduleId st =
     (case getActiveVersion (dp_store d) scheduleId st of
        None \<Rightarrow> Inl (Error ''VERSION_NOT_FOUND'')
      | Some v \<Rightarrow> Inr (resolved_for d v None))"

end
