(* ===== verification/Scheduler_Reconcile.thy ===== *)
theory Scheduler_Reconcile
  imports Scheduler_Service
begin

text \<open>
  \<open>reconcileSchedules\<close> of packages/scheduler/src/index.ts: the comparison of the active and paused
  schedules of a store with the external scheduler's list, the incidents it records and the repairs
  it makes through an external writer. The accumulator of the loops is the pair of \<open>incidents\<close> and
  \<open>repaired\<close>; the value \<open>now()\<close> returns is an argument.
\<close>

record drift =
  dr_type :: string
  dr_schedule :: "string option"
  dr_external :: "string option"
  dr_detail :: string

type_synonym tally = "drift list \<times> nat"

definition stamp :: "string \<Rightarrow> drift \<Rightarrow> incident" where
  "stamp now r =
     \<lparr>in_type = dr_type r, in_schedule = dr_schedule r, in_external = dr_external r,
      in_detail = dr_detail r, in_created_at = now\<rparr>"

definition report ::
  "'s store_ops \<Rightarrow> string \<Rightarrow> drift \<Rightarrow> tally \<Rightarrow> 's \<times> 'x \<Rightarrow> tally result \<times> ('s \<times> 'x)" where
  "report S now r acc w =
     and_then (on_store (so_incident S (stamp now r)) w) (\<lambda>_ w. (Inr (fst acc @ [r], snd acc), w))"

text \<open>\<open>if (input.repair \<and> input.externalWriter) { await ...; repaired++; }\<close>; the writer is \<open>None\<close> when
  \<open>repair\<close> is off.\<close>

definition repair ::
  "'x external_ops option \<Rightarrow> ('x external_ops \<Rightarrow> 'x \<Rightarrow> unit result \<times> 'x) \<Rightarrow> tally \<Rightarrow> 's \<times> 'x \<Rightarrow>
   tally result \<times> ('s \<times> 'x)" where
  "repair writer act acc w =
     (case writer of
        None \<Rightarrow> (Inr acc, w)
      | Some e \<Rightarrow> and_then (on_external (act e) w) (\<lambda>_ w. (Inr (fst acc, Suc (snd acc)), w)))"

text \<open>One of the comparisons: report and repair when it fails.\<close>

definition compare_field ::
  "'s store_ops \<Rightarrow> 'x external_ops option \<Rightarrow> string \<Rightarrow> bool \<Rightarrow> drift \<Rightarrow>
   ('x external_ops \<Rightarrow> 'x \<Rightarrow> unit result \<times> 'x) \<Rightarrow> tally \<Rightarrow> 's \<times> 'x \<Rightarrow> tally result \<times> ('s \<times> 'x)" where
  "compare_field S writer now differs r act acc w =
     (if differs then and_then (report S now r acc w) (repair writer act) else (Inr acc, w))"

text \<open>The maps built before the loops; a later entry replaces an earlier one with the same key.\<close>

definition truthy_id :: "string option \<Rightarrow> bool" where
  "truthy_id i = (case i of None \<Rightarrow> False | Some s \<Rightarrow> s \<noteq> [])"

definition last_with :: "('a \<Rightarrow> bool) \<Rightarrow> 'a list \<Rightarrow> 'a option" where
  "last_with P xs = find P (rev xs)"

definition matching_external :: "external_schedule list \<Rightarrow> schedule \<Rightarrow> external_schedule option" where
  "matching_external external db =
     (if truthy_id (sc_external db) then last_with (\<lambda>e. Some (es_id e) = sc_external db) external
      else last_with (\<lambda>e. truthy_id (es_schedule e) \<and> es_schedule e = Some (sc_id db)) external)"

definition missing_drift :: "schedule \<Rightarrow> drift" where
  "missing_drift db =
     \<lparr>dr_type = ''MISSING_EXTERNAL'', dr_schedule = Some (sc_id db), dr_external = sc_external db,
      dr_detail = ''active DB schedule '' @ sc_id db @ '' missing in QStash''\<rparr>"

definition field_drift :: "string \<Rightarrow> schedule \<Rightarrow> external_schedule \<Rightarrow> string \<Rightarrow> string \<Rightarrow> string \<Rightarrow> drift" where
  "field_drift type db ext what mine theirs =
     \<lparr>dr_type = type, dr_schedule = Some (sc_id db), dr_external = Some (es_id ext),
      dr_detail = what @ '' mismatch db='' @ mine @ '' external='' @ theirs\<rparr>"

definition link_drift :: "schedule \<Rightarrow> external_schedule \<Rightarrow> drift" where
  "link_drift db ext =
     \<lparr>dr_type = ''EXTERNAL_ID_MISMATCH'', dr_schedule = Some (sc_id db), dr_external = Some (es_id ext),
      dr_detail = ''externalId schedule mismatch db='' @ sc_id db @ '' external.scheduleId='' @
        (case es_schedule ext of None \<Rightarrow> [] | Some s \<Rightarrow> s)\<rparr>"

definition recreate ::
  "'s store_ops \<Rightarrow> 'x external_ops option \<Rightarrow> string \<Rightarrow> schedule \<Rightarrow> version \<Rightarrow> tally \<Rightarrow> 's \<times> 'x \<Rightarrow>
   tally result \<times> ('s \<times> 'x)" where
  "recreate S writer now db v acc w =
     (case writer of
        None \<Rightarrow> (Inr acc, w)
      | Some e \<Rightarrow>
          and_then (on_external (eo_create e (sc_id db) (ve_cron v) (ve_timezone v) (ve_destination v)) w) (\<lambda>i w.
          and_then (on_store (so_put S (db\<lparr>sc_external := Some i, sc_updated_at := now\<rparr>)) w) (\<lambda>_ w.
            (Inr (fst acc, Suc (snd acc)), w))))"

definition is_paused :: "schedule \<Rightarrow> bool" where
  "is_paused db = (sc_state db = StPAUSED)"

definition compare_fields ::
  "'s store_ops \<Rightarrow> 'x external_ops option \<Rightarrow> string \<Rightarrow> schedule \<Rightarrow> version \<Rightarrow> external_schedule \<Rightarrow> tally \<Rightarrow>
   's \<times> 'x \<Rightarrow> tally result \<times> ('s \<times> 'x)" where
  "compare_fields S writer now db v ext acc w =
     and_then (compare_field S writer now (es_cron ext \<noteq> ve_cron v)
       (field_drift ''CRON_MISMATCH'' db ext ''cron'' (ve_cron v) (es_cron ext))
       (\<lambda>e. eo_update e (es_id ext) (PatchCron (ve_cron v))) acc w) (\<lambda>acc w.
     and_then (compare_field S writer now (es_timezone ext \<noteq> ve_timezone v)
       (field_drift ''TIMEZONE_MISMATCH'' db ext ''timezone'' (ve_timezone v) (es_timezone ext))
       (\<lambda>e. eo_update e (es_id ext) (PatchTimezone (ve_timezone v))) acc w) (\<lambda>acc w.
     and_then (compare_field S writer now (es_paused ext \<noteq> is_paused db)
       (field_drift ''PAUSED_MISMATCH'' db ext ''paused'' (show_bool (is_paused db)) (show_bool (es_paused ext)))
       (\<lambda>e. eo_set_paused e (es_id ext) (is_paused db)) acc w) (\<lambda>acc w.
     and_then (compare_field S writer now (es_destination ext \<noteq> ve_destination v)
       (field_drift ''DESTINATION_MISMATCH'' db ext ''destination'' (ve_destination v) (es_destination ext))
       (\<lambda>e. eo_update e (es_id ext) (PatchDestination (ve_destination v))) acc w) (\<lambda>acc w.
     compare_field S None now (truthy_id (es_schedule ext) \<and> es_schedule ext \<noteq> Some (sc_id db))
       (link_drift db ext) (\<lambda>e x. (Inr (), x)) acc w))))"

definition check_schedule ::
  "'s store_ops \<Rightarrow> 'x external_ops option \<Rightarrow> string \<Rightarrow> external_schedule list \<Rightarrow> schedule \<Rightarrow> tally \<Rightarrow>
   's \<times> 'x \<Rightarrow> tally result \<times> ('s \<times> 'x)" where
  "check_schedule S writer now external db acc w =
     (case getActiveVersion S (sc_id db) (fst w) of
        None \<Rightarrow> (Inr acc, w)
      | Some v \<Rightarrow> (case matching_external external db of
          None \<Rightarrow> and_then (report S now (missing_drift db) acc w) (recreate S writer now db v)
        | Some ext \<Rightarrow> compare_fields S writer now db v ext acc w))"

definition linked_active :: "schedule list \<Rightarrow> external_schedule \<Rightarrow> bool" where
  "linked_active dbs ext =
     (if truthy_id (es_schedule ext) then list_ex (\<lambda>s. Some (sc_id s) = es_schedule ext) dbs
      else es_id ext \<noteq> [] \<and> list_ex (\<lambda>s. sc_external s = Some (es_id ext)) dbs)"

text \<open>\<open>claimed\<close>: a value of \<open>dbByExternal\<close>, hence a schedule with a non-empty external id.\<close>

definition claimed_by :: "schedule list \<Rightarrow> string \<Rightarrow> bool" where
  "claimed_by dbs i = list_ex (\<lambda>s. truthy_id (sc_external s) \<and> sc_external s = Some i) dbs"

definition orphan_drift :: "external_schedule \<Rightarrow> drift" where
  "orphan_drift ext =
     (case es_schedule ext of
        Some s \<Rightarrow> if s = [] then
            \<lparr>dr_type = ''ORPHAN_EXTERNAL'', dr_schedule = None, dr_external = Some (es_id ext),
             dr_detail = ''orphan QStash schedule '' @ es_id ext @ '' with no active DB schedule''\<rparr>
          else
            \<lparr>dr_type = ''ORPHAN_EXTERNAL'', dr_schedule = Some s, dr_external = Some (es_id ext),
             dr_detail = ''QStash schedule '' @ es_id ext @ '' references inactive/missing DB schedule '' @ s\<rparr>
      | None \<Rightarrow>
          \<lparr>dr_type = ''ORPHAN_EXTERNAL'', dr_schedule = None, dr_external = Some (es_id ext),
           dr_detail = ''orphan QStash schedule '' @ es_id ext @ '' with no active DB schedule''\<rparr>)"

definition check_orphan ::
  "'s store_ops \<Rightarrow> 'x external_ops option \<Rightarrow> string \<Rightarrow> schedule list \<Rightarrow> external_schedule \<Rightarrow> tally \<Rightarrow>
   's \<times> 'x \<Rightarrow> tally result \<times> ('s \<times> 'x)" where
  "check_orphan S writer now dbs ext acc w =
     (if linked_active dbs ext then (Inr acc, w)
      else if \<not> claimed_by dbs (es_id ext) \<and> \<not> truthy_id (es_schedule ext) then
        compare_field S writer now True (orphan_drift ext) (\<lambda>e. eo_remove e (es_id ext)) acc w
      else if truthy_id (es_schedule ext) then
        compare_field S writer now True (orphan_drift ext) (\<lambda>e. eo_remove e (es_id ext)) acc w
      else (Inr acc, w))"

fun for_each :: "('a \<Rightarrow> 'c \<Rightarrow> 'w \<Rightarrow> 'c result \<times> 'w) \<Rightarrow> 'a list \<Rightarrow> 'c \<Rightarrow> 'w \<Rightarrow> 'c result \<times> 'w" where
  "for_each f [] acc w = (Inr acc, w)"
| "for_each f (x # xs) acc w = and_then (f x acc w) (for_each f xs)"

definition reconcileSchedules ::
  "'s store_ops \<Rightarrow> ('x \<Rightarrow> external_schedule list) \<Rightarrow> bool \<Rightarrow> 'x external_ops option \<Rightarrow> string \<Rightarrow> 's \<times> 'x \<Rightarrow>
   tally result \<times> ('s \<times> 'x)" where
  "reconcileSchedules S reader repair_on writer now w =
     (let dbs = filter (\<lambda>s. sc_state s = StACTIVE \<or> sc_state s = StPAUSED) (so_list S (fst w));
          external = reader (snd w);
          wr = (if repair_on then writer else None) in
      and_then (for_each (check_schedule S wr now external) dbs ([], 0) w)
        (for_each (check_orphan S wr now dbs) external))"

end
