(* ===== verification/Scheduler_Facts.thy ===== *)
theory Scheduler_Facts
  imports Scheduler_Service
begin

text \<open>
  Properties of the scheduling control plane. The locale \<open>schedule_store\<close> states what the service
  relies on from a \<open>ScheduleStore\<close>; both stores provide it. Inside it, every operation of the
  service moves schedules along the transition table and leaves versions immutable but for their
  lifecycle.
\<close>

section \<open>What operations may do\<close>

definition schedule_moves :: "schedule \<Rightarrow> schedule \<Rightarrow> bool" where
  "schedule_moves s s' \<longleftrightarrow>
     sc_id s' = sc_id s \<and> sc_created_at s' = sc_created_at s \<and>
     (sc_state s' = sc_state s \<or> canTransitionSchedule (sc_state s) (sc_state s')) \<and>
     (sc_paused s = (sc_state s = StPAUSED) \<longrightarrow> sc_paused s' = (sc_state s' = StPAUSED))"

definition version_moves :: "version \<Rightarrow> version \<Rightarrow> bool" where
  "version_moves v v' \<longleftrightarrow> (\<exists>l. v' = v\<lparr>ve_lifecycle := l\<rparr> \<and> canTransitionConfig\<^sup>*\<^sup>* (ve_lifecycle v) l)"

lemma schedule_moves_refl [simp]: "schedule_moves s s"
  by (simp add: schedule_moves_def)

lemma version_moves_refl [simp]: "version_moves v v"
  unfolding version_moves_def by (rule exI [of _ "ve_lifecycle v"]) simp

lemma version_moves_trans: "version_moves u v \<Longrightarrow> version_moves v w \<Longrightarrow> version_moves u w"
  unfolding version_moves_def by (auto intro: rtranclp_trans)

lemma version_moves_id: "version_moves v v' \<Longrightarrow> ve_id v' = ve_id v"
  by (auto simp: version_moves_def)

lemma promote_moves: "canTransitionConfig\<^sup>*\<^sup>* l (promote l)"
proof -
  have a: "canTransitionConfig ClAPPROVED ClACTIVE" and b: "canTransitionConfig ClVALIDATED ClAPPROVED"
    and c: "canTransitionConfig ClDRAFT ClVALIDATED" by (simp_all add: canTransitionConfig_def)
  note one = r_into_rtranclp [of canTransitionConfig, OF a]
  note two = converse_rtranclp_into_rtranclp [of canTransitionConfig, OF b one]
  note three = converse_rtranclp_into_rtranclp [of canTransitionConfig, OF c two]
  show ?thesis using one two three by (cases l) (simp_all add: promote_def)
qed

lemma lifecycle_update_moves:
  "canTransitionConfig\<^sup>*\<^sup>* (ve_lifecycle v) l \<Longrightarrow> version_moves v (v\<lparr>ve_lifecycle := l\<rparr>)"
  by (auto simp: version_moves_def)

definition schedules_kept :: "'s store_ops \<Rightarrow> 's \<Rightarrow> 's \<Rightarrow> bool" where
  "schedules_kept S st st' \<longleftrightarrow>
     (\<forall>i. case so_get S i st of
            Some s \<Rightarrow> (\<exists>s'. so_get S i st' = Some s' \<and> schedule_moves s s')
          | None \<Rightarrow> (\<forall>s'. so_get S i st' = Some s' \<longrightarrow> sc_state s' = StDRAFT \<and> \<not> sc_paused s'))"

definition versions_kept :: "'s store_ops \<Rightarrow> 's \<Rightarrow> 's \<Rightarrow> bool" where
  "versions_kept S st st' \<longleftrightarrow>
     (\<forall>i v. so_get_version S i st = Some v \<longrightarrow> (\<exists>v'. so_get_version S i st' = Some v' \<and> version_moves v v'))"

definition kept :: "'s store_ops \<Rightarrow> 's \<Rightarrow> 's \<times> 'x \<Rightarrow> bool" where
  "kept S st w \<longleftrightarrow> schedules_kept S st (fst w) \<and> versions_kept S st (fst w)"

text \<open>Between the write of the version and the write of the schedule.\<close>

definition halfway :: "'s store_ops \<Rightarrow> 's \<Rightarrow> 's \<times> 'x \<Rightarrow> bool" where
  "halfway S st w \<longleftrightarrow> (\<forall>i. so_get S i (fst w) = so_get S i st) \<and> versions_kept S st (fst w)"

definition schedule_ok :: "'s store_ops \<Rightarrow> 's \<Rightarrow> schedule \<Rightarrow> bool" where
  "schedule_ok S st s \<longleftrightarrow>
     (case so_get S (sc_id s) st of
        Some old \<Rightarrow> schedule_moves old s
      | None \<Rightarrow> sc_state s = StDRAFT \<and> \<not> sc_paused s)"

lemma versions_kept_refl [simp]: "versions_kept S st st"
  by (simp add: versions_kept_def)

lemma halfway_kept: "halfway S st w \<Longrightarrow> kept S st w"
  unfolding halfway_def kept_def schedules_kept_def by (auto split: option.splits)

lemma halfway_refl: "halfway S (fst w) w"
  by (simp add: halfway_def)

lemma kept_refl: "kept S (fst w) w"
  by (rule halfway_kept [OF halfway_refl])

section \<open>Operations of the service\<close>

datatype sched_op =
    OpCreate create_input string string string
  | OpEdit string draft_patch "string option" string string
  | OpValidate string
  | OpEnable string string
  | OpPause string string
  | OpResume string string
  | OpDuplicate string "string option" string string string
  | OpDisable string string
  | OpDelete string string

fun sched_exec :: "('s, 'x) deps \<Rightarrow> sched_op \<Rightarrow> 's \<times> 'x \<Rightarrow> 's \<times> 'x" where
  "sched_exec d (OpCreate i s v now) w = snd (create d i s v now w)"
| "sched_exec d (OpEdit s p a v now) w = snd (editDraft d s p a v now w)"
| "sched_exec d (OpValidate s) w = snd (validate d s w)"
| "sched_exec d (OpEnable s now) w = snd (enable d s now w)"
| "sched_exec d (OpPause s now) w = snd (pause d s now w)"
| "sched_exec d (OpResume s now) w = snd (resume d s now w)"
| "sched_exec d (OpDuplicate s n s' v' now) w = snd (duplicate d s n s' v' now w)"
| "sched_exec d (OpDisable s now) w = snd (disable d s now w)"
| "sched_exec d (OpDelete s now) w = snd (delete d s now w)"

text \<open>\<open>randomUUID()\<close> returns identifiers that are not in use.\<close>

fun fresh_op :: "'s store_ops \<Rightarrow> sched_op \<Rightarrow> 's \<Rightarrow> bool" where
  "fresh_op S (OpCreate i s v now) st = (so_get S s st = None \<and> so_get_version S v st = None)"
| "fresh_op S (OpEdit s p a v now) st = (so_get_version S v st = None)"
| "fresh_op S (OpDuplicate s n s' v' now) st = (so_get S s' st = None \<and> so_get_version S v' st = None)"
| "fresh_op S _ st = True"

inductive sched_reach :: "('s, 'x) deps \<Rightarrow> 's \<times> 'x \<Rightarrow> 's \<times> 'x \<Rightarrow> bool" for d w where
  start: "sched_reach d w w"
| step: "sched_reach d w w' \<Longrightarrow> fresh_op (dp_store d) o' (fst w') \<Longrightarrow> sched_reach d w (sched_exec d o' w')"

section \<open>The contract of a store\<close>

locale schedule_store =
  fixes S :: "'s store_ops"
  assumes get_id: "so_get S i st = Some s \<Longrightarrow> sc_id s = i"
    and get_version_id: "so_get_version S i st = Some v \<Longrightarrow> ve_id v = i"
    and put_get: "so_put S s st = (Inr u, st') \<Longrightarrow>
      (\<forall>old. so_get S (sc_id s) st = Some old \<longrightarrow> sc_created_at old = sc_created_at s) \<Longrightarrow>
      so_get S i st' = (if i = sc_id s then Some s else so_get S i st)"
    and put_keeps_versions: "so_put S s st = (r, st') \<Longrightarrow> so_get_version S i st' = so_get_version S i st"
    and put_fails: "so_put S s st = (Inl e, st') \<Longrightarrow> st' = st"
    and put_version_get: "so_put_version S v st = (Inr u, st') \<Longrightarrow>
      (\<forall>old. so_get_version S (ve_id v) st = Some old \<longrightarrow> (\<exists>l. v = old\<lparr>ve_lifecycle := l\<rparr>)) \<Longrightarrow>
      so_get_version S i st' = (if i = ve_id v then Some v else so_get_version S i st)"
    and put_version_keeps_schedules: "so_put_version S v st = (r, st') \<Longrightarrow> so_get S i st' = so_get S i st"
    and put_version_fails: "so_put_version S v st = (Inl e, st') \<Longrightarrow> st' = st"
begin

lemma put_version_halfway:
  assumes "halfway S st w"
    and old: "\<And>old. so_get_version S (ve_id v) (fst w) = Some old \<Longrightarrow> version_moves old v"
  shows "halfway S st (snd (on_store (so_put_version S v) w))"
proof -
  obtain a x where w: "w = (a, x)" by (cases w)
  obtain r a' where p: "so_put_version S v a = (r, a')" by (rule prod.exhaust)
  have "versions_kept S a a'"
  proof (cases r)
    case (Inl e)
    with p have "so_put_version S v a = (Inl e, a')" by simp
    from put_version_fails [OF this] show ?thesis by simp
  next
    case (Inr u)
    have "so_get_version S i a' = (if i = ve_id v then Some v else so_get_version S i a)" for i
      using p old by (intro put_version_get) (auto simp: w Inr version_moves_def)
    then show ?thesis using old by (auto simp: versions_kept_def w)
  qed
  then have "versions_kept S st a'"
    using assms(1) version_moves_trans unfolding halfway_def versions_kept_def w by fastforce
  then show ?thesis using assms(1) put_version_keeps_schedules [OF p]
    by (simp add: halfway_def on_store_def w p)
qed

lemma external_halfway: "halfway S st w \<Longrightarrow> halfway S st (snd (on_external f w))"
  by (cases w) (simp add: halfway_def on_external_def split: prod.split)

lemma put_schedule_kept:
  assumes "halfway S st w" "schedule_ok S st s"
  shows "kept S st (snd (on_store (so_put S s) w))"
proof -
  obtain a x where w: "w = (a, x)" by (cases w)
  obtain r a' where p: "so_put S s a = (r, a')" by (rule prod.exhaust)
  have same: "so_get S i a = so_get S i st" for i using assms(1) by (simp add: halfway_def w)
  have vers: "versions_kept S st a'"
    using assms(1) put_keeps_versions [OF p] by (simp add: halfway_def versions_kept_def w)
  have "schedules_kept S st a'"
  proof (cases r)
    case (Inl e)
    then have "a' = a" using p put_fails by simp
    with assms(1) have "halfway S st (a', x)" by (simp add: w)
    then have "kept S st (a', x)" by (rule halfway_kept)
    then show ?thesis by (simp add: kept_def)
  next
    case (Inr u)
    have "so_get S i a' = (if i = sc_id s then Some s else so_get S i st)" for i
      using put_get [OF p [unfolded Inr]] assms(2) same
      by (auto simp: schedule_ok_def schedule_moves_def split: option.splits)
    then show ?thesis using assms(2)
      by (auto simp: schedules_kept_def schedule_ok_def split: option.splits)
  qed
  with vers show ?thesis by (simp add: kept_def on_store_def w p)
qed

lemma put_both_kept:
  assumes "dp_store d = S" "schedule_ok S (fst w) s"
    and "\<And>old. so_get_version S (ve_id v) (fst w) = Some old \<Longrightarrow> version_moves old v"
  shows "kept S (fst w) (snd (put_both d v s w))"
  unfolding put_both_def assms(1)
proof (rule and_then_state2 [where P = "halfway S (fst w)"])
  show "halfway S (fst w) (snd (on_store (so_put_version S v) w))"
    by (rule put_version_halfway [OF halfway_refl assms(3)])
  show "kept S (fst w) (snd (and_then (on_store (so_put S s) w') (\<lambda>_ w. (Inr (s, v), w))))"
    if "halfway S (fst w) w'" for w'
    by (rule and_then_state) (simp_all add: put_schedule_kept [OF that assms(2)])
qed (rule halfway_kept)

lemma put_one_kept:
  assumes "dp_store d = S" "schedule_ok S st s" "halfway S st w"
  shows "kept S st (snd (put_schedule d s w))"
  unfolding put_schedule_def assms(1)
  by (rule and_then_state) (simp_all add: put_schedule_kept [OF assms(3,2)])

lemma call_external_halfway: "halfway S st w \<Longrightarrow> halfway S st (snd (call_external d s f w))"
  by (simp add: call_external_def external_halfway split: option.split)

lemma create_external_halfway: "halfway S st w \<Longrightarrow> halfway S st (snd (create_external d s v w))"
  unfolding create_external_def
  by (simp split: option.split) (auto intro: and_then_state [where R = "halfway S st"] external_halfway)

lemma active_version_id: "getActiveVersion S i st = Some v \<Longrightarrow> so_get_version S (ve_id v) st = Some v"
  using get_version_id by (fastforce simp: getActiveVersion_def split: option.splits if_splits)

lemma active_version_moves:
  "getActiveVersion S i st = Some v \<Longrightarrow> version_moves v v' \<Longrightarrow> so_get_version S (ve_id v') st = Some old \<Longrightarrow>
     version_moves old v'"
  using active_version_id version_moves_id by fastforce

lemma schedule_ok_update:
  assumes "so_get S i st = Some s" "schedule_moves s s'"
  shows "schedule_ok S st s'"
proof -
  have "sc_id s' = i" using assms get_id by (auto simp: schedule_moves_def)
  with assms show ?thesis by (simp add: schedule_ok_def)
qed

lemma put_simple:
  assumes "dp_store d = S" "so_get S i (fst w) = Some s" "schedule_moves s s'"
  shows "kept S (fst w) (snd (and_then (call_external d s f w) (\<lambda>_ w'. put_schedule d s' w')))"
proof (rule and_then_state2 [where P = "halfway S (fst w)"])
  show "halfway S (fst w) (snd (call_external d s f w))"
    by (rule call_external_halfway [OF halfway_refl])
  show "kept S (fst w) (snd (put_schedule d s' w'))" if "halfway S (fst w) w'" for w'
    by (rule put_one_kept [OF assms(1) schedule_ok_update [OF assms(2,3)] that])
qed (rule halfway_kept)

lemma pause_kept:
  assumes d: "dp_store d = S"
  shows "kept S (fst w) (snd (pause d i now w))"
proof (cases "so_get S i (fst w)")
  case (Some s)
  have "kept S (fst w) (snd (pause d i now w))" if "sc_state s = StACTIVE \<or> sc_state s = StDEGRADED"
    unfolding pause_def d Some option.case using that
    by (auto intro!: put_simple [OF d Some] simp: schedule_moves_def canTransitionSchedule_def)
  then show ?thesis by (cases "sc_state s = StACTIVE \<or> sc_state s = StDEGRADED")
      (simp_all add: pause_def d Some kept_refl)
qed (simp add: pause_def d kept_refl)

lemma resume_kept:
  assumes d: "dp_store d = S"
  shows "kept S (fst w) (snd (resume d i now w))"
proof (cases "so_get S i (fst w)")
  case (Some s)
  have "kept S (fst w) (snd (resume d i now w))" if "sc_state s = StPAUSED"
    unfolding resume_def d Some option.case using that
    by (auto intro!: put_simple [OF d Some] simp: schedule_moves_def canTransitionSchedule_def)
  then show ?thesis by (cases "sc_state s = StPAUSED") (simp_all add: resume_def d Some kept_refl)
qed (simp add: resume_def d kept_refl)

lemma delete_kept:
  assumes d: "dp_store d = S"
  shows "kept S (fst w) (snd (delete d i now w))"
proof (cases "so_get S i (fst w)")
  case (Some s)
  have "kept S (fst w) (snd (delete d i now w))" if "sc_state s = StDISABLED"
  proof -
    have "schedule_ok S (fst w) (s\<lparr>sc_state := StDELETED, sc_updated_at := now\<rparr>)"
      using that by (intro schedule_ok_update [OF Some]) (simp add: schedule_moves_def canTransitionSchedule_def)
    from put_one_kept [OF d this halfway_refl] show ?thesis using that by (simp add: delete_def d Some)
  qed
  then show ?thesis by (cases "sc_state s = StDISABLED") (simp_all add: delete_def d Some kept_refl)
qed (simp add: delete_def d kept_refl)

lemma put_draft_kept:
  assumes "dp_store d = S" "so_get S s (fst w) = None" "so_get_version S (ve_id v) (fst w) = None"
  shows "kept S (fst w) (snd (put_both d v (draft_schedule s n t v' now) w))"
  using assms by (intro put_both_kept) (auto simp: schedule_ok_def draft_schedule_def)

lemma create_kept:
  assumes d: "dp_store d = S" and "so_get S s (fst w) = None" "so_get_version S v (fst w) = None"
  shows "kept S (fst w) (snd (create d i s v now w))"
proof -
  have "kept S (fst w) (snd (put_both d (new_version (dp_sha d) i s v now)
      (draft_schedule s (ci_name i) (ci_description i) v now) w))"
    using assms by (intro put_draft_kept) (simp_all add: new_version_def)
  then show ?thesis by (simp add: create_def kept_refl split: option.split)
qed

lemma duplicate_kept:
  assumes d: "dp_store d = S" and "so_get S s' (fst w) = None" "so_get_version S v' (fst w) = None"
  shows "kept S (fst w) (snd (duplicate d s n s' v' now w))"
  unfolding duplicate_def d using put_draft_kept [OF assms(1,2)] assms(3)
  by (simp add: kept_refl split: option.split)

lemma edit_kept:
  assumes d: "dp_store d = S" and fresh: "so_get_version S v (fst w) = None"
  shows "kept S (fst w) (snd (editDraft d s p a v now w))"
proof (cases "so_get S s (fst w)")
  case (Some sch)
  have "schedule_ok S (fst w) (sch\<lparr>sc_name := n, sc_description := t, sc_version_id := vi,
      sc_version_number := vn, sc_updated_at := u\<rparr>)" for n t vi vn u
    by (intro schedule_ok_update [OF Some]) (simp add: schedule_moves_def)
  then have "kept S (fst w) (snd (put_both d (patched_version sha p cur v k now a)
      (sch\<lparr>sc_name := n, sc_description := t, sc_version_id := vi, sc_version_number := vn,
        sc_updated_at := u\<rparr>) w))" for sha cur k n t vi vn u
    by (rule put_both_kept [OF d]) (simp add: patched_version_def fresh)
  then show ?thesis by (simp add: editDraft_def d Some kept_refl Let_def split: option.split)
qed (simp add: editDraft_def d kept_refl)

lemma validate_kept:
  fixes w :: "'s \<times> 'x"
  assumes d: "dp_store d = S"
  shows "kept S (fst w) (snd (validate d s w))"
proof -
  have "kept S (fst w) (snd (and_then (on_store (so_put_version S (v\<lparr>ve_lifecycle := ClVALIDATED\<rparr>)) w) (\<lambda>_ w. (Inr res, w))))"
    if v: "getActiveVersion S s (fst w) = Some v" "ve_lifecycle v = ClDRAFT" for v and res :: validation
  proof -
    have "version_moves v (v\<lparr>ve_lifecycle := ClVALIDATED\<rparr>)"
      using v(2) by (intro lifecycle_update_moves r_into_rtranclp) (simp add: canTransitionConfig_def)
    from active_version_moves [OF v(1) this]
    have "halfway S (fst w) (snd (on_store (so_put_version S (v\<lparr>ve_lifecycle := ClVALIDATED\<rparr>)) w))"
      by (intro put_version_halfway halfway_refl) simp
    then show ?thesis by (simp add: halfway_kept)
  qed
  then show ?thesis by (simp add: validate_def d kept_refl Let_def split: option.split)
qed

lemma enable_kept:
  fixes w :: "'s \<times> 'x"
  assumes d: "dp_store d = S"
  shows "kept S (fst w) (snd (enable d i now w))"
proof -
  have "kept S (fst w) (snd (and_then (on_store (so_put_version S (v\<lparr>ve_lifecycle := promote (ve_lifecycle v)\<rparr>)) w)
      (\<lambda>_ w. and_then (create_external d s v w) (\<lambda>ext w. and_then (on_store (so_put S
        (s\<lparr>sc_state := StACTIVE, sc_external := ext, sc_paused := False, sc_updated_at := now,
           sc_version_id := Some (ve_id v)\<rparr>)) w) (\<lambda>_ w. (Inr (g ext), w))))))"
    if s: "so_get S i (fst w) = Some s" "sc_state s = StDRAFT" and v: "getActiveVersion S i (fst w) = Some v"
    for s v and g :: "string option \<Rightarrow> schedule \<times> version"
  proof (rule and_then_state2 [where P = "halfway S (fst w)"])
    from active_version_moves [OF v lifecycle_update_moves [OF promote_moves]]
    show "halfway S (fst w) (snd (on_store (so_put_version S (v\<lparr>ve_lifecycle := promote (ve_lifecycle v)\<rparr>)) w))"
      by (intro put_version_halfway halfway_refl) simp
  next
    fix w' :: "'s \<times> 'x"
    assume h: "halfway S (fst w) w'"
    have ok: "schedule_ok S (fst w) (s\<lparr>sc_state := StACTIVE, sc_external := ext, sc_paused := False,
        sc_updated_at := now, sc_version_id := Some (ve_id v)\<rparr>)" for ext
      using s by (intro schedule_ok_update [OF s(1)]) (simp add: schedule_moves_def canTransitionSchedule_def)
    show "kept S (fst w) (snd (and_then (create_external d s v w') (\<lambda>ext w. and_then (on_store (so_put S
        (s\<lparr>sc_state := StACTIVE, sc_external := ext, sc_paused := False, sc_updated_at := now,
           sc_version_id := Some (ve_id v)\<rparr>)) w) (\<lambda>_ w. (Inr (g ext), w)))))"
      by (rule and_then_state2 [where P = "halfway S (fst w)", OF create_external_halfway [OF h] halfway_kept])
        (simp_all add: put_schedule_kept ok)
  qed (rule halfway_kept)
  then show ?thesis by (simp add: enable_def d kept_refl Let_def split: option.split)
qed

lemma disable_kept:
  fixes w :: "'s \<times> 'x"
  assumes d: "dp_store d = S"
  shows "kept S (fst w) (snd (disable d i now w))"
proof -
  have dep: "halfway S (fst w) (snd (deprecate_active d i w'))" if h: "halfway S (fst w) w'" for w' :: "'s \<times> 'x"
  proof -
    have "halfway S (fst w) (snd (on_store (so_put_version S (v\<lparr>ve_lifecycle := ClDEPRECATED\<rparr>)) w'))"
      if v: "getActiveVersion S i (fst w') = Some v" "ve_lifecycle v = ClACTIVE" for v
    proof -
      have "version_moves v (v\<lparr>ve_lifecycle := ClDEPRECATED\<rparr>)"
        using v(2) by (intro lifecycle_update_moves r_into_rtranclp) (simp add: canTransitionConfig_def)
      from active_version_moves [OF v(1) this] show ?thesis by (intro put_version_halfway h) simp
    qed
    then show ?thesis using h by (simp add: deprecate_active_def d split: option.split)
  qed
  have "kept S (fst w) (snd (and_then (call_external d s eo_remove w) (\<lambda>_ w. and_then (deprecate_active d i w)
      (\<lambda>_ w. put_schedule d (s\<lparr>sc_state := StDISABLED, sc_paused := False, sc_external := None,
        sc_updated_at := now\<rparr>) w))))"
    if s: "so_get S i (fst w) = Some s" "sc_state s \<in> {StDRAFT, StACTIVE, StPAUSED, StDEGRADED}" for s
  proof (rule and_then_state2 [where P = "halfway S (fst w)", OF call_external_halfway [OF halfway_refl] halfway_kept])
    fix w' :: "'s \<times> 'x"
    assume h: "halfway S (fst w) w'"
    have ok: "schedule_ok S (fst w) (s\<lparr>sc_state := StDISABLED, sc_paused := False, sc_external := None,
        sc_updated_at := now\<rparr>)"
      using s(2) by (intro schedule_ok_update [OF s(1)]) (auto simp: schedule_moves_def canTransitionSchedule_def)
    show "kept S (fst w) (snd (and_then (deprecate_active d i w') (\<lambda>_ w. put_schedule d
        (s\<lparr>sc_state := StDISABLED, sc_paused := False, sc_external := None, sc_updated_at := now\<rparr>) w)))"
      by (rule and_then_state2 [where P = "halfway S (fst w)", OF dep [OF h] halfway_kept])
        (blast, rule put_one_kept [OF d ok])
  qed
  then show ?thesis by (simp add: disable_def d kept_refl split: option.split)
qed

lemma exec_kept:
  "dp_store d = S \<Longrightarrow> fresh_op S o' (fst w) \<Longrightarrow> kept S (fst w) (sched_exec d o' w)"
  by (cases o') (simp_all add: create_kept edit_kept validate_kept enable_kept pause_kept resume_kept
      duplicate_kept disable_kept delete_kept)

text \<open>Runs: a schedule moves along the transition table, the \<open>paused\<close> flag stays in step with the
  state, a version changes in nothing but its lifecycle.\<close>

lemma reach_schedule:
  "sched_reach d w w' \<Longrightarrow> dp_store d = S \<Longrightarrow> so_get S i (fst w) = Some s \<Longrightarrow>
     \<exists>s'. so_get S i (fst w') = Some s' \<and> sc_id s' = sc_id s \<and> sc_created_at s' = sc_created_at s \<and>
       canTransitionSchedule\<^sup>*\<^sup>* (sc_state s) (sc_state s')"
proof (induction rule: sched_reach.induct)
  case (step w' o')
  then obtain s' where s': "so_get S i (fst w') = Some s'" "sc_id s' = sc_id s"
    "sc_created_at s' = sc_created_at s" "canTransitionSchedule\<^sup>*\<^sup>* (sc_state s) (sc_state s')" by auto
  have "kept S (fst w') (sched_exec d o' w')" using step.hyps step.prems by (simp add: exec_kept)
  then have "schedules_kept S (fst w') (fst (sched_exec d o' w'))" by (simp add: kept_def)
  then obtain s'' where s'': "so_get S i (fst (sched_exec d o' w')) = Some s''" "schedule_moves s' s''"
    using s'(1) unfolding schedules_kept_def by (fastforce dest: spec [of _ i])
  have "canTransitionSchedule\<^sup>*\<^sup>* (sc_state s) (sc_state s'')"
    using s'(4) s''(2) by (auto simp: schedule_moves_def intro: rtranclp.rtrancl_into_rtrancl)
  with s' s'' show ?case by (auto simp: schedule_moves_def)
qed simp

definition flags_agree :: "'s \<Rightarrow> bool" where
  "flags_agree st \<longleftrightarrow> (\<forall>i s. so_get S i st = Some s \<longrightarrow> sc_paused s = (sc_state s = StPAUSED))"

lemma kept_flags: "kept S st w \<Longrightarrow> flags_agree st \<Longrightarrow> flags_agree (fst w)"
  unfolding flags_agree_def
proof (intro allI impI)
  fix i s'
  assume k: "kept S st w" and old: "\<forall>i s. so_get S i st = Some s \<longrightarrow> sc_paused s = (sc_state s = StPAUSED)"
    and new: "so_get S i (fst w) = Some s'"
  from k have "case so_get S i st of
      Some s \<Rightarrow> (\<exists>s'. so_get S i (fst w) = Some s' \<and> schedule_moves s s')
    | None \<Rightarrow> (\<forall>s'. so_get S i (fst w) = Some s' \<longrightarrow> sc_state s' = StDRAFT \<and> \<not> sc_paused s')"
    by (simp add: kept_def schedules_kept_def)
  then show "sc_paused s' = (sc_state s' = StPAUSED)"
    using old new by (auto simp: schedule_moves_def split: option.splits)
qed

lemma reach_flags: "sched_reach d w w' \<Longrightarrow> dp_store d = S \<Longrightarrow> flags_agree (fst w) \<Longrightarrow> flags_agree (fst w')"
proof (induction rule: sched_reach.induct)
  case (step w' o')
  then show ?case by (intro kept_flags [OF exec_kept]) simp_all
qed simp

lemma reach_version:
  "sched_reach d w w' \<Longrightarrow> dp_store d = S \<Longrightarrow> so_get_version S i (fst w) = Some v \<Longrightarrow>
     \<exists>v'. so_get_version S i (fst w') = Some v' \<and> version_moves v v'"
proof (induction rule: sched_reach.induct)
  case (step w' o')
  then obtain v' where v': "so_get_version S i (fst w') = Some v'" "version_moves v v'" by auto
  have "kept S (fst w') (sched_exec d o' w')" using step.hyps step.prems by (simp add: exec_kept)
  then obtain v'' where "so_get_version S i (fst (sched_exec d o' w')) = Some v''" "version_moves v' v''"
    using v'(1) by (auto simp: kept_def versions_kept_def)
  with v'(2) show ?case by (auto intro: version_moves_trans)
qed simp

end

section \<open>Both stores keep the contract\<close>

interpretation memory: schedule_store memory_ops
proof unfold_locales
  show "so_get memory_ops i st = Some s \<Longrightarrow> sc_id s = i" for i st s
    using row_of_Some_key by (fastforce simp: memory_ops_def)
  show "so_get_version memory_ops i st = Some v \<Longrightarrow> ve_id v = i" for i st v
    using row_of_Some_key by (fastforce simp: memory_ops_def)
qed (auto simp: memory_ops_def row_of_upsert)

lemma database_put_get:
  assumes "so_put database_ops s st = (Inr u, st')"
    and "\<forall>old. so_get database_ops (sc_id s) st = Some old \<longrightarrow> sc_created_at old = sc_created_at s"
  shows "so_get database_ops i st' = (if i = sc_id s then Some s else so_get database_ops i st)"
proof (cases "has_key sc_id (sc_id s) (ds_schedules st)")
  case True
  then obtain old where old: "row_of sc_id (ds_schedules st) (sc_id s) = Some old"
    using row_of_None [of sc_id "ds_schedules st" "sc_id s"] by auto
  have "row_of sc_id (update_key sc_id (sc_id s) (merge_schedule s) (ds_schedules st)) i =
      (if i = sc_id s then map_option (merge_schedule s) (row_of sc_id (ds_schedules st) (sc_id s))
       else row_of sc_id (ds_schedules st) i)"
    by (rule row_of_update_key_gen) (simp add: merge_schedule_def)
  moreover have "merge_schedule s old = s"
    using assms(2) old by (simp add: database_ops_def merge_schedule_def)
  ultimately show ?thesis using assms(1) True old by (auto simp: database_ops_def database_put_def)
next
  case False
  then have "row_of sc_id (ds_schedules st) (sc_id s) = None" by (simp add: row_of_None)
  moreover have "row_of sc_id [s] i = (if i = sc_id s then Some s else None)" by (simp add: row_of_def)
  ultimately show ?thesis using assms(1) False
    by (auto simp: database_ops_def database_put_def row_of_append split: option.split)
qed

lemma database_put_version_get:
  assumes "so_put_version database_ops v st = (Inr u, st')"
    and "\<forall>old. so_get_version database_ops (ve_id v) st = Some old \<longrightarrow> (\<exists>l. v = old\<lparr>ve_lifecycle := l\<rparr>)"
  shows "so_get_version database_ops i st' = (if i = ve_id v then Some v else so_get_version database_ops i st)"
proof (cases "has_key ve_id (ve_id v) (ds_versions st)")
  case True
  then obtain old where old: "row_of ve_id (ds_versions st) (ve_id v) = Some old"
    using row_of_None [of ve_id "ds_versions st" "ve_id v"] by auto
  have "row_of ve_id (update_key ve_id (ve_id v) (merge_version v) (ds_versions st)) i =
      (if i = ve_id v then map_option (merge_version v) (row_of ve_id (ds_versions st) (ve_id v))
       else row_of ve_id (ds_versions st) i)"
    by (rule row_of_update_key_gen) (simp add: merge_version_def)
  moreover have "merge_version v old = v"
    using assms(2) old by (auto simp: database_ops_def merge_version_def)
  moreover have "ds_versions st' = update_key ve_id (ve_id v) (merge_version v) (ds_versions st)"
    using assms(1) True by (auto simp: database_ops_def database_put_version_def split: if_splits)
  ultimately show ?thesis using old by (simp add: database_ops_def)
next
  case False
  then have "row_of ve_id (ds_versions st) (ve_id v) = None" by (simp add: row_of_None)
  moreover have "row_of ve_id [v] i = (if i = ve_id v then Some v else None)" by (simp add: row_of_def)
  moreover have "ds_versions st' = ds_versions st @ [v]"
    using assms(1) False by (auto simp: database_ops_def database_put_version_def split: if_splits)
  ultimately show ?thesis by (auto simp: database_ops_def row_of_append split: option.split)
qed

interpretation database: schedule_store database_ops
proof unfold_locales
  show "so_get database_ops i st = Some s \<Longrightarrow> sc_id s = i" for i st s
    using row_of_Some_key by (fastforce simp: database_ops_def)
  show "so_get_version database_ops i st = Some v \<Longrightarrow> ve_id v = i" for i st v
    using row_of_Some_key by (fastforce simp: database_ops_def)
  show "so_get database_ops i st' = (if i = sc_id s then Some s else so_get database_ops i st)"
    if "so_put database_ops s st = (Inr u, st')"
      "\<forall>old. so_get database_ops (sc_id s) st = Some old \<longrightarrow> sc_created_at old = sc_created_at s" for s st u st' i
    using that by (rule database_put_get)
  show "so_get_version database_ops i st' = (if i = ve_id v then Some v else so_get_version database_ops i st)"
    if "so_put_version database_ops v st = (Inr u, st')"
      "\<forall>old. so_get_version database_ops (ve_id v) st = Some old \<longrightarrow> (\<exists>l. v = old\<lparr>ve_lifecycle := l\<rparr>)" for v st u st' i
    using that by (rule database_put_version_get)
qed (auto simp: database_ops_def database_put_def database_put_version_def split: if_splits)

end
