(* ===== verification/Scheduler_Claims.thy ===== *)
theory Scheduler_Claims
  imports Scheduler_Facts
begin

text \<open>
  The properties of the scheduling control plane: the life of schedules and versions along runs of
  the service, what enabling guarantees, the precedence of configuration layers, the configuration
  hash, cron expressions and the order of the writes of \<open>create\<close>.
\<close>

section \<open>A small service\<close>

definition demo_checks :: checks where
  "demo_checks = \<lparr>ck_timezone = (\<lambda>tz. tz = ''UTC''), ck_version = None, ck_budget = None,
     ck_concurrency = None, ck_forecast = None\<rparr>"

definition demo_deps :: "'s store_ops \<Rightarrow> ('s, 'x) deps" where
  "demo_deps S = \<lparr>dp_store = S, dp_ext = None, dp_checks = demo_checks, dp_defaults = [],
     dp_workflows = (\<lambda>_. None), dp_agents = (\<lambda>_. None), dp_sha = (\<lambda>s. s)\<rparr>"

definition demo_input :: create_input where
  "demo_input = \<lparr>ci_name = ''nightly'', ci_description = None, ci_cron = ''0 3 * * 1-5'', ci_timezone = ''UTC'',
     ci_workflow = ''w1'', ci_agent = ''a1'', ci_tool = ''t1'', ci_model = None, ci_prompt = None,
     ci_outcome = None, ci_ranking = None, ci_alert = None, ci_budgets = [], ci_concurrency = 4,
     ci_destination = ''queue'', ci_scope = None, ci_created_by = None\<rparr>"

definition empty_memory :: memory_store where
  "empty_memory = \<lparr>ms_schedules = [], ms_versions = [], ms_incidents = []\<rparr>"

definition demo_version :: version where
  "demo_version = new_version (\<lambda>s. s) demo_input ''s'' ''v'' ''t0''"

definition demo_schedule :: schedule where
  "demo_schedule = draft_schedule ''s'' ''nightly'' None ''v'' ''t0''"

definition demo_memory :: memory_store where
  "demo_memory = \<lparr>ms_schedules = [demo_schedule], ms_versions = [demo_version], ms_incidents = []\<rparr>"

definition demo_database :: database_store where
  "demo_database = \<lparr>ds_schedules = [demo_schedule], ds_versions = [demo_version], ds_incidents = []\<rparr>"

lemmas demo_defs = demo_deps_def demo_checks_def demo_input_def demo_version_def demo_schedule_def
  demo_memory_def demo_database_def empty_memory_def new_version_def draft_schedule_def

lemma demo_store [simp]: "dp_store (demo_deps S) = S"
  by (simp add: demo_deps_def)

section \<open>Schedules and versions along runs\<close>



text \<open>Starting from an empty in-memory store, the \<open>paused\<close> flag of every schedule says exactly whether
  its state is PAUSED, after any run of the service, external failures included.\<close>
theorem paused_flag_agrees:
  assumes "sched_reach d (empty_memory, x) w'" and "dp_store d = memory_ops"
    and "so_get memory_ops i (fst w') = Some s"
  shows "sc_paused s = (sc_state s = StPAUSED)"
proof -
  have "memory.flags_agree (fst (empty_memory, x))"
    unfolding memory.flags_agree_def by (simp add: memory_ops_def empty_memory_def row_of_def)
  from memory.reach_flags [OF assms(1,2) this] assms(3) show ?thesis by (simp add: memory.flags_agree_def)
qed

theorem paused_flag_agrees_witness:
  "let w = sched_exec (demo_deps memory_ops) (OpCreate demo_input ''s'' ''v'' ''t0'') (empty_memory, ());
       s = the (so_get memory_ops ''s'' (fst w))
   in so_get memory_ops ''s'' (fst w) \<noteq> None \<and> sc_paused s = (sc_state s = StPAUSED)"
proof -
  let ?d = "demo_deps memory_ops :: (memory_store, unit) deps"
  let ?w = "sched_exec ?d (OpCreate demo_input ''s'' ''v'' ''t0'') (empty_memory, ())"
  have some: "so_get memory_ops ''s'' (fst ?w) \<noteq> None" by code_simp
  have "fresh_op (dp_store ?d) (OpCreate demo_input ''s'' ''v'' ''t0'') (fst (empty_memory, ()))"
    by (simp add: demo_defs memory_ops_def row_of_def)
  from sched_reach.step [OF sched_reach.start this]
  have "sched_reach ?d (empty_memory, ()) ?w" .
  from paused_flag_agrees [OF this] some show ?thesis by (auto simp: Let_def demo_deps_def)
qed

text \<open>C27. Versions in the database are immutable: after any run a version that was there is still there,
  equal but for its lifecycle, which only moved along ALLOWED_CONFIG_TRANSITIONS.\<close>
theorem versions_immutable:
  assumes "sched_reach d w w'" and "dp_store d = database_ops"
    and "so_get_version database_ops i (fst w) = Some v"
  shows "\<exists>l. so_get_version database_ops i (fst w') = Some (v\<lparr>ve_lifecycle := l\<rparr>) \<and>
           canTransitionConfig\<^sup>*\<^sup>* (ve_lifecycle v) l"
  using database.reach_version [OF assms] by (auto simp: version_moves_def)

theorem versions_immutable_witness:
  "\<exists>l. so_get_version database_ops ''v''
       (fst (sched_exec (demo_deps database_ops) (OpEdit ''s'' \<lparr>pa_name = None, pa_description = None,
          pa_cron = Some ''5 * * * *'', pa_timezone = None, pa_workflow = None, pa_agent = None,
          pa_tool = None, pa_budgets = None, pa_concurrency = None, pa_destination = None,
          pa_scope = None\<rparr> None ''v2'' ''t1'') (demo_database, ()))) = Some (demo_version\<lparr>ve_lifecycle := l\<rparr>)"
proof -
  let ?d = "demo_deps database_ops :: (database_store, unit) deps"
  let ?o = "OpEdit ''s'' \<lparr>pa_name = None, pa_description = None,
          pa_cron = Some ''5 * * * *'', pa_timezone = None, pa_workflow = None, pa_agent = None,
          pa_tool = None, pa_budgets = None, pa_concurrency = None, pa_destination = None,
          pa_scope = None\<rparr> None ''v2'' ''t1''"
  have "fresh_op (dp_store ?d) ?o (fst (demo_database, ()))"
    by (simp add: demo_defs database_ops_def row_of_def)
  from sched_reach.step [OF sched_reach.start this]
  have "sched_reach ?d (demo_database, ()) (sched_exec ?d ?o (demo_database, ()))" .
  from versions_immutable [OF this demo_store, of "''v''" demo_version]
  show ?thesis by (auto simp: database_ops_def demo_database_def row_of_def demo_version_def new_version_def)
qed

section \<open>Enabling\<close>

lemma no_issues_valid:
  assumes "va_valid (validateScheduleVersion ck v)"
  shows "validateCron (ve_cron v) = None \<and> validateTimezone (ck_timezone ck) (ve_timezone v) = None \<and>
    1 \<le> ve_concurrency v \<and> ve_concurrency v \<le> 32 \<and> ve_destination v \<noteq> []"
  using assms unfolding validateScheduleVersion_def Let_def
  by (auto simp: opt_list_def concurrency_issues_def split: option.splits if_splits)

lemma create_external_store: "fst (snd (create_external d s v w)) = fst w"
  by (auto simp: create_external_def on_external_def and_then_def split: option.split prod.split sum.split)

text \<open>When \<open>enable\<close> succeeds over the in-memory store, the stored schedule is ACTIVE and not paused,
  its active version is the one that was validated, promoted in its lifecycle only, and that version
  has a valid cron expression and time zone, a destination and a concurrency from 1 to 32.\<close>
theorem enable_only_valid:
  assumes "dp_store d = memory_ops" and "enable d i now w = (Inr (s', v'), w')"
  shows "so_get memory_ops i (fst w') = Some s' \<and> sc_state s' = StACTIVE \<and> \<not> sc_paused s' \<and>
    getActiveVersion memory_ops i (fst w') = Some v' \<and>
    (\<exists>v. getActiveVersion memory_ops i (fst w) = Some v \<and> v' = v\<lparr>ve_lifecycle := promote (ve_lifecycle v)\<rparr>) \<and>
    validateCron (ve_cron v') = None \<and> validateTimezone (ck_timezone (dp_checks d)) (ve_timezone v') = None \<and>
    1 \<le> ve_concurrency v' \<and> ve_concurrency v' \<le> 32 \<and> ve_destination v' \<noteq> []"
proof -
  obtain st x where w: "w = (st, x)" by (cases w)
  from assms obtain s v where s: "so_get memory_ops i st = Some s" and v: "getActiveVersion memory_ops i st = Some v"
    and ok: "va_valid (validateScheduleVersion (dp_checks d) v)"
    by (auto simp: enable_def w Let_def split: option.splits if_splits)
  define v1 where "v1 = v\<lparr>ve_lifecycle := promote (ve_lifecycle v)\<rparr>"
  define st1 where "st1 = st\<lparr>ms_versions := upsert ve_id v1 (ms_versions st)\<rparr>"
  have put: "on_store (so_put_version memory_ops v1) (st, x) = (Inr (), (st1, x))"
    by (simp add: on_store_def memory_ops_def st1_def)
  obtain r x' where ext: "create_external d s v (st1, x) = (r, (st1, x'))"
    using create_external_store [of d s v "(st1, x)"] by (cases "create_external d s v (st1, x)") auto
  have "enable d i now w = and_then (r, (st1, x')) (\<lambda>ext w.
      and_then (on_store (so_put memory_ops (s\<lparr>sc_state := StACTIVE, sc_external := ext, sc_paused := False,
        sc_updated_at := now, sc_version_id := Some (ve_id v1)\<rparr>)) w)
        (\<lambda>_ w. (Inr (s\<lparr>sc_state := StACTIVE, sc_external := ext, sc_paused := False,
        sc_updated_at := now, sc_version_id := Some (ve_id v1)\<rparr>, v1), w)))"
    if "sc_state s = StDRAFT"
    using that s v ok put ext by (simp add: enable_def assms(1) w v1_def Let_def)
  moreover have "sc_state s = StDRAFT"
    using assms(2) s by (auto simp: enable_def assms(1) w split: if_splits)
  ultimately obtain e where s': "s' = s\<lparr>sc_state := StACTIVE, sc_external := e, sc_paused := False,
        sc_updated_at := now, sc_version_id := Some (ve_id v1)\<rparr>" and v': "v' = v1"
    and w': "fst w' = st1\<lparr>ms_schedules := upsert sc_id s' (ms_schedules st1)\<rparr>"
    using assms(2) by (cases r) (auto simp: on_store_def memory_ops_def)
  have "sc_id s' = i" using memory.get_id [OF s] by (simp add: s')
  then have get: "so_get memory_ops i (fst w') = Some s'"
    by (simp add: w' memory_ops_def row_of_upsert)
  have id: "ve_id v1 \<noteq> []"
    using v memory.get_version_id by (auto simp: getActiveVersion_def v1_def split: option.splits if_splits)
  have act: "getActiveVersion memory_ops i (fst w') = Some v'"
    using get id by (simp add: getActiveVersion_def s' v') (simp add: w' memory_ops_def row_of_upsert st1_def)
  have same: "ve_cron v' = ve_cron v" "ve_timezone v' = ve_timezone v" "ve_concurrency v' = ve_concurrency v"
    "ve_destination v' = ve_destination v" by (simp_all add: v' v1_def)
  show ?thesis using get act no_issues_valid [OF ok] v
    by (simp add: same w) (simp add: s' v' v1_def)
qed

theorem enable_only_valid_witness:
  "case enable (demo_deps memory_ops) ''s'' ''t1'' (demo_memory, ()) of
     (Inr (s', v'), w') \<Rightarrow> so_get memory_ops ''s'' (fst w') = Some s' \<and> validateCron (ve_cron v') = None
   | _ \<Rightarrow> False"
proof -
  have "is_ok (fst (enable (demo_deps memory_ops) ''s'' ''t1'' (demo_memory, ())))" by code_simp
  then obtain s' v' w' where e: "enable (demo_deps memory_ops) ''s'' ''t1'' (demo_memory, ()) = (Inr (s', v'), w')"
    by (cases "enable (demo_deps memory_ops) ''s'' ''t1'' (demo_memory, ())") (auto simp: is_ok_def split: sum.splits)
  from enable_only_valid [OF demo_store e] show ?thesis by (simp add: e)
qed

section \<open>Creating in the database\<close>

text \<open>\<open>create\<close> writes the version before the schedule it references, so over the database, whose
  schema declares that reference, creating a schedule always fails and stores nothing.\<close>
theorem database_create_always_fails:
  assumes "dp_store d = database_ops" and "so_get database_ops s (fst w) = None"
    and "so_get_version database_ops v (fst w) = None"
  shows "\<exists>e. create d i s v now w = (Inl e, w)"
proof -
  obtain st x where w: "w = (st, x)" by (cases w)
  have "row_of sc_id (ds_schedules st) s = None" "row_of ve_id (ds_versions st) v = None"
    using assms(2,3) by (simp_all add: w database_ops_def)
  then have "\<not> has_key sc_id s (ds_schedules st)" "\<not> has_key ve_id v (ds_versions st)"
    by (simp_all add: row_of_None)
  then have "\<exists>e. so_put_version database_ops (new_version (dp_sha d) i s v now) st = (Inl e, st)"
    by (simp add: database_ops_def database_put_version_def new_version_def)
  then have "\<exists>e. put_both d (new_version (dp_sha d) i s v now) sch w = (Inl e, w)" for sch
    by (auto simp: put_both_def assms(1) on_store_def w)
  then show ?thesis by (auto simp: create_def split: option.split)
qed

theorem database_create_always_fails_witness:
  "\<exists>e. create (demo_deps database_ops) demo_input ''n'' ''nv'' ''t1'' (demo_database, ()) =
     (Inl e, (demo_database, ()))"
  by (rule database_create_always_fails) (simp_all add: database_ops_def demo_defs row_of_def)

section \<open>Configuration\<close>

text \<open>The configuration \<open>runNow\<close> resolves takes every key from the last layer that has it, in the
  order system defaults, workflow version, agent profile version, schedule version, target scope,
  run-now overrides; it runs only ACTIVE, PAUSED and DEGRADED schedules.\<close>
theorem run_now_layers:
  assumes "runNow d i overrides now st = Inr r" and "getActiveVersion (dp_store d) i st = Some v"
    and "distinct (map fst (dp_defaults d))"
    and "distinct (map fst (or_default (dp_workflows d (ve_workflow v)) []))"
    and "distinct (map fst (or_default (dp_agents d (ve_agent v)) []))"
    and "distinct (map fst (ve_scope v))" and "distinct (map fst (or_default overrides []))"
  shows "sc_state (rw_schedule r) \<in> {StACTIVE, StPAUSED, StDEGRADED} \<and>
    map_of (rc_resolved (rw_config r)) =
      map_of (dp_defaults d) ++ map_of (or_default (dp_workflows d (ve_workflow v)) []) ++
      map_of (or_default (dp_agents d (ve_agent v)) []) ++
      map_of [(''cron'', VStr (ve_cron v)), (''timezone'', VStr (ve_timezone v)),
        (''destination'', VStr (ve_destination v)), (''budgets'', VObj (ve_budgets v)),
        (''concurrency'', VNum (ve_concurrency v))] ++
      map_of (ve_scope v) ++ map_of (or_default overrides [])"
proof -
  let ?base = "[(''cron'', VStr (ve_cron v)), (''timezone'', VStr (ve_timezone v)),
        (''destination'', VStr (ve_destination v)), (''budgets'', VObj (ve_budgets v)),
        (''concurrency'', VNum (ve_concurrency v))]"
  have c: "rw_config r = resolved_for d v overrides"
    and s: "sc_state (rw_schedule r) \<in> {StACTIVE, StPAUSED, StDEGRADED}"
    using assms(1,2) by (auto simp: runNow_def Let_def split: option.splits if_splits)
  have "distinct (map fst (schedule_overrides v))"
    unfolding schedule_overrides_def by (rule distinct_spread) simp
  moreover have "map_of (schedule_overrides v) = map_of ?base ++ map_of (ve_scope v)"
    unfolding schedule_overrides_def by (rule map_of_spread) (rule assms(6))
  ultimately show ?thesis using assms(3-5,7) s
    unfolding c resolved_for_def resolveConfigPrecedence_def Let_def resolved_config.simps
    by (simp only: or_default_def [symmetric] map_of_spread map_of.simps map_add_assoc empty_map_add simp_thms)
qed

definition running_memory :: memory_store where
  "running_memory = demo_memory\<lparr>ms_schedules := [demo_schedule\<lparr>sc_state := StACTIVE\<rparr>]\<rparr>"

theorem run_now_layers_witness:
  "case runNow (demo_deps memory_ops :: (memory_store, unit) deps) ''s'' (Some [(''cron'', VStr ''* * * * *'')]) ''t1'' running_memory of
     Inr r \<Rightarrow> map_of (rc_resolved (rw_config r)) ''cron'' = Some (VStr ''* * * * *'')
   | Inl _ \<Rightarrow> False"
proof -
  let ?r = "runNow (demo_deps memory_ops :: (memory_store, unit) deps) ''s'' (Some [(''cron'', VStr ''* * * * *'')]) ''t1'' running_memory"
  have "is_ok ?r" by code_simp
  then obtain r where r: "?r = Inr r" by (auto simp: is_ok_def split: sum.splits)
  have v: "getActiveVersion (dp_store (demo_deps memory_ops :: (memory_store, unit) deps)) ''s'' running_memory = Some demo_version"
    by (simp add: getActiveVersion_def memory_ops_def running_memory_def demo_defs row_of_def)
  have "map_of (rc_resolved (rw_config r)) ''cron'' = Some (VStr ''* * * * *'')"
    using run_now_layers [OF r v] by (simp add: demo_defs or_default_def)
  then show ?thesis by (simp add: r)
qed

lemma stringify_allow_hidden:
  assumes "\<forall>k\<in>fst ` set a. k \<notin> set allow"
  shows "stringify_allow allow (VObj a) = ''{}''"
proof -
  have "map_of (map (\<lambda>(k, v). (k, json_quote k @ '':'' @ stringify_allow allow v)) a) k = None"
    if "k \<in> set allow" for k
    using that assms by (auto simp: map_of_eq_None_iff)
  then have "List.map_filter (map_of (map (\<lambda>(k, v). (k, json_quote k @ '':'' @ stringify_allow allow v)) a)) allow = []"
    by (induction allow) (auto simp: List.map_filter_def)
  then show ?thesis by (simp add: Let_def join_with.simps)
qed

lemma hashConfig_member:
  assumes "stringify_allow (sort (map fst (pre @ (k, Some x) # post))) x =
    stringify_allow (sort (map fst (pre @ (k, Some x) # post))) y"
  shows "hashConfig sha (pre @ (k, Some x) # post) = hashConfig sha (pre @ (k, Some y) # post)"
  using assms by (simp add: hashConfig_def Let_def)

text \<open>The configuration hash of a new version does not depend on its budgets: \<open>JSON.stringify\<close> with the
  sorted top-level keys as its property list hides every nested member whose name is not one of
  them, so versions with different budgets have equal hashes.\<close>
theorem version_hash_ignores_budgets:
  assumes "\<forall>k\<in>fst ` set (ci_budgets i) \<union> fst ` set b.
      k \<notin> {''cron'', ''timezone'', ''workflowVersion'', ''agentProfileVersion'', ''toolProfileVersion'',
        ''budgets'', ''concurrency'', ''destination'', ''targetScope''}"
  shows "ve_hash (new_version sha (i\<lparr>ci_budgets := b\<rparr>) s v now) = ve_hash (new_version sha i s v now)"
proof -
  define pre where "pre = [(''cron'', Some (VStr (ci_cron i))), (''timezone'', Some (VStr (ci_timezone i))),
         (''workflowVersion'', Some (VStr (ci_workflow i))),
         (''agentProfileVersion'', Some (VStr (ci_agent i))),
         (''toolProfileVersion'', Some (VStr (ci_tool i)))]"
  define post where "post = [(''concurrency'', Some (VNum (ci_concurrency i))),
         (''destination'', Some (VStr (ci_destination i))),
         (''targetScope'', map_option VObj (ci_scope i))]"
  define keys where "keys = sort (map fst (pre @ (''budgets'', Some (VObj b)) # post))"
  have hash: "ve_hash (new_version sha (i\<lparr>ci_budgets := c\<rparr>) s v now) =
      hashConfig sha (pre @ (''budgets'', Some (VObj c)) # post)" for c
    by (simp add: new_version_def pre_def post_def)
  have names: "set keys = {''cron'', ''timezone'', ''workflowVersion'', ''agentProfileVersion'',
      ''toolProfileVersion'', ''budgets'', ''concurrency'', ''destination'', ''targetScope''}"
    unfolding keys_def set_sort by (auto simp: pre_def post_def)
  have free: "\<forall>k\<in>fst ` set (ci_budgets i) \<union> fst ` set b. k \<notin> set keys"
    unfolding names by (rule assms)
  have "stringify_allow keys (VObj (ci_budgets i)) = ''{}''" "stringify_allow keys (VObj b) = ''{}''"
    by (rule stringify_allow_hidden, use free in blast)+
  then have "hashConfig sha (pre @ (''budgets'', Some (VObj b)) # post) =
      hashConfig sha (pre @ (''budgets'', Some (VObj (ci_budgets i))) # post)"
    unfolding keys_def by (intro hashConfig_member) (rule trans [OF _ sym])
  then show ?thesis using hash [of b] hash [of "ci_budgets i"] by simp
qed

theorem version_hash_ignores_budgets_witness:
  "ve_hash (new_version (\<lambda>s. s) (demo_input\<lparr>ci_budgets := [(''maxCostPerRun'', VNum 900)]\<rparr>) ''s'' ''v'' ''t'') =
   ve_hash (new_version (\<lambda>s. s) demo_input ''s'' ''v'' ''t'')"
  by (rule version_hash_ignores_budgets) (simp add: demo_input_def)

section \<open>Cron expressions\<close>

text \<open>What one of the five fields may be: a star, a step, or a list of numbers and ranges whose ends are in
  the field's range.\<close>

definition cron_field_ok :: "nat \<times> nat \<Rightarrow> string \<Rightarrow> bool" where
  "cron_field_ok r p \<longleftrightarrow>
     p = ''*'' \<or> startsWith p ''*/'' \<and> digits1 (drop 2 p) \<or>
     (\<forall>seg\<in>set (split_on CHR '','' p). cron_segment_ok seg \<and> segment_in_range r seg)"

lemma star_not_segment: "\<not> cron_segment_ok (CHR ''*'' # s)"
proof -
  obtain w ws where "split_on CHR ''-'' s = w # ws" by (cases "split_on CHR ''-'' s") simp_all
  then show ?thesis
    by (auto simp: cron_segment_ok_def digits1_def is_digit_def split: list.splits)
qed

lemma star_part:
  assumes "startsWith p ''*/''" "cron_part_ok p" shows "digits1 (drop 2 p)"
proof -
  obtain s where p: "p = CHR ''*'' # CHR ''/'' # s" using assms(1) by (auto simp: startsWith_iff)
  obtain w ws where "split_on CHR '','' p = (CHR ''*'' # w) # ws"
    by (cases "split_on CHR '','' (CHR ''/'' # s)") (simp_all add: p)
  then have "\<not> list_all cron_segment_ok (split_on CHR '','' p)" by (simp add: star_not_segment)
  with assms(2) show ?thesis by (auto simp: cron_part_ok_def p)
qed

lemma range_issue_None:
  "range_issue i rps = None \<longleftrightarrow>
     (\<forall>(r, p)\<in>set rps. p = ''*'' \<or> startsWith p ''*/'' \<or> (\<forall>seg\<in>set (split_on CHR '','' p). segment_in_range r seg))"
  by (induction i rps rule: range_issue.induct) (auto simp: find_None_iff dest: find_Some_in split: option.splits)

lemma cron_field_iff:
  "cron_field_ok r p \<longleftrightarrow> cron_part_ok p \<and>
     (p = ''*'' \<or> startsWith p ''*/'' \<or> (\<forall>seg\<in>set (split_on CHR '','' p). segment_in_range r seg))"
  using star_part [of p] by (auto simp: cron_field_ok_def cron_part_ok_def list_all_iff)

text \<open>\<open>validateCron\<close> accepts exactly the expressions of five fields separated by white space in which
  every field is a star, a step, or a list of numbers and ranges with both ends in the field's
  range.\<close>
theorem cron_accepted_exactly:
  "validateCron c = None \<longleftrightarrow> list_all2 cron_field_ok cron_ranges (split_spaces (trim c))"
proof -
  let ?ps = "split_spaces (trim c)"
  have five: "length cron_ranges = 5" by (simp add: cron_ranges_def)
  have "validateCron c = None \<longleftrightarrow> trim c \<noteq> [] \<and> length ?ps = 5 \<and> (\<forall>p\<in>set ?ps. cron_part_ok p) \<and>
      range_issue 0 (zip cron_ranges ?ps) = None"
  proof (cases "find (\<lambda>p. \<not> cron_part_ok p) ?ps")
    case None
    then have "\<forall>p\<in>set ?ps. cron_part_ok p" by (simp add: find_None_iff)
    with None show ?thesis by (simp add: validateCron_def Let_def)
  next
    case (Some p)
    then have "\<not> (\<forall>p\<in>set ?ps. cron_part_ok p)" by (auto dest: find_Some_in)
    with Some show ?thesis by (simp add: validateCron_def Let_def)
  qed
  also have "\<dots> \<longleftrightarrow> length ?ps = 5 \<and> (\<forall>p\<in>set ?ps. cron_part_ok p) \<and> range_issue 0 (zip cron_ranges ?ps) = None"
    by (cases "trim c = []") simp_all
  also have "\<dots> \<longleftrightarrow> length ?ps = 5 \<and> (\<forall>(r, p)\<in>set (zip cron_ranges ?ps). cron_field_ok r p)"
  proof (cases "length ?ps = 5")
    case True
    then have names: "set ?ps = snd ` set (zip cron_ranges ?ps)"
      using map_snd_zip [of cron_ranges ?ps] five by (metis set_map)
    have "(\<forall>p\<in>set ?ps. cron_part_ok p) \<longleftrightarrow> (\<forall>x\<in>set (zip cron_ranges ?ps). cron_part_ok (snd x))"
      by (subst names) (simp only: ball_simps)
    then show ?thesis unfolding range_issue_None cron_field_iff case_prod_beta by blast
  qed simp
  also have "\<dots> \<longleftrightarrow> list_all2 cron_field_ok cron_ranges ?ps"
    by (auto simp: list_all2_iff five)
  finally show ?thesis .
qed

text \<open>A step of zero and a reversed range pass.\<close>

lemma cron_accepts_zero_step: "validateCron ''*/0 20-10 * * *'' = None"
  by code_simp

end
