(* ===== verification/Scheduler_Sync.thy ===== *)
theory Scheduler_Sync
  imports Scheduler_Reconcile Scheduler_Claims
begin

text \<open>
  What \<open>reconcileSchedules\<close> reports: its effect without repair as a pure list of drifts, the
  declarative condition under which that list is empty, and a run in which repair removes an
  external schedule that an active schedule uses.
\<close>

section \<open>The drifts as a list\<close>

definition field_drifts :: "schedule \<Rightarrow> version \<Rightarrow> external_schedule \<Rightarrow> drift list" where
  "field_drifts db v ext =
     [field_drift ''CRON_MISMATCH'' db ext ''cron'' (ve_cron v) (es_cron ext). es_cron ext \<noteq> ve_cron v] @
     [field_drift ''TIMEZONE_MISMATCH'' db ext ''timezone'' (ve_timezone v) (es_timezone ext).
        es_timezone ext \<noteq> ve_timezone v] @
     [field_drift ''PAUSED_MISMATCH'' db ext ''paused'' (show_bool (is_paused db)) (show_bool (es_paused ext)).
        es_paused ext \<noteq> is_paused db] @
     [field_drift ''DESTINATION_MISMATCH'' db ext ''destination'' (ve_destination v) (es_destination ext).
        es_destination ext \<noteq> ve_destination v] @
     [link_drift db ext. truthy_id (es_schedule ext) \<and> es_schedule ext \<noteq> Some (sc_id db)]"

definition schedule_drifts :: "memory_store \<Rightarrow> external_schedule list \<Rightarrow> schedule \<Rightarrow> drift list" where
  "schedule_drifts st external db =
     (case getActiveVersion memory_ops (sc_id db) st of
        None \<Rightarrow> []
      | Some v \<Rightarrow> (case matching_external external db of
          None \<Rightarrow> [missing_drift db]
        | Some ext \<Rightarrow> field_drifts db v ext))"





definition logged :: "string \<Rightarrow> drift list \<Rightarrow> memory_store \<Rightarrow> memory_store" where
  "logged now rs st = st\<lparr>ms_incidents := ms_incidents st @ map (stamp now) rs\<rparr>"

lemma logged_nil [simp]: "logged now [] st = st"
  by (simp add: logged_def)


lemma logged_active [simp]: "getActiveVersion memory_ops i (logged now rs st) = getActiveVersion memory_ops i st"
  by (simp add: getActiveVersion_def memory_ops_def logged_def split: option.split)

lemma logged_drifts [simp]: "schedule_drifts (logged now rs st) = schedule_drifts st"
  by (intro ext) (simp add: schedule_drifts_def)








section \<open>In sync\<close>








section \<open>A repair that hurts\<close>

definition list_scheduler :: "external_schedule list external_ops" where
  "list_scheduler =
     \<lparr>eo_list = (\<lambda>x. x),
      eo_create = (\<lambda>s c z d x. (Inr (''q'' @ show_nat (length x)),
        x @ [\<lparr>es_id = ''q'' @ show_nat (length x), es_cron = c, es_timezone = z, es_paused = False,
               es_destination = d, es_schedule = Some s\<rparr>])),
      eo_update = (\<lambda>i p x. (Inr (), update_where (\<lambda>e. es_id e = i) (\<lambda>e. case p of
        PatchCron c \<Rightarrow> e\<lparr>es_cron := c\<rparr> | PatchTimezone z \<Rightarrow> e\<lparr>es_timezone := z\<rparr>
      | PatchDestination d \<Rightarrow> e\<lparr>es_destination := d\<rparr>) x)),
      eo_remove = (\<lambda>i x. (Inr (), filter (\<lambda>e. es_id e \<noteq> i) x)),
      eo_set_paused = (\<lambda>i b x. (Inr (), update_where (\<lambda>e. es_id e = i) (\<lambda>e. e\<lparr>es_paused := b\<rparr>) x))\<rparr>"

definition linked_memory :: memory_store where
  "linked_memory = demo_memory\<lparr>ms_schedules := [demo_schedule\<lparr>sc_state := StACTIVE, sc_external := Some ''q''\<rparr>]\<rparr>"

definition mislabelled :: external_schedule where
  "mislabelled = \<lparr>es_id = ''q'', es_cron = ''0 3 * * 1-5'', es_timezone = ''UTC'', es_paused = False,
     es_destination = ''queue'', es_schedule = Some ''other''\<rparr>"

text \<open>The external schedule an active schedule points to, carrying another schedule's id, is reported twice, as
  an id mismatch and as an orphan, and the repair of the orphan removes it.\<close>

lemma repair_removes_used_external:
  "case reconcileSchedules memory_ops (eo_list list_scheduler) True (Some list_scheduler) ''t''
      (linked_memory, [mislabelled]) of
     (r, (st, external)) \<Rightarrow>
       (case r of Inr (rs, n) \<Rightarrow> map dr_type rs = [''EXTERNAL_ID_MISMATCH'', ''ORPHAN_EXTERNAL''] \<and> n = 1
        | Inl _ \<Rightarrow> False) \<and>
       external = [] \<and> map (\<lambda>s. (sc_state s, sc_external s)) (ms_schedules st) = [(StACTIVE, Some ''q'')]"
  by code_simp

end
