(* ===== verification/Domain_States.thy ===== *)
theory Domain_States
  imports Complex_Main Js_Date
begin

text \<open>
  packages/domain/src/state-machines.ts: the lifecycle and the risk of a candidate as two independent
  state machines, the validation of their transitions and the hysteresis rule. Scores, thresholds
  and times are exact rationals.
\<close>

section \<open>States\<close>

datatype candidate_lifecycle =
    DISCOVERED | QUALIFIED | EMERGING | CONFIRMED | MONITORING | DECAYING | REJECTED | ARCHIVED

datatype candidate_risk = RiUNKNOWN | RiLOW | RiMEDIUM | RiHIGH | RiCRITICAL | RiCONFLICTING

record candidate_state =
  cs_lifecycle :: candidate_lifecycle
  cs_risk :: candidate_risk

datatype actor_type = AtSYSTEM | AtHUMAN | AtPOLICY

record 'q transition =
  tr_from :: 'q
  tr_to :: 'q
  tr_reasons :: "string list"
  tr_feature :: string
  tr_ranking :: string
  tr_policy :: string
  tr_evidence :: "string list"
  tr_actor :: actor_type
  tr_run :: "string option"
  tr_event_at :: string
  tr_recorded_at :: string

text \<open>\<open>LIFECYCLE_ORDER\<close>; it makes the lifecycle a linear order.\<close>

fun LIFECYCLE_ORDER :: "candidate_lifecycle \<Rightarrow> nat" where
  "LIFECYCLE_ORDER DISCOVERED = 0"
| "LIFECYCLE_ORDER QUALIFIED = 1"
| "LIFECYCLE_ORDER EMERGING = 2"
| "LIFECYCLE_ORDER CONFIRMED = 3"
| "LIFECYCLE_ORDER MONITORING = 4"
| "LIFECYCLE_ORDER DECAYING = 5"
| "LIFECYCLE_ORDER REJECTED = 6"
| "LIFECYCLE_ORDER ARCHIVED = 7"

lemma LIFECYCLE_ORDER_inj: "LIFECYCLE_ORDER a = LIFECYCLE_ORDER b \<Longrightarrow> a = b"
  by (cases a; cases b) simp_all

instantiation candidate_lifecycle :: linorder
begin

definition less_eq_candidate_lifecycle :: "candidate_lifecycle \<Rightarrow> candidate_lifecycle \<Rightarrow> bool" where
  "a \<le> b \<longleftrightarrow> LIFECYCLE_ORDER a \<le> LIFECYCLE_ORDER b"

definition less_candidate_lifecycle :: "candidate_lifecycle \<Rightarrow> candidate_lifecycle \<Rightarrow> bool" where
  "a < b \<longleftrightarrow> LIFECYCLE_ORDER a < LIFECYCLE_ORDER b"

instance
  by standard (auto simp: less_eq_candidate_lifecycle_def less_candidate_lifecycle_def LIFECYCLE_ORDER_inj)

end

definition lifecycleRank :: "candidate_lifecycle \<Rightarrow> nat" where
  "lifecycleRank s = LIFECYCLE_ORDER s"

lemma rank_less_iff: "lifecycleRank a < lifecycleRank b \<longleftrightarrow> a < b"
  by (simp add: lifecycleRank_def less_candidate_lifecycle_def)

section \<open>Transition tables\<close>

fun ALLOWED_LIFECYCLE :: "candidate_lifecycle \<Rightarrow> candidate_lifecycle list" where
  "ALLOWED_LIFECYCLE DISCOVERED = [QUALIFIED, REJECTED, ARCHIVED]"
| "ALLOWED_LIFECYCLE QUALIFIED = [EMERGING, REJECTED, ARCHIVED]"
| "ALLOWED_LIFECYCLE EMERGING = [CONFIRMED, MONITORING, REJECTED, ARCHIVED]"
| "ALLOWED_LIFECYCLE CONFIRMED = [MONITORING, DECAYING, REJECTED, ARCHIVED]"
| "ALLOWED_LIFECYCLE MONITORING = [DECAYING, CONFIRMED, REJECTED, ARCHIVED]"
| "ALLOWED_LIFECYCLE DECAYING = [MONITORING, REJECTED, ARCHIVED]"
| "ALLOWED_LIFECYCLE REJECTED = [ARCHIVED, DISCOVERED]"
| "ALLOWED_LIFECYCLE ARCHIVED = []"

fun ALLOWED_RISK :: "candidate_risk \<Rightarrow> candidate_risk list" where
  "ALLOWED_RISK RiUNKNOWN = [RiLOW, RiMEDIUM, RiHIGH, RiCRITICAL, RiCONFLICTING]"
| "ALLOWED_RISK RiLOW = [RiMEDIUM, RiHIGH, RiCRITICAL, RiCONFLICTING, RiUNKNOWN]"
| "ALLOWED_RISK RiMEDIUM = [RiLOW, RiHIGH, RiCRITICAL, RiCONFLICTING, RiUNKNOWN]"
| "ALLOWED_RISK RiHIGH = [RiMEDIUM, RiCRITICAL, RiCONFLICTING, RiLOW, RiUNKNOWN]"
| "ALLOWED_RISK RiCRITICAL = [RiHIGH, RiCONFLICTING, RiMEDIUM, RiLOW, RiUNKNOWN]"
| "ALLOWED_RISK RiCONFLICTING = [RiUNKNOWN, RiLOW, RiMEDIUM, RiHIGH, RiCRITICAL]"

definition canTransitionLifecycle :: "candidate_lifecycle \<Rightarrow> candidate_lifecycle \<Rightarrow> bool" where
  "canTransitionLifecycle a b = (b \<in> set (ALLOWED_LIFECYCLE a))"

definition canTransitionRisk :: "candidate_risk \<Rightarrow> candidate_risk \<Rightarrow> bool" where
  "canTransitionRisk a b = (b \<in> set (ALLOWED_RISK a))"

text \<open>\<open>Date.parse(a) > Date.parse(b)\<close>; a comparison with \<open>NaN\<close> is false.\<close>

definition date_after :: "string \<Rightarrow> string \<Rightarrow> bool" where
  "date_after a b = (case (dateParse a, dateParse b) of (Some x, Some y) \<Rightarrow> x > y | _ \<Rightarrow> False)"

text \<open>The types leave only states of the tables, so the first guard of the two validations never throws.\<close>

definition validateLifecycleTransition :: "candidate_lifecycle transition \<Rightarrow> unit result" where
  "validateLifecycleTransition t =
     throw_if (\<not> canTransitionLifecycle (tr_from t) (tr_to t)) ''LIFECYCLE_TRANSITION_NOT_ALLOWED''
      (throw_if (length (tr_reasons t) = 0) ''REASON_CODES_REQUIRED''
        (throw_if (date_after (tr_event_at t) (tr_recorded_at t)) ''EVENT_AFTER_RECORDED'' (Inr ())))"

definition validateRiskTransition :: "candidate_risk transition \<Rightarrow> unit result" where
  "validateRiskTransition t =
     throw_if (\<not> canTransitionRisk (tr_from t) (tr_to t)) ''RISK_TRANSITION_NOT_ALLOWED''
      (throw_if (length (tr_reasons t) = 0) ''REASON_CODES_REQUIRED''
        (throw_if (date_after (tr_event_at t) (tr_recorded_at t)) ''EVENT_AFTER_RECORDED'' (Inr ())))"

definition assertLifecycleAndRiskIndependent :: "candidate_lifecycle \<Rightarrow> candidate_risk \<Rightarrow> candidate_state" where
  "assertLifecycleAndRiskIndependent l r = \<lparr>cs_lifecycle = l, cs_risk = r\<rparr>"

definition candidateStateEquals :: "candidate_state \<Rightarrow> candidate_state \<Rightarrow> bool" where
  "candidateStateEquals a b = (cs_lifecycle a = cs_lifecycle b \<and> cs_risk a = cs_risk b)"

section \<open>Hysteresis\<close>

record hysteresis_policy =
  hp_promotion :: rat
  hp_demotion :: rat
  hp_dwell :: rat
  hp_cooldown :: rat
  hp_oscillation :: rat

definition satisfiesHysteresis ::
  "candidate_lifecycle \<Rightarrow> candidate_lifecycle \<Rightarrow> rat \<Rightarrow> hysteresis_policy \<Rightarrow> rat \<Rightarrow> bool result" where
  "satisfiesHysteresis current candidate score policy elapsed =
     throw_if (hp_promotion policy \<le> hp_demotion policy) ''HYSTERESIS_THRESHOLDS_INVALID''
      (if elapsed < hp_dwell policy then Inr False
       else if lifecycleRank candidate > lifecycleRank current then Inr (score \<ge> hp_promotion policy)
       else if lifecycleRank candidate < lifecycleRank current then Inr (score \<le> hp_demotion policy)
       else Inr False)"

lemma hysteresis_True:
  "satisfiesHysteresis a b score p e = Inr True \<longleftrightarrow>
     hp_demotion p < hp_promotion p \<and> hp_dwell p \<le> e \<and>
     (a < b \<and> hp_promotion p \<le> score \<or> b < a \<and> score \<le> hp_demotion p)"
  unfolding satisfiesHysteresis_def throw_if_def rank_less_iff by (auto simp: not_le)

section \<open>A candidate under validated transitions\<close>

datatype candidate_op = LifecycleOp "candidate_lifecycle transition" | RiskOp "candidate_risk transition"

text \<open>A transition applies to a candidate in its source state when its validation passes; it changes its own
  machine only.\<close>

inductive candidate_step ::
  "candidate_state \<Rightarrow> candidate_op \<Rightarrow> candidate_state \<Rightarrow> bool" where
  lifecycle: "tr_from t = cs_lifecycle s \<Longrightarrow> validateLifecycleTransition t = Inr () \<Longrightarrow>
     candidate_step s (LifecycleOp t) (s\<lparr>cs_lifecycle := tr_to t\<rparr>)"
| risk: "tr_from t = cs_risk s \<Longrightarrow> validateRiskTransition t = Inr () \<Longrightarrow>
     candidate_step s (RiskOp t) (s\<lparr>cs_risk := tr_to t\<rparr>)"

inductive_cases lifecycle_stepE: "candidate_step s (LifecycleOp t) s'"
inductive_cases risk_stepE: "candidate_step s (RiskOp t) s'"
inductive_cases candidate_stepE: "candidate_step s o' s'"

inductive candidate_run :: "candidate_state \<Rightarrow> candidate_op list \<Rightarrow> candidate_state \<Rightarrow> bool"
  where
  stop: "candidate_run s [] s"
| more: "candidate_step s o' s' \<Longrightarrow> candidate_run s' os s'' \<Longrightarrow> candidate_run s (o' # os) s''"

lemma validated_lifecycle:
  "validateLifecycleTransition t = Inr () \<longleftrightarrow>
     canTransitionLifecycle (tr_from t) (tr_to t) \<and> tr_reasons t \<noteq> [] \<and>
     \<not> date_after (tr_event_at t) (tr_recorded_at t)"
  by (simp add: validateLifecycleTransition_def)

lemma archived_final: "\<not> canTransitionLifecycle ARCHIVED b"
  by (simp add: canTransitionLifecycle_def)

text \<open>The source states of the lifecycle operations of a run, and whether any touches one machine.\<close>

lemma run_archived:
  "candidate_run s os s' \<Longrightarrow> cs_lifecycle s = ARCHIVED \<Longrightarrow> cs_lifecycle s' = ARCHIVED"
proof (induction rule: candidate_run.induct)
  case (more s o' s' os s'')
  from more.hyps(1) more.prems have "cs_lifecycle s' = ARCHIVED"
    by (cases rule: candidate_stepE) (auto simp: validated_lifecycle archived_final)
  then show ?case by (rule more.IH)
qed simp

lemma run_same_risk:
  "candidate_run s os s' \<Longrightarrow> (\<And>t. RiskOp t \<notin> set os) \<Longrightarrow> cs_risk s' = cs_risk s"
proof (induction rule: candidate_run.induct)
  case (more s o' s' os s'')
  have "cs_risk s' = cs_risk s"
    using more.hyps(1) more.prems by (cases rule: candidate_stepE) auto
  with more show ?case by simp
qed simp

lemma run_same_lifecycle:
  "candidate_run s os s' \<Longrightarrow> (\<And>t. LifecycleOp t \<notin> set os) \<Longrightarrow> cs_lifecycle s' = cs_lifecycle s"
proof (induction rule: candidate_run.induct)
  case (more s o' s' os s'')
  have "cs_lifecycle s' = cs_lifecycle s"
    using more.hyps(1) more.prems by (cases rule: candidate_stepE) auto
  with more show ?case by simp
qed simp

text \<open>A score that moves a candidate's lifecycle from one state to another under the hysteresis rule never
  moves it straight back, at any later time: with the promotion threshold above the demotion
  threshold there is no oscillation at a constant score.\<close>
theorem hysteresis_no_oscillation:
  assumes "satisfiesHysteresis a b score p e = Inr True"
  shows "satisfiesHysteresis b a score p e' = Inr False"
  using assms unfolding hysteresis_True
  by (auto simp: satisfiesHysteresis_def throw_if_def rank_less_iff not_le)

definition demo_policy :: hysteresis_policy where
  "demo_policy = \<lparr>hp_promotion = 7 / 10, hp_demotion = 3 / 10, hp_dwell = 1000, hp_cooldown = 0, hp_oscillation = 2\<rparr>"

theorem hysteresis_no_oscillation_witness:
  "satisfiesHysteresis QUALIFIED EMERGING (8 / 10) demo_policy 1500 = Inr True \<and>
   satisfiesHysteresis EMERGING QUALIFIED (8 / 10) demo_policy 9000 = Inr False"
proof -
  have "satisfiesHysteresis QUALIFIED EMERGING (8 / 10) demo_policy 1500 = Inr True"
    by (simp add: satisfiesHysteresis_def demo_policy_def lifecycleRank_def)
  then show ?thesis using hysteresis_no_oscillation by blast
qed

text \<open>Lifecycle and risk are independent machines under validated transitions: a run without risk
  transitions leaves the risk alone, one without lifecycle transitions leaves the lifecycle alone,
  and an archived candidate stays archived whatever happens to its risk.\<close>
lemma candidate_machines_independent:
  assumes "candidate_run s os s'"
  shows "((\<forall>t. RiskOp t \<notin> set os) \<longrightarrow> cs_risk s' = cs_risk s) \<and>
    ((\<forall>t. LifecycleOp t \<notin> set os) \<longrightarrow> cs_lifecycle s' = cs_lifecycle s) \<and>
    (cs_lifecycle s = ARCHIVED \<longrightarrow> cs_lifecycle s' = ARCHIVED)"
  using run_same_risk [OF assms] run_same_lifecycle [OF assms] run_archived [OF assms] by blast

text \<open>An event time the engine cannot read passes the order check.\<close>

lemma unreadable_time_accepted:
  "canTransitionLifecycle (tr_from t) (tr_to t) \<Longrightarrow> tr_reasons t \<noteq> [] \<Longrightarrow> dateParse (tr_event_at t) = None \<Longrightarrow>
     validateLifecycleTransition t = Inr ()"
  by (simp add: validated_lifecycle date_after_def)

end
