(* ===== verification/Domain_Temporal.thy ===== *)
theory Domain_Temporal
  imports Domain_States
begin

text \<open>
  packages/domain/src/temporal.ts: point-in-time availability, revisions and the rule that nothing
  becomes available before it happened or was retrieved. A time is the text the code parses with
  \<open>Date.parse\<close>; \<open>None\<close> is \<open>NaN\<close>.
\<close>

section \<open>Records\<close>

datatype provenance =
    FIRST_PARTY_LIVE_OBSERVED | PROVIDER_LIVE_RESPONSE | AUTHORIZED_PUSH_RECEIVED
  | HISTORICAL_QUERY_FETCHED_LATER | MANUAL_IMPORT_AVAILABLE | DERIVED_FROM_AVAILABLE_INPUTS
  | LEARNED_ARTIFACT_PUBLISHED

record backfill_record =
  bf_job :: string
  bf_reason :: string
  bf_event_at :: string
  bf_retrieved_at :: string
  bf_available_at :: string
  bf_retrospective :: bool
  bf_observable_live :: bool
  bf_proof :: "string option"

section \<open>Assertions\<close>

definition both_dates :: "string \<Rightarrow> string \<Rightarrow> (int \<Rightarrow> int \<Rightarrow> 'a result) \<Rightarrow> 'a result" where
  "both_dates a b k =
     (case (dateParse a, dateParse b) of
        (Some x, Some y) \<Rightarrow> k x y
      | _ \<Rightarrow> Inl (Error ''TIMESTAMP_INVALID''))"

definition assertNoBackdating :: "string \<Rightarrow> string \<Rightarrow> unit result" where
  "assertNoBackdating eventTime availableAt =
     both_dates eventTime availableAt (\<lambda>e a. throw_if (a < e) ''AVAILABLE_AT_BACKDATED'' (Inr ()))"

definition assertAvailableAtMonotonic :: "string \<Rightarrow> string \<Rightarrow> unit result" where
  "assertAvailableAtMonotonic availableAt retrievedAt =
     both_dates availableAt retrievedAt (\<lambda>a r. throw_if (a < r) ''AVAILABLE_AT_BEFORE_RETRIEVAL'' (Inr ()))"






definition createBackfillRecord ::
  "string \<Rightarrow> string \<Rightarrow> string \<Rightarrow> string \<Rightarrow> string option \<Rightarrow> bool option \<Rightarrow> backfill_record result" where
  "createBackfillRecord job reason eventAt retrievedAt evidence observable =
     bind_result (assertNoBackdating eventAt retrievedAt) (\<lambda>_.
       Inr \<lparr>bf_job = job, bf_reason = reason, bf_event_at = eventAt, bf_retrieved_at = retrievedAt,
         bf_available_at = retrievedAt, bf_retrospective = True,
         bf_observable_live = (case observable of None \<Rightarrow> False | Some b \<Rightarrow> b), bf_proof = evidence\<rparr>)"

text \<open>\<open>ingestedAt\<close> is a required text, so \<open>ingestedAt ?? fetchedAt\<close> is \<open>ingestedAt\<close>.\<close>

definition deriveAvailableAt ::
  "string \<Rightarrow> string \<Rightarrow> string \<Rightarrow> provenance \<Rightarrow> string option \<Rightarrow> string result" where
  "deriveAvailableAt eventAt fetchedAt ingestedAt prov receipt =
     (case (prov, receipt) of
        (FIRST_PARTY_LIVE_OBSERVED, Some r) \<Rightarrow>
          if r \<noteq> [] then bind_result (assertNoBackdating eventAt r) (\<lambda>_. Inr r)
          else bind_result (assertNoBackdating eventAt ingestedAt) (\<lambda>_.
            throw_if (date_after fetchedAt ingestedAt) ''AVAILABLE_AT_BEFORE_FETCH'' (Inr ingestedAt))
      | _ \<Rightarrow> bind_result (assertNoBackdating eventAt ingestedAt) (\<lambda>_.
            throw_if (date_after fetchedAt ingestedAt) ''AVAILABLE_AT_BEFORE_FETCH'' (Inr ingestedAt)))"

section \<open>Facts\<close>

lemma both_dates_Inr:
  "both_dates a b k = Inr r \<longleftrightarrow> (\<exists>x y. dateParse a = Some x \<and> dateParse b = Some y \<and> k x y = Inr r)"
  by (auto simp: both_dates_def split: option.split)













text \<open>An availability time the module hands out is never before the event: a derived time parses and is
  at or after the event, and unless it is the first-party receipt it is not before a readable fetch
  time; a backfill is available when it was retrieved, and marked retrospective.\<close>
theorem availability_never_backdated:
  "(deriveAvailableAt eventAt fetchedAt ingestedAt prov receipt = Inr a \<longrightarrow>
      (\<exists>x y. dateParse eventAt = Some x \<and> dateParse a = Some y \<and> x \<le> y) \<and>
      (receipt = Some a \<or> a = ingestedAt \<and> \<not> date_after fetchedAt a)) \<and>
   (createBackfillRecord job reason eventAt retrievedAt p ob = Inr r \<longrightarrow>
      bf_available_at r = retrievedAt \<and> bf_retrospective r \<and>
      (\<exists>x y. dateParse eventAt = Some x \<and> dateParse retrievedAt = Some y \<and> x \<le> y))"
  by (auto simp: deriveAvailableAt_def createBackfillRecord_def assertNoBackdating_def both_dates_Inr
      split: provenance.splits option.splits if_splits)

theorem availability_never_backdated_witness:
  "deriveAvailableAt ''2026-01-01T00:00:00Z'' ''2026-01-01T00:00:01Z'' ''2026-01-01T00:00:02Z'' PROVIDER_LIVE_RESPONSE None =
     Inr ''2026-01-01T00:00:02Z'' \<and>
   (\<exists>x y. dateParse ''2026-01-01T00:00:00Z'' = Some x \<and> dateParse ''2026-01-01T00:00:02Z'' = Some y \<and> x \<le> y)"
proof -
  have t: "dateParse ''2026-01-01T00:00:00Z'' = Some 1767225600000" "dateParse ''2026-01-01T00:00:01Z'' = Some 1767225601000"
    "dateParse ''2026-01-01T00:00:02Z'' = Some 1767225602000" by (simp_all add: date_eval)
  have d: "deriveAvailableAt ''2026-01-01T00:00:00Z'' ''2026-01-01T00:00:01Z'' ''2026-01-01T00:00:02Z'' PROVIDER_LIVE_RESPONSE None =
      Inr ''2026-01-01T00:00:02Z''"
    by (simp add: deriveAvailableAt_def assertNoBackdating_def both_dates_def date_after_def t)
  from availability_never_backdated [THEN conjunct1, THEN mp, OF d] d show ?thesis by blast
qed

end
