(* ===== verification/Asset_Identity.thy ===== *)
theory Asset_Identity
  imports Js_Number "HOL-Library.Product_Lexorder" "HOL-Library.Multiset"
begin

text \<open>
  packages/domain/src/identity.ts: chains, addresses, assets, pools, migrations and the ranking of
  pool candidates. \<open>Number(text)\<close> is modelled on decimal literals with an optional sign, fraction
  and exponent; any other text, \<open>Infinity\<close> and the radix prefixes included, is \<open>NaN\<close> (\<open>None\<close>).
\<close>

section \<open>Chains and addresses\<close>

datatype chain_namespace = NsEIP155 | NsSOLANA | NsINTERNAL

datatype mapping_quality = MqREGISTERED | MqINTERNAL_VERSIONED

record chain_identity =
  ch_id :: string
  ch_namespace :: chain_namespace
  ch_caip2 :: "string option"
  ch_quality :: mapping_quality

definition KNOWN_CAIP2 :: "(string \<times> string) list" where
  "KNOWN_CAIP2 =
     [(''solana:5eykt4UsFv8P8NJdTREpY1vzqKqZKvdp'', ''solana:5eykt4UsFv8P8NJdTREpY1vzqKqZKvdp''),
      (''eip155:1'', ''eip155:1''), (''eip155:137'', ''eip155:137'')]"

definition canonicalChainId :: "string \<Rightarrow> chain_identity" where
  "canonicalChainId chainId =
     (case map_of KNOWN_CAIP2 chainId of
        Some caip2 \<Rightarrow> \<lparr>ch_id = chainId,
          ch_namespace = (if startsWith chainId ''eip155'' then NsEIP155 else NsSOLANA),
          ch_caip2 = Some caip2, ch_quality = MqREGISTERED\<rparr>
      | None \<Rightarrow> \<lparr>ch_id = chainId, ch_namespace = NsINTERNAL, ch_caip2 = None, ch_quality = MqINTERNAL_VERSIONED\<rparr>)"

definition code_in :: "nat \<Rightarrow> nat \<Rightarrow> char \<Rightarrow> bool" where
  "code_in a b c = (a \<le> (of_char c :: nat) \<and> (of_char c :: nat) \<le> b)"

definition hex_char :: "char \<Rightarrow> bool" where
  "hex_char c = (is_digit c \<or> code_in 97 102 c \<or> code_in 65 70 c)"

definition evm_address :: "string \<Rightarrow> bool" where
  "evm_address s = (startsWith s ''0x'' \<and> length s = 42 \<and> list_all hex_char (drop 2 s))"

text \<open>\<open>[1-9A-HJ-NP-Za-km-z]\<close>.\<close>

definition base58_char :: "char \<Rightarrow> bool" where
  "base58_char c = (code_in 49 57 c \<or> code_in 65 72 c \<or> code_in 74 78 c \<or> code_in 80 90 c \<or>
     code_in 97 107 c \<or> code_in 109 122 c)"

definition solana_address :: "string \<Rightarrow> bool" where
  "solana_address s = (32 \<le> length s \<and> length s \<le> 44 \<and> list_all base58_char s)"

text \<open>\<open>toLowerCase\<close> on a text of ASCII letters, digits and the like.\<close>

definition lower_char :: "char \<Rightarrow> char" where
  "lower_char c = (if code_in 65 90 c then char_of ((of_char c :: nat) + 32) else c)"

definition normalizeAddress :: "string \<Rightarrow> string \<Rightarrow> string result" where
  "normalizeAddress chainId address =
     throw_if (address = []) ''ADDRESS_REQUIRED''
      (case ch_namespace (canonicalChainId chainId) of
         NsEIP155 \<Rightarrow> throw_if (\<not> evm_address address) ''EVM_ADDRESS_INVALID'' (Inr (map lower_char address))
       | NsSOLANA \<Rightarrow> throw_if (\<not> solana_address address) ''SOLANA_ADDRESS_INVALID'' (Inr address)
       | NsINTERNAL \<Rightarrow> Inr (trim address))"


section \<open>Assets and pools\<close>

record asset_representation =
  ar_id :: string
  ar_chain :: string
  ar_address :: string
  ar_caip10 :: "string option"
  ar_decimals :: rat
  ar_decimals_version :: string
  ar_decimals_source :: string
  ar_symbol :: "string option"
  ar_name :: "string option"

definition bad_decimals :: "rat \<Rightarrow> bool" where
  "bad_decimals d = (rat_of_int \<lfloor>d\<rfloor> \<noteq> d \<or> d < 0 \<or> 36 < d)"

definition caip10_of :: "string \<Rightarrow> string \<Rightarrow> string option" where
  "caip10_of chainId canonical = map_option (\<lambda>c. c @ '':'' @ canonical) (ch_caip2 (canonicalChainId chainId))"


record asset_group =
  ag_id :: string
  ag_members :: "string list"
  ag_verified :: bool
  ag_proof :: "string option"

definition createAssetGroup :: "string \<Rightarrow> asset_representation list \<Rightarrow> string option \<Rightarrow> asset_group result" where
  "createAssetGroup assetId representations evidence =
     (let verified = (if length representations > 1 then (case evidence of None \<Rightarrow> False | Some p \<Rightarrow> p \<noteq> []) else True) in
      throw_if (length representations = 0) ''ASSET_GROUP_EMPTY''
       (throw_if (length representations > 1 \<and> \<not> verified) ''EQUIVALENCE_UNVERIFIED''
         (Inr \<lparr>ag_id = assetId, ag_members = map ar_id representations, ag_verified = verified, ag_proof = evidence\<rparr>)))"

record pool_identity =
  po_id :: string
  po_chain :: string
  po_dex :: string
  po_address :: string
  po_caip10 :: "string option"
  po_quote :: "string option"

definition createPoolIdentity :: "string \<Rightarrow> string \<Rightarrow> string \<Rightarrow> string option \<Rightarrow> pool_identity result" where
  "createPoolIdentity chainId dex address quote =
     throw_if (dex = []) ''DEX_REQUIRED''
      (bind_result (normalizeAddress chainId address) (\<lambda>canonical.
         Inr \<lparr>po_id = chainId @ '':'' @ dex @ '':'' @ canonical, po_chain = chainId, po_dex = dex,
           po_address = canonical, po_caip10 = caip10_of chainId canonical, po_quote = quote\<rparr>))"

section \<open>Amounts and conversions\<close>

text \<open>The longest prefix of digits, and the rest.\<close>

definition span_digits :: "string \<Rightarrow> string \<times> string" where
  "span_digits s = (takeWhile is_digit s, dropWhile is_digit s)"

definition exponent_of :: "string \<Rightarrow> int option" where
  "exponent_of s =
     (case s of
        [] \<Rightarrow> Some 0
      | c # r \<Rightarrow>
          if c \<noteq> CHR ''e'' \<and> c \<noteq> CHR ''E'' then None
          else (case r of
              [] \<Rightarrow> None
            | d # r' \<Rightarrow>
                if d = CHR ''-'' then (if r' \<noteq> [] \<and> list_all is_digit r' then Some (- int (read_nat r')) else None)
                else if d = CHR ''+'' then (if r' \<noteq> [] \<and> list_all is_digit r' then Some (int (read_nat r')) else None)
                else if list_all is_digit r then Some (int (read_nat r)) else None))"

definition unsigned_number :: "string \<Rightarrow> rat option" where
  "unsigned_number s =
     (case span_digits s of (whole, rest) \<Rightarrow>
        (case (case rest of CHR ''.'' # r \<Rightarrow> span_digits r | _ \<Rightarrow> ([], rest)) of (fraction, rest') \<Rightarrow>
           if whole = [] \<and> fraction = [] then None
           else map_option (\<lambda>e.
             (rat_of_nat (read_nat (whole @ fraction)) / 10 ^ length fraction) *
             (if 0 \<le> e then 10 ^ nat e else 1 / 10 ^ nat (- e))) (exponent_of rest')))"

definition js_number :: "string \<Rightarrow> rat option" where
  "js_number text =
     (case trim text of
        [] \<Rightarrow> Some 0
      | c # r \<Rightarrow> if c = CHR ''-'' then map_option uminus (unsigned_number r)
          else if c = CHR ''+'' then unsigned_number r else unsigned_number (c # r))"

datatype conversion_quality = CqVALID | CqSTALE | CqDEPEG | CqESTIMATED

record quote_conversion =
  qc_asset :: string
  qc_usd :: string
  qc_source :: string
  qc_observed_at :: string
  qc_quality :: conversion_quality

definition createQuoteConversion :: "quote_conversion \<Rightarrow> quote_conversion result" where
  "createQuoteConversion q = throw_if (js_number (qc_usd q) = None) ''QUOTE_CONVERSION_INVALID'' (Inr q)"

definition parseTokenAmount :: "string \<Rightarrow> rat \<Rightarrow> (string \<times> rat) result" where
  "parseTokenAmount raw decimals =
     throw_if (raw = [] \<or> \<not> list_all is_digit raw) ''TOKEN_AMOUNT_INVALID''
      (throw_if (bad_decimals decimals) ''DECIMALS_INVALID'' (Inr (raw, decimals)))"

record migration_event =
  mg_id :: string
  mg_launch :: string
  mg_migrated :: string
  mg_event_at :: string
  mg_tx :: "string option"

definition createMigrationEdge :: "migration_event \<Rightarrow> migration_event result" where
  "createMigrationEdge m = throw_if (mg_launch m = mg_migrated m) ''MIGRATION_SELF_LOOP'' (Inr m)"

section \<open>Ranking of pool candidates\<close>








datatype identity_quality =
    IqVERIFIED | IqUNVERIFIED_PROGRAM_VERSION | IqAMBIGUOUS_MIGRATION_LINEAGE | IqDECIMAL_UNCERTAIN
  | IqSUPPLY_UNCERTAIN | IqUNKNOWN_TRANSFER_SEMANTICS | IqUNRESOLVED_QUOTE_ASSET
  | IqAMBIGUOUS_POOL_IDENTITY | IqINCOMPATIBLE_TOKEN_EXTENSION

definition requiresAbstention :: "identity_quality \<Rightarrow> bool" where
  "requiresAbstention q = (q \<noteq> IqVERIFIED)"

section \<open>Facts\<close>

lemma lower_char_eq: "code_in 65 90 c \<Longrightarrow> (of_char (lower_char c) :: nat) = of_char c + 32"
  by (simp add: lower_char_def code_in_def)

lemma lower_lower [simp]: "lower_char (lower_char c) = lower_char c"
proof (cases "code_in 65 90 c")
  case True
  then have "\<not> code_in 65 90 (lower_char c)" using lower_char_eq [OF True] by (simp add: code_in_def)
  then show ?thesis by (simp add: lower_char_def)
qed (simp add: lower_char_def)






text \<open>An address of white space passes on an unregistered chain and leaves an empty canonical address, which
  itself would be refused.\<close>

lemma blank_address_accepted:
  "normalizeAddress ''chain'' '' '' = Inr [] \<and> normalizeAddress ''chain'' [] = Inl (Error ''ADDRESS_REQUIRED'')"
  by code_simp

section \<open>The ranking is a stable sort by a key\<close>












end
