(* ===== verification/Module_Registry.thy ===== *)
theory Module_Registry
  imports Sql_Table
begin

text \<open>
  packages/capability-registry/src/index.ts: the registry of capabilities, the module registry with
  its independent dimensions, the evaluation of a deployment, the build order of dependency groups
  and the strict-free cost policy. A \<open>Map\<close> is the table of its values; \<open>structuredClone\<close> is the
  identity on values.
\<close>

section \<open>Capabilities\<close>

datatype capability_mode =
    CmIMPLEMENTED | CmAVAILABLE | CmSHADOW | CmPROVEN | CmACTIVE | CmDEGRADED | CmPAUSED | CmRETIRED | CmDISABLED

record capability_record =
  cr_id :: string
  cr_engineering :: capability_mode
  cr_availability :: capability_mode
  cr_influence :: capability_mode
  cr_reason :: string

definition capability_register :: "capability_record \<Rightarrow> capability_record list \<Rightarrow> capability_record list" where
  "capability_register r reg = upsert cr_id r reg"

definition capability_get :: "string \<Rightarrow> capability_record list \<Rightarrow> capability_record option" where
  "capability_get i reg = row_of cr_id reg i"

definition capability_activate :: "unit result" where
  "capability_activate = Inl (Error ''AUTOMATIC_CAPABILITY_ACTIVATION_PROHIBITED'')"

section \<open>Modules\<close>

datatype module_availability = MaAVAILABLE | MaSHADOW | MaDISABLED | MaPAUSED | MaDEGRADED

datatype module_operational = MoNORMAL | MoDEGRADED | MoPAUSED

record module_state =
  mo_id :: string
  mo_implemented :: bool
  mo_availability :: module_availability
  mo_proven :: bool
  mo_operational :: module_operational

definition createModuleState ::
  "string \<Rightarrow> bool option \<Rightarrow> module_availability option \<Rightarrow> bool option \<Rightarrow> module_operational option \<Rightarrow> module_state" where
  "createModuleState i impl avail prov oper =
     \<lparr>mo_id = i, mo_implemented = (case impl of None \<Rightarrow> False | Some b \<Rightarrow> b),
      mo_availability = (case avail of None \<Rightarrow> MaDISABLED | Some a \<Rightarrow> a),
      mo_proven = (case prov of None \<Rightarrow> False | Some b \<Rightarrow> b),
      mo_operational = (case oper of None \<Rightarrow> MoNORMAL | Some q \<Rightarrow> q)\<rparr>"

definition module_register :: "module_state \<Rightarrow> module_state list \<Rightarrow> module_state list" where
  "module_register m reg = upsert mo_id m reg"

definition module_get :: "string \<Rightarrow> module_state list \<Rightarrow> module_state option" where
  "module_get i reg = row_of mo_id reg i"

definition module_require :: "string \<Rightarrow> module_state list \<Rightarrow> module_state result" where
  "module_require i reg =
     (case module_get i reg of None \<Rightarrow> Inl (Error (''MODULE_NOT_FOUND:'' @ i)) | Some m \<Rightarrow> Inr m)"

text \<open>The four setters: require, change one field, set under the given id.\<close>

definition set_field :: "(module_state \<Rightarrow> module_state) \<Rightarrow> string \<Rightarrow> module_state list \<Rightarrow> module_state result \<times> module_state list" where
  "set_field f i reg =
     (case module_require i reg of
        Inl e \<Rightarrow> (Inl e, reg)
      | Inr m \<Rightarrow> (Inr (f m), upsert mo_id (f m) reg))"

definition setImplemented :: "string \<Rightarrow> bool \<Rightarrow> module_state list \<Rightarrow> module_state result \<times> module_state list" where
  "setImplemented i b = set_field (\<lambda>m. m\<lparr>mo_implemented := b\<rparr>) i"

definition setAvailability :: "string \<Rightarrow> module_availability \<Rightarrow> module_state list \<Rightarrow> module_state result \<times> module_state list" where
  "setAvailability i a = set_field (\<lambda>m. m\<lparr>mo_availability := a\<rparr>) i"

definition setProven :: "string \<Rightarrow> bool \<Rightarrow> module_state list \<Rightarrow> module_state result \<times> module_state list" where
  "setProven i b = set_field (\<lambda>m. m\<lparr>mo_proven := b\<rparr>) i"

definition setOperational :: "string \<Rightarrow> module_operational \<Rightarrow> module_state list \<Rightarrow> module_state result \<times> module_state list" where
  "setOperational i q = set_field (\<lambda>m. m\<lparr>mo_operational := q\<rparr>) i"

definition canProduceActiveInfluence :: "string \<Rightarrow> module_state list \<Rightarrow> bool result" where
  "canProduceActiveInfluence i reg =
     bind_result (module_require i reg) (\<lambda>m.
       if \<not> mo_implemented m then Inr False
       else if mo_availability m \<noteq> MaAVAILABLE then Inr False
       else if \<not> mo_proven m then Inr False
       else if mo_operational m \<noteq> MoNORMAL then Inr False
       else Inr True)"

definition isShadowOnly :: "string \<Rightarrow> module_state list \<Rightarrow> bool result" where
  "isShadowOnly i reg = bind_result (module_require i reg) (\<lambda>m. Inr (mo_availability m = MaSHADOW))"

section \<open>Deployment\<close>

record deployment_evaluation =
  de_deployable :: bool
  de_proven :: "string list"
  de_blocked :: "string list"
  de_shadow :: "string list"
  de_reason :: string

definition proven_module :: "module_state \<Rightarrow> bool" where
  "proven_module m = (mo_proven m \<and> mo_implemented m \<and> mo_availability m = MaAVAILABLE \<and> mo_operational m = MoNORMAL)"

definition shadow_or_disabled :: "module_state \<Rightarrow> bool" where
  "shadow_or_disabled m = (mo_availability m = MaSHADOW \<or> mo_availability m = MaDISABLED \<or> \<not> mo_implemented m \<or>
     mo_availability m = MaPAUSED \<or> mo_operational m \<noteq> MoNORMAL)"

text \<open>The listed modules are in the registry, so the lookup of \<open>canProduceActiveInfluence\<close> never throws.\<close>

definition evaluateProductionDeployment :: "module_state list \<Rightarrow> deployment_evaluation" where
  "evaluateProductionDeployment reg =
     (let proven = filter proven_module reg;
          blocked = filter (\<lambda>m. canProduceActiveInfluence (mo_id m) reg \<noteq> Inr True) proven in
      \<lparr>de_deployable = True, de_proven = map mo_id proven, de_blocked = map mo_id blocked,
       de_shadow = map mo_id (filter shadow_or_disabled reg),
       de_reason = (if length proven = 0 then ''DEPLOYABLE_NO_PROVEN_PATHS_REQUIRED''
         else if length blocked = 0 then ''DEPLOYABLE_PROVEN_PATHS_INTACT''
         else ''DEPLOYABLE_BUT_SOME_PROVEN_BLOCKED'')\<rparr>)"

section \<open>Dependency groups\<close>

datatype dependency_group = G0 | G1 | G2 | G3 | G4 | G5 | G6 | G7

definition DEPENDENCY_GROUP_ORDER :: "dependency_group list" where
  "DEPENDENCY_GROUP_ORDER = [G0, G1, G2, G3, G4, G5, G6, G7]"

record group_definition =
  gd_group :: dependency_group
  gd_order :: nat
  gd_prerequisites :: "dependency_group list"

fun getGroupDefinition :: "dependency_group \<Rightarrow> group_definition" where
  "getGroupDefinition G0 = \<lparr>gd_group = G0, gd_order = 0, gd_prerequisites = []\<rparr>"
| "getGroupDefinition G1 = \<lparr>gd_group = G1, gd_order = 1, gd_prerequisites = [G0]\<rparr>"
| "getGroupDefinition G2 = \<lparr>gd_group = G2, gd_order = 2, gd_prerequisites = [G0, G1]\<rparr>"
| "getGroupDefinition G3 = \<lparr>gd_group = G3, gd_order = 3, gd_prerequisites = [G0, G1, G2]\<rparr>"
| "getGroupDefinition G4 = \<lparr>gd_group = G4, gd_order = 4, gd_prerequisites = [G0, G1, G2]\<rparr>"
| "getGroupDefinition G5 = \<lparr>gd_group = G5, gd_order = 5, gd_prerequisites = [G0, G1, G2, G4]\<rparr>"
| "getGroupDefinition G6 = \<lparr>gd_group = G6, gd_order = 6, gd_prerequisites = [G0, G1, G2, G4, G5]\<rparr>"
| "getGroupDefinition G7 = \<lparr>gd_group = G7, gd_order = 7, gd_prerequisites = [G0, G1, G2, G3, G4, G5, G6]\<rparr>"

definition getTestPrerequisites :: "dependency_group \<Rightarrow> dependency_group list" where
  "getTestPrerequisites g = gd_prerequisites (getGroupDefinition g)"

fun group_name :: "dependency_group \<Rightarrow> string" where
  "group_name G0 = ''G0''" | "group_name G1 = ''G1''" | "group_name G2 = ''G2''" | "group_name G3 = ''G3''"
| "group_name G4 = ''G4''" | "group_name G5 = ''G5''" | "group_name G6 = ''G6''" | "group_name G7 = ''G7''"

fun index_of :: "'a \<Rightarrow> 'a list \<Rightarrow> int" where
  "index_of x [] = - 1"
| "index_of x (y # ys) = (if x = y then 0 else (let i = index_of x ys in if i < 0 then - 1 else 1 + i))"

text \<open>The outer loop with the groups already passed; the inner loop finds the first of them that comes later
  in the order.\<close>

fun check_build :: "dependency_group list \<Rightarrow> dependency_group list \<Rightarrow> bool \<times> string" where
  "check_build passed [] = (True, ''BUILD_ORDER_VALID'')"
| "check_build passed (g # gs) =
     (case find (\<lambda>p. index_of p DEPENDENCY_GROUP_ORDER > index_of g DEPENDENCY_GROUP_ORDER) passed of
        Some p \<Rightarrow> (False, ''BUILD_ORDER_VIOLATION:'' @ group_name p @ ''>'' @ group_name g)
      | None \<Rightarrow> check_build (passed @ [g]) gs)"

definition validateBuildOrder :: "dependency_group list \<Rightarrow> bool \<times> string" where
  "validateBuildOrder groups = check_build [] groups"

section \<open>Strict-free policy\<close>

record critical_dependency =
  cd_name :: string
  cd_sla :: bool
  cd_verified_at :: "string option"

datatype declared_tier = BEST_EFFORT | SLA_GUARANTEED

record free_tier_evaluation =
  ft_mode :: string
  ft_tier :: declared_tier
  ft_reason :: string
  ft_dependencies :: "critical_dependency list"
  ft_all :: bool

definition evaluateFreeTierPolicy :: "critical_dependency list \<Rightarrow> free_tier_evaluation" where
  "evaluateFreeTierPolicy deps =
     (let all_sla = (length deps > 0 \<and> list_all (\<lambda>d. cd_sla d \<and> cd_verified_at d \<noteq> None) deps) in
      \<lparr>ft_mode = ''STRICT_FREE'', ft_tier = (if all_sla then SLA_GUARANTEED else BEST_EFFORT),
       ft_reason = (if all_sla then ''ALL_CRITICAL_DEPENDENCIES_HAVE_APPLICABLE_SLA''
         else ''FREE_ONLY_BEST_EFFORT_UNLESS_EVERY_CRITICAL_DEPENDENCY_HAS_SLA''),
       ft_dependencies = deps, ft_all = all_sla\<rparr>)"

datatype cost_class = FREE_UNMETERED | FREE_QUOTA | PAID | UNKNOWN_COST

record cost_input =
  co_operation :: string
  co_class :: cost_class
  co_exceeds :: bool
  co_upgrade :: bool
  co_fallback :: bool

definition authorizeStrictFree :: "cost_input \<Rightarrow> bool \<times> string" where
  "authorizeStrictFree i =
     (if co_class i = PAID then (False, ''STRICT_FREE_BLOCKS_PAID'')
      else if co_class i = UNKNOWN_COST then (False, ''STRICT_FREE_BLOCKS_UNKNOWN_COST'')
      else if co_exceeds i then (False, ''STRICT_FREE_BLOCKS_OVERAGE'')
      else if co_upgrade i then (False, ''STRICT_FREE_BLOCKS_AUTO_UPGRADE'')
      else if co_fallback i then (False, ''STRICT_FREE_BLOCKS_PAID_FALLBACK'')
      else (True, ''STRICT_FREE_ALLOWED''))"

section \<open>The registry refines a map\<close>

datatype module_op =
    RegisterOp module_state | ImplementedOp string bool | AvailabilityOp string module_availability
  | ProvenOp string bool | OperationalOp string module_operational

fun module_exec :: "module_op \<Rightarrow> module_state list \<Rightarrow> module_state list" where
  "module_exec (RegisterOp m) reg = module_register m reg"
| "module_exec (ImplementedOp i b) reg = snd (setImplemented i b reg)"
| "module_exec (AvailabilityOp i a) reg = snd (setAvailability i a reg)"
| "module_exec (ProvenOp i b) reg = snd (setProven i b reg)"
| "module_exec (OperationalOp i q) reg = snd (setOperational i q reg)"

text \<open>The specification: a map from ids to four independent dimensions.\<close>

type_synonym dimensions = "bool \<times> module_availability \<times> bool \<times> module_operational"

definition dimensions_of :: "module_state \<Rightarrow> dimensions" where
  "dimensions_of m = (mo_implemented m, mo_availability m, mo_proven m, mo_operational m)"

definition registry_map :: "module_state list \<Rightarrow> string \<rightharpoonup> dimensions" where
  "registry_map reg i = map_option dimensions_of (module_get i reg)"

definition change :: "(dimensions \<Rightarrow> dimensions) \<Rightarrow> string \<Rightarrow> (string \<rightharpoonup> dimensions) \<Rightarrow> (string \<rightharpoonup> dimensions)" where
  "change f i r = (\<lambda>j. if j = i then map_option f (r i) else r j)"

fun spec_exec :: "module_op \<Rightarrow> (string \<rightharpoonup> dimensions) \<Rightarrow> (string \<rightharpoonup> dimensions)" where
  "spec_exec (RegisterOp m) r = r(mo_id m \<mapsto> dimensions_of m)"
| "spec_exec (ImplementedOp i b) r = change (\<lambda>(_, a, p, q). (b, a, p, q)) i r"
| "spec_exec (AvailabilityOp i a) r = change (\<lambda>(m, _, p, q). (m, a, p, q)) i r"
| "spec_exec (ProvenOp i b) r = change (\<lambda>(m, a, _, q). (m, a, b, q)) i r"
| "spec_exec (OperationalOp i q) r = change (\<lambda>(m, a, p, _). (m, a, p, q)) i r"

lemma set_field_refines:
  assumes "\<And>m. mo_id (f m) = mo_id m" and "\<And>m. dimensions_of (f m) = g (dimensions_of m)"
  shows "registry_map (snd (set_field f i reg)) = change g i (registry_map reg)"
proof (cases "module_get i reg")
  case None
  then show ?thesis by (auto simp: set_field_def module_require_def change_def registry_map_def fun_eq_iff)
next
  case (Some m)
  then have "mo_id m = i" using row_of_Some_key [of mo_id reg i m] by (simp add: module_get_def)
  with Some assms show ?thesis
    by (auto simp: set_field_def module_require_def change_def registry_map_def fun_eq_iff row_of_upsert module_get_def)
qed

lemma module_exec_refines: "registry_map (module_exec o' reg) = spec_exec o' (registry_map reg)"
proof (cases o')
  case (RegisterOp m)
  then show ?thesis
    by (auto simp: module_register_def registry_map_def module_get_def row_of_upsert fun_eq_iff)
qed (auto simp: setImplemented_def setAvailability_def setProven_def setOperational_def dimensions_of_def
    intro!: set_field_refines)

lemma run_refines: "registry_map (fold module_exec os reg) = fold spec_exec os (registry_map reg)"
  by (induction os arbitrary: reg) (simp_all add: module_exec_refines)

lemma influence_iff:
  "canProduceActiveInfluence i reg =
     (case registry_map reg i of
        None \<Rightarrow> Inl (Error (''MODULE_NOT_FOUND:'' @ i))
      | Some d \<Rightarrow> Inr (d = (True, MaAVAILABLE, True, MoNORMAL)))"
  by (auto simp: canProduceActiveInfluence_def module_require_def registry_map_def dimensions_of_def split: option.split)

text \<open>C35. The module registry implements four independent dimensions per module: under any sequence of
  operations it is a map in which a registration sets an id's dimensions and a setter changes its own
  dimension of its own module and nothing else, and a module may influence exactly when it is
  implemented, available, proven and in normal operation.\<close>
theorem registry_refines_independent_dimensions:
  "registry_map (fold module_exec os reg) = fold spec_exec os (registry_map reg) \<and>
   canProduceActiveInfluence i (fold module_exec os reg) =
     (case fold spec_exec os (registry_map reg) i of
        None \<Rightarrow> Inl (Error (''MODULE_NOT_FOUND:'' @ i))
      | Some d \<Rightarrow> Inr (d = (True, MaAVAILABLE, True, MoNORMAL)))"
  by (simp add: influence_iff run_refines)

section \<open>Deployment and build order\<close>

lemma blocked_none:
  assumes "unique_key mo_id reg" "m \<in> set reg" "proven_module m"
  shows "canProduceActiveInfluence (mo_id m) reg = Inr True"
proof -
  have "module_get (mo_id m) reg = Some m" using assms by (simp add: module_get_def row_of_eq)
  with assms(3) show ?thesis by (simp add: canProduceActiveInfluence_def module_require_def proven_module_def)
qed

text \<open>No proven module is ever blocked, so the third reason of the evaluation is never given.\<close>

lemma deployment_never_blocks:
  assumes "unique_key mo_id reg"
  shows "de_blocked (evaluateProductionDeployment reg) = [] \<and>
    de_reason (evaluateProductionDeployment reg) \<noteq> ''DEPLOYABLE_BUT_SOME_PROVEN_BLOCKED''"
proof -
  have "filter (\<lambda>m. canProduceActiveInfluence (mo_id m) reg \<noteq> Inr True) (filter proven_module reg) = []"
    using blocked_none [OF assms] by (auto simp: filter_empty_conv)
  then show ?thesis by (simp add: evaluateProductionDeployment_def Let_def)
qed

definition group_index :: "dependency_group \<Rightarrow> int" where
  "group_index g = index_of g DEPENDENCY_GROUP_ORDER"

lemma check_build_sorted:
  "sorted (map group_index passed) \<Longrightarrow> fst (check_build passed gs) \<longleftrightarrow> sorted (map group_index (passed @ gs))"
proof (induction gs arbitrary: passed)
  case (Cons g gs)
  show ?case
  proof (cases "find (\<lambda>p. index_of p DEPENDENCY_GROUP_ORDER > index_of g DEPENDENCY_GROUP_ORDER) passed")
    case None
    then have "\<forall>p\<in>set passed. group_index p \<le> group_index g"
      by (auto simp: find_None_iff group_index_def not_less)
    then have "sorted (map group_index (passed @ [g]))" using Cons.prems by (simp add: sorted_append)
    from Cons.IH [OF this] None show ?thesis by simp
  next
    case (Some p)
    then have "p \<in> set passed" "group_index g < group_index p"
      using find_Some_in [OF Some] by (auto simp: group_index_def)
    then have "\<not> sorted (map group_index (passed @ g # gs))"
      by (simp add: sorted_append) (meson linorder_not_le)
    with Some show ?thesis by simp
  qed
qed simp

lemma prerequisites_earlier: "p \<in> set (getTestPrerequisites g) \<Longrightarrow> group_index p < group_index g"
  by (cases g) (auto simp: getTestPrerequisites_def group_index_def DEPENDENCY_GROUP_ORDER_def)

lemma prerequisites_closed:
  "p \<in> set (getTestPrerequisites g) \<Longrightarrow> set (getTestPrerequisites p) \<subseteq> set (getTestPrerequisites g)"
  by (cases g) (auto simp: getTestPrerequisites_def)

text \<open>\<open>validateBuildOrder\<close> accepts exactly the lists of groups that are sorted by DEPENDENCY_GROUP_ORDER, and
  in an accepted list no test prerequisite of a group stands after it.\<close>
theorem build_order_is_sorted:
  "(fst (validateBuildOrder gs) = sorted (map group_index gs)) \<and>
   (fst (validateBuildOrder (as @ g # bs)) \<longrightarrow> set bs \<inter> set (getTestPrerequisites g) = {})"
proof
  have v: "fst (validateBuildOrder gs) = sorted (map group_index gs)" for gs
    using check_build_sorted [of "[]" gs] by (simp add: validateBuildOrder_def)
  then show "fst (validateBuildOrder gs) = sorted (map group_index gs)" .
  show "fst (validateBuildOrder (as @ g # bs)) \<longrightarrow> set bs \<inter> set (getTestPrerequisites g) = {}"
    unfolding v using prerequisites_earlier [of _ g] by (fastforce simp: sorted_append)
qed

theorem build_order_is_sorted_witness:
  "set [G2, G4] \<inter> set (getTestPrerequisites G1) = {}"
proof -
  have "fst (validateBuildOrder ([G0] @ G1 # [G2, G4]))" by code_simp
  with build_order_is_sorted [of "[]" "[G0]" G1 "[G2, G4]"] show ?thesis by blast
qed

end
