(* ===== verification/Recovery_Audit.thy ===== *)
theory Recovery_Audit
  imports Sql_Table Js_Date "HOL-Library.Multiset"
begin

text \<open>
  The hash chain of the backup audit log, \<open>appendBackupAudit\<close> and \<open>verifyBackupAuditChain\<close> of
  packages/workflow-runtime/src/recovery-continuity.ts.

  Every caller passes an object literal as the payload, so a payload is the list of its members
  and only the last line of \<open>normalizePayload\<close> is reached. The column \<open>payload_json\<close> is \<open>jsonb\<close>:
  \<open>jb\<close> is the object the column gives back for the object that was written (PostgreSQL
  documents that the order of the members is not kept). \<open>sha\<close> is the hexadecimal SHA-256 digest.
  The \<open>while\<close> loop of the verification follows links from one record to the next; it is run with
  one unit of fuel more than there are records, and \<open>None\<close> says that it has not returned by then.
  \<open>SELECT\<close> without \<open>ORDER BY\<close> gives the rows in an order of the database's choice, which is the
  order of the list.
\<close>

section \<open>The log\<close>

type_synonym audit_payload = "(string \<times> json) list"

record audit_row =
  au_id :: string
  au_action :: string
  au_actor :: string
  au_payload :: audit_payload
  au_prev :: "string option"
  au_hash :: string
  au_at :: int

definition audit_actions :: "string list" where
  "audit_actions =
     [''RETENTION_CREATED'', ''RETENTION_UPDATED'', ''BACKUP_CREATED'', ''BACKUP_DELETED'',
      ''LEGAL_HOLD_CREATED'', ''LEGAL_HOLD_RELEASED'', ''RESTORE_REQUESTED'', ''RESTORE_GRANTED'',
      ''RESTORE_DENIED'', ''DRILL_STARTED'', ''DRILL_COMPLETED'', ''DEGRADED_ENTERED'',
      ''DEGRADED_EXITED'', ''RECONCILIATION_COMPLETED'']"

text \<open>The errors of the database driver, here and in the other tables of the recovery component.\<close>

definition duplicate_key :: error where
  "duplicate_key = DatabaseError ''duplicate key value violates unique constraint''"

definition missing_parent :: error where
  "missing_parent = DatabaseError ''insert violates foreign key constraint''"

definition check_failed :: error where
  "check_failed = DatabaseError ''new row violates check constraint''"

definition bad_timestamp :: error where
  "bad_timestamp = DatabaseError ''invalid input syntax for type timestamp''"

text \<open>\<open>toIso\<close> on a text and on an instant read from a \<open>timestamptz\<close> column, and \<open>toMs\<close>.\<close>

definition toIso :: "string \<Rightarrow> string" where
  "toIso v = (case dateParse v of None \<Rightarrow> v | Some t \<Rightarrow> iso_text t)"

definition normalizePayload :: "audit_payload \<Rightarrow> string" where
  "normalizePayload p = stringify (JObj p)"

definition audit_text :: "string option \<Rightarrow> string \<Rightarrow> string \<Rightarrow> string \<Rightarrow> string \<Rightarrow> string \<Rightarrow> string" where
  "audit_text prev action actor payloadStr recordedAtIso rid =
     (case prev of None \<Rightarrow> '''' | Some h \<Rightarrow> h) @ '':'' @ action @ '':'' @ actor @ '':'' @ payloadStr @
     '':'' @ recordedAtIso @ '':'' @ rid"

section \<open>appendBackupAudit\<close>

text \<open>\<open>SELECT record_hash ... WHERE record_hash NOT IN (SELECT previous_hash ...) LIMIT 1\<close>.\<close>

definition audit_head :: "audit_row list \<Rightarrow> string option" where
  "audit_head t = map_option au_hash (find (\<lambda>r. Some (au_hash r) \<notin> au_prev ` set t) t)"

record audit_receipt =
  rcp_id :: string
  rcp_hash :: string
  rcp_prev :: "string option"

text \<open>The part of the function after its first \<open>await\<close>.\<close>

definition audit_insert ::
  "(string \<Rightarrow> string) \<Rightarrow> (audit_payload \<Rightarrow> audit_payload) \<Rightarrow> string \<Rightarrow> string \<Rightarrow> audit_payload \<Rightarrow> string \<Rightarrow> string \<Rightarrow>
   string option \<Rightarrow> audit_row list \<Rightarrow> audit_receipt result \<times> audit_row list" where
  "audit_insert sha jb action actor payload now rid previousHash t =
     (let recordHash =
        sha (audit_text previousHash action actor (normalizePayload payload) (toIso now) rid) in
      case dateParse (toIso now) of
        None \<Rightarrow> (Inl bad_timestamp, t)
      | Some recordedAt \<Rightarrow>
          if action \<notin> set audit_actions \<or> length recordHash \<noteq> 64 then (Inl check_failed, t)
          else if has_key au_id rid t then (Inl duplicate_key, t)
          else (Inr \<lparr>rcp_id = rid, rcp_hash = recordHash, rcp_prev = previousHash\<rparr>,
                t @ [\<lparr>au_id = rid, au_action = action, au_actor = actor, au_payload = jb payload,
                      au_prev = previousHash, au_hash = recordHash, au_at = recordedAt\<rparr>]))"

definition appendBackupAudit ::
  "(string \<Rightarrow> string) \<Rightarrow> (audit_payload \<Rightarrow> audit_payload) \<Rightarrow> string \<Rightarrow> string \<Rightarrow> audit_payload \<Rightarrow> string \<Rightarrow> string \<Rightarrow>
   audit_row list \<Rightarrow> audit_receipt result \<times> audit_row list" where
  "appendBackupAudit sha jb action actor payload now rid t =
     audit_insert sha jb action actor payload now rid (audit_head t) t"

section \<open>verifyBackupAuditChain\<close>

record chain_verdict =
  cv_valid :: bool
  cv_gap :: "nat option"
  cv_expected :: "string option"
  cv_actual :: "string option"

definition chain_valid :: chain_verdict where
  "chain_valid = \<lparr>cv_valid = True, cv_gap = None, cv_expected = None, cv_actual = None\<rparr>"

definition chain_gap :: "nat \<Rightarrow> string \<Rightarrow> string \<Rightarrow> chain_verdict" where
  "chain_gap k expected actual =
     \<lparr>cv_valid = False, cv_gap = Some k, cv_expected = Some expected, cv_actual = Some actual\<rparr>"

text \<open>The map \<open>byPrev\<close>, and \<open>None\<close> where the loop that fills it finds a key twice.\<close>

fun by_prev :: "audit_row list \<Rightarrow> (string option \<times> audit_row) list \<Rightarrow> (string option \<times> audit_row) list option" where
  "by_prev [] m = Some m"
| "by_prev (r # rs) m =
     (if map_of m (au_prev r) \<noteq> None then None else by_prev rs (m @ [(au_prev r, r)]))"

definition null_text :: "string option \<Rightarrow> string" where
  "null_text v = (case v of None \<Rightarrow> ''null'' | Some s \<Rightarrow> s)"

definition expected_hash :: "(string \<Rightarrow> string) \<Rightarrow> string option \<Rightarrow> audit_row \<Rightarrow> string" where
  "expected_hash sha prev r =
     sha (audit_text prev (au_action r) (au_actor r) (normalizePayload (au_payload r))
            (iso_text (au_at r)) (au_id r))"

text \<open>The \<open>while\<close> loop: an early return is \<open>Inl\<close>, the number of records visited is \<open>Inr\<close>.\<close>

fun audit_walk ::
  "(string \<Rightarrow> string) \<Rightarrow> nat \<Rightarrow> (string option \<times> audit_row) list \<Rightarrow> audit_row option \<Rightarrow>
   string option \<Rightarrow> nat \<Rightarrow> (chain_verdict + nat) option" where
  "audit_walk sha fuel m None prev visited = Some (Inr visited)"
| "audit_walk sha 0 m (Some r) prev visited = None"
| "audit_walk sha (Suc fuel) m (Some r) prev visited =
     (if expected_hash sha prev r \<noteq> au_hash r
      then Some (Inl (chain_gap visited (expected_hash sha prev r) (au_hash r)))
      else if au_prev r \<noteq> prev
      then Some (Inl (chain_gap visited (null_text prev) (null_text (au_prev r))))
      else audit_walk sha fuel m (map_of m (Some (au_hash r))) (Some (au_hash r)) (visited + 1))"

definition verifyBackupAuditChain :: "(string \<Rightarrow> string) \<Rightarrow> audit_row list \<Rightarrow> chain_verdict option" where
  "verifyBackupAuditChain sha rows =
     (if rows = [] then Some chain_valid
      else case by_prev rows [] of
        None \<Rightarrow> Some (chain_gap 0 ''unique_previous_hash'' ''fork_detected'')
      | Some m \<Rightarrow>
          (case map_of m None of
             None \<Rightarrow> Some (chain_gap 0 ''root_with_null_previous_hash'' ''missing_root'')
           | Some root \<Rightarrow>
               (case audit_walk sha (Suc (length rows)) m (Some root) None 0 of
                  None \<Rightarrow> None
                | Some (Inl v) \<Rightarrow> Some v
                | Some (Inr visitedCount) \<Rightarrow>
                    if visitedCount \<noteq> length rows
                    then Some (chain_gap visitedCount (show_nat (length rows) @ ''_continuous_records'')
                                (show_nat visitedCount @ ''_visited''))
                    else Some chain_valid)))"

section \<open>The reference: a linked list of records\<close>

definition row_hash :: "(string \<Rightarrow> string) \<Rightarrow> audit_row \<Rightarrow> string" where
  "row_hash sha r = expected_hash sha (au_prev r) r"

primrec linked :: "(string \<Rightarrow> string) \<Rightarrow> string option \<Rightarrow> audit_row list \<Rightarrow> bool" where
  "linked sha prev [] \<longleftrightarrow> True"
| "linked sha prev (r # c) \<longleftrightarrow>
     au_prev r = prev \<and> au_hash r = row_hash sha r \<and> linked sha (Some (au_hash r)) c"

text \<open>No two records of the log have the same digest.\<close>

definition collision_free :: "(string \<Rightarrow> string) \<Rightarrow> audit_row list \<Rightarrow> bool" where
  "collision_free sha t = inj_on (row_hash sha) (set t)"

definition last_hash :: "string option \<Rightarrow> audit_row list \<Rightarrow> string option" where
  "last_hash prev c = (if c = [] then prev else Some (au_hash (last c)))"

lemma last_hash_simps [simp]:
  "last_hash prev [] = prev" "last_hash prev (r # c) = last_hash (Some (au_hash r)) c"
  "last_hash prev (c @ [r]) = Some (au_hash r)"
  by (simp_all add: last_hash_def)

lemma linked_append: "linked sha prev (c @ d) \<longleftrightarrow> linked sha prev c \<and> linked sha (last_hash prev c) d"
  by (induction c arbitrary: prev) auto

lemma linked_hash: "linked sha prev c \<Longrightarrow> r \<in> set c \<Longrightarrow> au_hash r = row_hash sha r"
  by (induction c arbitrary: prev) auto

lemma linked_prev: "linked sha prev c \<Longrightarrow> r \<in> set c \<Longrightarrow> au_prev r = prev \<or> (\<exists>r'\<in>set c. au_prev r = Some (au_hash r'))"
  by (induction c arbitrary: prev) auto

text \<open>A linked list of records that starts without a predecessor repeats no record: two equal
  records have the same predecessor, and so on back to the first.\<close>

lemma linked_distinct:
  assumes "linked sha None c" "inj_on (row_hash sha) (set c)"
  shows "distinct c"
  using assms
proof (induction c rule: rev_induct)
  case Nil
  then show ?case by simp
next
  case (snoc r c)
  from snoc.prems have l: "linked sha None c" and r: "au_prev r = last_hash None c"
    and i: "inj_on (row_hash sha) (set c)"
    by (auto simp: linked_append inj_on_insert)
  have d: "distinct c" by (rule snoc.IH [OF l i])
  have "r \<notin> set c"
  proof
    assume "r \<in> set c"
    then obtain a b where c: "c = a @ r # b" by (auto dest: split_list)
    with l have p: "au_prev r = last_hash None a" by (simp add: linked_append)
    from c r have "au_prev r = Some (au_hash (last c))" by (simp add: last_hash_def)
    with p have a: "a \<noteq> []" "au_hash (last a) = au_hash (last c)" by (auto simp: last_hash_def split: if_splits)
    with c have "last a \<in> set c" "last c \<in> set c" by auto
    with a(2) i linked_hash [OF l] have "last a = last c" by (metis inj_onD)
    moreover have "last c = last (r # b)" using c by simp
    ultimately have "last a \<in> set a \<inter> set (r # b)" using a(1) by (metis IntI last_in_set list.distinct(1))
    with d c show False by auto
  qed
  with d show ?case by simp
qed

lemma linked_hashes_distinct:
  assumes "linked sha None c" "inj_on (row_hash sha) (set c)"
  shows "distinct (map au_hash c)"
proof -
  have "inj_on au_hash (set c)"
    using assms linked_hash [OF assms(1)] by (auto simp: inj_on_def)
  with linked_distinct [OF assms] show ?thesis by (simp add: distinct_map)
qed

lemma linked_prevs:
  "linked sha prev c \<Longrightarrow> map au_prev c = take (length c) (prev # map (Some \<circ> au_hash) c)"
  by (induction c arbitrary: prev) auto

lemma linked_prevs_distinct:
  assumes "linked sha None c" "inj_on (row_hash sha) (set c)"
  shows "distinct (map au_prev c)"
proof -
  have "distinct (map (Some \<circ> au_hash) c)"
    using linked_hashes_distinct [OF assms] by (simp add: distinct_map inj_on_def)
  then have "distinct (None # map (Some \<circ> au_hash) c)" by auto
  then show ?thesis unfolding linked_prevs [OF assms(1)] by (rule distinct_take)
qed

lemma linked_snoc_prevs:
  "linked sha prev (c @ [r]) \<Longrightarrow> map au_prev (c @ [r]) = prev # map (Some \<circ> au_hash) c"
  using linked_prevs [of sha prev "c @ [r]"] by simp

lemma linked_last:
  assumes "linked sha None c" "inj_on (row_hash sha) (set c)" "c \<noteq> []"
  shows "last_hash None c \<notin> au_prev ` set c"
proof -
  obtain d r where c: "c = d @ [r]" using assms(3) by (cases c rule: rev_cases) auto
  have "au_hash r \<notin> set (map au_hash d)" using linked_hashes_distinct [OF assms(1,2)] c by simp
  then have "Some (au_hash r) \<notin> set (None # map (Some \<circ> au_hash) d)" by auto
  then have "Some (au_hash r) \<notin> set (map au_prev c)"
    using linked_snoc_prevs [of sha None d r] assms(1) unfolding c by presburger
  then show ?thesis by (simp add: c)
qed

section \<open>The verification against the reference\<close>

lemma by_prev_eq:
  "by_prev rs m = (if distinct (map au_prev rs) \<and> (\<forall>r\<in>set rs. map_of m (au_prev r) = None)
     then Some (m @ map (\<lambda>r. (au_prev r, r)) rs) else None)"
proof (induction rs m rule: by_prev.induct)
  case (1 m)
  then show ?case by simp
next
  case (2 r rs m)
  have "map_of (m @ [(au_prev r, r)]) p = None \<longleftrightarrow> map_of m p = None \<and> p \<noteq> au_prev r" for p
    by (auto simp: map_add_def split: option.splits)
  moreover have "au_prev r \<in> au_prev ` set rs \<longleftrightarrow> (\<exists>q\<in>set rs. au_prev q = au_prev r)"
    by (metis image_iff)
  ultimately show ?case using 2 by auto
qed

definition prev_map :: "audit_row list \<Rightarrow> (string option \<times> audit_row) list" where
  "prev_map t = map (\<lambda>r. (au_prev r, r)) t"

lemma by_prev_start: "by_prev t [] = (if distinct (map au_prev t) then Some (prev_map t) else None)"
  by (simp add: by_prev_eq prev_map_def)

lemma prev_map_Some: "map_of (prev_map t) p = Some r \<Longrightarrow> r \<in> set t \<and> au_prev r = p"
  by (auto simp: prev_map_def dest!: map_of_SomeD)

lemma prev_map_eq: "distinct (map au_prev t) \<Longrightarrow> r \<in> set t \<Longrightarrow> map_of (prev_map t) (au_prev r) = Some r"
  by (simp add: prev_map_def comp_def)

lemma prev_map_None: "map_of (prev_map t) p = None \<longleftrightarrow> p \<notin> au_prev ` set t"
  by (simp add: prev_map_def map_of_eq_None_iff image_comp comp_def)

text \<open>The loop follows a linked list inside the log; where it runs out of fuel, the list is as
  long as the fuel, and where it stops, no record continues the list.\<close>

definition walk_end ::
  "(string \<Rightarrow> string) \<Rightarrow> audit_row list \<Rightarrow> nat \<Rightarrow> string option \<Rightarrow> nat \<Rightarrow> (chain_verdict + nat) option \<Rightarrow> bool" where
  "walk_end sha t fuel prev k w \<longleftrightarrow>
     (\<exists>c. linked sha prev c \<and> set c \<subseteq> set t \<and>
        (case w of None \<Rightarrow> length c = fuel
         | Some (Inl v) \<Rightarrow> \<not> cv_valid v
         | Some (Inr n) \<Rightarrow> n = k + length c \<and> map_of (prev_map t) (last_hash prev c) = None))"

lemma walk_end_Nil: "\<not> cv_valid v \<Longrightarrow> walk_end sha t fuel prev k (Some (Inl v))"
  by (auto simp: walk_end_def intro: exI [of _ "[]"])

lemma walk_end_Cons:
  assumes "r \<in> set t" "au_prev r = prev" "au_hash r = row_hash sha r"
    and "walk_end sha t fuel (Some (au_hash r)) (k + 1) w"
  shows "walk_end sha t (Suc fuel) prev k w"
proof -
  obtain c where c: "linked sha (Some (au_hash r)) c" "set c \<subseteq> set t"
    "case w of None \<Rightarrow> length c = fuel | Some (Inl v) \<Rightarrow> \<not> cv_valid v
     | Some (Inr n) \<Rightarrow> n = k + 1 + length c \<and> map_of (prev_map t) (last_hash (Some (au_hash r)) c) = None"
    using assms(4) unfolding walk_end_def by blast
  with assms show ?thesis
    unfolding walk_end_def
    by (intro exI [of _ "r # c"]) (auto split: option.splits sum.splits)
qed

lemma chain_gap_invalid [simp]: "\<not> cv_valid (chain_gap k e a)"
  by (simp add: chain_gap_def)

lemma audit_walk_end:
  "walk_end sha t fuel prev k (audit_walk sha fuel (prev_map t) (map_of (prev_map t) prev) prev k)"
proof (induction fuel arbitrary: prev k)
  case 0
  show ?case
    by (cases "map_of (prev_map t) prev") (auto simp: walk_end_def intro: exI [of _ "[]"])
next
  case (Suc fuel)
  show ?case
  proof (cases "map_of (prev_map t) prev")
    case None
    then show ?thesis by (auto simp: walk_end_def intro: exI [of _ "[]"])
  next
    case (Some r)
    then have r: "r \<in> set t" "au_prev r = prev" by (auto dest: prev_map_Some)
    show ?thesis
    proof (cases "expected_hash sha prev r = au_hash r")
      case True
      with r have "au_hash r = row_hash sha r" by (simp add: row_hash_def)
      from walk_end_Cons [OF r this Suc.IH] Some True r show ?thesis by simp
    next
      case False
      with Some show ?thesis by (simp add: walk_end_Nil)
    qed
  qed
qed

lemma linked_in_log:
  assumes "linked sha None c" "set c \<subseteq> set t" "collision_free sha t"
  shows "distinct c" "length c \<le> length t"
proof -
  have "inj_on (row_hash sha) (set c)"
    using assms(2,3) by (auto simp: collision_free_def intro: inj_on_subset)
  with assms(1) show d: "distinct c" by (rule linked_distinct)
  have "card (set c) \<le> card (set t)" using assms(2) by (simp add: card_mono)
  with d card_length [of t] show "length c \<le> length t" by (simp add: distinct_card)
qed

lemma linked_all:
  assumes "linked sha None c" "set c \<subseteq> set t" "collision_free sha t" "length c = length t"
  shows "mset c = mset t"
proof -
  note c = linked_in_log [OF assms(1-3)]
  have "card (set c) = length t" using c(1) assms(4) by (simp add: distinct_card)
  moreover have "card (set c) \<le> card (set t)" using assms(2) by (simp add: card_mono)
  ultimately have t: "card (set t) = length t" using card_length [of t] by linarith
  then have "distinct t" by (rule card_distinct)
  moreover have "set c = set t"
    using t \<open>card (set c) = length t\<close> assms(2) by (simp add: card_subset_eq)
  ultimately show ?thesis using c(1) by (simp add: set_eq_iff_mset_eq_distinct)
qed

text \<open>Along a linked list that the map gives back record by record, the loop arrives at its end.\<close>

lemma audit_walk_linked:
  assumes "linked sha prev c" "\<forall>r\<in>set c. map_of m (au_prev r) = Some r"
    and "map_of m (last_hash prev c) = None" "length c < fuel"
  shows "audit_walk sha fuel m (map_of m prev) prev k = Some (Inr (k + length c))"
  using assms
proof (induction c arbitrary: prev k fuel)
  case Nil
  then show ?case by simp
next
  case (Cons r c)
  obtain f where f: "fuel = Suc f" using Cons.prems(4) by (cases fuel) auto
  have r: "au_prev r = prev" "au_hash r = row_hash sha r" "map_of m prev = Some r"
    using Cons.prems by auto
  then have "expected_hash sha prev r = au_hash r" by (simp add: row_hash_def)
  moreover have "audit_walk sha f m (map_of m (Some (au_hash r))) (Some (au_hash r)) (k + 1)
      = Some (Inr (k + 1 + length c))"
    using Cons.prems f by (intro Cons.IH) auto
  ultimately show ?case using r f by simp
qed

lemma inj_collision_free: "collision_free sha t \<Longrightarrow> mset c = mset t \<Longrightarrow> inj_on (row_hash sha) (set c)"
  by (metis collision_free_def mset_eq_setD)

lemma verify_linked:
  assumes "linked sha None c" "mset c = mset t" "collision_free sha t"
  shows "verifyBackupAuditChain sha t = Some chain_valid"
proof (cases "t = []")
  case True
  then show ?thesis by (simp add: verifyBackupAuditChain_def)
next
  case False
  have i: "inj_on (row_hash sha) (set c)" using assms(3,2) by (rule inj_collision_free)
  have st: "set c = set t" and len: "length c = length t"
    using assms(2) by (metis mset_eq_setD, metis mset_eq_length)
  have d: "distinct (map au_prev t)"
    using linked_prevs_distinct [OF assms(1) i] assms(2) by (metis mset_eq_imp_distinct_iff mset_map)
  have "c \<noteq> []" using False len by auto
  then have root: "map_of (prev_map t) None = Some (hd c)"
    using assms(1) st prev_map_eq [OF d, of "hd c"] by (cases c) auto
  have "last_hash None c \<notin> au_prev ` set c" using assms(1) i \<open>c \<noteq> []\<close> by (rule linked_last)
  with st have e: "map_of (prev_map t) (last_hash None c) = None" by (simp add: prev_map_None)
  have "audit_walk sha (Suc (length t)) (prev_map t) (map_of (prev_map t) None) None 0
      = Some (Inr (0 + length c))"
    using assms(1) e st len prev_map_eq [OF d] by (intro audit_walk_linked) auto
  with False d root len show ?thesis
    by (simp add: verifyBackupAuditChain_def by_prev_start)
qed

lemma verify_total: "collision_free sha t \<Longrightarrow> verifyBackupAuditChain sha t \<noteq> None"
proof
  assume cf: "collision_free sha t" and n: "verifyBackupAuditChain sha t = None"
  then obtain root where "map_of (prev_map t) None = Some root"
    "audit_walk sha (Suc (length t)) (prev_map t) (Some root) None 0 = None"
    by (auto simp: verifyBackupAuditChain_def by_prev_start split: if_splits option.splits sum.splits)
  then have "walk_end sha t (Suc (length t)) None 0 None" using audit_walk_end by metis
  then obtain c where "linked sha None c" "set c \<subseteq> set t" "length c = Suc (length t)"
    by (auto simp: walk_end_def)
  with linked_in_log(2) [OF this(1,2) cf] show False by simp
qed

lemma verify_valid_linked:
  assumes "verifyBackupAuditChain sha t = Some v" "cv_valid v" "collision_free sha t"
  shows "\<exists>c. mset c = mset t \<and> linked sha None c"
proof (cases "t = []")
  case True
  then show ?thesis by auto
next
  case False
  with assms(1,2) obtain root where m: "map_of (prev_map t) None = Some root"
    "audit_walk sha (Suc (length t)) (prev_map t) (Some root) None 0 = Some (Inr (length t)) \<or>
     audit_walk sha (Suc (length t)) (prev_map t) (Some root) None 0 = Some (Inl v)"
    by (auto simp: verifyBackupAuditChain_def by_prev_start split: if_splits option.splits sum.splits)
  note w = audit_walk_end [of sha t "Suc (length t)" None 0, unfolded m(1)]
  from m(2) w assms(2) have "walk_end sha t (Suc (length t)) None 0 (Some (Inr (length t)))"
    by (auto simp: walk_end_def)
  then obtain c where "linked sha None c" "set c \<subseteq> set t" "length t = length c"
    by (auto simp: walk_end_def)
  with linked_all [OF this(1,2) assms(3)] show ?thesis by auto
qed

text \<open>The log is one chain: the reference predicate of the properties.\<close>

definition one_chain :: "(string \<Rightarrow> string) \<Rightarrow> audit_row list \<Rightarrow> bool" where
  "one_chain sha t \<longleftrightarrow> (\<exists>c. mset c = mset t \<and> linked sha None c)"

lemma verify_iff_chain:
  assumes "collision_free sha t"
  shows "verifyBackupAuditChain sha t = Some chain_valid \<longleftrightarrow> one_chain sha t"
  using verify_linked [of sha _ t] verify_valid_linked [of sha t chain_valid] assms
  by (auto simp: one_chain_def chain_valid_def)

section \<open>Appending to a chain\<close>

lemma one_chain_Nil [simp]: "one_chain sha []"
  by (simp add: one_chain_def)

lemma collision_free_append: "collision_free sha (t @ u) \<Longrightarrow> collision_free sha t"
  by (auto simp: collision_free_def intro: inj_on_subset)

lemma audit_head_chain:
  assumes "linked sha None c" "mset c = mset t" "collision_free sha t"
  shows "audit_head t = last_hash None c"
proof (cases c rule: rev_cases)
  case Nil
  with assms(2) show ?thesis by (simp add: audit_head_def)
next
  case (snoc d r)
  have i: "inj_on (row_hash sha) (set c)" using assms(3,2) by (rule inj_collision_free)
  have st: "set t = set c" using assms(2) by (metis mset_eq_setD)
  let ?P = "\<lambda>q. Some (au_hash q) \<notin> au_prev ` set t"
  have "set (map au_prev c) = set (None # map (Some \<circ> au_hash) d)"
    using linked_snoc_prevs [of sha None d r] assms(1) snoc by metis
  then have prevs: "au_prev ` set t = insert None (Some ` au_hash ` set d)"
    unfolding st by (simp add: image_comp)
  then have others: "\<not> ?P q" if "q \<in> set d" for q using that by simp
  have "?P r" using linked_last [OF assms(1) i] snoc st by (simp add: last_hash_def)
  moreover have "r \<in> set t" using st snoc by simp
  ultimately obtain q where q: "find ?P t = Some q" by (metis find_None_iff not_None_eq)
  then have "q \<in> set t" "?P q" by (auto dest: find_Some_in)
  with others st snoc have "q = r" by auto
  with q snoc show ?thesis by (simp add: audit_head_def)
qed

definition verbatim :: "(audit_payload \<Rightarrow> audit_payload) \<Rightarrow> audit_payload \<Rightarrow> bool" where
  "verbatim jb p \<longleftrightarrow> normalizePayload (jb p) = normalizePayload p"

lemma iso_of_toIso: "dateParse (toIso now) = Some t \<Longrightarrow> iso_text t = toIso now"
  using dateParse_iso_text dateParse_range
  by (fastforce simp: toIso_def split: option.splits)

lemma audit_insert_Inr:
  assumes "audit_insert sha jb action actor p now rid prev t = (Inr a, t')"
  obtains r where "t' = t @ [r]" "au_id r = rid" "au_action r = action" "au_actor r = actor"
    "au_payload r = jb p" "au_prev r = prev" "au_hash r = rcp_hash a" "rcp_prev a = prev"
    "rcp_hash a = sha (audit_text prev action actor (normalizePayload p) (toIso now) rid)"
    "iso_text (au_at r) = toIso now" "\<not> has_key au_id rid t" "rcp_id a = rid"
  using assms
  by (auto simp: audit_insert_def Let_def dest: iso_of_toIso split: option.splits if_splits)

lemma audit_insert_ok:
  assumes "dateParse now = Some ms" "action \<in> set audit_actions" "\<not> has_key au_id rid t"
    and "length (sha (audit_text prev action actor (normalizePayload p) (iso_text ms) rid)) = 64"
  shows "audit_insert sha jb action actor p now rid prev t =
    (let h = sha (audit_text prev action actor (normalizePayload p) (iso_text ms) rid) in
     (Inr \<lparr>rcp_id = rid, rcp_hash = h, rcp_prev = prev\<rparr>,
      t @ [\<lparr>au_id = rid, au_action = action, au_actor = actor, au_payload = jb p, au_prev = prev,
        au_hash = h, au_at = ms\<rparr>]))"
proof -
  have "toIso now = iso_text ms" "dateParse (iso_text ms) = Some ms"
    using assms(1) by (simp_all add: toIso_def dateParse_iso_text dateParse_range)
  with assms show ?thesis by (simp add: audit_insert_def Let_def)
qed

lemma audit_insert_Inl: "audit_insert sha jb action actor p now rid prev t = (Inl e, t') \<Longrightarrow> t' = t"
  by (auto simp: audit_insert_def Let_def split: option.splits if_splits)

lemma audit_insert_chain:
  assumes "audit_insert sha jb action actor p now rid (audit_head t) t = (Inr a, t')"
    and "one_chain sha t" "collision_free sha t'" "verbatim jb p"
  shows "one_chain sha t'"
proof -
  obtain r where r: "t' = t @ [r]" "au_id r = rid" "au_action r = action" "au_actor r = actor"
    "au_payload r = jb p" "au_prev r = audit_head t" "au_hash r = rcp_hash a"
    "rcp_hash a = sha (audit_text (audit_head t) action actor (normalizePayload p) (toIso now) rid)"
    "iso_text (au_at r) = toIso now"
    using assms(1) by (rule audit_insert_Inr)
  obtain c where c: "mset c = mset t" "linked sha None c" using assms(2) by (auto simp: one_chain_def)
  have "collision_free sha t" using assms(3) r(1) by (metis collision_free_append)
  then have "audit_head t = last_hash None c" using c by (simp add: audit_head_chain)
  moreover have "au_hash r = row_hash sha r"
    using r assms(4) by (simp add: row_hash_def expected_hash_def verbatim_def)
  ultimately have "linked sha None (c @ [r])" using c r by (simp add: linked_append)
  with c(1) r(1) show ?thesis unfolding one_chain_def by (intro exI [of _ "c @ [r]"]) simp
qed

lemma appendBackupAudit_chain:
  assumes "one_chain sha t" "collision_free sha (snd (appendBackupAudit sha jb action actor p now rid t))"
    and "verbatim jb p"
  shows "one_chain sha (snd (appendBackupAudit sha jb action actor p now rid t))"
proof (cases "appendBackupAudit sha jb action actor p now rid t")
  case (Pair x t')
  with assms show ?thesis
    by (cases x) (auto simp: appendBackupAudit_def dest: audit_insert_Inl intro: audit_insert_chain)
qed

lemma appendBackupAudit_prefix: "\<exists>u. snd (appendBackupAudit sha jb action actor p now rid t) = t @ u"
  by (auto simp: appendBackupAudit_def audit_insert_def Let_def split: option.split)

section \<open>What the verification detects\<close>

lemma chains_with_one_head:
  assumes "linked sha None c" "linked sha None d" "last_hash None c = last_hash None d"
    and "inj_on (row_hash sha) (set c \<union> set d)"
  shows "c = d"
  using assms
proof (induction c arbitrary: d rule: rev_induct)
  case Nil
  then show ?case by (auto simp: last_hash_def split: if_splits)
next
  case (snoc r c)
  then obtain e q where d: "d = e @ [q]"
    by (cases d rule: rev_cases) (auto simp: last_hash_def)
  with snoc.prems have h: "au_hash r = au_hash q" "au_hash r = row_hash sha r" "au_hash q = row_hash sha q"
    by (auto simp: linked_append)
  have "r \<in> set (c @ [r]) \<union> set d" "q \<in> set (c @ [r]) \<union> set d" using d by auto
  with h snoc.prems(4) have r: "r = q" by (metis inj_onD)
  have l: "linked sha None c" "linked sha None e"
    using snoc.prems(1,2) unfolding d by (simp_all add: linked_append)
  have p: "last_hash None c = last_hash None e"
    using snoc.prems(1,2) r unfolding d by (simp add: linked_append)
  have "inj_on (row_hash sha) (set c \<union> set e)"
    using snoc.prems(4) by (rule inj_on_subset) (auto simp: d)
  with snoc.IH [OF l p] r d show ?case by simp
qed

lemma one_chain_head_eq:
  assumes "one_chain sha t" "one_chain sha u" "audit_head t = audit_head u" "collision_free sha (t @ u)"
  shows "mset t = mset u"
proof -
  obtain c d where c: "mset c = mset t" "linked sha None c" and d: "mset d = mset u" "linked sha None d"
    using assms(1,2) by (auto simp: one_chain_def)
  have st: "set c = set t" "set d = set u" using c d by (metis mset_eq_setD)+
  have "collision_free sha t" "collision_free sha u"
    using assms(4) by (auto simp: collision_free_def intro: inj_on_subset)
  with c d assms(3) have "last_hash None c = last_hash None d" by (metis audit_head_chain)
  moreover have "inj_on (row_hash sha) (set c \<union> set d)"
    using assms(4) st by (simp add: collision_free_def)
  ultimately have "c = d" using c d by (intro chains_with_one_head)
  with c d show ?thesis by simp
qed

lemma truncated_chain:
  assumes "one_chain sha t" "collision_free sha t" "t \<noteq> []"
  shows "one_chain sha (filter (\<lambda>r. Some (au_hash r) \<noteq> audit_head t) t)"
    "length (filter (\<lambda>r. Some (au_hash r) \<noteq> audit_head t) t) < length t"
proof -
  obtain c where c: "mset c = mset t" "linked sha None c" using assms(1) by (auto simp: one_chain_def)
  then have "c \<noteq> []" using assms(3) by auto
  then obtain d r where d: "c = d @ [r]" by (cases c rule: rev_cases) auto
  let ?P = "\<lambda>q. Some (au_hash q) \<noteq> audit_head t"
  have h: "audit_head t = Some (au_hash r)" using audit_head_chain [OF c(2,1) assms(2)] d by simp
  have i: "inj_on (row_hash sha) (set c)" using assms(2) c(1) by (rule inj_collision_free)
  have "au_hash r \<notin> au_hash ` set d"
    using linked_hashes_distinct [OF c(2) i] d by simp
  then have "\<forall>q\<in>set d. ?P q" using h by (metis imageI option.inject)
  then have f: "filter ?P c = d" using d h by (simp add: filter_id_conv)
  have m: "mset (filter ?P t) = mset d" using c(1) f by (metis mset_filter)
  moreover have "linked sha None d" using c(2) d by (simp add: linked_append)
  ultimately show "one_chain sha (filter ?P t)" unfolding one_chain_def by (intro exI [of _ d]) simp
  have "length (filter ?P t) = length d" using m by (rule mset_eq_length)
  moreover have "length t = length c" using c(1) by (metis mset_eq_length)
  ultimately show "length (filter ?P t) < length t" using d by simp
qed

lemma not_verbatim_breaks:
  assumes "audit_insert sha jb action actor p now rid prev t = (Inr a, t')"
    and "sha (audit_text prev action actor (normalizePayload (jb p)) (toIso now) rid) \<noteq> rcp_hash a"
  shows "\<not> one_chain sha t'"
proof
  assume "one_chain sha t'"
  then obtain c where c: "mset c = mset t'" "linked sha None c" by (auto simp: one_chain_def)
  obtain r where r: "t' = t @ [r]" "au_id r = rid" "au_action r = action" "au_actor r = actor"
    "au_payload r = jb p" "au_prev r = prev" "au_hash r = rcp_hash a" "iso_text (au_at r) = toIso now"
    using assms(1) by (rule audit_insert_Inr)
  then have "r \<in> set c" using c(1) by (metis in_set_conv_decomp mset_eq_setD)
  then have "au_hash r = row_hash sha r" by (rule linked_hash [OF c(2)])
  with r assms(2) show False by (simp add: row_hash_def expected_hash_def)
qed

text \<open>The order in which PostgreSQL keeps the members of a \<open>jsonb\<close> object: shorter names first.\<close>

fun jsonb_insert :: "string \<times> json \<Rightarrow> audit_payload \<Rightarrow> audit_payload" where
  "jsonb_insert m [] = [m]"
| "jsonb_insert m (n # ns) =
     (if length (fst m) < length (fst n) \<or> length (fst m) = length (fst n) \<and> fst m \<le> fst n
      then m # n # ns else n # jsonb_insert m ns)"

definition jsonb_order :: "audit_payload \<Rightarrow> audit_payload" where
  "jsonb_order p = foldr jsonb_insert p []"

section \<open>A small log for the witnesses\<close>

text \<open>A digest whose first character is the last one of the text, which is that of the id.\<close>

definition demo_sha :: "string \<Rightarrow> string" where
  "demo_sha s = take 64 (rev s @ replicate 64 CHR ''0'')"

definition demo_row :: "string \<Rightarrow> string option \<Rightarrow> audit_row" where
  "demo_row rid prev =
     (let r = \<lparr>au_id = rid, au_action = ''DRILL_STARTED'', au_actor = ''o'',
        au_payload = [(''drillId'', JStr ''d'')], au_prev = prev, au_hash = [], au_at = 0\<rparr>
      in r\<lparr>au_hash := row_hash demo_sha r\<rparr>)"

definition demo_log :: "string list \<Rightarrow> audit_row list" where
  "demo_log ids = fst (foldl (\<lambda>(t, prev) i. (t @ [demo_row i prev], Some (au_hash (demo_row i prev))))
     ([], None) ids)"

lemma length_demo_sha [simp]: "length (demo_sha s) = 64"
  by (simp add: demo_sha_def)

lemma demo_sha_hd: "s \<noteq> [] \<Longrightarrow> hd (demo_sha s) = last s"
  by (simp add: demo_sha_def hd_append hd_rev take_Cons' hd_take)

lemma row_hash_hd: "au_id r \<noteq> [] \<Longrightarrow> hd (row_hash demo_sha r) = last (au_id r)"
  by (simp add: row_hash_def expected_hash_def audit_text_def demo_sha_hd)

lemma demo_row_simps [simp]:
  "au_id (demo_row i p) = i" "au_prev (demo_row i p) = p"
  "au_hash (demo_row i p) = row_hash demo_sha (demo_row i p)"
  by (simp_all add: demo_row_def Let_def row_hash_def expected_hash_def)

lemma demo_collision_free: "(\<And>r. r \<in> set t \<Longrightarrow> au_id r \<noteq> []) \<Longrightarrow>
    inj_on (last \<circ> au_id) (set t) \<Longrightarrow> collision_free demo_sha t"
  unfolding collision_free_def inj_on_def by (metis comp_apply row_hash_hd)

lemma demo_ids_free:
  assumes "map au_id t = [[c], [d]]" "c \<noteq> d"
  shows "collision_free demo_sha t"
proof -
  from assms(1) obtain x y where "t = [x, y]" "au_id x = [c]" "au_id y = [d]" by auto
  with assms(2) show ?thesis by (intro demo_collision_free) (auto simp: inj_on_def)
qed

lemma demo_log_chain: "linked demo_sha None (demo_log [[c], [d]])" "linked demo_sha None (demo_log [[c]])"
  by (simp_all add: demo_log_def)

lemma demo_log_free:
  "c \<noteq> d \<Longrightarrow> collision_free demo_sha (demo_log [[c], [d]])" "collision_free demo_sha (demo_log [[c]])"
  by (rule demo_collision_free; auto simp: demo_log_def inj_on_def)+

lemma demo_log_valid:
  "c \<noteq> d \<Longrightarrow> verifyBackupAuditChain demo_sha (demo_log [[c], [d]]) = Some chain_valid"
  using verify_linked [OF demo_log_chain(1) refl demo_log_free(1)] .

section \<open>Properties\<close>

text \<open>C20. The verification of the audit log always returns, and it answers that the log is valid
  exactly for a log whose records, in whatever order the database returns them, form one chain:
  one record without a predecessor, every other record naming the digest of the one before, and
  every digest that of the record's own members.\<close>

theorem audit_verification_exact:
  assumes "collision_free sha t"
  shows "\<exists>v. verifyBackupAuditChain sha t = Some v \<and> (cv_valid v \<longleftrightarrow> one_chain sha t)"
proof -
  obtain v where v: "verifyBackupAuditChain sha t = Some v" using verify_total [OF assms] by auto
  with verify_valid_linked [OF v _ assms] verify_iff_chain [OF assms] show ?thesis
    by (auto simp: one_chain_def chain_valid_def)
qed

theorem audit_verification_exact_witness:
  "\<exists>v. verifyBackupAuditChain demo_sha (demo_log [''a'', ''b'']) = Some v \<and>
     (cv_valid v \<longleftrightarrow> one_chain demo_sha (demo_log [''a'', ''b'']))"
  by (rule audit_verification_exact) (simp add: demo_log_free)

text \<open>Two logs that both verify and end in the same digest hold the same records: with the last
  digest kept elsewhere, no record can be changed, inserted, dropped or moved unnoticed.\<close>

theorem audit_log_anchored_by_head:
  assumes "verifyBackupAuditChain sha t = Some chain_valid"
    and "verifyBackupAuditChain sha u = Some chain_valid"
    and "audit_head t = audit_head u" "collision_free sha (t @ u)"
  shows "mset t = mset u"
proof -
  have cf: "collision_free sha t" "collision_free sha u"
    using assms(4) by (auto simp: collision_free_def intro: inj_on_subset)
  with assms(1,2) have "one_chain sha t" "one_chain sha u" by (simp_all add: verify_iff_chain)
  then show ?thesis using assms(3,4) by (rule one_chain_head_eq)
qed

theorem audit_log_anchored_by_head_witness:
  "mset (demo_log [''a'', ''b'']) = mset (rev (demo_log [''a'', ''b'']))"
proof (rule audit_log_anchored_by_head [of demo_sha])
  let ?t = "demo_log [''a'', ''b'']"
  have f: "collision_free demo_sha ?t" "collision_free demo_sha (rev ?t)"
    using demo_log_free(1) [of "CHR ''a''" "CHR ''b''"] by (simp_all add: collision_free_def)
  show "verifyBackupAuditChain demo_sha ?t = Some chain_valid"
    "verifyBackupAuditChain demo_sha (rev ?t) = Some chain_valid"
    using verify_linked [OF demo_log_chain(1)] f by simp_all
  show "audit_head ?t = audit_head (rev ?t)"
    using audit_head_chain [OF demo_log_chain(1)] f by simp
  show "collision_free demo_sha (?t @ rev ?t)"
    using f(1) by (simp add: collision_free_def)
qed

text \<open>Without such an anchor the loss of the newest record is not noticed: the rest verifies.\<close>

theorem truncated_audit_log_verifies:
  assumes "verifyBackupAuditChain sha t = Some chain_valid" "collision_free sha t" "t \<noteq> []"
  shows "let u = filter (\<lambda>r. Some (au_hash r) \<noteq> audit_head t) t
    in length u < length t \<and> verifyBackupAuditChain sha u = Some chain_valid"
proof -
  have o: "one_chain sha t" using assms(1,2) by (simp add: verify_iff_chain)
  have "collision_free sha (filter (\<lambda>r. Some (au_hash r) \<noteq> audit_head t) t)"
    using assms(2) by (auto simp: collision_free_def intro: inj_on_subset)
  with truncated_chain [OF o assms(2,3)] show ?thesis by (simp add: verify_iff_chain Let_def)
qed

theorem truncated_audit_log_verifies_witness:
  "let t = demo_log [''a'', ''b'']; u = filter (\<lambda>r. Some (au_hash r) \<noteq> audit_head t) t
   in length u < length t \<and> verifyBackupAuditChain demo_sha u = Some chain_valid"
proof -
  have "demo_log [''a'', ''b''] \<noteq> []" by (simp add: demo_log_def)
  with truncated_audit_log_verifies [of demo_sha "demo_log [''a'', ''b'']"]
  show ?thesis by (simp add: demo_log_valid demo_log_free Let_def)
qed

text \<open>Two callers that both read the head before either inserts leave a log the verification
  reports as forked, whatever they record.\<close>

theorem concurrent_appends_fork:
  assumes "audit_insert sha jb action actor p now rid (audit_head t) t = (Inr a, t1)"
    and "audit_insert sha jb action' actor' p' now' rid' (audit_head t) t1 = (Inr b, t2)"
  shows "verifyBackupAuditChain sha t2 =
    Some (chain_gap 0 ''unique_previous_hash'' ''fork_detected'')"
proof -
  obtain r q where "t1 = t @ [r]" "au_prev r = audit_head t" "t2 = t1 @ [q]" "au_prev q = audit_head t"
    using assms by (elim audit_insert_Inr) auto
  then have "t2 \<noteq> []" "\<not> distinct (map au_prev t2)" by auto
  then show ?thesis by (simp add: verifyBackupAuditChain_def by_prev_start)
qed

theorem concurrent_appends_fork_witness:
  "verifyBackupAuditChain demo_sha
     (snd (audit_insert demo_sha jsonb_order ''DRILL_STARTED'' ''p'' [] ''1970-01-01'' ''b'' None
       (snd (audit_insert demo_sha jsonb_order ''DRILL_STARTED'' ''o'' [] ''1970-01-01'' ''a'' None []))))
   = Some (chain_gap 0 ''unique_previous_hash'' ''fork_detected'')"
proof -
  have d: "dateParse ''1970-01-01'' = Some 0" by (simp add: date_eval)
  let ?f = "\<lambda>actor rid. audit_insert demo_sha jsonb_order ''DRILL_STARTED'' actor [] ''1970-01-01'' rid (audit_head [])"
  have "audit_head [] = None" by (simp add: audit_head_def)
  moreover obtain a t1 where a: "?f ''o'' ''a'' [] = (Inr a, t1)"
    by (simp add: audit_insert_ok [OF d] audit_actions_def Let_def has_key_def)
  moreover from a obtain b t2 where b: "?f ''p'' ''b'' t1 = (Inr b, t2)"
    by (auto simp: audit_insert_ok [OF d] audit_actions_def Let_def has_key_def)
  ultimately show ?thesis using concurrent_appends_fork [OF a b] by simp
qed

text \<open>The payload \<open>requestRestoreAccess\<close> records, and a digest that tells the texts with this
  payload in the two orders apart.\<close>

definition grant_payload :: audit_payload where
  "grant_payload = [(''backupRecordId'', JStr ''b''), (''reason'', JStr ''r'')]"

definition grant_sha :: "string \<Rightarrow> string" where
  "grant_sha s = replicate 64
     (if s = audit_text None ''RESTORE_GRANTED'' ''o'' (normalizePayload grant_payload) (iso_text 0) ''a''
      then CHR ''1'' else CHR ''0'')"

lemma grant_reordered:
  "audit_text None ''RESTORE_GRANTED'' ''o'' (normalizePayload (jsonb_order grant_payload)) i r \<noteq>
   audit_text None ''RESTORE_GRANTED'' ''o'' (normalizePayload grant_payload) i r"
  by (simp add: audit_text_def normalizePayload_def jsonb_order_def grant_payload_def json_quote_def
      json_escape_char_def)

text \<open>C38. A record whose payload the \<open>jsonb\<close> column gives back with its members in another order
  makes the verification of the log fail: the digest was taken over the text that was written.\<close>

theorem reordered_payload_breaks_chain:
  assumes "appendBackupAudit sha jb action actor p now rid t = (Inr a, t')"
    and "sha (audit_text (audit_head t) action actor (normalizePayload (jb p)) (toIso now) rid) \<noteq> rcp_hash a"
    and "collision_free sha t'"
  shows "\<exists>v. verifyBackupAuditChain sha t' = Some v \<and> \<not> cv_valid v"
proof -
  have "\<not> one_chain sha t'"
    using assms(1,2) unfolding appendBackupAudit_def by (rule not_verbatim_breaks)
  moreover obtain v where v: "verifyBackupAuditChain sha t' = Some v"
    using verify_total [OF assms(3)] by auto
  ultimately show ?thesis using verify_valid_linked [OF v _ assms(3)] by (auto simp: one_chain_def)
qed

theorem reordered_payload_breaks_chain_witness:
  "\<exists>v. verifyBackupAuditChain grant_sha
     (snd (appendBackupAudit grant_sha jsonb_order ''RESTORE_GRANTED'' ''o'' grant_payload
        ''1970-01-01'' ''a'' [])) = Some v \<and> \<not> cv_valid v"
proof -
  have d: "dateParse ''1970-01-01'' = Some 0" by (simp add: date_eval)
  let ?f = "appendBackupAudit grant_sha jsonb_order ''RESTORE_GRANTED'' ''o'' grant_payload ''1970-01-01'' ''a'' []"
  have h: "audit_head [] = None" by (simp add: audit_head_def)
  have i: "toIso ''1970-01-01'' = iso_text 0" by (simp add: toIso_def d)
  obtain a t where a: "?f = (Inr a, t)" "rcp_hash a = replicate 64 CHR ''1''" "\<exists>r. t = [r]"
    by (simp add: appendBackupAudit_def h audit_insert_ok [OF d] audit_actions_def Let_def has_key_def
        grant_sha_def)
  have "grant_sha (audit_text (audit_head []) ''RESTORE_GRANTED'' ''o''
      (normalizePayload (jsonb_order grant_payload)) (toIso ''1970-01-01'') ''a'') \<noteq> rcp_hash a"
    using grant_reordered by (simp add: h i a(2) grant_sha_def)
  moreover have "collision_free grant_sha t" using a(3) by (auto simp: collision_free_def)
  ultimately show ?thesis using reordered_payload_breaks_chain [OF a(1)] a(1) by simp
qed

end
