(* ===== verification/Recovery_Continuity.thy ===== *)
theory Recovery_Continuity
  imports Recovery_Audit Workflow_Steps
begin

text \<open>
  Backups, retention, legal holds, restore access and degraded mode of
  packages/workflow-runtime/src/recovery-continuity.ts, over the tables of
  infra/migrations/0005_durable_recovery_continuity.sql.

  Every statement commits on its own, so a function that throws leaves the statements before it
  in place. Identifiers the code draws at random are arguments, \<open>clock\<close> is \<open>Date.now()\<close>; the
  time stamps of a table are instants, and a text that does not denote one is refused by the
  database. The range of the \<open>integer\<close> columns is not modelled.
\<close>

section \<open>Tables\<close>

datatype tier = CRITICAL_CONFIG | CRITICAL_OBSERVATIONS | REPLAYABLE_RAW

datatype role = Owner | Operator | Auditor | Viewer

fun tier_text :: "tier \<Rightarrow> string" where
  "tier_text CRITICAL_CONFIG = ''CRITICAL_CONFIG''"
| "tier_text CRITICAL_OBSERVATIONS = ''CRITICAL_OBSERVATIONS''"
| "tier_text REPLAYABLE_RAW = ''REPLAYABLE_RAW''"

definition to_lower :: "string \<Rightarrow> string" where
  "to_lower s = map (\<lambda>c. if 65 \<le> (of_char c :: nat) \<and> (of_char c :: nat) \<le> 90
     then char_of ((of_char c :: nat) + 32) else c) s"

record encryption_spec =
  en_algorithm :: string
  en_key_id :: string
  en_key_version :: int

record retention_row =
  rp_id :: string
  rp_tier :: tier
  rp_days :: int
  rp_version :: int
  rp_geo :: string
  rp_encryption :: encryption_spec
  rp_rights :: "json list"
  rp_created_at :: int
  rp_created_by :: string
  rp_previous :: "string option"

record backup_row =
  bk_id :: string
  bk_tier :: tier
  bk_created_at :: int
  bk_expires_at :: int
  bk_location :: string
  bk_geo :: string
  bk_encryption :: encryption_spec
  bk_hash :: string
  bk_size :: int
  bk_policy :: string
  bk_version :: int
  bk_rights :: "json list"
  bk_deleted_at :: "int option"

record hold_row =
  lh_id :: string
  lh_backup :: string
  lh_reason :: string
  lh_created_at :: int
  lh_created_by :: string
  lh_released_at :: "int option"
  lh_active :: bool

record degraded_row =
  dg_id :: string
  dg_tier :: tier
  dg_reason :: string
  dg_at :: int
  dg_restored_at :: "int option"
  dg_disabled :: bool
  dg_capabilities :: "(string \<times> string) list"
  dg_active :: bool

record rc_db =
  rc_policies :: "retention_row list"
  rc_backups :: "backup_row list"
  rc_holds :: "hold_row list"
  rc_degraded :: "degraded_row list"
  rc_audit :: "audit_row list"

definition rc_empty :: rc_db where
  "rc_empty = \<lparr>rc_policies = [], rc_backups = [], rc_holds = [], rc_degraded = [], rc_audit = []\<rparr>"

definition geographic_locations :: "string list" where
  "geographic_locations = [''us-east-1'', ''us-west-2'', ''eu-west-1'', ''ap-northeast-1'']"

section \<open>Access table and audit\<close>

definition allowedRoles :: "(string \<times> role list) list" where
  "allowedRoles =
     [(''RETENTION_CREATED'', [Owner, Operator]), (''RETENTION_UPDATED'', [Owner, Operator]),
      (''BACKUP_CREATED'', [Owner, Operator]), (''BACKUP_DELETED'', [Owner]),
      (''LEGAL_HOLD_CREATED'', [Owner, Operator]), (''LEGAL_HOLD_RELEASED'', [Owner]),
      (''RESTORE_REQUESTED'', [Owner, Operator, Auditor]), (''RESTORE_GRANTED'', [Owner]),
      (''RESTORE_DENIED'', [Owner]), (''DRILL_STARTED'', [Owner, Operator]),
      (''DRILL_COMPLETED'', [Owner, Operator])]"

definition may :: "string \<Rightarrow> role \<Rightarrow> bool" where
  "may action who = (case map_of allowedRoles action of None \<Rightarrow> False | Some rs \<Rightarrow> who \<in> set rs)"

text \<open>The digest, the column \<open>payload_json\<close> and the host clock an operation runs with.\<close>

record host =
  ho_sha :: "string \<Rightarrow> string"
  ho_json :: "audit_payload \<Rightarrow> audit_payload"

definition audit ::
  "host \<Rightarrow> string \<Rightarrow> string \<Rightarrow> audit_payload \<Rightarrow> string \<Rightarrow> string \<Rightarrow> rc_db \<Rightarrow> audit_receipt result \<times> rc_db" where
  "audit h action actor p now rid db =
     (case appendBackupAudit (ho_sha h) (ho_json h) action actor p now rid (rc_audit db) of
        (x, t) \<Rightarrow> (x, db\<lparr>rc_audit := t\<rparr>))"

definition max_version :: "int list \<Rightarrow> int option" where
  "max_version vs = (if vs = [] then None else Some (Max (set vs)))"

definition next_version :: "int list \<Rightarrow> int" where
  "next_version vs = (case max_version vs of None \<Rightarrow> 0 | Some v \<Rightarrow> v) + 1"

section \<open>Retention policies\<close>

record retention_input =
  rti_id :: "string option"
  rti_tier :: tier
  rti_days :: int
  rti_geo :: string
  rti_encryption :: encryption_spec
  rti_rights :: "json list"
  rti_actor :: string
  rti_role :: role
  rti_now :: string
  rti_previous :: "string option"

text \<open>\<open>INSERT INTO backup_retention_policies\<close> with the checks, keys and reference of the table.\<close>

definition insert_policy :: "retention_row \<Rightarrow> rc_db \<Rightarrow> unit result \<times> rc_db" where
  "insert_policy r db =
     (if rp_days r \<le> 0 \<or> rp_version r \<le> 0 \<or> rp_geo r \<notin> set geographic_locations
      then (Inl check_failed, db)
      else if has_key rp_id (rp_id r) (rc_policies db) \<or>
              list_ex (\<lambda>q. rp_tier q = rp_tier r \<and> rp_version q = rp_version r) (rc_policies db)
      then (Inl duplicate_key, db)
      else if (case rp_previous r of None \<Rightarrow> False
               | Some p \<Rightarrow> p \<noteq> rp_id r \<and> \<not> has_key rp_id p (rc_policies db))
      then (Inl missing_parent, db)
      else (Inr (), db\<lparr>rc_policies := rc_policies db @ [r]\<rparr>))"

definition createRetentionPolicy ::
  "host \<Rightarrow> string \<Rightarrow> string \<Rightarrow> retention_input \<Rightarrow> rc_db \<Rightarrow> (string \<times> int) result \<times> rc_db" where
  "createRetentionPolicy h uuid auditId i db =
     (if \<not> may ''RETENTION_CREATED'' (rti_role i) then (Inl (Error ''RETENTION_ACCESS_DENIED''), db)
      else if rti_role i = Viewer \<or> rti_role i = Auditor then (Inl (Error ''RETENTION_ACCESS_DENIED''), db)
      else
        (let version = next_version (map rp_version (select (\<lambda>q. rp_tier q = rti_tier i) (rc_policies db)));
             rid = (case rti_id i of Some x \<Rightarrow> x
               | None \<Rightarrow> ''retention-'' @ to_lower (tier_text (rti_tier i)) @ ''-v'' @ show_int version @
                   ''-'' @ take 8 uuid) in
         case dateParse (rti_now i) of
           None \<Rightarrow> (Inl bad_timestamp, db)
         | Some t \<Rightarrow>
             and_then (insert_policy \<lparr>rp_id = rid, rp_tier = rti_tier i, rp_days = rti_days i,
                 rp_version = version, rp_geo = rti_geo i, rp_encryption = rti_encryption i,
                 rp_rights = rti_rights i, rp_created_at = t, rp_created_by = rti_actor i,
                 rp_previous = rti_previous i\<rparr> db) (\<lambda>_ db.
             and_then (audit h ''RETENTION_CREATED'' (rti_actor i)
                 [(''id'', JStr rid), (''tier'', JStr (tier_text (rti_tier i))), (''version'', JNum version)]
                 (rti_now i) auditId db) (\<lambda>_ db. (Inr (rid, version), db)))))"

text \<open>\<open>ORDER BY version DESC LIMIT 1\<close>.\<close>

definition getCurrentRetentionPolicy :: "tier \<Rightarrow> rc_db \<Rightarrow> (string \<times> int \<times> int) option" where
  "getCurrentRetentionPolicy tr db =
     (let rows = select (\<lambda>q. rp_tier q = tr) (rc_policies db) in
      case max_version (map rp_version rows) of
        None \<Rightarrow> None
      | Some v \<Rightarrow> map_option (\<lambda>q. (rp_id q, rp_version q, rp_days q)) (find (\<lambda>q. rp_version q = v) rows))"

section \<open>Backup records\<close>

record backup_input =
  bki_id :: "string option"
  bki_tier :: tier
  bki_location :: string
  bki_geo :: string
  bki_encryption :: encryption_spec
  bki_hash :: string
  bki_size :: int
  bki_policy :: string
  bki_rights :: "json list option"
  bki_now :: string
  bki_actor :: string
  bki_role :: role

definition insert_backup :: "backup_row \<Rightarrow> rc_db \<Rightarrow> unit result \<times> rc_db" where
  "insert_backup r db =
     (if length (bk_hash r) \<noteq> 64 \<or> bk_size r < 0 \<or> bk_version r \<le> 0 \<or> bk_expires_at r \<le> bk_created_at r
      then (Inl check_failed, db)
      else if has_key bk_id (bk_id r) (rc_backups db) then (Inl duplicate_key, db)
      else if \<not> has_key rp_id (bk_policy r) (rc_policies db) then (Inl missing_parent, db)
      else (Inr (), db\<lparr>rc_backups := rc_backups db @ [r]\<rparr>))"

definition createBackupRecord ::
  "host \<Rightarrow> string \<Rightarrow> string \<Rightarrow> backup_input \<Rightarrow> rc_db \<Rightarrow> (string \<times> string) result \<times> rc_db" where
  "createBackupRecord h uuid auditId i db =
     (if \<not> may ''BACKUP_CREATED'' (bki_role i) then (Inl (Error ''BACKUP_ACCESS_DENIED''), db)
      else case row_of rp_id (rc_policies db) (bki_policy i) of
        None \<Rightarrow> (Inl (Error ''RETENTION_POLICY_NOT_FOUND''), db)
      | Some policy \<Rightarrow>
          (case toISO (map_option (\<lambda>t. t + rp_days policy * 86400000) (dateParse (bki_now i))) of
             Inl e \<Rightarrow> (Inl e, db)
           | Inr expiresAt \<Rightarrow>
               (let rid = (case bki_id i of Some x \<Rightarrow> x
                    | None \<Rightarrow> ''backup-'' @ to_lower (tier_text (bki_tier i)) @ ''-'' @ take 8 uuid);
                    version = next_version (map bk_version
                      (select (\<lambda>q. bk_tier q = bki_tier i) (rc_backups db))) in
                case (dateParse (bki_now i), dateParse expiresAt) of
                  (Some t, Some x) \<Rightarrow>
                    and_then (insert_backup \<lparr>bk_id = rid, bk_tier = bki_tier i, bk_created_at = t,
                        bk_expires_at = x, bk_location = bki_location i, bk_geo = bki_geo i,
                        bk_encryption = bki_encryption i, bk_hash = bki_hash i, bk_size = bki_size i,
                        bk_policy = bki_policy i, bk_version = version,
                        bk_rights = (case bki_rights i of None \<Rightarrow> [] | Some rs \<Rightarrow> rs),
                        bk_deleted_at = None\<rparr> db) (\<lambda>_ db.
                    and_then (audit h ''BACKUP_CREATED'' (bki_actor i)
                        [(''id'', JStr rid), (''tier'', JStr (tier_text (bki_tier i)))]
                        (bki_now i) auditId db) (\<lambda>_ db. (Inr (rid, expiresAt), db)))
                | _ \<Rightarrow> (Inl bad_timestamp, db))))"

section \<open>Retention enforcement\<close>

definition held :: "hold_row list \<Rightarrow> string \<Rightarrow> bool" where
  "held holds b = (select (\<lambda>l. lh_backup l = b \<and> lh_active l) holds \<noteq> [])"

definition mark_deleted :: "int \<Rightarrow> string \<Rightarrow> rc_db \<Rightarrow> rc_db" where
  "mark_deleted t b db =
     db\<lparr>rc_backups := update_where (\<lambda>r. bk_id r = b) (\<lambda>r. r\<lparr>bk_deleted_at := Some t\<rparr>) (rc_backups db)\<rparr>"

text \<open>The loop over the expired rows; \<open>clock\<close> gives \<open>Date.now()\<close> in the turn of each row.\<close>

fun enforce_rows ::
  "host \<Rightarrow> string \<Rightarrow> int \<Rightarrow> string \<Rightarrow> (string \<Rightarrow> int) \<Rightarrow> string list \<Rightarrow> string list \<Rightarrow> string list \<Rightarrow> rc_db \<Rightarrow>
   (string list \<times> string list) result \<times> rc_db" where
  "enforce_rows h now t actor clock [] deleted kept db = (Inr (deleted, kept), db)"
| "enforce_rows h now t actor clock (b # bs) deleted kept db =
     (if held (rc_holds db) b then enforce_rows h now t actor clock bs deleted (kept @ [b]) db
      else
        and_then (audit h ''BACKUP_DELETED'' actor [(''backupRecordId'', JStr b)] now
            (''audit-delete-'' @ b @ ''-'' @ show_int (clock b)) (mark_deleted t b db))
          (\<lambda>_ db. enforce_rows h now t actor clock bs (deleted @ [b]) kept db))"

definition enforceRetentionAndDelete ::
  "host \<Rightarrow> string \<Rightarrow> string \<Rightarrow> role \<Rightarrow> (string \<Rightarrow> int) \<Rightarrow> rc_db \<Rightarrow> (string list \<times> string list) result \<times> rc_db" where
  "enforceRetentionAndDelete h now actor who clock db =
     (if \<not> may ''BACKUP_DELETED'' who then (Inl (Error ''RETENTION_DELETE_ACCESS_DENIED''), db)
      else case dateParse now of
        None \<Rightarrow> (Inl bad_timestamp, db)
      | Some t \<Rightarrow>
          enforce_rows h now t actor clock
            (map bk_id (select (\<lambda>r. bk_expires_at r \<le> t \<and> bk_deleted_at r = None) (rc_backups db))) [] [] db)"

section \<open>Legal holds\<close>

definition createLegalHold ::
  "host \<Rightarrow> string \<Rightarrow> string \<Rightarrow> string \<Rightarrow> role \<Rightarrow> string \<Rightarrow> string \<Rightarrow> string \<Rightarrow> rc_db \<Rightarrow> string result \<times> rc_db" where
  "createLegalHold h b reason actor who now rid auditId db =
     (if \<not> may ''LEGAL_HOLD_CREATED'' who then (Inl (Error ''LEGAL_HOLD_ACCESS_DENIED''), db)
      else case dateParse now of
        None \<Rightarrow> (Inl bad_timestamp, db)
      | Some t \<Rightarrow>
          if has_key lh_id rid (rc_holds db) then (Inl duplicate_key, db)
          else if \<not> has_key bk_id b (rc_backups db) then (Inl missing_parent, db)
          else
            and_then (audit h ''LEGAL_HOLD_CREATED'' actor
                [(''legalHoldId'', JStr rid), (''backupRecordId'', JStr b)] now auditId
                (db\<lparr>rc_holds := rc_holds db @ [\<lparr>lh_id = rid, lh_backup = b, lh_reason = reason,
                   lh_created_at = t, lh_created_by = actor, lh_released_at = None, lh_active = True\<rparr>]\<rparr>))
              (\<lambda>_ db. (Inr rid, db)))"

definition releaseLegalHold ::
  "host \<Rightarrow> string \<Rightarrow> string \<Rightarrow> role \<Rightarrow> string \<Rightarrow> string \<Rightarrow> rc_db \<Rightarrow> unit result \<times> rc_db" where
  "releaseLegalHold h hold actor who now auditId db =
     (if \<not> may ''LEGAL_HOLD_RELEASED'' who then (Inl (Error ''LEGAL_HOLD_RELEASE_ACCESS_DENIED''), db)
      else case dateParse now of
        None \<Rightarrow> (Inl bad_timestamp, db)
      | Some t \<Rightarrow>
          if list_ex (\<lambda>l. lh_id l = hold \<and> t < lh_created_at l) (rc_holds db) then (Inl check_failed, db)
          else
            and_then (audit h ''LEGAL_HOLD_RELEASED'' actor [(''legalHoldId'', JStr hold)] now auditId
                (db\<lparr>rc_holds := update_where (\<lambda>l. lh_id l = hold)
                   (\<lambda>l. l\<lparr>lh_active := False, lh_released_at := Some t\<rparr>) (rc_holds db)\<rparr>))
              (\<lambda>_ db. (Inr (), db)))"

section \<open>Restore access\<close>

definition restore_payload :: "string \<Rightarrow> string \<Rightarrow> audit_payload" where
  "restore_payload b reason = [(''backupRecordId'', JStr b), (''reason'', JStr reason)]"

definition requestRestoreAccess ::
  "host \<Rightarrow> string \<Rightarrow> string \<Rightarrow> role \<Rightarrow> string \<Rightarrow> string \<Rightarrow> string \<Rightarrow> rc_db \<Rightarrow> (bool \<times> string) result \<times> rc_db" where
  "requestRestoreAccess h b actor who reason now auditId db =
     (let isAuthorized = (who = Owner \<or> who = Operator) in
      if select (\<lambda>r. bk_id r = b \<and> bk_deleted_at r = None) (rc_backups db) = []
      then (Inl (Error ''BACKUP_NOT_FOUND_OR_DELETED''), db)
      else if isAuthorized
      then and_then (audit h ''RESTORE_GRANTED'' actor (restore_payload b reason) now auditId db)
             (\<lambda>a db. (Inr (True, rcp_id a), db))
      else and_then (audit h ''RESTORE_DENIED'' actor (restore_payload b reason) now auditId db)
             (\<lambda>a db. (Inr (False, rcp_id a), db)))"

section \<open>Degraded mode\<close>

fun disable_confirmed :: "tier \<Rightarrow> bool" where
  "disable_confirmed CRITICAL_CONFIG = True"
| "disable_confirmed CRITICAL_OBSERVATIONS = True"
| "disable_confirmed REPLAYABLE_RAW = False"

definition capability_matrix :: "tier \<Rightarrow> (string \<times> string) list" where
  "capability_matrix tr =
     [(''CONFIRMED_OPPORTUNITY'', if disable_confirmed tr then ''DISABLED'' else ''AVAILABLE''),
      (''EARLY_WATCH'', ''AVAILABLE''), (''RISK_MONITORING'', ''AVAILABLE''),
      (''COLLECTION'', if tr = CRITICAL_CONFIG then ''DEGRADED'' else ''AVAILABLE'')]"

definition enterDegradedMode ::
  "host \<Rightarrow> tier \<Rightarrow> string \<Rightarrow> string \<Rightarrow> string \<Rightarrow> string \<Rightarrow> rc_db \<Rightarrow> (string \<times> bool) result \<times> rc_db" where
  "enterDegradedMode h tr reason now rid auditId db =
     (let disabled = disable_confirmed tr in
      case dateParse now of
        None \<Rightarrow> (Inl bad_timestamp, db)
      | Some t \<Rightarrow>
          if has_key dg_id rid (rc_degraded db) then (Inl duplicate_key, db)
          else
            and_then (audit h ''DEGRADED_ENTERED'' ''system''
                [(''tier'', JStr (tier_text tr)), (''reason'', JStr reason)] now auditId
                (db\<lparr>rc_degraded := rc_degraded db @ [\<lparr>dg_id = rid, dg_tier = tr, dg_reason = reason,
                   dg_at = t, dg_restored_at = None, dg_disabled = disabled,
                   dg_capabilities = capability_matrix tr, dg_active = True\<rparr>]\<rparr>))
              (\<lambda>_ db. (Inr (rid, disabled), db)))"

text \<open>Each row selected is updated by its id in a statement of its own; the first statement
  fails where \<open>now\<close> is not a time stamp, and with no row selected there is none.\<close>

definition exitDegradedMode ::
  "host \<Rightarrow> tier \<Rightarrow> string \<Rightarrow> string \<Rightarrow> rc_db \<Rightarrow> nat result \<times> rc_db" where
  "exitDegradedMode h tr now auditId db =
     (let rows = select (\<lambda>r. dg_tier r = tr \<and> dg_active r) (rc_degraded db) in
      if rows = [] then (Inr 0, db)
      else case dateParse now of
        None \<Rightarrow> (Inl bad_timestamp, db)
      | Some t \<Rightarrow>
          and_then (audit h ''DEGRADED_EXITED'' ''system'' [(''tier'', JStr (tier_text tr))] now auditId
              (db\<lparr>rc_degraded := fold (\<lambda>row. update_where (\<lambda>r. dg_id r = dg_id row)
                 (\<lambda>r. r\<lparr>dg_active := False, dg_restored_at := Some t\<rparr>)) rows (rc_degraded db)\<rparr>))
            (\<lambda>_ db. (Inr (length rows), db)))"

text \<open>\<open>... WHERE active=true LIMIT 1\<close>: one row of the database's choice.\<close>

definition isConfirmedOpportunityDisabled :: "rc_db \<Rightarrow> bool" where
  "isConfirmedOpportunityDisabled db =
     list_ex dg_disabled (take 1 (select dg_active (rc_degraded db)))"

definition getActiveDegradedTiers :: "rc_db \<Rightarrow> (tier \<times> string \<times> bool) list" where
  "getActiveDegradedTiers db =
     map (\<lambda>r. (dg_tier r, dg_reason r, dg_disabled r)) (select dg_active (rc_degraded db))"

end
