(* ===== verification/Recovery_Facts.thy ===== *)
theory Recovery_Facts
  imports Recovery_Continuity
begin

text \<open>
  What the operations of the recovery component keep: the audit log stays one chain, a backup
  under a legal hold is not deleted, every decision on a restore is recorded; and where the
  degraded mode of a critical tier goes unnoticed.
\<close>

section \<open>Operations\<close>

datatype rc_op =
    PolicyOp string string retention_input
  | BackupOp string string backup_input
  | EnforceOp string string role "string \<Rightarrow> int"
  | HoldOp string string string role string string string
  | ReleaseOp string string role string string
  | RestoreOp string string role string string string
  | DegradeOp tier string string string string
  | RecoverOp tier string string

fun rc_step :: "host \<Rightarrow> rc_op \<Rightarrow> rc_db \<Rightarrow> rc_db" where
  "rc_step h (PolicyOp uuid aid i) db = snd (createRetentionPolicy h uuid aid i db)"
| "rc_step h (BackupOp uuid aid i) db = snd (createBackupRecord h uuid aid i db)"
| "rc_step h (EnforceOp now actor who clock) db = snd (enforceRetentionAndDelete h now actor who clock db)"
| "rc_step h (HoldOp b reason actor who now rid aid) db = snd (createLegalHold h b reason actor who now rid aid db)"
| "rc_step h (ReleaseOp hold actor who now aid) db = snd (releaseLegalHold h hold actor who now aid db)"
| "rc_step h (RestoreOp b actor who reason now aid) db = snd (requestRestoreAccess h b actor who reason now aid db)"
| "rc_step h (DegradeOp tr reason now rid aid) db = snd (enterDegradedMode h tr reason now rid aid db)"
| "rc_step h (RecoverOp tr now aid) db = snd (exitDegradedMode h tr now aid db)"

section \<open>The audit log over a run\<close>

text \<open>The log grows by calls of \<open>appendBackupAudit\<close> only.\<close>

inductive audit_run :: "host \<Rightarrow> audit_row list \<Rightarrow> audit_row list \<Rightarrow> bool" for h where
  audit_same: "audit_run h t t"
| audit_more: "audit_run h t u \<Longrightarrow>
    audit_run h t (snd (appendBackupAudit (ho_sha h) (ho_json h) action actor p now rid u))"


lemma audit_run_prefix: "audit_run h t u \<Longrightarrow> \<exists>v. u = t @ v"
proof (induction rule: audit_run.induct)
  case (audit_more t u action actor p now rid)
  then show ?case
    using appendBackupAudit_prefix [of "ho_sha h" "ho_json h" action actor p now rid u] by auto
qed simp



text \<open>\<open>grows h db db'\<close>: the log of the second database comes from that of the first.\<close>

definition grows :: "host \<Rightarrow> rc_db \<Rightarrow> rc_db \<Rightarrow> bool" where
  "grows h db db' \<longleftrightarrow> audit_run h (rc_audit db) (rc_audit db')"

lemma grows_same: "rc_audit db' = rc_audit db \<Longrightarrow> grows h db db'"
  by (simp add: grows_def audit_same)





lemma grows_mark_deleted: "grows h db (mark_deleted t b db)"
  by (simp add: grows_same mark_deleted_def)





section \<open>Backups and legal holds\<close>

text \<open>The backups of the second database are those of the first, deleted or not, and new ones.\<close>

lemma row_of_mark_deleted:
  "row_of bk_id (rc_backups (mark_deleted t b db)) b' =
    map_option (\<lambda>r. if bk_id r = b then r\<lparr>bk_deleted_at := Some t\<rparr> else r) (row_of bk_id (rc_backups db) b')"
  by (simp add: mark_deleted_def row_of_update_where)

lemma rc_backups_audit [simp]: "rc_backups (snd (audit h action actor p now rid db)) = rc_backups db"
  "rc_holds (snd (audit h action actor p now rid db)) = rc_holds db"
  "rc_degraded (snd (audit h action actor p now rid db)) = rc_degraded db"
  "rc_policies (snd (audit h action actor p now rid db)) = rc_policies db"
  by (simp_all add: audit_def split: prod.split)

lemma audit_pair:
  assumes "audit h action actor p now rid db = (x, s)"
  shows "rc_backups s = rc_backups db" "rc_holds s = rc_holds db" "rc_degraded s = rc_degraded db"
    "rc_policies s = rc_policies db"
  using rc_backups_audit [of h action actor p now rid db] unfolding assms by simp_all

text \<open>No statement of the sequence changes the backups or the holds.\<close>

lemma audit_then_backups:
  "(\<And>a s. rc_backups (snd (f a s)) = rc_backups s) \<Longrightarrow>
   rc_backups (snd (and_then (audit h action actor p now rid db) f)) = rc_backups db"
  by (auto simp: and_then_def audit_pair split: prod.split sum.split)

lemma enforce_rows_row:
  assumes "row_of bk_id (rc_backups db) b = Some r" "bk_deleted_at r = None"
    and "row_of bk_id (rc_backups (snd (enforce_rows h now t actor clock bs deleted kept db))) b = Some r'"
    and "bk_deleted_at r' \<noteq> None"
  shows "b \<in> set bs \<and> \<not> held (rc_holds db) b"
  using assms
proof (induction bs arbitrary: deleted kept db)
  case Nil
  then show ?case by simp
next
  case (Cons c bs)
  show ?case
  proof (cases "held (rc_holds db) c")
    case True
    with Cons.prems have "b \<in> set bs \<and> \<not> held (rc_holds db) b" by (intro Cons.IH) auto
    then show ?thesis by simp
  next
    case False
    show ?thesis
    proof (cases "b = c")
      case True
      with False show ?thesis by simp
    next
      case neq: False
      let ?r = "audit h ''BACKUP_DELETED'' actor [(''backupRecordId'', JStr c)] now
            (''audit-delete-'' @ c @ ''-'' @ show_int (clock c)) (mark_deleted t c db)"
      have "bk_id r = b" using Cons.prems(1) by (auto dest: row_of_Some_key)
      with neq have "row_of bk_id (rc_backups (snd ?r)) b = Some r"
        using Cons.prems(1) by (simp add: row_of_mark_deleted)
      moreover have "rc_holds (snd ?r) = rc_holds db"
        by (simp only: rc_backups_audit) (simp add: mark_deleted_def)
      moreover obtain x s where xs: "?r = (x, s)" by (cases ?r)
      ultimately have s: "row_of bk_id (rc_backups s) b = Some r" "rc_holds s = rc_holds db"
        unfolding xs by simp_all
      from Cons.prems(3,4) False xs s Cons.prems(2) obtain y where "x = Inr y"
        by (cases x) auto
      with Cons.prems(2-4) False xs s have "b \<in> set bs \<and> \<not> held (rc_holds s) b"
        by (intro Cons.IH) auto
      with s show ?thesis by simp
    qed
  qed
qed


lemma rc_backups_same:
  "rc_backups (snd (createRetentionPolicy h uuid aid i db)) = rc_backups db"
  "rc_backups (snd (createLegalHold h b reason actor who now rid aid db)) = rc_backups db"
  "rc_backups (snd (releaseLegalHold h hold actor who now aid db)) = rc_backups db"
  "rc_backups (snd (requestRestoreAccess h b actor who reason now aid db)) = rc_backups db"
  "rc_backups (snd (enterDegradedMode h tr reason now rid aid db)) = rc_backups db"
  "rc_backups (snd (exitDegradedMode h tr now aid db)) = rc_backups db"
  by (auto simp: createRetentionPolicy_def insert_policy_def createLegalHold_def releaseLegalHold_def
      requestRestoreAccess_def enterDegradedMode_def exitDegradedMode_def Let_def audit_then_backups
      split: option.split)

lemma createBackupRecord_backups:
  obtains "rc_backups (snd (createBackupRecord h uuid aid i db)) = rc_backups db"
  | q where "rc_backups (snd (createBackupRecord h uuid aid i db)) = rc_backups db @ [q]"
    "\<not> has_key bk_id (bk_id q) (rc_backups db)" "bk_deleted_at q = None"
proof -
  have "rc_backups (snd (createBackupRecord h uuid aid i db)) = rc_backups db \<or>
    (\<exists>q. rc_backups (snd (createBackupRecord h uuid aid i db)) = rc_backups db @ [q] \<and>
      \<not> has_key bk_id (bk_id q) (rc_backups db) \<and> bk_deleted_at q = None)"
    by (simp add: createBackupRecord_def insert_backup_def Let_def audit_then_backups
        split: option.split sum.split)
  with that show thesis by blast
qed

lemma unique_mark_deleted:
  "unique_key bk_id (rc_backups db) \<Longrightarrow> unique_key bk_id (rc_backups (mark_deleted t b db))"
  by (simp add: mark_deleted_def unique_update_where)

lemma unique_enforce_rows:
  "unique_key bk_id (rc_backups db) \<Longrightarrow>
   unique_key bk_id (rc_backups (snd (enforce_rows h now t actor clock bs deleted kept db)))"
proof (induction bs arbitrary: deleted kept db)
  case (Cons b bs)
  then show ?case
    by (auto intro!: and_then_state [where R = "\<lambda>s. unique_key bk_id (rc_backups s)"] unique_mark_deleted)
qed simp

lemma unique_step: "unique_key bk_id (rc_backups db) \<Longrightarrow> unique_key bk_id (rc_backups (rc_step h op' db))"
proof (cases op')
  case (BackupOp uuid aid i)
  assume "unique_key bk_id (rc_backups db)"
  with BackupOp show ?thesis
    by (cases rule: createBackupRecord_backups [of h uuid aid i db]) (simp_all add: unique_append)
next
  case (EnforceOp now actor who clock)
  assume "unique_key bk_id (rc_backups db)"
  with EnforceOp show ?thesis
    by (simp add: enforceRetentionAndDelete_def unique_enforce_rows split: option.split)
qed (simp_all add: rc_backups_same)

interpretation backups: invariant_machine "rc_step h" "\<lambda>db. unique_key bk_id (rc_backups db)" for h
  by unfold_locales (rule unique_step)

lemma deleted_by_enforcement:
  assumes "row_of bk_id (rc_backups db) b = Some r" "bk_deleted_at r = None"
    and "row_of bk_id (rc_backups (rc_step h op' db)) b = Some r'" "bk_deleted_at r' \<noteq> None"
    and "unique_key bk_id (rc_backups db)"
  shows "\<exists>now actor clock t. op' = EnforceOp now actor Owner clock \<and> dateParse now = Some t \<and>
    bk_expires_at r \<le> t \<and> \<not> held (rc_holds db) b"
proof (cases op')
  case (BackupOp uuid aid i)
  with assms(1-4) show ?thesis
    by (cases rule: createBackupRecord_backups [of h uuid aid i db]) (auto simp: row_of_append)
next
  case (EnforceOp now actor who clock)
  with assms(1-4) have who: "may ''BACKUP_DELETED'' who"
    by (auto simp: enforceRetentionAndDelete_def split: if_splits)
  then have "who = Owner" by (simp add: may_def allowedRoles_def)
  from who assms(1-4) EnforceOp obtain t where t: "dateParse now = Some t"
    by (cases "dateParse now") (auto simp: enforceRetentionAndDelete_def)
  let ?bs = "map bk_id (select (\<lambda>r. bk_expires_at r \<le> t \<and> bk_deleted_at r = None) (rc_backups db))"
  have "b \<in> set ?bs \<and> \<not> held (rc_holds db) b"
    by (rule enforce_rows_row [OF assms(1,2) _ assms(4)])
      (use assms(3) EnforceOp who t in \<open>simp add: enforceRetentionAndDelete_def\<close>)
  then obtain q where q: "q \<in> set (rc_backups db)" "bk_id q = b" "bk_expires_at q \<le> t"
    "\<not> held (rc_holds db) b" by (auto simp: select_def)
  with assms(1,5) have "q = r" by (metis option.inject row_of_eq)
  with q t EnforceOp \<open>who = Owner\<close> show ?thesis by blast
qed (use assms(1-4) in \<open>simp_all add: rc_backups_same\<close>)

section \<open>Retention enforcement in full\<close>

lemma audit_Inr:
  assumes "audit h action actor p now rid db = (Inr a, s)"
  obtains r where "rc_audit s = rc_audit db @ [r]" "au_id r = rid" "rcp_id a = rid" "au_action r = action"
    "au_actor r = actor" "au_payload r = ho_json h p" "s = db\<lparr>rc_audit := rc_audit db @ [r]\<rparr>"
proof -
  obtain t where t: "audit_insert (ho_sha h) (ho_json h) action actor p now rid
      (audit_head (rc_audit db)) (rc_audit db) = (Inr a, t)" "s = db\<lparr>rc_audit := t\<rparr>"
    using assms by (auto simp: audit_def appendBackupAudit_def split: prod.splits)
  from t(1) show thesis by (rule audit_insert_Inr) (use that t(2) in auto)
qed

lemma audit_Inl: "audit h action actor p now rid db = (Inl e, s) \<Longrightarrow> s = db"
  by (auto simp: audit_def appendBackupAudit_def dest: audit_insert_Inl split: prod.splits)

definition deletable :: "rc_db \<Rightarrow> int \<Rightarrow> string list" where
  "deletable db t =
     filter (\<lambda>b. \<not> held (rc_holds db) b)
       (map bk_id (select (\<lambda>r. bk_expires_at r \<le> t \<and> bk_deleted_at r = None) (rc_backups db)))"

lemma enforce_rows_Inr:
  assumes "enforce_rows h now t actor clock bs deleted kept db = (Inr (d, k), s)"
  shows "d = deleted @ filter (\<lambda>b. \<not> held (rc_holds db) b) bs \<and>
    k = kept @ filter (held (rc_holds db)) bs \<and>
    rc_backups s = update_where (\<lambda>r. bk_id r \<in> set (filter (\<lambda>b. \<not> held (rc_holds db) b) bs))
      (\<lambda>r. r\<lparr>bk_deleted_at := Some t\<rparr>) (rc_backups db) \<and>
    (\<exists>u. rc_audit s = rc_audit db @ u \<and>
      map au_payload u = map (\<lambda>b. ho_json h [(''backupRecordId'', JStr b)])
        (filter (\<lambda>b. \<not> held (rc_holds db) b) bs) \<and>
      list_all (\<lambda>r. au_action r = ''BACKUP_DELETED'' \<and> au_actor r = actor) u)"
  using assms
proof (induction bs arbitrary: deleted kept db)
  case Nil
  then show ?case by (auto simp: update_where_def)
next
  case (Cons b bs)
  show ?case
  proof (cases "held (rc_holds db) b")
    case True
    with Cons.prems have "enforce_rows h now t actor clock bs deleted (kept @ [b]) db = (Inr (d, k), s)"
      by simp
    from Cons.IH [OF this] True show ?thesis by simp
  next
    case False
    let ?r = "audit h ''BACKUP_DELETED'' actor [(''backupRecordId'', JStr b)] now
        (''audit-delete-'' @ b @ ''-'' @ show_int (clock b)) (mark_deleted t b db)"
    obtain x s1 where xs: "?r = (x, s1)" by (cases ?r)
    from Cons.prems False have "and_then ?r (\<lambda>_ db. enforce_rows h now t actor clock bs (deleted @ [b]) kept db)
        = (Inr (d, k), s)" by (simp only: enforce_rows.simps if_False)
    with xs obtain a where a: "?r = (Inr a, s1)"
      and e: "enforce_rows h now t actor clock bs (deleted @ [b]) kept s1 = (Inr (d, k), s)"
      by (cases x) auto
    from a obtain r where r: "rc_audit s1 = rc_audit db @ [r]" "au_action r = ''BACKUP_DELETED''"
      "au_actor r = actor" "au_payload r = ho_json h [(''backupRecordId'', JStr b)]"
      by (rule audit_Inr) (simp add: mark_deleted_def)
    have s1: "rc_holds s1 = rc_holds db" "rc_backups s1 = rc_backups (mark_deleted t b db)"
      using audit_pair [OF a] by (simp_all add: mark_deleted_def)
    from Cons.IH [OF e] s1 obtain u where i: "d = deleted @ b # filter (\<lambda>b. \<not> held (rc_holds db) b) bs"
      "k = kept @ filter (held (rc_holds db)) bs"
      "rc_backups s = update_where (\<lambda>r. bk_id r \<in> set (filter (\<lambda>b. \<not> held (rc_holds db) b) bs))
        (\<lambda>r. r\<lparr>bk_deleted_at := Some t\<rparr>) (rc_backups (mark_deleted t b db))"
      "rc_audit s = rc_audit s1 @ u"
      "map au_payload u = map (\<lambda>b. ho_json h [(''backupRecordId'', JStr b)])
        (filter (\<lambda>b. \<not> held (rc_holds db) b) bs)"
      "list_all (\<lambda>r. au_action r = ''BACKUP_DELETED'' \<and> au_actor r = actor) u" by auto
    have "rc_backups s = update_where (\<lambda>r. bk_id r \<in> set (filter (\<lambda>b. \<not> held (rc_holds db) b) (b # bs)))
        (\<lambda>r. r\<lparr>bk_deleted_at := Some t\<rparr>) (rc_backups db)"
      using False by (auto simp: i(3) mark_deleted_def update_where_def)
    with i False r show ?thesis by (simp add: exI [of _ "r # u"])
  qed
qed

section \<open>Degraded mode\<close>

lemma enterDegradedMode_rows:
  assumes "enterDegradedMode h tr reason now rid aid db = (Inr a, db')"
  obtains r where "rc_degraded db' = rc_degraded db @ [r]" "dg_active r" "dg_disabled r = disable_confirmed tr"
    "dg_id r = rid" "dg_tier r = tr" "dg_reason r = reason" "a = (rid, disable_confirmed tr)"
proof -
  obtain t where t: "dateParse now = Some t" "\<not> has_key dg_id rid (rc_degraded db)"
    using assms by (auto simp: enterDegradedMode_def Let_def split: option.splits if_splits)
  let ?r = "\<lparr>dg_id = rid, dg_tier = tr, dg_reason = reason, dg_at = t, dg_restored_at = None,
    dg_disabled = disable_confirmed tr, dg_capabilities = capability_matrix tr, dg_active = True\<rparr>"
  let ?x = "audit h ''DEGRADED_ENTERED'' ''system''
      [(''tier'', JStr (tier_text tr)), (''reason'', JStr reason)] now aid
      (db\<lparr>rc_degraded := rc_degraded db @ [?r]\<rparr>)"
  have x: "and_then ?x (\<lambda>_ db. (Inr (rid, disable_confirmed tr), db)) = (Inr a, db')"
    using assms t by (simp add: enterDegradedMode_def Let_def)
  obtain y s where ys: "?x = (y, s)" by (cases ?x)
  with x have "s = db'" "a = (rid, disable_confirmed tr)" by (cases y; simp)+
  moreover have "rc_degraded s = rc_degraded db @ [?r]" using audit_pair(3) [OF ys] by simp
  ultimately show thesis using that [of ?r] by simp
qed

section \<open>Properties\<close>


definition demo_host :: host where
  "demo_host = \<lparr>ho_sha = demo_sha, ho_json = (\<lambda>p. p)\<rparr>"

definition demo_backup :: backup_row where
  "demo_backup = \<lparr>bk_id = ''k'', bk_tier = REPLAYABLE_RAW, bk_created_at = -2, bk_expires_at = -1,
     bk_location = ''s3'', bk_geo = ''us-east-1'', bk_encryption = \<lparr>en_algorithm = ''AES-256-GCM'',
       en_key_id = ''k1'', en_key_version = 1\<rparr>, bk_hash = replicate 64 CHR ''a'', bk_size = 1,
     bk_policy = ''p'', bk_version = 1, bk_rights = [], bk_deleted_at = None\<rparr>"

definition demo_db :: rc_db where
  "demo_db = rc_empty\<lparr>rc_backups := [demo_backup]\<rparr>"

lemma demo_now: "dateParse ''1970-01-01'' = Some 0"
  by (simp add: date_eval)

lemma demo_audit:
  assumes "action \<in> set audit_actions" "\<not> has_key au_id rid (rc_audit db)"
  obtains a r where "audit demo_host action actor p ''1970-01-01'' rid db =
      (Inr a, db\<lparr>rc_audit := rc_audit db @ [r]\<rparr>)" "au_id r = rid" "rcp_id a = rid"
  using audit_insert_ok [OF demo_now assms, of demo_sha "audit_head (rc_audit db)" actor p "\<lambda>p. p"] that
  by (simp add: audit_def appendBackupAudit_def demo_host_def Let_def)


text \<open>C25. In every database an operation can meet, a backup turns from kept to deleted only by
  \<open>enforceRetentionAndDelete\<close> called by an owner at a time past its expiry, and only while no
  active legal hold names it: no other operation, and no error on the way, deletes a backup.\<close>

theorem held_backup_never_deleted:
  assumes "db = fold (rc_step h) os rc_empty"
    and "row_of bk_id (rc_backups db) b = Some r" "bk_deleted_at r = None"
    and "row_of bk_id (rc_backups (rc_step h op' db)) b = Some r'" "bk_deleted_at r' \<noteq> None"
  shows "\<exists>now actor clock t. op' = EnforceOp now actor Owner clock \<and> dateParse now = Some t \<and>
    bk_expires_at r \<le> t \<and> (\<forall>l\<in>set (rc_holds db). lh_backup l = b \<longrightarrow> \<not> lh_active l)"
proof -
  have "unique_key bk_id (rc_backups rc_empty)" by (simp add: rc_empty_def unique_key_def)
  then have "unique_key bk_id (rc_backups db)" unfolding assms(1) by (rule backups.run_inv)
  from deleted_by_enforcement [OF assms(2-5) this] show ?thesis
    by (auto simp: held_def select_def filter_empty_conv)
qed

definition demo_encryption :: encryption_spec where
  "demo_encryption = \<lparr>en_algorithm = ''AES-256-GCM'', en_key_id = ''k1'', en_key_version = 1\<rparr>"

definition demo_ops :: "rc_op list" where
  "demo_ops =
     [PolicyOp ''u'' ''a'' \<lparr>rti_id = Some ''p'', rti_tier = REPLAYABLE_RAW, rti_days = 1,
        rti_geo = ''us-east-1'', rti_encryption = demo_encryption, rti_rights = [], rti_actor = ''o'',
        rti_role = Owner, rti_now = ''1970-01-01'', rti_previous = None\<rparr>,
      BackupOp ''u'' ''b'' \<lparr>bki_id = Some ''k'', bki_tier = REPLAYABLE_RAW, bki_location = ''s3'',
        bki_geo = ''us-east-1'', bki_encryption = demo_encryption, bki_hash = replicate 64 CHR ''a'',
        bki_size = 1, bki_policy = ''p'', bki_rights = None, bki_now = ''1970-01-01'', bki_actor = ''o'',
        bki_role = Owner\<rparr>]"

definition demo_record :: backup_row where
  "demo_record = \<lparr>bk_id = ''k'', bk_tier = REPLAYABLE_RAW, bk_created_at = 0, bk_expires_at = 86400000,
     bk_location = ''s3'', bk_geo = ''us-east-1'', bk_encryption = demo_encryption,
     bk_hash = replicate 64 CHR ''a'', bk_size = 1, bk_policy = ''p'', bk_version = 1, bk_rights = [],
     bk_deleted_at = None\<rparr>"

lemma demo_expiry: "toISO (Some 86400000) = Inr (iso_text 86400000)"
  "dateParse (iso_text 86400000) = Some 86400000"
  by (simp_all add: dateParse_iso_text max_time_def)

lemma demo_run:
  "rc_backups (fold (rc_step demo_host) demo_ops rc_empty) = [demo_record]"
  "rc_holds (fold (rc_step demo_host) demo_ops rc_empty) = []"
  "map au_id (rc_audit (fold (rc_step demo_host) demo_ops rc_empty)) = [''a'', ''b'']"
  by (simp_all add: demo_ops_def demo_record_def createRetentionPolicy_def createBackupRecord_def may_def
      allowedRoles_def demo_now rc_empty_def insert_policy_def insert_backup_def geographic_locations_def
      next_version_def max_version_def select_def has_key_def row_of_def demo_expiry [simplified] demo_expiry
      audit_def appendBackupAudit_def demo_host_def audit_insert_ok [OF demo_now] audit_actions_def Let_def
      del: toISO.simps)

theorem held_backup_never_deleted_witness:
  "\<exists>now actor clock t. EnforceOp ''1970-01-02'' ''o'' Owner (\<lambda>_. 0) = EnforceOp now actor Owner clock \<and>
     dateParse now = Some t \<and> bk_expires_at demo_record \<le> t \<and>
     (\<forall>l\<in>set (rc_holds (fold (rc_step demo_host) demo_ops rc_empty)).
        lh_backup l = ''k'' \<longrightarrow> \<not> lh_active l)"
proof (rule held_backup_never_deleted [OF refl])
  let ?db = "fold (rc_step demo_host) demo_ops rc_empty"
  show "row_of bk_id (rc_backups ?db) ''k'' = Some demo_record" "bk_deleted_at demo_record = None"
    by (simp_all only: demo_run) (simp_all add: row_of_def demo_record_def)
  have d: "dateParse ''1970-01-02'' = Some 86400000" by (simp add: date_eval)
  have "rc_backups (rc_step demo_host (EnforceOp ''1970-01-02'' ''o'' Owner (\<lambda>_. 0)) ?db)
      = [demo_record\<lparr>bk_deleted_at := Some 86400000\<rparr>]"
    using demo_run(1,2)
    by (simp add: enforceRetentionAndDelete_def may_def allowedRoles_def d select_def held_def
        mark_deleted_def update_where_def demo_record_def audit_then_backups)
  then show "row_of bk_id (rc_backups (rc_step demo_host (EnforceOp ''1970-01-02'' ''o'' Owner (\<lambda>_. 0)) ?db)) ''k''
      = Some (demo_record\<lparr>bk_deleted_at := Some 86400000\<rparr>)"
    by (simp only:) (simp add: row_of_def demo_record_def)
  show "bk_deleted_at (demo_record\<lparr>bk_deleted_at := Some 86400000\<rparr>) \<noteq> None" by simp
qed

text \<open>When enforcement returns, it has deleted exactly the expired backups without an active
  hold and reports them and the held ones apart; every other backup is as before, and the audit log
  has one record of the deletion of each, in order, by the one who asked.\<close>

theorem enforcement_exact:
  assumes "enforceRetentionAndDelete h now actor who clock db = (Inr (deleted, kept), db')"
  shows "who = Owner \<and> (\<exists>t u. dateParse now = Some t \<and> deleted = deletable db t \<and>
    set kept = {b. held (rc_holds db) b \<and>
      (\<exists>r\<in>set (rc_backups db). bk_id r = b \<and> bk_expires_at r \<le> t \<and> bk_deleted_at r = None)} \<and>
    rc_backups db' = map (\<lambda>r. if bk_id r \<in> set deleted then r\<lparr>bk_deleted_at := Some t\<rparr> else r) (rc_backups db) \<and>
    rc_audit db' = rc_audit db @ u \<and>
    map au_payload u = map (\<lambda>b. ho_json h [(''backupRecordId'', JStr b)]) deleted \<and>
    (\<forall>r\<in>set u. au_action r = ''BACKUP_DELETED'' \<and> au_actor r = actor))"
proof -
  have m: "may ''BACKUP_DELETED'' who" using assms by (auto simp: enforceRetentionAndDelete_def split: if_splits)
  then have "who = Owner" by (simp add: may_def allowedRoles_def)
  obtain t where t: "dateParse now = Some t"
    using assms m by (cases "dateParse now") (auto simp: enforceRetentionAndDelete_def)
  let ?bs = "map bk_id (select (\<lambda>r. bk_expires_at r \<le> t \<and> bk_deleted_at r = None) (rc_backups db))"
  have "enforce_rows h now t actor clock ?bs [] [] db = (Inr (deleted, kept), db')"
    using assms m t by (simp add: enforceRetentionAndDelete_def)
  from enforce_rows_Inr [OF this] obtain u where u: "deleted = deletable db t"
    "kept = filter (held (rc_holds db)) ?bs"
    "rc_backups db' = update_where (\<lambda>r. bk_id r \<in> set (deletable db t)) (\<lambda>r. r\<lparr>bk_deleted_at := Some t\<rparr>) (rc_backups db)"
    "rc_audit db' = rc_audit db @ u" "map au_payload u = map (\<lambda>b. ho_json h [(''backupRecordId'', JStr b)]) (deletable db t)"
    "list_all (\<lambda>r. au_action r = ''BACKUP_DELETED'' \<and> au_actor r = actor) u"
    by (auto simp only: deletable_def append_Nil)
  from u(2) have "set kept = {b. held (rc_holds db) b \<and>
      (\<exists>r\<in>set (rc_backups db). bk_id r = b \<and> bk_expires_at r \<le> t \<and> bk_deleted_at r = None)}"
    by (auto simp: select_def)
  with \<open>who = Owner\<close> t u show ?thesis by (simp add: update_where_def list_all_iff)
qed

theorem enforcement_exact_witness:
  "\<exists>db'. enforceRetentionAndDelete demo_host ''1970-01-02'' ''o'' Owner (\<lambda>_. 0)
      (rc_empty\<lparr>rc_backups := [demo_record]\<rparr>) = (Inr ([''k''], []), db') \<and>
     rc_backups db' = [demo_record\<lparr>bk_deleted_at := Some 86400000\<rparr>]"
proof -
  let ?db = "rc_empty\<lparr>rc_backups := [demo_record]\<rparr>"
  have d: "dateParse ''1970-01-02'' = Some 86400000" by (simp add: date_eval)
  obtain db' where e: "enforceRetentionAndDelete demo_host ''1970-01-02'' ''o'' Owner (\<lambda>_. 0) ?db =
      (Inr ([''k''], []), db')"
    by (simp add: enforceRetentionAndDelete_def may_def allowedRoles_def d select_def held_def
        mark_deleted_def demo_record_def rc_empty_def audit_def appendBackupAudit_def demo_host_def
        audit_insert_ok [OF d] audit_actions_def Let_def has_key_def)
  from enforcement_exact [OF e] d have "rc_backups db' = [demo_record\<lparr>bk_deleted_at := Some 86400000\<rparr>]"
    by (simp add: demo_record_def)
  with e show ?thesis by blast
qed

text \<open>A request to restore is refused without a trace when the backup is missing or deleted.
  Otherwise, where it answers, it grants exactly the owners and the operators, and it adds exactly
  one record to the audit log: who asked for which backup and why, and what was decided.\<close>

theorem restore_decision_recorded:
  assumes "requestRestoreAccess h b actor who reason now aid db = (res, db')"
  shows "case res of
      Inl e \<Rightarrow> db' = db
    | Inr (granted, auditId) \<Rightarrow>
        (\<exists>r\<in>set (rc_backups db). bk_id r = b \<and> bk_deleted_at r = None) \<and>
        (granted \<longleftrightarrow> who \<in> {Owner, Operator}) \<and>
        (\<exists>q. db' = db\<lparr>rc_audit := rc_audit db @ [q]\<rparr> \<and> au_id q = auditId \<and> au_actor q = actor \<and>
           au_action q = (if granted then ''RESTORE_GRANTED'' else ''RESTORE_DENIED'') \<and>
           au_payload q = ho_json h [(''backupRecordId'', JStr b), (''reason'', JStr reason)])"
proof (cases "select (\<lambda>r. bk_id r = b \<and> bk_deleted_at r = None) (rc_backups db) = []")
  case True
  with assms show ?thesis by (auto simp: requestRestoreAccess_def)
next
  case False
  then have live: "\<exists>r\<in>set (rc_backups db). bk_id r = b \<and> bk_deleted_at r = None"
    by (auto simp: select_def filter_empty_conv)
  define g where "g = (who = Owner \<or> who = Operator)"
  let ?a = "audit h (if g then ''RESTORE_GRANTED'' else ''RESTORE_DENIED'') actor (restore_payload b reason) now aid db"
  have e: "and_then ?a (\<lambda>a db. (Inr (g, rcp_id a), db)) = (res, db')"
    using assms False by (cases g) (auto simp: requestRestoreAccess_def g_def)
  show ?thesis
  proof (cases ?a)
    case (Pair x s)
    show ?thesis
    proof (cases x)
      case (Inl y)
      with Pair e audit_Inl show ?thesis by fastforce
    next
      case (Inr a)
      with Pair obtain q where "au_id q = aid" "rcp_id a = aid" "au_actor q = actor"
        "au_action q = (if g then ''RESTORE_GRANTED'' else ''RESTORE_DENIED'')"
        "au_payload q = ho_json h (restore_payload b reason)" "s = db\<lparr>rc_audit := rc_audit db @ [q]\<rparr>"
        by (auto elim: audit_Inr)
      moreover have "res = Inr (g, rcp_id a)" "db' = s" using e Pair Inr by simp_all
      ultimately show ?thesis using live by (auto simp: g_def restore_payload_def)
    qed
  qed
qed

theorem restore_decision_recorded_witness:
  "\<exists>q. requestRestoreAccess demo_host ''k'' ''v'' Viewer ''why'' ''1970-01-01'' ''a'' demo_db =
     (Inr (False, ''a''), demo_db\<lparr>rc_audit := [q]\<rparr>) \<and> au_action q = ''RESTORE_DENIED'' \<and> au_actor q = ''v''"
proof -
  let ?x = "requestRestoreAccess demo_host ''k'' ''v'' Viewer ''why'' ''1970-01-01'' ''a'' demo_db"
  have k: "rc_audit demo_db = []" by (simp add: demo_db_def rc_empty_def)
  obtain db' where x: "?x = (Inr (False, ''a''), db')"
  proof -
    obtain a r where "audit demo_host ''RESTORE_DENIED'' ''v'' (restore_payload ''k'' ''why'') ''1970-01-01'' ''a'' demo_db =
        (Inr a, demo_db\<lparr>rc_audit := rc_audit demo_db @ [r]\<rparr>)" "rcp_id a = ''a''"
      by (rule demo_audit [of "''RESTORE_DENIED''" "''a''" demo_db])
        (auto simp: audit_actions_def k has_key_def)
    then show ?thesis
      by (intro that) (simp add: requestRestoreAccess_def demo_db_def demo_backup_def rc_empty_def select_def)
  qed
  from restore_decision_recorded [OF x] k show ?thesis unfolding x by auto
qed

text \<open>While the tier of raw data is degraded, a miss of a critical tier goes unnoticed: it
  enters degraded mode with the confirmed alerts disabled, but the query that guards them reads one
  active row, and where that is the older one the answer is that they are not disabled.\<close>

theorem critical_miss_hidden_by_raw:
  assumes "select dg_active (rc_degraded db) = []"
    and "enterDegradedMode h REPLAYABLE_RAW reason now rid aid db = (Inr a, db1)"
    and "enterDegradedMode h tr reason' now' rid' aid' db1 = (Inr c, db2)" "disable_confirmed tr"
  shows "snd c \<and> (tr, reason', True) \<in> set (getActiveDegradedTiers db2) \<and>
    \<not> isConfirmedOpportunityDisabled db2"
proof -
  obtain r where r: "rc_degraded db1 = rc_degraded db @ [r]" "dg_active r"
    "dg_disabled r = disable_confirmed REPLAYABLE_RAW" using assms(2) by (rule enterDegradedMode_rows)
  obtain q where q: "rc_degraded db2 = rc_degraded db1 @ [q]" "dg_active q"
    "dg_disabled q = disable_confirmed tr" "dg_tier q = tr" "dg_reason q = reason'"
    "c = (rid', disable_confirmed tr)" using assms(3) by (rule enterDegradedMode_rows)
  have "select dg_active (rc_degraded db2) = [r, q]"
    using assms(1) r q by (simp add: select_def)
  with r q assms(4) show ?thesis
    by (simp add: isConfirmedOpportunityDisabled_def getActiveDegradedTiers_def)
qed

theorem critical_miss_hidden_by_raw_witness:
  "\<not> isConfirmedOpportunityDisabled
     (rc_step demo_host (DegradeOp CRITICAL_CONFIG ''rpo'' ''1970-01-01'' ''e'' ''b'')
       (rc_step demo_host (DegradeOp REPLAYABLE_RAW ''rto'' ''1970-01-01'' ''d'' ''a'') rc_empty))"
proof -
  let ?f = "\<lambda>tr reason rid aid. enterDegradedMode demo_host tr reason ''1970-01-01'' rid aid"
  obtain a db1 where a: "?f REPLAYABLE_RAW ''rto'' ''d'' ''a'' rc_empty = (Inr a, db1)"
    by (simp add: enterDegradedMode_def demo_now rc_empty_def has_key_def audit_def appendBackupAudit_def
        demo_host_def audit_insert_ok [OF demo_now] audit_actions_def Let_def)
  moreover from a obtain c db2 where c: "?f CRITICAL_CONFIG ''rpo'' ''e'' ''b'' db1 = (Inr c, db2)"
    by (auto simp: enterDegradedMode_def demo_now rc_empty_def has_key_def audit_def appendBackupAudit_def
        demo_host_def audit_insert_ok [OF demo_now] audit_actions_def Let_def)
  moreover have "select dg_active (rc_degraded rc_empty) = []" by (simp add: rc_empty_def select_def)
  ultimately show ?thesis using critical_miss_hidden_by_raw [OF _ a c] by simp
qed

end
