(* ===== verification/Recovery_Drill.thy ===== *)
theory Recovery_Drill
  imports Recovery_Facts Workflow_Lease Alert_Outbox
begin

text \<open>
  The destructive restore drill and the reconciliation after a recovery,
  \<open>runDestructiveRestoreDrill\<close> and \<open>reconcileAfterRecovery\<close> of
  packages/workflow-runtime/src/recovery-continuity.ts.

  Both read the tables of the other components: the durable core (\<open>wf_db\<close>), the leases, the alerts
  and their outbox (\<open>alert_db\<close>), and a few tables no modelled component writes. Both run the
  verification of the audit log, whose loop may not end on a log with equal digests: \<open>None\<close> is
  that case.
\<close>

section \<open>Tables\<close>

record run_config_row =
  cf_id :: string
  cf_resolved :: json
  cf_hash :: string

record checkpoint_row =
  cp_partition :: string
  cp_slot :: int
  cp_sequence :: int

record recovery_env =
  ev_core :: wf_db
  ev_leases :: "lease_row list"
  ev_alerts :: alert_db
  ev_configs :: "run_config_row list"
  ev_artifacts :: "(string \<times> string) list"
  ev_audit :: "(string \<times> string option) list"
  ev_migrations :: "string list"
  ev_evaluations :: "(string \<times> string) list"
  ev_checkpoints :: "checkpoint_row list"

datatype drill_status = DrRUNNING | DrPASSED | DrFAILED

record drill_row =
  dr_id :: string
  dr_tier :: tier
  dr_started_at :: int
  dr_completed_at :: "int option"
  dr_target_rpo :: int
  dr_target_rto :: int
  dr_achieved_rpo :: "int option"
  dr_achieved_rto :: "int option"
  dr_artifacts :: bool
  dr_audit :: bool
  dr_migrations :: bool
  dr_references :: bool
  dr_checkpoints :: bool
  dr_gaps :: nat
  dr_status :: drill_status

record recon_flags =
  rf_provider_calls :: bool
  rf_quota :: bool
  rf_leases :: bool
  rf_inbox :: bool
  rf_outbox :: bool
  rf_alerts :: bool
  rf_gaps :: bool
  rf_artifacts :: bool
  rf_audit :: bool
  rf_fencing :: bool

record recon_row =
  rr_id :: string
  rr_recovery :: string
  rr_flags :: recon_flags
  rr_stale :: nat
  rr_resumed_at :: "int option"
  rr_degraded :: bool
  rr_created_at :: int
  rr_updated_at :: int

record rd_db =
  rd_rc :: rc_db
  rd_drills :: "drill_row list"
  rd_recon :: "recon_row list"

definition in_rc :: "(rc_db \<Rightarrow> 'a result \<times> rc_db) \<Rightarrow> rd_db \<Rightarrow> 'a result \<times> rd_db" where
  "in_rc f db = (case f (rd_rc db) of (x, s) \<Rightarrow> (x, db\<lparr>rd_rc := s\<rparr>))"

section \<open>Checks shared by the drill and the reconciliation\<close>

fun tier_rpo :: "tier \<Rightarrow> int" where
  "tier_rpo CRITICAL_CONFIG = 15"
| "tier_rpo CRITICAL_OBSERVATIONS = 60"
| "tier_rpo REPLAYABLE_RAW = 1440"

fun tier_rto :: "tier \<Rightarrow> int" where
  "tier_rto CRITICAL_CONFIG = 30"
| "tier_rto CRITICAL_OBSERVATIONS = 60"
| "tier_rto REPLAYABLE_RAW = 240"

text \<open>The regular expression \<open>/^[a-f0-9]{64}$/\<close>.\<close>

definition hex64 :: "string \<Rightarrow> bool" where
  "hex64 s = (length s = 64 \<and> list_all (\<lambda>c. c \<in> set ''0123456789abcdef'') s)"

definition artifacts_ok :: "recovery_env \<Rightarrow> bool" where
  "artifacts_ok e = list_all (\<lambda>(k, sha256). hex64 sha256) (ev_artifacts e)"

text \<open>The loop over \<open>audit_records\<close> in the order of their recording.\<close>

fun records_chained :: "string option \<Rightarrow> (string \<times> string option) list \<Rightarrow> bool" where
  "records_chained prev [] = True"
| "records_chained prev ((h, p) # rs) =
     (if \<not> hex64 h then False else if p \<noteq> prev then False else records_chained (Some h) rs)"

definition audit_verified :: "(string \<Rightarrow> string) \<Rightarrow> recovery_env \<Rightarrow> rc_db \<Rightarrow> bool option" where
  "audit_verified sha e db =
     (case verifyBackupAuditChain sha (rc_audit db) of
        None \<Rightarrow> None
      | Some v \<Rightarrow> Some (if cv_valid v then records_chained None (ev_audit e) else False))"

definition observation_count :: "recovery_env \<Rightarrow> string \<Rightarrow> nat" where
  "observation_count e p = length (select (\<lambda>o'. os_asset o' = p) (od_observations (ev_alerts e)))"

section \<open>runDestructiveRestoreDrill\<close>

definition expected_migrations :: "string list" where
  "expected_migrations =
     [''0001_bootstrap_foundation'', ''0002_durable_workflow_core'', ''0003_alert_lifecycle_and_outbox'',
      ''0004_scheduling_control_plane'', ''0005_durable_recovery_continuity'']"

definition migrations_replayed :: "recovery_env \<Rightarrow> bool" where
  "migrations_replayed e = list_all (\<lambda>v. v \<in> set (ev_migrations e)) expected_migrations"

text \<open>The two \<open>LEFT JOIN\<close> queries for references that lead nowhere.\<close>

definition orphan_runs :: "recovery_env \<Rightarrow> string list" where
  "orphan_runs e = map rn_id (select (\<lambda>r. rn_trigger r \<noteq> None \<and>
     \<not> list_ex (\<lambda>ti. ti_run ti = Some (rn_id r)) (db_inbox (ev_core e))) (db_runs (ev_core e)))"

definition evaluation_orphans :: "recovery_env \<Rightarrow> string list" where
  "evaluation_orphans e =
     map fst (select (\<lambda>(i, k). k \<notin> fst ` set (ev_artifacts e)) (ev_evaluations e))"

definition references_restored :: "recovery_env \<Rightarrow> bool" where
  "references_restored e = (orphan_runs e = [] \<and> evaluation_orphans e = [])"

definition hidden_gaps :: "recovery_env \<Rightarrow> nat" where
  "hidden_gaps e =
     length (select (\<lambda>cp. observation_count e (cp_partition cp) = 0) (ev_checkpoints e))"

text \<open>\<open>Math.max(0, Math.round(ms / 60000))\<close>.\<close>

definition rounded_minutes :: "int \<Rightarrow> int" where
  "rounded_minutes ms = max 0 (math_round (rat_of_int ms / 60000))"

record drill_input =
  din_id :: "string option"
  din_tier :: tier
  din_backup :: string
  din_now :: string
  din_actor :: string
  din_role :: role

record drill_outcome =
  do_id :: string
  do_tier :: tier
  do_achieved_rpo :: int
  do_achieved_rto :: int
  do_target_rpo :: int
  do_target_rto :: int
  do_meets_rpo :: bool
  do_meets_rto :: bool
  do_artifacts :: bool
  do_audit :: bool
  do_migrations :: bool
  do_references :: bool
  do_checkpoints :: bool
  do_gaps :: nat
  do_status :: drill_status
  do_degraded :: bool

text \<open>What the host provides to one drill: the random identifiers and three readings of the
  clock, at the start, at the end, and of \<open>completedAt\<close>.\<close>

record drill_host =
  dh_uuid :: string
  dh_started :: string
  dh_completed :: string
  dh_degraded :: string
  dh_degraded_audit :: string
  dh_start :: int
  dh_end :: int
  dh_done :: int

definition drill_id :: "drill_host \<Rightarrow> drill_input \<Rightarrow> string" where
  "drill_id k i = (case din_id i of Some x \<Rightarrow> x
     | None \<Rightarrow> ''drill-'' @ to_lower (tier_text (din_tier i)) @ ''-'' @ take 8 (dh_uuid k))"

text \<open>The \<open>INSERT\<close> of the running drill and its audit record.\<close>

definition start_drill :: "host \<Rightarrow> drill_host \<Rightarrow> drill_input \<Rightarrow> rd_db \<Rightarrow> int result \<times> rd_db" where
  "start_drill h k i db =
     (case dateParse (din_now i) of
        None \<Rightarrow> (Inl bad_timestamp, db)
      | Some t \<Rightarrow>
          if has_key dr_id (drill_id k i) (rd_drills db) then (Inl duplicate_key, db)
          else
            and_then (in_rc (audit h ''DRILL_STARTED'' (din_actor i)
                [(''drillId'', JStr (drill_id k i)), (''tier'', JStr (tier_text (din_tier i)))]
                (din_now i) (dh_started k))
              (db\<lparr>rd_drills := rd_drills db @ [\<lparr>dr_id = drill_id k i, dr_tier = din_tier i,
                 dr_started_at = t, dr_completed_at = None, dr_target_rpo = tier_rpo (din_tier i),
                 dr_target_rto = tier_rto (din_tier i), dr_achieved_rpo = None, dr_achieved_rto = None,
                 dr_artifacts = False, dr_audit = False, dr_migrations = False, dr_references = False,
                 dr_checkpoints = False, dr_gaps = 0, dr_status = DrRUNNING\<rparr>]\<rparr>))
              (\<lambda>_ db. (Inr t, db)))"

definition drill_result ::
  "recovery_env \<Rightarrow> drill_host \<Rightarrow> drill_input \<Rightarrow> int \<Rightarrow> backup_row \<Rightarrow> bool \<Rightarrow> drill_outcome" where
  "drill_result e k i nowMs backup auditOk =
     (let rpo = rounded_minutes (nowMs - bk_created_at backup);
          rto = rounded_minutes (dh_end k - dh_start k);
          meetsRpo = (rpo \<le> tier_rpo (din_tier i));
          meetsRto = (rto \<le> tier_rto (din_tier i));
          gaps = hidden_gaps e;
          passed = (artifacts_ok e \<and> auditOk \<and> migrations_replayed e \<and> references_restored e \<and>
            gaps = 0 \<and> meetsRpo \<and> meetsRto) in
      \<lparr>do_id = drill_id k i, do_tier = din_tier i, do_achieved_rpo = rpo, do_achieved_rto = rto,
       do_target_rpo = tier_rpo (din_tier i), do_target_rto = tier_rto (din_tier i),
       do_meets_rpo = meetsRpo, do_meets_rto = meetsRto, do_artifacts = artifacts_ok e,
       do_audit = auditOk, do_migrations = migrations_replayed e, do_references = references_restored e,
       do_checkpoints = (gaps = 0), do_gaps = gaps, do_status = (if passed then DrPASSED else DrFAILED),
       do_degraded = (\<not> meetsRpo \<or> \<not> meetsRto)\<rparr>)"

definition complete_row :: "drill_host \<Rightarrow> drill_outcome \<Rightarrow> drill_row \<Rightarrow> drill_row" where
  "complete_row k o' r =
     r\<lparr>dr_completed_at := Some (dh_done k), dr_achieved_rpo := Some (do_achieved_rpo o'),
       dr_achieved_rto := Some (do_achieved_rto o'), dr_artifacts := do_artifacts o',
       dr_audit := do_audit o', dr_migrations := do_migrations o', dr_references := do_references o',
       dr_checkpoints := do_checkpoints o', dr_gaps := do_gaps o', dr_status := do_status o'\<rparr>"

fun show_status :: "drill_status \<Rightarrow> string" where
  "show_status DrRUNNING = ''RUNNING''"
| "show_status DrPASSED = ''PASSED''"
| "show_status DrFAILED = ''FAILED''"

definition miss_reason :: "drill_outcome \<Rightarrow> string" where
  "miss_reason o' =
     ''RPO/RTO miss: achieved RPO '' @ show_int (do_achieved_rpo o') @ ''m (target '' @
     show_int (do_target_rpo o') @ ''m), RTO '' @ show_int (do_achieved_rto o') @ ''m (target '' @
     show_int (do_target_rto o') @ ''m)''"

definition finish_drill :: "host \<Rightarrow> drill_host \<Rightarrow> drill_input \<Rightarrow> drill_outcome \<Rightarrow> rd_db \<Rightarrow> drill_outcome result \<times> rd_db" where
  "finish_drill h k i o' db =
     (let completedAt = iso_text (dh_done k) in
      and_then (in_rc (audit h ''DRILL_COMPLETED'' (din_actor i)
          [(''drillId'', JStr (do_id o')), (''status'', JStr (show_status (do_status o'))),
           (''achievedRpoMinutes'', JNum (do_achieved_rpo o')),
           (''achievedRtoMinutes'', JNum (do_achieved_rto o'))] completedAt (dh_completed k))
        (db\<lparr>rd_drills := update_where (\<lambda>r. dr_id r = do_id o') (complete_row k o') (rd_drills db)\<rparr>))
      (\<lambda>_ db.
        if \<not> do_meets_rpo o' \<or> \<not> do_meets_rto o'
        then and_then (in_rc (enterDegradedMode h (din_tier i) (miss_reason o') completedAt
               (dh_degraded k) (dh_degraded_audit k)) db) (\<lambda>_ db. (Inr o', db))
        else (Inr o', db)))"

definition runDestructiveRestoreDrill ::
  "host \<Rightarrow> recovery_env \<Rightarrow> drill_host \<Rightarrow> drill_input \<Rightarrow> rd_db \<Rightarrow> (drill_outcome result \<times> rd_db) option" where
  "runDestructiveRestoreDrill h e k i db =
     (case start_drill h k i db of
        (Inl err, db) \<Rightarrow> Some (Inl err, db)
      | (Inr nowMs, db) \<Rightarrow>
          (case row_of bk_id (rc_backups (rd_rc db)) (din_backup i) of
             None \<Rightarrow> Some (Inl (Error ''BACKUP_RECORD_NOT_FOUND''), db)
           | Some backup \<Rightarrow>
               (case audit_verified (ho_sha h) e (rd_rc db) of
                  None \<Rightarrow> None
                | Some auditOk \<Rightarrow>
                    Some (finish_drill h k i (drill_result e k i nowMs backup auditOk) db))))"

section \<open>reconcileAfterRecovery\<close>

definition empty_text :: "string option \<Rightarrow> bool" where
  "empty_text s = (case s of None \<Rightarrow> True | Some x \<Rightarrow> x = [])"

definition provider_calls_ok :: "recovery_env \<Rightarrow> bool" where
  "provider_calls_ok e =
     list_all (\<lambda>s. \<not> empty_text (sp_lease_owner s) \<and> sp_lease_expires_at s \<noteq> None)
       (select (\<lambda>s. sp_status s = SRUNNING) (db_steps (ev_core e)))"

definition is_object :: "json \<Rightarrow> bool" where
  "is_object j = (case j of JObj _ \<Rightarrow> True | JArr _ \<Rightarrow> True | _ \<Rightarrow> False)"

definition quota_ok :: "recovery_env \<Rightarrow> bool" where
  "quota_ok e = list_all (\<lambda>c. is_object (cf_resolved c) \<and> cf_hash c \<noteq> []) (ev_configs e)"

text \<open>\<open>Number.isNaN(toMs(...))\<close> is never true: \<open>toMs\<close> answers 0 for what is no time stamp.\<close>

definition leases_ok :: "recovery_env \<Rightarrow> bool" where
  "leases_ok e = list_all (\<lambda>l. 0 < lr_version l \<and> lr_key l \<noteq> [] \<and> lr_owner l \<noteq> []) (ev_leases e)"

definition past :: "string \<Rightarrow> int \<Rightarrow> bool" where
  "past now t = (case dateParse now of None \<Rightarrow> False | Some ms \<Rightarrow> t \<le> ms)"

definition stale_of_step :: "recovery_env \<Rightarrow> string \<Rightarrow> step_row \<Rightarrow> nat" where
  "stale_of_step e now s =
     (if empty_text (sp_lease_owner s) then 0
      else case row_of lr_key (ev_leases e) (''lease-'' @ sp_id s) of
        None \<Rightarrow> 1
      | Some current \<Rightarrow>
          (if Some (lr_owner current) \<noteq> sp_lease_owner s \<or> lr_version current \<noteq> sp_lease_version s
           then 1 else 0) + (if past now (lr_expires_at current) then 1 else 0))"

definition stale_tokens :: "recovery_env \<Rightarrow> string \<Rightarrow> nat" where
  "stale_tokens e now =
     length (select (\<lambda>l. past now (lr_expires_at l)) (ev_leases e)) +
     sum_list (map (stale_of_step e now) (db_steps (ev_core e)))"

definition inbox_ok :: "recovery_env \<Rightarrow> bool" where
  "inbox_ok e =
     list_all (\<lambda>r. trim (ti_payload_hash r) \<noteq> [] \<and>
         \<not> (ti_status r = TPROCESSED \<and> empty_text (ti_run r)) \<and>
         ti_status r \<in> set [TRECEIVED, TPROCESSING, TPROCESSED, TDUPLICATE, TFAILED])
       (db_inbox (ev_core e))"

definition outbox_ok :: "recovery_env \<Rightarrow> bool" where
  "outbox_ok e =
     list_all (\<lambda>m. or_topic m \<noteq> [] \<and> or_trace m \<noteq> [] \<and> 0 \<le> or_attempts m \<and>
         show_outbox_state (or_state m) \<in> set [''PENDING'', ''DELIVERED'', ''RETRY'', ''EXPIRED''])
       (od_outbox (ev_alerts e))"

definition alerts_ok :: "recovery_env \<Rightarrow> bool" where
  "alerts_ok e =
     list_all (\<lambda>a. ar_fingerprint a \<noteq> [] \<and> trim (ar_sha256 a) \<noteq> [] \<and>
         ar_class a \<in> set [EARLY_WATCH, CONFIRMED_OPPORTUNITY, THESIS_STRENGTHENING, THESIS_WEAKENING,
           OPPORTUNITY_EXPIRED, RISK_ALERT] \<and>
         ar_actionability a \<in> set [ACTIONABLE, DETERIORATED, EXPIRED, CANCELLED, WATCH_ONLY])
       (od_alerts (ev_alerts e))"

definition gaps_ok :: "recovery_env \<Rightarrow> bool" where
  "gaps_ok e =
     list_all (\<lambda>cp. 0 \<le> cp_slot cp \<and> 0 \<le> cp_sequence cp \<and>
         \<not> (0 < cp_slot cp \<and> observation_count e (cp_partition cp) = 0)) (ev_checkpoints e)"

definition recon_flags_of :: "recovery_env \<Rightarrow> bool \<Rightarrow> recon_flags" where
  "recon_flags_of e auditOk =
     \<lparr>rf_provider_calls = provider_calls_ok e, rf_quota = quota_ok e, rf_leases = leases_ok e,
      rf_inbox = inbox_ok e, rf_outbox = outbox_ok e, rf_alerts = alerts_ok e, rf_gaps = gaps_ok e,
      rf_artifacts = artifacts_ok e, rf_audit = auditOk, rf_fencing = leases_ok e\<rparr>"

definition all_reconciled :: "recon_flags \<Rightarrow> bool" where
  "all_reconciled f =
     (rf_provider_calls f \<and> rf_quota f \<and> rf_leases f \<and> rf_inbox f \<and> rf_outbox f \<and> rf_alerts f \<and>
      rf_gaps f \<and> rf_artifacts f \<and> rf_audit f \<and> rf_fencing f)"

record recon_input =
  rcn_id :: string
  rcn_now :: string
  rcn_actor :: "string option"

record recon_result =
  rs_id :: string
  rs_reconciled :: bool
  rs_stale :: nat
  rs_degraded :: bool
  rs_resume :: bool

text \<open>The \<open>INSERT\<close> or the \<open>UPDATE\<close> of \<open>recovery_reconciliation_state\<close>.\<close>

definition store_recon ::
  "recon_input \<Rightarrow> recon_flags \<Rightarrow> nat \<Rightarrow> bool \<Rightarrow> bool \<Rightarrow> rd_db \<Rightarrow> unit result \<times> rd_db" where
  "store_recon i f stale degraded canResume db =
     (case dateParse (rcn_now i) of
        None \<Rightarrow> (Inl bad_timestamp, db)
      | Some t \<Rightarrow>
          if \<not> has_key rr_recovery (rcn_id i) (rd_recon db) then
            if has_key rr_id (''recon-'' @ rcn_id i) (rd_recon db) then (Inl duplicate_key, db)
            else (Inr (), db\<lparr>rd_recon := rd_recon db @ [\<lparr>rr_id = ''recon-'' @ rcn_id i,
                   rr_recovery = rcn_id i, rr_flags = f, rr_stale = stale,
                   rr_resumed_at = (if canResume then Some t else None), rr_degraded = degraded,
                   rr_created_at = t, rr_updated_at = t\<rparr>]\<rparr>)
          else (Inr (), db\<lparr>rd_recon := update_where (\<lambda>r. rr_recovery r = rcn_id i)
                  (\<lambda>r. r\<lparr>rr_flags := f, rr_stale := stale,
                     rr_resumed_at := (if canResume then Some t else None), rr_degraded := degraded,
                     rr_updated_at := t\<rparr>) (rd_recon db)\<rparr>))"

definition reconcileAfterRecovery ::
  "host \<Rightarrow> recovery_env \<Rightarrow> string \<Rightarrow> string \<Rightarrow> recon_input \<Rightarrow> rd_db \<Rightarrow> (recon_result result \<times> rd_db) option" where
  "reconcileAfterRecovery h e auditId degradedAuditId i db =
     (case audit_verified (ho_sha h) e (rd_rc db) of
        None \<Rightarrow> None
      | Some auditOk \<Rightarrow>
          (let f = recon_flags_of e auditOk;
               stale = stale_tokens e (rcn_now i);
               degraded = (\<not> (rf_artifacts f \<and> rf_audit f));
               allReconciled = all_reconciled f;
               canResume = (allReconciled \<and> \<not> degraded);
               actor = (case rcn_actor i of None \<Rightarrow> ''system'' | Some a \<Rightarrow> a) in
           Some (
             and_then (store_recon i f stale degraded canResume db) (\<lambda>_ db.
             and_then (if allReconciled
                then and_then (in_rc (audit h ''RECONCILIATION_COMPLETED'' actor
                       [(''recoveryId'', JStr (rcn_id i)), (''staleTokensRejected'', JNum (int stale)),
                        (''degraded'', JBool degraded)] (rcn_now i) auditId) db) (\<lambda>_ db. (Inr (), db))
                else (Inr (), db)) (\<lambda>_ db.
             and_then (if degraded
                then and_then (in_rc (enterDegradedMode h CRITICAL_CONFIG
                       ''Reconciliation degraded: artifacts/audit failed'' (rcn_now i)
                       (''degraded-recon-'' @ rcn_id i) degradedAuditId) db) (\<lambda>_ db. (Inr (), db))
                else (Inr (), db)) (\<lambda>_ db.
             (Inr \<lparr>rs_id = rcn_id i, rs_reconciled = allReconciled, rs_stale = stale,
                rs_degraded = degraded, rs_resume = canResume\<rparr>, db)))))))"

end
