(* ===== verification/Recovery_Claims.thy ===== *)
theory Recovery_Claims
  imports Recovery_Drill
begin

text \<open>
  When automation may resume after a recovery, what a passed drill says, and the second
  reconciliation of a degraded recovery.
\<close>

section \<open>Reading the checks\<close>

lemma math_round_le: "math_round x \<le> n \<longleftrightarrow> x < rat_of_int n + 1 / 2"
  by (auto simp: math_round_def floor_le_iff)

lemma rounded_minutes_le:
  assumes "0 \<le> n"
  shows "rounded_minutes ms \<le> n \<longleftrightarrow> ms < n * 60000 + 30000"
proof -
  have "rounded_minutes ms \<le> n \<longleftrightarrow> rat_of_int ms / 60000 < rat_of_int n + 1 / 2"
    using assms by (simp add: rounded_minutes_def math_round_le)
  also have "\<dots> \<longleftrightarrow> rat_of_int ms < rat_of_int (n * 60000 + 30000)"
    by (simp add: field_simps)
  also have "\<dots> \<longleftrightarrow> ms < n * 60000 + 30000" by (rule of_int_less_iff)
  finally show ?thesis .
qed

lemma tier_targets: "0 \<le> tier_rpo tr" "0 \<le> tier_rto tr"
  by (cases tr; simp)+

lemma records_chained_prefix: "records_chained prev (xs @ ys) \<Longrightarrow> records_chained prev xs"
  by (induction prev xs rule: records_chained.induct) (auto split: if_splits)

lemma audit_verified_iff:
  assumes "collision_free sha (rc_audit db)" "audit_verified sha e db = Some ok"
  shows "ok \<longleftrightarrow> one_chain sha (rc_audit db) \<and> records_chained None (ev_audit e)"
proof -
  obtain v where v: "verifyBackupAuditChain sha (rc_audit db) = Some v"
    "ok = (if cv_valid v then records_chained None (ev_audit e) else False)"
    using assms(2) by (auto simp: audit_verified_def split: option.splits)
  moreover have "cv_valid v \<longleftrightarrow> one_chain sha (rc_audit db)"
    using verify_valid_linked [OF v(1) _ assms(1)] verify_iff_chain [OF assms(1)] v(1)
    by (auto simp: one_chain_def chain_valid_def)
  ultimately show ?thesis by simp
qed

lemma in_rc_pair: "in_rc f db = (x, s) \<Longrightarrow> f (rd_rc db) = (x, rd_rc s) \<and> rd_drills s = rd_drills db \<and> rd_recon s = rd_recon db"
  by (auto simp: in_rc_def split: prod.splits)

lemma and_then_InrE:
  assumes "and_then r f = (Inr b, s')"
  obtains a s where "r = (Inr a, s)" "f a s = (Inr b, s')"
  using assms by (cases r; cases "fst r") auto

lemma if_then_InrE:
  assumes "(if c then r else (Inr (), db)) = (Inr u, s)"
  obtains "c" "r = (Inr u, s)" | "\<not> c" "s = db"
  using assms by (auto split: if_splits)

section \<open>The drill\<close>

lemma drill_Inr:
  assumes "runDestructiveRestoreDrill h e k i db = Some (Inr o', db')"
  obtains t s backup ok where "start_drill h k i db = (Inr t, s)"
    "row_of bk_id (rc_backups (rd_rc s)) (din_backup i) = Some backup"
    "audit_verified (ho_sha h) e (rd_rc s) = Some ok" "o' = drill_result e k i t backup ok"
    "finish_drill h k i o' s = (Inr o', db')"
proof -
  obtain t s where s: "start_drill h k i db = (Inr t, s)"
    using assms by (auto simp: runDestructiveRestoreDrill_def split: prod.splits sum.splits)
  obtain backup where b: "row_of bk_id (rc_backups (rd_rc s)) (din_backup i) = Some backup"
    using assms s by (auto simp: runDestructiveRestoreDrill_def split: option.splits)
  obtain ok where v: "audit_verified (ho_sha h) e (rd_rc s) = Some ok"
    "finish_drill h k i (drill_result e k i t backup ok) s = (Inr o', db')"
    using assms s b by (auto simp: runDestructiveRestoreDrill_def split: option.splits)
  have "o' = drill_result e k i t backup ok"
    using v(2) unfolding finish_drill_def Let_def
    by (auto elim!: and_then_InrE split: if_splits)
  with s b v that show thesis by simp
qed

lemma start_drill_backups:
  assumes "start_drill h k i db = (Inr t, s)"
  shows "rc_backups (rd_rc s) = rc_backups (rd_rc db)" "dateParse (din_now i) = Some t"
    "rc_degraded (rd_rc s) = rc_degraded (rd_rc db)"
  using assms
  by (auto simp: start_drill_def audit_pair dest!: in_rc_pair elim!: and_then_InrE split: option.splits if_splits)

lemma finish_drill_degraded:
  assumes "finish_drill h k i o' s = (Inr o'', db')"
  shows "(\<exists>r. rc_degraded (rd_rc db') = rc_degraded (rd_rc s) @ [r] \<and> dg_tier r = din_tier i \<and> dg_active r) \<longleftrightarrow>
      \<not> (do_meets_rpo o' \<and> do_meets_rto o')"
proof -
  obtain a s1 where a: "in_rc (audit h ''DRILL_COMPLETED'' (din_actor i)
          [(''drillId'', JStr (do_id o')), (''status'', JStr (show_status (do_status o'))),
           (''achievedRpoMinutes'', JNum (do_achieved_rpo o')),
           (''achievedRtoMinutes'', JNum (do_achieved_rto o'))] (iso_text (dh_done k)) (dh_completed k))
        (s\<lparr>rd_drills := update_where (\<lambda>r. dr_id r = do_id o') (complete_row k o') (rd_drills s)\<rparr>) = (Inr a, s1)"
    and f: "(if \<not> do_meets_rpo o' \<or> \<not> do_meets_rto o'
        then and_then (in_rc (enterDegradedMode h (din_tier i) (miss_reason o') (iso_text (dh_done k))
               (dh_degraded k) (dh_degraded_audit k)) s1) (\<lambda>_ db. (Inr o', db))
        else (Inr o', s1)) = (Inr o'', db')"
    using assms unfolding finish_drill_def Let_def by (rule and_then_InrE)
  have s1: "rc_degraded (rd_rc s1) = rc_degraded (rd_rc s)"
    using in_rc_pair [OF a] by (auto dest: audit_pair)
  show ?thesis
  proof (cases "do_meets_rpo o' \<and> do_meets_rto o'")
    case True
    with f s1 show ?thesis by simp
  next
    case False
    with f obtain x where "in_rc (enterDegradedMode h (din_tier i) (miss_reason o') (iso_text (dh_done k))
        (dh_degraded k) (dh_degraded_audit k)) s1 = (Inr x, db')"
      by (auto elim!: and_then_InrE)
    then have "enterDegradedMode h (din_tier i) (miss_reason o') (iso_text (dh_done k))
        (dh_degraded k) (dh_degraded_audit k) (rd_rc s1) = (Inr x, rd_rc db')"
      by (auto dest: in_rc_pair)
    then show ?thesis by (rule enterDegradedMode_rows) (use False s1 in auto)
  qed
qed

section \<open>The reconciliation\<close>

lemma storable_shown:
  "show_outbox_state s \<in> set [''PENDING'', ''DELIVERED'', ''RETRY'', ''EXPIRED''] \<longleftrightarrow> storable_state s"
  by (cases s) (simp_all add: storable_state_def)

lemma store_recon_ok:
  assumes "store_recon i f stale degraded canResume db = (Inr u, s)"
  shows "rd_rc s = rd_rc db" "has_key rr_recovery (rcn_id i) (rd_recon s)"
    "\<forall>r\<in>set (rd_recon s). rr_recovery r = rcn_id i \<longrightarrow>
       rr_degraded r = degraded \<and> (rr_resumed_at r \<noteq> None \<longleftrightarrow> canResume)"
proof -
  obtain t where t: "dateParse (rcn_now i) = Some t"
    using assms by (cases "dateParse (rcn_now i)") (simp_all add: store_recon_def)
  show "rd_rc s = rd_rc db" using assms t by (auto simp: store_recon_def split: if_splits)
  show "has_key rr_recovery (rcn_id i) (rd_recon s)"
    using assms t by (auto simp: store_recon_def has_key_append has_key_update_where split: if_splits)
      (auto simp: has_key_def)
  show "\<forall>r\<in>set (rd_recon s). rr_recovery r = rcn_id i \<longrightarrow>
       rr_degraded r = degraded \<and> (rr_resumed_at r \<noteq> None \<longleftrightarrow> canResume)"
  proof (cases "has_key rr_recovery (rcn_id i) (rd_recon db)")
    case True
    let ?g = "\<lambda>r. r\<lparr>rr_flags := f, rr_stale := stale,
       rr_resumed_at := (if canResume then Some t else None), rr_degraded := degraded, rr_updated_at := t\<rparr>"
    have s: "rd_recon s = update_where (\<lambda>r. rr_recovery r = rcn_id i) ?g (rd_recon db)"
      using assms t True by (auto simp: store_recon_def)
    show ?thesis
    proof (intro ballI impI)
      fix r assume "r \<in> set (rd_recon s)" and k: "rr_recovery r = rcn_id i"
      then obtain q where q: "r = (if rr_recovery q = rcn_id i then ?g q else q)"
        unfolding s in_update_where by blast
      have "rr_recovery q = rcn_id i" using k q by (cases "rr_recovery q = rcn_id i") simp_all
      with q have "r = ?g q" by (simp only: if_True refl)
      then show "rr_degraded r = degraded \<and> (rr_resumed_at r \<noteq> None \<longleftrightarrow> canResume)" by simp
    qed
  next
    case False
    then have "\<forall>r\<in>set (rd_recon db). rr_recovery r \<noteq> rcn_id i" by (metis has_keyI)
    with False assms t show ?thesis by (auto simp: store_recon_def split: if_splits)
  qed
qed

lemma store_recon_again:
  assumes "has_key rr_recovery (rcn_id i) (rd_recon db)" "dateParse (rcn_now i) = Some t"
  obtains s where "store_recon i f stale degraded canResume db = (Inr (), s)" "rd_rc s = rd_rc db"
    "\<forall>r\<in>set (rd_recon s). rr_recovery r = rcn_id i \<longrightarrow> rr_degraded r = degraded"
proof -
  let ?s = "snd (store_recon i f stale degraded canResume db)"
  have e: "store_recon i f stale degraded canResume db = (Inr (), ?s)"
    using assms by (simp add: store_recon_def)
  from store_recon_ok [OF e] show thesis by (intro that [OF e]) blast+
qed

text \<open>A reconciliation that answers, step by step.\<close>

definition log_step :: "host \<Rightarrow> string \<Rightarrow> recon_input \<Rightarrow> bool \<Rightarrow> nat \<Rightarrow> bool \<Rightarrow> rd_db \<Rightarrow> unit result \<times> rd_db" where
  "log_step h aid i allReconciled stale degraded db =
     (if allReconciled
      then and_then (in_rc (audit h ''RECONCILIATION_COMPLETED''
             (case rcn_actor i of None \<Rightarrow> ''system'' | Some a \<Rightarrow> a)
             [(''recoveryId'', JStr (rcn_id i)), (''staleTokensRejected'', JNum (int stale)),
              (''degraded'', JBool degraded)] (rcn_now i) aid) db) (\<lambda>_ db. (Inr (), db))
      else (Inr (), db))"

definition degrade_step :: "host \<Rightarrow> string \<Rightarrow> recon_input \<Rightarrow> bool \<Rightarrow> rd_db \<Rightarrow> unit result \<times> rd_db" where
  "degrade_step h daid i degraded db =
     (if degraded
      then and_then (in_rc (enterDegradedMode h CRITICAL_CONFIG
             ''Reconciliation degraded: artifacts/audit failed'' (rcn_now i)
             (''degraded-recon-'' @ rcn_id i) daid) db) (\<lambda>_ db. (Inr (), db))
      else (Inr (), db))"

lemma reconcile_steps:
  assumes "audit_verified (ho_sha h) e (rd_rc db) = Some ok"
  shows "reconcileAfterRecovery h e aid daid i db =
    (let f = recon_flags_of e ok; stale = stale_tokens e (rcn_now i); degraded = (\<not> (artifacts_ok e \<and> ok));
         a = all_reconciled f in
     Some (and_then (store_recon i f stale degraded (a \<and> \<not> degraded) db) (\<lambda>_ db.
       and_then (log_step h aid i a stale degraded db) (\<lambda>_ db.
       and_then (degrade_step h daid i degraded db) (\<lambda>_ db.
       (Inr \<lparr>rs_id = rcn_id i, rs_reconciled = a, rs_stale = stale, rs_degraded = degraded,
          rs_resume = (a \<and> \<not> degraded)\<rparr>, db))))))"
  unfolding reconcileAfterRecovery_def assms option.case log_step_def degrade_step_def Let_def
    recon_flags_of_def recon_flags.select_convs ..

lemma reconcile_Inr:
  assumes "reconcileAfterRecovery h e aid daid i db = Some (Inr res, db')"
  obtains ok s1 s2 where "audit_verified (ho_sha h) e (rd_rc db) = Some ok"
    "rs_reconciled res = all_reconciled (recon_flags_of e ok)"
    "rs_degraded res \<longleftrightarrow> \<not> (artifacts_ok e \<and> ok)" "rs_resume res \<longleftrightarrow> rs_reconciled res \<and> \<not> rs_degraded res"
    "store_recon i (recon_flags_of e ok) (rs_stale res) (rs_degraded res) (rs_resume res) db = (Inr (), s1)"
    "log_step h aid i (rs_reconciled res) (rs_stale res) (rs_degraded res) s1 = (Inr (), s2)"
    "degrade_step h daid i (rs_degraded res) s2 = (Inr (), db')"
proof -
  obtain ok where ok: "audit_verified (ho_sha h) e (rd_rc db) = Some ok"
    using assms by (auto simp: reconcileAfterRecovery_def split: option.splits)
  let ?f = "recon_flags_of e ok" and ?st = "stale_tokens e (rcn_now i)" and ?d = "\<not> (artifacts_ok e \<and> ok)"
  let ?a = "all_reconciled ?f"
  from assms have e: "and_then (store_recon i ?f ?st ?d (?a \<and> \<not> ?d) db) (\<lambda>_ db.
       and_then (log_step h aid i ?a ?st ?d db) (\<lambda>_ db.
       and_then (degrade_step h daid i ?d db) (\<lambda>_ db.
       (Inr \<lparr>rs_id = rcn_id i, rs_reconciled = ?a, rs_stale = ?st, rs_degraded = ?d,
          rs_resume = (?a \<and> \<not> ?d)\<rparr>, db)))) = (Inr res, db')"
    unfolding reconcile_steps [OF ok] Let_def option.inject .
  obtain u1 s1 where s1: "store_recon i ?f ?st ?d (?a \<and> \<not> ?d) db = (Inr u1, s1)" and
    e1: "and_then (log_step h aid i ?a ?st ?d s1) (\<lambda>_ db. and_then (degrade_step h daid i ?d db) (\<lambda>_ db.
       (Inr \<lparr>rs_id = rcn_id i, rs_reconciled = ?a, rs_stale = ?st, rs_degraded = ?d,
          rs_resume = (?a \<and> \<not> ?d)\<rparr>, db))) = (Inr res, db')"
    using e by (rule and_then_InrE)
  obtain u2 s2 where s2: "log_step h aid i ?a ?st ?d s1 = (Inr u2, s2)" and
    e2: "and_then (degrade_step h daid i ?d s2) (\<lambda>_ db.
       (Inr \<lparr>rs_id = rcn_id i, rs_reconciled = ?a, rs_stale = ?st, rs_degraded = ?d,
          rs_resume = (?a \<and> \<not> ?d)\<rparr>, db)) = (Inr res, db')"
    using e1 by (rule and_then_InrE)
  obtain u3 s3 where s3: "degrade_step h daid i ?d s2 = (Inr u3, s3)" and
    e3: "(Inr \<lparr>rs_id = rcn_id i, rs_reconciled = ?a, rs_stale = ?st, rs_degraded = ?d,
          rs_resume = (?a \<and> \<not> ?d)\<rparr>, s3) = (Inr res, db')"
    using e2 by (rule and_then_InrE) blast
  have "res = \<lparr>rs_id = rcn_id i, rs_reconciled = ?a, rs_stale = ?st, rs_degraded = ?d,
          rs_resume = (?a \<and> \<not> ?d)\<rparr>" "s3 = db'" using e3 by blast+
  moreover have "u1 = ()" "u2 = ()" "u3 = ()" by simp_all
  ultimately show thesis using ok s1 s2 s3 by (intro that [of ok s1 s2]) (simp_all only: recon_result.select_convs)
qed

lemma log_step_same: "log_step h aid i a stale d s = (Inr u, s') \<Longrightarrow>
    rd_recon s' = rd_recon s \<and> rc_degraded (rd_rc s') = rc_degraded (rd_rc s)"
  by (auto simp: log_step_def dest!: in_rc_pair dest: audit_pair elim!: and_then_InrE split: if_splits)

lemma degrade_step_rows:
  assumes "degrade_step h daid i True s = (Inr u, s')"
  shows "has_key dg_id (''degraded-recon-'' @ rcn_id i) (rc_degraded (rd_rc s'))" "rd_recon s' = rd_recon s"
proof -
  obtain x where x: "in_rc (enterDegradedMode h CRITICAL_CONFIG
       ''Reconciliation degraded: artifacts/audit failed'' (rcn_now i)
       (''degraded-recon-'' @ rcn_id i) daid) s = (Inr x, s')"
    using assms unfolding degrade_step_def if_True by (auto elim!: and_then_InrE)
  note p = in_rc_pair [OF x]
  from p show "rd_recon s' = rd_recon s" by simp
  from p have "enterDegradedMode h CRITICAL_CONFIG
       ''Reconciliation degraded: artifacts/audit failed'' (rcn_now i)
       (''degraded-recon-'' @ rcn_id i) daid (rd_rc s) = (Inr x, rd_rc s')" by blast
  then show "has_key dg_id (''degraded-recon-'' @ rcn_id i) (rc_degraded (rd_rc s'))"
    by (rule enterDegradedMode_rows) (simp add: has_key_append, simp add: has_key_def)
qed

lemma degrade_step_same: "degrade_step h daid i False s = (Inr u, s') \<Longrightarrow> s' = s"
  by (simp add: degrade_step_def)

lemma degrade_step_recon: "degrade_step h daid i d s = (Inr u, s') \<Longrightarrow> rd_recon s' = rd_recon s"
  by (cases d) (auto dest: degrade_step_rows(2) degrade_step_same)

lemma degrade_step_taken:
  assumes "has_key dg_id (''degraded-recon-'' @ rcn_id i) (rc_degraded (rd_rc s))" "dateParse (rcn_now i) = Some t"
  shows "degrade_step h daid i True s = (Inl duplicate_key, s)"
  using assms unfolding degrade_step_def in_rc_def enterDegradedMode_def Let_def by simp

section \<open>A small environment for the witnesses\<close>

definition demo_env :: "(string \<times> string) list \<Rightarrow> recovery_env" where
  "demo_env artifacts = \<lparr>ev_core = empty_db, ev_leases = [],
     ev_alerts = \<lparr>od_observations = [], od_alerts = [], od_outbox = [], od_sent = []\<rparr>,
     ev_configs = [], ev_artifacts = artifacts, ev_audit = [], ev_migrations = expected_migrations,
     ev_evaluations = [], ev_checkpoints = []\<rparr>"

definition demo_rd :: "rc_db \<Rightarrow> rd_db" where
  "demo_rd db = \<lparr>rd_rc = db, rd_drills = [], rd_recon = []\<rparr>"

definition demo_recon :: "recon_input" where
  "demo_recon = \<lparr>rcn_id = ''r'', rcn_now = ''1970-01-01'', rcn_actor = None\<rparr>"

lemma audit_verified_Nil: "rc_audit db = [] \<Longrightarrow> audit_verified sha (demo_env a) db = Some True"
  by (simp add: audit_verified_def verifyBackupAuditChain_def chain_valid_def demo_env_def)

lemma audit_verified_total: "collision_free sha (rc_audit db) \<Longrightarrow> \<exists>ok. audit_verified sha e db = Some ok"
  using verify_total [of sha "rc_audit db"] by (auto simp: audit_verified_def)

lemma demo_in_audit:
  assumes "action \<in> set audit_actions" "\<not> has_key au_id rid (rc_audit (rd_rc db))" "dateParse now = Some t"
  obtains a r where "in_rc (audit demo_host action actor p now rid) db =
      (Inr a, db\<lparr>rd_rc := (rd_rc db)\<lparr>rc_audit := rc_audit (rd_rc db) @ [r]\<rparr>\<rparr>)" "au_id r = rid"
  using audit_insert_ok [OF assms(3,1,2), of demo_sha "audit_head (rc_audit (rd_rc db))" actor p "\<lambda>p. p"] that
  by (simp add: in_rc_def audit_def appendBackupAudit_def demo_host_def Let_def)

lemma demo_first_recon:
  obtains res db1 r where "reconcileAfterRecovery demo_host (demo_env [(''key'', ''z'')]) ''a'' ''b'' demo_recon (demo_rd rc_empty)
      = Some (Inr res, db1)" "rs_degraded res" "rc_audit (rd_rc db1) = [r]"
proof -
  have a: "audit_verified (ho_sha demo_host) (demo_env [(''key'', ''z'')]) (rd_rc (demo_rd rc_empty)) = Some True"
    by (rule audit_verified_Nil) (simp add: demo_rd_def rc_empty_def)
  have n: "\<not> artifacts_ok (demo_env [(''key'', ''z'')])"
    by (simp add: artifacts_ok_def demo_env_def hex64_def)
  let ?f = "recon_flags_of (demo_env [(''key'', ''z'')]) True"
  have f: "\<not> all_reconciled ?f" using n by (simp add: all_reconciled_def recon_flags_of_def)
  obtain s where s: "store_recon demo_recon ?f (stale_tokens (demo_env [(''key'', ''z'')]) ''1970-01-01'') True False
      (demo_rd rc_empty) = (Inr (), s)" "rd_rc s = rc_empty"
    by (simp add: store_recon_def demo_recon_def demo_now demo_rd_def has_key_def)
  obtain s' r where d: "degrade_step demo_host ''b'' demo_recon True s = (Inr (), s')" "rc_audit (rd_rc s') = [r]"
    using s(2) by (simp add: degrade_step_def in_rc_def enterDegradedMode_def demo_recon_def demo_now rc_empty_def
        has_key_def audit_def appendBackupAudit_def demo_host_def audit_insert_ok [OF demo_now]
        audit_actions_def Let_def)
  have "rcn_now demo_recon = ''1970-01-01''" by (simp add: demo_recon_def)
  with s(1) d(1) n f have "reconcileAfterRecovery demo_host (demo_env [(''key'', ''z'')]) ''a'' ''b'' demo_recon
      (demo_rd rc_empty) = Some (Inr \<lparr>rs_id = rcn_id demo_recon, rs_reconciled = False,
        rs_stale = stale_tokens (demo_env [(''key'', ''z'')]) ''1970-01-01'', rs_degraded = True,
        rs_resume = False\<rparr>, s')"
    by (simp add: reconcile_steps [OF a] log_step_def Let_def)
  then show thesis by (rule that) (simp, rule d(2))
qed

section \<open>Properties\<close>

text \<open>A drill that answers has passed exactly when every artifact digest is well formed, both
  audit logs are unbroken, every migration is recorded, no reference is dangling, no checkpoint is
  without observations, and the age of the backup and the duration of the drill are less than half
  a minute above the targets of the tier; and it leaves the tier degraded exactly when one of these
  two targets is missed.\<close>

theorem drill_passes_exactly:
  assumes "runDestructiveRestoreDrill h e k i db = Some (Inr o', db')"
    and "collision_free (ho_sha h) (rc_audit (rd_rc (snd (start_drill h k i db))))"
  shows "\<exists>t backup. dateParse (din_now i) = Some t \<and>
    row_of bk_id (rc_backups (rd_rc db)) (din_backup i) = Some backup \<and>
    (do_meets_rpo o' \<longleftrightarrow> t - bk_created_at backup < tier_rpo (din_tier i) * 60000 + 30000) \<and>
    (do_meets_rto o' \<longleftrightarrow> dh_end k - dh_start k < tier_rto (din_tier i) * 60000 + 30000) \<and>
    (do_status o' = DrPASSED \<longleftrightarrow>
       (\<forall>(key, sha256)\<in>set (ev_artifacts e). hex64 sha256) \<and>
       one_chain (ho_sha h) (rc_audit (rd_rc (snd (start_drill h k i db)))) \<and>
       records_chained None (ev_audit e) \<and> set expected_migrations \<subseteq> set (ev_migrations e) \<and>
       orphan_runs e = [] \<and> evaluation_orphans e = [] \<and>
       (\<forall>cp\<in>set (ev_checkpoints e). 0 < observation_count e (cp_partition cp)) \<and>
       do_meets_rpo o' \<and> do_meets_rto o') \<and>
    ((\<exists>r. rc_degraded (rd_rc db') = rc_degraded (rd_rc db) @ [r] \<and> dg_tier r = din_tier i \<and> dg_active r)
       \<longleftrightarrow> \<not> (do_meets_rpo o' \<and> do_meets_rto o'))"
proof -
  obtain t s backup ok where d: "start_drill h k i db = (Inr t, s)"
    "row_of bk_id (rc_backups (rd_rc s)) (din_backup i) = Some backup"
    "audit_verified (ho_sha h) e (rd_rc s) = Some ok" "o' = drill_result e k i t backup ok"
    "finish_drill h k i o' s = (Inr o', db')"
    using assms(1) by (rule drill_Inr)
  note b = start_drill_backups [OF d(1)]
  have ok: "ok \<longleftrightarrow> one_chain (ho_sha h) (rc_audit (rd_rc s)) \<and> records_chained None (ev_audit e)"
    using assms(2) d(1,3) by (intro audit_verified_iff) simp_all
  have g: "hidden_gaps e = 0 \<longleftrightarrow> (\<forall>cp\<in>set (ev_checkpoints e). 0 < observation_count e (cp_partition cp))"
    by (auto simp: hidden_gaps_def select_Nil_iff)
  have m: "do_meets_rpo o' \<longleftrightarrow> t - bk_created_at backup < tier_rpo (din_tier i) * 60000 + 30000"
    "do_meets_rto o' \<longleftrightarrow> dh_end k - dh_start k < tier_rto (din_tier i) * 60000 + 30000"
    by (simp_all add: d(4) drill_result_def Let_def rounded_minutes_le tier_targets)
  have p: "do_status o' = DrPASSED \<longleftrightarrow> artifacts_ok e \<and> ok \<and> migrations_replayed e \<and> references_restored e \<and>
      hidden_gaps e = 0 \<and> do_meets_rpo o' \<and> do_meets_rto o'"
    by (simp add: d(4) drill_result_def Let_def)
  have q: "artifacts_ok e \<longleftrightarrow> (\<forall>(key, sha256)\<in>set (ev_artifacts e). hex64 sha256)"
    "migrations_replayed e \<longleftrightarrow> set expected_migrations \<subseteq> set (ev_migrations e)"
    by (auto simp: artifacts_ok_def migrations_replayed_def list_all_iff)
  show ?thesis
    using b d(1,2) m finish_drill_degraded [OF d(5)]
    by (intro exI [of _ t] exI [of _ backup]) (simp add: p q g ok references_restored_def)
qed

definition demo_drill :: drill_input where
  "demo_drill = \<lparr>din_id = Some ''d'', din_tier = REPLAYABLE_RAW, din_backup = ''k'',
     din_now = ''1970-01-01'', din_actor = ''o'', din_role = Owner\<rparr>"

definition demo_readings :: drill_host where
  "demo_readings = \<lparr>dh_uuid = ''u'', dh_started = ''a'', dh_completed = ''b'', dh_degraded = ''e'',
     dh_degraded_audit = ''c'', dh_start = 0, dh_end = 0, dh_done = 0\<rparr>"

lemma demo_drill_steps:
  obtains s r ok db' where "start_drill demo_host demo_readings demo_drill (demo_rd demo_db) = (Inr 0, s)"
    "rc_audit (rd_rc s) = [r]"
    "runDestructiveRestoreDrill demo_host (demo_env []) demo_readings demo_drill (demo_rd demo_db) =
       Some (Inr (drill_result (demo_env []) demo_readings demo_drill 0 demo_backup ok), db')"
proof -
  let ?i = demo_drill and ?k = demo_readings and ?e = "demo_env []"
  let ?row = "\<lparr>dr_id = ''d'', dr_tier = REPLAYABLE_RAW, dr_started_at = 0, dr_completed_at = None,
    dr_target_rpo = 1440, dr_target_rto = 240, dr_achieved_rpo = None, dr_achieved_rto = None,
    dr_artifacts = False, dr_audit = False, dr_migrations = False, dr_references = False,
    dr_checkpoints = False, dr_gaps = 0, dr_status = DrRUNNING\<rparr>"
  let ?db = "(demo_rd demo_db)\<lparr>rd_drills := [?row]\<rparr>"
  have k: "''DRILL_STARTED'' \<in> set audit_actions" "\<not> has_key au_id ''a'' (rc_audit (rd_rc ?db))"
    by (simp add: audit_actions_def) (simp add: demo_rd_def demo_db_def rc_empty_def has_key_def)
  obtain a r where a: "in_rc (audit demo_host ''DRILL_STARTED'' ''o''
      [(''drillId'', JStr ''d''), (''tier'', JStr ''REPLAYABLE_RAW'')] ''1970-01-01'' ''a'') ?db =
      (Inr a, ?db\<lparr>rd_rc := (rd_rc ?db)\<lparr>rc_audit := rc_audit (rd_rc ?db) @ [r]\<rparr>\<rparr>)" and r: "au_id r = ''a''"
    by (rule demo_in_audit [OF k demo_now])
  let ?s = "?db\<lparr>rd_rc := (rd_rc ?db)\<lparr>rc_audit := rc_audit (rd_rc ?db) @ [r]\<rparr>\<rparr>"
  have id: "drill_id ?k ?i = ''d''" by (simp add: drill_id_def demo_drill_def)
  have start: "start_drill demo_host ?k ?i (demo_rd demo_db) = (Inr 0, ?s)"
    using a unfolding start_drill_def id
    by (simp add: demo_drill_def demo_readings_def demo_now demo_rd_def has_key_def)
  have au: "rc_audit (rd_rc ?s) = [r]" by (simp add: demo_rd_def demo_db_def rc_empty_def)
  have bk: "row_of bk_id (rc_backups (rd_rc ?s)) ''k'' = Some demo_backup"
    by (simp add: demo_rd_def demo_db_def row_of_def demo_backup_def)
  have "collision_free (ho_sha demo_host) (rc_audit (rd_rc ?s))" by (simp only: au) (simp add: collision_free_def)
  then obtain ok where ok: "audit_verified (ho_sha demo_host) ?e (rd_rc ?s) = Some ok"
    using audit_verified_total by blast
  let ?o = "drill_result ?e ?k ?i 0 demo_backup ok"
  have m: "do_meets_rpo ?o" "do_meets_rto ?o"
    by (simp_all add: drill_result_def Let_def rounded_minutes_le tier_targets demo_drill_def demo_backup_def
        demo_readings_def)
  let ?t = "?s\<lparr>rd_drills := update_where (\<lambda>r. dr_id r = do_id ?o) (complete_row ?k ?o) (rd_drills ?s)\<rparr>"
  have k2: "''DRILL_COMPLETED'' \<in> set audit_actions" "\<not> has_key au_id ''b'' (rc_audit (rd_rc ?t))"
    by (simp add: audit_actions_def) (simp add: r demo_rd_def demo_db_def rc_empty_def has_key_def)
  have d0: "dateParse (iso_text 0) = Some 0" by (simp add: dateParse_iso_text max_time_def)
  obtain b q where b: "in_rc (audit demo_host ''DRILL_COMPLETED'' ''o''
      [(''drillId'', JStr (do_id ?o)), (''status'', JStr (show_status (do_status ?o))),
       (''achievedRpoMinutes'', JNum (do_achieved_rpo ?o)), (''achievedRtoMinutes'', JNum (do_achieved_rto ?o))]
      (iso_text 0) ''b'') ?t =
      (Inr b, ?t\<lparr>rd_rc := (rd_rc ?t)\<lparr>rc_audit := rc_audit (rd_rc ?t) @ [q]\<rparr>\<rparr>)"
    by (rule demo_in_audit [OF k2 d0])
  have h: "dh_done ?k = 0" "dh_completed ?k = ''b''" "din_actor ?i = ''o''" "din_backup ?i = ''k''"
    by (simp_all add: demo_readings_def demo_drill_def)
  obtain db' where f: "finish_drill demo_host ?k ?i ?o ?s = (Inr ?o, db')"
    unfolding finish_drill_def Let_def h b and_then_simps using m by simp
  have "runDestructiveRestoreDrill demo_host ?e ?k ?i (demo_rd demo_db) = Some (Inr ?o, db')"
    unfolding runDestructiveRestoreDrill_def start prod.case sum.case h bk option.case ok f ..
  with start au show thesis by (rule that)
qed

theorem drill_passes_exactly_witness:
  "\<exists>ok db'. runDestructiveRestoreDrill demo_host (demo_env []) demo_readings demo_drill (demo_rd demo_db) =
     Some (Inr (drill_result (demo_env []) demo_readings demo_drill 0 demo_backup ok), db') \<and>
     do_meets_rpo (drill_result (demo_env []) demo_readings demo_drill 0 demo_backup ok)"
proof -
  obtain s r ok db' where d: "start_drill demo_host demo_readings demo_drill (demo_rd demo_db) = (Inr 0, s)"
    "rc_audit (rd_rc s) = [r]"
    "runDestructiveRestoreDrill demo_host (demo_env []) demo_readings demo_drill (demo_rd demo_db) =
       Some (Inr (drill_result (demo_env []) demo_readings demo_drill 0 demo_backup ok), db')"
    by (rule demo_drill_steps)
  have c: "collision_free (ho_sha demo_host)
      (rc_audit (rd_rc (snd (start_drill demo_host demo_readings demo_drill (demo_rd demo_db)))))"
    by (simp only: d(1,2) snd_conv) (simp add: collision_free_def)
  have "row_of bk_id (rc_backups (rd_rc (demo_rd demo_db))) (din_backup demo_drill) = Some demo_backup"
    "dateParse (din_now demo_drill) = Some 0"
    by (simp_all add: demo_rd_def demo_db_def row_of_def demo_backup_def demo_drill_def demo_now)
  with drill_passes_exactly [OF d(3) c]
  have "do_meets_rpo (drill_result (demo_env []) demo_readings demo_drill 0 demo_backup ok) \<longleftrightarrow>
      0 - bk_created_at demo_backup < tier_rpo (din_tier demo_drill) * 60000 + 30000"
    by (metis option.inject)
  moreover have "0 - bk_created_at demo_backup < tier_rpo (din_tier demo_drill) * 60000 + 30000"
    by (simp add: demo_backup_def demo_drill_def)
  ultimately show ?thesis using d(3) by blast
qed

text \<open>C26. A reconciliation that answers lets automation resume exactly when every running step
  has a lease, every resolved configuration and lease is well formed, every inbox entry, outbox
  entry, alert and checkpoint is consistent, every artifact digest is well formed and both audit
  logs are unbroken; the stored state carries a resumption time exactly then, and a failed artifact
  or log check makes the recovery degraded.\<close>

theorem resume_exactly_when_reconciled:
  assumes "reconcileAfterRecovery h e aid daid i db = Some (Inr res, db')"
    and "collision_free (ho_sha h) (rc_audit (rd_rc db))"
  shows "let intact = ((\<forall>(key, sha256)\<in>set (ev_artifacts e). hex64 sha256) \<and>
      one_chain (ho_sha h) (rc_audit (rd_rc db)) \<and> records_chained None (ev_audit e)) in
    (rs_degraded res \<longleftrightarrow> \<not> intact) \<and>
    (rs_resume res \<longleftrightarrow> intact \<and>
      (\<forall>s\<in>set (db_steps (ev_core e)). sp_status s = SRUNNING \<longrightarrow>
        sp_lease_owner s \<notin> {None, Some []} \<and> sp_lease_expires_at s \<noteq> None) \<and>
      (\<forall>c\<in>set (ev_configs e). is_object (cf_resolved c) \<and> cf_hash c \<noteq> []) \<and>
      (\<forall>l\<in>set (ev_leases e). 0 < lr_version l \<and> lr_key l \<noteq> [] \<and> lr_owner l \<noteq> []) \<and>
      (\<forall>r\<in>set (db_inbox (ev_core e)). trim (ti_payload_hash r) \<noteq> [] \<and>
        (ti_status r = TPROCESSED \<longrightarrow> ti_run r \<notin> {None, Some []})) \<and>
      (\<forall>m\<in>set (od_outbox (ev_alerts e)). or_topic m \<noteq> [] \<and> or_trace m \<noteq> [] \<and> 0 \<le> or_attempts m \<and>
        storable_state (or_state m)) \<and>
      (\<forall>a\<in>set (od_alerts (ev_alerts e)). ar_fingerprint a \<noteq> [] \<and> trim (ar_sha256 a) \<noteq> []) \<and>
      (\<forall>cp\<in>set (ev_checkpoints e). 0 \<le> cp_slot cp \<and> 0 \<le> cp_sequence cp \<and>
        (0 < cp_slot cp \<longrightarrow> 0 < observation_count e (cp_partition cp)))) \<and>
    (\<forall>r\<in>set (rd_recon db'). rr_recovery r = rcn_id i \<longrightarrow>
      (rr_resumed_at r \<noteq> None \<longleftrightarrow> rs_resume res) \<and> (rr_degraded r \<longleftrightarrow> rs_degraded res))"
proof -
  obtain ok s1 s2 where r: "audit_verified (ho_sha h) e (rd_rc db) = Some ok"
    "rs_reconciled res = all_reconciled (recon_flags_of e ok)"
    "rs_degraded res \<longleftrightarrow> \<not> (artifacts_ok e \<and> ok)" "rs_resume res \<longleftrightarrow> rs_reconciled res \<and> \<not> rs_degraded res"
    "store_recon i (recon_flags_of e ok) (rs_stale res) (rs_degraded res) (rs_resume res) db = (Inr (), s1)"
    "log_step h aid i (rs_reconciled res) (rs_stale res) (rs_degraded res) s1 = (Inr (), s2)"
    "degrade_step h daid i (rs_degraded res) s2 = (Inr (), db')"
    using assms(1) by (rule reconcile_Inr)
  have rows: "rd_recon db' = rd_recon s1"
    using log_step_same [OF r(6)] degrade_step_recon [OF r(7)] by simp
  have e: "provider_calls_ok e \<longleftrightarrow> (\<forall>s\<in>set (db_steps (ev_core e)). sp_status s = SRUNNING \<longrightarrow>
        sp_lease_owner s \<notin> {None, Some []} \<and> sp_lease_expires_at s \<noteq> None)"
    "quota_ok e \<longleftrightarrow> (\<forall>c\<in>set (ev_configs e). is_object (cf_resolved c) \<and> cf_hash c \<noteq> [])"
    "leases_ok e \<longleftrightarrow> (\<forall>l\<in>set (ev_leases e). 0 < lr_version l \<and> lr_key l \<noteq> [] \<and> lr_owner l \<noteq> [])"
    "artifacts_ok e \<longleftrightarrow> (\<forall>(key, sha256)\<in>set (ev_artifacts e). hex64 sha256)"
    by (auto simp: provider_calls_ok_def quota_ok_def leases_ok_def artifacts_ok_def select_def list_all_iff
        empty_text_def split: option.splits)
  have tr: "ti_status r \<in> set [TRECEIVED, TPROCESSING, TPROCESSED, TDUPLICATE, TFAILED]" for r :: trigger_row
    by (cases "ti_status r") simp_all
  have inbox: "inbox_ok e \<longleftrightarrow> (\<forall>r\<in>set (db_inbox (ev_core e)). trim (ti_payload_hash r) \<noteq> [] \<and>
        (ti_status r = TPROCESSED \<longrightarrow> ti_run r \<notin> {None, Some []}))"
    unfolding inbox_ok_def list_all_iff by (simp only: tr) (auto simp: empty_text_def split: option.splits)
  have outbox: "outbox_ok e \<longleftrightarrow> (\<forall>m\<in>set (od_outbox (ev_alerts e)). or_topic m \<noteq> [] \<and> or_trace m \<noteq> [] \<and>
        0 \<le> or_attempts m \<and> storable_state (or_state m))"
    unfolding outbox_ok_def list_all_iff storable_shown ..
  have cl: "ar_class a \<in> set [EARLY_WATCH, CONFIRMED_OPPORTUNITY, THESIS_STRENGTHENING, THESIS_WEAKENING,
      OPPORTUNITY_EXPIRED, RISK_ALERT]" "ar_actionability a \<in> set [ACTIONABLE, DETERIORATED, EXPIRED, CANCELLED, WATCH_ONLY]"
    for a :: alert_record
    by (cases "ar_class a"; simp) (cases "ar_actionability a"; simp)
  have alerts: "alerts_ok e \<longleftrightarrow> (\<forall>a\<in>set (od_alerts (ev_alerts e)). ar_fingerprint a \<noteq> [] \<and> trim (ar_sha256 a) \<noteq> [])"
    unfolding alerts_ok_def list_all_iff by (simp only: cl simp_thms)
  have gaps: "gaps_ok e \<longleftrightarrow> (\<forall>cp\<in>set (ev_checkpoints e). 0 \<le> cp_slot cp \<and> 0 \<le> cp_sequence cp \<and>
        (0 < cp_slot cp \<longrightarrow> 0 < observation_count e (cp_partition cp)))"
    by (auto simp: gaps_ok_def list_all_iff)
  have ok: "ok \<longleftrightarrow> one_chain (ho_sha h) (rc_audit (rd_rc db)) \<and> records_chained None (ev_audit e)"
    using assms(2) r(1) by (rule audit_verified_iff)
  have flags: "rs_resume res \<longleftrightarrow> artifacts_ok e \<and> ok \<and> provider_calls_ok e \<and> quota_ok e \<and> leases_ok e \<and>
      inbox_ok e \<and> outbox_ok e \<and> alerts_ok e \<and> gaps_ok e"
    unfolding r(2-4) all_reconciled_def recon_flags_of_def recon_flags.select_convs by blast
  let ?I = "(\<forall>(key, sha256)\<in>set (ev_artifacts e). hex64 sha256) \<and>
      one_chain (ho_sha h) (rc_audit (rd_rc db)) \<and> records_chained None (ev_audit e)"
  have I: "artifacts_ok e \<and> ok \<longleftrightarrow> ?I" unfolding e(4) ok ..
  have d: "rs_degraded res \<longleftrightarrow> \<not> ?I" using r(3) unfolding I .
  have "rs_resume res \<longleftrightarrow> (artifacts_ok e \<and> ok) \<and> provider_calls_ok e \<and> quota_ok e \<and> leases_ok e \<and>
      inbox_ok e \<and> outbox_ok e \<and> alerts_ok e \<and> gaps_ok e"
    using flags by (simp only: conj_assoc)
  note u = this [unfolded I e(1-3) inbox outbox alerts gaps]
  have w: "\<forall>r\<in>set (rd_recon db'). rr_recovery r = rcn_id i \<longrightarrow>
      (rr_resumed_at r \<noteq> None \<longleftrightarrow> rs_resume res) \<and> (rr_degraded r \<longleftrightarrow> rs_degraded res)"
    using store_recon_ok(3) [OF r(5)] unfolding rows by fast
  show ?thesis unfolding Let_def by (intro conjI) (rule d, rule u, rule w)
qed

theorem resume_exactly_when_reconciled_witness:
  "\<exists>res db'. reconcileAfterRecovery demo_host (demo_env []) ''a'' ''b'' demo_recon (demo_rd rc_empty) =
     Some (Inr res, db') \<and> rs_resume res"
proof -
  let ?e = "demo_env []"
  have a: "audit_verified (ho_sha demo_host) ?e (rd_rc (demo_rd rc_empty)) = Some True"
    by (rule audit_verified_Nil) (simp add: demo_rd_def rc_empty_def)
  have e: "ev_core ?e = empty_db" "ev_leases ?e = []" "ev_configs ?e = []" "ev_artifacts ?e = []" "ev_audit ?e = []"
    "ev_checkpoints ?e = []" "od_outbox (ev_alerts ?e) = []" "od_alerts (ev_alerts ?e) = []"
    "db_steps empty_db = []" "db_inbox empty_db = []"
    by (simp_all add: demo_env_def empty_db_def)
  have g: "all_reconciled (recon_flags_of ?e True)" "artifacts_ok ?e"
    by (simp_all add: all_reconciled_def recon_flags_of_def provider_calls_ok_def quota_ok_def leases_ok_def
        inbox_ok_def outbox_ok_def alerts_ok_def gaps_ok_def artifacts_ok_def select_def e)
  obtain s where s: "store_recon demo_recon (recon_flags_of ?e True) (stale_tokens ?e ''1970-01-01'') False True
      (demo_rd rc_empty) = (Inr (), s)" "rd_rc s = rc_empty"
    by (simp add: store_recon_def demo_recon_def demo_now demo_rd_def has_key_def)
  have k: "''RECONCILIATION_COMPLETED'' \<in> set audit_actions" "\<not> has_key au_id ''a'' (rc_audit (rd_rc s))"
    by (simp add: audit_actions_def) (simp add: s(2) rc_empty_def has_key_def)
  obtain x r where x: "in_rc (audit demo_host ''RECONCILIATION_COMPLETED'' ''system''
      [(''recoveryId'', JStr ''r''), (''staleTokensRejected'', JNum (int (stale_tokens ?e ''1970-01-01''))),
        (''degraded'', JBool False)] ''1970-01-01'' ''a'') s =
      (Inr x, s\<lparr>rd_rc := (rd_rc s)\<lparr>rc_audit := rc_audit (rd_rc s) @ [r]\<rparr>\<rparr>)"
    by (rule demo_in_audit [OF k demo_now])
  obtain res db' where r: "reconcileAfterRecovery demo_host ?e ''a'' ''b'' demo_recon (demo_rd rc_empty) =
     Some (Inr res, db')"
    using s(1) x g by (simp add: reconcile_steps [OF a] log_step_def degrade_step_def Let_def demo_recon_def)
  have c: "collision_free (ho_sha demo_host) (rc_audit (rd_rc (demo_rd rc_empty)))"
    by (simp add: collision_free_def demo_rd_def rc_empty_def)
  have "one_chain (ho_sha demo_host) (rc_audit (rd_rc (demo_rd rc_empty)))" by (simp add: demo_rd_def rc_empty_def)
  with resume_exactly_when_reconciled [OF r c] have "rs_resume res" by (simp add: e Let_def)
  with r show ?thesis by blast
qed

text \<open>A recovery that was found degraded cannot be reconciled again while an artifact digest
  is still malformed: the second reconciliation stores its findings and then fails on the key of
  the degraded-mode record, which it builds from the identifier of the recovery alone.\<close>

theorem degraded_recovery_not_reconciled_again:
  assumes "reconcileAfterRecovery h e aid daid i db = Some (Inr res, db1)" "rs_degraded res"
    and "reconcileAfterRecovery h e' aid' daid' j db1 = Some (out, db2)" "rcn_id j = rcn_id i"
    and "\<not> artifacts_ok e'" "dateParse (rcn_now j) = Some t"
  shows "out = Inl duplicate_key \<and> (\<forall>r\<in>set (rd_recon db2). rr_recovery r = rcn_id i \<longrightarrow> rr_degraded r)"
proof -
  obtain ok s1 s2 where r: "store_recon i (recon_flags_of e ok) (rs_stale res) (rs_degraded res) (rs_resume res) db = (Inr (), s1)"
    "log_step h aid i (rs_reconciled res) (rs_stale res) (rs_degraded res) s1 = (Inr (), s2)"
    "degrade_step h daid i (rs_degraded res) s2 = (Inr (), db1)"
    using assms(1) by (rule reconcile_Inr)
  have d: "has_key dg_id (''degraded-recon-'' @ rcn_id j) (rc_degraded (rd_rc db1))" "rd_recon db1 = rd_recon s2"
    using degrade_step_rows [of h daid i s2 "()" db1] r(3) assms(2,4) by simp_all
  have k: "has_key rr_recovery (rcn_id j) (rd_recon db1)"
    using store_recon_ok(2) [OF r(1)] log_step_same [OF r(2)] d(2) assms(4) by simp
  obtain ok' where ok': "audit_verified (ho_sha h) e' (rd_rc db1) = Some ok'"
    using assms(3) by (auto simp: reconcileAfterRecovery_def split: option.splits)
  let ?f = "recon_flags_of e' ok'"
  have a: "\<not> all_reconciled ?f" using assms(5) by (simp add: all_reconciled_def recon_flags_of_def)
  obtain s where s: "store_recon j ?f (stale_tokens e' (rcn_now j)) True False db1 = (Inr (), s)"
    "rd_rc s = rd_rc db1" "\<forall>r\<in>set (rd_recon s). rr_recovery r = rcn_id j \<longrightarrow> rr_degraded r = True"
    using k assms(6) by (rule store_recon_again)
  have g: "degrade_step h daid' j True s = (Inl duplicate_key, s)"
    using d(1) s(2) assms(6) by (intro degrade_step_taken) simp_all
  have l: "log_step h aid' j False n True s = (Inr (), s)" for n by (simp add: log_step_def)
  have "out = Inl duplicate_key \<and> db2 = s"
    using assms(3,5) a s(1) g l by (simp add: reconcile_steps [OF ok'] Let_def)
  with s(3) assms(4) show ?thesis by simp
qed

theorem degraded_recovery_not_reconciled_again_witness:
  "\<exists>res db1 db2.
     reconcileAfterRecovery demo_host (demo_env [(''key'', ''z'')]) ''a'' ''b'' demo_recon (demo_rd rc_empty) =
       Some (Inr res, db1) \<and>
     reconcileAfterRecovery demo_host (demo_env [(''key'', ''z'')]) ''c'' ''d'' demo_recon db1 =
       Some (Inl duplicate_key, db2)"
proof -
  obtain res db1 r where f: "reconcileAfterRecovery demo_host (demo_env [(''key'', ''z'')]) ''a'' ''b'' demo_recon
      (demo_rd rc_empty) = Some (Inr res, db1)" "rs_degraded res" "rc_audit (rd_rc db1) = [r]"
    by (rule demo_first_recon)
  have "collision_free (ho_sha demo_host) (rc_audit (rd_rc db1))" using f(3) by (simp add: collision_free_def)
  then obtain ok where ok: "audit_verified (ho_sha demo_host) (demo_env [(''key'', ''z'')]) (rd_rc db1) = Some ok"
    using audit_verified_total by blast
  obtain out db2 where o: "reconcileAfterRecovery demo_host (demo_env [(''key'', ''z'')]) ''c'' ''d'' demo_recon db1 =
      Some (out, db2)"
    by (simp only: reconcile_steps [OF ok] Let_def option.inject) (metis surj_pair)
  have "\<not> artifacts_ok (demo_env [(''key'', ''z'')])" by (simp add: artifacts_ok_def demo_env_def hex64_def)
  moreover have "dateParse (rcn_now demo_recon) = Some 0" by (simp add: demo_recon_def demo_now)
  ultimately have "out = Inl duplicate_key"
    using degraded_recovery_not_reconciled_again [OF f(1,2) o refl] by blast
  with f(1) o show ?thesis by blast
qed

end
