(* ===== verification/Js_Text.thy ===== *)
theory Js_Text
  imports Js_Number Js_Date
begin

text \<open>
  The string methods of the agent and security modules on texts of code units below 256:
  \<open>toLowerCase\<close>, \<open>includes\<close>, \<open>endsWith\<close>, the conversion \<open>Number(text)\<close> and digits in a base.
\<close>

section \<open>Case\<close>

definition js_lower_char :: "char \<Rightarrow> char" where
  "js_lower_char c =
     (let n = (of_char c :: nat) in
      if 65 \<le> n \<and> n \<le> 90 \<or> 192 \<le> n \<and> n \<le> 222 \<and> n \<noteq> 215 then char_of (n + 32) else c)"

definition toLowerCase :: "string \<Rightarrow> string" where
  "toLowerCase s = map js_lower_char s"

lemma js_lower_char_idem [simp]: "js_lower_char (js_lower_char c) = js_lower_char c"
proof -
  have "(of_char c :: nat) + 32 < 256" if "192 \<le> (of_char c :: nat) \<and> of_char c \<le> (222::nat) \<or> of_char c \<le> (90::nat)"
    using that by linarith
  then show ?thesis by (auto simp: js_lower_char_def Let_def)
qed

lemma toLowerCase_idem [simp]: "toLowerCase (toLowerCase s) = toLowerCase s"
  by (simp add: toLowerCase_def)

lemma length_toLowerCase [simp]: "length (toLowerCase s) = length s"
  by (simp add: toLowerCase_def)

lemma toLowerCase_Nil [simp]: "toLowerCase s = [] \<longleftrightarrow> s = []" "toLowerCase [] = []"
  by (simp_all add: toLowerCase_def)

lemma toLowerCase_append [simp]: "toLowerCase (a @ b) = toLowerCase a @ toLowerCase b"
  by (simp add: toLowerCase_def)

section \<open>Parts of a text\<close>

fun text_includes :: "string \<Rightarrow> string \<Rightarrow> bool" where
  "text_includes [] p = (p = [])"
| "text_includes (c # cs) p = (startsWith (c # cs) p \<or> text_includes cs p)"

definition endsWith :: "string \<Rightarrow> string \<Rightarrow> bool" where
  "endsWith s p = startsWith (rev s) (rev p)"

lemma text_includes_iff: "text_includes s p \<longleftrightarrow> (\<exists>a b. s = a @ p @ b)"
proof (induction s)
  case Nil
  then show ?case by simp
next
  case (Cons c cs)
  have "(\<exists>a b. c # cs = a @ p @ b) \<longleftrightarrow> (\<exists>b. c # cs = p @ b) \<or> (\<exists>a b. cs = a @ p @ b)"
    by (metis append_Cons append_Nil neq_Nil_conv list.inject)
  with Cons show ?case by (simp add: startsWith_iff)
qed

lemma endsWith_iff: "endsWith s p \<longleftrightarrow> (\<exists>a. s = a @ p)"
  unfolding endsWith_def startsWith_iff by (metis rev_append rev_rev_ident)

section \<open>Numbers in a base\<close>

definition base_digit :: "char \<Rightarrow> nat option" where
  "base_digit c =
     (let n = (of_char c :: nat) in
      if 48 \<le> n \<and> n \<le> 57 then Some (n - 48)
      else if 97 \<le> n \<and> n \<le> 122 then Some (n - 87)
      else if 65 \<le> n \<and> n \<le> 90 then Some (n - 55) else None)"

definition digit_of_base :: "nat \<Rightarrow> char \<Rightarrow> bool" where
  "digit_of_base b c = (case base_digit c of None \<Rightarrow> False | Some d \<Rightarrow> d < b)"

definition read_base :: "nat \<Rightarrow> string \<Rightarrow> nat" where
  "read_base b s = foldl (\<lambda>acc c. b * acc + the (base_digit c)) 0 s"

text \<open>A nonempty text of digits of a base, as \<open>/^[0-9a-f]+$/i\<close> and the like test it.\<close>

definition all_digits :: "nat \<Rightarrow> string \<Rightarrow> bool" where
  "all_digits b s = (s \<noteq> [] \<and> list_all (digit_of_base b) s)"

section \<open>\<open>Number(text)\<close>\<close>

text \<open>\<open>None\<close> is \<open>NaN\<close>.\<close>

datatype js_num = Finite rat | PosInf | NegInf

definition parse_exponent :: "string \<Rightarrow> int option" where
  "parse_exponent s =
     (case s of
        [] \<Rightarrow> Some 0
      | c # r \<Rightarrow>
          if c = CHR ''e'' \<or> c = CHR ''E'' then
            (let neg = startsWith r ''-'';
                 d = (if neg \<or> startsWith r ''+'' then drop 1 r else r)
             in if d \<noteq> [] \<and> list_all is_digit d
                then Some ((if neg then - 1 else 1) * int (read_nat d)) else None)
          else None)"

definition scale10 :: "nat \<Rightarrow> int \<Rightarrow> rat" where
  "scale10 n e = (if 0 \<le> e then of_nat n * 10 ^ nat e else of_nat n / 10 ^ nat (- e))"

definition parse_decimal :: "string \<Rightarrow> js_num option" where
  "parse_decimal s =
     (if s = ''Infinity'' then Some PosInf
      else
        (let i = takeWhile is_digit s; r = dropWhile is_digit s;
             f = (case r of c # r' \<Rightarrow> if c = CHR ''.'' then takeWhile is_digit r' else [] | [] \<Rightarrow> []);
             r2 = (case r of c # r' \<Rightarrow> if c = CHR ''.'' then dropWhile is_digit r' else r | [] \<Rightarrow> r)
         in if i = [] \<and> f = [] then None
            else map_option (\<lambda>e. Finite (scale10 (read_nat (i @ f)) (e - int (length f)))) (parse_exponent r2)))"

fun negate_num :: "js_num \<Rightarrow> js_num" where
  "negate_num (Finite x) = Finite (- x)"
| "negate_num PosInf = NegInf"
| "negate_num NegInf = PosInf"

definition to_number :: "string \<Rightarrow> js_num option" where
  "to_number text =
     (let s = trim text; p = toLowerCase (take 2 s); d = drop 2 s in
      if s = [] then Some (Finite 0)
      else if p = ''0x'' \<and> all_digits 16 d then Some (Finite (of_nat (read_base 16 d)))
      else if p = ''0o'' \<and> all_digits 8 d then Some (Finite (of_nat (read_base 8 d)))
      else if p = ''0b'' \<and> all_digits 2 d then Some (Finite (of_nat (read_base 2 d)))
      else if startsWith s ''-'' then map_option negate_num (parse_decimal (drop 1 s))
      else if startsWith s ''+'' then parse_decimal (drop 1 s)
      else parse_decimal s)"

fun num_less :: "js_num \<Rightarrow> js_num \<Rightarrow> bool" where
  "num_less (Finite x) (Finite y) = (x < y)"
| "num_less NegInf y = (y \<noteq> NegInf)"
| "num_less x NegInf = False"
| "num_less PosInf y = False"
| "num_less (Finite x) PosInf = True"

fun times1000 :: "js_num \<Rightarrow> js_num" where
  "times1000 (Finite x) = Finite (x * 1000)"
| "times1000 x = x"

text \<open>\<open>new Date(x).toISOString()\<close> for a number: the time is cut to whole milliseconds.\<close>

fun num_toISO :: "js_num \<Rightarrow> string result" where
  "num_toISO (Finite x) = toISO (Some (if x < 0 then \<lceil>x\<rceil> else \<lfloor>x\<rfloor>))"
| "num_toISO x = toISO None"

section \<open>URLs\<close>

text \<open>What the code reads of a \<open>URL\<close>. Parsing is the host's; its parser is a parameter of the
  operations that use it, \<open>None\<close> where \<open>new URL(text)\<close> throws.\<close>

record url =
  ul_protocol :: string
  ul_username :: string
  ul_password :: string
  ul_hostname :: string
  ul_port :: string

end
