(* ===== verification/Agent_Confinement.thy ===== *)
theory Agent_Confinement
  imports Js_Text
begin

text \<open>
  packages/agent-runtime/src/confinement.ts: the arguments of a tool call are scanned to any depth
  against the authorization envelope. A thrown \<open>ConfinementViolationError\<close> carries its type, its
  detail and the name of the tool; \<open>toISOString\<close> in a detail may throw a \<open>RangeError\<close> instead. The
  members of an object are listed as \<open>Object.entries\<close> lists them.
\<close>

section \<open>Envelopes and violations\<close>

record time_range =
  tr_min :: "string option"
  tr_max :: string

record envelope =
  en_tools :: "string list"
  en_providers :: "string list option"
  en_domains :: "string list option"
  en_chains :: "string list option"
  en_addresses :: "string list option"
  en_range :: "time_range option"
  en_max_bytes :: "rat option"
  en_max_limit :: "rat option"
  en_max_cost :: "rat option"

datatype violation_type =
    TOOL_NOT_ALLOWED | PROVIDER_NOT_ALLOWED | URL_NOT_ALLOWED | CHAIN_NOT_ALLOWED
  | ADDRESS_NOT_ALLOWED | TIME_RANGE_NOT_ALLOWED | OUTPUT_SIZE_NOT_ALLOWED | COST_NOT_ALLOWED

record violation =
  vi_type :: violation_type
  vi_detail :: string
  vi_tool :: string
  vi_args :: "jval option"

datatype conf_error = Violation violation | Thrown error

type_synonym 'a confined = "conf_error + 'a"

definition deny :: "violation_type \<Rightarrow> string \<Rightarrow> string \<Rightarrow> 'a confined" where
  "deny t detail tool = Inl (Violation \<lparr>vi_type = t, vi_detail = detail, vi_tool = tool, vi_args = None\<rparr>)"

text \<open>The host's parts: its URL parser and its reading of date texts outside the interchange format.\<close>

record engine =
  eg_url :: "string \<Rightarrow> url option"
  eg_date :: "string \<Rightarrow> int option"

definition date_ms :: "engine \<Rightarrow> string \<Rightarrow> int option" where
  "date_ms eg s = (case dateParse s of Some t \<Rightarrow> Some t | None \<Rightarrow> eg_date eg s)"

text \<open>Checks one after the other; the first that throws ends them.\<close>

fun all_checks :: "('e + unit) list \<Rightarrow> 'e + unit" where
  "all_checks [] = Inr ()"
| "all_checks (c # cs) = (case c of Inl e \<Rightarrow> Inl e | Inr _ \<Rightarrow> all_checks cs)"

lemma all_checks_Inr [simp]: "all_checks cs = Inr () \<longleftrightarrow> (\<forall>c\<in>set cs. c = Inr ())"
  by (induction cs) (auto split: sum.splits)

declare all_checks.simps [simp del]

section \<open>Texts of details\<close>

definition dq :: "string \<Rightarrow> string" where
  "dq s = CHR 0x22 # s @ [CHR 0x22]"

definition outside_list :: "string \<Rightarrow> string \<Rightarrow> string list \<Rightarrow> string" where
  "outside_list what field allowed =
     what @ '' is outside envelope '' @ field @ '': ['' @ join_with '', '' allowed @ '']''"

section \<open>Hosts and domains\<close>

definition web_scheme :: "string \<Rightarrow> bool" where
  "web_scheme s \<longleftrightarrow>
     startsWith s ''http://'' \<or> startsWith s ''https://'' \<or> startsWith s ''ws://'' \<or> startsWith s ''wss://''"

definition extractHost :: "engine \<Rightarrow> string \<Rightarrow> string \<Rightarrow> string confined" where
  "extractHost eg value tool =
     (let candidate = trim value in
      if web_scheme candidate then
        (case eg_url eg candidate of
           None \<Rightarrow> deny URL_NOT_ALLOWED (''Malformed URL string: '' @ dq value) tool
         | Some u \<Rightarrow>
             if ul_username u \<noteq> [] \<or> ul_password u \<noteq> []
             then deny URL_NOT_ALLOWED
               (''Credential/userinfo syntax (user:pass@host) is strictly forbidden in URL: '' @ dq value) tool
             else Inr (toLowerCase (ul_hostname u)))
      else
        (let seg = hd (split_on CHR ''/'' candidate) in
         if CHR ''@'' \<in> set seg
         then deny URL_NOT_ALLOWED
           (''Credential/userinfo syntax (@) is strictly forbidden in domain/host: '' @ dq value) tool
         else if startsWith seg ''['' \<and> CHR '']'' \<in> set seg
         then Inr (toLowerCase (drop 1 (takeWhile (\<lambda>c. c \<noteq> CHR '']'') seg)))
         else
           (let parts = split_on CHR '':'' seg in
            if length parts = 2 \<and> hd parts \<noteq> [] then Inr (toLowerCase (hd parts))
            else Inr (toLowerCase seg))))"

definition strip_scheme :: "string \<Rightarrow> string" where
  "strip_scheme s =
     (if startsWith s ''http://'' then drop 7 s else if startsWith s ''https://'' then drop 8 s else s)"

definition allowed_domain :: "string \<Rightarrow> string" where
  "allowed_domain allowed = hd (split_on CHR ''/'' (strip_scheme (toLowerCase allowed)))"

definition isDomainAllowed :: "string \<Rightarrow> string list \<Rightarrow> bool" where
  "isDomainAllowed host allowedDomains =
     list_ex (\<lambda>a. toLowerCase host = allowed_domain a \<or> endsWith (toLowerCase host) (CHR ''.'' # allowed_domain a))
       allowedDomains"

definition normalizeAddress :: "string \<Rightarrow> string" where
  "normalizeAddress a = (if startsWith a ''0x'' \<or> startsWith a ''0X'' then toLowerCase a else a)"

section \<open>Keys and values that are checked\<close>

definition key_includes :: "string \<Rightarrow> string list \<Rightarrow> bool" where
  "key_includes k ws = list_ex (text_includes k) ws"

definition provider_key :: "string \<Rightarrow> bool" where
  "provider_key k \<longleftrightarrow> key_includes k [''provider''] \<or> k = ''source'' \<or> k = ''sourceid'' \<or> key_includes k [''feed'']"

definition label_char :: "char \<Rightarrow> bool" where
  "label_char c = (digit_of_base 36 c \<or> c = CHR ''-'')"

text \<open>\<open>/^[a-z0-9-]+(\.[a-z0-9-]+)+/i\<close>: two labels with a dot between them.\<close>

definition domain_prefix :: "string \<Rightarrow> bool" where
  "domain_prefix s =
     (takeWhile label_char s \<noteq> [] \<and>
      (case dropWhile label_char s of c # d # _ \<Rightarrow> c = CHR ''.'' \<and> label_char d | _ \<Rightarrow> False))"

definition url_key :: "string \<Rightarrow> bool" where
  "url_key k = key_includes k
     [''domain'', ''host'', ''url'', ''endpoint'', ''uri'', ''link'', ''href'', ''target'']"

definition url_value :: "string \<Rightarrow> bool" where
  "url_value s = (web_scheme s \<or> domain_prefix (trim s))"

definition chain_key :: "string \<Rightarrow> bool" where
  "chain_key k \<longleftrightarrow> key_includes k [''chain''] \<or> k = ''network'' \<or> k = ''blockchain'' \<or> k = ''ecosystem''"

definition known_chains :: "string list" where
  "known_chains = [''solana'', ''ethereum'', ''base'', ''arbitrum'', ''polygon'', ''optimism'',
     ''avalanche'', ''bsc'', ''mainnet'']"

definition chain_value :: "string \<Rightarrow> bool" where
  "chain_value s = (toLowerCase s \<in> set known_chains)"

definition address_key :: "string \<Rightarrow> bool" where
  "address_key k \<longleftrightarrow>
     key_includes k [''address'', ''mint''] \<or> k = ''account'' \<or>
     key_includes k [''recipient'', ''wallet'', ''token''] \<or> k = ''contract''"

definition base58_char :: "char \<Rightarrow> bool" where
  "base58_char c =
     (digit_of_base 36 c \<and> c \<notin> {CHR ''0'', CHR ''I'', CHR ''O'', CHR ''l''})"

definition address_value :: "string \<Rightarrow> bool" where
  "address_value s \<longleftrightarrow>
     startsWith s ''0x'' \<and> length s = 42 \<and> list_all (digit_of_base 16) (drop 2 s) \<or>
     32 \<le> length s \<and> length s \<le> 44 \<and> list_all base58_char s"

definition time_key :: "string \<Rightarrow> bool" where
  "time_key k \<longleftrightarrow>
     key_includes k [''time'', ''stamp'', ''asof'', ''date'', ''since'', ''until'', ''created'', ''future''] \<or>
     k \<in> {''from'', ''to'', ''start'', ''end''}"

text \<open>\<open>/^\d{4}-\d{2}-\d{2}T\d{2}:\d{2}/\<close>.\<close>

fun shape :: "string \<Rightarrow> string \<Rightarrow> bool" where
  "shape [] s = True"
| "shape (p # ps) [] = False"
| "shape (p # ps) (c # cs) = ((if p = CHR ''d'' then is_digit c else c = p) \<and> shape ps cs)"

fun time_value :: "jval \<Rightarrow> bool" where
  "time_value (VStr s) = shape ''dddd-dd-ddTdd:dd'' s"
| "time_value (VNum x) = (1000000000 < x)"
| "time_value _ = False"

definition seconds_or_ms :: "js_num \<Rightarrow> js_num" where
  "seconds_or_ms x = (if num_less x (Finite 100000000000) then times1000 x else x)"

fun parseTimestampToMs :: "engine \<Rightarrow> jval \<Rightarrow> js_num option" where
  "parseTimestampToMs eg (VNum x) = Some (seconds_or_ms (Finite x))"
| "parseTimestampToMs eg (VStr s) =
     (case date_ms eg s of
        Some t \<Rightarrow> Some (Finite (rat_of_int t))
      | None \<Rightarrow> map_option seconds_or_ms (to_number s))"
| "parseTimestampToMs eg _ = None"

definition limit_key :: "string \<Rightarrow> bool" where
  "limit_key k = (k \<in> {''limit'', ''pagesize'', ''count'', ''maxresults'', ''topn'', ''take'', ''size''})"

definition bytes_key :: "string \<Rightarrow> bool" where
  "bytes_key k = (k \<in> {''maxoutputsizebytes'', ''maxbytes'', ''bytelimit'', ''outputsize''})"

definition cost_key :: "string \<Rightarrow> bool" where
  "cost_key k = (k \<in> {''maxcostusd'', ''estimatedcostusd'', ''costusd'', ''costlimitusd'', ''budgetusd''})"

section \<open>\<open>checkKeyAndValue\<close>\<close>

text \<open>An absent or empty list of the envelope restricts nothing.\<close>

definition restricted :: "string list option \<Rightarrow> bool" where
  "restricted l = (case l of None \<Rightarrow> False | Some xs \<Rightarrow> xs \<noteq> [])"

definition provider_check :: "envelope \<Rightarrow> string \<Rightarrow> string \<Rightarrow> jval \<Rightarrow> unit confined" where
  "provider_check env tool key value =
     (if restricted (en_providers env) \<and> provider_key (toLowerCase key) then
        (case value of
           VStr s \<Rightarrow>
             if toLowerCase s \<in> toLowerCase ` set (the (en_providers env)) then Inr ()
             else deny PROVIDER_NOT_ALLOWED
               (outside_list (''Provider '' @ dq s) ''allowedProviders'' (the (en_providers env))) tool
         | _ \<Rightarrow> Inr ())
      else Inr ())"

definition domain_check :: "engine \<Rightarrow> envelope \<Rightarrow> string \<Rightarrow> string \<Rightarrow> jval \<Rightarrow> unit confined" where
  "domain_check eg env tool key value =
     (if restricted (en_domains env) then
        (case value of
           VStr s \<Rightarrow>
             if (url_key (toLowerCase key) \<or> url_value s) \<and> trim s \<noteq> [] then
               (case extractHost eg s ''unknown'' of
                  Inl e \<Rightarrow> Inl e
                | Inr host \<Rightarrow>
                    if host \<noteq> [] \<and> \<not> isDomainAllowed host (the (en_domains env))
                    then deny URL_NOT_ALLOWED
                      (outside_list (''URL/domain '' @ dq s @ '' (host: '' @ dq host @ '')'') ''allowedDomains''
                        (the (en_domains env))) tool
                    else Inr ())
             else Inr ()
         | _ \<Rightarrow> Inr ())
      else Inr ())"

text \<open>The texts of a value a list check looks at: the value itself, or the texts directly in an array.\<close>

fun listed_texts :: "jval \<Rightarrow> (bool \<times> string) list" where
  "listed_texts (VStr s) = [(False, s)]"
| "listed_texts (VArr xs) = concat (map (\<lambda>x. case x of VStr s \<Rightarrow> [(True, s)] | _ \<Rightarrow> []) xs)"
| "listed_texts _ = []"

definition in_list_text :: "bool \<Rightarrow> string" where
  "in_list_text b = (if b then '' in list'' else [])"

definition chain_check :: "envelope \<Rightarrow> string \<Rightarrow> string \<Rightarrow> jval \<Rightarrow> unit confined" where
  "chain_check env tool key value =
     (if restricted (en_chains env) then
        all_checks (map (\<lambda>(l, s).
          if (chain_key (toLowerCase key) \<or> chain_value s) \<and>
             toLowerCase s \<notin> toLowerCase ` set (the (en_chains env))
          then deny CHAIN_NOT_ALLOWED
            (outside_list (''Chain '' @ dq s @ in_list_text l) ''allowedChains'' (the (en_chains env))) tool
          else Inr ()) (listed_texts value))
      else Inr ())"

definition address_check :: "envelope \<Rightarrow> string \<Rightarrow> string \<Rightarrow> jval \<Rightarrow> unit confined" where
  "address_check env tool key value =
     (if restricted (en_addresses env) then
        all_checks (map (\<lambda>(l, s).
          if (address_key (toLowerCase key) \<or> address_value s) \<and>
             normalizeAddress s \<notin> normalizeAddress ` set (the (en_addresses env))
          then deny ADDRESS_NOT_ALLOWED
            (outside_list (''Address '' @ dq s @ in_list_text l) ''allowedAddresses'' (the (en_addresses env))) tool
          else Inr ()) (listed_texts value))
      else Inr ())"

definition show_plain :: "jval \<Rightarrow> string" where
  "show_plain v = (case v of VStr s \<Rightarrow> s | VNum x \<Rightarrow> show_num x | _ \<Rightarrow> [])"

definition time_denied :: "string \<Rightarrow> jval \<Rightarrow> js_num \<Rightarrow> string \<Rightarrow> string \<Rightarrow> unit confined" where
  "time_denied tool value ts what bound =
     (case num_toISO ts of
        Inl e \<Rightarrow> Inl (Thrown e)
      | Inr at_text \<Rightarrow> deny TIME_RANGE_NOT_ALLOWED
          (''Timestamp '' @ dq (show_plain value) @ '' ('' @ at_text @ '') '' @ what @ '' '' @ dq bound) tool)"

definition time_check :: "engine \<Rightarrow> envelope \<Rightarrow> string \<Rightarrow> string \<Rightarrow> jval \<Rightarrow> unit confined" where
  "time_check eg env tool key value =
     (case en_range env of
        None \<Rightarrow> Inr ()
      | Some r \<Rightarrow>
          if time_key (toLowerCase key) \<or> time_value value then
            (case parseTimestampToMs eg value of
               None \<Rightarrow> Inr ()
             | Some ts \<Rightarrow> all_checks
                 [case date_ms eg (tr_max r) of
                    Some m \<Rightarrow> if num_less (Finite (rat_of_int m)) ts
                      then time_denied tool value ts ''exceeds envelope maxTimestamp'' (tr_max r) else Inr ()
                  | None \<Rightarrow> Inr (),
                  case tr_min r of
                    None \<Rightarrow> Inr ()
                  | Some lo \<Rightarrow>
                      if lo = [] then Inr () else
                      (case date_ms eg lo of
                         Some m \<Rightarrow> if num_less ts (Finite (rat_of_int m))
                           then time_denied tool value ts ''precedes envelope minTimestamp'' lo else Inr ()
                       | None \<Rightarrow> Inr ())])
          else Inr ())"

definition max_check ::
  "rat option \<Rightarrow> bool \<Rightarrow> violation_type \<Rightarrow> string \<Rightarrow> string \<Rightarrow> string \<Rightarrow> string \<Rightarrow> jval \<Rightarrow> unit confined" where
  "max_check limit applies t what field tool key value =
     (case limit of
        None \<Rightarrow> Inr ()
      | Some m \<Rightarrow>
          if applies then
            (case value of
               VNum x \<Rightarrow> if m < x
                 then deny t (what @ '' '' @ dq key @ '' value '' @ show_num x @ '' exceeds envelope '' @ field @
                   '' '' @ show_num m) tool
                 else Inr ()
             | _ \<Rightarrow> Inr ())
          else Inr ())"

definition checkKeyAndValue :: "engine \<Rightarrow> envelope \<Rightarrow> string \<Rightarrow> string \<Rightarrow> jval \<Rightarrow> unit confined" where
  "checkKeyAndValue eg env tool key value =
     (let k = toLowerCase key in all_checks
        [provider_check env tool key value, domain_check eg env tool key value,
         chain_check env tool key value, address_check env tool key value,
         time_check eg env tool key value,
         max_check (en_max_limit env) (limit_key k) OUTPUT_SIZE_NOT_ALLOWED ''Parameter'' ''maxLimit'' tool key value,
         max_check (en_max_bytes env) (bytes_key k) OUTPUT_SIZE_NOT_ALLOWED ''Parameter'' ''maxOutputSizeBytes''
           tool key value,
         max_check (en_max_cost env) (cost_key k) COST_NOT_ALLOWED ''Cost parameter'' ''maxCostUsd'' tool key value])"

section \<open>The scan\<close>

fun scanRecursive :: "engine \<Rightarrow> envelope \<Rightarrow> string \<Rightarrow> jval \<Rightarrow> unit confined" where
  "scanRecursive eg env tool (VArr xs) = all_checks (map (scanRecursive eg env tool) xs)"
| "scanRecursive eg env tool (VObj kvs) =
     all_checks (concat (map (\<lambda>(k, v).
       [checkKeyAndValue eg env tool k v, scanRecursive eg env tool v]) kvs))"
| "scanRecursive eg env tool _ = Inr ()"

definition tool_allowed :: "envelope \<Rightarrow> string list option \<Rightarrow> string \<Rightarrow> jval \<Rightarrow> unit confined" where
  "tool_allowed env declared tool args =
     (if tool \<notin> set (en_tools env)
      then Inl (Violation \<lparr>vi_type = TOOL_NOT_ALLOWED,
        vi_detail = ''Tool '' @ dq tool @ '' is not in the authorization envelope allowedTools: ['' @
          join_with '', '' (en_tools env) @ '']'', vi_tool = tool, vi_args = Some args\<rparr>)
      else case declared of
        None \<Rightarrow> Inr ()
      | Some d \<Rightarrow>
          if tool \<in> set d then Inr ()
          else Inl (Violation \<lparr>vi_type = TOOL_NOT_ALLOWED,
            vi_detail = ''Tool '' @ dq tool @ '' is not declared in the active model profile declaredTools: ['' @
              join_with '', '' d @ '']'', vi_tool = tool, vi_args = Some args\<rparr>))"

definition assertConforms ::
  "engine \<Rightarrow> string \<Rightarrow> (string \<times> jval) list \<Rightarrow> envelope \<Rightarrow> string list option \<Rightarrow> unit confined" where
  "assertConforms eg tool args env declared =
     all_checks [tool_allowed env declared tool (VObj args), scanRecursive eg env tool (VObj args)]"

record validation_outcome =
  vo_valid :: bool
  vo_error :: "violation option"

text \<open>A \<open>RangeError\<close> is thrown on.\<close>

definition validate_args ::
  "engine \<Rightarrow> string \<Rightarrow> (string \<times> jval) list \<Rightarrow> envelope \<Rightarrow> string list option \<Rightarrow> validation_outcome result" where
  "validate_args eg tool args env declared =
     (case assertConforms eg tool args env declared of
        Inr _ \<Rightarrow> Inr \<lparr>vo_valid = True, vo_error = None\<rparr>
      | Inl (Violation v) \<Rightarrow> Inr \<lparr>vo_valid = False, vo_error = Some v\<rparr>
      | Inl (Thrown e) \<Rightarrow> Inl e)"

end
