(* ===== verification/Agent_Evidence.thy ===== *)
theory Agent_Evidence
  imports Alert_Guardrails Agent_Confinement
begin

text \<open>
  packages/agent-runtime/src/evidence-validator.ts: every claim of a decision is checked against the
  evidence it cites. The evidence is a map by identifier; \<open>Date.parse\<close> is the engine's
  (\<open>date_ms\<close>); \<open>sha\<close> and \<open>lc\<close> are the digest and the collation of the host.
\<close>

section \<open>Evidence, claims and failures\<close>

record evidence =
  ev_id :: string
  ev_entity :: string
  ev_candidate :: "string option"
  ev_asset :: "string option"
  ev_provider :: string
  ev_operation :: string
  ev_group :: string
  ev_available :: string
  ev_fetched :: string
  ev_fields :: "(string \<times> jval) list"
  ev_quality :: "string list"
  ev_sha :: "string option"

type_synonym evidence_map = "(string \<times> evidence) list"

datatype confidence = CfLOW | CfMEDIUM | CfHIGH

record claim_ref =
  cl_claim :: string
  cl_evidence :: "string list"
  cl_confidence :: "confidence option"

datatype claim_type = ObservedFacts | DerivedFacts | Inferences | Hypotheses

fun show_claim_type :: "claim_type \<Rightarrow> string" where
  "show_claim_type ObservedFacts = ''observedFacts''"
| "show_claim_type DerivedFacts = ''derivedFacts''"
| "show_claim_type Inferences = ''inferences''"
| "show_claim_type Hypotheses = ''hypotheses''"

record failure =
  fa_code :: string
  fa_message :: string
  fa_index :: int
  fa_type :: claim_type
  fa_evidence :: "string option"

record validator_options =
  op_time :: string
  op_max_fresh :: "rat option"
  op_groups :: "rat option"
  op_candidate :: "string option"
  op_entity :: "string option"

text \<open>What the validator reads of a decision.\<close>

record claims =
  ca_observed :: "claim_ref list"
  ca_derived :: "claim_ref list"
  ca_inferences :: "claim_ref list"
  ca_hypotheses :: "claim_ref list"
  ca_thesis :: string
  ca_counter :: string

record lineage =
  ln_ids :: "string list"
  ln_hashes :: "string list"
  ln_count :: nat
  ln_group_count :: nat
  ln_groups :: "string list"
  ln_validated :: string

record validator_result =
  vr_valid :: bool
  vr_failures :: "failure list"
  vr_lineage :: lineage

section \<open>Language of a claim\<close>

definition backslash :: string where
  "backslash = [CHR 0x5C]"

fun pat_source :: "pat list \<Rightarrow> string" where
  "pat_source [] = []"
| "pat_source (Lit w # ps) = w @ pat_source ps"
| "pat_source (Spaces # ps) = backslash @ ''s+'' @ pat_source ps"
| "pat_source (Digits # ps) = backslash @ ''d+'' @ pat_source ps"

definition financial_patterns :: "pat list list" where
  "financial_patterns =
     [[Lit ''guaranteed'', Spaces, Lit ''profit''], [Lit ''certain'', Spaces, Lit ''to'', Spaces, Lit ''rise''],
      [Lit ''will'', Spaces, Lit ''moon''], [Lit ''buy'', Spaces, Lit ''now''],
      [Lit ''100x'', Spaces, Lit ''guaranteed'']]"

definition safety_patterns :: "pat list list" where
  "safety_patterns =
     [[Lit ''safe'', Spaces, Lit ''to'', Spaces, Lit ''buy''], [Lit ''no'', Spaces, Lit ''risk''],
      [Lit ''audited'', Spaces, Lit ''and'', Spaces, Lit ''safe''], [Lit ''completely'', Spaces, Lit ''secure'']]"

text \<open>\<open>/\brisk[-\s]*free\b/i\<close>, the last prohibited phrase.\<close>

definition risk_free_here :: "char option \<Rightarrow> string \<Rightarrow> bool" where
  "risk_free_here prev s =
     (boundary prev s \<and>
      (case match_lit ''risk'' prev s of
         None \<Rightarrow> False
       | Some (q, r) \<Rightarrow>
           (let w = takeWhile (\<lambda>c. js_space c \<or> c = CHR ''-'') r in
            case match_lit ''free'' (if w = [] then q else Some (last w)) (drop (length w) r) of
              None \<Rightarrow> False
            | Some (q', r') \<Rightarrow> boundary q' r')))"

fun risk_free :: "char option \<Rightarrow> string \<Rightarrow> bool" where
  "risk_free prev [] = risk_free_here prev []"
| "risk_free prev (c # cs) = (risk_free_here prev (c # cs) \<or> risk_free (Some c) cs)"

definition checkProhibitedLanguage :: "string \<Rightarrow> string option" where
  "checkProhibitedLanguage s =
     (case find (\<lambda>ps. search ps None s) financial_patterns of
        Some ps \<Rightarrow> Some (backslash @ ''b'' @ pat_source ps @ backslash @ ''b'')
      | None \<Rightarrow>
          if risk_free None s
          then Some (backslash @ ''brisk[-'' @ backslash @ ''s]*free'' @ backslash @ ''b'') else None)"

section \<open>Agreement of a claim with its evidence\<close>

text \<open>\<open>a ?? b\<close> on members: an absent or null member falls through.\<close>

fun first_member :: "string list \<Rightarrow> (string \<times> jval) list \<Rightarrow> jval option" where
  "first_member [] fs = None"
| "first_member (k # ks) fs =
     (case map_of fs k of
        None \<Rightarrow> first_member ks fs
      | Some v \<Rightarrow> if v = VNull then (if ks = [] then Some v else first_member ks fs) else Some v)"

fun number_below :: "rat \<Rightarrow> jval option \<Rightarrow> bool" where
  "number_below n (Some (VNum x)) = (x < n)"
| "number_below n _ = False"

definition direction_in :: "string list \<Rightarrow> (string \<times> jval) list \<Rightarrow> bool" where
  "direction_in ds fs = list_ex (\<lambda>d. map_of fs ''direction'' = Some (VStr d)) ds"

definition checkDirectionMagnitude :: "string \<Rightarrow> (string \<times> jval) list \<Rightarrow> string option" where
  "checkDirectionMagnitude claim fs =
     (let l = toLowerCase claim; has = text_includes l;
          rise = has ''price'' \<and> (has ''increased'' \<or> has ''rose'' \<or> has ''up'');
          fall = has ''price'' \<and> (has ''decreased'' \<or> has ''fell'' \<or> has ''down'')
      in if rise \<and> number_below 0 (first_member [''price'', ''priceUsd'', ''value''] fs)
         then Some ''claimed increase but normalized price is negative''
         else if rise \<and> direction_in [''down'', ''decreased''] fs
         then Some ''claimed increase but evidence direction is down''
         else if fall \<and> direction_in [''up'', ''increased''] fs
         then Some ''claimed decrease but evidence direction is up''
         else if has ''liquidity'' \<and> has ''high'' \<and> number_below 1000 (first_member [''liquidityUsd'', ''liquidity''] fs)
         then Some ''claimed high liquidity but value is very low''
         else None)"

definition supports_safety :: "evidence \<Rightarrow> bool" where
  "supports_safety ev \<longleftrightarrow>
     (map_of (ev_fields ev) ''auditPassed'' = Some (VBool True) \<or>
      map_of (ev_fields ev) ''isSafe'' = Some (VBool True) \<or> ''VALID'' \<in> set (ev_quality ev)) \<and>
     (map_of (ev_fields ev) ''risk'' = Some (VStr ''LOW'') \<or>
      map_of (ev_fields ev) ''auditPassed'' = Some (VBool True))"

definition supported_by :: "evidence_map \<Rightarrow> string \<Rightarrow> bool" where
  "supported_by m eid = (case map_of m eid of None \<Rightarrow> False | Some ev \<Rightarrow> supports_safety ev)"

definition checkUnsupportedSafety :: "string \<Rightarrow> string list \<Rightarrow> evidence_map \<Rightarrow> string option" where
  "checkUnsupportedSafety claim ids m =
     (if list_ex (\<lambda>ps. search ps None (toLowerCase claim)) safety_patterns \<and> \<not> list_ex (supported_by m) ids
      then Some ''safety claim without supporting auditPassed/risk LOW evidence'' else None)"

section \<open>Checks of one cited record\<close>

definition place :: "claim_type \<Rightarrow> nat \<Rightarrow> string" where
  "place t k = show_claim_type t @ ''['' @ show_nat k @ '']''"

definition fail :: "string \<Rightarrow> string \<Rightarrow> nat \<Rightarrow> claim_type \<Rightarrow> string option \<Rightarrow> failure list" where
  "fail code msg k t eid =
     [\<lparr>fa_code = code, fa_message = msg, fa_index = int k, fa_type = t, fa_evidence = eid\<rparr>]"

definition given :: "string option \<Rightarrow> string option" where
  "given x = (case x of None \<Rightarrow> None | Some s \<Rightarrow> if s = [] then None else Some s)"

definition entity_failures :: "validator_options \<Rightarrow> evidence \<Rightarrow> string \<Rightarrow> nat \<Rightarrow> claim_type \<Rightarrow> failure list" where
  "entity_failures opts ev eid k t =
     (case (given (op_candidate opts), given (ev_candidate ev)) of
        (Some c, Some c') \<Rightarrow>
          if c' \<noteq> c then fail ''EVIDENCE_ENTITY_MISMATCH''
            (''Evidence '' @ dq eid @ '' candidateId '' @ dq c' @ '' does not match decision candidate '' @ dq c) k t (Some eid)
          else []
      | _ \<Rightarrow> []) @
     (case given (op_entity opts) of
        None \<Rightarrow> []
      | Some x \<Rightarrow>
          if ev_entity ev \<noteq> x \<and> ev_candidate ev \<noteq> Some x then fail ''EVIDENCE_ENTITY_MISMATCH''
            (''Evidence '' @ dq eid @ '' entityId '' @ dq (ev_entity ev) @ '' does not match expected '' @ dq x) k t (Some eid)
          else [])"

definition time_failures ::
  "engine \<Rightarrow> validator_options \<Rightarrow> int \<Rightarrow> evidence \<Rightarrow> string \<Rightarrow> nat \<Rightarrow> claim_type \<Rightarrow> failure list" where
  "time_failures eg opts decisionMs ev eid k t =
     (case date_ms eg (ev_available ev) of
        None \<Rightarrow> fail ''INVALID_EVIDENCE_TIMESTAMP''
          (''Evidence '' @ dq eid @ '' has invalid availableAt '' @ dq (ev_available ev)) k t (Some eid)
      | Some a \<Rightarrow>
          (if decisionMs < a then fail ''EVIDENCE_NOT_AVAILABLE_AT_DECISION_TIME''
             (''Evidence '' @ dq eid @ '' availableAt '' @ dq (ev_available ev) @ '' is after decision time '' @
               dq (op_time opts)) k t (Some eid)
           else []) @
          (case (op_max_fresh opts, date_ms eg (ev_fetched ev)) of
             (Some m, Some f) \<Rightarrow>
               (let age = decisionMs - max a f in
                if m < rat_of_int age then fail ''EVIDENCE_STALE''
                  (''Evidence '' @ dq eid @ '' is stale: age '' @ show_int age @ ''ms exceeds '' @ show_num m @ ''ms'')
                  k t (Some eid)
                else [])
           | _ \<Rightarrow> []))"

definition evidence_failures ::
  "engine \<Rightarrow> validator_options \<Rightarrow> int \<Rightarrow> evidence_map \<Rightarrow> string \<Rightarrow> claim_type \<Rightarrow> nat \<Rightarrow> string \<Rightarrow> failure list" where
  "evidence_failures eg opts decisionMs m claim t k eid =
     (case map_of m eid of
        None \<Rightarrow> fail ''EVIDENCE_NOT_FOUND''
          (''Evidence '' @ dq eid @ '' cited by '' @ place t k @ '' does not exist'') k t (Some eid)
      | Some ev \<Rightarrow>
          entity_failures opts ev eid k t @ time_failures eg opts decisionMs ev eid k t @
          (case checkDirectionMagnitude claim (ev_fields ev) of
             None \<Rightarrow> []
           | Some why \<Rightarrow> fail ''CLAIM_EVIDENCE_MISMATCH''
               (''Claim '' @ dq claim @ '' direction/magnitude mismatch for evidence '' @ dq eid @ '': '' @ why)
               k t (Some eid)))"

section \<open>Checks of one claim\<close>

definition claim_failures ::
  "engine \<Rightarrow> validator_options \<Rightarrow> int \<Rightarrow> evidence_map \<Rightarrow> claim_type \<Rightarrow> nat \<Rightarrow> claim_ref \<Rightarrow> failure list" where
  "claim_failures eg opts decisionMs m t k c =
     (let text = cl_claim c; ids = cl_evidence c in
      if ids = [] then
        (if t = Hypotheses then []
         else fail ''MISSING_EVIDENCE_IDS'' (''Claim '' @ dq text @ '' in '' @ place t k @ '' has no evidenceIds'') k t None)
      else
        concat (map (evidence_failures eg opts decisionMs m text t k) ids) @
        (case checkUnsupportedSafety text ids m of
           None \<Rightarrow> []
         | Some why \<Rightarrow> fail ''UNSUPPORTED_SAFETY_ASSERTION''
             (''Claim '' @ dq text @ '' makes unsupported safety assertion: '' @ why) k t None) @
        (case checkProhibitedLanguage text of
           None \<Rightarrow> []
         | Some src \<Rightarrow> fail ''PROHIBITED_FINANCIAL_LANGUAGE''
             (''Claim '' @ dq text @ '' contains prohibited financial language: '' @ src) k t None))"

definition claim_groups :: "claims \<Rightarrow> (claim_type \<times> claim_ref list) list" where
  "claim_groups d = [(ObservedFacts, ca_observed d), (DerivedFacts, ca_derived d),
     (Inferences, ca_inferences d), (Hypotheses, ca_hypotheses d)]"

definition group_failures ::
  "engine \<Rightarrow> validator_options \<Rightarrow> int \<Rightarrow> evidence_map \<Rightarrow> claim_type \<times> claim_ref list \<Rightarrow> failure list" where
  "group_failures eg opts decisionMs m g =
     concat (map (\<lambda>(k, c). claim_failures eg opts decisionMs m (fst g) k c) (enumerate 0 (snd g)))"

text \<open>The identifiers all claims cite, and the independence groups of those that exist; a set keeps
  the order of insertion.\<close>

definition add_new :: "'a \<Rightarrow> 'a list \<Rightarrow> 'a list" where
  "add_new x xs = (if x \<in> set xs then xs else xs @ [x])"

definition cited_ids :: "claims \<Rightarrow> string list" where
  "cited_ids d =
     fold add_new (concat (map cl_evidence (concat (map snd (claim_groups d))))) []"

definition cited_groups :: "claims \<Rightarrow> evidence_map \<Rightarrow> string list" where
  "cited_groups d m =
     fold (\<lambda>eid gs. case map_of m eid of
         None \<Rightarrow> gs
       | Some ev \<Rightarrow> if ev_group ev = [] then gs else add_new (ev_group ev) gs) (cited_ids d) []"

section \<open>\<open>validate\<close>\<close>

definition decision_failure :: "string \<Rightarrow> string \<Rightarrow> failure list" where
  "decision_failure code msg =
     [\<lparr>fa_code = code, fa_message = msg, fa_index = - 1, fa_type = ObservedFacts, fa_evidence = None\<rparr>]"

definition thesis_failures :: "string \<Rightarrow> failure list" where
  "thesis_failures field =
     (case checkProhibitedLanguage field of
        None \<Rightarrow> []
      | Some src \<Rightarrow> decision_failure ''PROHIBITED_FINANCIAL_LANGUAGE''
          (''Decision field contains prohibited language: '' @ src @ '' in '' @ dq (take 80 field)))"

definition has_important_claims :: "claims \<Rightarrow> bool" where
  "has_important_claims d = list_ex (\<lambda>(t, cs). cs \<noteq> [] \<and> t \<noteq> Hypotheses) (claim_groups d)"

definition independence_failures :: "validator_options \<Rightarrow> claims \<Rightarrow> evidence_map \<Rightarrow> failure list" where
  "independence_failures opts d m =
     (case op_groups opts of
        None \<Rightarrow> []
      | Some r \<Rightarrow>
          (let n = length (cited_groups d m) in
           if of_nat n < r \<and> has_important_claims d then decision_failure ''INSUFFICIENT_INDEPENDENCE''
             (''Effective independence groups '' @ show_nat n @ '' < required '' @ show_num r)
           else []))"

definition evidence_json :: "evidence \<Rightarrow> jval" where
  "evidence_json e = VObj
     ([(''id'', VStr (ev_id e)), (''entityId'', VStr (ev_entity e))] @
      (case ev_candidate e of None \<Rightarrow> [] | Some c \<Rightarrow> [(''candidateId'', VStr c)]) @
      (case ev_asset e of None \<Rightarrow> [] | Some c \<Rightarrow> [(''assetId'', VStr c)]) @
      [(''provider'', VStr (ev_provider e)), (''operation'', VStr (ev_operation e)),
       (''independenceGroup'', VStr (ev_group e)), (''availableAt'', VStr (ev_available e)),
       (''fetchedAt'', VStr (ev_fetched e)), (''normalizedFields'', VObj (ev_fields e)),
       (''qualityCodes'', VArr (map VStr (ev_quality e)))] @
      (case ev_sha e of None \<Rightarrow> [] | Some c \<Rightarrow> [(''artifactSha256'', VStr c)]))"

definition canonicalJson :: "(string \<Rightarrow> string \<Rightarrow> int) \<Rightarrow> jval \<Rightarrow> string" where
  "canonicalJson lc v = stringify_val (canonicalize lc v)"

definition evidence_hash ::
  "(string \<Rightarrow> string) \<Rightarrow> (string \<Rightarrow> string \<Rightarrow> int) \<Rightarrow> evidence_map \<Rightarrow> string \<Rightarrow> string" where
  "evidence_hash sha lc m eid =
     (case map_of m eid of
        None \<Rightarrow> sha eid
      | Some ev \<Rightarrow> (case given (ev_sha ev) of Some h \<Rightarrow> h | None \<Rightarrow> sha (canonicalJson lc (evidence_json ev))))"

definition validate_evidence ::
  "engine \<Rightarrow> (string \<Rightarrow> string) \<Rightarrow> (string \<Rightarrow> string \<Rightarrow> int) \<Rightarrow> string \<Rightarrow> claims \<Rightarrow> evidence_map
     \<Rightarrow> validator_options \<Rightarrow> validator_result result" where
  "validate_evidence eg sha lc now d m opts =
     (case date_ms eg (op_time opts) of
        None \<Rightarrow> Inl (Error ''INVALID_DECISION_TIME'')
      | Some decisionMs \<Rightarrow>
          (let failures = concat (map (group_failures eg opts decisionMs m) (claim_groups d)) @
                 thesis_failures (ca_thesis d) @ thesis_failures (ca_counter d) @ independence_failures opts d m;
               ids = sort (cited_ids d); groups = cited_groups d m
           in Inr \<lparr>vr_valid = (failures = []), vr_failures = failures,
                vr_lineage = \<lparr>ln_ids = ids, ln_hashes = map (evidence_hash sha lc m) ids, ln_count = length ids,
                  ln_group_count = length groups, ln_groups = sort groups, ln_validated = now\<rparr>\<rparr>))"

end
