(* ===== verification/Agent_Profiles.thy ===== *)
theory Agent_Profiles
  imports Js_Text
begin

text \<open>
  packages/agent-runtime/src/model-profiles.ts with the profile schema of shared-schemas/src/agt.ts:
  the built-in model profiles, comparison of versions and the registry, which keeps a profile under
  its id and version and, under the bare id, the default. A \<open>ZodError\<close> is a \<open>TypeError\<close>.
\<close>

section \<open>Profiles\<close>

datatype model_class = TRIAGE | DEEP_RESEARCH | SKEPTIC | ADMIN_CHAT | REPAIR

record model_profile =
  mp_id :: string
  mp_version :: string
  mp_class :: model_class
  mp_provider :: string
  mp_model :: string
  mp_tools :: "string list"
  mp_max_tokens :: rat
  mp_max_context :: rat
  mp_temperature :: rat
  mp_top_p :: "rat option"
  mp_seed :: "rat option"
  mp_cost_in :: "rat option"
  mp_cost_out :: "rat option"

definition whole :: "rat \<Rightarrow> bool" where
  "whole x = (rat_of_int \<lfloor>x\<rfloor> = x)"

definition optional :: "('a \<Rightarrow> bool) \<Rightarrow> 'a option \<Rightarrow> bool" where
  "optional P x = (case x of None \<Rightarrow> True | Some a \<Rightarrow> P a)"

text \<open>\<open>ModelProfileSchema\<close>.\<close>

definition profile_schema :: "model_profile \<Rightarrow> bool" where
  "profile_schema p \<longleftrightarrow>
     mp_id p \<noteq> [] \<and> mp_version p \<noteq> [] \<and> mp_provider p \<noteq> [] \<and> mp_model p \<noteq> [] \<and>
     list_all (\<lambda>t. t \<noteq> []) (mp_tools p) \<and>
     whole (mp_max_tokens p) \<and> 0 < mp_max_tokens p \<and> whole (mp_max_context p) \<and> 0 < mp_max_context p \<and>
     0 \<le> mp_temperature p \<and> mp_temperature p \<le> 2 \<and> optional (\<lambda>x. 0 \<le> x \<and> x \<le> 1) (mp_top_p p) \<and>
     optional whole (mp_seed p) \<and> optional ((\<le>) 0) (mp_cost_in p) \<and> optional ((\<le>) 0) (mp_cost_out p)"

definition builtin_profile ::
  "string \<Rightarrow> model_class \<Rightarrow> string \<Rightarrow> string \<Rightarrow> string list \<Rightarrow> rat \<Rightarrow> rat \<Rightarrow> rat \<Rightarrow> rat \<Rightarrow> model_profile" where
  "builtin_profile pid cls provider model tools maxTokens maxContext costIn costOut =
     \<lparr>mp_id = pid, mp_version = ''1.0.0'', mp_class = cls, mp_provider = provider, mp_model = model,
      mp_tools = tools, mp_max_tokens = maxTokens, mp_max_context = maxContext, mp_temperature = 0,
      mp_top_p = None, mp_seed = None, mp_cost_in = Some costIn, mp_cost_out = Some costOut\<rparr>"

definition DEFAULT_MODEL_PROFILES :: "model_profile list" where
  "DEFAULT_MODEL_PROFILES =
     [builtin_profile ''fast-triage-v1'' TRIAGE ''google'' ''gemini-1.5-flash''
        [''dex.pairs'', ''token.profile'', ''market.summary''] 2048 32768 (1 / 10000000) (4 / 10000000),
      builtin_profile ''deep-research-v1'' DEEP_RESEARCH ''anthropic'' ''claude-3-5-sonnet''
        [''dex.pairs'', ''dex.screener'', ''token.profile'', ''holder.distribution'', ''contract.audit'',
         ''solana.transaction_trace'', ''pool.liquidity'', ''signal.score'', ''simulation.execution'']
        8192 128000 (3 / 1000000) (15 / 1000000),
      builtin_profile ''skeptic-v1'' SKEPTIC ''deepseek'' ''deepseek-reasoner''
        [''contract.audit'', ''holder.distribution'', ''liquidity.lock'', ''simulation.sell'', ''risk.honeypot_scan'']
        4096 64000 (5 / 10000000) (2 / 1000000),
      builtin_profile ''admin-chat-v1'' ADMIN_CHAT ''anthropic'' ''claude-3-5-sonnet''
        [''schedule.inspect'', ''candidate.inspect'', ''run.inspect'', ''alert.inspect'', ''incident.list'']
        4096 64000 (3 / 1000000) (15 / 1000000),
      builtin_profile ''repair-v1'' REPAIR ''google'' ''gemini-1.5-flash'' [] 4096 32768
        (1 / 10000000) (4 / 10000000)]"

section \<open>Versions\<close>

text \<open>\<open>parseInt(x, 10) || 0\<close>.\<close>

definition parse_int_or_0 :: "string \<Rightarrow> int" where
  "parse_int_or_0 x =
     (let s = dropWhile js_space x; neg = startsWith s ''-'';
          d = takeWhile is_digit (if neg \<or> startsWith s ''+'' then drop 1 s else s)
      in (if neg then - 1 else 1) * int (read_nat d))"

definition version_parts :: "string \<Rightarrow> int list" where
  "version_parts v = map parse_int_or_0 (split_on CHR ''.'' v)"

text \<open>A missing part counts as 0.\<close>

fun compare_parts :: "int list \<Rightarrow> int list \<Rightarrow> int" where
  "compare_parts [] [] = 0"
| "compare_parts (x # xs) [] = (if 0 < x then 1 else if x < 0 then - 1 else compare_parts xs [])"
| "compare_parts [] (y # ys) = (if y < 0 then 1 else if 0 < y then - 1 else compare_parts [] ys)"
| "compare_parts (x # xs) (y # ys) = (if y < x then 1 else if x < y then - 1 else compare_parts xs ys)"

definition compareSemver :: "string \<Rightarrow> string \<Rightarrow> int" where
  "compareSemver a b = compare_parts (version_parts a) (version_parts b)"

section \<open>The registry\<close>

type_synonym registry = "(string \<times> model_profile) list"

definition versioned_key :: "string \<Rightarrow> string \<Rightarrow> string" where
  "versioned_key pid version = pid @ ''@'' @ version"

definition makeKey :: "string \<Rightarrow> string option \<Rightarrow> string" where
  "makeKey pid version =
     (case version of None \<Rightarrow> pid | Some v \<Rightarrow> if v = [] then pid else versioned_key pid v)"

definition register :: "model_profile \<Rightarrow> bool \<Rightarrow> registry \<Rightarrow> unit result \<times> registry" where
  "register profile isDefault reg =
     (if \<not> profile_schema profile then (Inl (TypeError ''ZodError''), reg)
      else
        (let reg1 = assoc_set (versioned_key (mp_id profile) (mp_version profile)) profile reg in
         (Inr (),
          (case map_of reg1 (mp_id profile) of
             None \<Rightarrow> assoc_set (mp_id profile) profile reg1
           | Some cur \<Rightarrow>
               if isDefault \<or> 0 \<le> compareSemver (mp_version profile) (mp_version cur)
               then assoc_set (mp_id profile) profile reg1 else reg1))))"

definition get_profile :: "string \<Rightarrow> string option \<Rightarrow> registry \<Rightarrow> model_profile option" where
  "get_profile pid version reg = map_of reg (makeKey pid version)"

text \<open>\<open>UnknownModelProfileError\<close>.\<close>

definition unknown_profile :: "string \<Rightarrow> string option \<Rightarrow> error" where
  "unknown_profile pid version =
     Error (''Unknown model profile: '' @ [CHR 0x22] @ pid @ [CHR 0x22] @
       (case version of None \<Rightarrow> [] | Some v \<Rightarrow> if v = [] then [] else '' version '' @ [CHR 0x22] @ v @ [CHR 0x22]))"

definition require_profile :: "string \<Rightarrow> string option \<Rightarrow> registry \<Rightarrow> model_profile result" where
  "require_profile pid version reg =
     (case get_profile pid version reg of
        None \<Rightarrow> Inl (unknown_profile pid version)
      | Some p \<Rightarrow> Inr p)"

definition list_profiles :: "registry \<Rightarrow> model_profile list" where
  "list_profiles reg = map snd (filter (\<lambda>(k, _). CHR ''@'' \<in> set k) reg)"

definition isToolAllowed :: "string \<Rightarrow> string \<Rightarrow> string option \<Rightarrow> registry \<Rightarrow> bool" where
  "isToolAllowed pid tool version reg =
     (case get_profile pid version reg of None \<Rightarrow> False | Some p \<Rightarrow> tool \<in> set (mp_tools p))"

definition validateDeclaredTools ::
  "string \<Rightarrow> string list \<Rightarrow> string option \<Rightarrow> registry \<Rightarrow> (bool \<times> string list) result" where
  "validateDeclaredTools pid requested version reg =
     bind_result (require_profile pid version reg) (\<lambda>p.
       let unauthorized = filter (\<lambda>t. t \<notin> set (mp_tools p)) requested
       in Inr (unauthorized = [], unauthorized))"

definition new_registry :: "model_profile list \<Rightarrow> unit result \<times> registry" where
  "new_registry profiles = fold (\<lambda>p r. and_then r (\<lambda>_ reg. register p False reg)) profiles (Inr (), [])"

section \<open>Versions are ordered\<close>

lemma compare_refl [simp]: "compare_parts xs xs = 0"
  by (induction xs) auto

lemma compare_swap: "compare_parts ys xs = - compare_parts xs ys"
  by (induction xs ys rule: compare_parts.induct) auto

lemma compare_Nil_trans:
  "0 \<le> compare_parts xs [] \<Longrightarrow> 0 \<le> compare_parts [] zs \<Longrightarrow> 0 \<le> compare_parts xs zs"
  by (induction xs zs rule: compare_parts.induct) (auto split: if_splits)

lemma compare_trans: "0 \<le> compare_parts xs ys \<Longrightarrow> 0 \<le> compare_parts ys zs \<Longrightarrow> 0 \<le> compare_parts xs zs"
proof (induction ys arbitrary: xs zs)
  case Nil
  then show ?case by (rule compare_Nil_trans)
next
  case (Cons y ys)
  show ?case using Cons.prems Cons.IH [of "tl xs" "tl zs"]
    by (cases xs; cases zs; simp split: if_splits)
qed

lemma semver_trans: "0 \<le> compareSemver a b \<Longrightarrow> 0 \<le> compareSemver b c \<Longrightarrow> 0 \<le> compareSemver a c"
  unfolding compareSemver_def by (rule compare_trans)

lemma semver_total: "0 \<le> compareSemver a b \<or> 0 \<le> compareSemver b a"
  using compare_swap [of "version_parts a" "version_parts b"] unfolding compareSemver_def by linarith

lemma semver_refl [simp]: "compareSemver a a = 0"
  by (simp add: compareSemver_def)

section \<open>The default profile\<close>

definition register_all :: "model_profile list \<Rightarrow> registry" where
  "register_all ps = fold (\<lambda>p reg. snd (register p False reg)) ps []"

definition plain_id :: "model_profile \<Rightarrow> bool" where
  "plain_id p = (profile_schema p \<and> CHR ''@'' \<notin> set (mp_id p))"

definition highest :: "model_profile list \<Rightarrow> string \<Rightarrow> model_profile \<Rightarrow> bool" where
  "highest ps pid d \<longleftrightarrow>
     d \<in> set ps \<and> mp_id d = pid \<and>
     (\<forall>q\<in>set ps. mp_id q = pid \<longrightarrow> 0 \<le> compareSemver (mp_version d) (mp_version q))"

definition default_of :: "model_profile list \<Rightarrow> registry \<Rightarrow> string \<Rightarrow> bool" where
  "default_of ps reg pid =
     (case map_of reg pid of
        None \<Rightarrow> \<forall>q\<in>set ps. mp_id q \<noteq> pid
      | Some d \<Rightarrow> highest ps pid d)"

lemma register_default:
  assumes "plain_id p" "CHR ''@'' \<notin> set pid" "default_of ps reg pid"
  shows "default_of (ps @ [p]) (snd (register p False reg)) pid"
proof -
  let ?reg1 = "assoc_set (versioned_key (mp_id p) (mp_version p)) p reg"
  have key: "pid \<noteq> versioned_key (mp_id p) (mp_version p)"
    using assms(2) by (auto simp: versioned_key_def)
  have key': "mp_id p \<noteq> versioned_key (mp_id p) (mp_version p)"
    by (simp add: versioned_key_def)
  show ?thesis
  proof (cases "mp_id p = pid")
    case False
    then have "map_of (snd (register p False reg)) pid = map_of reg pid"
      using assms(1) key by (auto simp: register_def plain_id_def Let_def split: option.split)
    then show ?thesis using assms(3) False
      by (auto simp: default_of_def highest_def split: option.splits)
  next
    case True
    show ?thesis
    proof (cases "map_of reg pid")
      case None
      then show ?thesis using assms True key'
        by (auto simp: default_of_def highest_def register_def plain_id_def Let_def)
    next
      case (Some d)
      then have d: "highest ps pid d" using assms(3) by (simp add: default_of_def)
      have m: "map_of ?reg1 pid = Some d" using Some key by simp
      show ?thesis
      proof (cases "0 \<le> compareSemver (mp_version p) (mp_version d)")
        case up: True
        then have "map_of (snd (register p False reg)) pid = Some p"
          using assms(1) m True by (simp add: register_def plain_id_def Let_def)
        moreover have "highest (ps @ [p]) pid p"
          using d True up semver_trans unfolding highest_def by auto
        ultimately show ?thesis by (simp add: default_of_def)
      next
        case False
        then have "map_of (snd (register p False reg)) pid = Some d"
          using assms(1) m True by (simp add: register_def plain_id_def Let_def)
        moreover have "highest (ps @ [p]) pid d"
          using d True False semver_total unfolding highest_def by auto
        ultimately show ?thesis by (simp add: default_of_def)
      qed
    qed
  qed
qed

lemma register_all_default:
  "\<forall>p\<in>set ps. plain_id p \<Longrightarrow> CHR ''@'' \<notin> set pid \<Longrightarrow> default_of ps (register_all ps) pid"
proof (induction ps rule: rev_induct)
  case Nil
  then show ?case by (simp add: register_all_def default_of_def)
next
  case (snoc p ps)
  then show ?case using register_default [of p pid ps "register_all ps"] by (simp add: register_all_def)
qed

text \<open>After any registrations a profile asked for by its bare id is one of the registered ones with
  that id, no registered version of it is higher, and it is found exactly when there is one.\<close>

theorem default_profile_is_highest:
  assumes "\<forall>p\<in>set ps. plain_id p" "CHR ''@'' \<notin> set pid"
  shows "case require_profile pid None (register_all ps) of
      Inl e \<Rightarrow> e = unknown_profile pid None \<and> (\<forall>q\<in>set ps. mp_id q \<noteq> pid)
    | Inr d \<Rightarrow> highest ps pid d"
  using register_all_default [OF assms]
  by (auto simp: require_profile_def get_profile_def makeKey_def default_of_def split: option.splits)

theorem default_profile_is_highest_witness:
  "case require_profile ''repair-v1'' None (register_all DEFAULT_MODEL_PROFILES) of
      Inl e \<Rightarrow> False
    | Inr d \<Rightarrow> highest DEFAULT_MODEL_PROFILES ''repair-v1'' d"
proof -
  have "\<forall>p\<in>set DEFAULT_MODEL_PROFILES. plain_id p"
    by (simp add: DEFAULT_MODEL_PROFILES_def plain_id_def profile_schema_def builtin_profile_def whole_def optional_def)
  moreover have "CHR ''@'' \<notin> set ''repair-v1''" by simp
  moreover have "\<exists>q\<in>set DEFAULT_MODEL_PROFILES. mp_id q = ''repair-v1''"
    by (simp add: DEFAULT_MODEL_PROFILES_def builtin_profile_def)
  ultimately show ?thesis
    using default_profile_is_highest [of DEFAULT_MODEL_PROFILES "''repair-v1''"] by (auto split: sum.splits)
qed

end
