(* ===== verification/Agent_Budget.thy ===== *)
theory Agent_Budget
  imports Js_Number Js_Date
begin

text \<open>
  packages/agent-runtime/src/budget-tracker.ts: the counters of an agent run and the checks before
  every use. A thrown \<open>BudgetExceededError\<close> is the left value with its four arguments; amounts are
  exact rationals; the clock's milliseconds are an argument.
\<close>

section \<open>Budgets and counters\<close>

record agent_budget =
  bu_max_steps :: rat
  bu_max_tool_calls :: rat
  bu_max_per_candidate :: "rat option"
  bu_max_provider_calls :: "rat option"
  bu_max_input_tokens :: "rat option"
  bu_max_output_tokens :: "rat option"
  bu_max_cost :: "rat option"
  bu_max_units :: "rat option"
  bu_deadline :: "string option"

record budget_error =
  be_kind :: string
  be_current :: rat
  be_limit :: rat
  be_requested :: rat

type_synonym 'a checked = "budget_error + 'a"

record usage =
  us_steps :: rat
  us_tool_calls :: rat
  us_candidates :: "(string \<times> rat) list"
  us_provider_calls :: rat
  us_input :: rat
  us_output :: rat
  us_cost :: rat
  us_units :: rat

definition no_usage :: usage where
  "no_usage = \<lparr>us_steps = 0, us_tool_calls = 0, us_candidates = [], us_provider_calls = 0, us_input = 0,
     us_output = 0, us_cost = 0, us_units = 0\<rparr>"

definition exceeded :: "string \<Rightarrow> rat \<Rightarrow> rat \<Rightarrow> rat \<Rightarrow> 'a checked" where
  "exceeded kind current limit requested =
     Inl \<lparr>be_kind = kind, be_current = current, be_limit = limit, be_requested = requested\<rparr>"

text \<open>A check on a limit that may be absent.\<close>

definition limit_check :: "string \<Rightarrow> rat option \<Rightarrow> rat \<Rightarrow> rat \<Rightarrow> unit checked" where
  "limit_check kind limit current requested =
     (case limit of
        None \<Rightarrow> Inr ()
      | Some l \<Rightarrow> if current + requested > l then exceeded kind current l requested else Inr ())"

definition next_check :: "unit checked \<Rightarrow> 'a checked \<Rightarrow> 'a checked" where
  "next_check a b = (case a of Inl e \<Rightarrow> Inl e | Inr _ \<Rightarrow> b)"

text \<open>\<open>new Date(deadlineAt).getTime()\<close>; an unreadable deadline is \<open>NaN\<close> and never reached.\<close>

definition deadline_passed :: "agent_budget \<Rightarrow> int \<Rightarrow> int option" where
  "deadline_passed b now =
     (case bu_deadline b of
        None \<Rightarrow> None
      | Some d \<Rightarrow> if d = [] then None
          else (case dateParse d of None \<Rightarrow> None | Some t \<Rightarrow> if now \<ge> t then Some t else None))"

definition checkDeadline :: "agent_budget \<Rightarrow> int \<Rightarrow> unit checked" where
  "checkDeadline b now =
     (case deadline_passed b now of
        None \<Rightarrow> Inr ()
      | Some t \<Rightarrow> exceeded ''DEADLINE'' (rat_of_int now) (rat_of_int t) 0)"

section \<open>Checks and records\<close>

definition checkStep :: "agent_budget \<Rightarrow> int \<Rightarrow> rat \<Rightarrow> usage \<Rightarrow> unit checked" where
  "checkStep b now n u =
     next_check (checkDeadline b now) (limit_check ''STEPS'' (Some (bu_max_steps b)) (us_steps u) n)"

definition record_if :: "unit checked \<Rightarrow> (usage \<Rightarrow> usage) \<Rightarrow> usage \<Rightarrow> unit checked \<times> usage" where
  "record_if check f u = (case check of Inl e \<Rightarrow> (Inl e, u) | Inr _ \<Rightarrow> (Inr (), f u))"

definition recordStep :: "agent_budget \<Rightarrow> int \<Rightarrow> rat \<Rightarrow> usage \<Rightarrow> unit checked \<times> usage" where
  "recordStep b now n u = record_if (checkStep b now n u) (\<lambda>u. u\<lparr>us_steps := us_steps u + n\<rparr>) u"

definition candidate_calls :: "usage \<Rightarrow> string \<Rightarrow> rat" where
  "candidate_calls u c = (case map_of (us_candidates u) c of None \<Rightarrow> 0 | Some n \<Rightarrow> n)"

definition checkToolCall :: "agent_budget \<Rightarrow> int \<Rightarrow> string option \<Rightarrow> rat \<Rightarrow> usage \<Rightarrow> unit checked" where
  "checkToolCall b now cand n u =
     next_check (checkDeadline b now)
      (next_check (limit_check ''TOOL_CALLS'' (Some (bu_max_tool_calls b)) (us_tool_calls u) n)
        (case cand of
           None \<Rightarrow> Inr ()
         | Some c \<Rightarrow> if c = [] then Inr ()
             else limit_check ''TOOL_CALLS_PER_CANDIDATE'' (bu_max_per_candidate b) (candidate_calls u c) n))"

definition add_candidate :: "string option \<Rightarrow> rat \<Rightarrow> usage \<Rightarrow> usage" where
  "add_candidate cand n u =
     (case cand of
        None \<Rightarrow> u
      | Some c \<Rightarrow> if c = [] then u
          else u\<lparr>us_candidates := assoc_set c (candidate_calls u c + n) (us_candidates u)\<rparr>)"

definition recordToolCall :: "agent_budget \<Rightarrow> int \<Rightarrow> string option \<Rightarrow> rat \<Rightarrow> usage \<Rightarrow> unit checked \<times> usage" where
  "recordToolCall b now cand n u =
     record_if (checkToolCall b now cand n u)
       (\<lambda>u. add_candidate cand n (u\<lparr>us_tool_calls := us_tool_calls u + n\<rparr>)) u"

definition checkProviderCall :: "agent_budget \<Rightarrow> int \<Rightarrow> rat \<Rightarrow> usage \<Rightarrow> unit checked" where
  "checkProviderCall b now n u =
     next_check (checkDeadline b now) (limit_check ''PROVIDER_CALLS'' (bu_max_provider_calls b) (us_provider_calls u) n)"

definition recordProviderCall :: "agent_budget \<Rightarrow> int \<Rightarrow> rat \<Rightarrow> usage \<Rightarrow> unit checked \<times> usage" where
  "recordProviderCall b now n u =
     record_if (checkProviderCall b now n u) (\<lambda>u. u\<lparr>us_provider_calls := us_provider_calls u + n\<rparr>) u"

definition checkTokens :: "agent_budget \<Rightarrow> int \<Rightarrow> rat \<Rightarrow> rat \<Rightarrow> rat \<Rightarrow> usage \<Rightarrow> unit checked" where
  "checkTokens b now i out cost u =
     next_check (checkDeadline b now)
      (next_check (limit_check ''INPUT_TOKENS'' (bu_max_input_tokens b) (us_input u) i)
        (next_check (limit_check ''OUTPUT_TOKENS'' (bu_max_output_tokens b) (us_output u) out)
          (limit_check ''MODEL_COST_USD'' (bu_max_cost b) (us_cost u) cost)))"

definition recordTokens :: "agent_budget \<Rightarrow> int \<Rightarrow> rat \<Rightarrow> rat \<Rightarrow> rat \<Rightarrow> usage \<Rightarrow> unit checked \<times> usage" where
  "recordTokens b now i out cost u =
     record_if (checkTokens b now i out cost u)
       (\<lambda>u. u\<lparr>us_input := us_input u + i, us_output := us_output u + out, us_cost := us_cost u + cost\<rparr>) u"

definition checkProviderCostUnits :: "agent_budget \<Rightarrow> int \<Rightarrow> rat \<Rightarrow> usage \<Rightarrow> unit checked" where
  "checkProviderCostUnits b now n u =
     next_check (checkDeadline b now) (limit_check ''PROVIDER_COST_UNITS'' (bu_max_units b) (us_units u) n)"

definition recordProviderCostUnits :: "agent_budget \<Rightarrow> int \<Rightarrow> rat \<Rightarrow> usage \<Rightarrow> unit checked \<times> usage" where
  "recordProviderCostUnits b now n u =
     record_if (checkProviderCostUnits b now n u) (\<lambda>u. u\<lparr>us_units := us_units u + n\<rparr>) u"

section \<open>Snapshot\<close>

record meter =
  me_current :: rat
  me_limit :: "rat option"
  me_remaining :: "rat option"

record snapshot =
  sn_steps :: meter
  sn_tool_calls :: meter
  sn_candidates :: "(string \<times> rat) list"
  sn_provider_calls :: meter
  sn_input :: meter
  sn_output :: meter
  sn_cost :: meter
  sn_units :: meter
  sn_deadline :: "string option"
  sn_expired :: bool

definition meter_of :: "rat option \<Rightarrow> rat \<Rightarrow> meter" where
  "meter_of limit current =
     \<lparr>me_current = current, me_limit = limit, me_remaining = map_option (\<lambda>l. max 0 (l - current)) limit\<rparr>"

definition getSnapshot :: "agent_budget \<Rightarrow> int \<Rightarrow> usage \<Rightarrow> snapshot" where
  "getSnapshot b now u =
     \<lparr>sn_steps = meter_of (Some (bu_max_steps b)) (us_steps u),
      sn_tool_calls = meter_of (Some (bu_max_tool_calls b)) (us_tool_calls u),
      sn_candidates = us_candidates u,
      sn_provider_calls = meter_of (bu_max_provider_calls b) (us_provider_calls u),
      sn_input = meter_of (bu_max_input_tokens b) (us_input u),
      sn_output = meter_of (bu_max_output_tokens b) (us_output u),
      sn_cost = meter_of (bu_max_cost b) (us_cost u),
      sn_units = meter_of (bu_max_units b) (us_units u),
      sn_deadline = bu_deadline b, sn_expired = (deadline_passed b now \<noteq> None)\<rparr>"

section \<open>Runs\<close>

datatype budget_op =
    StepOp rat | ToolOp "string option" rat | ProviderOp rat | TokensOp rat rat rat | UnitsOp rat

fun budget_exec :: "agent_budget \<Rightarrow> int \<times> budget_op \<Rightarrow> usage \<Rightarrow> usage" where
  "budget_exec b (now, StepOp n) u = snd (recordStep b now n u)"
| "budget_exec b (now, ToolOp c n) u = snd (recordToolCall b now c n u)"
| "budget_exec b (now, ProviderOp n) u = snd (recordProviderCall b now n u)"
| "budget_exec b (now, TokensOp i out cost) u = snd (recordTokens b now i out cost u)"
| "budget_exec b (now, UnitsOp n) u = snd (recordProviderCostUnits b now n u)"

definition under :: "rat option \<Rightarrow> rat \<Rightarrow> bool" where
  "under limit x = (case limit of None \<Rightarrow> True | Some l \<Rightarrow> x \<le> l)"

definition within_budget :: "agent_budget \<Rightarrow> usage \<Rightarrow> bool" where
  "within_budget b u \<longleftrightarrow>
     us_steps u \<le> bu_max_steps b \<and> us_tool_calls u \<le> bu_max_tool_calls b \<and>
     (\<forall>(c, n)\<in>set (us_candidates u). under (bu_max_per_candidate b) n) \<and>
     under (bu_max_provider_calls b) (us_provider_calls u) \<and> under (bu_max_input_tokens b) (us_input u) \<and>
     under (bu_max_output_tokens b) (us_output u) \<and> under (bu_max_cost b) (us_cost u) \<and>
     under (bu_max_units b) (us_units u)"

lemma under_simps [simp]: "under None x" "under (Some l) x \<longleftrightarrow> x \<le> l"
  by (simp_all add: under_def)

lemma limit_check_Inr: "limit_check k l c n = Inr () \<longleftrightarrow> under l (c + n)"
  by (simp add: limit_check_def exceeded_def not_less split: option.split)

lemma next_check_Inr: "next_check a b = Inr x \<longleftrightarrow> a = Inr () \<and> b = Inr x"
  by (auto simp: next_check_def split: sum.split)

lemma record_if_cases:
  "(check = Inr () \<Longrightarrow> P (f u)) \<Longrightarrow> P u \<Longrightarrow> P (snd (record_if check f u))"
  by (auto simp: record_if_def split: sum.split)

lemma set_assoc_set: "(x, y) \<in> set (assoc_set k v m) \<Longrightarrow> x = k \<and> y = v \<or> (x, y) \<in> set m"
  by (induction k v m rule: assoc_set.induct) (auto split: if_splits)

lemma budget_exec_within: "within_budget b u \<Longrightarrow> within_budget b (budget_exec b op' u)"
proof (cases op')
  case (Pair now o')
  assume u: "within_budget b u"
  have "within_budget b (budget_exec b (now, o') u)"
  proof (cases o')
    case (StepOp n)
    then show ?thesis unfolding StepOp budget_exec.simps recordStep_def
      using u by (intro record_if_cases [where P = "within_budget b"]) (simp_all add: checkStep_def next_check_Inr limit_check_Inr within_budget_def)
  next
    case (ToolOp c n)
    have "within_budget b (add_candidate c n (u\<lparr>us_tool_calls := us_tool_calls u + n\<rparr>))"
      if "checkToolCall b now c n u = Inr ()"
    proof -
      let ?u = "u\<lparr>us_tool_calls := us_tool_calls u + n\<rparr>"
      have tool: "within_budget b ?u"
        using that u by (simp add: checkToolCall_def next_check_Inr limit_check_Inr within_budget_def)
      show ?thesis
      proof (cases "c = None \<or> c = Some []")
        case False
        then obtain k where k: "c = Some k" "k \<noteq> []" by auto
        then have "under (bu_max_per_candidate b) (candidate_calls u k + n)"
          using that by (simp add: checkToolCall_def next_check_Inr limit_check_Inr)
        moreover have "candidate_calls ?u k = candidate_calls u k" by (simp add: candidate_calls_def)
        ultimately have "\<forall>(x, y)\<in>set (assoc_set k (candidate_calls ?u k + n) (us_candidates ?u)).
            under (bu_max_per_candidate b) y"
          using tool by (auto simp: within_budget_def dest!: set_assoc_set)
        with tool k show ?thesis by (simp add: add_candidate_def within_budget_def)
      qed (use tool in \<open>auto simp: add_candidate_def\<close>)
    qed
    then show ?thesis unfolding ToolOp budget_exec.simps recordToolCall_def
      using u by (intro record_if_cases [where P = "within_budget b"]) simp_all
  next
    case (ProviderOp n)
    then show ?thesis unfolding ProviderOp budget_exec.simps recordProviderCall_def
      using u by (intro record_if_cases [where P = "within_budget b"]) (simp_all add: checkProviderCall_def next_check_Inr limit_check_Inr within_budget_def)
  next
    case (TokensOp i out cost)
    then show ?thesis unfolding TokensOp budget_exec.simps recordTokens_def
      using u by (intro record_if_cases [where P = "within_budget b"]) (simp_all add: checkTokens_def next_check_Inr limit_check_Inr within_budget_def)
  next
    case (UnitsOp n)
    then show ?thesis unfolding UnitsOp budget_exec.simps recordProviderCostUnits_def
      using u by (intro record_if_cases [where P = "within_budget b"]) (simp_all add: checkProviderCostUnits_def next_check_Inr limit_check_Inr within_budget_def)
  qed
  with Pair show ?thesis by simp
qed

interpretation budget: invariant_machine "budget_exec b" "within_budget b" for b
  by unfold_locales (rule budget_exec_within)

text \<open>C32. From an unused tracker with no negative limit, no sequence of records, at whatever times and with
  whatever amounts, takes a counter past its limit: steps, tool calls, tool calls per candidate,
  provider calls, tokens, model cost and provider cost units all stay within the budget.\<close>
theorem budget_never_exceeded:
  assumes "0 \<le> bu_max_steps b" "0 \<le> bu_max_tool_calls b" "under (bu_max_provider_calls b) 0"
    "under (bu_max_input_tokens b) 0" "under (bu_max_output_tokens b) 0" "under (bu_max_cost b) 0"
    "under (bu_max_units b) 0"
  shows "within_budget b (fold (budget_exec b) os no_usage)"
  using assms by (intro budget.run_inv) (simp add: within_budget_def no_usage_def)

definition demo_budget :: agent_budget where
  "demo_budget = \<lparr>bu_max_steps = 2, bu_max_tool_calls = 3, bu_max_per_candidate = Some 1, bu_max_provider_calls = None,
     bu_max_input_tokens = Some 100, bu_max_output_tokens = None, bu_max_cost = None, bu_max_units = None,
     bu_deadline = None\<rparr>"

theorem budget_never_exceeded_witness:
  "within_budget demo_budget (fold (budget_exec demo_budget)
     [(0, StepOp 1), (1, ToolOp (Some ''c'') 1), (2, ToolOp (Some ''c'') 1), (3, TokensOp 90 5 0), (4, TokensOp 90 5 0)] no_usage)"
  by (rule budget_never_exceeded) (simp_all add: demo_budget_def under_def)

text \<open>A record either happens whole or not at all: \<open>recordTokens\<close> throws and changes nothing exactly when
  the deadline has passed or one of the three limits would be passed, and otherwise adds all three
  amounts.\<close>
theorem tokens_all_or_nothing:
  "case recordTokens b now i out cost u of
     (Inl e, u') \<Rightarrow> u' = u \<and>
       (deadline_passed b now \<noteq> None \<or> \<not> under (bu_max_input_tokens b) (us_input u + i) \<or>
        \<not> under (bu_max_output_tokens b) (us_output u + out) \<or> \<not> under (bu_max_cost b) (us_cost u + cost))
   | (Inr _, u') \<Rightarrow> u' = u\<lparr>us_input := us_input u + i, us_output := us_output u + out, us_cost := us_cost u + cost\<rparr> \<and>
       deadline_passed b now = None \<and> under (bu_max_input_tokens b) (us_input u + i) \<and>
       under (bu_max_output_tokens b) (us_output u + out) \<and> under (bu_max_cost b) (us_cost u + cost)"
  by (simp add: recordTokens_def record_if_def checkTokens_def checkDeadline_def next_check_def limit_check_def
      under_def exceeded_def split: option.split)

end
