(* ===== verification/Agent_Planner.thy ===== *)
theory Agent_Planner
  imports Agent_Confinement Agent_Profiles Agent_Budget
begin

text \<open>
  packages/agent-runtime/src/deterministic-planner.ts: the stages of a goal, the arguments of a
  planned call and the bounded plan. \<open>sha\<close> is the digest and \<open>lc\<close> the collation of the host.
\<close>

section \<open>Plans\<close>

record target =
  ct_asset :: string
  ct_chain :: string
  ct_address :: string
  ct_symbol :: "string option"

record planned_call =
  pc_id :: string
  pc_tool :: string
  pc_args :: "(string \<times> jval) list"
  pc_purpose :: string
  pc_cost :: "rat option"
  pc_units :: "rat option"

record plan_step =
  ps_index :: nat
  ps_stage :: string
  ps_calls :: "planned_call list"
  ps_terminal :: bool

record plan =
  pl_id :: string
  pl_candidate :: string
  pl_profile :: string
  pl_version :: string
  pl_steps :: "plan_step list"
  pl_total_calls :: nat
  pl_total_cost :: rat
  pl_envelope :: envelope
  pl_max_steps :: rat
  pl_generated :: string

record planner_input =
  pi_candidate :: target
  pi_goal :: "model_class option"
  pi_profile :: model_profile
  pi_envelope :: envelope
  pi_budget :: agent_budget
  pi_evidence :: "jval option"
  pi_families :: "string list option"
  pi_seed :: "jval option"

section \<open>Stages\<close>

type_synonym stage = "string \<times> string list"

definition pick :: "string list \<Rightarrow> string list \<Rightarrow> string list" where
  "pick available names = filter (\<lambda>n. n \<in> set available) names"

definition nonempty_stages :: "stage list \<Rightarrow> stage list" where
  "nonempty_stages ss = filter (\<lambda>s. snd s \<noteq> []) ss"

definition buildStageSequence :: "model_class \<Rightarrow> string list \<Rightarrow> stage list" where
  "buildStageSequence goal available =
     (case goal of
        SKEPTIC \<Rightarrow> nonempty_stages
          [(''SECURITY_SCAN'', pick available [''risk.honeypot_scan'', ''contract.audit'']),
           (''LIQUIDITY_AND_SELL_VERIFICATION'', pick available [''liquidity.lock'', ''simulation.sell'']),
           (''HOLDER_CENTRALIZATION'', pick available [''holder.distribution''])]
      | DEEP_RESEARCH \<Rightarrow> nonempty_stages
          [(''TOKEN_AND_MARKET_PROFILE'', pick available [''token.profile'', ''dex.pairs'', ''dex.screener'']),
           (''HOLDERS_AND_LIQUIDITY'', pick available [''holder.distribution'', ''pool.liquidity'']),
           (''CONTRACT_AND_ONCHAIN_TRACE'', pick available [''contract.audit'', ''solana.transaction_trace'']),
           (''EXECUTION_SIMULATION'', pick available [''simulation.execution'', ''signal.score''])]
      | _ \<Rightarrow>
          (let stage1 = pick available
             [''dex.pairs'', ''token.profile'', ''market.summary'', ''schedule.inspect'', ''candidate.inspect'']
           in nonempty_stages
             [(''PRIMARY_DISCOVERY'', stage1),
              (''SUPPLEMENTARY_TOOLS'', filter (\<lambda>t. t \<notin> set stage1) available)]))"

section \<open>Arguments and cost of a call\<close>

definition range_max :: "envelope \<Rightarrow> string option" where
  "range_max env = map_option tr_max (en_range env)"

definition base_args :: "target \<Rightarrow> envelope \<Rightarrow> (string \<times> jval) list" where
  "base_args c env =
     [(''chain'', VStr (ct_chain c)), (''address'', VStr (ct_address c))] @
     (case range_max env of None \<Rightarrow> [] | Some t \<Rightarrow> if t = [] then [] else [(''asOf'', VStr t)]) @
     (case en_max_limit env of None \<Rightarrow> [] | Some m \<Rightarrow> [(''limit'', VNum (min 100 m))])"

definition generateDeterministicArguments :: "string \<Rightarrow> target \<Rightarrow> envelope \<Rightarrow> (string \<times> jval) list" where
  "generateDeterministicArguments tool c env =
     (let base = base_args c env in
      if tool \<in> {''dex.pairs'', ''dex.screener'', ''pool.liquidity''}
      then spread base [(''pairAddress'', VStr (ct_address c))]
      else if tool = ''holder.distribution''
      then spread base [(''mint'', VStr (ct_address c)),
        (''limit'', VNum (case en_max_limit env of None \<Rightarrow> 50 | Some m \<Rightarrow> if m = 0 then 50 else min 50 m))]
      else if tool \<in> {''contract.audit'', ''risk.honeypot_scan'', ''liquidity.lock''}
      then spread base [(''contractAddress'', VStr (ct_address c))]
      else if tool \<in> {''simulation.sell'', ''simulation.execution''}
      then spread base [(''notionalUsd'', VNum 1000)]
      else base)"

definition estimateToolCost :: "model_profile \<Rightarrow> rat" where
  "estimateToolCost p = (case mp_cost_in p of None \<Rightarrow> 1 / 1000000 | Some x \<Rightarrow> x) * 500"

section \<open>The bounded loops\<close>

record plan_state =
  st_seq :: nat
  st_total :: nat
  st_cost :: rat
  st_units :: rat

definition new_call :: "planner_input \<Rightarrow> string \<Rightarrow> nat \<Rightarrow> nat \<Rightarrow> string \<Rightarrow> planned_call" where
  "new_call i stage stepIndex n tool =
     \<lparr>pc_id = ''call_'' @ ct_asset (pi_candidate i) @ ''_'' @ show_nat stepIndex @ ''_'' @ show_nat n,
      pc_tool = tool, pc_args = generateDeterministicArguments tool (pi_candidate i) (pi_envelope i),
      pc_purpose = ''Execute '' @ tool @ '' for stage '' @ stage,
      pc_cost = Some (estimateToolCost (pi_profile i)), pc_units = Some 1\<rparr>"

definition over :: "rat option \<Rightarrow> rat \<Rightarrow> bool" where
  "over limit x = (case limit of None \<Rightarrow> False | Some l \<Rightarrow> l < x)"

definition reached :: "rat option \<Rightarrow> rat \<Rightarrow> bool" where
  "reached limit x = (case limit of None \<Rightarrow> False | Some l \<Rightarrow> l \<le> x)"

fun plan_calls ::
  "engine \<Rightarrow> planner_input \<Rightarrow> string \<Rightarrow> nat \<Rightarrow> string list \<Rightarrow> planned_call list \<Rightarrow> plan_state
     \<Rightarrow> (planned_call list \<times> plan_state) confined" where
  "plan_calls eg i stage stepIndex [] stepCalls s = Inr (stepCalls, s)"
| "plan_calls eg i stage stepIndex (tool # tools) stepCalls s =
     (let b = pi_budget i; cost = estimateToolCost (pi_profile i);
          call = new_call i stage stepIndex (st_seq s) tool in
      if bu_max_tool_calls b \<le> of_nat (st_total s + length stepCalls) then Inr (stepCalls, s)
      else if over (bu_max_cost b) (st_cost s + cost) then Inr (stepCalls, s)
      else if over (bu_max_units b) (st_units s + 1) then Inr (stepCalls, s)
      else (case assertConforms eg tool (pc_args call) (pi_envelope i) (Some (mp_tools (pi_profile i))) of
          Inl e \<Rightarrow> Inl e
        | Inr _ \<Rightarrow> plan_calls eg i stage stepIndex tools (stepCalls @ [call])
            (s\<lparr>st_cost := st_cost s + cost, st_units := st_units s + 1, st_seq := st_seq s + 1\<rparr>)))"

definition caps_reached :: "agent_budget \<Rightarrow> plan_state \<Rightarrow> bool" where
  "caps_reached b s \<longleftrightarrow> reached (bu_max_cost b) (st_cost s) \<or> reached (bu_max_units b) (st_units s)"

definition planned_step :: "planner_input \<Rightarrow> rat \<Rightarrow> nat \<Rightarrow> string \<Rightarrow> planned_call list \<Rightarrow> plan_state \<Rightarrow> plan_step" where
  "planned_step i maxSteps stepIndex name calls s =
     \<lparr>ps_index = stepIndex, ps_stage = name, ps_calls = calls,
      ps_terminal = (of_nat stepIndex = maxSteps - 1 \<or> bu_max_tool_calls (pi_budget i) \<le> of_nat (st_total s) \<or>
        caps_reached (pi_budget i) s)\<rparr>"

fun plan_steps ::
  "engine \<Rightarrow> planner_input \<Rightarrow> rat \<Rightarrow> nat \<Rightarrow> stage list \<Rightarrow> plan_step list \<Rightarrow> plan_state
     \<Rightarrow> (plan_step list \<times> plan_state) confined" where
  "plan_steps eg i maxSteps stepIndex [] steps s = Inr (steps, s)"
| "plan_steps eg i maxSteps stepIndex ((name, tools) # stages) steps s =
     (let b = pi_budget i in
      if maxSteps \<le> of_nat stepIndex \<or> bu_max_tool_calls b \<le> of_nat (st_total s) \<or> caps_reached b s
      then Inr (steps, s)
      else (case plan_calls eg i name stepIndex tools [] s of
          Inl e \<Rightarrow> Inl e
        | Inr (calls, s1) \<Rightarrow>
            if calls = [] \<and> steps \<noteq> [] then Inr (steps, s1)
            else
              (let s2 = s1\<lparr>st_total := st_total s1 + length calls\<rparr>;
                   steps2 = steps @ [planned_step i maxSteps stepIndex name calls s2]
               in if caps_reached b s2 then Inr (steps2, s2)
                  else plan_steps eg i maxSteps (Suc stepIndex) stages steps2 s2)))"

definition close_steps :: "plan_step list \<Rightarrow> plan_step list" where
  "close_steps steps =
     (if steps = [] then [\<lparr>ps_index = 0, ps_stage = ''EVALUATION'', ps_calls = [], ps_terminal = True\<rparr>]
      else butlast steps @ [(last steps)\<lparr>ps_terminal := True\<rparr>])"

section \<open>The plan and its identifier\<close>

definition opt_member :: "string \<Rightarrow> ('a \<Rightarrow> jval) \<Rightarrow> 'a option \<Rightarrow> (string \<times> jval) list" where
  "opt_member k f x = (case x of None \<Rightarrow> [] | Some a \<Rightarrow> [(k, f a)])"

definition VStrs :: "string list \<Rightarrow> jval" where
  "VStrs xs = VArr (map VStr xs)"

definition range_json :: "time_range \<Rightarrow> jval" where
  "range_json r = VObj (opt_member ''minTimestamp'' VStr (tr_min r) @ [(''maxTimestamp'', VStr (tr_max r))])"

definition envelope_json :: "envelope \<Rightarrow> jval" where
  "envelope_json e = VObj
     ([(''allowedTools'', VStrs (en_tools e))] @
      opt_member ''allowedProviders'' VStrs (en_providers e) @ opt_member ''allowedDomains'' VStrs (en_domains e) @
      opt_member ''allowedChains'' VStrs (en_chains e) @ opt_member ''allowedAddresses'' VStrs (en_addresses e) @
      opt_member ''timeRange'' range_json (en_range e) @ opt_member ''maxLimit'' VNum (en_max_limit e) @
      opt_member ''maxOutputSizeBytes'' VNum (en_max_bytes e) @ opt_member ''maxCostUsd'' VNum (en_max_cost e))"

definition budget_json :: "agent_budget \<Rightarrow> jval" where
  "budget_json b = VObj
     ([(''maxSteps'', VNum (bu_max_steps b)), (''maxToolCalls'', VNum (bu_max_tool_calls b))] @
      opt_member ''maxToolCallsPerCandidate'' VNum (bu_max_per_candidate b) @
      opt_member ''maxProviderCalls'' VNum (bu_max_provider_calls b) @
      opt_member ''maxInputTokens'' VNum (bu_max_input_tokens b) @
      opt_member ''maxOutputTokens'' VNum (bu_max_output_tokens b) @
      opt_member ''maxModelCostUsd'' VNum (bu_max_cost b) @
      opt_member ''maxProviderCostUnits'' VNum (bu_max_units b))"

definition class_text :: "model_class \<Rightarrow> string" where
  "class_text c = (case c of TRIAGE \<Rightarrow> ''TRIAGE'' | DEEP_RESEARCH \<Rightarrow> ''DEEP_RESEARCH'' | SKEPTIC \<Rightarrow> ''SKEPTIC''
     | ADMIN_CHAT \<Rightarrow> ''ADMIN_CHAT'' | REPAIR \<Rightarrow> ''REPAIR'')"

definition step_json :: "plan_step \<Rightarrow> jval" where
  "step_json s = VObj [(''stepIndex'', VNum (of_nat (ps_index s))), (''stage'', VStr (ps_stage s)),
     (''toolCalls'', VArr (map (\<lambda>c. VObj [(''toolName'', VStr (pc_tool c)), (''arguments'', VObj (pc_args c))])
        (ps_calls s)))]"

definition plan_data :: "planner_input \<Rightarrow> model_class \<Rightarrow> plan_step list \<Rightarrow> jval" where
  "plan_data i goal steps =
     (let c = pi_candidate i; p = pi_profile i in VObj
      [(''candidateId'', VStr (ct_asset c)), (''chainId'', VStr (ct_chain c)),
       (''contractAddress'', VStr (ct_address c)), (''profileId'', VStr (mp_id p)),
       (''profileVersion'', VStr (mp_version p)), (''goal'', VStr (class_text goal)),
       (''seed'', case pi_seed i of None \<Rightarrow> VStr ''deterministic-default'' | Some s \<Rightarrow> s),
       (''initialEvidence'', case pi_evidence i of None \<Rightarrow> VNull | Some e \<Rightarrow> e),
       (''requestedEvidenceFamilies'', case pi_families i of None \<Rightarrow> VNull | Some f \<Rightarrow> VStrs f),
       (''envelope'', envelope_json (pi_envelope i)), (''budget'', budget_json (pi_budget i)),
       (''steps'', VArr (map step_json steps))])"

definition stableHash :: "(string \<Rightarrow> string) \<Rightarrow> (string \<Rightarrow> string \<Rightarrow> int) \<Rightarrow> jval \<Rightarrow> string" where
  "stableHash sha lc v = sha (stringify_val (canonicalize lc v))"

definition available_tools :: "planner_input \<Rightarrow> string list" where
  "available_tools i = filter (\<lambda>t. t \<in> set (en_tools (pi_envelope i))) (mp_tools (pi_profile i))"

definition plan_goal :: "planner_input \<Rightarrow> model_class" where
  "plan_goal i = (case pi_goal i of None \<Rightarrow> mp_class (pi_profile i) | Some g \<Rightarrow> g)"

definition plan_stages :: "(string \<Rightarrow> string \<Rightarrow> int) \<Rightarrow> planner_input \<Rightarrow> stage list" where
  "plan_stages lc i = buildStageSequence (plan_goal i) (js_sort lc (available_tools i))"

definition step_bound :: "planner_input \<Rightarrow> stage list \<Rightarrow> rat" where
  "step_bound i stages =
     min (bu_max_steps (pi_budget i)) (if stages = [] then 1 else of_nat (length stages))"

definition make_plan ::
  "engine \<Rightarrow> (string \<Rightarrow> string) \<Rightarrow> (string \<Rightarrow> string \<Rightarrow> int) \<Rightarrow> planner_input \<Rightarrow> plan confined" where
  "make_plan eg sha lc i =
     (let stages = plan_stages lc i in
      case plan_steps eg i (step_bound i stages) 0 stages [] \<lparr>st_seq = 1, st_total = 0, st_cost = 0, st_units = 0\<rparr> of
        Inl e \<Rightarrow> Inl e
      | Inr (raw, s) \<Rightarrow>
          (let steps = close_steps raw; c = pi_candidate i in
           Inr \<lparr>pl_id = ''plan_'' @ ct_asset c @ ''_'' @ take 16 (stableHash sha lc (plan_data i (plan_goal i) steps)),
             pl_candidate = ct_asset c, pl_profile = mp_id (pi_profile i), pl_version = mp_version (pi_profile i),
             pl_steps = steps, pl_total_calls = st_total s, pl_total_cost = st_cost s,
             pl_envelope = pi_envelope i, pl_max_steps = bu_max_steps (pi_budget i),
             pl_generated = (case range_max (pi_envelope i) of None \<Rightarrow> ''1970-01-01T00:00:00.000Z'' | Some t \<Rightarrow> t)\<rparr>))"

end
