(* ===== verification/Agent_Decision.thy ===== *)
theory Agent_Decision
  imports Agent_Evidence Agent_Planner
begin

text \<open>
  packages/agent-runtime/src/decision-engine.ts: a proposed decision passes the evidence validator
  and five more gates; when one fails the engine abstains. \<open>rankOrAbstain\<close> ranks the candidates it
  did not abstain on. An absent member of a proposal is \<open>None\<close>.
\<close>

section \<open>Proposals and decisions\<close>

datatype cost_policy = CpPASS | CpBLOCKED | CpDEGRADED

record proposal =
  pr_decision :: "decision option"
  pr_alert_class :: "alert_class option"
  pr_scenario :: "string option"
  pr_tradability :: "string option"
  pr_valid_until :: "string option"
  pr_cost_policy :: "cost_policy option"
  pr_social :: "string option"
  pr_pack :: "string option"
  pr_multi_view :: "string option"
  pr_hazard :: "string option"
  pr_novelty :: "string option"
  pr_patterns :: "string list option"
  pr_artifacts :: "string list option"
  pr_lifecycle :: lifecycle
  pr_risk :: risk_state
  pr_thesis :: string
  pr_counter :: string
  pr_observed :: "claim_ref list option"
  pr_derived :: "claim_ref list option"
  pr_inferences :: "claim_ref list option"
  pr_hypotheses :: "claim_ref list option"
  pr_positive :: "string list option"
  pr_risks :: "string list option"
  pr_missing :: "missing_item list option"
  pr_conflicts :: "string list option"
  pr_invalidation :: "string list option"
  pr_next_check :: "rat option"
  pr_assessment :: confidence

record agent_decision =
  ad_candidate :: target
  ad_profile :: string
  ad_decision :: decision
  ad_alert_class :: "alert_class option"
  ad_scenario :: "string option"
  ad_tradability :: "string option"
  ad_valid_until :: "string option"
  ad_cost_policy :: cost_policy
  ad_social :: "string option"
  ad_pack :: "string option"
  ad_multi_view :: "string option"
  ad_hazard :: "string option"
  ad_novelty :: "string option"
  ad_patterns :: "string list option"
  ad_artifacts :: "string list option"
  ad_lifecycle :: lifecycle
  ad_risk :: risk_state
  ad_thesis :: string
  ad_counter :: string
  ad_observed :: "claim_ref list"
  ad_derived :: "claim_ref list"
  ad_inferences :: "claim_ref list"
  ad_hypotheses :: "claim_ref list"
  ad_positive :: "string list"
  ad_risks :: "string list"
  ad_missing :: "missing_item list"
  ad_conflicts :: "string list"
  ad_invalidation :: "string list"
  ad_next_check :: "rat option"
  ad_assessment :: confidence
  ad_abstention :: "string option"

record gate_config =
  gc_facts :: rat
  gc_evidence :: rat
  gc_groups :: rat
  gc_fresh :: rat
  gc_validator :: bool
  gc_critical :: bool

record partial_gates =
  pg_facts :: "rat option"
  pg_evidence :: "rat option"
  pg_groups :: "rat option"
  pg_fresh :: "rat option"
  pg_validator :: "bool option"
  pg_critical :: "bool option"

definition or_default :: "'a option \<Rightarrow> 'a \<Rightarrow> 'a" where
  "or_default x d = (case x of None \<Rightarrow> d | Some a \<Rightarrow> a)"

lemma or_default_simps [simp]: "or_default None d = d" "or_default (Some a) d = a"
  by (simp_all add: or_default_def)

text \<open>\<open>DEFAULT_GATE_CONFIG\<close>: one fact, one record, one group, seven days.\<close>

definition gate_config_of :: "partial_gates option \<Rightarrow> gate_config" where
  "gate_config_of g =
     (let get = (\<lambda>f d. case g of None \<Rightarrow> d | Some p \<Rightarrow> or_default (f p) d);
          flag = (\<lambda>f d. case g of None \<Rightarrow> d | Some p \<Rightarrow> or_default (f p) d) in
      \<lparr>gc_facts = get pg_facts 1, gc_evidence = get pg_evidence 1, gc_groups = get pg_groups 1,
       gc_fresh = get pg_fresh (1000 * 60 * 60 * 24 * 7), gc_validator = flag pg_validator True,
       gc_critical = flag pg_critical True\<rparr>)"

record decision_input =
  di_candidate :: target
  di_profile :: string
  di_proposed :: proposal
  di_evidence :: evidence_map
  di_options :: validator_options
  di_gates :: "partial_gates option"
  di_conflicts :: "string list option"
  di_critical :: "bool option"
  di_tradability :: "bool option"

record gates =
  gt_coverage :: bool
  gt_fresh :: bool
  gt_independence :: bool
  gt_validator :: bool
  gt_critical :: bool
  gt_tradability :: bool

record decision_result =
  dr_decision :: agent_decision
  dr_abstained :: bool
  dr_reasons :: "string list"
  dr_validator :: validator_result
  dr_gates :: gates

section \<open>\<open>decide\<close>\<close>

definition proposal_claims :: "proposal \<Rightarrow> claims" where
  "proposal_claims p =
     \<lparr>ca_observed = or_default (pr_observed p) [], ca_derived = or_default (pr_derived p) [],
      ca_inferences = or_default (pr_inferences p) [], ca_hypotheses = or_default (pr_hypotheses p) [],
      ca_thesis = pr_thesis p, ca_counter = pr_counter p\<rparr>"

definition gates_of :: "gate_config \<Rightarrow> decision_input \<Rightarrow> validator_result \<Rightarrow> gates" where
  "gates_of g i v =
     \<lparr>gt_coverage = (gc_facts g \<le> of_nat (length (or_default (pr_observed (di_proposed i)) [])) \<and>
        gc_evidence g \<le> of_nat (ln_count (vr_lineage v))),
      gt_fresh = (\<not> list_ex (\<lambda>f. fa_code f = ''EVIDENCE_STALE'') (vr_failures v)),
      gt_independence = (gc_groups g \<le> of_nat (ln_group_count (vr_lineage v))),
      gt_validator = vr_valid v,
      gt_critical = (\<not> (gc_critical g \<and> di_critical i = Some True)),
      gt_tradability = (di_tradability i \<noteq> Some False)\<rparr>"

definition short_of :: "string \<Rightarrow> nat \<Rightarrow> rat \<Rightarrow> string list" where
  "short_of code n m = (if of_nat n < m then [code @ '':'' @ show_nat n @ ''<'' @ show_num m] else [])"

definition abstention_reasons :: "gate_config \<Rightarrow> decision_input \<Rightarrow> validator_result \<Rightarrow> string list" where
  "abstention_reasons g i v =
     (let gates = gates_of g i v; n = length (or_default (pr_observed (di_proposed i)) []) in
      (if gt_coverage gates then []
       else short_of ''INSUFFICIENT_OBSERVED_FACTS'' n (gc_facts g) @
         short_of ''INSUFFICIENT_EVIDENCE_COUNT'' (ln_count (vr_lineage v)) (gc_evidence g)) @
      (if gt_fresh gates then [] else [''STALE_EVIDENCE'']) @
      (if gt_independence gates then []
       else [''INSUFFICIENT_INDEPENDENCE:'' @ show_nat (ln_group_count (vr_lineage v)) @ ''<'' @ show_num (gc_groups g)]) @
      (if gc_validator g \<and> \<not> gt_validator gates
       then [''VALIDATOR_FAILED:'' @ join_with '','' (fold add_new (map fa_code (vr_failures v)) [])] else []) @
      (if gt_critical gates then [] else [''CRITICAL_RISK_BLOCKS_ALERT'']) @
      (if gt_tradability gates then [] else [''TRADABILITY_FAILED'']))"

definition nonzero :: "rat option \<Rightarrow> rat option" where
  "nonzero x = (case x of None \<Rightarrow> None | Some n \<Rightarrow> if n = 0 then None else Some n)"

definition decision_of :: "decision_input \<Rightarrow> string list \<Rightarrow> agent_decision" where
  "decision_of i reasons =
     (let p = di_proposed i; abstain = (reasons \<noteq> []) in
      \<lparr>ad_candidate = di_candidate i, ad_profile = di_profile i,
       ad_decision = (if abstain then DcINSUFFICIENT_DATA else or_default (pr_decision p) DcWATCH),
       ad_alert_class = (if abstain then None else pr_alert_class p),
       ad_scenario = given (pr_scenario p), ad_tradability = given (pr_tradability p),
       ad_valid_until = (if abstain then None else given (pr_valid_until p)),
       ad_cost_policy = or_default (pr_cost_policy p) CpPASS,
       ad_social = given (pr_social p), ad_pack = given (pr_pack p), ad_multi_view = given (pr_multi_view p),
       ad_hazard = given (pr_hazard p), ad_novelty = given (pr_novelty p),
       ad_patterns = pr_patterns p, ad_artifacts = pr_artifacts p,
       ad_lifecycle = pr_lifecycle p, ad_risk = pr_risk p, ad_thesis = pr_thesis p, ad_counter = pr_counter p,
       ad_observed = or_default (pr_observed p) [], ad_derived = or_default (pr_derived p) [],
       ad_inferences = or_default (pr_inferences p) [], ad_hypotheses = or_default (pr_hypotheses p) [],
       ad_positive = (if abstain then [] else or_default (pr_positive p) []),
       ad_risks = or_default (pr_risks p) [],
       ad_missing = or_default (pr_missing p) [] @
         map (\<lambda>r. \<lparr>mi_field = ''abstention_gate'', mi_reason = r, mi_severity = SevHIGH\<rparr>) reasons,
       ad_conflicts = or_default (pr_conflicts p) (or_default (di_conflicts i) []),
       ad_invalidation = or_default (pr_invalidation p) [],
       ad_next_check = nonzero (pr_next_check p), ad_assessment = pr_assessment p,
       ad_abstention = (if abstain then Some (join_with ''; '' reasons) else None)\<rparr>)"

definition validated ::
  "engine \<Rightarrow> (string \<Rightarrow> string) \<Rightarrow> (string \<Rightarrow> string \<Rightarrow> int) \<Rightarrow> string \<Rightarrow> decision_input \<Rightarrow> validator_result result" where
  "validated eg sha lc now i =
     (let g = gate_config_of (di_gates i) in
      validate_evidence eg sha lc now (proposal_claims (di_proposed i)) (di_evidence i)
        ((di_options i)\<lparr>op_groups := Some (gc_groups g), op_max_fresh := Some (gc_fresh g)\<rparr>))"

definition decide ::
  "engine \<Rightarrow> (string \<Rightarrow> string) \<Rightarrow> (string \<Rightarrow> string \<Rightarrow> int) \<Rightarrow> string \<Rightarrow> decision_input \<Rightarrow> decision_result result" where
  "decide eg sha lc now i =
     bind_result (validated eg sha lc now i) (\<lambda>v.
       let g = gate_config_of (di_gates i); reasons = abstention_reasons g i v in
       Inr \<lparr>dr_decision = decision_of i reasons, dr_abstained = (reasons \<noteq> []), dr_reasons = reasons,
         dr_validator = v, dr_gates = gates_of g i v\<rparr>)"

section \<open>\<open>rankOrAbstain\<close>\<close>

record contender =
  cn_id :: string
  cn_score :: rat
  cn_input :: decision_input

record standing =
  sd_id :: string
  sd_rank :: "nat option"
  sd_abstained :: bool
  sd_reasons :: "string list"

definition score_map :: "contender list \<Rightarrow> (string \<times> rat) list" where
  "score_map cs = fold (\<lambda>c m. assoc_set (cn_id c) (cn_score c) m) cs []"

definition score_of :: "contender list \<Rightarrow> string \<Rightarrow> rat" where
  "score_of cs k = or_default (map_of (score_map cs) k) 0"

definition by_score ::
  "(string \<Rightarrow> string \<Rightarrow> int) \<Rightarrow> contender list \<Rightarrow> string \<times> decision_result \<Rightarrow> string \<times> decision_result \<Rightarrow> int" where
  "by_score lc cs a b =
     (let sa = score_of cs (fst a); sb = score_of cs (fst b) in
      if sb \<noteq> sa then (if sa < sb then 1 else - 1) else lc (fst a) (fst b))"

fun evaluate_all ::
  "(decision_input \<Rightarrow> decision_result result) \<Rightarrow> contender list \<Rightarrow> (string \<times> decision_result) list result" where
  "evaluate_all f [] = Inr []"
| "evaluate_all f (c # cs) =
     bind_result (f (cn_input c)) (\<lambda>r. bind_result (evaluate_all f cs) (\<lambda>rs. Inr ((cn_id c, r) # rs)))"

definition ranked ::
  "(string \<Rightarrow> string \<Rightarrow> int) \<Rightarrow> contender list \<Rightarrow> (string \<times> decision_result) list \<Rightarrow> (string \<times> decision_result) list" where
  "ranked lc cs evaluated =
     js_sort (by_score lc cs) (js_sort (\<lambda>a b. lc (fst a) (fst b))
       (filter (\<lambda>e. \<not> dr_abstained (snd e)) evaluated))"

definition rank_map :: "(string \<times> decision_result) list \<Rightarrow> (string \<times> nat) list" where
  "rank_map rs = fold (\<lambda>(k, e) m. assoc_set (fst e) (Suc k) m) (enumerate 0 rs) []"

definition rankOrAbstain ::
  "engine \<Rightarrow> (string \<Rightarrow> string) \<Rightarrow> (string \<Rightarrow> string \<Rightarrow> int) \<Rightarrow> string \<Rightarrow> contender list \<Rightarrow> standing list result" where
  "rankOrAbstain eg sha lc now cs =
     bind_result (evaluate_all (decide eg sha lc now) cs) (\<lambda>evaluated.
       Inr (if list_all (\<lambda>e. dr_abstained (snd e)) evaluated
         then map (\<lambda>e. \<lparr>sd_id = fst e, sd_rank = None, sd_abstained = True, sd_reasons = dr_reasons (snd e)\<rparr>) evaluated
         else
           (let ranks = rank_map (ranked lc cs evaluated) in
            map (\<lambda>e. \<lparr>sd_id = fst e,
              sd_rank = (if dr_abstained (snd e) then None else map_of ranks (fst e)),
              sd_abstained = dr_abstained (snd e), sd_reasons = dr_reasons (snd e)\<rparr>) evaluated)))"

end
