(* ===== verification/Evidence_Spec.thy ===== *)
theory Evidence_Spec
  imports Agent_Decision
begin

text \<open>
  When a decision rests on its evidence, stated without the checks of the code: phrases by their
  words, records by their members, counts as cardinalities. What it shares with the model of
  evidence-validator.ts are the records and the operations of the language (\<open>toLowerCase\<close>, white
  space, readings of dates). The second half shows that the helpers of the code agree with it.
\<close>

section \<open>Phrases\<close>

definition same_word :: "string \<Rightarrow> string \<Rightarrow> bool" where
  "same_word w g \<longleftrightarrow> map lower_char g = map lower_char w"

text \<open>The words of a phrase one after the other, with separators of class \<open>P\<close> between them, at least
  one unless \<open>e\<close>.\<close>

fun reads :: "(char \<Rightarrow> bool) \<Rightarrow> bool \<Rightarrow> string list \<Rightarrow> string \<Rightarrow> bool" where
  "reads P e [] g = (g = [])"
| "reads P e [w] g = same_word w g"
| "reads P e (w # v # ws) g =
     (\<exists>h sep t. g = h @ sep @ t \<and> same_word w h \<and> (\<forall>c\<in>set sep. P c) \<and> (e \<or> sep \<noteq> []) \<and> reads P e (v # ws) t)"

text \<open>A phrase occurs in a text as whole words.\<close>

definition phrase :: "(char \<Rightarrow> bool) \<Rightarrow> bool \<Rightarrow> string list \<Rightarrow> string \<Rightarrow> bool" where
  "phrase P e ws s \<longleftrightarrow>
     (\<exists>a g b. s = a @ g @ b \<and> reads P e ws g \<and> (a = [] \<or> \<not> is_word_char (last a)) \<and>
        (b = [] \<or> \<not> is_word_char (hd b)))"

definition financial_phrases :: "string list list" where
  "financial_phrases = [[''guaranteed'', ''profit''], [''certain'', ''to'', ''rise''], [''will'', ''moon''],
     [''buy'', ''now''], [''100x'', ''guaranteed'']]"

definition safety_phrases :: "string list list" where
  "safety_phrases = [[''safe'', ''to'', ''buy''], [''no'', ''risk''], [''audited'', ''and'', ''safe''],
     [''completely'', ''secure'']]"

definition prohibited_text :: "string \<Rightarrow> bool" where
  "prohibited_text s \<longleftrightarrow>
     (\<exists>ws\<in>set financial_phrases. phrase js_space False ws s) \<or>
     phrase (\<lambda>c. js_space c \<or> c = CHR ''-'') True [''risk'', ''free''] s"

definition asserts_safety :: "string \<Rightarrow> bool" where
  "asserts_safety s \<longleftrightarrow> (\<exists>ws\<in>set safety_phrases. phrase js_space False ws (toLowerCase s))"

section \<open>Records and claims\<close>

definition proves_safety :: "evidence \<Rightarrow> bool" where
  "proves_safety ev \<longleftrightarrow>
     map_of (ev_fields ev) ''auditPassed'' = Some (VBool True) \<or>
     map_of (ev_fields ev) ''risk'' = Some (VStr ''LOW'') \<and>
       (map_of (ev_fields ev) ''isSafe'' = Some (VBool True) \<or> ''VALID'' \<in> set (ev_quality ev))"

definition says :: "string set \<Rightarrow> string \<Rightarrow> bool" where
  "says ws claim \<longleftrightarrow> (\<exists>w\<in>ws. \<exists>a b. toLowerCase claim = a @ w @ b)"

text \<open>The number a record gives under the first of some names that it has and that is not null.\<close>

definition gives :: "string list \<Rightarrow> (string \<times> jval) list \<Rightarrow> rat \<Rightarrow> bool" where
  "gives ks fs x \<longleftrightarrow>
     (\<exists>pre k post. ks = pre @ k # post \<and> map_of fs k = Some (VNum x) \<and>
        (\<forall>j\<in>set pre. map_of fs j = None \<or> map_of fs j = Some VNull))"

definition contradicts :: "string \<Rightarrow> (string \<times> jval) list \<Rightarrow> bool" where
  "contradicts claim fs \<longleftrightarrow>
     says {''price''} claim \<and> says {''increased'', ''rose'', ''up''} claim \<and>
       ((\<exists>x<0. gives [''price'', ''priceUsd'', ''value''] fs x) \<or>
        map_of fs ''direction'' \<in> {Some (VStr ''down''), Some (VStr ''decreased'')}) \<or>
     says {''price''} claim \<and> says {''decreased'', ''fell'', ''down''} claim \<and>
       map_of fs ''direction'' \<in> {Some (VStr ''up''), Some (VStr ''increased'')} \<or>
     says {''liquidity''} claim \<and> says {''high''} claim \<and> (\<exists>x<1000. gives [''liquidityUsd'', ''liquidity''] fs x)"

text \<open>A record belongs to the candidate where both name one, and to the entity where one is asked for.\<close>

definition belongs :: "validator_options \<Rightarrow> evidence \<Rightarrow> bool" where
  "belongs opts ev \<longleftrightarrow>
     (\<forall>c c'. op_candidate opts = Some c \<and> c \<noteq> [] \<and> ev_candidate ev = Some c' \<and> c' \<noteq> [] \<longrightarrow> c' = c) \<and>
     (\<forall>x. op_entity opts = Some x \<and> x \<noteq> [] \<longrightarrow> ev_entity ev = x \<or> ev_candidate ev = Some x)"

text \<open>Older than a limit. A record whose fetch time cannot be read is not.\<close>

definition stale :: "engine \<Rightarrow> rat \<Rightarrow> int \<Rightarrow> evidence \<Rightarrow> bool" where
  "stale eg limit now ev \<longleftrightarrow>
     (\<exists>a f. date_ms eg (ev_available ev) = Some a \<and> date_ms eg (ev_fetched ev) = Some f \<and>
        limit < rat_of_int (now - max a f))"

definition timely :: "engine \<Rightarrow> validator_options \<Rightarrow> int \<Rightarrow> evidence \<Rightarrow> bool" where
  "timely eg opts now ev \<longleftrightarrow>
     (\<exists>a. date_ms eg (ev_available ev) = Some a \<and> a \<le> now) \<and>
     (\<forall>m. op_max_fresh opts = Some m \<longrightarrow> \<not> stale eg m now ev)"

definition backs :: "engine \<Rightarrow> validator_options \<Rightarrow> int \<Rightarrow> string \<Rightarrow> evidence \<Rightarrow> bool" where
  "backs eg opts now claim ev \<longleftrightarrow> belongs opts ev \<and> timely eg opts now ev \<and> \<not> contradicts claim (ev_fields ev)"

definition supported_claim :: "engine \<Rightarrow> validator_options \<Rightarrow> int \<Rightarrow> evidence_map \<Rightarrow> claim_ref \<Rightarrow> bool" where
  "supported_claim eg opts now m c \<longleftrightarrow>
     (\<forall>eid\<in>set (cl_evidence c). \<exists>ev. map_of m eid = Some ev \<and> backs eg opts now (cl_claim c) ev) \<and>
     (asserts_safety (cl_claim c) \<longrightarrow>
        (\<exists>eid\<in>set (cl_evidence c). \<exists>ev. map_of m eid = Some ev \<and> proves_safety ev)) \<and>
     \<not> prohibited_text (cl_claim c)"

definition assertions :: "claims \<Rightarrow> claim_ref set" where
  "assertions d = set (ca_observed d) \<union> set (ca_derived d) \<union> set (ca_inferences d)"

definition cited :: "claims \<Rightarrow> string set" where
  "cited d = (\<Union>c\<in>assertions d \<union> set (ca_hypotheses d). set (cl_evidence c))"

definition groups_cited :: "claims \<Rightarrow> evidence_map \<Rightarrow> string set" where
  "groups_cited d m = {ev_group ev | eid ev. eid \<in> cited d \<and> map_of m eid = Some ev \<and> ev_group ev \<noteq> []}"

text \<open>Hypotheses that cite nothing are not looked at.\<close>

definition supported :: "engine \<Rightarrow> validator_options \<Rightarrow> int \<Rightarrow> evidence_map \<Rightarrow> claims \<Rightarrow> bool" where
  "supported eg opts now m d \<longleftrightarrow>
     (\<forall>c\<in>assertions d. cl_evidence c \<noteq> [] \<and> supported_claim eg opts now m c) \<and>
     (\<forall>c\<in>set (ca_hypotheses d). cl_evidence c \<noteq> [] \<longrightarrow> supported_claim eg opts now m c) \<and>
     \<not> prohibited_text (ca_thesis d) \<and> \<not> prohibited_text (ca_counter d) \<and>
     (\<forall>r. op_groups opts = Some r \<and> assertions d \<noteq> {} \<longrightarrow> r \<le> of_nat (card (groups_cited d m)))"

section \<open>The matcher of the code finds phrases\<close>

definition word :: "string \<Rightarrow> bool" where
  "word w \<longleftrightarrow> w \<noteq> [] \<and> (\<forall>c\<in>set w. is_word_char c)"

fun pats_of :: "string list \<Rightarrow> pat list" where
  "pats_of [] = []"
| "pats_of [w] = [Lit w]"
| "pats_of (w # v # ws) = Lit w # Spaces # pats_of (v # ws)"

lemma word_char_lower: "lower_char c = lower_char d \<Longrightarrow> is_word_char c \<longleftrightarrow> is_word_char d"
proof -
  have "is_word_char (lower_char c) \<longleftrightarrow> is_word_char c" for c
    by (auto simp: is_word_char_def lower_char_def Let_def)
  then show "lower_char c = lower_char d \<Longrightarrow> is_word_char c \<longleftrightarrow> is_word_char d" by metis
qed

lemma word_char_plain: "is_word_char c \<Longrightarrow> \<not> js_space c \<and> c \<noteq> CHR ''-''"
  by (auto simp: is_word_char_def js_space_def Let_def)

lemma same_word_Cons:
  "same_word (p # ps) g \<longleftrightarrow> (\<exists>c cs. g = c # cs \<and> lower_char c = lower_char p \<and> same_word ps cs)"
  by (cases g) (auto simp: same_word_def)

lemma same_word_chars: "same_word w g \<Longrightarrow> word w \<Longrightarrow> word g"
proof -
  assume s: "same_word w g" and w: "word w"
  have "g \<noteq> []" using s w by (auto simp: same_word_def word_def)
  moreover have "is_word_char c" if "c \<in> set g" for c
  proof -
    have "lower_char c \<in> lower_char ` set w" using s that unfolding same_word_def by (metis image_eqI list.set_map)
    then obtain d where "d \<in> set w" "lower_char c = lower_char d" by blast
    then show ?thesis using w word_char_lower unfolding word_def by blast
  qed
  ultimately show "word g" by (simp add: word_def)
qed

text \<open>The character before the rest of a text, once \<open>a\<close> is read after \<open>p\<close>.\<close>

fun after :: "char option \<Rightarrow> string \<Rightarrow> char option" where
  "after p [] = p"
| "after p (c # cs) = after (Some c) cs"

lemma after_append [simp]: "after p (a @ b) = after (after p a) b"
  by (induction a arbitrary: p) auto

lemma after_last: "after p a = (if a = [] then p else Some (last a))"
  by (induction a arbitrary: p) auto

lemma match_lit_iff:
  "match_lit w p s = Some (q, r) \<longleftrightarrow> (\<exists>h. s = h @ r \<and> same_word w h \<and> q = after p h)"
proof (induction w p s rule: match_lit.induct)
  case (1 p s)
  then show ?case by (auto simp: same_word_def)
next
  case (2 w ws p)
  then show ?case by (auto simp: same_word_def)
next
  case (3 w ws p c cs)
  show ?case
  proof
    assume "match_lit (w # ws) p (c # cs) = Some (q, r)"
    then have "lower_char c = lower_char w" "match_lit ws (Some c) cs = Some (q, r)"
      by (simp_all split: if_splits)
    with 3 obtain h where "cs = h @ r" "same_word ws h" "q = after (Some c) h" "lower_char c = lower_char w" by auto
    then show "\<exists>h. c # cs = h @ r \<and> same_word (w # ws) h \<and> q = after p h"
      by (intro exI [of _ "c # h"]) (simp add: same_word_Cons)
  next
    assume "\<exists>h. c # cs = h @ r \<and> same_word (w # ws) h \<and> q = after p h"
    then obtain h where h: "c # cs = h @ r" "same_word (w # ws) h" "q = after p h" by blast
    then obtain d ds where "h = d # ds" "lower_char d = lower_char w" "same_word ws ds" by (auto simp: same_word_Cons)
    with h 3 show "match_lit (w # ws) p (c # cs) = Some (q, r)" by auto
  qed
qed

lemma reads_ends:
  assumes "list_all word ws" "ws \<noteq> []" "reads P e ws g"
  shows "g \<noteq> [] \<and> is_word_char (hd g) \<and> is_word_char (last g)"
  using assms
proof (induction P e ws g rule: reads.induct)
  case (2 P e w g)
  then show ?case using same_word_chars [of w g] by (simp add: word_def)
next
  case (3 P e w v ws g)
  from 3(4) obtain h sep t where g: "g = h @ sep @ t" "same_word w h" "reads P e (v # ws) t" by auto
  have "word h" using same_word_chars [OF g(2)] 3(2) by simp
  moreover have "t \<noteq> [] \<and> is_word_char (last t)" using 3(1) [OF _ _ g(3)] 3(2) by simp
  ultimately show ?case by (simp add: g(1) word_def)
qed simp

lemma take_sep:
  assumes "\<forall>c\<in>set sep. P c" "t \<noteq> []" "\<not> P (hd t)"
  shows "takeWhile P (sep @ t @ r) = sep" "dropWhile P (sep @ t @ r) = t @ r"
  using assms by (cases t; simp add: takeWhile_append2 dropWhile_append2)+

lemma match_many_iff:
  "match_many P s = Some (q, r) \<longleftrightarrow> takeWhile P s \<noteq> [] \<and> q = after p (takeWhile P s) \<and> r = dropWhile P s"
  by (auto simp: match_many_def after_last split: list.splits)

lemma match_spaces:
  assumes "\<And>t. reads js_space False ws t \<Longrightarrow> t \<noteq> [] \<and> \<not> js_space (hd t)"
    and "\<And>p s. match_seq (pats_of ws) p s = Some (q, r) \<longleftrightarrow>
      (\<exists>g. s = g @ r \<and> reads js_space False ws g \<and> q = after p g)"
  shows "match_seq (Spaces # pats_of ws) p s = Some (q, r) \<longleftrightarrow>
    (\<exists>sep t. s = sep @ t @ r \<and> sep \<noteq> [] \<and> (\<forall>c\<in>set sep. js_space c) \<and> reads js_space False ws t \<and>
       q = after p (sep @ t))" (is "?l \<longleftrightarrow> ?r")
proof
  let ?w = "takeWhile js_space s"
  assume ?l
  then obtain q1 where "match_many js_space s = Some (q1, dropWhile js_space s)"
    "match_seq (pats_of ws) q1 (dropWhile js_space s) = Some (q, r)"
    by (auto simp: match_many_iff [of _ _ _ _ p] split: option.splits)
  then obtain t where t: "?w \<noteq> []" "dropWhile js_space s = t @ r" "reads js_space False ws t" "q = after p (?w @ t)"
    by (auto simp: match_many_iff [of _ _ _ _ p] assms(2))
  have "s = ?w @ t @ r" using t(2) by (metis takeWhile_dropWhile_id)
  with t show ?r by (intro exI [of _ ?w] exI [of _ t]) (auto dest: set_takeWhileD)
next
  assume ?r
  then obtain sep t where s: "s = sep @ t @ r" "sep \<noteq> []" "\<forall>c\<in>set sep. js_space c" "reads js_space False ws t"
    "q = after (after p sep) t" by auto
  have "match_many js_space s = Some (after p sep, t @ r)"
    using take_sep [of sep js_space t r] s assms(1) [OF s(4)] by (simp add: match_many_iff [of _ _ _ _ p])
  moreover have "match_seq (pats_of ws) (after p sep) (t @ r) = Some (q, r)" unfolding assms(2) using s by blast
  ultimately show ?l by simp
qed

lemma match_seq_iff:
  assumes "list_all word ws"
  shows "match_seq (pats_of ws) p s = Some (q, r) \<longleftrightarrow> (\<exists>g. s = g @ r \<and> reads js_space False ws g \<and> q = after p g)"
  using assms
proof (induction ws arbitrary: p s rule: pats_of.induct)
  case 1
  show ?case by auto
next
  case (2 w)
  have "match_seq (pats_of [w]) p s = Some (q, r) \<longleftrightarrow> match_lit w p s = Some (q, r)"
    by (simp split: option.split)
  then show ?case by (simp add: match_lit_iff)
next
  case (3 w v ws)
  have ends: "t \<noteq> [] \<and> \<not> js_space (hd t)" if "reads js_space False (v # ws) t" for t
    using reads_ends [OF _ _ that] 3(2) word_char_plain by simp
  have "match_seq (pats_of (w # v # ws)) p s = Some (q, r) \<longleftrightarrow>
      (\<exists>q1 r1. match_lit w p s = Some (q1, r1) \<and> match_seq (Spaces # pats_of (v # ws)) q1 r1 = Some (q, r))"
    by (simp split: option.split)
  also have "\<dots> \<longleftrightarrow> (\<exists>h sep t. s = h @ sep @ t @ r \<and> same_word w h \<and> sep \<noteq> [] \<and> (\<forall>c\<in>set sep. js_space c) \<and>
      reads js_space False (v # ws) t \<and> q = after p (h @ sep @ t))"
  proof -
    have IH: "\<And>p s. match_seq (pats_of (v # ws)) p s = Some (q, r) \<longleftrightarrow>
        (\<exists>g. s = g @ r \<and> reads js_space False (v # ws) g \<and> q = after p g)" using 3 by simp
    have "match_seq (Spaces # pats_of (v # ws)) q1 r1 = Some (q, r) \<longleftrightarrow>
        (\<exists>sep t. r1 = sep @ t @ r \<and> sep \<noteq> [] \<and> (\<forall>c\<in>set sep. js_space c) \<and> reads js_space False (v # ws) t \<and>
           q = after q1 (sep @ t))" for q1 r1
      by (rule match_spaces [OF ends IH])
    note sp = this
    show ?thesis (is "?l \<longleftrightarrow> ?r")
    proof
      assume ?l
      then obtain h r1 where h: "s = h @ r1" "same_word w h"
        "match_seq (Spaces # pats_of (v # ws)) (after p h) r1 = Some (q, r)" unfolding match_lit_iff by blast
      then obtain sep t where "r1 = sep @ t @ r" "sep \<noteq> [] \<and> (\<forall>c\<in>set sep. js_space c) \<and> reads js_space False (v # ws) t"
        "q = after (after p h) (sep @ t)" unfolding sp by blast
      with h(1,2) show ?r by (intro exI [of _ h] exI [of _ sep] exI [of _ t]) simp
    next
      assume ?r
      then obtain h sep t where h: "s = h @ sep @ t @ r" "same_word w h" "sep \<noteq> [] \<and> (\<forall>c\<in>set sep. js_space c) \<and>
        reads js_space False (v # ws) t" "q = after p (h @ sep @ t)" by blast
      have "match_lit w p s = Some (after p h, sep @ t @ r)" unfolding match_lit_iff using h(1,2) by blast
      moreover have "q = after (after p h) (sep @ t)" using h(4) by simp
      then have "match_seq (Spaces # pats_of (v # ws)) (after p h) (sep @ t @ r) = Some (q, r)"
        unfolding sp using h(3) by blast
      ultimately show ?l by blast
    qed
  qed
  also have "\<dots> \<longleftrightarrow> (\<exists>g. s = g @ r \<and> reads js_space False (w # v # ws) g \<and> q = after p g)" (is "?l \<longleftrightarrow> ?r")
  proof
    assume ?l
    then obtain h sep t where "s = h @ sep @ t @ r" "same_word w h" "sep \<noteq> []" "\<forall>c\<in>set sep. js_space c"
      "reads js_space False (v # ws) t" "q = after p (h @ sep @ t)" by blast
    then show ?r by (intro exI [of _ "h @ sep @ t"]) auto
  next
    assume ?r
    then obtain h sep t where "s = (h @ sep @ t) @ r" "same_word w h" "sep \<noteq> []" "\<forall>c\<in>set sep. js_space c"
      "reads js_space False (v # ws) t" "q = after p (h @ sep @ t)" by auto
    then show ?l by (intro exI [of _ h] exI [of _ sep] exI [of _ t]) simp
  qed
  finally show ?case .
qed

lemma positions:
  assumes "\<And>p. f p [] = here p []" "\<And>p c cs. f p (c # cs) = (here p (c # cs) \<or> f (Some c) cs)"
  shows "f p s \<longleftrightarrow> (\<exists>a t. s = a @ t \<and> here (after p a) t)"
proof (induction s arbitrary: p)
  case Nil
  show ?case by (auto simp: assms(1))
next
  case (Cons c cs)
  have "(\<exists>a t. c # cs = a @ t \<and> here (after p a) t) \<longleftrightarrow>
      here p (c # cs) \<or> (\<exists>a t. cs = a @ t \<and> here (after (Some c) a) t)" (is "?l \<longleftrightarrow> ?r")
  proof
    assume ?l
    then obtain a t where "c # cs = a @ t" "here (after p a) t" by blast
    then show ?r by (cases a) auto
  next
    assume ?r
    then show ?l
    proof
      assume "here p (c # cs)"
      then have "c # cs = [] @ (c # cs) \<and> here (after p []) (c # cs)" by simp
      then show ?l by blast
    next
      assume "\<exists>a t. cs = a @ t \<and> here (after (Some c) a) t"
      then obtain a t where "cs = a @ t" "here (after (Some c) a) t" by blast
      then show ?l by (intro exI [of _ "c # a"] exI [of _ t]) simp
    qed
  qed
  with Cons show ?case by (simp add: assms(2))
qed

lemma boundary_before:
  "g \<noteq> [] \<Longrightarrow> is_word_char (hd g) \<Longrightarrow> boundary (after None a) (g @ b) \<longleftrightarrow> a = [] \<or> \<not> is_word_char (last a)"
  by (cases g) (auto simp: boundary_def after_last)

lemma boundary_after:
  "g \<noteq> [] \<Longrightarrow> is_word_char (last g) \<Longrightarrow> boundary (after p g) b \<longleftrightarrow> b = [] \<or> \<not> is_word_char (hd b)"
  by (cases b) (auto simp: boundary_def after_last)

text \<open>A matcher that finds a reading of the words after the text \<open>a\<close>, between boundaries, searches for the phrase.\<close>

lemma finds_phrase:
  assumes "list_all word ws" "ws \<noteq> []"
    and "\<And>a t. here (after None a) t \<longleftrightarrow> boundary (after None a) t \<and>
      (\<exists>g b. t = g @ b \<and> reads P e ws g \<and> boundary (after (after None a) g) b)"
  shows "(\<exists>a t. s = a @ t \<and> here (after None a) t) \<longleftrightarrow> phrase P e ws s" (is "?l \<longleftrightarrow> ?r")
proof
  assume ?l
  then obtain a g b where g: "s = a @ g @ b" "reads P e ws g" "boundary (after None a) (g @ b)"
    "boundary (after (after None a) g) b" unfolding assms(3) by auto
  note ends = reads_ends [OF assms(1,2) g(2)]
  have "a = [] \<or> \<not> is_word_char (last a)" using g(3) boundary_before ends by simp
  moreover have "b = [] \<or> \<not> is_word_char (hd b)" using g(4) boundary_after ends by simp
  ultimately show ?r using g(1,2) unfolding phrase_def by blast
next
  assume ?r
  then obtain a g b where g: "s = a @ g @ b" "reads P e ws g" "a = [] \<or> \<not> is_word_char (last a)"
    "b = [] \<or> \<not> is_word_char (hd b)" unfolding phrase_def by blast
  note ends = reads_ends [OF assms(1,2) g(2)]
  have "here (after None a) (g @ b)"
    unfolding assms(3) using g boundary_before [of g a b] boundary_after [of g "after None a" b] ends by blast
  with g(1) show ?l by blast
qed

lemma search_phrase:
  assumes "list_all word ws" "ws \<noteq> []"
  shows "search (pats_of ws) None s \<longleftrightarrow> phrase js_space False ws s"
proof -
  have "match_word_seq (pats_of ws) p t \<longleftrightarrow>
      boundary p t \<and> (\<exists>g b. t = g @ b \<and> reads js_space False ws g \<and> boundary (after p g) b)" for p t
  proof -
    have "match_word_seq (pats_of ws) p t \<longleftrightarrow>
        boundary p t \<and> (\<exists>q b. match_seq (pats_of ws) p t = Some (q, b) \<and> boundary q b)"
      by (simp add: match_word_seq_def split: option.split)
    also have "\<dots> \<longleftrightarrow> boundary p t \<and> (\<exists>g b. t = g @ b \<and> reads js_space False ws g \<and> boundary (after p g) b)"
      unfolding match_seq_iff [OF assms(1)] by blast
    finally show ?thesis .
  qed
  note here = this
  have "search (pats_of ws) None s \<longleftrightarrow> (\<exists>a t. s = a @ t \<and> match_word_seq (pats_of ws) (after None a) t)"
    by (rule positions) simp_all
  also have "\<dots> \<longleftrightarrow> phrase js_space False ws s" by (rule finds_phrase [OF assms here])
  finally show ?thesis .
qed

lemma words [simp]: "list_all (list_all word) (financial_phrases @ safety_phrases)" "list_all word [''risk'', ''free'']"
  unfolding word_def list_all_iff by (simp_all add: financial_phrases_def safety_phrases_def is_word_char_def)

lemma drop_takeWhile: "drop (length (takeWhile P xs)) xs = dropWhile P xs"
  by (simp add: dropWhile_eq_drop)

abbreviation risk_sep :: "char \<Rightarrow> bool" where
  "risk_sep c \<equiv> js_space c \<or> c = CHR ''-''"

lemma risk_free_here_iff:
  "risk_free_here p s \<longleftrightarrow>
     boundary p s \<and> (\<exists>g b. s = g @ b \<and> reads risk_sep True [''risk'', ''free''] g \<and> boundary (after p g) b)"
proof -
  have "risk_free_here p s \<longleftrightarrow> boundary p s \<and> (\<exists>q r q' b. match_lit ''risk'' p s = Some (q, r) \<and>
      match_lit ''free'' (after q (takeWhile risk_sep r)) (dropWhile risk_sep r) = Some (q', b) \<and> boundary q' b)"
    unfolding risk_free_here_def Let_def drop_takeWhile after_last [symmetric] by (simp split: option.split)
  also have "\<dots> \<longleftrightarrow>
      boundary p s \<and> (\<exists>g b. s = g @ b \<and> reads risk_sep True [''risk'', ''free''] g \<and> boundary (after p g) b)"
    (is "_ \<and> ?l \<longleftrightarrow> _ \<and> ?r")
  proof (rule conj_cong [OF refl], rule iffI)
    assume ?l
    then obtain h r t b where h: "s = h @ r" "same_word ''risk'' h" "dropWhile risk_sep r = t @ b" "same_word ''free'' t"
      "boundary (after (after (after p h) (takeWhile risk_sep r)) t) b" unfolding match_lit_iff by blast
    have "r = takeWhile risk_sep r @ t @ b" using h(3) by (metis takeWhile_dropWhile_id)
    then have "s = (h @ takeWhile risk_sep r @ t) @ b" using h(1) by simp
    moreover have "reads risk_sep True [''risk'', ''free''] (h @ takeWhile risk_sep r @ t)"
      using h(2,4) by (auto dest: set_takeWhileD)
    moreover have "boundary (after p (h @ takeWhile risk_sep r @ t)) b" using h(5) by simp
    ultimately show ?r by blast
  next
    assume ?r
    then obtain h sep t b where h: "s = h @ sep @ t @ b" "same_word ''risk'' h" "\<forall>c\<in>set sep. risk_sep c"
      "same_word ''free'' t" "boundary (after p (h @ sep @ t)) b" by auto
    have "word t" using same_word_chars [OF h(4)] words(2) by simp
    then have t: "t \<noteq> []" "\<not> risk_sep (hd t)" using word_char_plain by (auto simp: word_def)
    have "match_lit ''risk'' p s = Some (after p h, sep @ t @ b)" unfolding match_lit_iff using h(1,2) by blast
    moreover have "match_lit ''free'' (after (after p h) (takeWhile risk_sep (sep @ t @ b)))
        (dropWhile risk_sep (sep @ t @ b)) = Some (after (after (after p h) sep) t, b)"
      unfolding take_sep [OF h(3) t] match_lit_iff using h(4) by blast
    moreover have "boundary (after (after (after p h) sep) t) b" using h(5) by simp
    ultimately show ?l by blast
  qed
  finally show ?thesis .
qed

lemma risk_free_phrase: "risk_free None s \<longleftrightarrow> phrase risk_sep True [''risk'', ''free''] s"
proof -
  have "risk_free None s \<longleftrightarrow> (\<exists>a t. s = a @ t \<and> risk_free_here (after None a) t)"
    by (rule positions) simp_all
  also have "\<dots> \<longleftrightarrow> phrase risk_sep True [''risk'', ''free''] s"
    using words(2) by (intro finds_phrase) (simp_all add: risk_free_here_iff)
  finally show ?thesis .
qed

section \<open>The checks of the code agree\<close>

lemma patterns: "financial_patterns = map pats_of financial_phrases" "safety_patterns = map pats_of safety_phrases"
  by (simp_all add: financial_patterns_def financial_phrases_def safety_patterns_def safety_phrases_def)

lemma searches:
  "ws \<in> set financial_phrases \<union> set safety_phrases \<Longrightarrow> search (pats_of ws) None s \<longleftrightarrow> phrase js_space False ws s"
  using words(1) by (intro search_phrase) (auto simp: list_all_iff financial_phrases_def safety_phrases_def)

lemma prohibited_iff: "checkProhibitedLanguage s = None \<longleftrightarrow> \<not> prohibited_text s"
proof -
  have "checkProhibitedLanguage s = None \<longleftrightarrow>
      (\<forall>ws\<in>set financial_phrases. \<not> search (pats_of ws) None s) \<and> \<not> risk_free None s"
    using find_None_iff [of "\<lambda>ps. search ps None s" "map pats_of financial_phrases"]
    unfolding checkProhibitedLanguage_def patterns by (cases "find (\<lambda>ps. search ps None s) (map pats_of financial_phrases)") auto
  then show ?thesis using searches unfolding prohibited_text_def risk_free_phrase by blast
qed

lemma supports_safety_iff: "supports_safety ev \<longleftrightarrow> proves_safety ev"
  by (auto simp: supports_safety_def proves_safety_def)

lemma unsupported_safety_iff:
  "checkUnsupportedSafety c ids m = None \<longleftrightarrow>
     (asserts_safety c \<longrightarrow> (\<exists>eid\<in>set ids. \<exists>ev. map_of m eid = Some ev \<and> proves_safety ev))"
proof -
  have "list_ex (\<lambda>ps. search ps None (toLowerCase c)) safety_patterns \<longleftrightarrow> asserts_safety c"
    unfolding patterns asserts_safety_def list_ex_iff using searches by auto
  moreover have "list_ex (supported_by m) ids \<longleftrightarrow> (\<exists>eid\<in>set ids. \<exists>ev. map_of m eid = Some ev \<and> proves_safety ev)"
    unfolding list_ex_iff supported_by_def supports_safety_iff by (auto split: option.splits)
  ultimately show ?thesis by (simp add: checkUnsupportedSafety_def)
qed

lemma gives_Nil [simp]: "\<not> gives [] fs x"
  by (simp add: gives_def)

lemma gives_Cons [simp]:
  "gives (k # ks) fs x \<longleftrightarrow>
     map_of fs k = Some (VNum x) \<or> (map_of fs k = None \<or> map_of fs k = Some VNull) \<and> gives ks fs x" (is "?l \<longleftrightarrow> ?r")
proof
  assume ?l
  then obtain pre k' post where g: "k # ks = pre @ k' # post" "map_of fs k' = Some (VNum x)"
    "\<forall>j\<in>set pre. map_of fs j = None \<or> map_of fs j = Some VNull" unfolding gives_def by blast
  then show ?r unfolding gives_def by (cases pre) auto
next
  assume ?r
  then show ?l
  proof
    assume "map_of fs k = Some (VNum x)"
    then have "k # ks = [] @ k # ks \<and> map_of fs k = Some (VNum x) \<and>
        (\<forall>j\<in>set []. map_of fs j = None \<or> map_of fs j = Some VNull)" by simp
    then show ?l unfolding gives_def by blast
  next
    assume r: "(map_of fs k = None \<or> map_of fs k = Some VNull) \<and> gives ks fs x"
    then obtain pre k' post where "ks = pre @ k' # post" "map_of fs k' = Some (VNum x)"
      "\<forall>j\<in>set pre. map_of fs j = None \<or> map_of fs j = Some VNull" unfolding gives_def by blast
    then have "k # ks = (k # pre) @ k' # post \<and> map_of fs k' = Some (VNum x) \<and>
        (\<forall>j\<in>set (k # pre). map_of fs j = None \<or> map_of fs j = Some VNull)" using r by simp
    then show ?l unfolding gives_def by blast
  qed
qed

lemma number_below_iff: "number_below n (first_member ks fs) \<longleftrightarrow> (\<exists>x<n. gives ks fs x)"
proof (induction ks)
  case (Cons k ks)
  show ?case
  proof (cases "map_of fs k")
    case (Some v)
    then show ?thesis using Cons by (cases v) auto
  qed (simp add: Cons)
qed simp

lemma none_of_four:
  "(if a \<and> b then Some w else if a \<and> c then Some x else if d \<and> e then Some y else if f then Some z else None) = None \<longleftrightarrow>
   \<not> (a \<and> (b \<or> c) \<or> d \<and> e \<or> f)"
  by auto

lemma contradicts_iff: "checkDirectionMagnitude c fs = None \<longleftrightarrow> \<not> contradicts c fs"
proof -
  have s: "text_includes (toLowerCase c) a \<longleftrightarrow> says {a} c" for a
    by (simp add: says_def text_includes_iff)
  have u: "says {a, b, d} c \<longleftrightarrow> says {a} c \<or> says {b} c \<or> says {d} c" for a b d
    unfolding says_def by blast
  have d: "direction_in [a, b] fs \<longleftrightarrow> map_of fs ''direction'' \<in> {Some (VStr a), Some (VStr b)}" for a b
    unfolding direction_in_def by simp
  show ?thesis
    unfolding checkDirectionMagnitude_def contradicts_def Let_def number_below_iff d s none_of_four u by blast
qed

lemma entity_failures_Nil: "entity_failures opts ev eid k t = [] \<longleftrightarrow> belongs opts ev"
  by (auto simp: entity_failures_def belongs_def given_def fail_def split: option.splits)

lemma time_failures_Nil: "time_failures eg opts now ev eid k t = [] \<longleftrightarrow> timely eg opts now ev"
  by (auto simp: time_failures_def timely_def stale_def fail_def Let_def not_less split: option.splits)

lemma fold_add_new: "set (fold add_new xs ys) = set xs \<union> set ys" "distinct ys \<Longrightarrow> distinct (fold add_new xs ys)"
  by (induction xs arbitrary: ys) (auto simp: add_new_def)

lemma set_cited: "set (cited_ids d) = cited d"
  by (auto simp: cited_ids_def fold_add_new cited_def assertions_def claim_groups_def)

lemma length_cited: "length (cited_ids d) = card (cited d)"
proof -
  have "distinct (cited_ids d)" by (simp add: cited_ids_def fold_add_new)
  then show ?thesis using distinct_card set_cited by metis
qed

lemma set_groups: "set (cited_groups d m) = groups_cited d m" and distinct_groups: "distinct (cited_groups d m)"
proof -
  let ?f = "\<lambda>eid gs. case map_of m eid of None \<Rightarrow> gs | Some ev \<Rightarrow> if ev_group ev = [] then gs else add_new (ev_group ev) gs"
  have "set (fold ?f ids gs) = {ev_group ev | eid ev. eid \<in> set ids \<and> map_of m eid = Some ev \<and> ev_group ev \<noteq> []} \<union> set gs"
    for ids gs by (induction ids arbitrary: gs) (auto simp: add_new_def split: option.splits)
  then show "set (cited_groups d m) = groups_cited d m"
    by (simp add: cited_groups_def groups_cited_def set_cited)
  have "distinct gs \<Longrightarrow> distinct (fold ?f ids gs)" for ids gs
    by (induction ids arbitrary: gs) (auto simp: add_new_def split: option.splits)
  then show "distinct (cited_groups d m)" by (simp add: cited_groups_def)
qed

lemma length_groups: "length (cited_groups d m) = card (groups_cited d m)"
  unfolding set_groups [symmetric] by (simp add: distinct_card distinct_groups)

lemma important_iff: "has_important_claims d \<longleftrightarrow> assertions d \<noteq> {}"
  by (auto simp: has_important_claims_def claim_groups_def assertions_def)

end
