(* ===== verification/Decision_Facts.thy ===== *)
theory Decision_Facts
  imports Evidence_Spec "HOL-Library.Multiset"
begin

text \<open>
  What the evidence validator and the decision engine guarantee: validity is support of every
  claim, abstention is failure of a gate, and the ranking of the candidates that are not abstained on.
\<close>

section \<open>Support of a claim\<close>

lemma fail_not_Nil [simp]: "fail c msg k t e \<noteq> []" "decision_failure c msg \<noteq> []"
  by (simp_all add: fail_def decision_failure_def)

lemma evidence_failures_Nil:
  "evidence_failures eg opts now m claim t k eid = [] \<longleftrightarrow> (\<exists>ev. map_of m eid = Some ev \<and> backs eg opts now claim ev)"
proof (cases "map_of m eid")
  case (Some ev)
  then show ?thesis
    using contradicts_iff [of claim "ev_fields ev"]
    by (auto simp: evidence_failures_def backs_def entity_failures_Nil time_failures_Nil split: option.splits)
qed (simp add: evidence_failures_def)

lemma claim_failures_Nil:
  "claim_failures eg opts now m t k c = [] \<longleftrightarrow>
     (if cl_evidence c = [] then t = Hypotheses else supported_claim eg opts now m c)"
  using prohibited_iff [of "cl_claim c"] unsupported_safety_iff [of "cl_claim c" "cl_evidence c" m]
  by (auto simp: claim_failures_def supported_claim_def evidence_failures_Nil Let_def split: option.splits)

lemma group_failures_Nil:
  "group_failures eg opts now m (t, cs) = [] \<longleftrightarrow>
     (\<forall>c\<in>set cs. if cl_evidence c = [] then t = Hypotheses else supported_claim eg opts now m c)"
proof -
  have "set cs = snd ` set (enumerate 0 cs)" by (metis list.set_map map_snd_enumerate)
  then show ?thesis unfolding group_failures_def by (auto simp: claim_failures_Nil)
qed

lemma thesis_failures_Nil: "thesis_failures s = [] \<longleftrightarrow> \<not> prohibited_text s"
  unfolding prohibited_iff [symmetric] by (auto simp: thesis_failures_def split: option.splits)

lemma independence_failures_Nil:
  "independence_failures opts d m = [] \<longleftrightarrow>
   (\<forall>r. op_groups opts = Some r \<and> assertions d \<noteq> {} \<longrightarrow> r \<le> of_nat (card (groups_cited d m)))"
  unfolding important_iff [symmetric] length_groups [symmetric]
  by (auto simp: independence_failures_def Let_def not_less split: option.splits)

lemma validate_evidence_valid:
  assumes "validate_evidence eg sha lc at_time d m opts = Inr r" "date_ms eg (op_time opts) = Some now"
  shows "vr_valid r \<longleftrightarrow> supported eg opts now m d"
proof -
  have "vr_valid r \<longleftrightarrow> (\<forall>g\<in>set (claim_groups d). group_failures eg opts now m g = []) \<and>
      thesis_failures (ca_thesis d) = [] \<and> thesis_failures (ca_counter d) = [] \<and> independence_failures opts d m = []"
    using assms by (auto simp: validate_evidence_def Let_def)
  also have "\<dots> \<longleftrightarrow> supported eg opts now m d"
    unfolding supported_def thesis_failures_Nil independence_failures_Nil claim_groups_def assertions_def
    by (auto simp: group_failures_Nil)
  finally show ?thesis .
qed

section \<open>Stale evidence\<close>

definition stale_in :: "failure list \<Rightarrow> bool" where
  "stale_in fs \<longleftrightarrow> list_ex (\<lambda>f. fa_code f = ''EVIDENCE_STALE'') fs"

lemma stale_in_simps [simp]:
  "\<not> stale_in []" "stale_in (xs @ ys) \<longleftrightarrow> stale_in xs \<or> stale_in ys"
  "stale_in (fail c msg k t e) \<longleftrightarrow> c = ''EVIDENCE_STALE''" "stale_in (decision_failure c msg) \<longleftrightarrow> c = ''EVIDENCE_STALE''"
  "stale_in (concat xss) \<longleftrightarrow> (\<exists>xs\<in>set xss. stale_in xs)"
  by (auto simp: stale_in_def fail_def decision_failure_def list_ex_iff)

lemma stale_entity: "\<not> stale_in (entity_failures opts ev eid k t)"
  by (auto simp: entity_failures_def split: option.split)

lemma stale_time:
  "stale_in (time_failures eg opts now ev eid k t) \<longleftrightarrow> (\<exists>l. op_max_fresh opts = Some l \<and> stale eg l now ev)"
  by (auto simp: time_failures_def stale_def Let_def split: option.split)

lemma stale_evidence:
  "stale_in (evidence_failures eg opts now m claim t k eid) \<longleftrightarrow>
     (\<exists>ev l. map_of m eid = Some ev \<and> op_max_fresh opts = Some l \<and> stale eg l now ev)"
  by (cases "map_of m eid"; cases "checkDirectionMagnitude claim (ev_fields (the (map_of m eid)))")
    (simp_all add: evidence_failures_def stale_entity stale_time)

lemma stale_claim:
  "stale_in (claim_failures eg opts now m t k c) \<longleftrightarrow>
     (\<exists>eid\<in>set (cl_evidence c). \<exists>ev l. map_of m eid = Some ev \<and> op_max_fresh opts = Some l \<and> stale eg l now ev)"
  by (cases "checkUnsupportedSafety (cl_claim c) (cl_evidence c) m"; cases "checkProhibitedLanguage (cl_claim c)")
    (auto simp: claim_failures_def stale_evidence Let_def)

lemma stale_group:
  "stale_in (group_failures eg opts now m (t, cs)) \<longleftrightarrow>
     (\<exists>c\<in>set cs. \<exists>eid\<in>set (cl_evidence c). \<exists>ev l. map_of m eid = Some ev \<and> op_max_fresh opts = Some l \<and> stale eg l now ev)"
proof -
  have s: "set cs = snd ` set (enumerate 0 cs)" by (metis list.set_map map_snd_enumerate)
  have "stale_in (group_failures eg opts now m (t, cs)) \<longleftrightarrow>
      (\<exists>x\<in>set (enumerate 0 cs). stale_in (claim_failures eg opts now m t (fst x) (snd x)))"
    by (simp add: group_failures_def case_prod_beta)
  then show ?thesis unfolding stale_claim s by blast
qed

lemma stale_decision: "\<not> stale_in (thesis_failures s)" "\<not> stale_in (independence_failures opts d m)"
  by (auto simp: thesis_failures_def independence_failures_def Let_def split: option.split)

lemma validate_evidence_stale:
  assumes "validate_evidence eg sha lc at_time d m opts = Inr r" "date_ms eg (op_time opts) = Some now"
    and "op_max_fresh opts = Some l"
  shows "list_ex (\<lambda>f. fa_code f = ''EVIDENCE_STALE'') (vr_failures r) \<longleftrightarrow>
    (\<exists>eid\<in>cited d. \<exists>ev. map_of m eid = Some ev \<and> stale eg l now ev)"
proof -
  have "vr_failures r = concat (map (group_failures eg opts now m) (claim_groups d)) @
      thesis_failures (ca_thesis d) @ thesis_failures (ca_counter d) @ independence_failures opts d m"
    using assms(1,2) by (auto simp: validate_evidence_def Let_def)
  then have "stale_in (vr_failures r) \<longleftrightarrow> (\<exists>g\<in>set (claim_groups d). stale_in (group_failures eg opts now m g))"
    by (simp add: stale_decision)
  then show ?thesis
    unfolding stale_in_def claim_groups_def cited_def assertions_def using assms(3)
    by (auto simp: stale_group [unfolded stale_in_def])
qed

lemma validate_evidence_counts:
  assumes "validate_evidence eg sha lc at_time d m opts = Inr r"
  shows "ln_count (vr_lineage r) = card (cited d)" "ln_group_count (vr_lineage r) = card (groups_cited d m)"
  using assms by (auto simp: validate_evidence_def Let_def length_cited length_groups split: option.splits)

section \<open>Abstention\<close>

definition all_gates :: "gate_config \<Rightarrow> gates \<Rightarrow> bool" where
  "all_gates g gt \<longleftrightarrow>
     gt_coverage gt \<and> gt_fresh gt \<and> gt_independence gt \<and> (gc_validator g \<longrightarrow> gt_validator gt) \<and>
     gt_critical gt \<and> gt_tradability gt"

lemma abstention_reasons_Nil: "abstention_reasons g i v = [] \<longleftrightarrow> all_gates g (gates_of g i v)"
  by (auto simp: abstention_reasons_def all_gates_def Let_def short_of_def gates_of_def not_less)

text \<open>What the engine rests on: what it reads of the proposal, and whether all it asks of it holds.\<close>

abbreviation claims_of :: "decision_input \<Rightarrow> claims" where
  "claims_of i \<equiv> proposal_claims (di_proposed i)"

definition options_of :: "decision_input \<Rightarrow> validator_options" where
  "options_of i = (let g = gate_config_of (di_gates i) in
     (di_options i)\<lparr>op_groups := Some (gc_groups g), op_max_fresh := Some (gc_fresh g)\<rparr>)"

definition well_founded_decision :: "engine \<Rightarrow> int \<Rightarrow> decision_input \<Rightarrow> bool" where
  "well_founded_decision eg now i \<longleftrightarrow>
     (let g = gate_config_of (di_gates i); d = claims_of i; m = di_evidence i in
      gc_facts g \<le> of_nat (length (ca_observed d)) \<and> gc_evidence g \<le> of_nat (card (cited d)) \<and>
      gc_groups g \<le> of_nat (card (groups_cited d m)) \<and>
      (\<forall>eid\<in>cited d. \<forall>ev. map_of m eid = Some ev \<longrightarrow> \<not> stale eg (gc_fresh g) now ev) \<and>
      (gc_validator g \<longrightarrow> supported eg (options_of i) now m d) \<and>
      \<not> (gc_critical g \<and> di_critical i = Some True) \<and> di_tradability i \<noteq> Some False)"

lemma all_gates_iff:
  assumes "validated eg sha lc at_time i = Inr v" "date_ms eg (op_time (di_options i)) = Some now"
  shows "all_gates (gate_config_of (di_gates i)) (gates_of (gate_config_of (di_gates i)) i v) \<longleftrightarrow>
    well_founded_decision eg now i"
proof -
  have v: "validate_evidence eg sha lc at_time (claims_of i) (di_evidence i) (options_of i) = Inr v"
    using assms(1) by (simp add: validated_def options_of_def Let_def)
  have t: "date_ms eg (op_time (options_of i)) = Some now" using assms(2) by (simp add: options_of_def Let_def)
  have f: "op_max_fresh (options_of i) = Some (gc_fresh (gate_config_of (di_gates i)))"
    by (simp add: options_of_def Let_def)
  show ?thesis
    unfolding all_gates_def gates_of_def well_founded_decision_def Let_def gates.simps
      validate_evidence_stale [OF v t f] validate_evidence_counts [OF v] validate_evidence_valid [OF v t]
    by (auto simp: proposal_claims_def)
qed

lemma gates_fresh:
  assumes "validated eg sha lc at_time i = Inr v" "date_ms eg (op_time (di_options i)) = Some now"
  shows "gt_fresh (gates_of g i v) \<longleftrightarrow> \<not> (\<exists>eid\<in>cited (claims_of i). \<exists>ev. map_of (di_evidence i) eid = Some ev \<and>
    stale eg (gc_fresh (gate_config_of (di_gates i))) now ev)"
proof -
  have "validate_evidence eg sha lc at_time (claims_of i) (di_evidence i) (options_of i) = Inr v"
    using assms(1) by (simp add: validated_def options_of_def Let_def)
  from validate_evidence_stale [OF this] show ?thesis using assms(2) by (simp add: gates_of_def options_of_def Let_def)
qed

text \<open>Which reasons are given: those that are one word, and the others begin otherwise.\<close>

lemma reason_members:
  "''STALE_EVIDENCE'' \<in> set (abstention_reasons g i v) \<longleftrightarrow> \<not> gt_fresh (gates_of g i v)"
  "''CRITICAL_RISK_BLOCKS_ALERT'' \<in> set (abstention_reasons g i v) \<longleftrightarrow> \<not> gt_critical (gates_of g i v)"
  "''TRADABILITY_FAILED'' \<in> set (abstention_reasons g i v) \<longleftrightarrow> \<not> gt_tradability (gates_of g i v)"
  by (simp_all add: abstention_reasons_def short_of_def Let_def)

lemma validated_total:
  assumes "date_ms eg (op_time (di_options i)) = Some now"
  obtains v where "validated eg sha lc at_time i = Inr v"
  using assms by (simp add: validated_def validate_evidence_def Let_def)

lemma decide_Inr:
  assumes "decide eg sha lc now i = Inr r"
  obtains v where "validated eg sha lc now i = Inr v"
    "dr_reasons r = abstention_reasons (gate_config_of (di_gates i)) i v"
    "dr_decision r = decision_of i (dr_reasons r)" "dr_abstained r \<longleftrightarrow> dr_reasons r \<noteq> []"
    "dr_validator r = v" "dr_gates r = gates_of (gate_config_of (di_gates i)) i v"
  using assms by (auto simp: decide_def Let_def)

section \<open>Sorting by a comparator\<close>

definition ordering_on :: "'a set \<Rightarrow> ('a \<Rightarrow> 'a \<Rightarrow> int) \<Rightarrow> bool" where
  "ordering_on A cmp \<longleftrightarrow>
     (\<forall>a\<in>A. \<forall>b\<in>A. 0 < cmp a b \<longrightarrow> cmp b a \<le> 0) \<and>
     (\<forall>a\<in>A. \<forall>b\<in>A. \<forall>c\<in>A. cmp a b \<le> 0 \<longrightarrow> cmp b c \<le> 0 \<longrightarrow> cmp a c \<le> 0)"

lemma mset_js_insert [simp]: "mset (js_insert cmp x xs) = add_mset x (mset xs)"
  by (induction xs) auto

lemma mset_js_sort [simp]: "mset (js_sort cmp xs) = mset xs"
  unfolding js_sort_def by (induction xs) auto

lemma js_insert_sorted:
  assumes "ordering_on A cmp" "insert x (set xs) \<subseteq> A" "sorted_wrt (\<lambda>a b. cmp a b \<le> 0) xs"
  shows "sorted_wrt (\<lambda>a b. cmp a b \<le> 0) (js_insert cmp x xs)"
  using assms(2,3)
proof (induction xs)
  case Nil
  then show ?case by simp
next
  case (Cons y ys)
  show ?case
  proof (cases "0 < cmp x y")
    case True
    then have "cmp y x \<le> 0" using Cons.prems(1) assms(1) unfolding ordering_on_def by auto
    with True Cons show ?thesis by simp
  next
    case False
    have "cmp x z \<le> 0" if "z \<in> set ys" for z
      using False that Cons.prems assms(1) unfolding ordering_on_def by (simp add: not_less) blast
    with False Cons.prems show ?thesis by simp
  qed
qed

lemma js_sort_Cons: "js_sort cmp (x # xs) = js_insert cmp x (js_sort cmp xs)"
  by (simp add: js_sort_def)

lemma js_sort_sorted:
  assumes "ordering_on A cmp"
  shows "set xs \<subseteq> A \<Longrightarrow> sorted_wrt (\<lambda>a b. cmp a b \<le> 0) (js_sort cmp xs)"
proof (induction xs)
  case Nil
  then show ?case by (simp add: js_sort_def)
next
  case (Cons x xs)
  then show ?case unfolding js_sort_Cons by (intro js_insert_sorted [OF assms]) simp_all
qed

lemma ordering_by_score: "ordering_on UNIV lc \<Longrightarrow> ordering_on UNIV (by_score lc cs)"
  unfolding ordering_on_def by_score_def Let_def by (auto split: if_splits)

section \<open>Ranks\<close>

lemma evaluate_all_Inr:
  "evaluate_all f cs = Inr ev \<Longrightarrow> list_all2 (\<lambda>c e. fst e = cn_id c \<and> f (cn_input c) = Inr (snd e)) cs ev"
  by (induction cs arbitrary: ev) auto

lemma rank_map_spread: "rank_map rs = spread [] (map (\<lambda>(k, e). (fst e, Suc k)) (enumerate 0 rs))"
proof -
  have "fold (\<lambda>(k, e) m. assoc_set (fst e) (Suc k) m) xs m =
      fold (\<lambda>(k, v) m. assoc_set k v m) (map (\<lambda>(k, e). (fst e, Suc k)) xs) m" for xs m
    by (induction xs arbitrary: m) auto
  then show ?thesis by (simp add: rank_map_def spread_def)
qed

lemma map_of_rank_map:
  assumes "distinct (map fst rs)" "k < length rs"
  shows "map_of (rank_map rs) (fst (rs ! k)) = Some (Suc k)"
proof -
  let ?b = "map (\<lambda>(k, e). (fst e, Suc k)) (enumerate 0 rs)"
  have keys: "map fst ?b = map fst rs"
    by (rule nth_equalityI) (auto simp: nth_enumerate_eq)
  have "(fst (rs ! k), Suc k) \<in> set ?b"
    using assms(2) by (force simp: in_set_enumerate_eq)
  then have "map_of ?b (fst (rs ! k)) = Some (Suc k)"
    using assms(1) keys by (intro map_of_is_SomeI) simp_all
  moreover have "map_of (rank_map rs) = map_of ?b"
    unfolding rank_map_spread using assms(1) keys by (subst map_of_spread) simp_all
  ultimately show ?thesis by simp
qed

lemma score_of_contender:
  assumes "distinct (map cn_id cs)" "c \<in> set cs"
  shows "score_of cs (cn_id c) = cn_score c"
proof -
  let ?b = "map (\<lambda>c. (cn_id c, cn_score c)) cs"
  have "score_map cs = spread [] ?b"
  proof -
    have "fold (\<lambda>c m. assoc_set (cn_id c) (cn_score c) m) xs m =
        fold (\<lambda>(k, v) m. assoc_set k v m) (map (\<lambda>c. (cn_id c, cn_score c)) xs) m" for xs m
      by (induction xs arbitrary: m) auto
    then show ?thesis by (simp add: score_map_def spread_def)
  qed
  then have "map_of (score_map cs) = map_of ?b"
    using assms(1) by (simp add: map_of_spread comp_def)
  moreover have "map_of ?b (cn_id c) = Some (cn_score c)"
    using assms by (intro map_of_is_SomeI) (auto simp: comp_def)
  ultimately show ?thesis by (simp add: score_of_def)
qed

text \<open>The ranked list holds the candidates that are not abstained on, better scores first.\<close>

definition rankable :: "(string \<times> decision_result) list \<Rightarrow> (string \<times> decision_result) list" where
  "rankable ev = filter (\<lambda>e. \<not> dr_abstained (snd e)) ev"

lemma ranked_facts:
  assumes "distinct (map fst ev)" "ordering_on UNIV lc"
  shows "set (ranked lc cs ev) = set (rankable ev)" "length (ranked lc cs ev) = length (rankable ev)"
    and "distinct (map fst (ranked lc cs ev))"
    and "i < j \<Longrightarrow> j < length (ranked lc cs ev) \<Longrightarrow>
      score_of cs (fst (ranked lc cs ev ! j)) \<le> score_of cs (fst (ranked lc cs ev ! i))"
proof -
  let ?R = "ranked lc cs ev"
  show "set ?R = set (rankable ev)" by (simp add: ranked_def rankable_def)
  show "length ?R = length (rankable ev)" by (simp add: ranked_def rankable_def)
  have "mset ?R = mset (rankable ev)" by (simp add: ranked_def rankable_def)
  then have "mset (map fst ?R) = mset (map fst (rankable ev))" by simp
  moreover have "distinct (map fst (rankable ev))"
    using assms(1) by (simp add: rankable_def distinct_map_filter)
  ultimately show "distinct (map fst ?R)" by (metis mset_eq_imp_distinct_iff)
  have "sorted_wrt (\<lambda>a b. by_score lc cs a b \<le> 0) ?R"
    unfolding ranked_def by (rule js_sort_sorted [OF ordering_by_score [OF assms(2)]]) simp
  moreover assume "i < j" "j < length ?R"
  ultimately have "by_score lc cs (?R ! i) (?R ! j) \<le> 0" by (simp add: sorted_wrt_iff_nth_less)
  then show "score_of cs (fst (?R ! j)) \<le> score_of cs (fst (?R ! i))"
    by (auto simp: by_score_def Let_def split: if_splits)
qed

lemma ranked_position:
  assumes "distinct (map fst ev)" "ordering_on UNIV lc" "e \<in> set ev" "\<not> dr_abstained (snd e)"
  obtains k where "k < length (rankable ev)" "ranked lc cs ev ! k = e"
    "map_of (rank_map (ranked lc cs ev)) (fst e) = Some (Suc k)"
proof -
  note f = ranked_facts [OF assms(1,2), where cs = cs]
  have "e \<in> set (ranked lc cs ev)" using assms(3,4) by (simp add: f(1) rankable_def)
  then obtain k where k: "k < length (ranked lc cs ev)" "ranked lc cs ev ! k = e"
    by (auto simp: in_set_conv_nth)
  with map_of_rank_map [OF f(3) k(1)] f(2) show thesis by (intro that [of k]) simp_all
qed

definition standing_of ::
  "(string \<Rightarrow> string \<Rightarrow> int) \<Rightarrow> contender list \<Rightarrow> (string \<times> decision_result) list \<Rightarrow> string \<times> decision_result \<Rightarrow> standing" where
  "standing_of lc cs ev e =
     \<lparr>sd_id = fst e,
      sd_rank = (if dr_abstained (snd e) then None else map_of (rank_map (ranked lc cs ev)) (fst e)),
      sd_abstained = dr_abstained (snd e), sd_reasons = dr_reasons (snd e)\<rparr>"

lemma rankOrAbstain_Inr:
  assumes "rankOrAbstain eg sha lc now cs = Inr out"
  obtains ev where "list_all2 (\<lambda>c e. fst e = cn_id c \<and> decide eg sha lc now (cn_input c) = Inr (snd e)) cs ev"
    "out = map (standing_of lc cs ev) ev"
proof -
  obtain ev where ev: "evaluate_all (decide eg sha lc now) cs = Inr ev"
    and out: "Inr out = (Inr (if list_all (\<lambda>e. dr_abstained (snd e)) ev
         then map (\<lambda>e. \<lparr>sd_id = fst e, sd_rank = None, sd_abstained = True, sd_reasons = dr_reasons (snd e)\<rparr>) ev
         else map (standing_of lc cs ev) ev) :: standing list result)"
    using assms by (auto simp: rankOrAbstain_def standing_of_def Let_def)
  have "out = map (standing_of lc cs ev) ev"
    using out by (auto simp: standing_of_def list_all_iff)
  with evaluate_all_Inr [OF ev] show thesis by (rule that)
qed

end
