(* ===== verification/Confinement_Facts.thy ===== *)
theory Confinement_Facts
  imports Agent_Confinement
begin

text \<open>
  What the confinement of tool arguments accepts: a reference reading of an envelope on every
  member at any depth of the arguments, agreement of the scan with it, delegation under narrower
  envelopes, and what escapes the scan.
\<close>

section \<open>The reference\<close>

text \<open>The members of a value at any depth.\<close>

inductive member_at :: "jval \<Rightarrow> string \<Rightarrow> jval \<Rightarrow> bool" where
  member_here: "(k, v) \<in> set kvs \<Longrightarrow> member_at (VObj kvs) k v"
| member_below: "(k, v) \<in> set kvs \<Longrightarrow> member_at v k' v' \<Longrightarrow> member_at (VObj kvs) k' v'"
| member_item: "x \<in> set xs \<Longrightarrow> member_at x k v \<Longrightarrow> member_at (VArr xs) k v"

inductive_simps member_at_simps [simp]:
  "member_at VNull k v" "member_at (VBool b) k v" "member_at (VNum x) k v" "member_at (VStr s) k v"
  "member_at (VArr xs) k v" "member_at (VObj kvs) k v"

text \<open>
  The clauses are written without the helpers of the code. What they share with it are the
  operations of the language (\<open>toLowerCase\<close>, \<open>trim\<close>, the readings of dates and numbers) and the URL
  parser. \<open>mentions\<close> and \<open>named\<close> say which keys a clause is about.
\<close>

definition mentions :: "string set \<Rightarrow> string \<Rightarrow> bool" where
  "mentions ws k \<longleftrightarrow> (\<exists>w\<in>ws. \<exists>a b. toLowerCase k = a @ w @ b)"

definition named :: "string set \<Rightarrow> string \<Rightarrow> bool" where
  "named ws k \<longleftrightarrow> toLowerCase k \<in> ws"

text \<open>An absent or empty list of the envelope limits nothing.\<close>

definition limits :: "string list option \<Rightarrow> string list \<Rightarrow> bool" where
  "limits l xs \<longleftrightarrow> l = Some xs \<and> xs \<noteq> []"

definition same_text :: "string \<Rightarrow> string \<Rightarrow> bool" where
  "same_text a b \<longleftrightarrow> toLowerCase a = toLowerCase b"

text \<open>The texts a member passes: the text it is, or those in the list it is.\<close>

definition text_of :: "jval \<Rightarrow> string \<Rightarrow> bool" where
  "text_of v s \<longleftrightarrow> v = VStr s \<or> (\<exists>xs. v = VArr xs \<and> VStr s \<in> set xs)"

definition listed :: "jval \<Rightarrow> bool" where
  "listed v \<longleftrightarrow> (\<exists>xs. v = VArr xs)"

text \<open>Providers. The code does not look into lists of them.\<close>

definition provider_ok :: "envelope \<Rightarrow> string \<Rightarrow> jval \<Rightarrow> bool" where
  "provider_ok env k v \<longleftrightarrow>
     (\<forall>ps s. limits (en_providers env) ps \<and> text_of v s \<and>
        (mentions {''provider'', ''feed''} k \<or> named {''source'', ''sourceid''} k) \<longrightarrow>
        (\<exists>p\<in>set ps. same_text s p) \<or> listed v)"

text \<open>Hosts. A text with a scheme has the host its URL has, which carries no credentials; any other
  text the one before its first slash, without brackets or a port.\<close>

definition schemes :: "string set" where
  "schemes = {''http://'', ''https://'', ''ws://'', ''wss://''}"

definition has_scheme :: "string \<Rightarrow> bool" where
  "has_scheme t \<longleftrightarrow> (\<exists>p\<in>schemes. \<exists>r. t = p @ r)"

definition before_slash :: "string \<Rightarrow> string \<Rightarrow> bool" where
  "before_slash t g \<longleftrightarrow> CHR ''/'' \<notin> set g \<and> (t = g \<or> (\<exists>r. t = g @ CHR ''/'' # r))"

definition bracketed :: "string \<Rightarrow> string \<Rightarrow> bool" where
  "bracketed g h \<longleftrightarrow> CHR '']'' \<notin> set h \<and> (\<exists>r. g = ''['' @ h @ '']'' @ r)"

definition with_port :: "string \<Rightarrow> string \<Rightarrow> bool" where
  "with_port g h \<longleftrightarrow> h \<noteq> [] \<and> CHR '':'' \<notin> set h \<and> (\<exists>p. g = h @ '':'' @ p \<and> CHR '':'' \<notin> set p)"

inductive host_of :: "engine \<Rightarrow> string \<Rightarrow> string \<Rightarrow> bool" for eg where
  host_url: "has_scheme (trim s) \<Longrightarrow> eg_url eg (trim s) = Some u \<Longrightarrow> ul_username u = [] \<Longrightarrow> ul_password u = [] \<Longrightarrow>
     host_of eg s (toLowerCase (ul_hostname u))"
| host_bracket: "\<not> has_scheme (trim s) \<Longrightarrow> before_slash (trim s) g \<Longrightarrow> CHR ''@'' \<notin> set g \<Longrightarrow> bracketed g h \<Longrightarrow>
     host_of eg s (toLowerCase h)"
| host_port: "\<not> has_scheme (trim s) \<Longrightarrow> before_slash (trim s) g \<Longrightarrow> CHR ''@'' \<notin> set g \<Longrightarrow> \<nexists>h. bracketed g h \<Longrightarrow>
     with_port g h \<Longrightarrow> host_of eg s (toLowerCase h)"
| host_plain: "\<not> has_scheme (trim s) \<Longrightarrow> before_slash (trim s) g \<Longrightarrow> CHR ''@'' \<notin> set g \<Longrightarrow> \<nexists>h. bracketed g h \<Longrightarrow>
     \<nexists>h. with_port g h \<Longrightarrow> host_of eg s (toLowerCase g)"

text \<open>The name of a domain of the envelope: in lower case, without http scheme and path.\<close>

definition domain_name :: "string \<Rightarrow> string \<Rightarrow> bool" where
  "domain_name d n \<longleftrightarrow>
     (\<exists>r. before_slash r n \<and>
        (toLowerCase d = ''http://'' @ r \<or> toLowerCase d = ''https://'' @ r \<or>
         toLowerCase d = r \<and> (\<nexists>q. r = ''http://'' @ q \<or> r = ''https://'' @ q)))"

definition domain_covers :: "string list \<Rightarrow> string \<Rightarrow> bool" where
  "domain_covers ds host \<longleftrightarrow>
     (\<exists>d\<in>set ds. \<exists>n. domain_name d n \<and> (host = n \<or> (\<exists>sub. host = sub @ ''.'' @ n)))"

definition alnum :: "char \<Rightarrow> bool" where
  "alnum c \<longleftrightarrow> (of_char c :: nat) \<in> {48..57} \<union> {65..90} \<union> {97..122}"

definition dns_label :: "string \<Rightarrow> bool" where
  "dns_label l \<longleftrightarrow> l \<noteq> [] \<and> (\<forall>c\<in>set l. alnum c \<or> c = CHR ''-'')"

text \<open>A text that names a host under any key: with a scheme, or two labels with a dot.\<close>

definition looks_like_host :: "string \<Rightarrow> bool" where
  "looks_like_host s \<longleftrightarrow> has_scheme s \<or> (\<exists>a b r. trim s = a @ ''.'' @ b @ r \<and> dns_label a \<and> dns_label b)"

text \<open>The code does not look into lists of hosts, and lets a text pass whose host is empty, such as
  \<open>//host/path\<close>.\<close>

definition domain_ok :: "engine \<Rightarrow> envelope \<Rightarrow> string \<Rightarrow> jval \<Rightarrow> bool" where
  "domain_ok eg env k v \<longleftrightarrow>
     (\<forall>ds s. limits (en_domains env) ds \<and> text_of v s \<and> trim s \<noteq> [] \<and>
        (mentions {''domain'', ''host'', ''url'', ''endpoint'', ''uri'', ''link'', ''href'', ''target''} k \<or>
         looks_like_host s) \<longrightarrow>
        (\<exists>h. host_of eg s h \<and> domain_covers ds h) \<or> listed v \<or> host_of eg s [])"

definition chain_ok :: "envelope \<Rightarrow> string \<Rightarrow> jval \<Rightarrow> bool" where
  "chain_ok env k v \<longleftrightarrow>
     (\<forall>cs s. limits (en_chains env) cs \<and> text_of v s \<and>
        (mentions {''chain''} k \<or> named {''network'', ''blockchain'', ''ecosystem''} k \<or>
         named {''solana'', ''ethereum'', ''base'', ''arbitrum'', ''polygon'', ''optimism'', ''avalanche'', ''bsc'',
           ''mainnet''} s) \<longrightarrow>
        (\<exists>c\<in>set cs. same_text s c))"

text \<open>Addresses are compared as they are, those of EVM chains without regard to case.\<close>

definition hex_prefixed :: "string \<Rightarrow> bool" where
  "hex_prefixed s \<longleftrightarrow> (\<exists>r. s = ''0x'' @ r \<or> s = ''0X'' @ r)"

definition same_address :: "string \<Rightarrow> string \<Rightarrow> bool" where
  "same_address a b \<longleftrightarrow> a = b \<or> hex_prefixed a \<and> hex_prefixed b \<and> same_text a b"

definition hex_digit :: "char \<Rightarrow> bool" where
  "hex_digit c \<longleftrightarrow> (of_char c :: nat) \<in> {48..57} \<union> {65..70} \<union> {97..102}"

definition base58 :: "char \<Rightarrow> bool" where
  "base58 c \<longleftrightarrow> alnum c \<and> c \<noteq> CHR ''0'' \<and> c \<noteq> CHR ''O'' \<and> c \<noteq> CHR ''I'' \<and> c \<noteq> CHR ''l''"

definition looks_like_address :: "string \<Rightarrow> bool" where
  "looks_like_address s \<longleftrightarrow>
     (\<exists>r. s = ''0x'' @ r \<and> length r = 40 \<and> (\<forall>c\<in>set r. hex_digit c)) \<or>
     length s \<in> {32..44} \<and> (\<forall>c\<in>set s. base58 c)"

definition address_ok :: "envelope \<Rightarrow> string \<Rightarrow> jval \<Rightarrow> bool" where
  "address_ok env k v \<longleftrightarrow>
     (\<forall>as s. limits (en_addresses env) as \<and> text_of v s \<and>
        (mentions {''address'', ''mint'', ''recipient'', ''wallet'', ''token''} k \<or> named {''account'', ''contract''} k \<or>
         looks_like_address s) \<longrightarrow>
        (\<exists>a\<in>set as. same_address s a))"

text \<open>Instants: numbers below ten to the eleventh are seconds.\<close>

definition as_ms :: "js_num \<Rightarrow> js_num" where
  "as_ms n = (case n of Finite x \<Rightarrow> Finite (if x < 10 ^ 11 then 1000 * x else x) | _ \<Rightarrow> n)"

inductive instant :: "engine \<Rightarrow> jval \<Rightarrow> js_num \<Rightarrow> bool" for eg where
  instant_num: "instant eg (VNum x) (as_ms (Finite x))"
| instant_date: "date_ms eg s = Some t \<Longrightarrow> instant eg (VStr s) (Finite (of_int t))"
| instant_text: "date_ms eg s = None \<Longrightarrow> to_number s = Some n \<Longrightarrow> instant eg (VStr s) (as_ms n)"

definition looks_like_time :: "jval \<Rightarrow> bool" where
  "looks_like_time v \<longleftrightarrow>
     (\<exists>x. v = VNum x \<and> 10 ^ 9 < x) \<or>
     (\<exists>s. v = VStr s \<and> 16 \<le> length s \<and> (\<forall>i\<in>{0,1,2,3,5,6,8,9,11,12,14,15}. is_digit (s ! i)) \<and>
        s ! 4 = CHR ''-'' \<and> s ! 7 = CHR ''-'' \<and> s ! 10 = CHR ''T'' \<and> s ! 13 = CHR '':'')"

definition time_ok :: "engine \<Rightarrow> envelope \<Rightarrow> string \<Rightarrow> jval \<Rightarrow> bool" where
  "time_ok eg env k v \<longleftrightarrow>
     (\<forall>r ts. en_range env = Some r \<and>
        (mentions {''time'', ''stamp'', ''asof'', ''date'', ''since'', ''until'', ''created'', ''future''} k \<or>
         named {''from'', ''to'', ''start'', ''end''} k \<or> looks_like_time v) \<and> instant eg v ts \<longrightarrow>
        (\<forall>m. date_ms eg (tr_max r) = Some m \<longrightarrow> \<not> num_less (Finite (rat_of_int m)) ts) \<and>
        (\<forall>lo m. tr_min r = Some lo \<and> lo \<noteq> [] \<and> date_ms eg lo = Some m \<longrightarrow>
           \<not> num_less ts (Finite (rat_of_int m))))"

definition max_ok :: "rat option \<Rightarrow> string set \<Rightarrow> string \<Rightarrow> jval \<Rightarrow> bool" where
  "max_ok limit ws k v \<longleftrightarrow> (\<forall>m x. limit = Some m \<and> named ws k \<and> v = VNum x \<longrightarrow> x \<le> m)"

text \<open>Whether an envelope lets a member be passed, one clause for each of its restrictions.\<close>

definition member_ok :: "engine \<Rightarrow> envelope \<Rightarrow> string \<Rightarrow> jval \<Rightarrow> bool" where
  "member_ok eg env k v \<longleftrightarrow>
     provider_ok env k v \<and> domain_ok eg env k v \<and> chain_ok env k v \<and> address_ok env k v \<and>
     time_ok eg env k v \<and>
     max_ok (en_max_limit env) {''limit'', ''pagesize'', ''count'', ''maxresults'', ''topn'', ''take'', ''size''} k v \<and>
     max_ok (en_max_bytes env) {''maxoutputsizebytes'', ''maxbytes'', ''bytelimit'', ''outputsize''} k v \<and>
     max_ok (en_max_cost env) {''maxcostusd'', ''estimatedcostusd'', ''costusd'', ''costlimitusd'', ''budgetusd''} k v"

section \<open>The helpers of the code agree with the reference\<close>

lemma deny_not_Inr [simp]: "deny t d tool \<noteq> Inr x" "time_denied tool v ts w b \<noteq> Inr ()"
  by (auto simp: deny_def time_denied_def split: sum.splits)

lemma limits_iff: "limits l xs \<longleftrightarrow> restricted l \<and> xs = the l"
  by (auto simp: restricted_def limits_def split: option.splits)

lemma key_includes_iff: "key_includes (toLowerCase k) ws \<longleftrightarrow> mentions (set ws) k"
  by (simp add: key_includes_def mentions_def text_includes_iff list_ex_iff)

lemma keys_iff:
  "provider_key (toLowerCase k) \<longleftrightarrow> mentions {''provider'', ''feed''} k \<or> named {''source'', ''sourceid''} k"
  "url_key (toLowerCase k) \<longleftrightarrow>
     mentions {''domain'', ''host'', ''url'', ''endpoint'', ''uri'', ''link'', ''href'', ''target''} k"
  "chain_key (toLowerCase k) \<longleftrightarrow> mentions {''chain''} k \<or> named {''network'', ''blockchain'', ''ecosystem''} k"
  "address_key (toLowerCase k) \<longleftrightarrow>
     mentions {''address'', ''mint'', ''recipient'', ''wallet'', ''token''} k \<or> named {''account'', ''contract''} k"
  "time_key (toLowerCase k) \<longleftrightarrow>
     mentions {''time'', ''stamp'', ''asof'', ''date'', ''since'', ''until'', ''created'', ''future''} k \<or>
     named {''from'', ''to'', ''start'', ''end''} k"
  unfolding provider_key_def url_key_def chain_key_def address_key_def time_key_def key_includes_iff
  by (auto simp: mentions_def named_def)

lemma web_scheme_iff: "web_scheme t \<longleftrightarrow> has_scheme t"
  by (simp add: web_scheme_def has_scheme_def schemes_def startsWith_iff)

lemma before_slash_iff: "before_slash t g \<longleftrightarrow> g = hd (split_on CHR ''/'' t)"
proof
  assume "before_slash t g"
  then show "g = hd (split_on CHR ''/'' t)"
    by (auto simp: before_slash_def split_on_part split_on_none)
next
  assume g: "g = hd (split_on CHR ''/'' t)"
  have "t = g @ dropWhile (\<lambda>x. x \<noteq> CHR ''/'') t" unfolding g hd_split_on by simp
  moreover have "CHR ''/'' \<notin> set g" unfolding g hd_split_on by (auto dest: set_takeWhileD)
  moreover have "dropWhile (\<lambda>x. x \<noteq> CHR ''/'') t = [] \<or> (\<exists>r. dropWhile (\<lambda>x. x \<noteq> CHR ''/'') t = CHR ''/'' # r)"
    using hd_dropWhile_not [of "\<lambda>x. x \<noteq> CHR ''/''" t] by (cases "dropWhile (\<lambda>x. x \<noteq> CHR ''/'') t") auto
  ultimately show "before_slash t g" unfolding before_slash_def by (metis append_Nil2)
qed

lemma bracketed_iff:
  "bracketed g h \<longleftrightarrow> startsWith g ''['' \<and> CHR '']'' \<in> set g \<and> h = drop 1 (takeWhile (\<lambda>c. c \<noteq> CHR '']'') g)"
proof
  assume "bracketed g h"
  then obtain r where r: "g = CHR ''['' # h @ CHR '']'' # r" "CHR '']'' \<notin> set h" by (auto simp: bracketed_def)
  then have "takeWhile (\<lambda>c. c \<noteq> CHR '']'') (h @ CHR '']'' # r) = h" by (subst takeWhile_append2) auto
  with r show "startsWith g ''['' \<and> CHR '']'' \<in> set g \<and> h = drop 1 (takeWhile (\<lambda>c. c \<noteq> CHR '']'') g)"
    by (simp add: startsWith_def)
next
  assume g: "startsWith g ''['' \<and> CHR '']'' \<in> set g \<and> h = drop 1 (takeWhile (\<lambda>c. c \<noteq> CHR '']'') g)"
  then obtain t where t: "g = CHR ''['' # t" by (auto simp: startsWith_iff)
  then have h: "h = takeWhile (\<lambda>c. c \<noteq> CHR '']'') t" using g by simp
  have "CHR '']'' \<in> set t" using g t by simp
  then obtain r where "dropWhile (\<lambda>c. c \<noteq> CHR '']'') t = CHR '']'' # r"
    using hd_dropWhile_not [of "\<lambda>c. c \<noteq> CHR '']''" t] by (cases "dropWhile (\<lambda>c. c \<noteq> CHR '']'') t") (auto simp: dropWhile_eq_Nil_conv)
  then have "t = h @ CHR '']'' # r" unfolding h by (metis takeWhile_dropWhile_id)
  then show "bracketed g h" unfolding bracketed_def t h by (auto dest: set_takeWhileD)
qed

lemma with_port_iff:
  "with_port g h \<longleftrightarrow> length (split_on CHR '':'' g) = 2 \<and> hd (split_on CHR '':'' g) \<noteq> [] \<and> h = hd (split_on CHR '':'' g)"
proof -
  have "length (split_on CHR '':'' g) = 2 \<longleftrightarrow> (\<exists>a b. split_on CHR '':'' g = [a, b])"
    by (auto simp: length_Suc_conv numeral_2_eq_2)
  then show ?thesis unfolding split_on_two by (auto simp: with_port_def split_on_part split_on_none)
qed

lemma extractHost_iff: "extractHost eg s tool = Inr h \<longleftrightarrow> host_of eg s h"
proof (cases "has_scheme (trim s)")
  case True
  then show ?thesis
    by (auto simp: extractHost_def Let_def web_scheme_iff host_of.simps split: option.splits)
next
  case False
  define g where "g = hd (split_on CHR ''/'' (trim s))"
  have b: "before_slash (trim s) g' \<longleftrightarrow> g' = g" for g' by (simp add: before_slash_iff g_def)
  have e: "extractHost eg s tool = Inr h \<longleftrightarrow> CHR ''@'' \<notin> set g \<and>
      (if startsWith g ''['' \<and> CHR '']'' \<in> set g then h = toLowerCase (drop 1 (takeWhile (\<lambda>c. c \<noteq> CHR '']'') g))
       else if length (split_on CHR '':'' g) = 2 \<and> hd (split_on CHR '':'' g) \<noteq> [] then h = toLowerCase (hd (split_on CHR '':'' g))
       else h = toLowerCase g)"
    using False by (auto simp: extractHost_def Let_def web_scheme_iff simp flip: g_def)
  have "host_of eg s h \<longleftrightarrow> CHR ''@'' \<notin> set g \<and>
      ((\<exists>x. bracketed g x \<and> h = toLowerCase x) \<or>
       (\<nexists>x. bracketed g x) \<and> (\<exists>x. with_port g x \<and> h = toLowerCase x) \<or>
       (\<nexists>x. bracketed g x) \<and> (\<nexists>x. with_port g x) \<and> h = toLowerCase g)"
    using False by (subst host_of.simps) (auto simp: b)
  then show ?thesis unfolding e bracketed_iff with_port_iff by auto
qed

lemma label_char_iff: "label_char c \<longleftrightarrow> alnum c \<or> c = CHR ''-''"
  by (auto simp: label_char_def alnum_def digit_of_base_def base_digit_def Let_def split: if_splits)

lemma domain_prefix_iff: "domain_prefix t \<longleftrightarrow> (\<exists>a b r. t = a @ ''.'' @ b @ r \<and> dns_label a \<and> dns_label b)"
proof
  assume p: "domain_prefix t"
  let ?a = "takeWhile label_char t"
  obtain d r where d: "dropWhile label_char t = CHR ''.'' # d # r" "label_char d"
    using p by (auto simp: domain_prefix_def split: list.splits)
  have "t = ?a @ ''.'' @ [d] @ r" using d(1) takeWhile_dropWhile_id [of label_char t] by simp
  moreover have "dns_label ?a" using p by (auto simp: domain_prefix_def dns_label_def simp flip: label_char_iff dest: set_takeWhileD)
  moreover have "dns_label [d]" using d(2) by (simp add: dns_label_def label_char_iff)
  ultimately show "\<exists>a b r. t = a @ ''.'' @ b @ r \<and> dns_label a \<and> dns_label b" by blast
next
  assume "\<exists>a b r. t = a @ ''.'' @ b @ r \<and> dns_label a \<and> dns_label b"
  then obtain a b r where t: "t = a @ CHR ''.'' # b @ r" "dns_label a" "dns_label b" by auto
  have a: "\<forall>c\<in>set a. label_char c" "a \<noteq> []" using t(2) by (auto simp: dns_label_def label_char_iff)
  have dot: "\<not> label_char CHR ''.''" by code_simp
  obtain d b' where b: "b = d # b'" "label_char d" using t(3) by (cases b) (auto simp: dns_label_def label_char_iff)
  have "takeWhile label_char t = a" "dropWhile label_char t = CHR ''.'' # b @ r"
    unfolding t(1) using a(1) dot by (simp_all add: takeWhile_append2 dropWhile_append2)
  then show "domain_prefix t" using a b by (simp add: domain_prefix_def)
qed

lemma url_value_iff: "url_value s \<longleftrightarrow> looks_like_host s"
  by (simp add: url_value_def looks_like_host_def web_scheme_iff domain_prefix_iff)

lemma domain_name_iff: "domain_name d n \<longleftrightarrow> n = allowed_domain d"
proof -
  have "domain_name d n \<longleftrightarrow> before_slash (strip_scheme (toLowerCase d)) n"
    unfolding domain_name_def strip_scheme_def by (auto simp: startsWith_iff)
  then show ?thesis by (simp add: before_slash_iff allowed_domain_def)
qed

lemma isDomainAllowed_iff: "toLowerCase host = host \<Longrightarrow> isDomainAllowed host ds \<longleftrightarrow> domain_covers ds host"
  by (auto simp: isDomainAllowed_def domain_covers_def domain_name_iff list_ex_iff endsWith_iff)

lemma host_lower: "host_of eg s h \<Longrightarrow> toLowerCase h = h"
  by (induction rule: host_of.induct) simp_all

lemma host_unique: "host_of eg s h \<Longrightarrow> host_of eg s h' \<Longrightarrow> h = h'"
  using extractHost_iff [of eg s "[]"] by (metis sum.inject(2))

lemma normalizeAddress_iff: "normalizeAddress a = normalizeAddress b \<longleftrightarrow> same_address a b"
proof -
  have p: "hex_prefixed a \<longleftrightarrow> startsWith a ''0x'' \<or> startsWith a ''0X''" for a
    by (auto simp: hex_prefixed_def startsWith_iff)
  have "toLowerCase ''0x'' = ''0x''" "toLowerCase ''0X'' = ''0x''" by code_simp+
  then have "hex_prefixed (toLowerCase a)" if "hex_prefixed a" for a
    using that unfolding hex_prefixed_def by (metis toLowerCase_append)
  then show ?thesis
    unfolding normalizeAddress_def same_address_def same_text_def p [symmetric]
    by (cases "hex_prefixed a"; cases "hex_prefixed b") auto
qed

lemma address_value_iff: "address_value s \<longleftrightarrow> looks_like_address s"
proof -
  have h: "digit_of_base 16 c \<longleftrightarrow> hex_digit c" for c
    by (auto simp: hex_digit_def digit_of_base_def base_digit_def Let_def split: if_splits)
  have b: "base58_char c \<longleftrightarrow> base58 c" for c
    by (auto simp: base58_char_def base58_def alnum_def digit_of_base_def base_digit_def Let_def split: if_splits)
  have "startsWith s ''0x'' \<and> length s = 42 \<and> list_all hex_digit (drop 2 s) \<longleftrightarrow>
      (\<exists>r. s = ''0x'' @ r \<and> length r = 40 \<and> (\<forall>c\<in>set r. hex_digit c))"
    by (auto simp: startsWith_iff list_all_iff)
  then show ?thesis by (simp add: address_value_def looks_like_address_def h b list_all_iff)
qed

lemma shape_iff: "shape ps s \<longleftrightarrow> length ps \<le> length s \<and>
    (\<forall>i<length ps. if ps ! i = CHR ''d'' then is_digit (s ! i) else s ! i = ps ! i)"
proof (induction ps s rule: shape.induct)
  case (3 p ps c cs)
  then show ?case by (auto simp: All_less_Suc2)
qed auto

lemma time_value_iff: "time_value v \<longleftrightarrow> looks_like_time v"
proof (cases v)
  case (VStr s)
  have "(\<forall>i<16. if ''dddd-dd-ddTdd:dd'' ! i = CHR ''d'' then is_digit (s ! i) else s ! i = ''dddd-dd-ddTdd:dd'' ! i) \<longleftrightarrow>
      (\<forall>i\<in>{0,1,2,3,5,6,8,9,11,12,14,15}. is_digit (s ! i)) \<and>
        s ! 4 = CHR ''-'' \<and> s ! 7 = CHR ''-'' \<and> s ! 10 = CHR ''T'' \<and> s ! 13 = CHR '':''"
    by (auto simp: All_less_Suc eval_nat_numeral)
  moreover have "length ''dddd-dd-ddTdd:dd'' = 16" by simp
  ultimately show ?thesis unfolding VStr time_value.simps shape_iff looks_like_time_def jval.simps
    by (simp only:) blast
qed (auto simp: looks_like_time_def)

lemma instant_iff: "parseTimestampToMs eg v = Some ts \<longleftrightarrow> instant eg v ts"
proof -
  have "seconds_or_ms n = as_ms n" for n
    by (cases n) (auto simp: seconds_or_ms_def as_ms_def)
  then show ?thesis
    by (cases v) (auto simp: instant.simps split: option.splits)
qed

section \<open>Each check agrees with its clause\<close>

lemma lower_in_iff: "toLowerCase s \<in> toLowerCase ` set xs \<longleftrightarrow> (\<exists>x\<in>set xs. same_text s x)"
  by (auto simp: same_text_def)

lemma provider_check_iff: "provider_check env tool k v = Inr () \<longleftrightarrow> provider_ok env k v"
  by (cases v) (auto simp: provider_check_def provider_ok_def limits_iff keys_iff lower_in_iff text_of_def listed_def)

lemma host_check_iff:
  "(case extractHost eg s ''unknown'' of
      Inl e \<Rightarrow> Inl e
    | Inr host \<Rightarrow> if host \<noteq> [] \<and> \<not> isDomainAllowed host ds then deny t (d host) tool else Inr ()) = Inr () \<longleftrightarrow>
   (\<exists>h. host_of eg s h \<and> domain_covers ds h) \<or> host_of eg s []"
proof (cases "extractHost eg s ''unknown''")
  case (Inl e)
  then have "\<not> host_of eg s h" for h using extractHost_iff [of eg s "''unknown''" h] by simp
  with Inl show ?thesis by simp
next
  case (Inr host)
  then have h: "host_of eg s host" by (simp add: extractHost_iff)
  then have "host_of eg s h \<longleftrightarrow> h = host" for h using host_unique by blast
  then show ?thesis using isDomainAllowed_iff [OF host_lower [OF h]] by (auto simp: Inr)
qed

lemma domain_check_iff: "domain_check eg env tool k v = Inr () \<longleftrightarrow> domain_ok eg env k v"
proof (cases v)
  case (VStr s)
  show ?thesis unfolding domain_check_def domain_ok_def VStr jval.case
    by (auto simp: limits_iff keys_iff url_value_iff host_check_iff text_of_def listed_def)
qed (auto simp: domain_check_def domain_ok_def text_of_def listed_def)

lemma listed_texts_iff: "(\<exists>l. (l, s) \<in> set (listed_texts v)) \<longleftrightarrow> text_of v s"
  by (cases v) (auto simp: text_of_def split: jval.splits)

lemma listed_all:
  "(\<forall>p\<in>set (listed_texts v). (case p of (l, s) \<Rightarrow> if P s then deny t (d l s) tool else Inr ()) = Inr ()) \<longleftrightarrow>
   (\<forall>s. text_of v s \<longrightarrow> \<not> P s)"
  unfolding listed_texts_iff [symmetric] by (fastforce split: if_splits)

lemma chain_value_iff:
  "chain_value s \<longleftrightarrow> named {''solana'', ''ethereum'', ''base'', ''arbitrum'', ''polygon'', ''optimism'', ''avalanche'', ''bsc'',
     ''mainnet''} s"
  by (simp add: chain_value_def known_chains_def named_def)

lemma chain_check_iff: "chain_check env tool k v = Inr () \<longleftrightarrow> chain_ok env k v"
  unfolding chain_check_def chain_ok_def limits_iff lower_in_iff keys_iff chain_value_iff
  by (auto simp: listed_all)

lemma address_in_iff: "normalizeAddress s \<in> normalizeAddress ` set xs \<longleftrightarrow> (\<exists>x\<in>set xs. same_address s x)"
  by (auto simp: image_iff normalizeAddress_iff)

lemma address_check_iff: "address_check env tool k v = Inr () \<longleftrightarrow> address_ok env k v"
  unfolding address_check_def address_ok_def limits_iff address_in_iff keys_iff address_value_iff
  by (auto simp: listed_all)

lemma time_check_iff: "time_check eg env tool k v = Inr () \<longleftrightarrow> time_ok eg env k v"
  unfolding time_check_def time_ok_def keys_iff time_value_iff instant_iff [symmetric]
  by (auto split: option.splits)

lemma max_check_iff: "max_check l b t w f tool k v = Inr () \<longleftrightarrow> (\<forall>m x. l = Some m \<and> b \<and> v = VNum x \<longrightarrow> x \<le> m)"
  by (cases v) (auto simp: max_check_def split: option.splits)

lemma member_check_iff: "checkKeyAndValue eg env tool k v = Inr () \<longleftrightarrow> member_ok eg env k v"
  by (simp add: checkKeyAndValue_def Let_def member_ok_def provider_check_iff domain_check_iff
      chain_check_iff address_check_iff time_check_iff max_check_iff max_ok_def named_def limit_key_def bytes_key_def
      cost_key_def)

section \<open>The scan agrees with the reference\<close>

lemma scan_iff: "scanRecursive eg env tool v = Inr () \<longleftrightarrow> (\<forall>k w. member_at v k w \<longrightarrow> member_ok eg env k w)"
proof (induction eg env tool v rule: scanRecursive.induct)
  case (1 eg env tool xs)
  then show ?case by (auto simp: ball_conj_distrib)
next
  case (2 eg env tool kvs)
  then show ?case by (fastforce simp: member_check_iff)
qed auto

lemma tool_allowed_iff:
  "tool_allowed env declared tool args = Inr () \<longleftrightarrow>
   tool \<in> set (en_tools env) \<and> (\<forall>d. declared = Some d \<longrightarrow> tool \<in> set d)"
  by (auto simp: tool_allowed_def split: option.splits)

lemma assertConforms_iff:
  "assertConforms eg tool args env declared = Inr () \<longleftrightarrow>
   tool \<in> set (en_tools env) \<and> (\<forall>d. declared = Some d \<longrightarrow> tool \<in> set d) \<and>
   (\<forall>k v. member_at (VObj args) k v \<longrightarrow> member_ok eg env k v)"
  unfolding assertConforms_def by (simp add: tool_allowed_iff scan_iff del: member_at_simps scanRecursive.simps)

section \<open>Narrower envelopes\<close>

definition narrower_list :: "string list option \<Rightarrow> string list option \<Rightarrow> bool" where
  "narrower_list l' l \<longleftrightarrow> (\<forall>xs. limits l xs \<longrightarrow> (\<exists>ys. limits l' ys \<and> set ys \<subseteq> set xs))"

definition narrower_cap :: "rat option \<Rightarrow> rat option \<Rightarrow> bool" where
  "narrower_cap c' c \<longleftrightarrow> (case c of None \<Rightarrow> True | Some m \<Rightarrow> (case c' of None \<Rightarrow> False | Some m' \<Rightarrow> m' \<le> m))"

definition narrower_range :: "engine \<Rightarrow> time_range \<Rightarrow> time_range \<Rightarrow> bool" where
  "narrower_range eg r' r \<longleftrightarrow>
     (\<forall>m. date_ms eg (tr_max r) = Some m \<longrightarrow> (\<exists>m'. date_ms eg (tr_max r') = Some m' \<and> m' \<le> m)) \<and>
     (\<forall>lo m. tr_min r = Some lo \<and> lo \<noteq> [] \<and> date_ms eg lo = Some m \<longrightarrow>
        (\<exists>lo' m'. tr_min r' = Some lo' \<and> lo' \<noteq> [] \<and> date_ms eg lo' = Some m' \<and> m \<le> m'))"

definition narrower :: "engine \<Rightarrow> envelope \<Rightarrow> envelope \<Rightarrow> bool" where
  "narrower eg e' e \<longleftrightarrow>
     set (en_tools e') \<subseteq> set (en_tools e) \<and> narrower_list (en_providers e') (en_providers e) \<and>
     narrower_list (en_domains e') (en_domains e) \<and> narrower_list (en_chains e') (en_chains e) \<and>
     narrower_list (en_addresses e') (en_addresses e) \<and>
     (\<forall>r. en_range e = Some r \<longrightarrow> (\<exists>r'. en_range e' = Some r' \<and> narrower_range eg r' r)) \<and>
     narrower_cap (en_max_bytes e') (en_max_bytes e) \<and> narrower_cap (en_max_limit e') (en_max_limit e) \<and>
     narrower_cap (en_max_cost e') (en_max_cost e)"

lemma num_less_upper: "\<not> num_less (Finite m') ts \<Longrightarrow> m' \<le> m \<Longrightarrow> \<not> num_less (Finite m) ts"
  by (cases ts) auto

lemma num_less_lower: "\<not> num_less ts (Finite m') \<Longrightarrow> m \<le> m' \<Longrightarrow> \<not> num_less ts (Finite m)"
  by (cases ts) auto

lemma narrower_time:
  assumes "\<forall>r. en_range e = Some r \<longrightarrow> (\<exists>r'. en_range e' = Some r' \<and> narrower_range eg r' r)"
    and "time_ok eg e' k v"
  shows "time_ok eg e k v"
  unfolding time_ok_def
proof (intro allI impI, elim conjE)
  fix r ts
  assume r: "en_range e = Some r"
    and t: "mentions {''time'', ''stamp'', ''asof'', ''date'', ''since'', ''until'', ''created'', ''future''} k \<or>
      named {''from'', ''to'', ''start'', ''end''} k \<or> looks_like_time v" "instant eg v ts"
  obtain r' where r': "en_range e' = Some r'" "narrower_range eg r' r" using assms(1) r by auto
  have ok: "(\<forall>m. date_ms eg (tr_max r') = Some m \<longrightarrow> \<not> num_less (Finite (rat_of_int m)) ts) \<and>
      (\<forall>lo m. tr_min r' = Some lo \<and> lo \<noteq> [] \<and> date_ms eg lo = Some m \<longrightarrow>
         \<not> num_less ts (Finite (rat_of_int m)))"
    using assms(2) r'(1) t unfolding time_ok_def by blast
  have up: "\<not> num_less (Finite (rat_of_int m)) ts" if m: "date_ms eg (tr_max r) = Some m" for m
  proof -
    obtain m' where "date_ms eg (tr_max r') = Some m'" "m' \<le> m"
      using r'(2) m unfolding narrower_range_def by blast
    moreover from this ok have "\<not> num_less (Finite (rat_of_int m')) ts" by blast
    ultimately show ?thesis by (auto dest: num_less_upper [of "rat_of_int m'" ts "rat_of_int m"])
  qed
  have down: "\<not> num_less ts (Finite (rat_of_int m))"
    if m: "tr_min r = Some lo" "lo \<noteq> []" "date_ms eg lo = Some m" for lo m
  proof -
    obtain lo' m' where "tr_min r' = Some lo'" "lo' \<noteq> []" "date_ms eg lo' = Some m'" "m \<le> m'"
      using r'(2) m unfolding narrower_range_def by blast
    moreover from this ok have "\<not> num_less ts (Finite (rat_of_int m'))" by blast
    ultimately show ?thesis by (auto dest: num_less_lower [of ts "rat_of_int m'" "rat_of_int m"])
  qed
  show "(\<forall>m. date_ms eg (tr_max r) = Some m \<longrightarrow> \<not> num_less (Finite (rat_of_int m)) ts) \<and>
    (\<forall>lo m. tr_min r = Some lo \<and> lo \<noteq> [] \<and> date_ms eg lo = Some m \<longrightarrow> \<not> num_less ts (Finite (rat_of_int m)))"
    using up down by blast
qed

lemma domain_covers_mono: "set ds' \<subseteq> set ds \<Longrightarrow> domain_covers ds' h \<Longrightarrow> domain_covers ds h"
  unfolding domain_covers_def by blast

lemma narrower_list_scope:
  assumes "narrower_list l' l" "\<And>ys s. limits l' ys \<Longrightarrow> C s \<Longrightarrow> P ys s" "\<And>ys xs s. P ys s \<Longrightarrow> set ys \<subseteq> set xs \<Longrightarrow> P xs s"
  shows "\<forall>xs s. limits l xs \<and> C s \<longrightarrow> P xs s"
  using assms unfolding narrower_list_def by blast

lemma narrower_lists:
  "narrower_list (en_providers e') (en_providers e) \<Longrightarrow> provider_ok e' k v \<Longrightarrow> provider_ok e k v"
  "narrower_list (en_domains e') (en_domains e) \<Longrightarrow> domain_ok eg e' k v \<Longrightarrow> domain_ok eg e k v"
  "narrower_list (en_chains e') (en_chains e) \<Longrightarrow> chain_ok e' k v \<Longrightarrow> chain_ok e k v"
  "narrower_list (en_addresses e') (en_addresses e) \<Longrightarrow> address_ok e' k v \<Longrightarrow> address_ok e k v"
  unfolding provider_ok_def domain_ok_def chain_ok_def address_ok_def
  by (erule narrower_list_scope, blast, use domain_covers_mono in blast)+

lemma narrower_max: "narrower_cap c' c \<Longrightarrow> max_ok c' ws k v \<Longrightarrow> max_ok c ws k v"
  by (auto simp: max_ok_def narrower_cap_def split: option.splits)

lemma narrower_member:
  assumes n: "narrower eg e' e" and ok: "member_ok eg e' k v"
  shows "member_ok eg e k v"
proof -
  note n = n [unfolded narrower_def] and ok = ok [unfolded member_ok_def]
  have "provider_ok e k v" "domain_ok eg e k v" "chain_ok e k v" "address_ok e k v"
    using n ok narrower_lists [of e' e] by blast+
  moreover have "time_ok eg e k v" using n ok by (intro narrower_time [of e e' eg]) blast+
  ultimately show ?thesis
    using n ok narrower_max unfolding member_ok_def by blast
qed

section \<open>Properties\<close>

definition demo_engine :: engine where
  "demo_engine = \<lparr>eg_url = (\<lambda>_. None), eg_date = (\<lambda>_. None)\<rparr>"

definition open_envelope :: "string list \<Rightarrow> envelope" where
  "open_envelope tools = \<lparr>en_tools = tools, en_providers = None, en_domains = None, en_chains = None,
     en_addresses = None, en_range = None, en_max_bytes = None, en_max_limit = None, en_max_cost = None\<rparr>"

definition demo_args :: "(string \<times> jval) list" where
  "demo_args = [(''chain'', VStr ''Solana''), (''filter'', VObj [(''limit'', VNum 20), (''link'', VStr ''api.jup.ag'')])]"

definition demo_envelope :: envelope where
  "demo_envelope = open_envelope [''dex.pairs'', ''token.profile'']
     \<lparr>en_chains := Some [''solana'', ''base''], en_domains := Some [''https://jup.ag/v1''], en_max_limit := Some 50\<rparr>"

text \<open>C5. Arguments conform exactly when the tool is allowed by the envelope and declared by the
  profile and every member of the arguments, at any depth, satisfies the reference reading of each
  restriction of the envelope: its provider, its host, its chain, its address, its time and its
  amounts. Providers and hosts that stand in a list, and texts with an empty host such as
  \<open>//host/path\<close>, are not restricted: the reference lets them pass by name, as the code does.\<close>

theorem confinement_exact:
  "assertConforms eg tool args env declared = Inr () \<longleftrightarrow>
   tool \<in> set (en_tools env) \<and> (\<forall>d. declared = Some d \<longrightarrow> tool \<in> set d) \<and>
   (\<forall>k v. member_at (VObj args) k v \<longrightarrow> member_ok eg env k v)"
  by (rule assertConforms_iff)

lemma demo_args_ok: "member_at (VObj demo_args) k v \<Longrightarrow> member_ok demo_engine demo_envelope k v"
  unfolding member_check_iff [where tool = "[]", symmetric] demo_args_def
  by (auto; code_simp)

theorem confinement_exact_witness:
  "assertConforms demo_engine ''dex.pairs'' demo_args demo_envelope (Some [''dex.pairs'']) = Inr ()"
proof -
  have t: "''dex.pairs'' \<in> set (en_tools demo_envelope) \<and> (\<forall>d. Some [''dex.pairs''] = Some d \<longrightarrow> ''dex.pairs'' \<in> set d)"
    by (simp add: demo_envelope_def open_envelope_def)
  show ?thesis
    using confinement_exact [of demo_engine "''dex.pairs''" demo_args demo_envelope "Some [''dex.pairs'']"] t demo_args_ok
    by blast
qed

text \<open>A call that conforms to an envelope conforms to every envelope that one narrows: a
  delegate that is given a narrower envelope never gets more than its principal had.\<close>

theorem delegation_never_broadens:
  assumes "narrower eg e' e" "assertConforms eg tool args e' declared = Inr ()"
  shows "assertConforms eg tool args e declared = Inr ()"
proof -
  have "tool \<in> set (en_tools e)" using assms by (auto simp: narrower_def assertConforms_iff)
  then show ?thesis using assms(2) narrower_member [OF assms(1)] unfolding assertConforms_iff by blast
qed

lemma member_texts: "\<not> member_at (VArr (map VStr us)) k v"
  by auto

lemma escaping_keys:
  "k \<in> {''urls'', ''providers'', ''url''} \<Longrightarrow> \<not> chain_key (toLowerCase k) \<and> \<not> address_key (toLowerCase k) \<and>
     \<not> time_key (toLowerCase k)"
  by (elim insertE emptyE; hypsubst; code_simp)

lemma array_escapes:
  assumes "k \<in> {''urls'', ''providers'', ''url''}" "\<forall>u\<in>set us. \<not> chain_value u \<and> \<not> address_value u"
  shows "member_ok eg env k (VArr (map VStr us))"
proof -
  have t: "text_of (VArr (map VStr us)) s \<longleftrightarrow> s \<in> set us" for s by (auto simp: text_of_def)
  have "listed (VArr (map VStr us))" by (simp add: listed_def)
  moreover have "chain_ok env k (VArr (map VStr us))" "address_ok env k (VArr (map VStr us))"
    using assms(2) escaping_keys [OF assms(1)]
    unfolding chain_ok_def address_ok_def keys_iff chain_value_iff address_value_iff t by blast+
  moreover have "time_ok eg env k (VArr (map VStr us))"
    by (simp add: time_ok_def instant_iff [symmetric])
  ultimately show ?thesis by (simp add: member_ok_def provider_ok_def domain_ok_def max_ok_def)
qed

lemma no_scheme_host: "host_of eg (''//'' @ h) []"
proof -
  have "\<exists>r. trim (''//'' @ h) = CHR ''/'' # r"
  proof -
    have "trim (''//'' @ h) = rev (dropWhile js_space (rev h @ ''//''))"
      by (simp add: trim_def js_space_def)
    also have "\<dots> = CHR ''/'' # (if \<forall>x\<in>set h. js_space x then ''/'' else CHR ''/'' # rev (dropWhile js_space (rev h)))"
      by (auto simp: dropWhile_append js_space_def)
    finally show ?thesis by blast
  qed
  then obtain r where r: "trim (''//'' @ h) = CHR ''/'' # r" by blast
  show ?thesis unfolding extractHost_iff [where tool = "[]", symmetric] extractHost_def r Let_def
    by (simp add: web_scheme_def startsWith_def)
qed

lemma no_scheme_escapes: "member_ok eg env ''url'' (VStr (''//'' @ h))"
proof -
  have n: "\<not> chain_value (''//'' @ h)" "\<not> address_value (''//'' @ h)" "\<not> time_value (VStr (''//'' @ h))"
    by (simp_all add: chain_value_def known_chains_def toLowerCase_def js_lower_char_def address_value_def
        startsWith_def base58_char_def digit_of_base_def base_digit_def is_digit_def)
  have t: "text_of (VStr (''//'' @ h)) s \<longleftrightarrow> s = ''//'' @ h" for s by (auto simp: text_of_def)
  have "\<not> provider_key (toLowerCase ''url'')" by code_simp
  then have "provider_ok env ''url'' (VStr (''//'' @ h))" unfolding provider_ok_def keys_iff by blast
  moreover have "domain_ok eg env ''url'' (VStr (''//'' @ h))"
    using no_scheme_host [of eg h] unfolding domain_ok_def t by blast
  moreover have "chain_ok env ''url'' (VStr (''//'' @ h))" "address_ok env ''url'' (VStr (''//'' @ h))"
    using n escaping_keys [of "''url''"]
    unfolding chain_ok_def address_ok_def keys_iff chain_value_iff address_value_iff t by blast+
  moreover have "time_ok eg env ''url'' (VStr (''//'' @ h))"
    using n(3) escaping_keys [of "''url''"] unfolding time_ok_def keys_iff time_value_iff by blast
  ultimately show ?thesis by (simp add: member_ok_def max_ok_def)
qed

theorem delegation_never_broadens_witness:
  "assertConforms demo_engine ''dex.pairs'' demo_args
     (open_envelope [''dex.pairs'', ''token.profile'', ''signal.score'']
        \<lparr>en_chains := Some [''solana'', ''base'', ''bsc''], en_max_limit := Some 100\<rparr>) None = Inr ()"
proof (rule delegation_never_broadens [of _ demo_envelope])
  show "narrower demo_engine demo_envelope
     (open_envelope [''dex.pairs'', ''token.profile'', ''signal.score'']
        \<lparr>en_chains := Some [''solana'', ''base'', ''bsc''], en_max_limit := Some 100\<rparr>)"
    by (simp add: narrower_def narrower_list_def narrower_cap_def demo_envelope_def open_envelope_def limits_def)
  show "assertConforms demo_engine ''dex.pairs'' demo_args demo_envelope None = Inr ()"
    unfolding assertConforms_iff using demo_args_ok by (simp add: demo_envelope_def open_envelope_def)
qed

text \<open>Texts in an array are never compared with the allowed domains and providers, and a URL without
  a scheme has an empty host, which is let through: such arguments conform to every envelope
  that allows the tool, whatever host they name.\<close>

theorem unscanned_texts_escape:
  assumes "tool \<in> set (en_tools env)" "\<forall>u\<in>set us. \<not> chain_value u \<and> \<not> address_value u"
  shows "assertConforms eg tool [(''urls'', VArr (map VStr us)), (''providers'', VArr (map VStr us)),
     (''url'', VStr (''//'' @ host))] env None = Inr ()"
proof -
  have m: "member_at (VObj [(''urls'', VArr (map VStr us)), (''providers'', VArr (map VStr us)),
      (''url'', VStr (''//'' @ host))]) k v \<longleftrightarrow>
    k \<in> {''urls'', ''providers''} \<and> v = VArr (map VStr us) \<or> k = ''url'' \<and> v = VStr (''//'' @ host)" for k v
    by (auto simp: member_texts)
  have a: "member_ok eg env k (VArr (map VStr us))" if "k \<in> {''urls'', ''providers''}" for k
    using that by (intro array_escapes assms(2)) blast
  show ?thesis unfolding assertConforms_iff m
    using assms(1) a no_scheme_escapes [of eg env host] by blast
qed

theorem unscanned_texts_escape_witness:
  "assertConforms demo_engine ''dex.pairs'' [(''urls'', VArr (map VStr [''http://evil.com''])),
     (''providers'', VArr (map VStr [''http://evil.com''])), (''url'', VStr (''//'' @ ''evil.com''))]
     (demo_envelope\<lparr>en_providers := Some [''jup'']\<rparr>) None = Inr ()"
proof (rule unscanned_texts_escape)
  show "''dex.pairs'' \<in> set (en_tools (demo_envelope\<lparr>en_providers := Some [''jup'']\<rparr>))"
    by (simp add: demo_envelope_def open_envelope_def)
  show "\<forall>u\<in>set [''http://evil.com'']. \<not> chain_value u \<and> \<not> address_value u"
    by code_simp
qed

end
