(* ===== verification/Planner_Facts.thy ===== *)
theory Planner_Facts
  imports Agent_Planner Confinement_Facts
begin

text \<open>
  What a deterministic plan keeps: its calls are confined and within the budget, its totals are those
  of its steps, and its last step is the only terminal one.
\<close>

section \<open>The calls of one step\<close>

definition calls_of :: "plan_step list \<Rightarrow> planned_call list" where
  "calls_of steps = concat (map ps_calls steps)"

lemma calls_of_simps [simp]: "calls_of [] = []" "calls_of (xs @ ys) = calls_of xs @ calls_of ys"
  "calls_of [s] = ps_calls s"
  by (simp_all add: calls_of_def)

definition call_ok :: "engine \<Rightarrow> planner_input \<Rightarrow> planned_call \<Rightarrow> bool" where
  "call_ok eg i c \<longleftrightarrow>
     assertConforms eg (pc_tool c) (pc_args c) (pi_envelope i) (Some (mp_tools (pi_profile i))) = Inr () \<and>
     pc_args c = generateDeterministicArguments (pc_tool c) (pi_candidate i) (pi_envelope i) \<and>
     pc_cost c = Some (estimateToolCost (pi_profile i)) \<and> pc_units c = Some 1"

text \<open>What the planner has spent is what the calls it has planned cost.\<close>

definition spent :: "planner_input \<Rightarrow> nat \<Rightarrow> plan_state \<Rightarrow> bool" where
  "spent i n s \<longleftrightarrow>
     st_cost s = of_nat n * estimateToolCost (pi_profile i) \<and> st_units s = of_nat n \<and>
     of_nat n \<le> bu_max_tool_calls (pi_budget i) \<and> under (bu_max_cost (pi_budget i)) (st_cost s) \<and>
     under (bu_max_units (pi_budget i)) (st_units s)"

lemma not_over: "\<not> over l x \<longleftrightarrow> under l x"
  by (simp add: over_def under_def not_less split: option.split)

lemma whole_less: "whole m \<Longrightarrow> \<not> m \<le> of_nat n \<Longrightarrow> of_nat (Suc n) \<le> m"
proof -
  assume "whole m" "\<not> m \<le> of_nat n"
  then obtain k :: int where k: "m = rat_of_int k" by (metis whole_def)
  with \<open>\<not> m \<le> of_nat n\<close> have "int n < k"
    by (metis not_le of_int_less_iff of_int_of_nat_eq)
  then have "int (Suc n) \<le> k" by simp
  then show "of_nat (Suc n) \<le> m" unfolding k by (metis of_int_le_iff of_int_of_nat_eq)
qed

lemma plan_calls_ok:
  assumes "plan_calls eg i stage k tools calls s = Inr (calls', s')" "whole (bu_max_tool_calls (pi_budget i))"
    and "spent i (st_total s + length calls) s" "\<forall>c\<in>set calls. call_ok eg i c"
  shows "spent i (st_total s' + length calls') s' \<and> st_total s' = st_total s \<and> (\<forall>c\<in>set calls'. call_ok eg i c)"
  using assms
proof (induction eg i stage k tools calls s arbitrary: calls' s' rule: plan_calls.induct)
  case (1 eg i stage k calls s)
  then show ?case by simp
next
  case (2 eg i stage k tool tools calls s)
  let ?b = "pi_budget i" and ?cost = "estimateToolCost (pi_profile i)"
  let ?call = "new_call i stage k (st_seq s) tool"
  let ?s = "s\<lparr>st_cost := st_cost s + ?cost, st_units := st_units s + 1, st_seq := st_seq s + 1\<rparr>"
  show ?case
  proof (cases "bu_max_tool_calls ?b \<le> of_nat (st_total s + length calls) \<or>
      over (bu_max_cost ?b) (st_cost s + ?cost) \<or> over (bu_max_units ?b) (st_units s + 1)")
    case True
    then have "calls' = calls \<and> s' = s" using "2.prems"(1) by (auto simp: Let_def split: if_splits)
    with "2.prems" show ?thesis by simp
  next
    case False
    with "2.prems"(1) obtain u where a: "assertConforms eg tool (pc_args ?call) (pi_envelope i)
        (Some (mp_tools (pi_profile i))) = Inr u"
      and r: "plan_calls eg i stage k tools (calls @ [?call]) ?s = Inr (calls', s')"
      by (auto simp: Let_def split: sum.splits)
    have ok: "\<forall>c\<in>set (calls @ [?call]). call_ok eg i c"
      using "2.prems"(4) a by (auto simp: call_ok_def new_call_def)
    have "of_nat (Suc (st_total s + length calls)) \<le> bu_max_tool_calls ?b"
      using False "2.prems"(2) by (intro whole_less) blast+
    then have "spent i (st_total ?s + length (calls @ [?call])) ?s"
      using False "2.prems"(3) by (simp add: spent_def not_over distrib_right add_ac)
    then have "spent i (st_total s' + length calls') s' \<and> st_total s' = st_total ?s \<and> (\<forall>c\<in>set calls'. call_ok eg i c)"
      using False by (intro "2.IH" [OF refl refl refl _ _ _ a r "2.prems"(2) _ ok]) blast+
    then show ?thesis by (elim conjE) simp
  qed
qed

section \<open>The steps of a plan\<close>

text \<open>The planner stops before the next stage.\<close>

definition stops :: "planner_input \<Rightarrow> rat \<Rightarrow> nat \<Rightarrow> plan_state \<Rightarrow> bool" where
  "stops i maxSteps k s \<longleftrightarrow>
     maxSteps \<le> of_nat k \<or> bu_max_tool_calls (pi_budget i) \<le> of_nat (st_total s) \<or> caps_reached (pi_budget i) s"

definition plan_inv :: "engine \<Rightarrow> planner_input \<Rightarrow> rat \<Rightarrow> plan_step list \<Rightarrow> plan_state \<Rightarrow> bool" where
  "plan_inv eg i maxSteps steps s \<longleftrightarrow>
     map ps_index steps = [0..<length steps] \<and> st_total s = length (calls_of steps) \<and>
     spent i (st_total s) s \<and> (\<forall>c\<in>set (calls_of steps). call_ok eg i c) \<and>
     (\<forall>x\<in>set (butlast steps). \<not> ps_terminal x) \<and>
     (steps \<noteq> [] \<longrightarrow> of_nat (length steps - 1) < maxSteps)"

lemma plan_steps_ok:
  assumes "plan_steps eg i maxSteps k stages steps s = Inr (steps', s')" "whole (bu_max_tool_calls (pi_budget i))"
    and "plan_inv eg i maxSteps steps s" "k = length steps"
    and "\<forall>x\<in>set steps. ps_terminal x \<longrightarrow> stops i maxSteps k s"
  shows "plan_inv eg i maxSteps steps' s'"
  using assms
proof (induction eg i maxSteps k stages steps s arbitrary: steps' s' rule: plan_steps.induct)
  case (1 eg i maxSteps k steps s)
  then show ?case by simp
next
  case (2 eg i maxSteps k name tools stages steps s)
  let ?b = "pi_budget i"
  show ?case
  proof (cases "stops i maxSteps k s")
    case True
    then have "steps' = steps \<and> s' = s" using "2.prems"(1) by (simp add: Let_def stops_def)
    with "2.prems"(3) show ?thesis by simp
  next
    case go: False
    with "2.prems"(1) obtain calls s1 where c: "plan_calls eg i name k tools [] s = Inr (calls, s1)"
      by (auto simp: Let_def stops_def split: sum.splits)
    note inv = "2.prems"(3) [unfolded plan_inv_def]
    have inv0: "spent i (st_total s + length []) s" using inv by (elim conjE) simp
    have none: "\<forall>c\<in>set []. call_ok eg i c" by simp
    have s1: "spent i (st_total s1 + length calls) s1" "st_total s1 = st_total s" "\<forall>c\<in>set calls. call_ok eg i c"
      using plan_calls_ok [OF c "2.prems"(2) inv0 none] by blast+
    show ?thesis
    proof (cases "calls = [] \<and> steps \<noteq> []")
      case True
      then have "steps' = steps \<and> s' = s1" using "2.prems"(1) go c by (simp add: Let_def stops_def)
      with inv s1 True show ?thesis by (simp add: plan_inv_def)
    next
      case False
      define s2 where "s2 = s1\<lparr>st_total := st_total s1 + length calls\<rparr>"
      define x where "x = planned_step i maxSteps k name calls s2"
      have go': "(maxSteps \<le> of_nat k \<or> bu_max_tool_calls ?b \<le> of_nat (st_total s) \<or> caps_reached ?b s) = False"
        and F: "(calls = [] \<and> steps \<noteq> []) = False"
        using go False by (simp_all only: stops_def)
      have out: "(if caps_reached ?b s2 then Inr (steps @ [x], s2)
          else plan_steps eg i maxSteps (Suc k) stages (steps @ [x]) s2) = Inr (steps', s')"
        using "2.prems"(1)
        by (simp only: plan_steps.simps Let_def go' if_False c sum.case prod.case F s2_def [symmetric] x_def)
      have quiet: "\<forall>y\<in>set steps. \<not> ps_terminal y" using "2.prems"(5) go by blast
      have inv2: "plan_inv eg i maxSteps (steps @ [x]) s2"
        using inv s1 quiet go "2.prems"(4)
        by (auto simp: plan_inv_def x_def planned_step_def s2_def spent_def stops_def)
      have term2: "\<forall>y\<in>set (steps @ [x]). ps_terminal y \<longrightarrow> stops i maxSteps (Suc k) s2"
        using quiet by (auto simp: x_def planned_step_def stops_def)
      show ?thesis
      proof (cases "caps_reached ?b s2")
        case True
        with out inv2 show ?thesis by simp
      next
        case more: False
        show ?thesis
        proof (rule "2.IH" [OF refl _ c refl _ s2_def refl])
          show "plan_steps eg i maxSteps (Suc k) stages (steps @ [planned_step i maxSteps k name calls s2]) s2 =
            Inr (steps', s')" using out more by (simp add: x_def)
        qed (use go' F more inv2 term2 "2.prems"(2,4) in \<open>simp_all add: x_def\<close>)
      qed
    qed
  qed
qed

section \<open>The plan\<close>

lemma close_calls [simp]: "calls_of (close_steps steps) = calls_of steps"
proof (cases steps rule: rev_cases)
  case (snoc xs x)
  then show ?thesis by (simp add: close_steps_def)
qed (simp add: close_steps_def)

lemma close_index: "map ps_index steps = [0..<length steps] \<Longrightarrow>
    map ps_index (close_steps steps) = [0..<length (close_steps steps)]"
proof (cases steps rule: rev_cases)
  case (snoc xs x)
  moreover assume "map ps_index steps = [0..<length steps]"
  ultimately show ?thesis by (simp add: close_steps_def)
qed (simp add: close_steps_def)

lemma close_terminal:
  assumes "\<forall>x\<in>set (butlast steps). \<not> ps_terminal x" "k < length (close_steps steps)"
  shows "ps_terminal (close_steps steps ! k) \<longleftrightarrow> Suc k = length (close_steps steps)"
proof (cases steps rule: rev_cases)
  case (snoc xs x)
  with assms show ?thesis by (auto simp: close_steps_def nth_append less_Suc_eq)
qed (use assms in \<open>simp add: close_steps_def\<close>)

lemma length_close: "length (close_steps steps) = max 1 (length steps)"
  by (cases steps rule: rev_cases) (simp_all add: close_steps_def)

lemma make_plan_inv:
  assumes "make_plan eg sha lc i = Inr p" "whole (bu_max_tool_calls (pi_budget i))"
    and "0 \<le> bu_max_tool_calls (pi_budget i)" "under (bu_max_cost (pi_budget i)) 0"
    and "under (bu_max_units (pi_budget i)) 0"
  obtains raw s where "plan_inv eg i (step_bound i (plan_stages lc i)) raw s"
    "pl_steps p = close_steps raw" "pl_total_calls p = st_total s" "pl_total_cost p = st_cost s"
proof -
  let ?s0 = "\<lparr>st_seq = 1, st_total = 0, st_cost = 0, st_units = 0\<rparr>"
  obtain raw s where r: "plan_steps eg i (step_bound i (plan_stages lc i)) 0 (plan_stages lc i) [] ?s0 = Inr (raw, s)"
    and p: "pl_steps p = close_steps raw" "pl_total_calls p = st_total s" "pl_total_cost p = st_cost s"
    using assms(1) by (auto simp: make_plan_def Let_def split: sum.splits)
  have "plan_inv eg i (step_bound i (plan_stages lc i)) [] ?s0"
    using assms(3-) by (simp add: plan_inv_def spent_def)
  then have "plan_inv eg i (step_bound i (plan_stages lc i)) raw s"
    by (rule plan_steps_ok [OF r assms(2)]) simp_all
  with p show thesis by (intro that)
qed

text \<open>C22. Every call of a plan names a tool that the envelope allows and the profile declares and passes
  arguments that conform to the envelope; the number of calls, the estimated cost, which is the sum
  over the calls, and the provider units stay within the budget.\<close>

theorem plan_confined_within_budget:
  assumes "make_plan eg sha lc i = Inr p" "whole (bu_max_tool_calls (pi_budget i))"
    and "0 \<le> bu_max_tool_calls (pi_budget i)" "under (bu_max_cost (pi_budget i)) 0"
    and "under (bu_max_units (pi_budget i)) 0"
  shows "(\<forall>c\<in>set (calls_of (pl_steps p)).
      pc_tool c \<in> set (en_tools (pi_envelope i)) \<and> pc_tool c \<in> set (mp_tools (pi_profile i)) \<and>
      (\<forall>k v. member_at (VObj (pc_args c)) k v \<longrightarrow> member_ok eg (pi_envelope i) k v)) \<and>
    pl_total_calls p = length (calls_of (pl_steps p)) \<and>
    of_nat (pl_total_calls p) \<le> bu_max_tool_calls (pi_budget i) \<and>
    pl_total_cost p = of_nat (pl_total_calls p) * estimateToolCost (pi_profile i) \<and>
    under (bu_max_cost (pi_budget i)) (pl_total_cost p) \<and>
    under (bu_max_units (pi_budget i)) (of_nat (pl_total_calls p))"
proof -
  obtain raw s where inv: "plan_inv eg i (step_bound i (plan_stages lc i)) raw s"
    and p: "pl_steps p = close_steps raw" "pl_total_calls p = st_total s" "pl_total_cost p = st_cost s"
    by (rule make_plan_inv [OF assms])
  have "\<forall>c\<in>set (calls_of raw). call_ok eg i c" using inv by (simp add: plan_inv_def)
  then have "\<forall>c\<in>set (calls_of (pl_steps p)).
      pc_tool c \<in> set (en_tools (pi_envelope i)) \<and> pc_tool c \<in> set (mp_tools (pi_profile i)) \<and>
      (\<forall>k v. member_at (VObj (pc_args c)) k v \<longrightarrow> member_ok eg (pi_envelope i) k v)"
    unfolding p close_calls call_ok_def assertConforms_iff by blast
  moreover have "st_total s = length (calls_of raw)" "spent i (st_total s) s" using inv unfolding plan_inv_def by blast+
  ultimately show ?thesis unfolding p close_calls spent_def
    by (elim conjE, intro conjI) (assumption | simp)+
qed

definition plan_demo :: planner_input where
  "plan_demo = \<lparr>pi_candidate = \<lparr>ct_asset = ''a1'', ct_chain = ''solana'', ct_address = ''m1'', ct_symbol = None\<rparr>,
     pi_goal = None, pi_profile = builtin_profile ''fast-triage-v1'' TRIAGE ''google'' ''gemini-1.5-flash''
        [''dex.pairs'', ''token.profile'', ''market.summary''] 2048 32768 (1 / 10000000) (4 / 10000000),
     pi_envelope = open_envelope [''dex.pairs'', ''token.profile'', ''signal.score'']\<lparr>en_chains := Some [''solana'']\<rparr>,
     pi_budget = \<lparr>bu_max_steps = 3, bu_max_tool_calls = 1, bu_max_per_candidate = None, bu_max_provider_calls = None,
       bu_max_input_tokens = None, bu_max_output_tokens = None, bu_max_cost = Some (1 / 1000), bu_max_units = Some 4,
       bu_deadline = None\<rparr>,
     pi_evidence = None, pi_families = None, pi_seed = None\<rparr>"

definition no_sha :: "string \<Rightarrow> string" where
  "no_sha s = ''0''"

lemma make_plan_steps:
  assumes "plan_steps eg i (step_bound i (plan_stages lc i)) 0 (plan_stages lc i) []
      \<lparr>st_seq = 1, st_total = 0, st_cost = 0, st_units = 0\<rparr> = Inr (raw, s)"
  shows "\<exists>p. make_plan eg sha lc i = Inr p \<and> pl_steps p = close_steps raw \<and> pl_total_calls p = st_total s"
  unfolding make_plan_def Let_def assms sum.case prod.case by (intro exI conjI, rule refl) simp_all

lemma plan_demo_steps:
  "case plan_steps demo_engine plan_demo (step_bound plan_demo (plan_stages (\<lambda>_ _. 0) plan_demo)) 0
       (plan_stages (\<lambda>_ _. 0) plan_demo) [] \<lparr>st_seq = 1, st_total = 0, st_cost = 0, st_units = 0\<rparr> of
     Inl _ \<Rightarrow> False
   | Inr (raw, s) \<Rightarrow> st_total s = 1 \<and> length (close_steps raw) = 1 \<and>
       map pc_tool (calls_of (close_steps raw)) = [''dex.pairs'']"
  by code_simp

lemma plan_demo_ok:
  "\<exists>p. make_plan demo_engine no_sha (\<lambda>_ _. 0) plan_demo = Inr p \<and> pl_total_calls p = 1 \<and>
     length (pl_steps p) = 1 \<and> map pc_tool (calls_of (pl_steps p)) = [''dex.pairs'']"
proof (cases "plan_steps demo_engine plan_demo (step_bound plan_demo (plan_stages (\<lambda>_ _. 0) plan_demo)) 0
    (plan_stages (\<lambda>_ _. 0) plan_demo) [] \<lparr>st_seq = 1, st_total = 0, st_cost = 0, st_units = 0\<rparr>")
  case (Inl e)
  then show ?thesis using plan_demo_steps by (simp only: sum.case)
next
  case (Inr r)
  obtain raw s where r: "r = (raw, s)" by (cases r)
  note s = plan_demo_steps [unfolded Inr r sum.case prod.case]
  obtain p where "make_plan demo_engine no_sha (\<lambda>_ _. 0) plan_demo = Inr p" "pl_steps p = close_steps raw"
    "pl_total_calls p = st_total s" using make_plan_steps [OF Inr [unfolded r], of no_sha] by (elim exE conjE) (rule that)
  with s show ?thesis by (intro exI [of _ p]) (simp only:)
qed

theorem plan_confined_within_budget_witness:
  "\<exists>p. make_plan demo_engine no_sha (\<lambda>_ _. 0) plan_demo = Inr p \<and> pl_total_calls p = 1 \<and>
     pl_total_cost p = estimateToolCost (pi_profile plan_demo) \<and> length (calls_of (pl_steps p)) = 1"
proof -
  obtain p where p: "make_plan demo_engine no_sha (\<lambda>_ _. 0) plan_demo = Inr p" "pl_total_calls p = 1"
    using plan_demo_ok by (elim exE conjE) (rule that)
  have "pl_total_calls p = length (calls_of (pl_steps p)) \<and>
      pl_total_cost p = of_nat (pl_total_calls p) * estimateToolCost (pi_profile plan_demo)"
    using plan_confined_within_budget [OF p(1)] by (simp add: plan_demo_def whole_def)
  with p show ?thesis by auto
qed

text \<open>The steps of a plan are numbered in order, there is at least one and, where the budget lets
  a step be taken, no more than it allows; exactly the last is terminal, so that an executor that stops at the
  first terminal step leaves out none.\<close>

theorem plan_ends_at_last_step:
  assumes "make_plan eg sha lc i = Inr p" "whole (bu_max_tool_calls (pi_budget i))"
    and "0 \<le> bu_max_tool_calls (pi_budget i)" "under (bu_max_cost (pi_budget i)) 0"
    and "under (bu_max_units (pi_budget i)) 0" "whole (bu_max_steps (pi_budget i))"
  shows "pl_steps p \<noteq> [] \<and> map ps_index (pl_steps p) = [0..<length (pl_steps p)] \<and>
    of_nat (length (pl_steps p)) \<le> max 1 (bu_max_steps (pi_budget i)) \<and>
    (\<forall>k<length (pl_steps p). ps_terminal (pl_steps p ! k) \<longleftrightarrow> Suc k = length (pl_steps p))"
proof -
  obtain raw s where inv: "plan_inv eg i (step_bound i (plan_stages lc i)) raw s"
    and p: "pl_steps p = close_steps raw" by (rule make_plan_inv [OF assms(1-5)])
  note inv = inv [unfolded plan_inv_def]
  have n: "0 < length (close_steps raw)" by (simp add: length_close)
  have "of_nat (length raw) \<le> bu_max_steps (pi_budget i)" if "raw \<noteq> []"
  proof -
    have "\<not> bu_max_steps (pi_budget i) \<le> of_nat (length raw - 1)"
      using inv that by (simp add: step_bound_def)
    from whole_less [OF assms(6) this] that show ?thesis by simp
  qed
  then have "of_nat (length (close_steps raw)) \<le> max 1 (bu_max_steps (pi_budget i))"
    by (cases "raw = []") (auto simp: length_close of_nat_max)
  then show ?thesis using inv n close_index close_terminal unfolding p by blast
qed

theorem plan_ends_at_last_step_witness:
  "\<exists>p. make_plan demo_engine no_sha (\<lambda>_ _. 0) plan_demo = Inr p \<and> pl_steps p \<noteq> [] \<and>
     ps_terminal (last (pl_steps p))"
proof -
  obtain p where p: "make_plan demo_engine no_sha (\<lambda>_ _. 0) plan_demo = Inr p"
    using plan_demo_ok by (elim exE conjE) (rule that)
  have "pl_steps p \<noteq> []" "\<forall>k<length (pl_steps p). ps_terminal (pl_steps p ! k) \<longleftrightarrow> Suc k = length (pl_steps p)"
    using plan_ends_at_last_step [OF p] by (simp_all add: plan_demo_def whole_def)
  with p show ?thesis by (auto simp: last_conv_nth)
qed

end
