(* ===== verification/Decision_Claims.thy ===== *)
theory Decision_Claims
  imports Decision_Facts Planner_Facts
begin

text \<open>
  Properties of the evidence validator, of the decision engine and of the ranking.
\<close>

section \<open>Examples\<close>

definition demo_evidence :: evidence where
  "demo_evidence = \<lparr>ev_id = ''e1'', ev_entity = ''a1'', ev_candidate = Some ''a1'', ev_asset = None,
     ev_provider = ''jup'', ev_operation = ''dex.pairs'', ev_group = ''dex'', ev_available = ''1970-01-01'',
     ev_fetched = ''1970-01-01'', ev_fields = [(''price'', VNum 2)], ev_quality = [''VALID''], ev_sha = Some ''00''\<rparr>"

definition demo_claim :: "string \<Rightarrow> string list \<Rightarrow> claim_ref" where
  "demo_claim text ids = \<lparr>cl_claim = text, cl_evidence = ids, cl_confidence = None\<rparr>"

definition demo_options :: validator_options where
  "demo_options = \<lparr>op_time = ''1970-01-02'', op_max_fresh = Some 604800000, op_groups = Some 1,
     op_candidate = Some ''a1'', op_entity = Some ''a1''\<rparr>"

definition demo_claims :: claims where
  "demo_claims = \<lparr>ca_observed = [demo_claim ''depth'' [''e1'']], ca_derived = [], ca_inferences = [],
     ca_hypotheses = [], ca_thesis = ''flow'', ca_counter = ''thin''\<rparr>"

definition demo_proposal :: proposal where
  "demo_proposal = \<lparr>pr_decision = Some DcALERT, pr_alert_class = Some EARLY_WATCH, pr_scenario = None,
     pr_tradability = None, pr_valid_until = None, pr_cost_policy = None, pr_social = None, pr_pack = None,
     pr_multi_view = None, pr_hazard = None, pr_novelty = None, pr_patterns = None, pr_artifacts = None,
     pr_lifecycle = LcQUALIFIED, pr_risk = RkLOW, pr_thesis = ''flow'', pr_counter = ''thin'',
     pr_observed = Some [demo_claim ''depth'' [''e1'']], pr_derived = None, pr_inferences = None,
     pr_hypotheses = None, pr_positive = Some [''PAIRS''], pr_risks = None, pr_missing = None, pr_conflicts = None,
     pr_invalidation = None, pr_next_check = None, pr_assessment = CfHIGH\<rparr>"

definition demo_decision_input :: "bool option \<Rightarrow> decision_input" where
  "demo_decision_input critical = \<lparr>di_candidate = pi_candidate plan_demo, di_profile = ''p'',
     di_proposed = demo_proposal, di_evidence = [(''e1'', demo_evidence)], di_options = demo_options,
     di_gates = None, di_conflicts = None, di_critical = critical, di_tradability = None\<rparr>"

lemma demo_dates: "date_ms demo_engine ''1970-01-01'' = Some 0" "date_ms demo_engine ''1970-01-02'' = Some 86400000"
  by (simp_all add: date_ms_def date_eval)

section \<open>Validity\<close>

text \<open>C8. A decision is valid exactly when every observed fact, derived fact and inference cites evidence;
  every record that a claim cites exists, names no other candidate or entity, was available at the decision
  time, is not older than the limit as far as its fetch time can be read, and does not contradict the claim;
  assertions of safety are proved by a cited record; no thesis and no text of a citing claim has a
  prohibited phrase; and the cited records span enough independence groups. Hypotheses that cite nothing
  are not looked at.\<close>

theorem decision_valid_exactly_when_supported:
  assumes "validate_evidence eg sha lc at_time d m opts = Inr r" "date_ms eg (op_time opts) = Some now"
  shows "vr_valid r \<longleftrightarrow> supported eg opts now m d"
  using assms by (rule validate_evidence_valid)

lemma demo_checks:
  "\<not> prohibited_text ''depth''" "\<not> prohibited_text ''flow''" "\<not> prohibited_text ''thin''"
  "\<not> contradicts ''depth'' [(''price'', VNum 2)]" "\<not> asserts_safety ''depth''"
proof -
  have "checkProhibitedLanguage ''depth'' = None" "checkProhibitedLanguage ''flow'' = None"
    "checkProhibitedLanguage ''thin'' = None" "checkDirectionMagnitude ''depth'' [(''price'', VNum 2)] = None"
    "checkUnsupportedSafety ''depth'' [] [] = None"
    by code_simp+
  then show "\<not> prohibited_text ''depth''" "\<not> prohibited_text ''flow''" "\<not> prohibited_text ''thin''"
    "\<not> contradicts ''depth'' [(''price'', VNum 2)]" "\<not> asserts_safety ''depth''"
    by (simp_all add: prohibited_iff contradicts_iff unsupported_safety_iff)
qed

lemma demo_cited:
  "assertions demo_claims = {demo_claim ''depth'' [''e1'']}" "cited demo_claims = {''e1''}"
  "groups_cited demo_claims [(''e1'', demo_evidence)] = {''dex''}"
  by (auto simp: assertions_def cited_def groups_cited_def demo_claims_def demo_claim_def demo_evidence_def)

lemma demo_timely: "timely demo_engine demo_options 86400000 demo_evidence"
  by (simp add: timely_def stale_def demo_options_def demo_evidence_def demo_dates)

lemma demo_supported: "supported demo_engine demo_options 86400000 [(''e1'', demo_evidence)] demo_claims"
proof -
  have "backs demo_engine demo_options 86400000 ''depth'' demo_evidence"
    using demo_timely demo_checks(4) by (simp add: backs_def belongs_def demo_options_def demo_evidence_def)
  then have "supported_claim demo_engine demo_options 86400000 [(''e1'', demo_evidence)] (demo_claim ''depth'' [''e1''])"
    using demo_checks by (simp add: supported_claim_def demo_claim_def)
  then show ?thesis
    using demo_checks by (simp add: supported_def demo_cited) (simp add: demo_claims_def demo_claim_def demo_options_def)
qed

theorem decision_valid_exactly_when_supported_witness:
  "\<exists>r. validate_evidence demo_engine no_sha (\<lambda>_ _. 0) ''t'' demo_claims [(''e1'', demo_evidence)] demo_options = Inr r \<and>
     vr_valid r"
proof -
  have t: "date_ms demo_engine (op_time demo_options) = Some 86400000" by (simp add: demo_options_def demo_dates)
  then obtain r where r: "validate_evidence demo_engine no_sha (\<lambda>_ _. 0) ''t'' demo_claims
      [(''e1'', demo_evidence)] demo_options = Inr r"
    by (auto simp: validate_evidence_def Let_def)
  from decision_valid_exactly_when_supported [OF r t] demo_supported r show ?thesis by blast
qed

text \<open>A hypothesis that cites nothing is not looked at: whatever such hypotheses say, prohibited language
  and assertions of safety included, the outcome of the validation is the same.\<close>

theorem uncited_hypotheses_unchecked:
  assumes "\<forall>h\<in>set hs. cl_evidence h = []"
  shows "validate_evidence eg sha lc now (d\<lparr>ca_hypotheses := hs\<rparr>) m opts =
    validate_evidence eg sha lc now (d\<lparr>ca_hypotheses := []\<rparr>) m opts"
proof -
  have "set hs = snd ` set (enumerate 0 hs)" by (metis list.set_map map_snd_enumerate)
  then have g: "group_failures eg opts n m (Hypotheses, hs) = []" for n
    using assms by (auto simp: group_failures_def claim_failures_def)
  have c: "concat (map cl_evidence hs) = []" using assms by simp
  have ids: "cited_ids (d\<lparr>ca_hypotheses := hs\<rparr>) = cited_ids (d\<lparr>ca_hypotheses := []\<rparr>)"
    by (simp add: cited_ids_def claim_groups_def c)
  have fs: "concat (map (group_failures eg opts n m) (claim_groups (d\<lparr>ca_hypotheses := hs\<rparr>))) =
      concat (map (group_failures eg opts n m) (claim_groups (d\<lparr>ca_hypotheses := []\<rparr>)))" for n
    using g by (simp add: claim_groups_def) (simp add: group_failures_def)
  have "has_important_claims (d\<lparr>ca_hypotheses := hs\<rparr>) = has_important_claims (d\<lparr>ca_hypotheses := []\<rparr>)"
    by (simp add: has_important_claims_def claim_groups_def)
  then show ?thesis
    by (simp add: validate_evidence_def fs ids cited_groups_def independence_failures_def Let_def
        cong: option.case_cong)
qed

theorem uncited_hypotheses_unchecked_witness:
  "validate_evidence demo_engine no_sha (\<lambda>_ _. 0) ''t''
     (demo_claims\<lparr>ca_hypotheses := [demo_claim ''guaranteed profit'' []]\<rparr>) [(''e1'', demo_evidence)] demo_options =
   validate_evidence demo_engine no_sha (\<lambda>_ _. 0) ''t''
     (demo_claims\<lparr>ca_hypotheses := []\<rparr>) [(''e1'', demo_evidence)] demo_options \<and>
   checkProhibitedLanguage ''guaranteed profit'' \<noteq> None"
proof
  show "checkProhibitedLanguage ''guaranteed profit'' \<noteq> None" by code_simp
qed (rule uncited_hypotheses_unchecked, simp add: demo_claim_def)

section \<open>Abstention\<close>


lemma demo_decide_total: "\<exists>r. decide demo_engine no_sha (\<lambda>_ _. 0) ''t'' (demo_decision_input c) = Inr r"
  by (simp add: decide_def validated_def validate_evidence_def demo_decision_input_def demo_options_def demo_dates Let_def)


text \<open>C24. Where the validator is required, an alert rests on evidence: at least as many observed facts,
  cited records and independence groups as configured; every observed fact, derived fact and inference
  cites records, and each of them exists, was available at the decision time, names no other candidate than
  the one given and the entity given, and is not older than the configured age where its fetch time can be
  read. No blocking critical risk and no failed tradability check was reported.\<close>

theorem alert_rests_on_timely_evidence:
  assumes "decide eg sha lc at_time i = Inr r" "ad_decision (dr_decision r) = DcALERT"
    and "g = gate_config_of (di_gates i)" "gc_validator g" "date_ms eg (op_time (di_options i)) = Some now"
    and "d = proposal_claims (di_proposed i)"
  shows "gc_facts g \<le> of_nat (length (ca_observed d)) \<and> gc_evidence g \<le> of_nat (card (cited d)) \<and>
    gc_groups g \<le> of_nat (card (groups_cited d (di_evidence i))) \<and>
    (\<forall>c\<in>set (ca_observed d) \<union> set (ca_derived d) \<union> set (ca_inferences d). cl_evidence c \<noteq> [] \<and>
      (\<forall>eid\<in>set (cl_evidence c). \<exists>ev a. map_of (di_evidence i) eid = Some ev \<and>
         date_ms eg (ev_available ev) = Some a \<and> a \<le> now \<and>
         (\<forall>f. date_ms eg (ev_fetched ev) = Some f \<longrightarrow> rat_of_int (now - max a f) \<le> gc_fresh g) \<and>
         (\<forall>x x'. op_candidate (di_options i) = Some x \<and> x \<noteq> [] \<and> ev_candidate ev = Some x' \<and> x' \<noteq> [] \<longrightarrow> x' = x) \<and>
         (\<forall>x. op_entity (di_options i) = Some x \<and> x \<noteq> [] \<longrightarrow> ev_entity ev = x \<or> ev_candidate ev = Some x))) \<and>
    \<not> (gc_critical g \<and> di_critical i = Some True) \<and> di_tradability i \<noteq> Some False"
proof -
  obtain v where v: "validated eg sha lc at_time i = Inr v" "dr_reasons r = abstention_reasons g i v"
    "dr_decision r = decision_of i (dr_reasons r)"
    by (rule decide_Inr [OF assms(1), folded assms(3)])
  have "dr_reasons r = []"
    using assms(2) by (auto simp: v(3) decision_of_def Let_def split: if_splits)
  then have "well_founded_decision eg now i"
    using all_gates_iff [OF v(1) assms(5)] unfolding v(2) abstention_reasons_Nil assms(3) by simp
  note w = this [unfolded well_founded_decision_def Let_def, folded assms(3,6)]
  have "supported eg (options_of i) now (di_evidence i) d" using w assms(4) by blast
  then have s: "\<forall>c\<in>set (ca_observed d) \<union> set (ca_derived d) \<union> set (ca_inferences d). cl_evidence c \<noteq> [] \<and>
      (\<forall>eid\<in>set (cl_evidence c). \<exists>ev. map_of (di_evidence i) eid = Some ev \<and> belongs (options_of i) ev \<and>
        timely eg (options_of i) now ev)"
    unfolding supported_def assertions_def supported_claim_def backs_def by blast
  have t: "\<exists>a. date_ms eg (ev_available ev) = Some a \<and> a \<le> now \<and>
      (\<forall>f. date_ms eg (ev_fetched ev) = Some f \<longrightarrow> rat_of_int (now - max a f) \<le> gc_fresh g)"
    if "timely eg (options_of i) now ev" for ev
    using that by (force simp: timely_def stale_def options_of_def assms(3) Let_def not_less)
  have b: "(\<forall>x x'. op_candidate (di_options i) = Some x \<and> x \<noteq> [] \<and> ev_candidate ev = Some x' \<and> x' \<noteq> [] \<longrightarrow> x' = x) \<and>
      (\<forall>x. op_entity (di_options i) = Some x \<and> x \<noteq> [] \<longrightarrow> ev_entity ev = x \<or> ev_candidate ev = Some x)"
    if "belongs (options_of i) ev" for ev
    using that by (simp add: belongs_def options_of_def Let_def)
  have "\<forall>c\<in>set (ca_observed d) \<union> set (ca_derived d) \<union> set (ca_inferences d). cl_evidence c \<noteq> [] \<and>
      (\<forall>eid\<in>set (cl_evidence c). \<exists>ev a. map_of (di_evidence i) eid = Some ev \<and>
         date_ms eg (ev_available ev) = Some a \<and> a \<le> now \<and>
         (\<forall>f. date_ms eg (ev_fetched ev) = Some f \<longrightarrow> rat_of_int (now - max a f) \<le> gc_fresh g) \<and>
         (\<forall>x x'. op_candidate (di_options i) = Some x \<and> x \<noteq> [] \<and> ev_candidate ev = Some x' \<and> x' \<noteq> [] \<longrightarrow> x' = x) \<and>
         (\<forall>x. op_entity (di_options i) = Some x \<and> x \<noteq> [] \<longrightarrow> ev_entity ev = x \<or> ev_candidate ev = Some x))"
  proof (intro ballI conjI)
    fix c assume c: "c \<in> set (ca_observed d) \<union> set (ca_derived d) \<union> set (ca_inferences d)"
    with s show "cl_evidence c \<noteq> []" by blast
    fix eid assume "eid \<in> set (cl_evidence c)"
    with s c obtain ev where "map_of (di_evidence i) eid = Some ev" "belongs (options_of i) ev"
      "timely eg (options_of i) now ev" by blast
    with t [of ev] b [of ev] show "\<exists>ev a. map_of (di_evidence i) eid = Some ev \<and>
         date_ms eg (ev_available ev) = Some a \<and> a \<le> now \<and>
         (\<forall>f. date_ms eg (ev_fetched ev) = Some f \<longrightarrow> rat_of_int (now - max a f) \<le> gc_fresh g) \<and>
         (\<forall>x x'. op_candidate (di_options i) = Some x \<and> x \<noteq> [] \<and> ev_candidate ev = Some x' \<and> x' \<noteq> [] \<longrightarrow> x' = x) \<and>
         (\<forall>x. op_entity (di_options i) = Some x \<and> x \<noteq> [] \<longrightarrow> ev_entity ev = x \<or> ev_candidate ev = Some x)" by blast
  qed
  with w show ?thesis by blast
qed

lemma demo_input: "proposal_claims (di_proposed (demo_decision_input c)) = demo_claims"
  "di_evidence (demo_decision_input c) = [(''e1'', demo_evidence)]" "di_gates (demo_decision_input c) = None"
  "options_of (demo_decision_input c) = demo_options"
  by (simp_all add: demo_decision_input_def demo_options_def proposal_claims_def demo_proposal_def demo_claims_def
      options_of_def gate_config_of_def Let_def)

theorem alert_rests_on_timely_evidence_witness:
  "\<exists>r. decide demo_engine no_sha (\<lambda>_ _. 0) ''t'' (demo_decision_input None) = Inr r \<and>
     ad_decision (dr_decision r) = DcALERT \<and>
     gc_groups (gate_config_of None) \<le> of_nat (card (groups_cited demo_claims [(''e1'', demo_evidence)]))"
proof -
  let ?i = "demo_decision_input None"
  have t: "date_ms demo_engine (op_time (di_options ?i)) = Some 86400000"
    by (simp add: demo_decision_input_def demo_options_def demo_dates)
  have g: "gate_config_of (di_gates ?i) = \<lparr>gc_facts = 1, gc_evidence = 1, gc_groups = 1, gc_fresh = 604800000,
      gc_validator = True, gc_critical = True\<rparr>" by (simp add: demo_input gate_config_of_def)
  obtain r where r: "decide demo_engine no_sha (\<lambda>_ _. 0) ''t'' ?i = Inr r" using demo_decide_total by blast
  obtain v where v: "validated demo_engine no_sha (\<lambda>_ _. 0) ''t'' ?i = Inr v"
    "dr_reasons r = abstention_reasons (gate_config_of (di_gates ?i)) ?i v"
    "dr_decision r = decision_of ?i (dr_reasons r)" by (rule decide_Inr [OF r])
  have "well_founded_decision demo_engine 86400000 ?i"
    using demo_supported unfolding well_founded_decision_def g demo_input demo_cited Let_def
    by (simp add: gate_config_of_def demo_claims_def stale_def demo_evidence_def demo_dates demo_decision_input_def)
  then have "dr_reasons r = []"
    using all_gates_iff [OF v(1) t] by (simp add: v(2) abstention_reasons_Nil)
  then have d: "ad_decision (dr_decision r) = DcALERT"
    by (simp add: v(3) decision_of_def demo_decision_input_def demo_proposal_def)
  show ?thesis
    using alert_rests_on_timely_evidence [OF r d refl _ t refl] r d by (simp add: demo_input gate_config_of_def)
qed

section \<open>Ranking\<close>

text \<open>A ranking answers for every candidate in order: one that is abstained on has no rank; the others
  have different ranks between 1 and their number, and a higher score has the smaller rank.\<close>

theorem ranking_never_forced:
  assumes "rankOrAbstain eg sha lc now cs = Inr out" "distinct (map cn_id cs)" "ordering_on UNIV lc"
  shows "map sd_id out = map cn_id cs \<and>
    (\<forall>k<length cs. \<exists>r. decide eg sha lc now (cn_input (cs ! k)) = Inr r \<and> sd_abstained (out ! k) = dr_abstained r) \<and>
    (\<forall>s\<in>set out. if sd_abstained s then sd_rank s = None
       else \<exists>n. sd_rank s = Some n \<and> 1 \<le> n \<and> n \<le> length (filter (\<lambda>s. \<not> sd_abstained s) out)) \<and>
    (\<forall>j<length cs. \<forall>k<length cs. \<not> sd_abstained (out ! j) \<and> \<not> sd_abstained (out ! k) \<and> j \<noteq> k \<longrightarrow>
       sd_rank (out ! j) \<noteq> sd_rank (out ! k) \<and>
       (cn_score (cs ! k) < cn_score (cs ! j) \<longrightarrow> the (sd_rank (out ! j)) < the (sd_rank (out ! k))))"
proof -
  obtain ev where l: "list_all2 (\<lambda>c e. fst e = cn_id c \<and> decide eg sha lc now (cn_input c) = Inr (snd e)) cs ev"
    and out: "out = map (standing_of lc cs ev) ev" by (rule rankOrAbstain_Inr [OF assms(1)])
  have len: "length ev = length cs" using l by (simp add: list_all2_lengthD)
  have nth: "fst (ev ! k) = cn_id (cs ! k)" "decide eg sha lc now (cn_input (cs ! k)) = Inr (snd (ev ! k))"
    if "k < length cs" for k using l that by (simp_all add: list_all2_conv_all_nth)
  have ids: "map fst ev = map cn_id cs" using len nth(1) by (intro nth_equalityI) simp_all
  then have dist: "distinct (map fst ev)" using assms(2) by simp
  have abst: "sd_abstained (standing_of lc cs ev e) = dr_abstained (snd e)" for e by (simp add: standing_of_def)
  have n: "length (filter (\<lambda>s. \<not> sd_abstained s) out) = length (rankable ev)"
    by (simp add: out rankable_def filter_map comp_def abst)
  have pos: "\<exists>p. p < length (rankable ev) \<and> ranked lc cs ev ! p = e \<and> sd_rank (standing_of lc cs ev e) = Some (Suc p)"
    if e: "e \<in> set ev" "\<not> dr_abstained (snd e)" for e
  proof -
    obtain p where "p < length (rankable ev)" "ranked lc cs ev ! p = e"
      "map_of (rank_map (ranked lc cs ev)) (fst e) = Some (Suc p)"
      by (rule ranked_position [OF dist assms(3) e])
    with e(2) show ?thesis by (intro exI [of _ p]) (simp add: standing_of_def)
  qed
  have two: "sd_rank (out ! j) \<noteq> sd_rank (out ! k) \<and>
      (cn_score (cs ! k) < cn_score (cs ! j) \<longrightarrow> the (sd_rank (out ! j)) < the (sd_rank (out ! k)))"
    if jk: "j < length cs" "k < length cs" "\<not> sd_abstained (out ! j) \<and> \<not> sd_abstained (out ! k) \<and> j \<noteq> k" for j k
  proof -
    have o: "out ! j = standing_of lc cs ev (ev ! j)" "out ! k = standing_of lc cs ev (ev ! k)"
      using jk len by (simp_all add: out)
    then have na: "\<not> dr_abstained (snd (ev ! j))" "\<not> dr_abstained (snd (ev ! k))" using jk(3) abst by simp_all
    obtain p where p: "p < length (rankable ev)" "ranked lc cs ev ! p = ev ! j" "sd_rank (out ! j) = Some (Suc p)"
      using pos [OF _ na(1)] jk(1) len o by auto
    obtain q where q: "q < length (rankable ev)" "ranked lc cs ev ! q = ev ! k" "sd_rank (out ! k) = Some (Suc q)"
      using pos [OF _ na(2)] jk(2) len o by auto
    have "cn_id (cs ! j) \<noteq> cn_id (cs ! k)" using assms(2) jk by (simp add: distinct_conv_nth)
    then have "p \<noteq> q" using p(2) q(2) nth(1) jk by metis
    moreover have "cn_score (cs ! j) \<le> cn_score (cs ! k)" if "q < p"
      using ranked_facts(4) [OF dist assms(3) that, of cs] p(1,2) q(2) jk nth(1) score_of_contender [OF assms(2)]
        ranked_facts(2) [OF dist assms(3), of cs] by simp
    ultimately show ?thesis using p(3) q(3) by (cases "q < p") auto
  qed
  have "map sd_id out = map cn_id cs" using ids by (simp add: out standing_of_def comp_def)
  moreover have "\<forall>k<length cs. \<exists>r. decide eg sha lc now (cn_input (cs ! k)) = Inr r \<and> sd_abstained (out ! k) = dr_abstained r"
    using nth(2) len abst by (simp add: out)
  moreover have "\<forall>s\<in>set out. if sd_abstained s then sd_rank s = None
       else \<exists>n. sd_rank s = Some n \<and> 1 \<le> n \<and> n \<le> length (filter (\<lambda>s. \<not> sd_abstained s) out)"
    unfolding n using pos by (fastforce simp: out standing_of_def)
  ultimately show ?thesis using two by blast
qed

definition plain_order :: "string \<Rightarrow> string \<Rightarrow> int" where
  "plain_order a b = (if a < b then - 1 else if b < a then 1 else 0)"

lemma plain_ordering: "ordering_on UNIV plain_order"
  unfolding ordering_on_def plain_order_def by (auto split: if_splits)

theorem ranking_never_forced_witness:
  "\<exists>out. rankOrAbstain demo_engine no_sha plain_order ''t''
       [\<lparr>cn_id = ''x'', cn_score = 1, cn_input = demo_decision_input None\<rparr>,
        \<lparr>cn_id = ''y'', cn_score = 2, cn_input = demo_decision_input (Some True)\<rparr>] = Inr out \<and>
     map sd_id out = [''x'', ''y'']"
proof -
  let ?cs = "[\<lparr>cn_id = ''x'', cn_score = 1, cn_input = demo_decision_input None\<rparr>,
        \<lparr>cn_id = ''y'', cn_score = 2, cn_input = demo_decision_input (Some True)\<rparr>]"
  have "\<exists>r. decide demo_engine no_sha plain_order ''t'' (demo_decision_input c) = Inr r" for c
    by (simp add: decide_def validated_def validate_evidence_def demo_decision_input_def demo_options_def demo_dates Let_def)
  then obtain a b where "decide demo_engine no_sha plain_order ''t'' (demo_decision_input None) = Inr a"
    "decide demo_engine no_sha plain_order ''t'' (demo_decision_input (Some True)) = Inr b" by blast
  then obtain out where out: "rankOrAbstain demo_engine no_sha plain_order ''t'' ?cs = Inr out"
    by (simp add: rankOrAbstain_def)
  have "map sd_id out = map cn_id ?cs"
    using ranking_never_forced [OF out _ plain_ordering] by simp
  with out show ?thesis by simp
qed

end
