(* ===== verification/Agent_Runtime.thy ===== *)
theory Agent_Runtime
  imports Agent_Decision Planner_Facts
begin

text \<open>
  packages/agent-runtime/src/bounded-runtime.ts: the bounded execution of a plan, with the value of
  information planner and the skeptic switched off. The world answers for the host: the readings of
  the clock, whether the signal is aborted at each look, and what the tool handlers do; a handler sees
  the number of invocations before it, so it may keep state. The state counts readings and looks;
  \<open>rs_invoked\<close> is a history variable, the invocations of handlers so far.
\<close>

section \<open>Worlds, errors and records\<close>

datatype tool_outcome =
    Returned jval | ThrewBudget budget_error | ThrewConfined violation | ThrewCancelled | ThrewOther string

record tool_context =
  tc_candidate :: target
  tc_step :: nat
  tc_call :: string
  tc_envelope :: envelope
  tc_profile :: model_profile

type_synonym handler = "nat \<Rightarrow> (string \<times> jval) list \<Rightarrow> tool_context \<Rightarrow> tool_outcome"

record world =
  wo_engine :: engine
  wo_sha :: "string \<Rightarrow> string"
  wo_lc :: "string \<Rightarrow> string \<Rightarrow> int"
  wo_clock :: "nat \<Rightarrow> int"
  wo_aborted :: "nat \<Rightarrow> bool"
  wo_tools :: "(string \<times> handler) list"
  wo_registry :: registry

datatype run_error =
    RunError error | RunBudget budget_error | RunConfined violation | RunCancelled | MissingHandler string

type_synonym 'a run = "run_error + 'a"

record tool_record =
  tl_call :: string
  tl_step :: nat
  tl_tool :: string
  tl_args :: "(string \<times> jval) list"
  tl_output :: "jval option"
  tl_error :: "string option"
  tl_latency :: int
  tl_at :: string

record run_state =
  rs_usage :: usage
  rs_ticks :: nat
  rs_looks :: nat
  rs_evidence :: "(string \<times> jval) list"
  rs_records :: "tool_record list"
  rs_steps :: nat
  rs_calls :: nat
  rs_invoked :: "(string \<times> (string \<times> jval) list) list"

record run_options =
  ro_candidate :: target
  ro_profile :: string
  ro_version :: "string option"
  ro_envelope :: envelope
  ro_budget :: agent_budget
  ro_goal :: "model_class option"
  ro_evidence :: "(string \<times> jval) list option"
  ro_seed :: "jval option"

definition start_state :: "run_options \<Rightarrow> run_state" where
  "start_state o' = \<lparr>rs_usage = no_usage, rs_ticks = 0, rs_looks = 0,
     rs_evidence = (case ro_evidence o' of None \<Rightarrow> [] | Some e \<Rightarrow> e),
     rs_records = [], rs_steps = 0, rs_calls = 0, rs_invoked = []\<rparr>"

text \<open>\<open>await a; b\<close> for these errors.\<close>

definition run_then :: "'a run \<times> run_state \<Rightarrow> ('a \<Rightarrow> run_state \<Rightarrow> 'b run \<times> run_state) \<Rightarrow> 'b run \<times> run_state" where
  "run_then r f = (case r of (Inl e, s) \<Rightarrow> (Inl e, s) | (Inr a, s) \<Rightarrow> f a s)"

lemma run_then_simps [simp]:
  "run_then (Inl e, s) f = (Inl e, s)" "run_then (Inr a, s) f = f a s"
  by (simp_all add: run_then_def)

section \<open>Reading the host\<close>

definition now_of :: "world \<Rightarrow> run_state \<Rightarrow> int" where
  "now_of w s = wo_clock w (rs_ticks s)"

definition tick :: "run_state \<Rightarrow> run_state" where
  "tick s = s\<lparr>rs_ticks := Suc (rs_ticks s)\<rparr>"

definition look :: "world \<Rightarrow> run_state \<Rightarrow> unit run \<times> run_state" where
  "look w s =
     (if wo_aborted w (rs_looks s) then Inl RunCancelled else Inr (), s\<lparr>rs_looks := Suc (rs_looks s)\<rparr>)"

definition track :: "world \<Rightarrow> (int \<Rightarrow> usage \<Rightarrow> unit checked \<times> usage) \<Rightarrow> run_state \<Rightarrow> unit run \<times> run_state" where
  "track w f s =
     (case f (now_of w s) (rs_usage s) of (r, u) \<Rightarrow>
        (case r of Inl e \<Rightarrow> Inl (RunBudget e) | Inr _ \<Rightarrow> Inr (), (tick s)\<lparr>rs_usage := u\<rparr>))"

definition only_check :: "(int \<Rightarrow> usage \<Rightarrow> unit checked) \<Rightarrow> int \<Rightarrow> usage \<Rightarrow> unit checked \<times> usage" where
  "only_check f now u = (f now u, u)"

definition confine ::
  "world \<Rightarrow> run_options \<Rightarrow> model_profile \<Rightarrow> planned_call \<Rightarrow> run_state \<Rightarrow> unit run \<times> run_state" where
  "confine w o' p c s =
     (case assertConforms (wo_engine w) (pc_tool c) (pc_args c) (ro_envelope o') (Some (mp_tools p)) of
        Inr _ \<Rightarrow> Inr ()
      | Inl (Violation v) \<Rightarrow> Inl (RunConfined v)
      | Inl (Thrown e) \<Rightarrow> Inl (RunError e), s)"

section \<open>One tool call\<close>

definition default_cost :: "model_profile \<Rightarrow> rat" where
  "default_cost p =
     100 * or_default (mp_cost_in p) (1 / 1000000) + 150 * or_default (mp_cost_out p) (2 / 1000000)"

definition call_cost :: "model_profile \<Rightarrow> planned_call \<Rightarrow> rat" where
  "call_cost p c = or_default (pc_cost c) (default_cost p)"

text \<open>The handler's error is rethrown when it is one of the runtime's own or the signal is aborted
  by then, and is recorded otherwise.\<close>

definition settle :: "world \<Rightarrow> tool_outcome \<Rightarrow> run_state \<Rightarrow> (jval option \<times> string option) run \<times> run_state" where
  "settle w out s =
     (case out of
        Returned v \<Rightarrow> (Inr (Some v, None), s)
      | ThrewBudget e \<Rightarrow> (Inl (RunBudget e), s)
      | ThrewConfined v \<Rightarrow> (Inl (RunConfined v), s)
      | ThrewCancelled \<Rightarrow> (Inl RunCancelled, s)
      | ThrewOther msg \<Rightarrow> run_then (look w s) (\<lambda>_ s. (Inr (None, Some msg), s)))"

definition invoke ::
  "world \<Rightarrow> run_options \<Rightarrow> model_profile \<Rightarrow> nat \<Rightarrow> planned_call \<Rightarrow> run_state
     \<Rightarrow> (jval option \<times> string option) run \<times> run_state" where
  "invoke w o' p stepIndex c s =
     (case map_of (wo_tools w) (pc_tool c) of
        None \<Rightarrow> (Inl (MissingHandler (pc_tool c)), s)
      | Some h \<Rightarrow>
          (let ctx = \<lparr>tc_candidate = ro_candidate o', tc_step = stepIndex, tc_call = pc_id c,
                 tc_envelope = ro_envelope o', tc_profile = p\<rparr>;
               s1 = s\<lparr>rs_invoked := rs_invoked s @ [(pc_tool c, pc_args c)]\<rparr>
           in run_then (settle w (h (length (rs_invoked s)) (pc_args c) ctx) s1) (\<lambda>r s.
                (Inr r, case fst r of
                   None \<Rightarrow> s
                 | Some v \<Rightarrow> s\<lparr>rs_evidence := assoc_set (pc_tool c) v (rs_evidence s)\<rparr>))))"

definition count_call :: "run_state \<Rightarrow> run_state" where
  "count_call s = s\<lparr>rs_calls := Suc (rs_calls s)\<rparr>"

text \<open>The checks and records before the handler is invoked.\<close>

definition charge_call ::
  "world \<Rightarrow> run_options \<Rightarrow> model_profile \<Rightarrow> planned_call \<Rightarrow> run_state \<Rightarrow> unit run \<times> run_state" where
  "charge_call w o' p c s =
     (let b = ro_budget o' in
      run_then (track w (only_check (\<lambda>now. checkTokens b now 100 150 (call_cost p c))) s) (\<lambda>_ s.
      run_then (track w (\<lambda>now. recordProviderCostUnits b now (or_default (pc_units c) 1)) s) (\<lambda>_ s.
      run_then (track w (\<lambda>now. recordToolCall b now (Some (ct_asset (ro_candidate o'))) 1) s) (\<lambda>_ s.
        track w (\<lambda>now. recordProviderCall b now 1) s))))"

text \<open>The invocation, the actual tokens and the record of the call.\<close>

definition finish_call ::
  "world \<Rightarrow> run_options \<Rightarrow> model_profile \<Rightarrow> nat \<Rightarrow> planned_call \<Rightarrow> run_state \<Rightarrow> unit run \<times> run_state" where
  "finish_call w o' p stepIndex c s =
     (let startMs = now_of w s in
      run_then (invoke w o' p stepIndex c (tick s)) (\<lambda>r s.
      (let latency = max 0 (now_of w s - startMs) in
       run_then (track w (\<lambda>now. recordTokens (ro_budget o') now 100 150 (call_cost p c)) (tick s)) (\<lambda>_ s.
       (case toISO (Some (now_of w s)) of
          Inl e \<Rightarrow> (Inl (RunError e), s)
        | Inr at_time \<Rightarrow>
            (Inr (), (tick s)\<lparr>rs_records := rs_records s @
               [\<lparr>tl_call = pc_id c, tl_step = stepIndex, tl_tool = pc_tool c, tl_args = pc_args c,
                 tl_output = fst r, tl_error = snd r, tl_latency = latency, tl_at = at_time\<rparr>]\<rparr>))))))"

definition exec_call ::
  "world \<Rightarrow> run_options \<Rightarrow> model_profile \<Rightarrow> nat \<Rightarrow> planned_call \<Rightarrow> run_state \<Rightarrow> unit run \<times> run_state" where
  "exec_call w o' p stepIndex c s =
     run_then (look w s) (\<lambda>_ s.
     run_then (confine w o' p c s) (\<lambda>_ s.
     run_then (charge_call w o' p c s) (\<lambda>_ s.
       finish_call w o' p stepIndex c (count_call s))))"

section \<open>The loop\<close>

fun exec_calls ::
  "world \<Rightarrow> run_options \<Rightarrow> model_profile \<Rightarrow> nat \<Rightarrow> planned_call list \<Rightarrow> run_state \<Rightarrow> unit run \<times> run_state" where
  "exec_calls w o' p k [] s = (Inr (), s)"
| "exec_calls w o' p k (c # cs) s = run_then (exec_call w o' p k c s) (\<lambda>_. exec_calls w o' p k cs)"

definition exec_step ::
  "world \<Rightarrow> run_options \<Rightarrow> model_profile \<Rightarrow> plan_step \<Rightarrow> run_state \<Rightarrow> unit run \<times> run_state" where
  "exec_step w o' p st s =
     run_then (look w s) (\<lambda>_ s.
     run_then (track w (\<lambda>now. recordStep (ro_budget o') now 1) s) (\<lambda>_ s.
       exec_calls w o' p (ps_index st) (ps_calls st) (s\<lparr>rs_steps := Suc (rs_steps s)\<rparr>)))"

fun exec_steps ::
  "world \<Rightarrow> run_options \<Rightarrow> model_profile \<Rightarrow> plan_step list \<Rightarrow> run_state \<Rightarrow> unit run \<times> run_state" where
  "exec_steps w o' p [] s = (Inr (), s)"
| "exec_steps w o' p (st # sts) s =
     run_then (exec_step w o' p st s) (\<lambda>_ s.
       if ps_terminal st then (Inr (), s) else exec_steps w o' p sts s)"

section \<open>The decision of a run\<close>

definition succeeded :: "tool_record \<Rightarrow> bool" where
  "succeeded r = (given (tl_error r) = None)"

definition normalized_fields :: "jval option \<Rightarrow> (string \<times> jval) list" where
  "normalized_fields out =
     (case out of
        None \<Rightarrow> [(''raw'', VNull)]
      | Some v \<Rightarrow> (case v of VObj kvs \<Rightarrow> kvs | _ \<Rightarrow> [(''raw'', v)]))"

definition record_evidence :: "target \<Rightarrow> tool_record \<Rightarrow> evidence" where
  "record_evidence c r =
     \<lparr>ev_id = tl_call r, ev_entity = ct_asset c, ev_candidate = Some (ct_asset c), ev_asset = None,
      ev_provider = ''synthetic'', ev_operation = tl_tool r, ev_group = tl_tool r, ev_available = tl_at r,
      ev_fetched = tl_at r, ev_fields = normalized_fields (tl_output r), ev_quality = [''VALID''], ev_sha = None\<rparr>"

definition has_result :: "string list \<Rightarrow> tool_record list \<Rightarrow> bool" where
  "has_result tools rs = list_ex (\<lambda>r. succeeded r \<and> tl_tool r \<in> set tools) rs"

definition proposed_type :: "tool_record list \<Rightarrow> decision" where
  "proposed_type rs =
     (if rs = [] \<or> \<not> has_result [''dex.pairs'', ''token.profile''] rs \<and>
         \<not> has_result [''contract.audit'', ''risk.honeypot_scan''] rs
      then DcINSUFFICIENT_DATA
      else if list_ex (\<lambda>r. tl_error r \<noteq> None) rs then DcWATCH else DcALERT)"

definition run_proposal :: "target \<Rightarrow> tool_record list \<Rightarrow> proposal" where
  "run_proposal c rs =
     \<lparr>pr_decision = Some (proposed_type rs), pr_alert_class = None, pr_scenario = None, pr_tradability = None,
      pr_valid_until = None, pr_cost_policy = Some CpPASS, pr_social = None, pr_pack = None, pr_multi_view = None,
      pr_hazard = None, pr_novelty = None, pr_patterns = None, pr_artifacts = None, pr_lifecycle = LcQUALIFIED,
      pr_risk = (if list_ex (\<lambda>r. tl_error r \<noteq> None) rs then RkMEDIUM else RkLOW),
      pr_thesis = ''Deterministic bounded evaluation for '' @ ct_asset c,
      pr_counter = ''Potential latent liquidity or contract vulnerability'',
      pr_observed = Some (map (\<lambda>r. \<lparr>cl_claim = ''Executed tool '' @ tl_tool r, cl_evidence = [tl_call r],
        cl_confidence = Some CfHIGH\<rparr>) (filter succeeded rs)),
      pr_derived = Some [], pr_inferences = Some [], pr_hypotheses = Some [],
      pr_positive = Some (if has_result [''dex.pairs'', ''token.profile''] rs then [''VERIFIED_LIQUIDITY_PAIRS''] else []),
      pr_risks = Some (map (\<lambda>r. ''TOOL_EXECUTION_WARNING:'' @ tl_tool r) (filter (\<lambda>r. \<not> succeeded r) rs)),
      pr_missing = Some (if proposed_type rs = DcINSUFFICIENT_DATA
        then [\<lparr>mi_field = ''market_data'', mi_reason = ''No evidence gathered'', mi_severity = SevHIGH\<rparr>] else []),
      pr_conflicts = Some [],
      pr_invalidation = Some [''Liquidity dropped below 10k'', ''Ownership renouncement revoked''],
      pr_next_check = None, pr_assessment = CfHIGH\<rparr>"

definition run_decision_input :: "target \<Rightarrow> model_profile \<Rightarrow> tool_record list \<Rightarrow> string \<Rightarrow> decision_input" where
  "run_decision_input c p rs nowIso =
     \<lparr>di_candidate = c, di_profile = mp_id p, di_proposed = run_proposal c rs,
      di_evidence = fold (\<lambda>r m. assoc_set (tl_call r) (record_evidence c r) m) (filter succeeded rs) [],
      di_options = \<lparr>op_time = nowIso, op_max_fresh = None, op_groups = None, op_candidate = Some (ct_asset c),
        op_entity = Some (ct_asset c)\<rparr>,
      di_gates = Some \<lparr>pg_facts = Some 1, pg_evidence = Some 1, pg_groups = Some 1, pg_fresh = None,
        pg_validator = None, pg_critical = None\<rparr>,
      di_conflicts = None, di_critical = Some False, di_tradability = Some True\<rparr>"

definition lift_result :: "'a result \<Rightarrow> 'a run" where
  "lift_result r = (case r of Inl e \<Rightarrow> Inl (RunError e) | Inr a \<Rightarrow> Inr a)"

definition iso_now :: "world \<Rightarrow> run_state \<Rightarrow> string run \<times> run_state" where
  "iso_now w s = (lift_result (toISO (Some (now_of w s))), tick s)"

definition synthesizeDecision ::
  "world \<Rightarrow> target \<Rightarrow> model_profile \<Rightarrow> tool_record list \<Rightarrow> run_state \<Rightarrow> agent_decision run \<times> run_state" where
  "synthesizeDecision w c p rs s =
     run_then (iso_now w s) (\<lambda>nowIso s.
     run_then (iso_now w s) (\<lambda>validatedAt s.
       (lift_result (bind_result
          (decide (wo_engine w) (wo_sha w) (wo_lc w) validatedAt (run_decision_input c p rs nowIso))
          (\<lambda>r. Inr (dr_decision r))), s)))"

section \<open>\<open>execute\<close>\<close>

record run_result =
  rr_plan :: plan
  rr_decision :: agent_decision
  rr_records :: "tool_record list"
  rr_usage :: snapshot
  rr_steps :: nat
  rr_calls :: nat
  rr_completed :: string

definition when_check :: "bool \<Rightarrow> world \<Rightarrow> (int \<Rightarrow> usage \<Rightarrow> unit checked) \<Rightarrow> run_state \<Rightarrow> unit run \<times> run_state" where
  "when_check c w f s = (if c then track w (only_check f) s else (Inr (), s))"

definition at_most_zero :: "rat option \<Rightarrow> bool" where
  "at_most_zero x = (case x of None \<Rightarrow> False | Some l \<Rightarrow> l \<le> 0)"

definition less_than :: "rat option \<Rightarrow> rat \<Rightarrow> bool" where
  "less_than x m = (case x of None \<Rightarrow> False | Some l \<Rightarrow> l < m)"

definition preflight :: "world \<Rightarrow> run_options \<Rightarrow> model_profile \<Rightarrow> run_state \<Rightarrow> unit run \<times> run_state" where
  "preflight w o' p s =
     (let b = ro_budget o'; c = default_cost p;
          tools = filter (\<lambda>t. t \<in> set (en_tools (ro_envelope o'))) (mp_tools p); any = (tools \<noteq> []) in
      run_then (track w (only_check (\<lambda>now _. checkDeadline b now)) s) (\<lambda>_ s.
      run_then (when_check (bu_max_steps b \<le> 0) w (\<lambda>now. checkStep b now 1) s) (\<lambda>_ s.
      run_then (look w s) (\<lambda>_ s.
      run_then (when_check (any \<and> bu_max_tool_calls b \<le> 0) w
        (\<lambda>now. checkToolCall b now (Some (ct_asset (ro_candidate o'))) 1) s) (\<lambda>_ s.
      run_then (when_check (any \<and> at_most_zero (bu_max_provider_calls b)) w (\<lambda>now. checkProviderCall b now 1) s) (\<lambda>_ s.
      run_then (when_check (any \<and> at_most_zero (bu_max_units b)) w (\<lambda>now. checkProviderCostUnits b now 1) s) (\<lambda>_ s.
        when_check (any \<and> (less_than (bu_max_cost b) c \<or> less_than (bu_max_input_tokens b) 100 \<or>
          less_than (bu_max_output_tokens b) 150)) w (\<lambda>now. checkTokens b now 100 150 c) s)))))))"

definition run_planner_input :: "run_options \<Rightarrow> model_profile \<Rightarrow> planner_input" where
  "run_planner_input o' p =
     \<lparr>pi_candidate = ro_candidate o', pi_goal = ro_goal o', pi_profile = p, pi_envelope = ro_envelope o',
      pi_budget = ro_budget o', pi_evidence = map_option VObj (ro_evidence o'), pi_families = None,
      pi_seed = ro_seed o'\<rparr>"

definition lift_confined :: "'a confined \<Rightarrow> 'a run" where
  "lift_confined r =
     (case r of Inr a \<Rightarrow> Inr a | Inl (Violation v) \<Rightarrow> Inl (RunConfined v) | Inl (Thrown e) \<Rightarrow> Inl (RunError e))"

definition planning :: "world \<Rightarrow> run_options \<Rightarrow> model_profile \<Rightarrow> plan run" where
  "planning w o' p = lift_confined (make_plan (wo_engine w) (wo_sha w) (wo_lc w) (run_planner_input o' p))"

definition execute :: "world \<Rightarrow> run_options \<Rightarrow> run_result run \<times> run_state" where
  "execute w o' =
     run_then (lift_result (require_profile (ro_profile o') (ro_version o') (wo_registry w)), start_state o') (\<lambda>p s.
     run_then (preflight w o' p s) (\<lambda>_ s.
     run_then (planning w o' p, s) (\<lambda>plan s.
     run_then (synthesizeDecision w (ro_candidate o') p [] s) (\<lambda>_ s.
     run_then (exec_steps w o' p (pl_steps plan) s) (\<lambda>_ s.
     run_then (synthesizeDecision w (ro_candidate o') p (rs_records s) s) (\<lambda>d s.
     (let usage = getSnapshot (ro_budget o') (now_of w s) (rs_usage s) in
      run_then (iso_now w (tick s)) (\<lambda>completed s.
        (Inr \<lparr>rr_plan = plan, rr_decision = d, rr_records = rs_records s, rr_usage = usage,
           rr_steps = rs_steps s, rr_calls = rs_calls s, rr_completed = completed\<rparr>, s)))))))))"

section \<open>Default tools\<close>

definition default_tool_names :: "string list" where
  "default_tool_names =
     [''dex.pairs'', ''dex.screener'', ''token.profile'', ''holder.distribution'', ''contract.audit'',
      ''solana.transaction_trace'', ''pool.liquidity'', ''signal.score'', ''simulation.execution'',
      ''liquidity.lock'', ''simulation.sell'', ''risk.honeypot_scan'', ''market.summary'', ''schedule.inspect'',
      ''candidate.inspect'', ''run.inspect'', ''alert.inspect'', ''incident.list'']"

text \<open>The echo handler; what it reads of the signal and the clock at an invocation is an argument.\<close>

definition defaultEchoHandler :: "(nat \<Rightarrow> bool) \<Rightarrow> (nat \<Rightarrow> string) \<Rightarrow> handler" where
  "defaultEchoHandler aborted stamp n args ctx =
     (if aborted n then ThrewCancelled
      else Returned (VObj [(''status'', VStr ''OK''), (''assetId'', VStr (ct_asset (tc_candidate ctx))),
        (''chain'', VStr (ct_chain (tc_candidate ctx))), (''address'', VStr (ct_address (tc_candidate ctx))),
        (''parameters'', VObj args), (''timestamp'', VStr (stamp n))]))"

definition registerTool :: "string \<Rightarrow> handler \<Rightarrow> (string \<times> handler) list \<Rightarrow> (string \<times> handler) list" where
  "registerTool name h tools = assoc_set name h tools"

definition registerDefaultTools ::
  "(nat \<Rightarrow> bool) \<Rightarrow> (nat \<Rightarrow> string) \<Rightarrow> (string \<times> handler) list \<Rightarrow> (string \<times> handler) list" where
  "registerDefaultTools aborted stamp tools =
     fold (\<lambda>n. registerTool n (defaultEchoHandler aborted stamp)) default_tool_names tools"

end
