(* ===== verification/Runtime_Facts.thy ===== *)
theory Runtime_Facts
  imports Agent_Runtime
begin

text \<open>
  What a bounded run keeps, whatever its tools do and whenever it ends: the budget, and the
  confinement of every invocation.
\<close>

section \<open>The invariant\<close>

text \<open>\<open>k\<close> tool calls are recorded that are not invoked yet.\<close>

definition run_safe :: "world \<Rightarrow> run_options \<Rightarrow> model_profile \<Rightarrow> nat \<Rightarrow> run_state \<Rightarrow> bool" where
  "run_safe w o' p k s \<longleftrightarrow>
     within_budget (ro_budget o') (rs_usage s) \<and>
     of_nat (length (rs_invoked s) + k) \<le> us_tool_calls (rs_usage s) \<and>
     (\<forall>(tool, args)\<in>set (rs_invoked s).
        assertConforms (wo_engine w) tool args (ro_envelope o') (Some (mp_tools p)) = Inr ())"

lemma run_then_state:
  assumes "\<And>e s'. r = (Inl e, s') \<Longrightarrow> Q s'" "\<And>a s'. r = (Inr a, s') \<Longrightarrow> Q (snd (f a s'))"
  shows "Q (snd (run_then r f))"
proof -
  obtain x s' where r: "r = (x, s')" by (cases r)
  show ?thesis using assms by (cases x) (auto simp: r)
qed

lemma run_then_keeps:
  "Q (snd r) \<Longrightarrow> (\<And>a s. Q s \<Longrightarrow> Q (snd (f a s))) \<Longrightarrow> Q (snd (run_then r f))"
  by (rule run_then_state) auto

lemma run_safe_weaken: "run_safe w o' p k s \<Longrightarrow> run_safe w o' p 0 s"
  by (auto simp: run_safe_def)

lemma run_safe_same:
  "rs_usage s' = rs_usage s \<Longrightarrow> rs_invoked s' = rs_invoked s \<Longrightarrow> run_safe w o' p k s \<Longrightarrow> run_safe w o' p k s'"
  by (simp add: run_safe_def)

lemma look_safe: "run_safe w o' p k s \<Longrightarrow> run_safe w o' p k (snd (look w s))"
  by (erule run_safe_same [rotated 2]) (simp_all add: look_def)

lemma confine_state [simp]: "snd (confine w o' p c s) = s"
  by (simp add: confine_def)

section \<open>The tracker keeps it\<close>

definition tracked :: "agent_budget \<Rightarrow> (int \<Rightarrow> usage \<Rightarrow> unit checked \<times> usage) \<Rightarrow> bool" where
  "tracked b f \<longleftrightarrow>
     (\<forall>now u. within_budget b u \<longrightarrow> within_budget b (snd (f now u)) \<and> us_tool_calls u \<le> us_tool_calls (snd (f now u)))"

lemma track_state: "snd (track w f s) = (tick s)\<lparr>rs_usage := snd (f (now_of w s) (rs_usage s))\<rparr>"
  by (simp add: track_def split: prod.split)

lemma track_result:
  "fst (track w f s) = (case fst (f (now_of w s) (rs_usage s)) of Inl e \<Rightarrow> Inl (RunBudget e) | Inr _ \<Rightarrow> Inr ())"
  by (simp add: track_def split: prod.split)

lemma record_if_result: "fst (record_if c f u) = c" "snd (record_if c f u) = (if c = Inr () then f u else u)"
  by (auto simp: record_if_def split: sum.split)

lemma track_safe: "tracked (ro_budget o') f \<Longrightarrow> run_safe w o' p k s \<Longrightarrow> run_safe w o' p k (snd (track w f s))"
proof -
  assume "tracked (ro_budget o') f" and s: "run_safe w o' p k s"
  then have "within_budget (ro_budget o') (snd (f (now_of w s) (rs_usage s))) \<and>
      us_tool_calls (rs_usage s) \<le> us_tool_calls (snd (f (now_of w s) (rs_usage s)))"
    by (simp add: tracked_def run_safe_def)
  with s show ?thesis unfolding track_state run_safe_def tick_def by (auto intro: order_trans)
qed

lemma tracked_check [simp]: "tracked b (only_check f)"
  by (simp add: tracked_def only_check_def)

lemma calls_record_if: "us_tool_calls (f u) = us_tool_calls u \<Longrightarrow> us_tool_calls (snd (record_if c f u)) = us_tool_calls u"
  by (simp add: record_if_def split: sum.split)

lemma tracked_ops [simp]:
  "tracked b (\<lambda>now. recordStep b now n)" "tracked b (\<lambda>now. recordProviderCall b now n)"
  "tracked b (\<lambda>now. recordTokens b now i out cost)" "tracked b (\<lambda>now. recordProviderCostUnits b now n)"
proof -
  have w: "within_budget b u \<Longrightarrow> within_budget b (snd (recordStep b now n u))"
    "within_budget b u \<Longrightarrow> within_budget b (snd (recordProviderCall b now n u))"
    "within_budget b u \<Longrightarrow> within_budget b (snd (recordTokens b now i out cost u))"
    "within_budget b u \<Longrightarrow> within_budget b (snd (recordProviderCostUnits b now n u))" for u now
    using budget_exec_within [of b u "(now, StepOp n)"] budget_exec_within [of b u "(now, ProviderOp n)"]
      budget_exec_within [of b u "(now, TokensOp i out cost)"] budget_exec_within [of b u "(now, UnitsOp n)"]
    by simp_all
  have c: "us_tool_calls (snd (recordStep b now n u)) = us_tool_calls u"
    "us_tool_calls (snd (recordProviderCall b now n u)) = us_tool_calls u"
    "us_tool_calls (snd (recordTokens b now i out cost u)) = us_tool_calls u"
    "us_tool_calls (snd (recordProviderCostUnits b now n u)) = us_tool_calls u" for u now
    by (simp_all add: recordStep_def recordProviderCall_def recordTokens_def recordProviderCostUnits_def calls_record_if)
  show "tracked b (\<lambda>now. recordStep b now n)" "tracked b (\<lambda>now. recordProviderCall b now n)"
    "tracked b (\<lambda>now. recordTokens b now i out cost)" "tracked b (\<lambda>now. recordProviderCostUnits b now n)"
    by (simp_all add: tracked_def w c)
qed

lemma add_candidate_calls [simp]: "us_tool_calls (add_candidate c n u) = us_tool_calls u"
  by (simp add: add_candidate_def split: option.split)

lemma tool_call_counted:
  assumes "track w (\<lambda>now. recordToolCall (ro_budget o') now c 1) s = (Inr a, s')" "run_safe w o' p 0 s"
  shows "run_safe w o' p 1 s'"
proof -
  let ?u = "rs_usage s" and ?b = "ro_budget o'" and ?now = "now_of w s"
  have s': "s' = (tick s)\<lparr>rs_usage := snd (recordToolCall ?b ?now c 1 ?u)\<rparr>"
    using assms(1) track_state [of w "\<lambda>now. recordToolCall ?b now c 1" s] by simp
  have "checkToolCall ?b ?now c 1 ?u = Inr ()"
    using track_result [of w "\<lambda>now. recordToolCall ?b now c 1" s] assms(1)
    by (simp add: recordToolCall_def record_if_result split: sum.splits)
  then have "us_tool_calls (snd (recordToolCall ?b ?now c 1 ?u)) = us_tool_calls ?u + 1"
    by (simp add: recordToolCall_def record_if_result)
  moreover have "within_budget ?b (snd (recordToolCall ?b ?now c 1 ?u))"
    using budget_exec_within [of ?b ?u "(?now, ToolOp c 1)"] assms(2) by (simp add: run_safe_def)
  ultimately show ?thesis using assms(2) by (simp add: run_safe_def s' tick_def)
qed

lemma tool_call_failed:
  assumes "track w (\<lambda>now. recordToolCall (ro_budget o') now c 1) s = (Inl e, s')" "run_safe w o' p 0 s"
  shows "run_safe w o' p 0 s'"
proof -
  have s': "s' = (tick s)\<lparr>rs_usage := snd (recordToolCall (ro_budget o') (now_of w s) c 1 (rs_usage s))\<rparr>"
    using assms(1) track_state [of w "\<lambda>now. recordToolCall (ro_budget o') now c 1" s] by simp
  have "snd (recordToolCall (ro_budget o') (now_of w s) c 1 (rs_usage s)) = rs_usage s"
    using track_result [of w "\<lambda>now. recordToolCall (ro_budget o') now c 1" s] assms(1)
    by (simp add: recordToolCall_def record_if_result split: sum.splits)
  then show ?thesis using assms(2) by (simp add: run_safe_def s' tick_def)
qed

section \<open>A call, a step, the loop\<close>

lemma settle_same: "rs_usage (snd (settle w out s)) = rs_usage s" "rs_invoked (snd (settle w out s)) = rs_invoked s"
  by (simp_all add: settle_def run_then_def look_def split: tool_outcome.split)

lemma invoke_safe:
  assumes "run_safe w o' p 1 s" "assertConforms (wo_engine w) (pc_tool c) (pc_args c) (ro_envelope o') (Some (mp_tools p)) = Inr ()"
  shows "run_safe w o' p 0 (snd (invoke w o' p k c s))"
proof (cases "map_of (wo_tools w) (pc_tool c)")
  case None
  with assms(1) show ?thesis by (simp add: invoke_def run_safe_weaken)
next
  case (Some h)
  let ?s1 = "s\<lparr>rs_invoked := rs_invoked s @ [(pc_tool c, pc_args c)]\<rparr>"
  have s1: "run_safe w o' p 0 ?s1" using assms by (auto simp: run_safe_def)
  show ?thesis unfolding invoke_def Some Let_def option.case
  proof (rule run_then_keeps)
    show "run_safe w o' p 0 (snd (settle w (h (length (rs_invoked s)) (pc_args c)
        \<lparr>tc_candidate = ro_candidate o', tc_step = k, tc_call = pc_id c, tc_envelope = ro_envelope o', tc_profile = p\<rparr>) ?s1))"
      by (rule run_safe_same [OF settle_same s1])
  qed (auto simp: run_safe_def split: option.split)
qed

lemma tick_safe: "run_safe w o' p k s \<Longrightarrow> run_safe w o' p k (tick s)"
  by (rule run_safe_same) (simp_all add: tick_def)

lemma count_safe: "run_safe w o' p k s \<Longrightarrow> run_safe w o' p k (count_call s)"
  by (rule run_safe_same) (simp_all add: count_call_def)

lemma charge_safe:
  assumes "run_safe w o' p 0 s"
  shows "run_safe w o' p 0 (snd (charge_call w o' p c s)) \<and>
    (\<forall>a s'. charge_call w o' p c s = (Inr a, s') \<longrightarrow> run_safe w o' p 1 s')"
proof -
  let ?b = "ro_budget o'"
  let ?provider = "\<lambda>s. track w (\<lambda>now. recordProviderCall ?b now 1) s"
  let ?tool = "\<lambda>s. run_then (track w (\<lambda>now. recordToolCall ?b now (Some (ct_asset (ro_candidate o'))) 1) s) (\<lambda>_. ?provider)"
  define Q :: "unit run \<times> run_state \<Rightarrow> bool" where
    "Q r \<longleftrightarrow> run_safe w o' p 0 (snd r) \<and> (\<forall>a s'. r = (Inr a, s') \<longrightarrow> run_safe w o' p 1 s')" for r
  have tool: "Q (?tool s)" if s: "run_safe w o' p 0 s" for s
  proof -
    obtain x s1 where x: "track w (\<lambda>now. recordToolCall ?b now (Some (ct_asset (ro_candidate o'))) 1) s = (x, s1)"
      by (cases "track w (\<lambda>now. recordToolCall ?b now (Some (ct_asset (ro_candidate o'))) 1) s")
    show ?thesis
    proof (cases x)
      case (Inl e)
      with x tool_call_failed [of w o' "Some (ct_asset (ro_candidate o'))" s e s1 p] s show ?thesis by (simp add: Q_def)
    next
      case (Inr a)
      have "run_safe w o' p 1 (snd (?provider s1))"
        by (rule track_safe [OF tracked_ops(2) tool_call_counted [OF x [unfolded Inr] s]])
      with x Inr show ?thesis by (auto simp: Q_def intro: run_safe_weaken)
    qed
  qed
  have pass: "Q (run_then (track w f s) g)"
    if "tracked ?b f" "run_safe w o' p 0 s" "\<And>s. run_safe w o' p 0 s \<Longrightarrow> Q (g () s)" for f s g
    using track_safe [OF that(1,2)] that(3)
    by (cases "track w f s"; cases "fst (track w f s)") (auto simp: Q_def)
  have "Q (charge_call w o' p c s)"
    unfolding charge_call_def Let_def
    by (rule pass [OF tracked_check assms], rule pass [OF tracked_ops(4)], assumption, erule tool)
  then show ?thesis by (simp add: Q_def)
qed

lemma finish_safe:
  assumes "run_safe w o' p 1 s" "assertConforms (wo_engine w) (pc_tool c) (pc_args c) (ro_envelope o') (Some (mp_tools p)) = Inr ()"
  shows "run_safe w o' p 0 (snd (finish_call w o' p k c s))"
  unfolding finish_call_def Let_def
proof (rule run_then_keeps)
  show "run_safe w o' p 0 (snd (invoke w o' p k c (tick s)))"
    by (intro invoke_safe [OF _ assms(2)] tick_safe assms(1))
  fix r s1
  assume s1: "run_safe w o' p 0 s1"
  let ?rec = "\<lambda>s2 at_time. rs_records s2 @ [\<lparr>tl_call = pc_id c, tl_step = k, tl_tool = pc_tool c, tl_args = pc_args c,
     tl_output = fst r, tl_error = snd r, tl_latency = max 0 (now_of w s1 - now_of w s), tl_at = at_time\<rparr>]"
  show "run_safe w o' p 0 (snd (run_then
      (track w (\<lambda>now. recordTokens (ro_budget o') now 100 150 (call_cost p c)) (tick s1)) (\<lambda>_ s2.
      (case toISO (Some (now_of w s2)) of
         Inl e \<Rightarrow> (Inl (RunError e), s2)
       | Inr at_time \<Rightarrow> (Inr (), (tick s2)\<lparr>rs_records := ?rec s2 at_time\<rparr>)))))"
  proof (rule run_then_keeps)
    show "run_safe w o' p 0 (snd (track w (\<lambda>now. recordTokens (ro_budget o') now 100 150 (call_cost p c)) (tick s1)))"
      by (intro track_safe tracked_ops tick_safe s1)
    fix a s2
    assume "run_safe w o' p 0 s2"
    then show "run_safe w o' p 0 (snd (case toISO (Some (now_of w s2)) of
         Inl e \<Rightarrow> (Inl (RunError e), s2)
       | Inr at_time \<Rightarrow> (Inr (), (tick s2)\<lparr>rs_records := ?rec s2 at_time\<rparr>)))"
      by (auto simp: run_safe_def tick_def split: sum.split)
  qed
qed

lemma exec_call_safe:
  assumes "run_safe w o' p 0 s"
  shows "run_safe w o' p 0 (snd (exec_call w o' p k c s))"
  unfolding exec_call_def
proof (rule run_then_keeps, rule look_safe [OF assms])
  fix a s
  assume s: "run_safe w o' p 0 s"
  show "run_safe w o' p 0 (snd (run_then (confine w o' p c s) (\<lambda>_ s.
     run_then (charge_call w o' p c s) (\<lambda>_ s. finish_call w o' p k c (count_call s)))))"
  proof (rule run_then_state)
    fix e s'
    assume "confine w o' p c s = (Inl e, s')"
    then have "s' = s" using confine_state [of w o' p c s] by simp
    with s show "run_safe w o' p 0 s'" by simp
  next
    fix a s'
    assume "confine w o' p c s = (Inr a, s')"
    then have conf: "assertConforms (wo_engine w) (pc_tool c) (pc_args c) (ro_envelope o') (Some (mp_tools p)) = Inr ()"
      and s': "s' = s" by (auto simp: confine_def split: sum.splits conf_error.splits)
    show "run_safe w o' p 0 (snd (run_then (charge_call w o' p c s') (\<lambda>_ s. finish_call w o' p k c (count_call s))))"
      unfolding s'
    proof (rule run_then_state)
      fix e s2
      assume "charge_call w o' p c s = (Inl e, s2)"
      then show "run_safe w o' p 0 s2" using charge_safe [OF s, of c] by simp
    next
      fix a s2
      assume "charge_call w o' p c s = (Inr a, s2)"
      then have "run_safe w o' p 1 s2" using charge_safe [OF s, of c] by simp
      then show "run_safe w o' p 0 (snd (finish_call w o' p k c (count_call s2)))"
        by (intro finish_safe [OF _ conf] count_safe)
    qed
  qed
qed

lemmas safe_keeps = run_then_keeps [where Q = "run_safe w o' p 0" for w o' p]

lemma exec_calls_safe: "run_safe w o' p 0 s \<Longrightarrow> run_safe w o' p 0 (snd (exec_calls w o' p k cs s))"
proof (induction cs arbitrary: s)
  case Nil
  then show ?case by simp
next
  case (Cons c cs)
  show ?case unfolding exec_calls.simps by (rule safe_keeps [OF exec_call_safe [OF Cons.prems] Cons.IH])
qed

lemma exec_step_safe:
  assumes "run_safe w o' p 0 s"
  shows "run_safe w o' p 0 (snd (exec_step w o' p st s))"
  unfolding exec_step_def
proof (rule safe_keeps [OF look_safe [OF assms]])
  fix a s
  assume s: "run_safe w o' p 0 s"
  show "run_safe w o' p 0 (snd (run_then (track w (\<lambda>now. recordStep (ro_budget o') now 1) s) (\<lambda>_ s.
       exec_calls w o' p (ps_index st) (ps_calls st) (s\<lparr>rs_steps := Suc (rs_steps s)\<rparr>))))"
  proof (rule safe_keeps [OF track_safe [OF tracked_ops(1) s]])
    fix a s
    assume "run_safe w o' p 0 s"
    then have "run_safe w o' p 0 (s\<lparr>rs_steps := Suc (rs_steps s)\<rparr>)" by (simp add: run_safe_def)
    then show "run_safe w o' p 0 (snd (exec_calls w o' p (ps_index st) (ps_calls st) (s\<lparr>rs_steps := Suc (rs_steps s)\<rparr>)))"
      by (rule exec_calls_safe)
  qed
qed

lemma exec_steps_safe: "run_safe w o' p 0 s \<Longrightarrow> run_safe w o' p 0 (snd (exec_steps w o' p sts s))"
proof (induction sts arbitrary: s)
  case Nil
  then show ?case by simp
next
  case (Cons st sts)
  show ?case unfolding exec_steps.simps
    by (rule safe_keeps [OF exec_step_safe [OF Cons.prems]]) (simp add: Cons.IH)
qed

end
