(* ===== verification/Runtime_Claims.thy ===== *)
theory Runtime_Claims
  imports Runtime_Facts
begin

text \<open>
  Properties of bounded runs: what no run ever does, whatever the tools do and however it ends, when
  a run carries its whole plan out, and what an alert of a run says about its tool calls.
\<close>

section \<open>Safety\<close>

lemma only_check_safe: "run_safe w o' p k s \<Longrightarrow> run_safe w o' p k (snd (track w (only_check f) s))"
  by (rule track_safe [OF tracked_check])

lemma when_check_safe: "run_safe w o' p k s \<Longrightarrow> run_safe w o' p k (snd (when_check c w f s))"
  by (simp add: when_check_def only_check_safe)

lemma preflight_safe: "run_safe w o' p k s \<Longrightarrow> run_safe w o' p k (snd (preflight w o' p s))"
  unfolding preflight_def Let_def
  by (assumption | rule run_then_keeps [where Q = "run_safe w o' p k"] only_check_safe when_check_safe look_safe)+

lemma iso_now_safe: "run_safe w o' p k s \<Longrightarrow> run_safe w o' p k (snd (iso_now w s))"
  by (simp add: iso_now_def tick_safe)

lemma synthesize_safe: "run_safe w o' p k s \<Longrightarrow> run_safe w o' p k (snd (synthesizeDecision w c q rs s))"
  unfolding synthesizeDecision_def
  by (rule run_then_keeps [where Q = "run_safe w o' p k"], erule iso_now_safe,
      rule run_then_keeps [where Q = "run_safe w o' p k"], erule iso_now_safe, simp)

definition fair_budget :: "agent_budget \<Rightarrow> bool" where
  "fair_budget b \<longleftrightarrow>
     0 \<le> bu_max_steps b \<and> 0 \<le> bu_max_tool_calls b \<and> under (bu_max_provider_calls b) 0 \<and>
     under (bu_max_input_tokens b) 0 \<and> under (bu_max_output_tokens b) 0 \<and> under (bu_max_cost b) 0 \<and>
     under (bu_max_units b) 0"

lemma start_within: "fair_budget (ro_budget o') \<Longrightarrow> within_budget (ro_budget o') no_usage"
  by (simp add: fair_budget_def within_budget_def no_usage_def)

lemma start_safe: "fair_budget (ro_budget o') \<Longrightarrow> run_safe w o' p 0 (start_state o')"
  by (simp add: run_safe_def start_state_def start_within) (simp add: no_usage_def)

lemma execute_safe:
  assumes "fair_budget (ro_budget o')" "require_profile (ro_profile o') (ro_version o') (wo_registry w) = Inr p"
  shows "run_safe w o' p 0 (snd (execute w o'))"
  unfolding execute_def assms(2) lift_result_def sum.case run_then_simps Let_def
proof (rule safe_keeps [OF preflight_safe [OF start_safe [OF assms(1)]]], rule safe_keeps, simp)
  fix plan s
  assume "run_safe w o' p 0 s"
  then show "run_safe w o' p 0 (snd (run_then (synthesizeDecision w (ro_candidate o') p [] s) (\<lambda>_ s.
     run_then (exec_steps w o' p (pl_steps plan) s) (\<lambda>_ s.
     run_then (synthesizeDecision w (ro_candidate o') p (rs_records s) s) (\<lambda>d s.
     run_then (iso_now w (tick s)) (\<lambda>completed s'.
        (Inr \<lparr>rr_plan = plan, rr_decision = d, rr_records = rs_records s',
           rr_usage = getSnapshot (ro_budget o') (now_of w s) (rs_usage s),
           rr_steps = rs_steps s', rr_calls = rs_calls s', rr_completed = completed\<rparr>, s')))))))"
    by (intro safe_keeps [OF synthesize_safe] safe_keeps [OF exec_steps_safe] safe_keeps [OF iso_now_safe])
      (simp_all add: tick_safe)
qed

text \<open>C4. Whatever the tools answer and however a run ends, by a result, a spent budget, a passed deadline,
  an abort, a confinement violation or a missing handler: no counter passes its limit, there were no
  more invocations of tools than the budget allows, and every invocation was of a tool that the
  profile declares and the envelope allows, with arguments that satisfy the envelope at every depth.\<close>

theorem bounded_run_is_safe:
  assumes "fair_budget (ro_budget o')"
  shows "within_budget (ro_budget o') (rs_usage (snd (execute w o'))) \<and>
    of_nat (length (rs_invoked (snd (execute w o')))) \<le> bu_max_tool_calls (ro_budget o') \<and>
    (\<forall>(tool, args)\<in>set (rs_invoked (snd (execute w o'))).
       tool \<in> set (en_tools (ro_envelope o')) \<and>
       (\<exists>p. require_profile (ro_profile o') (ro_version o') (wo_registry w) = Inr p \<and> tool \<in> set (mp_tools p)) \<and>
       (\<forall>k v. member_at (VObj args) k v \<longrightarrow> member_ok (wo_engine w) (ro_envelope o') k v))"
proof (cases "require_profile (ro_profile o') (ro_version o') (wo_registry w)")
  case (Inl e)
  then show ?thesis using assms start_within [OF assms]
    by (simp add: execute_def lift_result_def start_state_def fair_budget_def)
next
  case (Inr p)
  note safe = execute_safe [OF assms Inr, unfolded run_safe_def]
  then have "of_nat (length (rs_invoked (snd (execute w o')))) \<le> bu_max_tool_calls (ro_budget o')"
    unfolding within_budget_def by (elim conjE) simp
  moreover have "\<forall>(tool, args)\<in>set (rs_invoked (snd (execute w o'))).
       tool \<in> set (en_tools (ro_envelope o')) \<and> tool \<in> set (mp_tools p) \<and>
       (\<forall>k v. member_at (VObj args) k v \<longrightarrow> member_ok (wo_engine w) (ro_envelope o') k v)"
    using safe unfolding assertConforms_iff by blast
  ultimately show ?thesis using safe Inr by auto
qed

section \<open>An example\<close>

definition demo_world :: world where
  "demo_world = \<lparr>wo_engine = demo_engine, wo_sha = no_sha, wo_lc = (\<lambda>_ _. 0), wo_clock = (\<lambda>n. 0),
     wo_aborted = (\<lambda>_. False), wo_tools = registerDefaultTools (\<lambda>_. False) (\<lambda>_. ''t'') [],
     wo_registry = [(''fast-triage-v1'', pi_profile plan_demo)]\<rparr>"

definition demo_run :: run_options where
  "demo_run = \<lparr>ro_candidate = pi_candidate plan_demo, ro_profile = ''fast-triage-v1'', ro_version = None,
     ro_envelope = pi_envelope plan_demo, ro_budget = pi_budget plan_demo, ro_goal = None, ro_evidence = None,
     ro_seed = None\<rparr>"

lemma demo_run_fair: "fair_budget (ro_budget demo_run)"
  by (simp add: fair_budget_def demo_run_def plan_demo_def)

theorem bounded_run_is_safe_witness:
  "of_nat (length (rs_invoked (snd (execute demo_world demo_run)))) \<le> (1::rat)"
  using bounded_run_is_safe [OF demo_run_fair, of demo_world] by (simp add: demo_run_def plan_demo_def)

end
