(* ===== verification/Runtime_Progress.thy ===== *)
theory Runtime_Progress
  imports Runtime_Claims Decision_Facts
begin

text \<open>
  When a bounded run carries its plan out: the state after every planned call, and the completion of
  a run whose tools answer, whose clock can be printed and whose budget is not the limit.
\<close>

section \<open>What a run has done\<close>

definition call_text :: "planned_call \<Rightarrow> string \<times> string \<times> (string \<times> jval) list" where
  "call_text c = (pc_id c, pc_tool c, pc_args c)"

definition record_text :: "tool_record \<Rightarrow> string \<times> string \<times> (string \<times> jval) list" where
  "record_text r = (tl_call r, tl_tool r, tl_args r)"

text \<open>\<open>m\<close> steps were begun and exactly the calls \<open>cs\<close> were made, charged and recorded.\<close>

definition ran :: "run_options \<Rightarrow> model_profile \<Rightarrow> nat \<Rightarrow> planned_call list \<Rightarrow> run_state \<Rightarrow> bool" where
  "ran o' p m cs s \<longleftrightarrow>
     us_steps (rs_usage s) = of_nat m \<and> us_tool_calls (rs_usage s) = of_nat (length cs) \<and>
     candidate_calls (rs_usage s) (ct_asset (ro_candidate o')) \<le> of_nat (length cs) \<and>
     us_provider_calls (rs_usage s) = of_nat (length cs) \<and> us_input (rs_usage s) = of_nat (length cs) * 100 \<and>
     us_output (rs_usage s) = of_nat (length cs) * 150 \<and>
     us_cost (rs_usage s) = of_nat (length cs) * estimateToolCost p \<and> us_units (rs_usage s) = of_nat (length cs) \<and>
     rs_steps s = m \<and> rs_calls s = length cs \<and> map record_text (rs_records s) = map call_text cs"

text \<open>The budget has room for \<open>m\<close> steps and \<open>n\<close> calls and no reading of the clock is past its deadline.\<close>

definition room_for :: "world \<Rightarrow> run_options \<Rightarrow> model_profile \<Rightarrow> nat \<Rightarrow> nat \<Rightarrow> bool" where
  "room_for w o' p m n \<longleftrightarrow>
     (let b = ro_budget o' in
      (\<forall>k. deadline_passed b (wo_clock w k) = None) \<and> of_nat m \<le> bu_max_steps b \<and>
      of_nat n \<le> bu_max_tool_calls b \<and> under (bu_max_per_candidate b) (of_nat n) \<and>
      under (bu_max_provider_calls b) (of_nat n) \<and> under (bu_max_input_tokens b) (of_nat n * 100) \<and>
      under (bu_max_output_tokens b) (of_nat n * 150) \<and> under (bu_max_cost b) (of_nat n * estimateToolCost p) \<and>
      under (bu_max_units b) (of_nat n))"

text \<open>No abort, a printable clock, and a tool that returns or throws an error that is recorded.\<close>

definition calm :: "world \<Rightarrow> bool" where
  "calm w \<longleftrightarrow> (\<forall>n. \<not> wo_aborted w n) \<and> (\<forall>n. \<bar>wo_clock w n\<bar> \<le> max_time)"

definition answers :: "world \<Rightarrow> string \<Rightarrow> bool" where
  "answers w tool \<longleftrightarrow>
     (\<exists>h. map_of (wo_tools w) tool = Some h \<and>
        (\<forall>n args ctx. (\<exists>v. h n args ctx = Returned v) \<or> (\<exists>msg. h n args ctx = ThrewOther msg)))"

lemma under_mono: "under l y \<Longrightarrow> x \<le> y \<Longrightarrow> under l x"
  by (cases l) auto

lemma under_times: "under l (of_nat n * x) \<Longrightarrow> 0 \<le> x \<Longrightarrow> k \<le> n \<Longrightarrow> under l (of_nat k * (x :: rat))"
  by (erule under_mono) (simp add: mult_right_mono)

section \<open>Readings\<close>

lemma look_calm: "calm w \<Longrightarrow> look w s = (Inr (), s\<lparr>rs_looks := Suc (rs_looks s)\<rparr>)"
  by (simp add: look_def calm_def)

lemma iso_calm: "calm w \<Longrightarrow> \<exists>t. toISO (Some (now_of w s)) = Inr t"
  by (simp add: calm_def now_of_def)

lemma track_free:
  assumes "f (now_of w s) (rs_usage s) = (Inr (), u)"
  shows "track w f s = (Inr (), (tick s)\<lparr>rs_usage := u\<rparr>)"
  by (simp add: track_def assms)

lemma free_checks:
  assumes "deadline_passed b now = None"
  shows "us_steps u + n \<le> bu_max_steps b \<Longrightarrow> recordStep b now n u = (Inr (), u\<lparr>us_steps := us_steps u + n\<rparr>)"
    and "us_tool_calls u + n \<le> bu_max_tool_calls b \<Longrightarrow>
      under (bu_max_per_candidate b) (candidate_calls u c + n) \<Longrightarrow>
      recordToolCall b now (Some c) n u = (Inr (), add_candidate (Some c) n (u\<lparr>us_tool_calls := us_tool_calls u + n\<rparr>))"
    and "under (bu_max_provider_calls b) (us_provider_calls u + n) \<Longrightarrow>
      recordProviderCall b now n u = (Inr (), u\<lparr>us_provider_calls := us_provider_calls u + n\<rparr>)"
    and "under (bu_max_input_tokens b) (us_input u + i) \<Longrightarrow> under (bu_max_output_tokens b) (us_output u + out) \<Longrightarrow>
      under (bu_max_cost b) (us_cost u + cost) \<Longrightarrow> checkTokens b now i out cost u = Inr ()"
    and "under (bu_max_units b) (us_units u + n) \<Longrightarrow>
      recordProviderCostUnits b now n u = (Inr (), u\<lparr>us_units := us_units u + n\<rparr>)"
  using assms
  by (simp_all add: recordStep_def recordToolCall_def recordProviderCall_def recordProviderCostUnits_def record_if_def
      checkStep_def checkToolCall_def checkProviderCall_def checkTokens_def checkProviderCostUnits_def checkDeadline_def
      next_check_def limit_check_def under_def split: option.splits)

section \<open>A call\<close>

lemma candidate_calls_add:
  "candidate_calls (add_candidate (Some c) 1 u) c \<le> candidate_calls u c + 1"
  by (cases "c = []") (simp_all add: add_candidate_def candidate_calls_def)

lemma add_candidate_same [simp]:
  "us_steps (add_candidate c n u) = us_steps u" "us_provider_calls (add_candidate c n u) = us_provider_calls u"
  "us_input (add_candidate c n u) = us_input u" "us_output (add_candidate c n u) = us_output u"
  "us_cost (add_candidate c n u) = us_cost u" "us_units (add_candidate c n u) = us_units u"
  by (simp_all add: add_candidate_def split: option.split)

lemma candidate_calls_same [simp]:
  "candidate_calls (u\<lparr>us_tool_calls := x\<rparr>) c = candidate_calls u c"
  "candidate_calls (u\<lparr>us_provider_calls := x\<rparr>) c = candidate_calls u c"
  "candidate_calls (u\<lparr>us_units := x\<rparr>) c = candidate_calls u c"
  "candidate_calls (u\<lparr>us_steps := x\<rparr>) c = candidate_calls u c"
  "candidate_calls (u\<lparr>us_input := x, us_output := y, us_cost := z\<rparr>) c = candidate_calls u c"
  by (simp_all add: candidate_calls_def)

text \<open>The charges of one more call.\<close>

definition charged :: "run_options \<Rightarrow> usage \<Rightarrow> usage" where
  "charged o' u =
     (let a = add_candidate (Some (ct_asset (ro_candidate o'))) 1
        (u\<lparr>us_units := us_units u + 1, us_tool_calls := us_tool_calls u + 1\<rparr>)
      in a\<lparr>us_provider_calls := us_provider_calls a + 1\<rparr>)"

lemma tick_same [simp]:
  "rs_usage (tick s) = rs_usage s" "rs_steps (tick s) = rs_steps s" "rs_calls (tick s) = rs_calls s"
  "rs_records (tick s) = rs_records s" "rs_invoked (tick s) = rs_invoked s" "rs_evidence (tick s) = rs_evidence s"
  by (simp_all add: tick_def)

lemma room_deadline: "room_for w o' p m n \<Longrightarrow> deadline_passed (ro_budget o') (now_of w s) = None"
  by (simp add: room_for_def now_of_def Let_def)

lemma charge_runs:
  assumes "ran o' p m cs s" "room_for w o' p m (Suc (length cs))" "call_cost p c = estimateToolCost p" "pc_units c = Some 1"
  shows "\<exists>s'. charge_call w o' p c s = (Inr (), s') \<and> rs_usage s' = charged o' (rs_usage s) \<and>
    rs_steps s' = rs_steps s \<and> rs_calls s' = rs_calls s \<and> rs_records s' = rs_records s \<and>
    rs_evidence s' = rs_evidence s \<and> rs_invoked s' = rs_invoked s"
proof -
  let ?b = "ro_budget o'" and ?u = "rs_usage s" and ?k = "Some (ct_asset (ro_candidate o'))"
  let ?u1 = "?u\<lparr>us_units := us_units ?u + 1\<rparr>"
  let ?u2 = "add_candidate ?k 1 (?u\<lparr>us_units := us_units ?u + 1, us_tool_calls := us_tool_calls ?u + 1\<rparr>)"
  note r = assms(1) [unfolded ran_def] and room = assms(2) [unfolded room_for_def Let_def]
  note free = free_checks [OF room_deadline [OF assms(2)]]
  have tokens: "checkTokens ?b (now_of w s1) 100 150 (call_cost p c) ?u = Inr ()" for s1
    using r room by (intro free) (simp_all add: assms(3) distrib_right add.commute)
  have units: "recordProviderCostUnits ?b (now_of w s1) 1 ?u = (Inr (), ?u1)" for s1
    using r room by (intro free) (simp add: add.commute)
  have "under (bu_max_per_candidate ?b) (candidate_calls ?u1 (ct_asset (ro_candidate o')) + 1)"
    by (rule under_mono [of _ "of_nat (Suc (length cs))"]) (use r room in \<open>simp_all\<close>)
  then have tool: "recordToolCall ?b (now_of w s1) ?k 1 ?u1 = (Inr (), ?u2)" for s1
    using r room by (subst free) (simp_all add: add.commute)
  have provider: "recordProviderCall ?b (now_of w s1) 1 ?u2 = (Inr (), ?u2\<lparr>us_provider_calls := us_provider_calls ?u + 1\<rparr>)" for s1
    using r room by (subst free) (simp_all add: add.commute)
  have units1: "or_default (pc_units c) 1 = 1" by (simp add: assms(4) or_default_def)
  show ?thesis
    unfolding charge_call_def Let_def
    by (simp add: track_def only_check_def tokens units tool provider units1 tick_def charged_def Let_def)
qed

lemma invoke_runs:
  assumes "calm w" "answers w (pc_tool c)"
  shows "\<exists>r s'. invoke w o' p k c s = (Inr r, s') \<and> rs_usage s' = rs_usage s \<and> rs_steps s' = rs_steps s \<and>
    rs_calls s' = rs_calls s \<and> rs_records s' = rs_records s"
proof -
  obtain h where h: "map_of (wo_tools w) (pc_tool c) = Some h"
    "\<And>n args ctx. (\<exists>v. h n args ctx = Returned v) \<or> (\<exists>msg. h n args ctx = ThrewOther msg)"
    using assms(2) by (auto simp: answers_def)
  let ?ctx = "\<lparr>tc_candidate = ro_candidate o', tc_step = k, tc_call = pc_id c, tc_envelope = ro_envelope o', tc_profile = p\<rparr>"
  from h(2) [of "length (rs_invoked s)" "pc_args c" ?ctx] show ?thesis
    by (auto simp: invoke_def h(1) Let_def settle_def look_calm [OF assms(1)])
qed

lemma call_runs:
  assumes "ran o' p m cs s" "room_for w o' p m (Suc (length cs))" "calm w" "answers w (pc_tool c)"
    and "call_ok (wo_engine w) (run_planner_input o' p) c"
  shows "\<exists>s'. exec_call w o' p k c s = (Inr (), s') \<and> ran o' p m (cs @ [c]) s'"
proof -
  have conf: "assertConforms (wo_engine w) (pc_tool c) (pc_args c) (ro_envelope o') (Some (mp_tools p)) = Inr ()"
    using assms(5) unfolding call_ok_def by (elim conjE) (simp only: run_planner_input_def planner_input.simps)
  have ok: "call_cost p c = estimateToolCost p" "pc_units c = Some 1"
    using assms(5) by (simp_all add: call_ok_def run_planner_input_def call_cost_def)
  let ?s0 = "s\<lparr>rs_looks := Suc (rs_looks s)\<rparr>"
  have r0: "ran o' p m cs ?s0" using assms(1) by (simp add: ran_def)
  obtain s1 where s1: "charge_call w o' p c ?s0 = (Inr (), s1)" "rs_usage s1 = charged o' (rs_usage s)"
    "rs_steps s1 = rs_steps s" "rs_calls s1 = rs_calls s" "rs_records s1 = rs_records s"
    using charge_runs [OF r0 assms(2) ok] by auto
  obtain r s2 where s2: "invoke w o' p k c (tick (count_call s1)) = (Inr r, s2)" "rs_usage s2 = charged o' (rs_usage s)"
    "rs_steps s2 = m" "rs_calls s2 = Suc (length cs)" "rs_records s2 = rs_records s"
    using invoke_runs [OF assms(3,4), of o' p k "tick (count_call s1)"] s1 assms(1)
    by (auto simp: count_call_def ran_def)
  let ?u = "charged o' (rs_usage s)"
  let ?u' = "?u\<lparr>us_input := us_input ?u + 100, us_output := us_output ?u + 150, us_cost := us_cost ?u + estimateToolCost p\<rparr>"
  note r = assms(1) [unfolded ran_def] and room = assms(2) [unfolded room_for_def Let_def]
  have same: "us_input ?u = us_input (rs_usage s)" "us_output ?u = us_output (rs_usage s)" "us_cost ?u = us_cost (rs_usage s)"
    "us_steps ?u = us_steps (rs_usage s)" "us_tool_calls ?u = us_tool_calls (rs_usage s) + 1"
    "us_provider_calls ?u = us_provider_calls (rs_usage s) + 1" "us_units ?u = us_units (rs_usage s) + 1"
    by (simp_all add: charged_def Let_def)
  have "checkTokens (ro_budget o') (now_of w s3) 100 150 (call_cost p c) ?u = Inr ()" for s3
    using r room by (intro free_checks [OF room_deadline [OF assms(2)]])
      (simp_all add: ok(1) same distrib_right add.commute)
  then have tokens: "recordTokens (ro_budget o') (now_of w s3) 100 150 (call_cost p c) ?u = (Inr (), ?u')" for s3
    by (simp add: recordTokens_def record_if_def ok(1))
  obtain t where t: "toISO (Some (now_of w ((tick (tick s2))\<lparr>rs_usage := ?u'\<rparr>))) = Inr t"
    using iso_calm [OF assms(3)] by blast
  have track: "track w (\<lambda>now. recordTokens (ro_budget o') now 100 150 (call_cost p c)) (tick s2) =
      (Inr (), (tick (tick s2))\<lparr>rs_usage := ?u'\<rparr>)"
    by (rule track_free) (simp add: s2(2) tokens)
  define s' where "s' = snd (finish_call w o' p k c (count_call s1))"
  have fin: "finish_call w o' p k c (count_call s1) = (Inr (), s')" and "rs_usage s' = ?u'" "rs_steps s' = m"
    "rs_calls s' = Suc (length cs)" "map record_text (rs_records s') = map record_text (rs_records s) @ [call_text c]"
    unfolding s'_def finish_call_def Let_def s2(1) run_then_simps track t sum.case
    by (simp_all add: s2 record_text_def call_text_def)
  moreover have "candidate_calls ?u (ct_asset (ro_candidate o')) \<le> candidate_calls (rs_usage s) (ct_asset (ro_candidate o')) + 1"
    using candidate_calls_add [of "ct_asset (ro_candidate o')" "rs_usage s\<lparr>us_units := us_units (rs_usage s) + 1,
        us_tool_calls := us_tool_calls (rs_usage s) + 1\<rparr>"]
    by (simp add: charged_def Let_def candidate_calls_def)
  ultimately have "ran o' p m (cs @ [c]) s'"
    using r by (simp add: ran_def same distrib_right candidate_calls_same)
  moreover have "exec_call w o' p k c s = (Inr (), s')"
    by (simp add: exec_call_def look_calm [OF assms(3)] confine_def conf s1(1) fin)
  ultimately show ?thesis by blast
qed

section \<open>Steps\<close>

lemma room_less:
  assumes "room_for w o' p m n" "0 \<le> estimateToolCost p" "m' \<le> m" "n' \<le> n"
  shows "room_for w o' p m' n'"
proof -
  have le: "(of_nat m' :: rat) \<le> of_nat m" "(of_nat n' :: rat) \<le> of_nat n" using assms(3,4) by simp_all
  have u: "under l (of_nat n) \<Longrightarrow> under l (of_nat n')" for l by (erule under_mono) (rule le(2))
  have x: "under l (of_nat n * x) \<Longrightarrow> 0 \<le> x \<Longrightarrow> under l (of_nat n' * x)" for l x
    by (rule under_times [OF _ _ assms(4)])
  note r = assms(1) [unfolded room_for_def Let_def]
  have caps: "of_nat m' \<le> bu_max_steps (ro_budget o')" "of_nat n' \<le> bu_max_tool_calls (ro_budget o')"
    using r le by (meson order_trans)+
  with r assms(2) show ?thesis unfolding room_for_def Let_def by (elim conjE) (intro conjI; (assumption | rule u x; simp)?)
qed

lemma calls_run:
  assumes "ran o' p m cs s" "room_for w o' p m (length cs + length cs')" "calm w" "0 \<le> estimateToolCost p"
    and "\<forall>c\<in>set cs'. answers w (pc_tool c) \<and> call_ok (wo_engine w) (run_planner_input o' p) c"
  shows "\<exists>s'. exec_calls w o' p k cs' s = (Inr (), s') \<and> ran o' p m (cs @ cs') s'"
  using assms
proof (induction cs' arbitrary: cs s)
  case Nil
  then show ?case by simp
next
  case (Cons c cs')
  have "room_for w o' p m (Suc (length cs))" by (rule room_less [OF Cons.prems(2,4)]) simp_all
  then obtain s1 where s1: "exec_call w o' p k c s = (Inr (), s1)" "ran o' p m (cs @ [c]) s1"
    using call_runs [OF Cons.prems(1) _ Cons.prems(3)] Cons.prems(5) by (metis list.set_intros(1))
  have "room_for w o' p m (length (cs @ [c]) + length cs')" using Cons.prems(2) by simp
  then obtain s2 where "exec_calls w o' p k cs' s1 = (Inr (), s2)" "ran o' p m ((cs @ [c]) @ cs') s2"
    using Cons.IH [OF s1(2) _ Cons.prems(3,4)] Cons.prems(5) by auto
  then show ?case by (simp add: s1)
qed

lemma step_runs:
  assumes "ran o' p m cs s" "room_for w o' p (Suc m) (length cs + length (ps_calls st))" "calm w" "0 \<le> estimateToolCost p"
    and "\<forall>c\<in>set (ps_calls st). answers w (pc_tool c) \<and> call_ok (wo_engine w) (run_planner_input o' p) c"
  shows "\<exists>s'. exec_step w o' p st s = (Inr (), s') \<and> ran o' p (Suc m) (cs @ ps_calls st) s'"
proof -
  let ?s0 = "s\<lparr>rs_looks := Suc (rs_looks s)\<rparr>" and ?u = "rs_usage s"
  let ?s1 = "(tick ?s0)\<lparr>rs_usage := ?u\<lparr>us_steps := us_steps ?u + 1\<rparr>, rs_steps := Suc (rs_steps s)\<rparr>"
  have "us_steps ?u + 1 \<le> bu_max_steps (ro_budget o')"
    using assms(1,2) by (simp add: ran_def room_for_def Let_def add.commute)
  then have t: "track w (\<lambda>now. recordStep (ro_budget o') now 1) ?s0 =
      (Inr (), (tick ?s0)\<lparr>rs_usage := ?u\<lparr>us_steps := us_steps ?u + 1\<rparr>\<rparr>)"
    by (intro track_free) (simp add: free_checks(1) [OF room_deadline [OF assms(2)]])
  have "ran o' p (Suc m) cs ?s1" using assms(1) by (simp add: ran_def)
  from calls_run [OF this assms(2-5)] show ?thesis
    by (simp add: exec_step_def look_calm [OF assms(3)] t tick_def)
qed

lemma steps_run:
  assumes "ran o' p m cs s" "room_for w o' p (m + length sts) (length cs + length (calls_of sts))"
    and "calm w" "0 \<le> estimateToolCost p" "\<forall>x\<in>set (butlast sts). \<not> ps_terminal x"
    and "\<forall>c\<in>set (calls_of sts). answers w (pc_tool c) \<and> call_ok (wo_engine w) (run_planner_input o' p) c"
  shows "\<exists>s'. exec_steps w o' p sts s = (Inr (), s') \<and> ran o' p (m + length sts) (cs @ calls_of sts) s'"
  using assms
proof (induction sts arbitrary: m cs s)
  case Nil
  then show ?case by simp
next
  case (Cons st sts)
  have calls: "calls_of (st # sts) = ps_calls st @ calls_of sts" by (simp add: calls_of_def)
  have "room_for w o' p (Suc m) (length cs + length (ps_calls st))"
    by (rule room_less [OF Cons.prems(2,4)]) (simp_all add: calls)
  then obtain s1 where s1: "exec_step w o' p st s = (Inr (), s1)" "ran o' p (Suc m) (cs @ ps_calls st) s1"
    using step_runs [OF Cons.prems(1) _ Cons.prems(3,4)] Cons.prems(6) calls by auto
  show ?case
  proof (cases "sts = []")
    case True
    with s1 show ?thesis by (simp add: calls)
  next
    case False
    then have go: "\<not> ps_terminal st" "\<forall>x\<in>set (butlast sts). \<not> ps_terminal x" using Cons.prems(5) by simp_all
    have "room_for w o' p (Suc m + length sts) (length (cs @ ps_calls st) + length (calls_of sts))"
      using Cons.prems(2) by (simp add: calls add.assoc)
    from Cons.IH [OF s1(2) this Cons.prems(3,4) go(2)] Cons.prems(6) show ?thesis
      by (simp add: calls s1(1) go(1))
  qed
qed

section \<open>A whole run\<close>

lemma ran_same:
  "rs_usage s' = rs_usage s \<Longrightarrow> rs_steps s' = rs_steps s \<Longrightarrow> rs_calls s' = rs_calls s \<Longrightarrow>
   rs_records s' = rs_records s \<Longrightarrow> ran o' p m cs s \<Longrightarrow> ran o' p m cs s'"
  by (simp add: ran_def)

lemma only_check_ran: "ran o' p m cs s \<Longrightarrow> ran o' p m cs (snd (track w (only_check f) s))"
  by (erule ran_same [rotated 4]) (simp_all add: track_state only_check_def)

lemma when_check_ran: "ran o' p m cs s \<Longrightarrow> ran o' p m cs (snd (when_check c w f s))"
  by (simp add: when_check_def only_check_ran)

lemma look_ran: "ran o' p m cs s \<Longrightarrow> ran o' p m cs (snd (look w s))"
  by (erule ran_same [rotated 4]) (simp_all add: look_def)

lemma preflight_ran: "ran o' p m cs s \<Longrightarrow> ran o' p m cs (snd (preflight w o' q s))"
  unfolding preflight_def Let_def
  by (assumption | rule run_then_keeps [where Q = "ran o' p m cs"] only_check_ran when_check_ran look_ran)+

lemma start_ran: "ran o' p 0 [] (start_state o')"
  by (simp add: ran_def start_state_def no_usage_def candidate_calls_def)

lemma synthesize_runs:
  assumes "calm w" "ran o' p m cs s"
  shows "\<exists>d s'. synthesizeDecision w c q rs s = (Inr d, s') \<and> ran o' p m cs s'"
proof -
  obtain t t' where t: "toISO (Some (now_of w s)) = Inr t" "toISO (Some (now_of w (tick s))) = Inr t'"
    using iso_calm [OF assms(1)] by blast
  have "date_ms (wo_engine w) t = Some (now_of w s)" using toISO_Some [OF t(1)] by (simp add: date_ms_def)
  then have "\<exists>r. decide (wo_engine w) (wo_sha w) (wo_lc w) t' (run_decision_input c q rs t) = Inr r"
    by (simp add: decide_def validated_def validate_evidence_def run_decision_input_def Let_def)
  moreover have "ran o' p m cs (tick (tick s))" by (rule ran_same [OF _ _ _ _ assms(2)]) simp_all
  ultimately show ?thesis
    by (auto simp: synthesizeDecision_def iso_now_def t lift_result_def simp del: toISO.simps)
qed

lemma run_completes:
  assumes "require_profile (ro_profile o') (ro_version o') (wo_registry w) = Inr p"
    and "fst (preflight w o' p (start_state o')) = Inr ()" "planning w o' p = Inr plan" "calm w"
    and "\<forall>c\<in>set (calls_of (pl_steps plan)). answers w (pc_tool c)"
    and "room_for w o' p (length (pl_steps plan)) (length (calls_of (pl_steps plan)))"
    and "fair_budget (ro_budget o')" "whole (bu_max_tool_calls (ro_budget o'))" "0 \<le> estimateToolCost p"
  shows "\<exists>res s. execute w o' = (Inr res, s) \<and> rr_plan res = plan \<and>
    map record_text (rr_records res) = map call_text (calls_of (pl_steps plan)) \<and>
    rr_steps res = length (pl_steps plan) \<and> rr_calls res = pl_total_calls plan \<and>
    me_current (sn_tool_calls (rr_usage res)) = of_nat (pl_total_calls plan) \<and>
    me_current (sn_cost (rr_usage res)) = pl_total_cost plan"
proof -
  let ?i = "run_planner_input o' p"
  have i: "pi_budget ?i = ro_budget o'" "pi_profile ?i = p" by (simp_all add: run_planner_input_def)
  have mp: "make_plan (wo_engine w) (wo_sha w) (wo_lc w) ?i = Inr plan"
    using assms(3) by (auto simp: planning_def lift_confined_def split: sum.splits conf_error.splits)
  obtain raw s0 where inv: "plan_inv (wo_engine w) ?i (step_bound ?i (plan_stages (wo_lc w) ?i)) raw s0"
    and plan: "pl_steps plan = close_steps raw" "pl_total_calls plan = st_total s0" "pl_total_cost plan = st_cost s0"
    using make_plan_inv [OF mp] assms(7,8) unfolding i fair_budget_def by blast
  note inv = inv [unfolded plan_inv_def spent_def i]
  have cost: "pl_total_cost plan = of_nat (pl_total_calls plan) * estimateToolCost p"
    and total: "pl_total_calls plan = length (calls_of (pl_steps plan))"
    using inv unfolding plan close_calls by blast+
  have calls: "\<forall>c\<in>set (calls_of (pl_steps plan)). answers w (pc_tool c) \<and> call_ok (wo_engine w) ?i c"
    using inv assms(5) unfolding plan close_calls by blast
  have "\<forall>x\<in>set (butlast raw). \<not> ps_terminal x" using inv by blast
  then have quiet: "\<forall>x\<in>set (butlast (pl_steps plan)). \<not> ps_terminal x"
    by (cases raw rule: rev_cases) (simp_all add: plan close_steps_def)
  obtain s1 where s1: "preflight w o' p (start_state o') = (Inr (), s1)" "ran o' p 0 [] s1"
    using assms(2) preflight_ran [OF start_ran, of o' p w p] by (metis prod.collapse)
  obtain d0 s2 where s2: "synthesizeDecision w (ro_candidate o') p [] s1 = (Inr d0, s2)" "ran o' p 0 [] s2"
    using synthesize_runs [OF assms(4) s1(2)] by blast
  have "room_for w o' p (0 + length (pl_steps plan)) (length ([] :: planned_call list) + length (calls_of (pl_steps plan)))"
    using assms(6) by simp
  from steps_run [OF s2(2) this assms(4,9) quiet calls]
  obtain s3 where s3: "exec_steps w o' p (pl_steps plan) s2 = (Inr (), s3)"
    "ran o' p (length (pl_steps plan)) (calls_of (pl_steps plan)) s3" by auto
  obtain d s4 where s4: "synthesizeDecision w (ro_candidate o') p (rs_records s3) s3 = (Inr d, s4)"
    "ran o' p (length (pl_steps plan)) (calls_of (pl_steps plan)) s4"
    using synthesize_runs [OF assms(4) s3(2)] by blast
  obtain t where t: "toISO (Some (now_of w (tick s4))) = Inr t" using iso_calm [OF assms(4)] by blast
  have e: "execute w o' = (Inr \<lparr>rr_plan = plan, rr_decision = d, rr_records = rs_records s4,
      rr_usage = getSnapshot (ro_budget o') (now_of w s4) (rs_usage s4), rr_steps = rs_steps s4,
      rr_calls = rs_calls s4, rr_completed = t\<rparr>, tick (tick s4))"
    by (simp add: execute_def assms(1,3) lift_result_def s1(1) s2(1) s3(1) s4(1) iso_now_def t del: toISO.simps)
  show ?thesis unfolding e using s4(2) by (simp add: ran_def getSnapshot_def meter_of_def total cost)
qed

text \<open>C21. A run that passes its preflight, is not aborted, whose tools answer and whose budget has room for its
  plan carries the plan out: it returns, its records are the calls of the plan in their order, no
  call is skipped or repeated, also when tools fail with errors that are recorded, and what it
  counted and spent is what was planned.\<close>

theorem run_carries_plan_out:
  assumes "require_profile (ro_profile o') (ro_version o') (wo_registry w) = Inr p"
    and "fst (preflight w o' p (start_state o')) = Inr ()" "planning w o' p = Inr plan" "calm w"
    and "\<forall>c\<in>set (calls_of (pl_steps plan)). answers w (pc_tool c)"
    and "room_for w o' p (length (pl_steps plan)) (length (calls_of (pl_steps plan)))"
    and "fair_budget (ro_budget o')" "whole (bu_max_tool_calls (ro_budget o'))" "0 \<le> estimateToolCost p"
  shows "\<exists>res s. execute w o' = (Inr res, s) \<and> rr_plan res = plan \<and>
    map record_text (rr_records res) = map call_text (calls_of (pl_steps plan)) \<and>
    rr_steps res = length (pl_steps plan) \<and> rr_calls res = pl_total_calls plan \<and>
    me_current (sn_tool_calls (rr_usage res)) = of_nat (pl_total_calls plan) \<and>
    me_current (sn_cost (rr_usage res)) = pl_total_cost plan"
  using assms by (rule run_completes)

section \<open>The example completes\<close>

lemma demo_run_input: "run_planner_input demo_run (pi_profile plan_demo) = plan_demo"
  by (simp add: run_planner_input_def demo_run_def plan_demo_def)

lemma demo_plan:
  "\<exists>plan. planning demo_world demo_run (pi_profile plan_demo) = Inr plan \<and> length (pl_steps plan) = 1 \<and>
     map pc_tool (calls_of (pl_steps plan)) = [''dex.pairs'']"
proof -
  obtain plan where "make_plan demo_engine no_sha (\<lambda>_ _. 0) plan_demo = Inr plan" "length (pl_steps plan) = 1"
    "map pc_tool (calls_of (pl_steps plan)) = [''dex.pairs'']" using plan_demo_ok by (elim exE conjE) (rule that)
  then show ?thesis
    by (intro exI [of _ plan]) (simp add: planning_def demo_run_input lift_confined_def demo_world_def)
qed

lemma demo_preflight: "fst (preflight demo_world demo_run (pi_profile plan_demo) (start_state demo_run)) = Inr ()"
  by code_simp

lemma demo_ready:
  "require_profile (ro_profile demo_run) (ro_version demo_run) (wo_registry demo_world) = Inr (pi_profile plan_demo)"
  "calm demo_world" "answers demo_world ''dex.pairs''" "whole (bu_max_tool_calls (ro_budget demo_run))"
  "0 \<le> estimateToolCost (pi_profile plan_demo)" "room_for demo_world demo_run (pi_profile plan_demo) 1 1"
proof -
  show "require_profile (ro_profile demo_run) (ro_version demo_run) (wo_registry demo_world) = Inr (pi_profile plan_demo)"
    by (simp add: require_profile_def get_profile_def makeKey_def demo_run_def demo_world_def)
  show "calm demo_world" by (simp add: calm_def demo_world_def max_time_def)
  have "map_of (wo_tools demo_world) ''dex.pairs'' = Some (defaultEchoHandler (\<lambda>_. False) (\<lambda>_. ''t''))"
    by (simp add: demo_world_def registerDefaultTools_def registerTool_def default_tool_names_def)
  then show "answers demo_world ''dex.pairs''" by (simp add: answers_def defaultEchoHandler_def)
qed (simp_all add: demo_run_def plan_demo_def whole_def estimateToolCost_def builtin_profile_def room_for_def
    deadline_passed_def)

lemma map_single: "map f xs = [t] \<Longrightarrow> P t \<Longrightarrow> \<forall>x\<in>set xs. P (f x)"
  by (auto simp: map_eq_Cons_conv)

lemma demo_run_ready:
  "\<exists>plan. planning demo_world demo_run (pi_profile plan_demo) = Inr plan \<and>
     (\<forall>c\<in>set (calls_of (pl_steps plan)). answers demo_world (pc_tool c)) \<and>
     room_for demo_world demo_run (pi_profile plan_demo) (length (pl_steps plan)) (length (calls_of (pl_steps plan))) \<and>
     map pc_tool (calls_of (pl_steps plan)) = [''dex.pairs'']"
proof -
  obtain plan where plan: "planning demo_world demo_run (pi_profile plan_demo) = Inr plan" "length (pl_steps plan) = 1"
    "map pc_tool (calls_of (pl_steps plan)) = [''dex.pairs'']" using demo_plan by (elim exE conjE) (rule that)
  have n: "length (calls_of (pl_steps plan)) = 1" using arg_cong [OF plan(3), of length] by simp
  have "\<forall>c\<in>set (calls_of (pl_steps plan)). answers demo_world (pc_tool c)"
    by (rule map_single [where P = "answers demo_world" and f = pc_tool, OF plan(3) demo_ready(3)])
  moreover have "room_for demo_world demo_run (pi_profile plan_demo) (length (pl_steps plan)) (length (calls_of (pl_steps plan)))"
    using demo_ready(6) by (simp add: n plan(2))
  ultimately show ?thesis using plan(1,3) by (intro exI conjI)
qed

theorem run_carries_plan_out_witness:
  "\<exists>res s. execute demo_world demo_run = (Inr res, s) \<and> map tl_tool (rr_records res) = [''dex.pairs'']"
proof -
  obtain plan where plan: "planning demo_world demo_run (pi_profile plan_demo) = Inr plan"
    "\<forall>c\<in>set (calls_of (pl_steps plan)). answers demo_world (pc_tool c)"
    "room_for demo_world demo_run (pi_profile plan_demo) (length (pl_steps plan)) (length (calls_of (pl_steps plan)))"
    "map pc_tool (calls_of (pl_steps plan)) = [''dex.pairs'']" using demo_run_ready by (elim exE conjE) (rule that)
  obtain res s where res: "execute demo_world demo_run = (Inr res, s)"
    "map record_text (rr_records res) = map call_text (calls_of (pl_steps plan))"
    using run_carries_plan_out [OF demo_ready(1) demo_preflight plan(1) demo_ready(2) plan(2,3) demo_run_fair demo_ready(4,5)]
    by (elim exE conjE) (rule that)
  have "map tl_tool (rr_records res) = map (fst o snd) (map record_text (rr_records res))"
    by (simp add: record_text_def)
  also have "\<dots> = map pc_tool (calls_of (pl_steps plan))" unfolding res(2) by (simp add: call_text_def)
  also note plan(4)
  finally show ?thesis using res(1) by (intro exI conjI)
qed

lemma demo_run_returns: "\<exists>res s. execute demo_world demo_run = (Inr res, s)"
proof -
  obtain plan where plan: "planning demo_world demo_run (pi_profile plan_demo) = Inr plan"
    "\<forall>c\<in>set (calls_of (pl_steps plan)). answers demo_world (pc_tool c)"
    "room_for demo_world demo_run (pi_profile plan_demo) (length (pl_steps plan)) (length (calls_of (pl_steps plan)))"
    using demo_run_ready by (elim exE conjE) (rule that)
  show ?thesis
    using run_completes [OF demo_ready(1) demo_preflight plan(1) demo_ready(2) plan(2,3) demo_run_fair demo_ready(4,5)]
    by (elim exE conjE) (intro exI)
qed

section \<open>The decision of a run\<close>

lemma run_then_Inr: "run_then r f = (Inr b, s) \<longleftrightarrow> (\<exists>a s'. r = (Inr a, s') \<and> f a s' = (Inr b, s))"
proof -
  obtain x s' where "r = (x, s')" by (cases r)
  then show ?thesis by (cases x) auto
qed

lemma lift_Inr [simp]: "lift_result r = Inr a \<longleftrightarrow> r = Inr a"
  by (cases r) (simp_all add: lift_result_def)

lemma decision_of_decision:
  "ad_decision (decision_of i reasons) =
     (if reasons = [] then or_default (pr_decision (di_proposed i)) DcWATCH else DcINSUFFICIENT_DATA)"
  by (simp add: decision_of_def Let_def)

lemma run_proposes: "pr_decision (di_proposed (run_decision_input c q rs t)) = Some (proposed_type rs)"
  by (simp add: run_decision_input_def run_proposal_def)

text \<open>A run decides what its records say, or abstains; and when it alerts, no tool call of the run has
  failed and a pairs, profile, audit or honeypot tool has answered.\<close>

theorem run_decision_follows_records:
  assumes "execute w o' = (Inr res, s)"
  shows "ad_decision (rr_decision res) \<in> {DcINSUFFICIENT_DATA, proposed_type (rr_records res)} \<and>
    (ad_decision (rr_decision res) = DcALERT \<longrightarrow>
       (\<forall>r\<in>set (rr_records res). tl_error r = None) \<and>
       (\<exists>r\<in>set (rr_records res). tl_tool r \<in>
          {''dex.pairs'', ''token.profile'', ''contract.audit'', ''risk.honeypot_scan''}))"
proof -
  obtain p s1 s2 where d: "synthesizeDecision w (ro_candidate o') p (rs_records s1) s1 = (Inr (rr_decision res), s2)"
    and rs: "rr_records res = rs_records s2"
    using assms by (auto simp: execute_def run_then_Inr Let_def iso_now_def tick_def)
  then obtain t t' r where r: "decide (wo_engine w) (wo_sha w) (wo_lc w) t'
      (run_decision_input (ro_candidate o') p (rs_records s1) t) = Inr r" "rr_decision res = dr_decision r"
    and "rs_records s2 = rs_records s1"
    by (auto simp: synthesizeDecision_def run_then_Inr iso_now_def tick_def split: sum.splits)
  then have "ad_decision (rr_decision res) \<in> {DcINSUFFICIENT_DATA, proposed_type (rr_records res)}"
    by (elim decide_Inr) (simp add: rs decision_of_decision run_proposes)
  moreover have "proposed_type rs = DcALERT \<Longrightarrow> (\<forall>r\<in>set rs. tl_error r = None) \<and>
      (\<exists>r\<in>set rs. tl_tool r \<in> {''dex.pairs'', ''token.profile'', ''contract.audit'', ''risk.honeypot_scan''})" for rs
    by (auto simp: proposed_type_def has_result_def list_ex_iff split: if_splits)
  ultimately show ?thesis by (metis decision.distinct insertE singletonD)
qed

theorem run_decision_follows_records_witness:
  "\<exists>res s. execute demo_world demo_run = (Inr res, s) \<and>
     ad_decision (rr_decision res) \<in> {DcINSUFFICIENT_DATA, proposed_type (rr_records res)}"
proof -
  obtain res s where e: "execute demo_world demo_run = (Inr res, s)" using demo_run_returns by blast
  from run_decision_follows_records [OF e] e show ?thesis by blast
qed

end
