(* ===== verification/Security_Egress.thy ===== *)
theory Security_Egress
  imports Js_Text "HOL-Library.Word"
begin

unbundle bit_operations_syntax

text \<open>
  packages/security/src/egress.ts: which hosts the program refuses to call, and the check of an
  outbound URL. \<open>wide\<close> is the text of a code point above 255, which the texts of this model cannot
  hold. \<open>num >> k & 255\<close> is on 32-bit words, with the arithmetic shift.
\<close>

section \<open>\<open>decodeURIComponent\<close>\<close>

definition hex_byte :: "string \<Rightarrow> (int \<times> string) option" where
  "hex_byte s =
     (case s of
        p # a # b # r \<Rightarrow>
          if p = CHR ''%'' \<and> digit_of_base 16 a \<and> digit_of_base 16 b
          then Some (int (16 * the (base_digit a) + the (base_digit b)), r) else None
      | _ \<Rightarrow> None)"

fun continuation :: "nat \<Rightarrow> int \<Rightarrow> string \<Rightarrow> (int \<times> string) option" where
  "continuation 0 acc s = Some (acc, s)"
| "continuation (Suc n) acc s =
     (case hex_byte s of
        None \<Rightarrow> None
      | Some (b, r) \<Rightarrow> if 128 \<le> b \<and> b < 192 then continuation n (64 * acc + (b - 128)) r else None)"

definition well_formed_point :: "int \<Rightarrow> int \<Rightarrow> bool" where
  "well_formed_point lo cp \<longleftrightarrow> lo \<le> cp \<and> cp \<le> 1114111 \<and> \<not> (55296 \<le> cp \<and> cp \<le> 57343)"

text \<open>One escaped character: its code point and the rest of the text.\<close>

definition escaped_point :: "string \<Rightarrow> (int \<times> string) option" where
  "escaped_point s =
     (case hex_byte s of
        None \<Rightarrow> None
      | Some (b, r) \<Rightarrow>
          if b < 128 then Some (b, r)
          else (case (if 192 \<le> b \<and> b < 224 then Some (1, b - 192, 128)
                      else if 224 \<le> b \<and> b < 240 then Some (2, b - 224, 2048)
                      else if 240 \<le> b \<and> b < 248 then Some (3, b - 240, 65536) else None) of
                  None \<Rightarrow> None
                | Some (n, acc, lo) \<Rightarrow>
                    (case continuation n acc r of
                       None \<Rightarrow> None
                     | Some (cp, r') \<Rightarrow> if well_formed_point lo cp then Some (cp, r') else None)))"

definition point_text :: "(int \<Rightarrow> string) \<Rightarrow> int \<Rightarrow> string" where
  "point_text wide cp = (if cp < 256 then [char_of cp] else wide cp)"

lemma hex_byte_shorter: "hex_byte s = Some (b, r) \<Longrightarrow> length r < length s"
  by (auto simp: hex_byte_def split: list.splits if_splits)

lemma continuation_shorter: "continuation n acc s = Some (cp, r) \<Longrightarrow> length r \<le> length s"
proof (induction n acc s rule: continuation.induct)
  case (2 n acc s)
  then show ?case by (fastforce split: option.splits if_splits dest: hex_byte_shorter)
qed simp

lemma escaped_point_shorter: "escaped_point s = Some (cp, r) \<Longrightarrow> length r < length s"
  by (fastforce simp: escaped_point_def split: option.splits if_splits
      dest: hex_byte_shorter continuation_shorter)

function decodeURIComponent :: "(int \<Rightarrow> string) \<Rightarrow> string \<Rightarrow> string option" where
  "decodeURIComponent wide s =
     (case s of
        [] \<Rightarrow> Some []
      | c # r \<Rightarrow>
          if c \<noteq> CHR ''%'' then map_option ((#) c) (decodeURIComponent wide r)
          else (case escaped_point s of
                  None \<Rightarrow> None
                | Some (cp, r') \<Rightarrow> map_option ((@) (point_text wide cp)) (decodeURIComponent wide r')))"
  by pat_completeness auto
termination
  by (relation "measure (\<lambda>(wide, s). length s)") (auto dest: escaped_point_shorter)

declare decodeURIComponent.simps [simp del]

text \<open>The loop over nested escapes; \<open>n\<close> iterations are left.\<close>

fun unescape :: "(int \<Rightarrow> string) \<Rightarrow> nat \<Rightarrow> string \<Rightarrow> string \<Rightarrow> string option" where
  "unescape wide 0 prev s = Some s"
| "unescape wide (Suc n) prev s =
     (if CHR ''%'' \<notin> set s \<or> s = prev then Some s
      else (case decodeURIComponent wide s of
              None \<Rightarrow> None
            | Some d \<Rightarrow> unescape wide n s (toLowerCase d)))"

section \<open>Parts of a host\<close>

definition BLOCKED_HOSTNAMES :: "string list" where
  "BLOCKED_HOSTNAMES =
     [''localhost'', ''localhost.localdomain'', ''metadata.google.internal'', ''instance-data'', ''api.ec2.internal'']"

text \<open>Trailing dot, brackets and zone index are dropped.\<close>

definition drop_dot :: "string \<Rightarrow> string" where
  "drop_dot s = (if endsWith s ''.'' then butlast s else s)"

definition drop_brackets :: "string \<Rightarrow> string" where
  "drop_brackets s = (if startsWith s ''['' \<and> endsWith s '']'' then butlast (drop 1 s) else s)"

definition clean_host :: "string \<Rightarrow> string" where
  "clean_host s = takeWhile (\<lambda>c. c \<noteq> CHR ''%'') (drop_brackets (drop_dot s))"

definition octet :: "nat \<Rightarrow> int \<Rightarrow> int" where
  "octet k n = uint (signed_drop_bit k (word_of_int n :: 32 word) AND 255)"

definition dotted :: "int \<Rightarrow> int \<Rightarrow> int \<Rightarrow> int \<Rightarrow> string" where
  "dotted a b c d = join_with ''.'' (map show_int [a, b, c, d])"

definition quad_of :: "int \<Rightarrow> string" where
  "quad_of n = dotted (octet 24 n) (octet 16 n) (octet 8 n) (octet 0 n)"

text \<open>\<open>parseInt(text, b)\<close> on a text of digits.\<close>

definition read_int :: "int \<Rightarrow> string \<Rightarrow> int" where
  "read_int b s = foldl (\<lambda>acc c. b * acc + int (the (base_digit c))) 0 s"

definition hex_text :: "string \<Rightarrow> bool" where
  "hex_text s \<longleftrightarrow> startsWith (toLowerCase s) ''0x'' \<and> all_digits 16 (drop 2 s)"

text \<open>A number the host is, in decimal or with the prefix 0x.\<close>

definition host_number :: "string \<Rightarrow> int option" where
  "host_number h =
     (if all_digits 10 h \<and> read_int 10 h \<le> 4294967295 then Some (read_int 10 h)
      else if hex_text h \<and> read_int 16 (drop 2 h) \<le> 4294967295 then Some (read_int 16 (drop 2 h))
      else None)"

section \<open>Dotted notation\<close>

definition part_shape :: "string \<Rightarrow> bool" where
  "part_shape p \<longleftrightarrow> hex_text p \<or> all_digits 10 p"

text \<open>\<open>None\<close> is \<open>NaN\<close>.\<close>

definition part_value :: "string \<Rightarrow> int option" where
  "part_value p =
     (if startsWith (toLowerCase p) ''0x'' then Some (read_int 16 (drop 2 p))
      else if 1 < length p \<and> startsWith p ''0'' then (if all_digits 8 p then Some (read_int 8 p) else None)
      else Some (read_int 10 p))"

definition private_network :: "int \<Rightarrow> int \<Rightarrow> bool" where
  "private_network b0 b1 \<longleftrightarrow>
     b0 = 127 \<or> b0 = 0 \<or> b0 = 10 \<or> b0 = 172 \<and> 16 \<le> b1 \<and> b1 \<le> 31 \<or> b0 = 192 \<and> b1 = 168 \<or>
     b0 = 169 \<and> b1 = 254 \<or> b0 = 100 \<and> 64 \<le> b1 \<and> b1 \<le> 127 \<or> b0 = 192 \<and> b1 = 0 \<or>
     b0 = 198 \<and> (b1 = 51 \<or> 18 \<le> b1 \<and> b1 \<le> 19) \<or> b0 = 203 \<and> b1 = 0 \<or> b0 = 255"

definition dotted_blocked :: "int list \<Rightarrow> bool" where
  "dotted_blocked ps =
     (case ps of
        [a, b, c, d] \<Rightarrow> if list_ex (\<lambda>p. 255 < p) ps then True else private_network a b
      | [a, b, c] \<Rightarrow> if 255 < a \<or> 255 < b \<or> 65535 < c then True else private_network a b
      | [a, b] \<Rightarrow> if 255 < a \<or> 16777215 < b then True else private_network a (octet 16 b)
      | [a] \<Rightarrow> if 4294967295 < a then True else private_network (octet 24 a) (octet 16 a)
      | _ \<Rightarrow> private_network 0 0)"

definition quad_like :: "string \<Rightarrow> bool" where
  "quad_like p \<longleftrightarrow> p \<noteq> [] \<and> list_all (\<lambda>c. digit_of_base 16 c \<or> c = CHR ''x'' \<or> c = CHR ''X'') p"

text \<open>The verdict on a host with a dot, \<open>None\<close> where the code goes on.\<close>

definition dotted_verdict :: "string \<Rightarrow> bool option" where
  "dotted_verdict h =
     (let parts = split_on CHR ''.'' h in
      if CHR ''.'' \<notin> set h then None
      else if length parts \<le> 4 \<and> list_all part_shape parts then
        (if list_ex (\<lambda>p. part_value p = None) parts then Some True
         else Some (dotted_blocked (map (\<lambda>p. the (part_value p)) parts)))
      else if length parts \<le> 4 \<and> list_all quad_like parts then Some True
      else None)"

section \<open>Version 6\<close>

definition decimal_octet :: "string \<Rightarrow> bool" where
  "decimal_octet p \<longleftrightarrow>
     all_digits 10 p \<and> read_int 10 p \<le> 255 \<and> (length p = 1 \<or> \<not> startsWith p ''0'')"

definition is_ipv4 :: "string \<Rightarrow> bool" where
  "is_ipv4 s = (let ps = split_on CHR ''.'' s in length ps = 4 \<and> list_all decimal_octet ps)"

definition hex_group :: "string \<Rightarrow> bool" where
  "hex_group g \<longleftrightarrow> all_digits 16 g \<and> length g \<le> 4"

text \<open>How many 16-bit groups a list of pieces stands for; the last may be a version 4 address.\<close>

fun group_count :: "string list \<Rightarrow> nat option" where
  "group_count [] = Some 0"
| "group_count [g] = (if hex_group g then Some 1 else if is_ipv4 g then Some 2 else None)"
| "group_count (g # gs) = (if hex_group g then map_option Suc (group_count gs) else None)"

definition pieces :: "string \<Rightarrow> string list" where
  "pieces s = (if s = [] then [] else split_on CHR '':'' s)"

fun at_double_colon :: "string \<Rightarrow> (string \<times> string) option" where
  "at_double_colon [] = None"
| "at_double_colon (c # cs) =
     (if startsWith (c # cs) ''::'' then Some ([], drop 1 cs)
      else map_option (\<lambda>(l, r). (c # l, r)) (at_double_colon cs))"

text \<open>\<open>isIP(text) === 6\<close>, for texts without a zone.\<close>

definition is_ipv6 :: "string \<Rightarrow> bool" where
  "is_ipv6 s =
     (case at_double_colon s of
        None \<Rightarrow> group_count (split_on CHR '':'' s) = Some 8
      | Some (l, r) \<Rightarrow>
          list_all hex_group (pieces l) \<and>
          (case group_count (pieces r) of None \<Rightarrow> False | Some n \<Rightarrow> length (pieces l) + n \<le> 7))"

definition loopback6 :: "string \<Rightarrow> bool" where
  "loopback6 s = (s \<in> {''::1'', ''::'', ''0:0:0:0:0:0:0:1'', ''0:0:0:0:0:0:0:0''})"

definition link_local6 :: "string \<Rightarrow> bool" where
  "link_local6 s = (startsWith s ''fe'' \<and> (\<exists>c\<in>set (take 1 (drop 2 s)). c \<in> set ''89abAB''))"

text \<open>\<open>/^(?:(?:::|0+:0+:0+:0+:0+:)ffff:)(.+)$/i\<close>: what follows the prefix of a mapped address.\<close>

definition zero_piece :: "string \<Rightarrow> bool" where
  "zero_piece p \<longleftrightarrow> p \<noteq> [] \<and> list_all (\<lambda>c. c = CHR ''0'') p"

definition one_line :: "string \<Rightarrow> bool" where
  "one_line s = list_all (\<lambda>c. (of_char c :: nat) \<notin> {10, 13}) s"

definition mapped_rest :: "string \<Rightarrow> string option" where
  "mapped_rest s =
     (let ps = split_on CHR '':'' s;
          rest = (if startsWith (toLowerCase s) ''::ffff:'' then Some (drop 7 s)
            else if 7 \<le> length ps \<and> list_all zero_piece (take 5 ps) \<and> toLowerCase (ps ! 5) = ''ffff''
            then Some (join_with '':'' (drop 6 ps)) else None)
      in case rest of
           None \<Rightarrow> None
         | Some r \<Rightarrow> if r \<noteq> [] \<and> one_line r then Some r else None)"

definition hex_words :: "string \<Rightarrow> string option" where
  "hex_words r =
     (case split_on CHR '':'' r of
        [g, h] \<Rightarrow>
          if hex_group g \<and> hex_group h then
            (let h1 = read_int 16 g; h2 = read_int 16 h
             in Some (dotted (octet 8 h1) (octet 0 h1) (octet 8 h2) (octet 0 h2)))
          else None
      | _ \<Rightarrow> None)"

section \<open>Plain hosts\<close>

text \<open>Texts of digits, small letters, dots and colons stay as they are when a host is cleaned.\<close>

definition plain_char :: "char \<Rightarrow> bool" where
  "plain_char c = (let n = (of_char c :: nat) in 48 \<le> n \<and> n \<le> 58 \<or> 97 \<le> n \<and> n \<le> 122 \<or> n = 46)"

lemma plain_char_simps:
  assumes "plain_char c"
  shows "\<not> js_space c" "js_lower_char c = c" "c \<noteq> CHR ''%''" "c \<noteq> CHR ''[''" "c \<noteq> CHR '']''"
  using assms by (auto simp: plain_char_def js_space_def js_lower_char_def Let_def)

lemma plain_trim: "list_all plain_char s \<Longrightarrow> trim s = s"
proof -
  assume s: "list_all plain_char s"
  have "dropWhile js_space xs = xs" if "list_all plain_char xs" for xs
    using that by (cases xs) (simp_all add: plain_char_simps)
  with s show ?thesis by (simp add: trim_def list_all_rev)
qed

lemma plain_lower: "list_all plain_char s \<Longrightarrow> toLowerCase s = s"
  unfolding toLowerCase_def list_all_iff by (simp add: map_idI plain_char_simps)

lemma plain_clean:
  assumes "list_all plain_char s" "s = [] \<or> last s \<noteq> CHR ''.''"
  shows "clean_host s = s"
proof -
  have "\<not> endsWith s ''.''" using assms(2) by (auto simp: endsWith_iff)
  moreover have "\<not> startsWith s ''[''"
  proof
    assume "startsWith s ''[''"
    then obtain r where "s = CHR ''['' # r" by (auto simp: startsWith_iff)
    with assms(1) plain_char_simps(4) show False by auto
  qed
  moreover have "takeWhile (\<lambda>c. c \<noteq> CHR ''%'') s = s"
    using assms(1) by (auto simp: list_all_iff plain_char_simps)
  ultimately show ?thesis by (simp add: clean_host_def drop_dot_def drop_brackets_def)
qed

lemma digit_plain: "is_digit c \<Longrightarrow> plain_char c \<and> c \<noteq> CHR ''.'' \<and> c \<noteq> CHR '':''"
  by (auto simp: is_digit_def plain_char_def Let_def)

lemma show_nat_plain: "list_all plain_char (show_nat n)" "CHR ''.'' \<notin> set (show_nat n)" "CHR '':'' \<notin> set (show_nat n)"
  using show_nat_digits [of n] by (auto simp: list_all_iff dest: digit_plain)

lemma octet_bounds [simp]: "0 \<le> octet k n" "octet k n \<le> 255"
proof -
  have "signed_drop_bit k (word_of_int n :: 32 word) AND 255 \<le> 255" by (rule word_and_le1)
  then show "octet k n \<le> 255" by (simp add: octet_def word_le_def)
qed (simp add: octet_def)

lemma dotted_append:
  assumes "0 \<le> a" "0 \<le> b" "0 \<le> c" "0 \<le> d"
  shows "dotted a b c d =
    show_nat (nat a) @ ''.'' @ show_nat (nat b) @ ''.'' @ show_nat (nat c) @ ''.'' @ show_nat (nat d)"
  using assms by (simp add: dotted_def show_int_def)

lemma dotted_plain:
  assumes "0 \<le> a" "0 \<le> b" "0 \<le> c" "0 \<le> d"
  shows "list_all plain_char (dotted a b c d)" "last (dotted a b c d) \<noteq> CHR ''.''"
    "CHR ''.'' \<in> set (dotted a b c d)" "CHR '':'' \<notin> set (dotted a b c d)"
proof -
  show "list_all plain_char (dotted a b c d)"
    by (simp add: dotted_append assms show_nat_plain) (simp add: plain_char_def)
  have "last (show_nat (nat d)) \<in> set (show_nat (nat d))" by (rule last_in_set) simp
  moreover have "x \<in> set (show_nat (nat d)) \<Longrightarrow> x \<noteq> CHR ''.''" for x using show_nat_plain(2) [of "nat d"] by blast
  ultimately have "last (show_nat (nat d)) \<noteq> CHR ''.''" by blast
  then show "last (dotted a b c d) \<noteq> CHR ''.''" by (simp add: dotted_append assms)
qed (simp_all add: dotted_append assms show_nat_plain)

lemma dotted_clean:
  "0 \<le> a \<Longrightarrow> 0 \<le> b \<Longrightarrow> 0 \<le> c \<Longrightarrow> 0 \<le> d \<Longrightarrow> clean_host (toLowerCase (trim (dotted a b c d))) = dotted a b c d"
  by (simp add: plain_trim plain_lower dotted_plain plain_clean)

lemma host_number_no_dot: "CHR ''.'' \<in> set h \<Longrightarrow> host_number h = None"
proof -
  assume h: "CHR ''.'' \<in> set h"
  have d: "\<not> digit_of_base b CHR ''.''" for b by (simp add: digit_of_base_def base_digit_def)
  have "\<not> all_digits 10 h" using h d by (auto simp: all_digits_def list_all_iff)
  moreover have "\<not> hex_text h"
  proof
    assume x: "hex_text h"
    then obtain u v r where r: "h = u # v # r" "js_lower_char u = CHR ''0''" "js_lower_char v = CHR ''x''"
      by (auto simp: hex_text_def startsWith_iff toLowerCase_def map_eq_Cons_conv)
    have "js_lower_char CHR ''.'' = CHR ''.''" by (simp add: js_lower_char_def)
    with r h have "CHR ''.'' \<in> set r" by auto
    with x r d show False by (auto simp: hex_text_def all_digits_def list_all_iff)
  qed
  ultimately show ?thesis by (simp add: host_number_def)
qed

section \<open>The verdict\<close>

definition kind_weight :: "string \<Rightarrow> nat" where
  "kind_weight s =
     (if CHR '':'' \<in> set s then 2 + length s else if host_number (clean_host s) = None then 0 else 1)"

lemma lower_colon: "js_lower_char c = CHR '':'' \<Longrightarrow> c = CHR '':''"
proof -
  assume c: "js_lower_char c = CHR '':''"
  have "(of_char (js_lower_char c) :: nat) = 58" unfolding c by simp
  then have "js_lower_char c = c" by (auto simp: js_lower_char_def Let_def split: if_splits)
  with c show ?thesis by simp
qed

lemma mapped_rest_shorter:
  assumes "mapped_rest h = Some r"
  shows "length r < length h \<and> CHR '':'' \<in> set h"
proof -
  let ?ps = "split_on CHR '':'' h"
  have le: "length (join_with [c] ws) \<le> length (join_with [c] (w # ws))" for c and w :: string and ws
    by (cases ws) auto
  have drop: "length (join_with [c] (drop n ws)) \<le> length (join_with [c] (ws :: string list))" for c n ws
  proof (induction n arbitrary: ws)
    case (Suc n)
    show ?case
    proof (cases ws)
      case (Cons w vs)
      from Suc.IH [of vs] le [of c vs w] show ?thesis unfolding Cons drop_Suc_Cons by (rule order_trans)
    qed simp
  qed simp
  consider (short) "startsWith (toLowerCase h) ''::ffff:''" "r = drop 7 h"
    | (long) "7 \<le> length ?ps" "list_all zero_piece (take 5 ?ps)" "r = join_with '':'' (drop 6 ?ps)"
    using assms by (auto simp: mapped_rest_def Let_def split: if_splits)
  then show ?thesis
  proof cases
    case short
    then obtain u where "toLowerCase h = ''::ffff:'' @ u" by (auto simp: startsWith_iff)
    then obtain c h' where h: "h = c # h'" "js_lower_char c = CHR '':''" by (auto simp: toLowerCase_def map_eq_Cons_conv)
    have "c = CHR '':''" using h(2) by (rule lower_colon)
    then show ?thesis using short(2) h by auto
  next
    case long
    obtain p q ws where ps: "?ps = p # q # ws" using long(1) by (cases ?ps; cases "tl ?ps") auto
    have h: "h = p @ '':'' @ join_with '':'' (q # ws)" using join_split [of "CHR '':''" h] by (simp add: ps)
    have "r = join_with '':'' (drop 5 (q # ws))" using long(3) by (simp add: ps)
    then have "length r \<le> length (join_with '':'' (q # ws))" using drop [of _ 5 "q # ws"] by simp
    then show ?thesis unfolding h by simp
  qed
qed

lemma kind_weight_dotted:
  assumes "0 \<le> a" "0 \<le> b" "0 \<le> c" "0 \<le> d"
  shows "kind_weight (toLowerCase (trim (dotted a b c d))) = 0"
proof -
  have "CHR '':'' \<notin> set (dotted a b c d)" by (rule dotted_plain(4) [OF assms])
  then show ?thesis unfolding kind_weight_def dotted_clean [OF assms]
    by (simp add: host_number_no_dot dotted_plain plain_trim plain_lower assms)
qed

lemma takeWhile_part: "set (takeWhile P xs) \<subseteq> set xs" "length (takeWhile P xs) \<le> length xs"
  by (auto dest: set_takeWhileD intro: length_takeWhile_le)

lemma drop_brackets_part: "set (drop_brackets s) \<subseteq> set s" "length (drop_brackets s) \<le> length s"
  by (auto simp: drop_brackets_def dest!: in_set_butlastD dest: in_set_dropD)

lemma drop_dot_part: "set (drop_dot s) \<subseteq> set s" "length (drop_dot s) \<le> length s"
  by (auto simp: drop_dot_def dest: in_set_butlastD)

lemma clean_host_part: "set (clean_host s) \<subseteq> set s" "length (clean_host s) \<le> length s"
  unfolding clean_host_def
  by (meson takeWhile_part drop_brackets_part drop_dot_part subset_trans order_trans)+

lemma kind_weight_part:
  assumes "length r < length h" "length h \<le> length s" "CHR '':'' \<in> set s"
  shows "kind_weight (toLowerCase (trim r)) < kind_weight s"
  using assms length_trim_le [of r] by (simp add: kind_weight_def)

function blocked_host :: "string \<Rightarrow> bool" where
  "blocked_host s =
     (let h = clean_host s in
      if h \<in> set BLOCKED_HOSTNAMES then True
      else case host_number h of
        Some n \<Rightarrow> blocked_host (toLowerCase (trim (quad_of n)))
      | None \<Rightarrow>
          (case dotted_verdict h of
             Some b \<Rightarrow> b
           | None \<Rightarrow>
               if is_ipv6 h \<or> CHR '':'' \<in> set h then
                 (if loopback6 h \<or> startsWith h ''fc'' \<or> startsWith h ''fd'' \<or> link_local6 h then True
                  else case mapped_rest h of
                    Some r \<Rightarrow>
                      (case hex_words r of
                         Some q \<Rightarrow> blocked_host (toLowerCase (trim q))
                       | None \<Rightarrow> blocked_host (toLowerCase (trim r)))
                  | None \<Rightarrow> \<not> is_ipv6 h)
               else False))"
  by pat_completeness auto
termination
proof (relation "measure kind_weight", simp_all)
  fix s n
  assume "host_number (clean_host s) = Some n"
  then show "kind_weight (toLowerCase (trim (quad_of n))) < kind_weight s"
    by (simp add: quad_of_def kind_weight_dotted) (simp add: kind_weight_def)
next
  fix s r q
  assume "mapped_rest (clean_host s) = Some r" "hex_words r = Some q"
  then show "kind_weight (toLowerCase (trim q)) < kind_weight s"
    using mapped_rest_shorter [of "clean_host s" r] clean_host_part(1) [of s]
    by (auto simp: hex_words_def Let_def kind_weight_dotted split: list.splits if_splits) (auto simp: kind_weight_def)
next
  fix s r
  assume "mapped_rest (clean_host s) = Some r"
  then show "kind_weight (toLowerCase (trim r)) < kind_weight s"
    using mapped_rest_shorter [of "clean_host s" r] clean_host_part [of s]
    by (intro kind_weight_part [where h = "clean_host s"]) auto
qed

declare blocked_host.simps [simp del]

definition isPrivateOrBlockedAddress :: "(int \<Rightarrow> string) \<Rightarrow> string \<Rightarrow> bool" where
  "isPrivateOrBlockedAddress wide s =
     (if s = [] then True
      else case unescape wide 5 [] (toLowerCase (trim s)) of
        None \<Rightarrow> True
      | Some h \<Rightarrow> if CHR ''%'' \<in> set h then True else blocked_host h)"

section \<open>Outbound URLs\<close>

text \<open>\<open>parse\<close> is the host's URL parser.\<close>

definition validateEgressUrl ::
  "(int \<Rightarrow> string) \<Rightarrow> (string \<Rightarrow> url option) \<Rightarrow> string \<Rightarrow> string list option \<Rightarrow> url result" where
  "validateEgressUrl wide parse rawUrl allowedHosts =
     (if rawUrl = [] then Inl (Error ''EGRESS_URL_REQUIRED'')
      else case parse (trim rawUrl) of
        None \<Rightarrow> Inl (Error ''EGRESS_URL_MALFORMED'')
      | Some u \<Rightarrow>
          throw_if (ul_protocol u \<notin> {''http:'', ''https:''}) ''EGRESS_PROTOCOL_FORBIDDEN''
          (throw_if (ul_username u \<noteq> [] \<or> ul_password u \<noteq> []) ''EGRESS_CREDENTIALS_FORBIDDEN''
          (throw_if (isPrivateOrBlockedAddress wide (toLowerCase (ul_hostname u))) ''SSRF_EGRESS_BLOCKED''
          (throw_if (case allowedHosts of None \<Rightarrow> False | Some hs \<Rightarrow> hs \<noteq> [] \<and>
              toLowerCase (ul_hostname u) \<notin> set (map (\<lambda>h. trim (toLowerCase h)) hs)) ''EGRESS_HOST_FORBIDDEN''
            (Inr u)))))"

text \<open>\<open>secureFetch\<close>; \<open>send\<close> is the host's \<open>fetch\<close> with redirects left to the caller.\<close>

definition secureFetch ::
  "(int \<Rightarrow> string) \<Rightarrow> (string \<Rightarrow> url option) \<Rightarrow> (string \<Rightarrow> 'r) \<Rightarrow> string \<Rightarrow> string list option \<Rightarrow> 'r result" where
  "secureFetch wide parse send urlStr allowedHosts =
     bind_result (validateEgressUrl wide parse urlStr allowedHosts) (\<lambda>_. Inr (send urlStr))"

end
