(* ===== verification/Egress_Facts.thy ===== *)
theory Egress_Facts
  imports Security_Egress
begin

text \<open>
  Which hosts the egress check blocks: a reference that reads a numeric host as \<open>inet_aton\<close> does and
  looks its address up in a list of networks, agreement of the code with it for every spelling, and
  the spellings that escape.
\<close>

section \<open>Octets\<close>

lemma uint_drop: "uint (drop_bit k w) = drop_bit k (uint (w :: 32 word))"
  by (rule bit_eqI) (auto simp: bit_simps bit_uint_iff)

lemma octet_div:
  assumes "0 \<le> n" "n < 2 ^ 32" "k \<le> 24"
  shows "octet k n = n div 2 ^ k mod 256"
proof -
  let ?w = "word_of_int n :: 32 word"
  have "signed_drop_bit k ?w AND 255 = drop_bit k ?w AND 255"
  proof (rule bit_word_eqI)
    fix i
    assume "i < LENGTH(32)"
    have m: "i < 8" if "bit (255 :: 32 word) i"
      using that bit_mask_iff [where ?'a = "32 word", of 8 i] by (simp add: mask_eq_exp_minus_1)
    show "bit (signed_drop_bit k ?w AND 255) i = bit (drop_bit k ?w AND 255) i"
    proof (cases "bit (255 :: 32 word) i")
      case True
      then have "\<not> 32 - k \<le> i" using m assms(3) by simp
      then show ?thesis by (simp add: bit_and_iff bit_signed_drop_bit_iff bit_drop_bit_eq)
    qed (auto simp: bit_and_iff)
  qed
  then have "octet k n = uint (drop_bit k ?w AND 255)" by (simp add: octet_def)
  also have "\<dots> = uint (drop_bit k ?w) AND 255" by (simp add: unsigned_and_eq)
  also have "\<dots> = take_bit 8 (uint (drop_bit k ?w))" by (simp add: take_bit_eq_mask mask_eq_exp_minus_1)
  also have "\<dots> = uint (drop_bit k ?w) mod 256" by (simp add: take_bit_eq_mod)
  also have "uint (drop_bit k ?w) = drop_bit k (uint ?w)" by (rule uint_drop)
  also have "uint ?w = n" using assms(1,2) by (simp add: uint_word_of_int)
  finally show ?thesis by (simp add: drop_bit_eq_div)
qed

section \<open>The reference\<close>

definition aton_part :: "string \<Rightarrow> int option" where
  "aton_part p =
     (if startsWith p ''0x'' then (if all_digits 16 (drop 2 p) then Some (read_int 16 (drop 2 p)) else None)
      else if startsWith p ''0'' \<and> p \<noteq> ''0'' then (if all_digits 8 p then Some (read_int 8 p) else None)
      else if all_digits 10 p then Some (read_int 10 p) else None)"

text \<open>Every part but the last is an octet; the last fills the rest of the four octets.\<close>

definition aton_value :: "int list \<Rightarrow> int option" where
  "aton_value ps =
     (if ps \<noteq> [] \<and> length ps \<le> 4 \<and> list_all (\<lambda>p. 0 \<le> p \<and> p < 256) (butlast ps) \<and> 0 \<le> last ps \<and>
         last ps < 256 ^ (5 - length ps)
      then Some (foldl (\<lambda>acc p. 256 * acc + p) 0 (butlast ps) * 256 ^ (5 - length ps) + last ps)
      else None)"

definition aton :: "string \<Rightarrow> int option" where
  "aton h =
     (let ps = map aton_part (split_on CHR ''.'' h) in
      if None \<in> set ps then None else aton_value (map the ps))"

definition net :: "int \<Rightarrow> int \<Rightarrow> int" where
  "net a b = a * 2 ^ 24 + b * 2 ^ 16"

text \<open>The networks the comments of egress.ts name: loopback and unspecified, private (RFC 1918), link-local
  with the metadata services, carrier-grade translation, documentation and benchmark, broadcast.\<close>

definition documented_networks :: "(int \<times> nat) list" where
  "documented_networks =
     [(net 127 0, 8), (net 0 0, 8), (net 10 0, 8), (net 172 16, 12), (net 192 168, 16), (net 169 254, 16),
      (net 100 64, 10), (net 192 0 + 512, 24), (net 198 51 + 25600, 24), (net 203 0 + 28928, 24),
      (net 198 18, 15), (net 255 255 + 65535, 32)]"

text \<open>The code looks at the first two octets only, so it refuses four of them in a wider form.\<close>

definition widened_networks :: "(int \<times> nat) list" where
  "widened_networks = [(net 192 0, 16), (net 198 51, 16), (net 203 0, 16), (net 255 0, 8)]"

fun in_network :: "int \<Rightarrow> int \<times> nat \<Rightarrow> bool" where
  "in_network v (a, len) = (v div 2 ^ (32 - len) = a div 2 ^ (32 - len))"

definition in_blocked_network :: "int \<Rightarrow> bool" where
  "in_blocked_network v = list_ex (in_network v) (documented_networks @ widened_networks)"

lemma in_wider:
  assumes "in_network v (a, 24)" shows "in_network v (a, 16)"
proof -
  have "x div 2 ^ (8 + 8) = x div 2 ^ 8 div 2 ^ 8" for x :: int by (rule div_exp_eq [symmetric])
  with assms show ?thesis by simp
qed

lemma in_blocked_short:
  "in_blocked_network v \<longleftrightarrow> list_ex (in_network v)
     [(net 127 0, 8), (net 0 0, 8), (net 10 0, 8), (net 172 16, 12), (net 192 168, 16), (net 169 254, 16),
      (net 100 64, 10), (net 192 0, 16), (net 198 51, 16), (net 198 18, 15), (net 203 0, 16), (net 255 0, 8)]"
proof -
  have n: "(net a b + c) div 2 ^ 16 = net a b div 2 ^ 16" if "0 \<le> c" "c < 2 ^ 16" for a b c
    using that by (simp add: net_def)
  have "in_network v (net a b, 16)" if "in_network v (net a b + c, 24)" "0 \<le> c" "c < 2 ^ 16" for a b c
    using in_wider [OF that(1)] n [OF that(2,3)] by simp
  from this [of 192 0 512] this [of 198 51 25600] this [of 203 0 28928]
  have w: "in_network v (net 192 0 + 512, 24) \<Longrightarrow> in_network v (net 192 0, 16)"
    "in_network v (net 198 51 + 25600, 24) \<Longrightarrow> in_network v (net 198 51, 16)"
    "in_network v (net 203 0 + 28928, 24) \<Longrightarrow> in_network v (net 203 0, 16)" by simp_all
  have b: "in_network v (net 255 255 + 65535, 32) \<Longrightarrow> in_network v (net 255 0, 8)" by (simp add: net_def)
  show ?thesis
    unfolding in_blocked_network_def documented_networks_def widened_networks_def
    by (auto simp del: in_network.simps dest: w b)
qed

lemma div_eq_iff:
  assumes "0 < (m :: int)"
  shows "h div m = c \<longleftrightarrow> c * m \<le> h \<and> h < (c + 1) * m"
proof
  assume "h div m = c"
  then have "c * m + h mod m = h" by auto
  then show "c * m \<le> h \<and> h < (c + 1) * m"
    using assms pos_mod_bound [of m h] pos_mod_sign [of m h] unfolding distrib_right mult_1 by linarith
next
  assume "c * m \<le> h \<and> h < (c + 1) * m"
  then have "0 \<le> h - m * c" "h - m * c < m" unfolding distrib_right mult.commute [of m] by linarith+
  then show "h div m = c" by (intro int_div_pos_eq [of _ _ _ "h - m * c"]) simp_all
qed

lemma octet_range:
  assumes "0 \<le> (r :: int)" "r < 256" "0 \<le> lo" "hi \<le> 255"
  shows "256 * a + lo \<le> 256 * q + r \<and> 256 * q + r \<le> 256 * a + hi \<longleftrightarrow> q = a \<and> lo \<le> r \<and> r \<le> hi"
  using assms by (cases q a rule: linorder_cases) linarith+

lemma private_iff:
  assumes "0 \<le> v" "v < 2 ^ 32"
  shows "private_network (v div 2 ^ 24) (v div 2 ^ 16 mod 256) \<longleftrightarrow> in_blocked_network v"
proof -
  define h where "h = v div 2 ^ 16"
  define q r where "q = h div 256" and "r = h mod 256"
  have "h = 256 * q + r" by (simp add: q_def r_def)
  have r: "0 \<le> r" "r < 256" by (simp_all add: r_def)
  have q: "v div 2 ^ 24 = q"
    using zdiv_zmult2_eq [of "2 ^ 8" v "2 ^ 16"] by (simp add: q_def h_def)
  have n: "in_network v (net a b, 8) \<longleftrightarrow> q = a"
    "in_network v (net a b, 16) \<longleftrightarrow> q = a \<and> r = b" if "0 \<le> b" "b < 256" for a b
  proof -
    have n24: "net a b div 2 ^ 24 = a"
      using that by (intro int_div_pos_eq [of _ _ _ "b * 2 ^ 16"]) (simp_all add: net_def)
    have n16: "net a b div 2 ^ 16 = 256 * a + b" by (simp add: net_def)
    show "in_network v (net a b, 8) \<longleftrightarrow> q = a" using q n24 by simp
    have "in_network v (net a b, 16) \<longleftrightarrow> h = 256 * a + b" using n16 by (simp add: h_def)
    also have "\<dots> \<longleftrightarrow> q = a \<and> r = b" 
      using octet_range [OF r, of b b a q] that \<open>h = 256 * q + r\<close> by auto
    finally show "in_network v (net a b, 16) \<longleftrightarrow> q = a \<and> r = b" .
  qed
  have parts: "h div 16 = 2753 \<longleftrightarrow> q = 172 \<and> 16 \<le> r \<and> r \<le> 31"
    "h div 64 = 401 \<longleftrightarrow> q = 100 \<and> 64 \<le> r \<and> r \<le> 127" "h div 2 = 25353 \<longleftrightarrow> q = 198 \<and> 18 \<le> r \<and> r \<le> 19"
  proof -
    have "h div 16 = 2753 \<longleftrightarrow> 256 * 172 + 16 \<le> h \<and> h \<le> 256 * 172 + 31"
      "h div 64 = 401 \<longleftrightarrow> 256 * 100 + 64 \<le> h \<and> h \<le> 256 * 100 + 127"
      "h div 2 = 25353 \<longleftrightarrow> 256 * 198 + 18 \<le> h \<and> h \<le> 256 * 198 + 19"
      by (auto simp: div_eq_iff)
    then show "h div 16 = 2753 \<longleftrightarrow> q = 172 \<and> 16 \<le> r \<and> r \<le> 31"
      "h div 64 = 401 \<longleftrightarrow> q = 100 \<and> 64 \<le> r \<and> r \<le> 127" "h div 2 = 25353 \<longleftrightarrow> q = 198 \<and> 18 \<le> r \<and> r \<le> 19"
      unfolding \<open>h = 256 * q + r\<close>
      using octet_range [OF r, of 16 31 172 q] octet_range [OF r, of 64 127 100 q] octet_range [OF r, of 18 19 198 q]
      by simp_all
  qed
  have div: "v div 2 ^ (16 + k) = h div 2 ^ k" for k
    unfolding h_def by (rule div_exp_eq [symmetric])
  have "v div 2 ^ 20 = h div 16" "v div 2 ^ 22 = h div 64" "v div 2 ^ 17 = h div 2"
    using div [of 4] div [of 6] div [of 1] by simp_all
  then have "in_network v (net 172 16, 12) \<longleftrightarrow> h div 16 = 2753" "in_network v (net 100 64, 10) \<longleftrightarrow> h div 64 = 401"
    "in_network v (net 198 18, 15) \<longleftrightarrow> h div 2 = 25353" by (simp_all add: net_def)
  then have "in_network v (net 172 16, 12) \<longleftrightarrow> q = 172 \<and> 16 \<le> r \<and> r \<le> 31"
    "in_network v (net 100 64, 10) \<longleftrightarrow> q = 100 \<and> 64 \<le> r \<and> r \<le> 127"
    "in_network v (net 198 18, 15) \<longleftrightarrow> q = 198 \<and> 18 \<le> r \<and> r \<le> 19"
    using parts by blast+
  then show ?thesis
    unfolding q h_def [symmetric] r_def [symmetric] private_network_def in_blocked_short
    by (simp add: n del: in_network.simps) argo
qed

section \<open>Dotted hosts\<close>

lemma top_octets:
  assumes "v = a * 2 ^ 24 + b * 2 ^ 16 + (c :: int)" "0 \<le> b" "b < 256" "0 \<le> c" "c < 2 ^ 16"
  shows "v div 2 ^ 24 = a" "v div 2 ^ 16 mod 256 = b"
proof -
  have "v div 2 ^ 16 = 256 * a + b"
    using assms by (intro int_div_pos_eq [of _ _ _ c]) simp_all
  then show "v div 2 ^ 16 mod 256 = b" using assms by simp
  show "v div 2 ^ 24 = a"
    using assms by (intro int_div_pos_eq [of _ _ _ "b * 2 ^ 16 + c"]) simp_all
qed

lemma value_blocked:
  assumes "v = a * 2 ^ 24 + b * 2 ^ 16 + c" "0 \<le> a" "a < 256" "0 \<le> b" "b < 256" "0 \<le> c" "c < 2 ^ 16"
  shows "private_network a b \<longleftrightarrow> in_blocked_network v" "0 \<le> v \<and> v < 2 ^ 32"
proof -
  show v: "0 \<le> v \<and> v < 2 ^ 32" using assms by auto
  show "private_network a b \<longleftrightarrow> in_blocked_network v"
    using private_iff [of v] v top_octets [OF assms(1,4-)] by simp
qed

lemma four_cases:
  assumes "ps \<noteq> []" "length ps \<le> 4"
  obtains a where "ps = [a]" | a b where "ps = [a, b]" | a b c where "ps = [a, b, c]" | a b c d where "ps = [a, b, c, d]"
  using assms by (cases ps; cases "tl ps"; cases "tl (tl ps)"; cases "tl (tl (tl ps))") auto

lemma dotted_blocked_value:
  assumes "list_all (\<lambda>p. 0 \<le> p) ps" "ps \<noteq> []" "length ps \<le> 4"
  shows "dotted_blocked ps \<longleftrightarrow> (case aton_value ps of None \<Rightarrow> True | Some v \<Rightarrow> in_blocked_network v)"
  using assms(2,3)
proof (cases rule: four_cases)
  case (1 a)
  then show ?thesis using assms(1) private_iff [of a]
    by (simp add: dotted_blocked_def aton_value_def octet_div)
next
  case (2 a b)
  have b: "octet 16 b = b div 2 ^ 16" "b = b div 2 ^ 16 * 2 ^ 16 + b mod 2 ^ 16" "b div 2 ^ 16 < 256" if "b < 2 ^ 24"
  proof -
    have "0 \<le> b" using assms(1) 2 by simp
    then have "0 \<le> b div 2 ^ 16" "b div 2 ^ 16 < 256"
      using that by (simp_all add: div_less_iff_less_mult pos_imp_zdiv_nonneg_iff)
    with \<open>0 \<le> b\<close> that show "octet 16 b = b div 2 ^ 16" "b = b div 2 ^ 16 * 2 ^ 16 + b mod 2 ^ 16" "b div 2 ^ 16 < 256"
      by (simp_all add: octet_div)
  qed
  show ?thesis
    using assms(1) 2 b value_blocked(1) [of "a * 2 ^ 24 + b" a "b div 2 ^ 16" "b mod 2 ^ 16"]
    by (auto simp: dotted_blocked_def aton_value_def pos_imp_zdiv_nonneg_iff)
next
  case (3 a b c)
  then show ?thesis using assms(1) value_blocked(1) [of "(a * 256 + b) * 65536 + c" a b c]
    by (auto simp: dotted_blocked_def aton_value_def algebra_simps)
next
  case (4 a b c d)
  then show ?thesis using assms(1) value_blocked(1) [of "((a * 256 + b) * 256 + c) * 256 + d" a b "c * 256 + d"]
    by (auto simp: dotted_blocked_def aton_value_def algebra_simps)
qed

section \<open>Numeric hosts\<close>

text \<open>A part in small letters is read alike by the code and by the reference.\<close>

lemma hex_text_lower: "toLowerCase p = p \<Longrightarrow> hex_text p \<longleftrightarrow> startsWith p ''0x'' \<and> all_digits 16 (drop 2 p)"
  by (simp add: hex_text_def)

lemma all_digits_mono: "all_digits b s \<Longrightarrow> b \<le> b' \<Longrightarrow> all_digits b' s"
  by (auto simp: all_digits_def list_all_iff digit_of_base_def split: option.splits)

lemma x_not_digit: "b \<le> 33 \<Longrightarrow> \<not> digit_of_base b CHR ''x''"
  by (simp add: digit_of_base_def base_digit_def)

lemma aton_part_code:
  assumes "toLowerCase p = p"
  shows "aton_part p = (if part_shape p then part_value p else None)"
proof (cases "startsWith p ''0x''")
  case True
  then obtain r where r: "p = ''0x'' @ r" by (auto simp: startsWith_iff)
  then have "\<not> all_digits 10 p" using x_not_digit [of 10] by (simp add: all_digits_def)
  with True assms show ?thesis by (simp add: aton_part_def part_shape_def part_value_def hex_text_lower)
next
  case False
  have len: "startsWith p ''0'' \<Longrightarrow> p \<noteq> ''0'' \<longleftrightarrow> 1 < length p" by (auto simp: startsWith_iff)
  from False assms show ?thesis
    by (auto simp: aton_part_def part_shape_def part_value_def hex_text_lower len dest: all_digits_mono [of 8 _ 10])
qed

lemma read_int_nonneg: "0 \<le> b \<Longrightarrow> 0 \<le> read_int b s"
proof -
  assume b: "0 \<le> b"
  have "0 \<le> acc \<Longrightarrow> 0 \<le> foldl (\<lambda>acc c. b * acc + int (the (base_digit c))) acc s" for acc
    by (induction s arbitrary: acc) (simp_all add: b)
  then show ?thesis by (simp add: read_int_def)
qed

lemma part_value_nonneg: "part_value p = Some v \<Longrightarrow> 0 \<le> v"
  by (auto simp: part_value_def read_int_nonneg split: if_splits)

lemma split_parts_lower: "toLowerCase h = h \<Longrightarrow> p \<in> set (split_on c h) \<Longrightarrow> toLowerCase p = p"
proof -
  have "\<forall>p\<in>set (split_on c h). set p \<subseteq> set h" by (induction h) (auto split: list.splits)
  moreover assume "toLowerCase h = h" "p \<in> set (split_on c h)"
  ultimately show ?thesis by (auto simp: toLowerCase_def map_idI map_eq_conv [where g = id, simplified])
qed

lemma aton_Some:
  assumes "aton h = Some v" "toLowerCase h = h"
  shows "list_all part_shape (split_on CHR ''.'' h)" "list_ex (\<lambda>p. part_value p = None) (split_on CHR ''.'' h) \<longleftrightarrow> False"
    "aton_value (map (\<lambda>p. the (part_value p)) (split_on CHR ''.'' h)) = Some v" "length (split_on CHR ''.'' h) \<le> 4"
proof -
  let ?ps = "split_on CHR ''.'' h"
  have "\<forall>p\<in>set ?ps. aton_part p \<noteq> None"
    using assms(1) by (force simp: aton_def Let_def split: if_splits)
  then have p: "\<forall>p\<in>set ?ps. part_shape p \<and> part_value p \<noteq> None \<and> aton_part p = part_value p"
    using aton_part_code split_parts_lower [OF assms(2)] by (metis (full_types))
  then show "list_all part_shape ?ps" "list_ex (\<lambda>p. part_value p = None) ?ps \<longleftrightarrow> False"
    by (auto simp: list_all_iff list_ex_iff)
  have eq: "map the (map aton_part ?ps) = map (\<lambda>p. the (part_value p)) ?ps" using p by simp
  have "aton_value (map the (map aton_part ?ps)) = Some v"
    using assms(1) unfolding aton_def Let_def by (cases "None \<in> set (map aton_part ?ps)") (simp_all del: map_map)
  then show v: "aton_value (map (\<lambda>p. the (part_value p)) ?ps) = Some v" unfolding eq .
  then show "length ?ps \<le> 4" by (simp add: aton_value_def split: if_splits)
qed

lemma dotted_verdict_aton:
  assumes "aton h = Some v" "toLowerCase h = h" "CHR ''.'' \<in> set h"
  shows "dotted_verdict h = Some (in_blocked_network v)"
proof -
  let ?ps = "split_on CHR ''.'' h"
  note a = aton_Some [OF assms(1,2)]
  have "list_all (\<lambda>p. 0 \<le> p) (map (\<lambda>p. the (part_value p)) ?ps)"
    using a(2) part_value_nonneg by (fastforce simp: list_all_iff list_ex_iff)
  then have "dotted_blocked (map (\<lambda>p. the (part_value p)) ?ps) \<longleftrightarrow> in_blocked_network v"
    using a(3,4) by (subst dotted_blocked_value) simp_all
  then show ?thesis using a assms(3) by (simp add: dotted_verdict_def Let_def)
qed

lemma digit16_plain: "digit_of_base 16 c \<Longrightarrow> js_lower_char c = c \<Longrightarrow> plain_char c"
proof -
  assume d: "digit_of_base 16 c" "js_lower_char c = c"
  define n where "n = (of_char c :: nat)"
  have "\<not> (65 \<le> n \<and> n \<le> 90)"
  proof
    assume n: "65 \<le> n \<and> n \<le> 90"
    then have "js_lower_char c = char_of (n + 32)" by (simp add: js_lower_char_def n_def Let_def)
    then have "of_char (js_lower_char c) = n + 32" using n by simp
    then show False unfolding d(2) n_def by simp
  qed
  with d(1) show ?thesis
    by (auto simp: digit_of_base_def base_digit_def plain_char_def n_def Let_def split: if_splits)
qed

lemma part_shape_digits:
  assumes "part_shape p" "toLowerCase p = p" "c \<in> set p"
  shows "digit_of_base 16 c \<or> c = CHR ''x''"
proof (cases "all_digits 10 p")
  case True
  then have "all_digits 16 p" by (rule all_digits_mono) simp
  with assms(3) show ?thesis by (simp add: all_digits_def list_all_iff)
next
  case False
  with assms(1,2) obtain r where "p = ''0x'' @ r" "all_digits 16 r"
    by (auto simp: part_shape_def hex_text_lower startsWith_iff)
  with assms(3) show ?thesis by (auto simp: all_digits_def list_all_iff digit_of_base_def base_digit_def)
qed

lemma part_shape_plain:
  assumes "part_shape p" "toLowerCase p = p"
  shows "list_all plain_char p"
proof -
  have low: "js_lower_char c = c" if "c \<in> set p" for c
    using assms(2) that by (metis in_set_conv_nth length_map nth_map toLowerCase_def)
  have "plain_char CHR ''x''" by (simp add: plain_char_def)
  with part_shape_digits [OF assms] low digit16_plain show ?thesis unfolding list_all_iff by blast
qed

lemma split_on_set: "x \<in> set h \<Longrightarrow> x = c \<or> (\<exists>p\<in>set (split_on c h). x \<in> set p)"
proof (induction h)
  case (Cons y h)
  then show ?case by (cases "split_on c h") auto
qed simp

lemma split_on_snoc: "split_on c (s @ [c]) = split_on c s @ [[]]"
  by (induction s) (auto split: list.splits)

lemma aton_plain:
  assumes "aton h = Some v" "toLowerCase h = h"
  shows "list_all plain_char h" "h \<noteq> []" "last h \<noteq> CHR ''.''"
proof -
  let ?ps = "split_on CHR ''.'' h"
  note a = aton_Some [OF assms]
  have p: "list_all plain_char p" if "p \<in> set ?ps" for p
    by (rule part_shape_plain) (use a(1) that split_parts_lower [OF assms(2) that] in \<open>auto simp: list_all_iff\<close>)
  have "plain_char CHR ''.''" by (simp add: plain_char_def)
  with p show "list_all plain_char h" unfolding list_all_iff by (metis split_on_set)
  have ne: "[] \<notin> set ?ps" using a(1) by (auto simp: list_all_iff part_shape_def hex_text_def all_digits_def startsWith_def)
  then show n: "h \<noteq> []" by auto
  show "last h \<noteq> CHR ''.''"
  proof
    assume l: "last h = CHR ''.''"
    have "h = butlast h @ [CHR ''.'']" using append_butlast_last_id [OF n] unfolding l by (rule sym)
    then have "?ps = split_on CHR ''.'' (butlast h) @ [[]]" by (metis split_on_snoc)
    with ne show False by simp
  qed
qed

lemma plain_normal:
  assumes "list_all plain_char h" "h \<noteq> []"
  shows "isPrivateOrBlockedAddress wide h = blocked_host h"
proof -
  have "CHR ''%'' \<notin> set h" using assms(1) plain_char_simps(3) unfolding list_all_iff by blast
  moreover have "unescape wide 5 [] h = Some h" using calculation by (simp add: eval_nat_numeral)
  ultimately show ?thesis using assms by (simp add: isPrivateOrBlockedAddress_def plain_trim plain_lower)
qed

lemma plain_host:
  assumes "list_all plain_char (toLowerCase (trim h))" "toLowerCase (trim h) \<noteq> []"
  shows "isPrivateOrBlockedAddress wide h = blocked_host (toLowerCase (trim h))"
proof -
  let ?h = "toLowerCase (trim h)"
  have "CHR ''%'' \<notin> set ?h" using assms(1) plain_char_simps(3) unfolding list_all_iff by blast
  moreover have "unescape wide 5 [] ?h = Some ?h" using calculation by (simp add: eval_nat_numeral)
  moreover have "h \<noteq> []" using assms(2) by (auto simp: trim_def)
  ultimately show ?thesis by (simp add: isPrivateOrBlockedAddress_def)
qed

lemma names_not_numeric: "h \<in> set BLOCKED_HOSTNAMES \<Longrightarrow> aton h = None"
proof -
  have "list_all (\<lambda>h. aton h = None) BLOCKED_HOSTNAMES" by code_simp
  then show "h \<in> set BLOCKED_HOSTNAMES \<Longrightarrow> aton h = None" by (simp add: list_all_iff)
qed

lemma blocked_dotted:
  assumes "aton h = Some v" "toLowerCase h = h" "CHR ''.'' \<in> set h"
  shows "blocked_host h \<longleftrightarrow> in_blocked_network v"
proof -
  have "clean_host h = h" by (rule plain_clean) (simp_all add: aton_plain [OF assms(1,2)])
  moreover have "h \<notin> set BLOCKED_HOSTNAMES" using names_not_numeric assms(1) by force
  ultimately show ?thesis
    by (subst blocked_host.simps) (simp add: host_number_no_dot dotted_verdict_aton assms Let_def)
qed

section \<open>Hosts that are one number\<close>

lemma base_digit_char: "d < 10 \<Longrightarrow> base_digit (char_of (48 + d)) = Some d"
  by (simp add: base_digit_def)

lemma read_int_show: "read_int 10 (show_nat n) = int n"
proof (induction n rule: show_nat.induct)
  case (1 n)
  show ?case
  proof (cases "n < 10")
    case True
    then show ?thesis by (subst show_nat.simps) (simp add: read_int_def base_digit_char)
  next
    case False
    have "read_int 10 (s @ [char_of (48 + d)]) = 10 * read_int 10 s + int d" if "d < 10" for s d
      using base_digit_char [OF that] by (simp add: read_int_def)
    with False 1 show ?thesis
      by (subst show_nat.simps) (simp flip: of_nat_mult add: zdiv_int zmod_int)
  qed
qed

lemma show_nat_zero: "startsWith (show_nat n) ''0'' \<Longrightarrow> show_nat n = ''0''"
proof (induction n rule: show_nat.induct)
  case (1 n)
  show ?case
  proof (cases "n < 10")
    case True
    then show ?thesis using 1(2) by (subst show_nat.simps, subst (asm) show_nat.simps) (auto simp: startsWith_iff)
  next
    case False
    have n: "show_nat n = show_nat (n div 10) @ [char_of (48 + n mod 10)]"
      using False by (subst show_nat.simps) simp
    have "startsWith (show_nat (n div 10)) ''0''"
      using 1(2) unfolding n by (cases "show_nat (n div 10)") (simp_all add: startsWith_iff)
    with 1(1) False have "show_nat (n div 10) = ''0''" by simp
    then have "read_int 10 (show_nat (n div 10)) = 0" by (simp add: read_int_def base_digit_def)
    with False show ?thesis unfolding read_int_show by simp
  qed
qed

lemma show_nat_all_digits: "all_digits 10 (show_nat n)"
proof -
  have "is_digit c \<Longrightarrow> digit_of_base 10 c" for c
    by (auto simp: is_digit_def digit_of_base_def base_digit_def Let_def)
  with show_nat_digits [of n] show ?thesis by (auto simp: all_digits_def list_all_iff)
qed

lemma aton_part_show: "aton_part (show_nat n) = Some (int n)"
proof -
  have "\<not> startsWith (show_nat n) ''0x''"
    using show_nat_zero [of n] by (auto simp: startsWith_iff)
  moreover have "startsWith (show_nat n) ''0'' \<Longrightarrow> show_nat n = ''0''" by (rule show_nat_zero)
  ultimately show ?thesis using show_nat_all_digits [of n] read_int_show [of n] by (auto simp: aton_part_def)
qed

lemma aton_dotted:
  assumes "0 \<le> a" "a < 256" "0 \<le> b" "b < 256" "0 \<le> c" "c < 256" "0 \<le> d" "d < 256"
  shows "aton (dotted a b c d) = Some (((256 * a + b) * 256 + c) * 256 + d)"
proof -
  have "split_on CHR ''.'' (dotted a b c d) = map (show_nat \<circ> nat) [a, b, c, d]"
    using assms by (simp add: dotted_append split_on_part split_on_none show_nat_plain)
  then show ?thesis using assms by (simp add: aton_def Let_def aton_part_show aton_value_def algebra_simps)
qed

lemma four_octets:
  fixes v :: int
  assumes "0 \<le> v" "v < 2 ^ 32"
  shows "((256 * (v div 2 ^ 24 mod 256) + v div 2 ^ 16 mod 256) * 256 + v div 2 ^ 8 mod 256) * 256 + v div 2 ^ 0 mod 256 = v"
proof -
  have step: "256 * (w div 256) + w mod 256 = w" for w :: int by (rule mult_div_mod_eq)
  have "v div 2 ^ 24 < 256" "0 \<le> v div 2 ^ 24"
    using assms by (simp_all add: div_less_iff_less_mult pos_imp_zdiv_nonneg_iff)
  then have top: "v div 2 ^ 24 mod 256 = v div 2 ^ 24" by (rule mod_pos_pos_trivial [rotated])
  have div: "v div 2 ^ 24 = v div 2 ^ 16 div 256" "v div 2 ^ 16 = v div 2 ^ 8 div 256" "v div 2 ^ 8 = v div 256"
    using zdiv_zmult2_eq [of "2 ^ 8" v "2 ^ 16"] zdiv_zmult2_eq [of "2 ^ 8" v "2 ^ 8"] by simp_all
  have "256 * (v div 2 ^ 24) + v div 2 ^ 16 mod 256 = v div 2 ^ 16" unfolding div(1) by (rule step)
  moreover have "v div 2 ^ 16 * 256 + v div 2 ^ 8 mod 256 = v div 2 ^ 8"
    unfolding div(2) mult.commute [of _ "256 :: int"] by (rule step)
  moreover have "v div 2 ^ 8 * 256 + v div 2 ^ 0 mod 256 = v"
    unfolding div(3) mult.commute [of _ "256 :: int"] power_0 div_by_1 by (rule step)
  ultimately show ?thesis unfolding top by (simp only:)
qed

lemma aton_quad:
  assumes "0 \<le> v" "v < 2 ^ 32"
  shows "aton (quad_of v) = Some v"
  unfolding quad_of_def
  by (subst aton_dotted)
    (simp_all only: octet_bounds le_less_trans [OF octet_bounds(2)] octet_div [OF assms] four_octets [OF assms]
      order.refl numeral_le_iff less_num_simps le_num_simps zero_le_numeral numeral_less_iff semiring_norm)

text \<open>The code reads a lone number in decimal or hexadecimal, the reference also in octal.\<close>

definition lone_octal :: "string \<Rightarrow> bool" where
  "lone_octal h \<longleftrightarrow> CHR ''.'' \<notin> set h \<and> 1 < length h \<and> startsWith h ''0'' \<and> \<not> startsWith h ''0x''"

lemma host_number_lone:
  assumes "aton h = Some v" "toLowerCase h = h" "CHR ''.'' \<notin> set h" "\<not> lone_octal h"
  shows "host_number h = Some v" "0 \<le> v" "v < 2 ^ 32"
proof -
  have "aton_part h = Some v \<and> 0 \<le> v \<and> v < 2 ^ 32"
    using assms(1) by (simp add: aton_def split_on_none [OF assms(3)] aton_value_def split: if_splits)
  then have a: "aton_part h = Some v" and v: "0 \<le> v" "v < 2 ^ 32" by blast+
  then show "0 \<le> v" "v < 2 ^ 32" by blast+
  have z: "startsWith h ''0'' \<Longrightarrow> \<not> startsWith h ''0x'' \<Longrightarrow> h = ''0''"
    using assms(3,4) by (auto simp: lone_octal_def startsWith_iff)
  show "host_number h = Some v"
  proof (cases "startsWith h ''0x''")
    case True
    then obtain r where r: "h = ''0x'' @ r" by (auto simp: startsWith_iff)
    then have "\<not> all_digits 10 h" using x_not_digit [of 10] by (simp add: all_digits_def)
    with True a v assms(2) show ?thesis by (simp add: aton_part_def host_number_def hex_text_lower split: if_splits)
  next
    case False
    with z a have "all_digits 10 h \<and> read_int 10 h = v" by (auto simp: aton_part_def split: if_splits)
    with v show ?thesis by (simp add: host_number_def)
  qed
qed

lemma blocked_quad:
  assumes "0 \<le> v" "v < 2 ^ 32"
  shows "blocked_host (toLowerCase (trim (quad_of v))) \<longleftrightarrow> in_blocked_network v"
proof -
  have p: "list_all plain_char (quad_of v)" "CHR ''.'' \<in> set (quad_of v)" unfolding quad_of_def by (simp_all add: dotted_plain)
  then show ?thesis
    by (simp add: plain_trim plain_lower blocked_dotted [OF aton_quad [OF assms]])
qed

lemma blocked_numeric:
  assumes "aton h = Some v" "toLowerCase h = h" "\<not> lone_octal h"
  shows "blocked_host h \<longleftrightarrow> in_blocked_network v"
proof (cases "CHR ''.'' \<in> set h")
  case False
  note n = host_number_lone [OF assms(1,2) False assms(3)]
  have "clean_host h = h" by (rule plain_clean) (simp_all add: aton_plain [OF assms(1,2)])
  moreover have "h \<notin> set BLOCKED_HOSTNAMES" using names_not_numeric assms(1) by force
  ultimately show ?thesis by (subst blocked_host.simps) (simp only: n(1) blocked_quad [OF n(2,3)] Let_def option.case if_False)
qed (rule blocked_dotted [OF assms(1,2)])

section \<open>Mapped addresses\<close>

lemma aton_no_colon:
  assumes "aton h = Some v" "toLowerCase h = h"
  shows "CHR '':'' \<notin> set h"
proof
  assume "CHR '':'' \<in> set h"
  then obtain p where p: "p \<in> set (split_on CHR ''.'' h)" "CHR '':'' \<in> set p"
    using split_on_set [of "CHR '':''" h "CHR ''.''"] that by (auto simp del: split_on.simps)
  have d: "\<not> digit_of_base b CHR '':''" for b by (simp add: digit_of_base_def base_digit_def)
  have "part_shape p" "toLowerCase p = p"
    using aton_Some(1) [OF assms] split_parts_lower [OF assms(2) p(1)] p(1) by (simp_all add: list_all_iff)
  from part_shape_digits [OF this p(2)] d [of 16] show False by simp
qed

lemma colon_first:
  assumes "h = CHR '':'' # t"
  shows "\<not> part_shape h" "\<not> quad_like h" "host_number h = None" "dotted_verdict h = None"
    "h \<notin> set BLOCKED_HOSTNAMES" "\<not> startsWith h ''f''"
proof -
  have d: "\<not> digit_of_base b CHR '':''" for b by (simp add: digit_of_base_def base_digit_def)
  have low: "js_lower_char CHR '':'' = CHR '':''" by (simp add: js_lower_char_def)
  have bad: "\<not> part_shape (CHR '':'' # s)" "\<not> quad_like (CHR '':'' # s)" for s
    using d by (simp_all add: part_shape_def hex_text_def startsWith_def toLowerCase_def low all_digits_def quad_like_def)
  then show "\<not> part_shape h" "\<not> quad_like h" unfolding assms by blast+
  show "host_number h = None"
    using d by (simp add: assms host_number_def all_digits_def hex_text_def toLowerCase_def low startsWith_def)
  have "hd (split_on CHR ''.'' h) = CHR '':'' # hd (split_on CHR ''.'' t)" by (simp add: assms split: list.splits)
  moreover have "hd (split_on CHR ''.'' h) \<in> set (split_on CHR ''.'' h)" by (rule hd_in_set) simp
  ultimately have "\<not> list_all part_shape (split_on CHR ''.'' h)" "\<not> list_all quad_like (split_on CHR ''.'' h)"
    using bad unfolding list_all_iff by metis+
  then show "dotted_verdict h = None" by (simp add: dotted_verdict_def Let_def)
qed (simp_all add: assms BLOCKED_HOSTNAMES_def startsWith_def)

lemma mapped_prefix:
  assumes "list_all plain_char r" "r \<noteq> []" "last r \<noteq> CHR ''.''"
  shows "isPrivateOrBlockedAddress wide (''::ffff:'' @ r) =
    (case hex_words r of Some q \<Rightarrow> blocked_host (toLowerCase (trim q)) | None \<Rightarrow> blocked_host r)"
proof -
  define h where "h = ''::ffff:'' @ r"
  have h: "h = CHR '':'' # '':ffff:'' @ r" by (simp add: h_def)
  have p: "list_all plain_char h" using assms(1) by (simp add: h_def plain_char_def)
  have ne: "h \<noteq> []" "last h \<noteq> CHR ''.''" using assms(2,3) by (simp_all add: h_def)
  have clean: "clean_host h = h" by (rule plain_clean) (simp_all add: p ne)
  have one: "one_line r" using assms(1) by (auto simp: one_line_def plain_char_def list_all_iff Let_def)
  have "startsWith (toLowerCase h) ''::ffff:''" unfolding plain_lower [OF p] by (simp add: h_def startsWith_def)
  moreover have "drop 7 h = r" by (simp add: h_def)
  ultimately have mr: "mapped_rest h = Some r" using assms(2) one by (simp add: mapped_rest_def Let_def)
  have no: "\<not> loopback6 h" "\<not> startsWith h ''fc''" "\<not> startsWith h ''fd''" "\<not> link_local6 h" "CHR '':'' \<in> set h"
    unfolding h by (simp_all add: loopback6_def link_local6_def startsWith_def)
  note c = colon_first [OF h]
  have "toLowerCase (trim r) = r" using assms(1) by (simp add: plain_trim plain_lower)
  then have "blocked_host h =
    (case hex_words r of Some q \<Rightarrow> blocked_host (toLowerCase (trim q)) | None \<Rightarrow> blocked_host r)"
    by (subst blocked_host.simps) (simp add: clean c no mr Let_def split: option.split)
  then show ?thesis unfolding h_def [symmetric] plain_normal [OF p ne(1)] .
qed

lemma mapped_numeric:
  assumes "aton r = Some v" "toLowerCase r = r" "\<not> lone_octal r"
  shows "isPrivateOrBlockedAddress wide (''::ffff:'' @ r) \<longleftrightarrow> in_blocked_network v"
proof -
  have "split_on CHR '':'' r = [r]" by (rule split_on_none) (rule aton_no_colon [OF assms(1,2)])
  then have "hex_words r = None" by (simp add: hex_words_def)
  then show ?thesis unfolding mapped_prefix [OF aton_plain [OF assms(1,2)]]
    by (simp only: option.case blocked_numeric [OF assms])
qed

end
