(* ===== verification/Egress_Six.thy ===== *)
theory Egress_Six
  imports Egress_Facts
begin

text \<open>
  Addresses of version 6 in a URL: the text the URL standard gives them, the addresses that are not
  public, and that the egress check refuses every text of such an address.
\<close>

section \<open>Two groups of hexadecimal digits\<close>

lemma base_digit_less: "digit_of_base b c \<Longrightarrow> the (base_digit c) < b"
  by (auto simp: digit_of_base_def split: option.splits)

lemma read_int_snoc: "read_int b (s @ [c]) = b * read_int b s + int (the (base_digit c))"
  by (simp add: read_int_def)

lemma read_int_less: "list_all (digit_of_base 16) s \<Longrightarrow> read_int 16 s < 16 ^ length s"
proof (induction s rule: rev_induct)
  case (snoc c s)
  then show ?case using base_digit_less [of 16 c] by (simp add: read_int_snoc)
qed (simp add: read_int_def)

lemma hex_group_range:
  assumes "hex_group g"
  shows "0 \<le> read_int 16 g" "read_int 16 g < 65536"
proof -
  have "read_int 16 g < 16 ^ length g" using assms by (intro read_int_less) (simp add: hex_group_def all_digits_def)
  also have "\<dots> \<le> (16 :: int) ^ 4" using assms by (intro power_increasing) (simp_all add: hex_group_def)
  finally show "read_int 16 g < 65536" by simp
qed (simp add: read_int_nonneg)

lemma hex_group_plain:
  assumes "hex_group g" "toLowerCase g = g"
  shows "list_all plain_char g" "CHR '':'' \<notin> set g" "g \<noteq> []" "last g \<noteq> CHR ''.''"
proof -
  have d: "digit_of_base 16 c" if "c \<in> set g" for c
    using assms(1) that by (simp add: hex_group_def all_digits_def list_all_iff)
  have low: "js_lower_char c = c" if "c \<in> set g" for c
    using assms(2) that by (metis in_set_conv_nth length_map nth_map toLowerCase_def)
  show "list_all plain_char g" unfolding list_all_iff using d low digit16_plain by blast
  have no: "\<not> digit_of_base b CHR '':''" "\<not> digit_of_base b CHR ''.''" for b
    by (simp_all add: digit_of_base_def base_digit_def)
  show "CHR '':'' \<notin> set g" using d [of "CHR '':''"] no(1) [of 16] by blast
  show ne: "g \<noteq> []" using assms(1) by (simp add: hex_group_def all_digits_def)
  show "last g \<noteq> CHR ''.''" using d [OF last_in_set [OF ne]] no(2) [of 16] by metis
qed

lemma mapped_words:
  assumes "hex_group g" "toLowerCase g = g" "hex_group k" "toLowerCase k = k"
  shows "isPrivateOrBlockedAddress wide (''::ffff:'' @ g @ '':'' @ k) \<longleftrightarrow>
    in_blocked_network (65536 * read_int 16 g + read_int 16 k)"
proof -
  define a b where "a = read_int 16 g" and "b = read_int 16 k"
  have r: "0 \<le> a" "a < 65536" "0 \<le> b" "b < 65536" unfolding a_def b_def using assms by (simp_all add: hex_group_range)
  note pg = hex_group_plain [OF assms(1,2)] and pk = hex_group_plain [OF assms(3,4)]
  have "split_on CHR '':'' (g @ CHR '':'' # k) = [g, k]" using pg pk by (simp add: split_on_part split_on_none)
  then have w: "hex_words (g @ CHR '':'' # k) = Some (dotted (octet 8 a) (octet 0 a) (octet 8 b) (octet 0 b))"
    using assms by (simp add: hex_words_def a_def b_def Let_def)
  have o: "octet 8 x = x div 256" "octet 0 x = x mod 256" "x div 256 < 256" "0 \<le> x div 256" if "0 \<le> x" "x < 65536" for x
    using that by (simp_all add: octet_div div_less_iff_less_mult pos_imp_zdiv_nonneg_iff)
  define q where "q = dotted (a div 256) (a mod 256) (b div 256) (b mod 256)"
  have ex: "((256 * (a div 256) + a mod 256) * 256 + b div 256) * 256 + b mod 256 = 65536 * a + b" by simp
  have aton: "aton q = Some (65536 * a + b)"
    unfolding q_def ex [symmetric] by (rule aton_dotted) (use o r in simp_all)
  have q: "list_all plain_char q" "CHR ''.'' \<in> set q" unfolding q_def using o r by (simp_all add: dotted_plain)
  have "isPrivateOrBlockedAddress wide (''::ffff:'' @ (g @ CHR '':'' # k)) = blocked_host (toLowerCase (trim q))"
    by (subst mapped_prefix) (use pg pk w o r in \<open>simp_all add: q_def plain_char_def\<close>)
  also have "\<dots> = in_blocked_network (65536 * a + b)"
    unfolding plain_trim [OF q(1)] plain_lower [OF q(1)] by (rule blocked_dotted [OF aton plain_lower [OF q(1)] q(2)])
  finally show ?thesis by (simp add: a_def b_def)
qed

section \<open>The text of an address\<close>

definition hex_char :: "nat \<Rightarrow> char" where
  "hex_char d = (if d < 10 then char_of (48 + d) else char_of (87 + d))"

fun show_hex :: "nat \<Rightarrow> string" where
  "show_hex n = (if n < 16 then [hex_char n] else show_hex (n div 16) @ [hex_char (n mod 16)])"

declare show_hex.simps [simp del]

definition address6 :: "nat list \<Rightarrow> bool" where
  "address6 gs \<longleftrightarrow> length gs = 8 \<and> (\<forall>g\<in>set gs. g < 65536)"

text \<open>The URL standard writes the groups in hexadecimal without leading zeros and contracts the first of
  the longest runs of at least two zero groups.\<close>

definition zeros_at :: "nat list \<Rightarrow> nat \<Rightarrow> nat" where
  "zeros_at gs i = length (takeWhile (\<lambda>g. g = 0) (drop i gs))"

definition longest_zeros :: "nat list \<Rightarrow> nat" where
  "longest_zeros gs = foldr max (map (zeros_at gs) [0..<length gs]) 0"

definition show_ipv6 :: "nat list \<Rightarrow> string" where
  "show_ipv6 gs =
     (let n = longest_zeros gs; hex = map show_hex gs; i = length (takeWhile (\<lambda>i. zeros_at gs i < n) [0..<length gs]) in
      if n < 2 then join_with '':'' hex
      else join_with '':'' (take i hex) @ ''::'' @ join_with '':'' (drop (i + n) hex))"

text \<open>Unspecified and loopback, fc00::/7, fe80::/10, and the refused addresses of version 4 in ::ffff:0:0/96.\<close>

definition reserved6 :: "nat list \<Rightarrow> bool" where
  "reserved6 gs \<longleftrightarrow>
     gs = replicate 8 0 \<or> gs = replicate 7 0 @ [1] \<or> 64512 \<le> gs ! 0 \<and> gs ! 0 \<le> 65023 \<or>
     65152 \<le> gs ! 0 \<and> gs ! 0 \<le> 65215 \<or>
     take 6 gs = [0, 0, 0, 0, 0, 65535] \<and> in_blocked_network (65536 * int (gs ! 6) + int (gs ! 7))"

section \<open>Digits\<close>

lemma hex_digit:
  assumes "d < 16"
  shows "digit_of_base 16 (hex_char d)" "the (base_digit (hex_char d)) = d" "js_lower_char (hex_char d) = hex_char d"
    "plain_char (hex_char d)" "hex_char d \<noteq> CHR ''.''" "hex_char d \<noteq> CHR '':''"
proof -
  have n: "(of_char (hex_char d) :: nat) = (if d < 10 then 48 + d else 87 + d)"
    using assms by (simp add: hex_char_def)
  show "digit_of_base 16 (hex_char d)" "the (base_digit (hex_char d)) = d"
    using assms by (auto simp: digit_of_base_def base_digit_def n Let_def)
  show "js_lower_char (hex_char d) = hex_char d" using assms by (auto simp: js_lower_char_def n Let_def)
  show "plain_char (hex_char d)" using assms by (auto simp: plain_char_def n Let_def)
  show "hex_char d \<noteq> CHR ''.''" using n assms by (auto split: if_splits)
  show "hex_char d \<noteq> CHR '':''" using n assms by (auto split: if_splits)
qed

lemma show_hex_chars: "c \<in> set (show_hex n) \<Longrightarrow> \<exists>d<16. c = hex_char d"
proof (induction n rule: show_hex.induct)
  case (1 n)
  have "\<exists>d<16. hex_char (n mod 16) = hex_char d" by (intro exI [of _ "n mod 16"]) simp
  with 1 show ?case by (subst (asm) (2) show_hex.simps) (auto split: if_splits)
qed

lemma show_hex_nonempty: "show_hex n \<noteq> []"
  by (subst show_hex.simps) simp

lemma read_show_hex: "read_int 16 (show_hex n) = int n"
proof (induction n rule: show_hex.induct)
  case (1 n)
  show ?case
  proof (cases "n < 16")
    case True
    then show ?thesis by (subst show_hex.simps) (simp add: read_int_def hex_digit)
  next
    case False
    have "read_int 16 (show_hex (n div 16) @ [hex_char (n mod 16)]) = 16 * int (n div 16) + int (n mod 16)"
      using 1 False by (simp add: read_int_snoc hex_digit)
    also have "\<dots> = int n" by (metis mult_div_mod_eq of_nat_add of_nat_mult of_nat_numeral)
    finally show ?thesis using False by (subst show_hex.simps) simp
  qed
qed

lemma length_show_hex: "n < 16 ^ Suc k \<Longrightarrow> length (show_hex n) \<le> Suc k"
proof (induction k arbitrary: n)
  case 0
  then show ?case by (subst show_hex.simps) simp
next
  case (Suc k)
  then have "n div 16 < 16 ^ Suc k" by (simp add: less_mult_imp_div_less)
  with Suc.IH show ?case by (subst show_hex.simps) auto
qed

lemma hex_group_show:
  assumes "n < 65536"
  shows "hex_group (show_hex n)" "toLowerCase (show_hex n) = show_hex n"
proof -
  have "length (show_hex n) \<le> 4" using length_show_hex [of n 3] assms by simp
  moreover have "digit_of_base 16 c \<and> js_lower_char c = c" if "c \<in> set (show_hex n)" for c
    using show_hex_chars [OF that] hex_digit by blast
  ultimately show "hex_group (show_hex n)" "toLowerCase (show_hex n) = show_hex n"
    using show_hex_nonempty by (simp_all add: hex_group_def all_digits_def list_all_iff toLowerCase_def map_idI)
qed

lemma show_hex_four:
  assumes "4096 \<le> g" "g < 65536"
  shows "show_hex g = [hex_char (g div 4096), hex_char (g div 256 mod 16), hex_char (g div 16 mod 16), hex_char (g mod 16)]"
proof -
  have d: "g div 16 div 16 = g div 256" "g div 256 div 16 = g div 4096" by (simp_all add: div_mult2_eq [symmetric])
  have b: "16 \<le> g div 256" "16 \<le> g div 16" "g div 4096 < 16" "\<not> g < 16" using assms by linarith+
  have "show_hex (g div 4096) = [hex_char (g div 4096)]" using b by (subst show_hex.simps) simp
  then have "show_hex (g div 256) = [hex_char (g div 4096), hex_char (g div 256 mod 16)]"
    using b d by (subst show_hex.simps) simp
  then have "show_hex (g div 16) = [hex_char (g div 4096), hex_char (g div 256 mod 16), hex_char (g div 16 mod 16)]"
    using b d by (subst show_hex.simps) simp
  then show ?thesis using b by (subst show_hex.simps) simp
qed

section \<open>Characters\<close>

lemma join_all: "(\<And>w. w \<in> set ws \<Longrightarrow> list_all P w) \<Longrightarrow> list_all P c \<Longrightarrow> list_all P (join_with c ws)"
  by (induction c ws rule: join_with.induct) auto

lemma join_first: "ws \<noteq> [] \<Longrightarrow> \<exists>r. join_with c ws = hd ws @ r"
  by (induction c ws rule: join_with.induct) auto

lemma show_ipv6_chars: "list_all (\<lambda>c. plain_char c \<and> c \<noteq> CHR ''.'') (show_ipv6 gs)"
proof -
  have "list_all (\<lambda>c. plain_char c \<and> c \<noteq> CHR ''.'') w" if "w \<in> set (map show_hex gs)" for w
    using that show_hex_chars hex_digit by (fastforce simp: list_all_iff)
  then have j: "list_all (\<lambda>c. plain_char c \<and> c \<noteq> CHR ''.'') (join_with '':'' ws)" if "set ws \<subseteq> set (map show_hex gs)" for ws
    using that by (intro join_all) (auto simp: plain_char_def)
  have "list_all (\<lambda>c. plain_char c \<and> c \<noteq> CHR ''.'') (join_with '':'' (take i (map show_hex gs)))"
    "list_all (\<lambda>c. plain_char c \<and> c \<noteq> CHR ''.'') (join_with '':'' (drop i (map show_hex gs)))" for i
    by (rule j, rule set_take_subset, rule j, rule set_drop_subset)
  moreover have "plain_char CHR '':''" by (simp add: plain_char_def)
  ultimately show ?thesis using j [OF order.refl] by (simp add: show_ipv6_def Let_def)
qed

lemma show_ipv6_colon: "2 \<le> length gs \<Longrightarrow> CHR '':'' \<in> set (show_ipv6 gs)"
  by (cases gs; cases "tl gs") (auto simp: show_ipv6_def Let_def)

lemma show_ipv6_first:
  assumes "gs \<noteq> []" "gs ! 0 \<noteq> 0"
  shows "\<exists>r. show_ipv6 gs = show_hex (gs ! 0) @ r"
proof -
  obtain g hs where gs: "gs = g # hs" using assms(1) by (cases gs) auto
  have z: "zeros_at gs 0 = 0" using assms(2) by (simp add: zeros_at_def gs)
  show ?thesis
  proof (cases "longest_zeros gs < 2")
    case True
    with join_first [of "map show_hex gs" "'':''"] show ?thesis by (simp add: show_ipv6_def gs)
  next
    case False
    have u: "[0..<length gs] = 0 # [Suc 0..<length gs]" by (rule upt_conv_Cons) (simp add: gs)
    define i where "i = length (takeWhile (\<lambda>i. zeros_at gs i < longest_zeros gs) [0..<length gs])"
    have "i = Suc (length (takeWhile (\<lambda>i. zeros_at gs i < longest_zeros gs) [Suc 0..<length gs]))"
      using False z unfolding i_def u by simp
    then have "take i (map show_hex gs) \<noteq> []" "hd (take i (map show_hex gs)) = show_hex (gs ! 0)" by (simp_all add: gs)
    with join_first [of "take i (map show_hex gs)" "'':''"] False show ?thesis
      by (auto simp: show_ipv6_def Let_def i_def [symmetric])
  qed
qed

section \<open>Brackets\<close>

lemma bracketed:
  assumes "list_all plain_char s" "s \<noteq> []" "last s \<noteq> CHR ''.''"
  shows "isPrivateOrBlockedAddress wide (''['' @ s @ '']'') = blocked_host s"
proof -
  let ?h = "''['' @ s @ '']''"
  have sp: "\<not> js_space CHR ''[''" "\<not> js_space CHR '']''" by (simp_all add: js_space_def)
  have t: "trim ?h = ?h" by (simp add: trim_def sp)
  have l: "toLowerCase ?h = ?h"
    using plain_lower [OF assms(1)] by (simp add: toLowerCase_def) (simp add: js_lower_char_def)
  have p: "CHR ''%'' \<notin> set ?h" using assms(1) plain_char_simps(3) unfolding list_all_iff by auto
  then have u: "unescape wide 5 [] ?h = Some ?h" by (simp add: eval_nat_numeral)
  have "\<not> endsWith ?h ''.''" by (auto simp: endsWith_iff)
  then have "drop_brackets (drop_dot ?h) = s"
    by (simp add: drop_dot_def drop_brackets_def startsWith_def endsWith_def)
  moreover have "takeWhile (\<lambda>c. c \<noteq> CHR ''%'') s = s" unfolding takeWhile_eq_all_conv using p by auto
  ultimately have "clean_host ?h = s" by (simp add: clean_host_def)
  moreover have "clean_host s = s" using assms by (intro plain_clean) simp_all
  ultimately have "blocked_host ?h = blocked_host s"
    by (subst blocked_host.simps, subst (4) blocked_host.simps) simp
  with t l p u show ?thesis by (simp add: isPrivateOrBlockedAddress_def)
qed

section \<open>Refused addresses\<close>

lemma starts_with_f:
  assumes "list_all (\<lambda>c. plain_char c \<and> c \<noteq> CHR ''.'') s" "CHR '':'' \<in> set s" "s = CHR ''f'' # r"
    and "startsWith s ''fc'' \<or> startsWith s ''fd'' \<or> link_local6 s"
  shows "blocked_host s"
proof -
  have dot: "CHR ''.'' \<notin> set s" using assms(1) by (auto simp: list_all_iff)
  have "list_all plain_char s" using assms(1) by (simp add: list_all_iff)
  moreover have "last s \<noteq> CHR ''.''" using dot assms(3) by (metis last_in_set list.distinct(1))
  ultimately have c: "clean_host s = s" by (intro plain_clean) simp_all
  have "\<not> all_digits 10 s" by (simp add: assms(3) all_digits_def digit_of_base_def base_digit_def)
  moreover have "js_lower_char CHR ''f'' = CHR ''f''" by (simp add: js_lower_char_def)
  then have "\<not> hex_text s" by (simp add: assms(3) hex_text_def toLowerCase_def startsWith_def)
  ultimately have "host_number s = None" by (simp add: host_number_def)
  moreover have "dotted_verdict s = None" using dot by (simp add: dotted_verdict_def)
  ultimately show ?thesis using assms(2,4) by (subst blocked_host.simps) (auto simp: c Let_def)
qed

lemma local_groups:
  assumes "64512 \<le> g \<and> g \<le> 65023 \<or> 65152 \<le> g \<and> g \<le> 65215"
  shows "\<exists>r. show_hex g = CHR ''f'' # r" "\<And>r. startsWith (show_hex g @ r) ''fc'' \<or> startsWith (show_hex g @ r) ''fd'' \<or> link_local6 (show_hex g @ r)"
proof -
  have g: "4096 \<le> g" "g < 65536" "g div 4096 = 15" using assms by linarith+
  have f: "hex_char 15 = CHR ''f''" "hex_char 12 = CHR ''c''" "hex_char 13 = CHR ''d''" "hex_char 14 = CHR ''e''"
    "hex_char 8 = CHR ''8''" "hex_char 9 = CHR ''9''" "hex_char 10 = CHR ''a''" "hex_char 11 = CHR ''b''"
    by code_simp+
  show "\<exists>r. show_hex g = CHR ''f'' # r" by (simp add: show_hex_four g f)
  have "g div 256 = 252 \<or> g div 256 = 253 \<or> g div 256 = 254 \<and> (g div 16 = 4072 \<or> g div 16 = 4073 \<or> g div 16 = 4074 \<or> g div 16 = 4075)"
    using assms by linarith
  then show "\<And>r. startsWith (show_hex g @ r) ''fc'' \<or> startsWith (show_hex g @ r) ''fd'' \<or> link_local6 (show_hex g @ r)"
    by (auto simp: show_hex_four g f startsWith_def link_local6_def)
qed

lemma show_mapped: "show_ipv6 [0, 0, 0, 0, 0, 65535, a, b] = ''::ffff:'' @ show_hex a @ '':'' @ show_hex b"
proof -
  define gs where "gs = [0, 0, 0, 0, 0, 65535, a, b]"
  have "hex_char 15 = CHR ''f''" by code_simp
  then have f: "map show_hex gs = [show_hex 0, show_hex 0, show_hex 0, show_hex 0, show_hex 0, ''ffff'', show_hex a, show_hex b]"
    by (simp add: gs_def show_hex_four)
  have u: "[0..<length gs] = [0, 1, 2, 3, 4, 5, 6, 7]" by (simp add: gs_def upt_conv_Cons)
  have z: "zeros_at gs 0 = 5" "zeros_at gs 1 = 4" "zeros_at gs 2 = 3" "zeros_at gs 3 = 2"
    "zeros_at gs 4 = 1" "zeros_at gs 5 = 0" "zeros_at gs 6 \<le> 2" "zeros_at gs 7 \<le> 1"
    by (simp_all add: zeros_at_def gs_def)
  have "max (zeros_at gs 6) (zeros_at gs 7) \<le> 2" using z(7,8) by simp
  then have l: "longest_zeros gs = 5"
    unfolding longest_zeros_def u list.map foldr.simps comp_def id_def z(1-6) by simp
  have "takeWhile (\<lambda>i. zeros_at gs i < 5) [0, 1, 2, 3, 4, 5, 6, 7] = []" using z(1) by simp
  then show ?thesis unfolding gs_def [symmetric] show_ipv6_def Let_def l u f by simp
qed

text \<open>The host of a URL with such an address is refused.\<close>

lemma reserved6_blocked:
  assumes "address6 gs" "reserved6 gs"
  shows "isPrivateOrBlockedAddress wide (''['' @ show_ipv6 gs @ '']'')"
proof -
  have len: "length gs = 8" using assms(1) by (simp add: address6_def)
  have pc: "list_all plain_char (show_ipv6 gs)" "CHR ''.'' \<notin> set (show_ipv6 gs)"
    using show_ipv6_chars [of gs] by (auto simp: list_all_iff)
  have colon: "CHR '':'' \<in> set (show_ipv6 gs)" using len by (intro show_ipv6_colon) simp
  then have ne: "show_ipv6 gs \<noteq> []" by auto
  then have "last (show_ipv6 gs) \<noteq> CHR ''.''" using pc(2) last_in_set by metis
  note bare = bracketed [OF pc(1) ne this]
  consider (zero) "gs = replicate 8 0" | (one) "gs = replicate 7 0 @ [1]"
    | (local) "64512 \<le> gs ! 0 \<and> gs ! 0 \<le> 65023 \<or> 65152 \<le> gs ! 0 \<and> gs ! 0 \<le> 65215"
    | (mapped) "take 6 gs = [0, 0, 0, 0, 0, 65535]" "in_blocked_network (65536 * int (gs ! 6) + int (gs ! 7))"
    using assms(2) unfolding reserved6_def by blast
  then have "blocked_host (show_ipv6 gs)"
  proof cases
    case zero
    have "blocked_host (show_ipv6 (replicate 8 0))" by code_simp
    with zero show ?thesis by simp
  next
    case one
    have "blocked_host (show_ipv6 (replicate 7 0 @ [1]))" by code_simp
    with one show ?thesis by simp
  next
    case local
    have "gs \<noteq> []" "gs ! 0 \<noteq> 0" using len local by auto
    then obtain r where r: "show_ipv6 gs = show_hex (gs ! 0) @ r" using show_ipv6_first by blast
    obtain q where q: "show_hex (gs ! 0) = CHR ''f'' # q" using local_groups(1) [OF local] by blast
    show ?thesis
      by (rule starts_with_f [OF show_ipv6_chars colon, of "q @ r"])
        (use r q local_groups(2) [OF local, of r] in simp_all)
  next
    case mapped
    have "gs = take 6 gs @ drop 6 gs" by simp
    moreover obtain a b where ab: "drop 6 gs = [a, b]"
      using len by (cases "drop 6 gs"; cases "tl (drop 6 gs)"; cases "tl (tl (drop 6 gs))") (auto dest: arg_cong [of _ _ length])
    ultimately have gs: "gs = [0, 0, 0, 0, 0, 65535, a, b]" using mapped(1) by simp
    then have "a < 65536" "b < 65536" using assms(1) by (simp_all add: address6_def)
    note h = hex_group_show [OF this(1)] hex_group_show [OF this(2)]
    have "isPrivateOrBlockedAddress wide (show_ipv6 gs)"
      unfolding gs show_mapped mapped_words [OF h] read_show_hex using mapped(2) by (simp add: gs)
    then show ?thesis using plain_normal [OF pc(1) ne] by simp
  qed
  with bare show ?thesis by simp
qed

end
