(* ===== verification/Egress_Claims.thy ===== *)
theory Egress_Claims
  imports Egress_Six
begin

text \<open>
  What the egress check promises: the verdict on a numeric host, on an address of version 4 written
  in version 6, and on an accepted URL; and the spellings on which the code and the address disagree.
\<close>

section \<open>Verdicts\<close>

lemma name_blocked:
  assumes "h \<in> set BLOCKED_HOSTNAMES"
  shows "isPrivateOrBlockedAddress wide h"
proof -
  have "list_all (\<lambda>h. h \<noteq> [] \<and> toLowerCase (trim h) = h \<and> CHR ''%'' \<notin> set h \<and> clean_host h = h) BLOCKED_HOSTNAMES"
    by code_simp
  with assms have h: "h \<noteq> []" "toLowerCase (trim h) = h" "CHR ''%'' \<notin> set h" "clean_host h = h"
    by (simp_all add: list_all_iff)
  then have "unescape wide 5 [] (toLowerCase (trim h)) = Some h" by (simp add: eval_nat_numeral)
  moreover have "blocked_host h" by (subst blocked_host.simps) (simp add: h(4) assms Let_def)
  ultimately show ?thesis using h by (simp add: isPrivateOrBlockedAddress_def)
qed

text \<open>C10. A text that, trimmed and in small letters, spells an IPv4 address the way inet_aton reads it (one to
  four parts, each decimal, octal or hexadecimal), and is not a lone octal number, is refused by the egress
  check exactly when the address lies in a network the comments of egress.ts name (127/8, 0/8, 10/8,
  172.16/12, 192.168/16, 169.254/16, 100.64/10, 192.0.2/24, 198.51.100/24, 203.0.113/24, 198.18/15,
  255.255.255.255) or in 192.0/16, 198.51/16, 203.0/16 or 255/8, which the code refuses beyond them.\<close>

theorem numeric_host_verdict:
  assumes "aton (toLowerCase (trim h)) = Some v" "\<not> lone_octal (toLowerCase (trim h))"
  shows "isPrivateOrBlockedAddress wide h \<longleftrightarrow>
    list_ex (in_network v) documented_networks \<or> list_ex (in_network v) widened_networks"
proof -
  have l: "toLowerCase (toLowerCase (trim h)) = toLowerCase (trim h)" by simp
  have "isPrivateOrBlockedAddress wide h \<longleftrightarrow> blocked_host (toLowerCase (trim h))"
    by (rule plain_host) (rule aton_plain [OF assms(1) l])+
  also have "\<dots> \<longleftrightarrow> in_blocked_network v" by (rule blocked_numeric [OF assms(1) l assms(2)])
  finally show ?thesis by (auto simp: in_blocked_network_def)
qed

theorem numeric_host_verdict_witness:
  "isPrivateOrBlockedAddress (\<lambda>_. []) '' 0X7F.1'' \<and> isPrivateOrBlockedAddress (\<lambda>_. []) ''2852039166'' \<and>
   isPrivateOrBlockedAddress (\<lambda>_. []) ''0300.0250.0.1'' \<and> \<not> isPrivateOrBlockedAddress (\<lambda>_. []) ''8.8.8.8''"
proof -
  have "aton (toLowerCase (trim '' 0X7F.1'')) = Some 2130706433" "aton (toLowerCase (trim ''2852039166'')) = Some 2852039166"
    "aton (toLowerCase (trim ''0300.0250.0.1'')) = Some 3232235521" "aton (toLowerCase (trim ''8.8.8.8'')) = Some 134744072"
    by code_simp+
  moreover have "\<not> lone_octal (toLowerCase (trim '' 0X7F.1''))" "\<not> lone_octal (toLowerCase (trim ''2852039166''))"
    "\<not> lone_octal (toLowerCase (trim ''0300.0250.0.1''))" "\<not> lone_octal (toLowerCase (trim ''8.8.8.8''))" by code_simp+
  moreover have "list_ex (in_network 2130706433) documented_networks" "list_ex (in_network 2852039166) documented_networks"
    "list_ex (in_network 3232235521) documented_networks"
    "\<not> list_ex (in_network 134744072) documented_networks" "\<not> list_ex (in_network 134744072) widened_networks" by code_simp+
  ultimately show ?thesis
    using numeric_host_verdict [of "'' 0X7F.1''" 2130706433] numeric_host_verdict [of "''2852039166''" 2852039166]
      numeric_host_verdict [of "''0300.0250.0.1''" 3232235521] numeric_host_verdict [of "''8.8.8.8''" 134744072]
    by (simp only: simp_thms)
qed

text \<open>An IPv4 address embedded in IPv6 after the prefix ::ffff: gets the verdict of the address,
  whether it is written as inet_aton reads it or as two groups of hexadecimal digits.\<close>

theorem mapped_host_verdict:
  assumes "toLowerCase r = r"
    and "aton r = Some v \<and> \<not> lone_octal r \<or>
      (\<exists>g k. r = g @ '':'' @ k \<and> hex_group g \<and> hex_group k \<and> v = 65536 * read_int 16 g + read_int 16 k)"
  shows "isPrivateOrBlockedAddress wide (''::ffff:'' @ r) \<longleftrightarrow> in_blocked_network v"
  using assms(2)
proof (elim disjE exE conjE)
  fix g k
  assume g: "r = g @ '':'' @ k" "hex_group g" "hex_group k" "v = 65536 * read_int 16 g + read_int 16 k"
  have "toLowerCase g = g \<and> toLowerCase k = k" using assms(1) unfolding g(1) toLowerCase_def by simp
  then show ?thesis unfolding g(1,4) using g(2,3) by (intro mapped_words) simp_all
qed (rule mapped_numeric [OF _ assms(1)])

theorem mapped_host_verdict_witness:
  "isPrivateOrBlockedAddress (\<lambda>_. []) ''::ffff:a9fe:a9fe'' \<and> \<not> isPrivateOrBlockedAddress (\<lambda>_. []) ''::ffff:8.8.8.8''"
proof -
  have low: "toLowerCase ''a9fe:a9fe'' = ''a9fe:a9fe''" "toLowerCase ''8.8.8.8'' = ''8.8.8.8''" by code_simp+
  have "hex_group ''a9fe'' \<and> 2852039166 = 65536 * read_int 16 ''a9fe'' + read_int 16 ''a9fe''" by code_simp
  then have "\<exists>g k. ''a9fe:a9fe'' = g @ '':'' @ k \<and> hex_group g \<and> hex_group k \<and>
      2852039166 = 65536 * read_int 16 g + read_int 16 k" by (intro exI [of _ "''a9fe''"]) simp
  moreover have "aton ''8.8.8.8'' = Some 134744072 \<and> \<not> lone_octal ''8.8.8.8''" by code_simp
  moreover have "in_blocked_network 2852039166" "\<not> in_blocked_network 134744072" by code_simp+
  ultimately show ?thesis
    using mapped_host_verdict [OF low(1), of 2852039166 "\<lambda>_. []"] mapped_host_verdict [OF low(2), of 134744072 "\<lambda>_. []"]
    by simp
qed

text \<open>C12. A URL the check accepts is what the parser made of the trimmed text, over http or https and
  without credentials; its host is on the list when there is one and is no blocked name; when it is an IPv4
  address in any spelling but a lone octal number, it lies outside every network of C10; and when it is the
  text the URL standard gives an IPv6 address, the address is neither unspecified nor loopback, nor in
  fc00::/7 or fe80::/10, nor an IPv4 address of those networks in ::ffff:0:0/96. (URL parsers bring every
  numeric host into the standard's form, so the spellings left out do not come out of one.)\<close>

theorem accepted_url_is_public:
  assumes "validateEgressUrl wide parse raw hosts = Inr u"
  shows "parse (trim raw) = Some u \<and> ul_protocol u \<in> {''http:'', ''https:''} \<and> ul_username u = [] \<and> ul_password u = [] \<and>
    (\<forall>hs. hosts = Some hs \<and> hs \<noteq> [] \<longrightarrow> toLowerCase (ul_hostname u) \<in> (\<lambda>h. trim (toLowerCase h)) ` set hs) \<and>
    toLowerCase (ul_hostname u) \<notin> set BLOCKED_HOSTNAMES \<and>
    (\<forall>v. aton (toLowerCase (ul_hostname u)) = Some v \<and> \<not> lone_octal (toLowerCase (ul_hostname u)) \<longrightarrow> \<not> in_blocked_network v) \<and>
    (\<forall>gs. address6 gs \<and> toLowerCase (ul_hostname u) = ''['' @ show_ipv6 gs @ '']'' \<longrightarrow> \<not> reserved6 gs)"
proof -
  let ?h = "toLowerCase (ul_hostname u)"
  have a: "parse (trim raw) = Some u" "ul_protocol u \<in> {''http:'', ''https:''}" "ul_username u = []" "ul_password u = []"
    "\<not> isPrivateOrBlockedAddress wide ?h"
    "\<forall>hs. hosts = Some hs \<and> hs \<noteq> [] \<longrightarrow> ?h \<in> (\<lambda>h. trim (toLowerCase h)) ` set hs"
    using assms by (auto simp: validateEgressUrl_def throw_if_def split: if_splits option.splits)
  have "?h \<notin> set BLOCKED_HOSTNAMES" using a(5) name_blocked by blast
  moreover have "\<not> in_blocked_network v" if v: "aton ?h = Some v" "\<not> lone_octal ?h" for v
  proof -
    have low: "toLowerCase ?h = ?h" by (simp add: toLowerCase_def)
    show ?thesis using a(5) unfolding plain_normal [OF aton_plain(1,2) [OF v(1) low]] blocked_numeric [OF v(1) low v(2)] .
  qed
  moreover have "\<not> reserved6 gs" if g: "address6 gs" "?h = ''['' @ show_ipv6 gs @ '']''" for gs
    using a(5) reserved6_blocked [OF g(1), of wide] unfolding g(2) by blast
  ultimately show ?thesis using a by blast
qed

definition sample_url :: url where
  "sample_url = \<lparr>ul_protocol = ''https:'', ul_username = [], ul_password = [], ul_hostname = ''8.8.8.8'', ul_port = []\<rparr>"

theorem accepted_url_is_public_witness:
  "validateEgressUrl (\<lambda>_. []) (\<lambda>_. Some sample_url) '' https://8.8.8.8'' (Some ['' 8.8.8.8 '']) = Inr sample_url \<and>
   \<not> in_blocked_network 134744072"
proof -
  have v: "validateEgressUrl (\<lambda>_. []) (\<lambda>_. Some sample_url) '' https://8.8.8.8'' (Some ['' 8.8.8.8 '']) = Inr sample_url"
    by code_simp
  have "aton (toLowerCase (ul_hostname sample_url)) = Some 134744072" "\<not> lone_octal (toLowerCase (ul_hostname sample_url))"
    by code_simp+
  with accepted_url_is_public [OF v] v show ?thesis by blast
qed

section \<open>Spellings that escape\<close>

text \<open>The check is not exact: a lone octal number, read as decimal, and IPv6 spellings of the
  loopback other than the four listed pass, and a host name made of letters a to f is refused.\<close>

theorem escaped_spellings:
  "aton ''017700000001'' = Some 2130706433 \<and> in_blocked_network 2130706433 \<and>
   \<not> isPrivateOrBlockedAddress wide ''017700000001'' \<and> \<not> isPrivateOrBlockedAddress wide ''0::1'' \<and>
   \<not> isPrivateOrBlockedAddress wide ''::127.0.0.1'' \<and> isPrivateOrBlockedAddress wide ''abc.de''"
proof -
  have "list_all (\<lambda>h. list_all plain_char h \<and> h \<noteq> []) [''017700000001'', ''0::1'', ''::127.0.0.1'', ''abc.de'']" by code_simp
  moreover have "\<not> blocked_host ''017700000001''" "\<not> blocked_host ''0::1''" "\<not> blocked_host ''::127.0.0.1''"
    "blocked_host ''abc.de''" by code_simp+
  moreover have "aton ''017700000001'' = Some 2130706433" "in_blocked_network 2130706433" by code_simp+
  ultimately show ?thesis by (simp only: list.pred_inject plain_normal simp_thms not_Cons_self2)
qed

end
