(* ===== verification/Js_Regex.thy ===== *)
theory Js_Regex
  imports Js_Text
begin

text \<open>
  \<open>RegExp.prototype.test\<close> for the patterns the security modules use: literals with and without the
  flag i, classes of characters, repetition of a class, groups, alternatives, word boundaries and
  anchors, on texts of code units below 256. A \<open>spot\<close> is a place in a text: the character before it
  and the text after it. \<open>ends\<close> lists the spots a match can end at; the relation \<open>spans\<close> is what a
  pattern means.
\<close>

type_synonym spot = "char option \<times> string"

datatype regex =
    Lit bool string
  | Class "char \<Rightarrow> bool"
  | Many "char \<Rightarrow> bool"
  | Seq "regex list"
  | Either "regex list"
  | Boundary
  | Start
  | End

definition word_char :: "char \<Rightarrow> bool" where
  "word_char c =
     (let n = (of_char c :: nat) in
      48 \<le> n \<and> n \<le> 57 \<or> 65 \<le> n \<and> n \<le> 90 \<or> n = 95 \<or> 97 \<le> n \<and> n \<le> 122)"

definition ascii_lower :: "char \<Rightarrow> char" where
  "ascii_lower c = (let n = (of_char c :: nat) in if 65 \<le> n \<and> n \<le> 90 then char_of (n + 32) else c)"

definition same_char :: "bool \<Rightarrow> char \<Rightarrow> char \<Rightarrow> bool" where
  "same_char ignoreCase c d = (if ignoreCase then ascii_lower c = ascii_lower d else c = d)"

fun boundary_at :: "spot \<Rightarrow> bool" where
  "boundary_at (p, s) =
     ((case p of None \<Rightarrow> False | Some c \<Rightarrow> word_char c) \<noteq> (case s of [] \<Rightarrow> False | c # _ \<Rightarrow> word_char c))"

fun lit_end :: "bool \<Rightarrow> string \<Rightarrow> spot \<Rightarrow> spot list" where
  "lit_end i [] x = [x]"
| "lit_end i (c # cs) (p, []) = []"
| "lit_end i (c # cs) (p, d # ds) = (if same_char i c d then lit_end i cs (Some d, ds) else [])"

fun many_ends :: "(char \<Rightarrow> bool) \<Rightarrow> char option \<Rightarrow> string \<Rightarrow> spot list" where
  "many_ends P p [] = [(p, [])]"
| "many_ends P p (c # cs) = (p, c # cs) # (if P c then many_ends P (Some c) cs else [])"

fun ends :: "regex \<Rightarrow> spot \<Rightarrow> spot list" where
  "ends (Lit i t) x = lit_end i t x"
| "ends (Class P) x = (case snd x of [] \<Rightarrow> [] | c # cs \<Rightarrow> if P c then [(Some c, cs)] else [])"
| "ends (Many P) x = many_ends P (fst x) (snd x)"
| "ends (Seq []) x = [x]"
| "ends (Seq (r # rs)) x = concat (map (ends (Seq rs)) (ends r x))"
| "ends (Either []) x = []"
| "ends (Either (r # rs)) x = ends r x @ ends (Either rs) x"
| "ends Boundary x = (if boundary_at x then [x] else [])"
| "ends Start x = (if fst x = None then [x] else [])"
| "ends End x = (if snd x = [] then [x] else [])"

fun spots :: "char option \<Rightarrow> string \<Rightarrow> spot list" where
  "spots p [] = [(p, [])]"
| "spots p (c # cs) = (p, c # cs) # spots (Some c) cs"

definition test :: "regex \<Rightarrow> string \<Rightarrow> bool" where
  "test r s = list_ex (\<lambda>x. ends r x \<noteq> []) (spots None s)"

abbreviation optional :: "regex \<Rightarrow> regex" where
  "optional r \<equiv> Either [r, Seq []]"

abbreviation oneof :: "bool \<Rightarrow> string list \<Rightarrow> regex" where
  "oneof i ts \<equiv> Either (map (Lit i) ts)"

section \<open>Meaning\<close>

inductive spans :: "regex \<Rightarrow> spot \<Rightarrow> spot \<Rightarrow> bool" where
  lit_none: "spans (Lit i []) x x"
| lit_more: "same_char i c d \<Longrightarrow> spans (Lit i cs) (Some d, s) y \<Longrightarrow> spans (Lit i (c # cs)) (p, d # s) y"
| cls: "P c \<Longrightarrow> spans (Class P) (p, c # s) (Some c, s)"
| many_none: "spans (Many P) x x"
| many_more: "P c \<Longrightarrow> spans (Many P) (Some c, s) y \<Longrightarrow> spans (Many P) (p, c # s) y"
| seq_none: "spans (Seq []) x x"
| seq_more: "spans r x y \<Longrightarrow> spans (Seq rs) y z \<Longrightarrow> spans (Seq (r # rs)) x z"
| either: "r \<in> set rs \<Longrightarrow> spans r x y \<Longrightarrow> spans (Either rs) x y"
| boundary: "boundary_at x \<Longrightarrow> spans Boundary x x"
| start: "spans Start (None, s) (None, s)"
| final: "spans End (p, []) (p, [])"

inductive_simps spans_simps:
  "spans (Lit i []) x y" "spans (Lit i (c # cs)) x y" "spans (Class P) x y" "spans (Many P) x y" "spans (Seq []) x y"
  "spans (Seq (r # rs)) x y" "spans (Either rs) x y" "spans Boundary x y" "spans Start x y" "spans End x y"

lemma lit_end_iff: "y \<in> set (lit_end i t x) \<longleftrightarrow> spans (Lit i t) x y"
  by (induction i t x rule: lit_end.induct) (auto simp: spans_simps(1,2))

lemma many_ends_iff: "y \<in> set (many_ends P p s) \<longleftrightarrow> spans (Many P) (p, s) y"
proof (induction s arbitrary: p)
  case Nil
  show ?case by (subst spans_simps(4)) auto
next
  case (Cons c s)
  show ?case by (subst spans_simps(4)) (auto simp: Cons)
qed

lemma ends_iff: "y \<in> set (ends r x) \<longleftrightarrow> spans r x y"
proof (induction r x arbitrary: y rule: ends.induct)
  case (1 i t x)
  then show ?case by (simp add: lit_end_iff)
next
  case (3 P x)
  then show ?case by (cases x) (simp add: many_ends_iff)
qed (auto simp: spans_simps split: list.splits)

text \<open>A text passes the test exactly when the pattern spans a part of it.\<close>

lemma test_iff: "test r s \<longleftrightarrow> (\<exists>x\<in>set (spots None s). \<exists>y. spans r x y)"
proof -
  have "ends r x \<noteq> [] \<longleftrightarrow> (\<exists>y. spans r x y)" for x
    using ends_iff [of _ r x] by (cases "ends r x") auto
  then show ?thesis by (simp add: test_def list_ex_iff)
qed

end
