(* ===== verification/Read_Only.thy ===== *)
theory Read_Only
  imports Js_Regex
begin

text \<open>
  packages/security/src/negative-capability.ts: the names no operation, key or text of a parameter may
  contain, the scan of a graph of objects for them, and the guards built on it. Objects live in a
  heap and refer to one another by address, so that they may be shared and cyclic, which is what
  the set of visited objects is for.
\<close>

section \<open>Patterns\<close>

abbreviation under_dash :: regex where
  "under_dash \<equiv> optional (Class (\<lambda>c. c = CHR ''_'' \<or> c = CHR ''-''))"

abbreviation signs :: "string list" where
  "signs \<equiv> [''sign'', ''signed'', ''signing'']"

definition whole_word :: "regex list \<Rightarrow> regex" where
  "whole_word rs = Seq (Boundary # rs @ [Boundary])"

definition upper_or_digit :: "char \<Rightarrow> bool" where
  "upper_or_digit c =
     (let n = (of_char c :: nat) in 65 \<le> n \<and> n \<le> 90 \<or> n = 95 \<or> 48 \<le> n \<and> n \<le> 57)"

definition PROHIBITED_PATTERNS :: "regex list" where
  "PROHIBITED_PATTERNS =
     [whole_word [Lit True ''private'', under_dash, Lit True ''key''],
      whole_word [Lit True ''seed'', under_dash, Lit True ''phrase''],
      whole_word [Lit True ''mnemonic''],
      whole_word [oneof True signs],
      Seq [Boundary, oneof False signs, Class upper_or_digit, Many word_char],
      Seq [Boundary, oneof False [''SIGN'', ''SIGNED'', ''SIGNING''], Class upper_or_digit, Many word_char],
      whole_word [oneof True signs,
        oneof True [''transaction'', ''payload'', ''message'', ''order'', ''data'', ''rawtx'', ''andsend'']],
      whole_word [oneof True [''send'', ''submit'', ''broadcast''], optional (Lit True ''Raw''),
        optional (oneof True [''Transaction'', ''SignedPayload''])],
      whole_word [oneof True [''swap'', ''createSwap'', ''executeSwap'', ''swapExactIn'', ''swapExactTokensForTokens'']],
      whole_word [oneof True [''create'', ''cancel'', ''place'', ''fill'', ''submit'', ''execute'', ''limit'', ''market''],
        Lit True ''Order''],
      whole_word [oneof True [''orderBook'', ''limitOrder'', ''marketOrder'', ''placeOrder'']],
      whole_word [oneof True [''approve'', ''approveToken'', ''tokenApproval'', ''setApprovalForAll'',
        ''increaseAllowance'', ''decreaseAllowance'']],
      whole_word [Lit True ''walletCustody''],
      whole_word [Lit True ''bridgeAsset'', optional (Lit True ''s'')],
      whole_word [Lit True ''stakeToken'', optional (Lit True ''s'')],
      whole_word [Lit True ''transferFund'', optional (Lit True ''s'')],
      whole_word [Lit True ''withdrawFund'', optional (Lit True ''s'')]]"

definition env_word :: "string \<Rightarrow> regex" where
  "env_word w = Seq [Either [Start, Lit True ''_''], Lit True w, Either [End, Lit True ''_'']]"

definition PROHIBITED_ENV_PATTERNS :: "regex list" where
  "PROHIBITED_ENV_PATTERNS =
     map env_word [''PRIVATE_KEY'', ''WALLET_SECRET'', ''SECRET_KEY'', ''SEED_PHRASE'', ''MNEMONIC'',
       ''TRADE_API_KEY'', ''EXECUTION_KEY'']"

definition prohibited :: "string \<Rightarrow> bool" where
  "prohibited s = list_ex (\<lambda>r. test r s) PROHIBITED_PATTERNS"

text \<open>Every pattern begins with a word boundary, so only the ends of words are tried.\<close>

lemma boundary_first: "list_all (\<lambda>r. case r of Seq (Boundary # rs) \<Rightarrow> True | _ \<Rightarrow> False) PROHIBITED_PATTERNS"
  by (simp add: PROHIBITED_PATTERNS_def whole_word_def)

lemma prohibited_code [code]:
  "prohibited s =
     (let bs = filter boundary_at (spots None s) in list_ex (\<lambda>r. list_ex (\<lambda>x. ends r x \<noteq> []) bs) PROHIBITED_PATTERNS)"
proof -
  have "ends r x = []" if "r \<in> set PROHIBITED_PATTERNS" "\<not> boundary_at x" for r x
    using boundary_first that unfolding list_all_iff by (fastforce split: regex.splits list.splits)
  then show ?thesis unfolding prohibited_def test_def list_ex_iff Let_def set_filter by blast
qed

section \<open>Objects\<close>

text \<open>A value of unknown type: null or undefined, another primitive, a text, a function with its
  name, an object by its address.\<close>

datatype js_value = VNone | VPrim | VText string | VFun string | VRef nat

datatype js_node = NArray "js_value list" | NObject "(string \<times> js_value) list"

type_synonym js_heap = "(nat \<times> js_node) list"

text \<open>What the loop over a node visits: the violations of the key, the path and the value.\<close>

definition array_items :: "string \<Rightarrow> js_value list \<Rightarrow> (string list \<times> string \<times> js_value) list" where
  "array_items path vs =
     map (\<lambda>(i, v). ([], path @ ''['' @ show_nat i @ '']'', v)) (zip [0..<length vs] vs)"

definition property_path :: "string \<Rightarrow> string \<Rightarrow> string" where
  "property_path path k = (if path = [] then k else path @ ''.'' @ k)"

definition object_items :: "string \<Rightarrow> (string \<times> js_value) list \<Rightarrow> (string list \<times> string \<times> js_value) list" where
  "object_items path kvs =
     map (\<lambda>(k, v). (map (\<lambda>_. property_path path k @ '':key'') (filter (\<lambda>r. test r k) PROHIBITED_PATTERNS),
       property_path path k, v)) kvs"

fun node_items :: "string \<Rightarrow> js_node \<Rightarrow> (string list \<times> string \<times> js_value) list" where
  "node_items path (NArray vs) = array_items path vs"
| "node_items path (NObject kvs) = object_items path kvs"

type_synonym visit = "js_value \<Rightarrow> string \<Rightarrow> nat list \<Rightarrow> string list \<times> nat list"

fun visit_all :: "visit \<Rightarrow> (string list \<times> string \<times> js_value) list \<Rightarrow> nat list \<Rightarrow> string list \<times> nat list" where
  "visit_all f [] seen = ([], seen)"
| "visit_all f ((own, path, v) # items) seen =
     (let (a, seen1) = f v path seen; (b, seen2) = visit_all f items seen1 in (own @ a @ b, seen2))"

text \<open>The recursion enters every object once; \<open>n\<close> bounds its depth.\<close>

fun scan :: "js_heap \<Rightarrow> nat \<Rightarrow> visit" where
  "scan h n VNone path seen = ([], seen)"
| "scan h n VPrim path seen = ([], seen)"
| "scan h n (VText t) path seen = (if prohibited t then [path @ '':'' @ t] else [], seen)"
| "scan h n (VFun f) path seen =
     (if prohibited f then [(if path = [] then ''function'' else path) @ '':'' @ f] else [], seen)"
| "scan h 0 (VRef a) path seen = ([], seen)"
| "scan h (Suc n) (VRef a) path seen =
     (if a \<in> set seen then ([], seen)
      else case map_of h a of
        None \<Rightarrow> ([], seen)
      | Some node \<Rightarrow> visit_all (scan h n) (node_items path node) (a # seen))"

definition scanObjectForProhibitedCapabilities :: "js_heap \<Rightarrow> js_value \<Rightarrow> string list" where
  "scanObjectForProhibitedCapabilities h v = fst (scan h (Suc (length h)) v [] [])"

section \<open>Guards\<close>

definition capability_error :: "string list \<Rightarrow> error" where
  "capability_error vs = Error (''PROHIBITED_CAPABILITY:'' @ join_with '','' vs)"

definition requireReadOnlyCapability :: "js_heap \<Rightarrow> js_value \<Rightarrow> unit result" where
  "requireReadOnlyCapability h v =
     (case v of
        VText t \<Rightarrow>
          if trim t = [] then Inl (Error ''PROHIBITED_CAPABILITY:INVALID_TYPE'')
          else throw_if (prohibited t) ''PROHIBITED_CAPABILITY'' (Inr ())
      | VNone \<Rightarrow> Inl (Error ''PROHIBITED_CAPABILITY:CAPABILITY_REQUIRED'')
      | VPrim \<Rightarrow> Inl (Error ''PROHIBITED_CAPABILITY:INVALID_TYPE'')
      | _ \<Rightarrow>
          (let vs = scanObjectForProhibitedCapabilities h v in
           if vs \<noteq> [] then Inl (capability_error vs) else Inr ()))"

definition assertReadOnlyEnvironment :: "string list \<Rightarrow> unit result" where
  "assertReadOnlyEnvironment keys =
     (case find (\<lambda>k. list_ex (\<lambda>r. test r k) PROHIBITED_ENV_PATTERNS) keys of
        None \<Rightarrow> Inr ()
      | Some k \<Rightarrow> Inl (Error (''PROHIBITED_SECRET_DETECTED:'' @ k)))"

text \<open>\<open>None\<close> are parameters left out.\<close>

definition assertReadOnlyExecution :: "js_heap \<Rightarrow> string \<Rightarrow> js_value option \<Rightarrow> unit result" where
  "assertReadOnlyExecution h operation parameters =
     bind_result (requireReadOnlyCapability h (VText operation)) (\<lambda>_.
       case parameters of
         None \<Rightarrow> Inr ()
       | Some v \<Rightarrow>
           (let vs = scanObjectForProhibitedCapabilities h v in
            if vs \<noteq> [] then Inl (capability_error vs) else Inr ()))"

section \<open>What a value refers to\<close>

definition node_values :: "js_node \<Rightarrow> js_value list" where
  "node_values node = map (\<lambda>(own, path, v). v) (node_items [] node)"

fun node_keys :: "js_node \<Rightarrow> string list" where
  "node_keys (NArray vs) = []"
| "node_keys (NObject kvs) = map fst kvs"

inductive refers :: "js_heap \<Rightarrow> js_value \<Rightarrow> js_value \<Rightarrow> bool" for h v where
  root: "refers h v v"
| member: "refers h v (VRef a) \<Longrightarrow> map_of h a = Some node \<Longrightarrow> w \<in> set (node_values node) \<Longrightarrow> refers h v w"

definition clean :: "js_heap \<Rightarrow> js_value \<Rightarrow> bool" where
  "clean h v =
     (case v of
        VText t \<Rightarrow> \<not> prohibited t
      | VFun f \<Rightarrow> \<not> prohibited f
      | VRef a \<Rightarrow>
          (case map_of h a of None \<Rightarrow> True | Some node \<Rightarrow> list_all (\<lambda>k. \<not> prohibited k) (node_keys node))
      | _ \<Rightarrow> True)"

section \<open>The scan is exact\<close>

definition settled :: "js_heap \<Rightarrow> nat list \<Rightarrow> js_value \<Rightarrow> bool" where
  "settled h seen v =
     (case v of VRef a \<Rightarrow> a \<in> set seen \<or> map_of h a = None | _ \<Rightarrow> clean h v)"

definition sealed :: "js_heap \<Rightarrow> nat list \<Rightarrow> nat list \<Rightarrow> bool" where
  "sealed h old seen \<longleftrightarrow>
     (\<forall>a\<in>set seen - set old. clean h (VRef a) \<and>
       (\<forall>node. map_of h a = Some node \<longrightarrow> (\<forall>w\<in>set (node_values node). settled h seen w)))"

text \<open>What a visit of one value achieves.\<close>

definition visited :: "js_heap \<Rightarrow> nat list \<Rightarrow> js_value \<Rightarrow> string list \<times> nat list \<Rightarrow> bool" where
  "visited h seen v r \<longleftrightarrow>
     set seen \<subseteq> set (snd r) \<and> (fst r = [] \<longrightarrow> settled h (snd r) v \<and> sealed h seen (snd r)) \<and>
     (fst r \<noteq> [] \<longrightarrow> (\<exists>w. refers h v w \<and> \<not> clean h w))"

lemma settled_mono: "settled h s v \<Longrightarrow> set s \<subseteq> set s' \<Longrightarrow> settled h s' v"
  by (auto simp: settled_def split: js_value.splits)

lemma sealed_trans:
  assumes "sealed h s0 s1" "sealed h s1 s2" "set s1 \<subseteq> set s2"
  shows "sealed h s0 s2"
  unfolding sealed_def
proof
  fix a
  assume a: "a \<in> set s2 - set s0"
  show "clean h (VRef a) \<and> (\<forall>node. map_of h a = Some node \<longrightarrow> (\<forall>w\<in>set (node_values node). settled h s2 w))"
  proof (cases "a \<in> set s1")
    case True
    with a assms(1) show ?thesis using settled_mono [OF _ assms(3)] by (simp add: sealed_def) blast
  next
    case False
    with a have "a \<in> set s2 - set s1" by simp
    with assms(2) show ?thesis unfolding sealed_def by blast
  qed
qed

lemma sealed_Cons:
  assumes "sealed h (a # s) s'" "map_of h a = Some node" "\<And>w. w \<in> set (node_values node) \<Longrightarrow> settled h s' w" "clean h (VRef a)"
  shows "sealed h s s'"
  unfolding sealed_def
proof
  fix b
  assume b: "b \<in> set s' - set s"
  show "clean h (VRef b) \<and> (\<forall>n. map_of h b = Some n \<longrightarrow> (\<forall>w\<in>set (node_values n). settled h s' w))"
  proof (cases "b = a")
    case True
    then show ?thesis using assms(2-4) by simp
  next
    case False
    then have "b \<in> set s' - set (a # s)" using b by simp
    then show ?thesis using assms(1) unfolding sealed_def by blast
  qed
qed

lemma refers_trans: "refers h v u \<Longrightarrow> refers h u w \<Longrightarrow> refers h v w"
  by (rotate_tac 1) (induction rule: refers.induct, auto intro: refers.member)

definition unseen :: "js_heap \<Rightarrow> nat list \<Rightarrow> nat" where
  "unseen h seen = card (fst ` set h - set seen)"

lemma unseen_mono: "set s \<subseteq> set s' \<Longrightarrow> unseen h s' \<le> unseen h s"
  unfolding unseen_def by (intro card_mono) auto

lemma unseen_Cons: "map_of h a = Some node \<Longrightarrow> a \<notin> set s \<Longrightarrow> unseen h (a # s) < unseen h s"
proof -
  assume a: "map_of h a = Some node" "a \<notin> set s"
  then have "a \<in> fst ` set h - set s" by (force dest: map_of_SomeD)
  then have "fst ` set h - set (a # s) \<subset> fst ` set h - set s" by auto
  then show ?thesis unfolding unseen_def by (intro psubset_card_mono) simp_all
qed

lemma visit_all_visited:
  assumes "\<And>v path s. set seen \<subseteq> set s \<Longrightarrow> visited h s v (f v path s)"
  shows "set seen \<subseteq> set (snd (visit_all f items seen)) \<and>
    (fst (visit_all f items seen) = [] \<longrightarrow> sealed h seen (snd (visit_all f items seen)) \<and>
      (\<forall>(own, path, v)\<in>set items. own = [] \<and> settled h (snd (visit_all f items seen)) v)) \<and>
    (fst (visit_all f items seen) \<noteq> [] \<longrightarrow> (\<exists>(own, path, v)\<in>set items. own \<noteq> [] \<or> (\<exists>w. refers h v w \<and> \<not> clean h w)))"
  using assms
proof (induction items arbitrary: seen)
  case Nil
  then show ?case by (simp add: sealed_def)
next
  case (Cons item items)
  obtain own path v where i: "item = (own, path, v)" by (cases item)
  obtain a s1 where f: "f v path seen = (a, s1)" by (cases "f v path seen")
  obtain b s2 where r: "visit_all f items s1 = (b, s2)" by (cases "visit_all f items s1")
  have v: "visited h seen v (a, s1)" using Cons.prems [of seen v path] f by simp
  then have s: "set seen \<subseteq> set s1" by (simp add: visited_def)
  have "visited h s v (f v path s)" if "set s1 \<subseteq> set s" for v path s
    using Cons.prems s that by blast
  note rest = Cons.IH [of s1, OF this, unfolded r fst_conv snd_conv]
  have t: "set s1 \<subseteq> set s2" using rest by blast
  have e: "visit_all f (item # items) seen = (own @ a @ b, s2)" by (simp add: i f r)
  show ?case unfolding e fst_conv snd_conv
  proof (intro conjI impI)
    show "set seen \<subseteq> set s2" using s t by blast
    assume "own @ a @ b = []"
    then have n: "own = []" "a = []" "b = []" by simp_all
    then show "sealed h seen s2" using v rest sealed_trans [OF _ _ t] by (auto simp: visited_def)
    have "settled h s2 v" using v n settled_mono [OF _ t] by (auto simp: visited_def)
    then show "\<forall>(own, path, v)\<in>set (item # items). own = [] \<and> settled h s2 v" using rest n i by simp
  next
    assume "own @ a @ b \<noteq> []"
    then show "\<exists>(own, path, v)\<in>set (item # items). own \<noteq> [] \<or> (\<exists>w. refers h v w \<and> \<not> clean h w)"
      using v rest i by (auto simp: visited_def)
  qed
qed

lemma node_items_values: "(\<exists>own path. (own, path, v) \<in> set (node_items p node)) \<longleftrightarrow> v \<in> set (node_values node)"
proof -
  have "map (\<lambda>(own, path, v). v) (node_items p node) = node_values node"
    by (cases node) (simp_all add: node_values_def array_items_def object_items_def comp_def case_prod_beta)
  then have "node_values node = map (\<lambda>(own, path, v). v) (node_items p node)" by (rule sym)
  then show ?thesis by (force simp: image_iff)
qed

lemma node_items_own: "(\<forall>(own, path, v)\<in>set (node_items p node). own = []) \<longleftrightarrow> list_all (\<lambda>k. \<not> prohibited k) (node_keys node)"
  by (cases node) (auto simp: array_items_def object_items_def list_all_iff prohibited_def list_ex_iff filter_empty_conv)

lemma scan_visited: "unseen h seen < n \<Longrightarrow> visited h seen v (scan h n v path seen)"
proof (induction n arbitrary: v path seen)
  case (Suc n)
  show ?case
  proof (cases "\<exists>a node. v = VRef a \<and> a \<notin> set seen \<and> map_of h a = Some node")
    case True
    then obtain a node where a: "v = VRef a" "a \<notin> set seen" "map_of h a = Some node" by blast
    let ?items = "node_items path node" and ?r = "visit_all (scan h n) (node_items path node) (a # seen)"
    have scan: "scan h (Suc n) v path seen = ?r" using a by simp
    have "unseen h (a # seen) < n" using unseen_Cons [OF a(3,2)] Suc.prems by linarith
    then have "visited h s w (scan h n w p s)" if "set (a # seen) \<subseteq> set s" for w p s
      using Suc.IH unseen_mono [OF that, of h] by (meson le_less_trans)
    note r = visit_all_visited [where items = ?items and f = "scan h n" and seen = "a # seen", OF this]
    show ?thesis unfolding visited_def scan
    proof (intro conjI impI)
      show "set seen \<subseteq> set (snd ?r)" using r by auto
      assume n: "fst ?r = []"
      then have own: "list_all (\<lambda>k. \<not> prohibited k) (node_keys node)" using r node_items_own [of path node] by blast
      then have c: "clean h (VRef a)" using a by (simp add: clean_def)
      show "settled h (snd ?r) v" using a r by (auto simp: settled_def)
      have "settled h (snd ?r) w" if "w \<in> set (node_values node)" for w
        using that r n node_items_values [of w path node] by blast
      then show "sealed h seen (snd ?r)" using r n a(3) c sealed_Cons by blast
    next
      assume "fst ?r \<noteq> []"
      then obtain own p w where i: "(own, p, w) \<in> set ?items" "own \<noteq> [] \<or> (\<exists>u. refers h w u \<and> \<not> clean h u)" using r by blast
      show "\<exists>u. refers h v u \<and> \<not> clean h u"
      proof (cases "own = []")
        case True
        then obtain u where u: "refers h w u" "\<not> clean h u" using i(2) by blast
        have "w \<in> set (node_values node)" using i(1) node_items_values by blast
        then have "refers h v w" using a by (auto intro: refers.intros)
        with u show ?thesis using refers_trans by blast
      next
        case False
        then have "\<not> list_all (\<lambda>k. \<not> prohibited k) (node_keys node)" using i(1) node_items_own [of path node] by blast
        then have "\<not> clean h v" using a by (simp add: clean_def)
        then show ?thesis using refers.root by blast
      qed
    qed
  next
    case False
    then show ?thesis
      by (cases v) (auto simp: visited_def settled_def sealed_def clean_def intro: refers.root split: option.splits)
  qed
qed simp

lemma scan_settled:
  assumes "settled h seen v" "sealed h [] seen" "refers h v w"
  shows "settled h seen w \<and> clean h w"
proof -
  have s: "settled h seen u \<Longrightarrow> clean h u" for u
    using assms(2) by (cases u) (auto simp: settled_def sealed_def, auto simp: clean_def)
  from assms(3) have "settled h seen w"
  proof induction
    case (member a node w)
    then have "a \<in> set seen" by (auto simp: settled_def)
    with member assms(2) show ?case by (auto simp: sealed_def)
  qed (rule assms(1))
  then show ?thesis using s by blast
qed

lemma scan_empty_iff: "scanObjectForProhibitedCapabilities h v = [] \<longleftrightarrow> (\<forall>w. refers h v w \<longrightarrow> clean h w)"
proof -
  have "unseen h [] \<le> length (map fst h)" unfolding unseen_def using card_length [of "map fst h"] by simp
  then have "unseen h [] < Suc (length h)" by simp
  from scan_visited [OF this, of v "[]"] show ?thesis
    unfolding scanObjectForProhibitedCapabilities_def visited_def using scan_settled by blast
qed

end
