(* ===== verification/Security_Guards.thy ===== *)
theory Security_Guards
  imports Read_Only
begin

text \<open>
  The other guards of packages/security/src: step-up.ts (authorisation of high-impact actions),
  origin.ts (origins of HTTP requests) and mcp-guard.ts (protocol, media type, bearer token, tools
  and session of a request). \<open>sha\<close> is the SHA-256 digest, \<open>now\<close> the clock, \<open>parse\<close> the host's URL
  parser.
\<close>

definition blank :: "string option \<Rightarrow> bool" where
  "blank t = (case t of None \<Rightarrow> True | Some s \<Rightarrow> s = [])"

section \<open>High-impact actions\<close>

text \<open>\<open>toUpperCase\<close>: the sharp s becomes two letters. The two code units whose capital lies above 255
  stay as they are; the names compared with have neither.\<close>

definition upper_of :: "char \<Rightarrow> string" where
  "upper_of c =
     (let n = (of_char c :: nat) in
      if n = 223 then ''SS''
      else if 97 \<le> n \<and> n \<le> 122 \<or> 224 \<le> n \<and> n \<le> 254 \<and> n \<noteq> 247 then [char_of (n - 32)] else [c])"

definition toUpperCase :: "string \<Rightarrow> string" where
  "toUpperCase s = concat (map upper_of s)"

record auth_factors =
  af_phishing_resistant :: bool
  af_step_up_verified :: bool
  af_method :: "string option"
  af_verified_at :: "string option"

record action_input =
  ai_action_type :: string
  ai_reason :: string
  ai_idempotency_key :: string
  ai_factors :: "auth_factors option"
  ai_csrf_token :: "string option"
  ai_expected_csrf :: "string option"
  ai_timestamp :: "string option"
  ai_max_age :: "js_num option option"

record action_result =
  ar_audit_id :: string
  ar_action_type :: string
  ar_reason :: string
  ar_verified_at :: string
  ar_idempotency_key :: string
  ar_method :: "string option"

definition weak_method :: "auth_factors \<Rightarrow> bool" where
  "weak_method f =
     (trim (toUpperCase (case af_method f of None \<Rightarrow> [] | Some m \<Rightarrow> m)) \<in> {''TOTP'', ''SMS'', ''PASSWORD''})"

text \<open>The time the authentication is taken to have happened at.\<close>

definition verified_text :: "action_input \<Rightarrow> auth_factors \<Rightarrow> string option" where
  "verified_text a f = (case af_verified_at f of None \<Rightarrow> ai_timestamp a | Some t \<Rightarrow> Some t)"

text \<open>A maximal age is absent, \<open>NaN\<close> or a number; every comparison with \<open>NaN\<close> is false.\<close>

definition bad_max_age :: "action_input \<Rightarrow> bool" where
  "bad_max_age a = (case ai_max_age a of Some (Some m) \<Rightarrow> \<not> num_less (Finite 0) m | _ \<Rightarrow> False)"

definition step_up_stale :: "action_input \<Rightarrow> int \<Rightarrow> bool" where
  "step_up_stale a age =
     (case ai_max_age a of
        None \<Rightarrow> 300 * 1000 < age
      | Some None \<Rightarrow> False
      | Some (Some m) \<Rightarrow> num_less (times1000 m) (Finite (of_int age)))"

definition validateHighImpactAction ::
  "(string \<Rightarrow> 'd) \<Rightarrow> int \<Rightarrow> string \<Rightarrow> action_input \<Rightarrow> action_result result" where
  "validateHighImpactAction sha now auditId a =
     throw_if (trim (ai_action_type a) = []) ''ACTION_TYPE_REQUIRED''
     (throw_if (trim (ai_idempotency_key a) = []) ''IDEMPOTENCY_KEY_REQUIRED''
     (throw_if (length (trim (ai_reason a)) < 8) ''REASON_ENTRY_REQUIRED''
     (case ai_factors a of
        None \<Rightarrow> Inl (Error ''STEP_UP_AUTHENTICATION_REQUIRED'')
      | Some f \<Rightarrow>
          throw_if (weak_method f \<or> \<not> af_phishing_resistant f) ''STEP_UP_PHISHING_RESISTANCE_REQUIRED''
          (throw_if (\<not> af_step_up_verified f) ''STEP_UP_AUTHENTICATION_REQUIRED''
          (case verified_text a f of
             None \<Rightarrow> Inl (Error ''STEP_UP_TIMESTAMP_REQUIRED'')
           | Some t \<Rightarrow>
               throw_if (trim t = []) ''STEP_UP_TIMESTAMP_REQUIRED''
               (case dateParse t of
                  None \<Rightarrow> Inl (Error ''STEP_UP_TIMESTAMP_INVALID'')
                | Some v \<Rightarrow>
                    throw_if (bad_max_age a) ''STEP_UP_MAX_AGE_INVALID''
                    (throw_if (now + 60000 < v \<or> step_up_stale a (now - v)) ''STEP_UP_EXPIRED''
                    (throw_if (blank (ai_csrf_token a) \<or> blank (ai_expected_csrf a)) ''CSRF_TOKEN_REQUIRED''
                    (throw_if (sha (the (ai_csrf_token a)) \<noteq> sha (the (ai_expected_csrf a))) ''CSRF_TOKEN_INVALID''
                    (Inr \<lparr>ar_audit_id = auditId, ar_action_type = trim (ai_action_type a), ar_reason = trim (ai_reason a),
                      ar_verified_at = t, ar_idempotency_key = trim (ai_idempotency_key a),
                      ar_method = af_method f\<rparr>))))))))))"

section \<open>Origins\<close>

definition strip_brackets :: "string \<Rightarrow> string" where
  "strip_brackets s =
     (let r = (if startsWith s ''['' then drop 1 s else s) in if endsWith r '']'' then butlast r else r)"

definition formatted_host :: "string \<Rightarrow> string" where
  "formatted_host host = (if CHR '':'' \<in> set host then ''['' @ strip_brackets host @ '']'' else host)"

definition effective_port :: "string \<Rightarrow> string \<Rightarrow> string" where
  "effective_port protocol port =
     (if protocol = ''http:'' \<and> port = ''80'' \<or> protocol = ''https:'' \<and> port = ''443'' then [] else port)"

definition origin_text :: "string \<Rightarrow> string \<Rightarrow> string \<Rightarrow> string" where
  "origin_text protocol host port =
     protocol @ ''//'' @ formatted_host host @ (if port \<noteq> [] then CHR '':'' # port else [])"

definition control_char :: "char \<Rightarrow> bool" where
  "control_char c = ((of_char c :: nat) \<in> {0, 10, 13})"

definition normalizeOrigin :: "(string \<Rightarrow> url option) \<Rightarrow> string \<Rightarrow> string result" where
  "normalizeOrigin parse origin =
     (let trimmed = trim origin in
      throw_if (trimmed = []) ''MCP_ORIGIN_REQUIRED''
      (throw_if (trimmed = ''null'' \<or> list_ex control_char trimmed) ''MCP_ORIGIN_MALFORMED''
      (case parse trimmed of
         None \<Rightarrow> Inl (Error ''MCP_ORIGIN_MALFORMED'')
       | Some u \<Rightarrow>
           (let protocol = toLowerCase (ul_protocol u); host = toLowerCase (ul_hostname u) in
            throw_if (protocol \<noteq> ''http:'' \<and> protocol \<noteq> ''https:'') ''MCP_ORIGIN_MALFORMED''
            (throw_if (ul_username u \<noteq> [] \<or> ul_password u \<noteq> []) ''MCP_ORIGIN_MALFORMED''
            (throw_if (host = [] \<or> CHR '' '' \<in> set host) ''MCP_ORIGIN_MALFORMED''
            (throw_if (CHR '':'' \<in> set host \<and> CHR ''['' \<notin> set trimmed) ''MCP_ORIGIN_MALFORMED''
            (Inr (origin_text protocol host (effective_port protocol (ul_port u)))))))))))"

fun validateAllowedOriginsConfig :: "(string \<Rightarrow> url option) \<Rightarrow> string list \<Rightarrow> string list result" where
  "validateAllowedOriginsConfig parse [] = Inr []"
| "validateAllowedOriginsConfig parse (a # as) =
     (case normalizeOrigin parse a of
        Inl e \<Rightarrow> Inl (Error (''MCP_ORIGIN_CONFIG_INVALID: '' @ a))
      | Inr n \<Rightarrow> bind_result (validateAllowedOriginsConfig parse as) (\<lambda>ns. Inr (n # ns)))"

definition validateOrigin :: "(string \<Rightarrow> url option) \<Rightarrow> string option \<Rightarrow> string list \<Rightarrow> unit result" where
  "validateOrigin parse origin allowedOrigins =
     (case origin of
        None \<Rightarrow> Inl (Error ''MCP_ORIGIN_REQUIRED'')
      | Some t \<Rightarrow>
          throw_if (trim t = []) ''MCP_ORIGIN_REQUIRED''
          (case normalizeOrigin parse t of
             Inl e \<Rightarrow> Inl (Error ''MCP_ORIGIN_FORBIDDEN'')
           | Inr n \<Rightarrow>
               bind_result (validateAllowedOriginsConfig parse allowedOrigins) (\<lambda>ns.
                 throw_if (n \<notin> set ns) ''MCP_ORIGIN_FORBIDDEN'' (Inr ()))))"

section \<open>Requests\<close>

definition SUPPORTED_MCP_PROTOCOLS :: "string list" where
  "SUPPORTED_MCP_PROTOCOLS = [''2025-11-25'']"

definition validateMcpProtocol :: "string option \<Rightarrow> string list \<Rightarrow> bool \<Rightarrow> unit result" where
  "validateMcpProtocol version supported allowMissing =
     (case version of
        None \<Rightarrow> if allowMissing then Inr () else Inl (Error ''UNSUPPORTED_PROTOCOL_VERSION'')
      | Some v \<Rightarrow> throw_if (v \<notin> set supported) ''UNSUPPORTED_PROTOCOL_VERSION'' (Inr ()))"

definition validateMcpContentType :: "string option \<Rightarrow> unit result" where
  "validateMcpContentType contentType =
     throw_if (blank contentType) ''UNSUPPORTED_MEDIA_TYPE''
     (throw_if (trim (hd (split_on CHR '';'' (toLowerCase (the contentType)))) \<noteq> ''application/json'')
       ''UNSUPPORTED_MEDIA_TYPE'' (Inr ()))"

definition validateBearerAuth :: "(string \<Rightarrow> 'd) \<Rightarrow> string option \<Rightarrow> string option \<Rightarrow> unit result" where
  "validateBearerAuth sha authHeader expectedToken =
     throw_if (case expectedToken of None \<Rightarrow> True | Some t \<Rightarrow> trim t = []) ''UNAUTHORIZED''
     (throw_if (blank authHeader) ''UNAUTHORIZED''
     (throw_if (sha (''Bearer '' @ the expectedToken) \<noteq> sha (the authHeader)) ''UNAUTHORIZED'' (Inr ())))"

definition validateToolAllowlist :: "string \<Rightarrow> string list \<Rightarrow> unit result" where
  "validateToolAllowlist toolName allowlist =
     bind_result (requireReadOnlyCapability [] (VText toolName)) (\<lambda>_.
       throw_if (toolName \<notin> set allowlist) ''TOOL_ACCESS_FORBIDDEN'' (Inr ()))"

record session_scope =
  ss_session_id :: string
  ss_client_id :: string
  ss_allowed_tools :: "string list option"
  ss_expires_at :: "string option"

definition validateMcpSessionScope :: "int \<Rightarrow> session_scope \<Rightarrow> string \<Rightarrow> unit result" where
  "validateMcpSessionScope now s requestedTool =
     throw_if (trim (ss_session_id s) = []) ''INVALID_SESSION_ID''
     (throw_if (trim (ss_client_id s) = [] \<or> 128 < length (ss_client_id s)) ''INVALID_CLIENT_ID''
     (throw_if (\<not> blank (ss_expires_at s) \<and>
         (case dateParse (the (ss_expires_at s)) of None \<Rightarrow> True | Some t \<Rightarrow> t \<le> now)) ''SESSION_EXPIRED''
     (bind_result (requireReadOnlyCapability [] (VText requestedTool)) (\<lambda>_.
       throw_if (case ss_allowed_tools s of None \<Rightarrow> False | Some ts \<Rightarrow> requestedTool \<notin> set ts)
         ''TOOL_ACCESS_FORBIDDEN'' (Inr ())))))"

end
