(* ===== verification/Guard_Claims.thy ===== *)
theory Guard_Claims
  imports Security_Guards
begin

text \<open>
  What the guards promise: an operation runs exactly when nothing its parameters refer to, through
  shared and cyclic objects, carries a prohibited name; an authorised action is authenticated
  recently; an accepted origin has scheme, host and port of a configured one. Then the inputs that
  pass although they should not.
\<close>

section \<open>Read-only execution\<close>

text \<open>C11. An operation is let through exactly when its name is not blank and not prohibited and no
  text, key or function name is prohibited in anything its parameters refer to, at any depth, also
  when objects are shared or refer back to themselves; the scan always ends.\<close>

theorem execution_allowed_exactly:
  "is_ok (assertReadOnlyExecution h operation parameters) \<longleftrightarrow>
     trim operation \<noteq> [] \<and> \<not> prohibited operation \<and>
     (\<forall>v w. parameters = Some v \<and> refers h v w \<longrightarrow> clean h w)"
proof -
  have "is_ok (requireReadOnlyCapability h (VText operation)) \<longleftrightarrow> trim operation \<noteq> [] \<and> \<not> prohibited operation"
    by (simp add: requireReadOnlyCapability_def throw_if_def)
  then show ?thesis
    by (cases "requireReadOnlyCapability h (VText operation)"; cases parameters)
      (auto simp: assertReadOnlyExecution_def Let_def scan_empty_iff)
qed

definition cyclic_heap :: "string \<Rightarrow> js_heap" where
  "cyclic_heap t =
     [(0, NObject [(''pool'', VRef 1), (''again'', VRef 1)]), (1, NArray [VRef 0, VPrim, VText t])]"

lemma cyclic_refers: "refers (cyclic_heap t) (VRef 0) (VText t)"
proof -
  have "refers (cyclic_heap t) (VRef 0) (VRef 1)"
    by (rule refers.member [OF refers.root, where a = 0 and node = "NObject [(''pool'', VRef 1), (''again'', VRef 1)]"])
      (simp_all add: cyclic_heap_def node_values_def object_items_def)
  then show ?thesis
    by (rule refers.member [where node = "NArray [VRef 0, VPrim, VText t]"])
      (simp_all add: cyclic_heap_def node_values_def array_items_def upt_rec)
qed

theorem execution_allowed_exactly_witness:
  "is_ok (assertReadOnlyExecution (cyclic_heap ''getPool'') ''getPool'' (Some (VRef 0))) \<and>
   clean (cyclic_heap ''getPool'') (VText ''getPool'') \<and>
   \<not> is_ok (assertReadOnlyExecution (cyclic_heap ''signTransaction'') ''getPool'' (Some (VRef 0)))"
proof -
  have ok: "is_ok (assertReadOnlyExecution (cyclic_heap ''getPool'') ''getPool'' (Some (VRef 0)))" by code_simp
  have "\<not> clean (cyclic_heap ''signTransaction'') (VText ''signTransaction'')" by code_simp
  then have bad: "\<not> is_ok (assertReadOnlyExecution (cyclic_heap ''signTransaction'') ''getPool'' (Some (VRef 0)))"
    using execution_allowed_exactly [of "cyclic_heap ''signTransaction''" "''getPool''" "Some (VRef 0)"]
      cyclic_refers [of "''signTransaction''"] by blast
  have "clean (cyclic_heap ''getPool'') (VText ''getPool'')"
    using ok cyclic_refers [of "''getPool''"] unfolding execution_allowed_exactly by blast
  with ok bad show ?thesis by blast
qed

text \<open>Names that sign or send transactions pass when the word does not start a word: the
  methods of JSON-RPC nodes, where an underscore comes before it, and names in camel case.\<close>

theorem signing_names_pass:
  "list_all (\<lambda>f. is_ok (assertReadOnlyExecution [] f None))
     [''eth_sendRawTransaction'', ''eth_signTransaction'', ''personal_sign'', ''exportPrivateKey'', ''performSwap'']"
  by code_simp

section \<open>High-impact actions\<close>

definition recent :: "int \<Rightarrow> action_input \<Rightarrow> int \<Rightarrow> bool" where
  "recent now a v \<longleftrightarrow> v \<le> now + 60000 \<and>
     (case ai_max_age a of
        None \<Rightarrow> now - v \<le> 300000
      | Some None \<Rightarrow> True
      | Some (Some m) \<Rightarrow> num_less (Finite 0) m \<and> \<not> num_less (times1000 m) (Finite (of_int (now - v))))"

text \<open>An action is authorised exactly when it names a type, an idempotency key and a reason of eight
  characters, its factors are phishing-resistant and verified, recently by the time they give or, failing
  that, the request gives, and both CSRF tokens are there with equal digests; the result repeats the
  trimmed input.\<close>

theorem action_authorised_exactly:
  "validateHighImpactAction sha now auditId a = Inr r \<longleftrightarrow>
     trim (ai_action_type a) \<noteq> [] \<and> trim (ai_idempotency_key a) \<noteq> [] \<and> 8 \<le> length (trim (ai_reason a)) \<and>
     (\<exists>f t v. ai_factors a = Some f \<and> af_phishing_resistant f \<and> af_step_up_verified f \<and> \<not> weak_method f \<and>
        verified_text a f = Some t \<and> trim t \<noteq> [] \<and> dateParse t = Some v \<and> recent now a v \<and>
        \<not> blank (ai_csrf_token a) \<and> \<not> blank (ai_expected_csrf a) \<and>
        sha (the (ai_csrf_token a)) = sha (the (ai_expected_csrf a)) \<and>
        r = \<lparr>ar_audit_id = auditId, ar_action_type = trim (ai_action_type a), ar_reason = trim (ai_reason a),
             ar_verified_at = t, ar_idempotency_key = trim (ai_idempotency_key a), ar_method = af_method f\<rparr>)"
proof -
  have "\<not> bad_max_age a \<and> \<not> (now + 60000 < v \<or> step_up_stale a (now - v)) \<longleftrightarrow> recent now a v" for v
    by (auto simp: bad_max_age_def step_up_stale_def recent_def split: option.splits)
  then have r: "recent now a v \<longleftrightarrow> \<not> bad_max_age a \<and> \<not> now + 60000 < v \<and> \<not> step_up_stale a (now - v)" for v by blast
  show ?thesis unfolding r validateHighImpactAction_def
    by (cases "ai_factors a"; simp add: not_less split: option.split) blast
qed

definition sample_action :: "js_num option option \<Rightarrow> string option \<Rightarrow> action_input" where
  "sample_action age verified = \<lparr>ai_action_type = ''resume'', ai_reason = ''drill is over'', ai_idempotency_key = ''k1'',
     ai_factors = Some \<lparr>af_phishing_resistant = True, af_step_up_verified = True, af_method = Some ''PASSKEY'',
       af_verified_at = verified\<rparr>,
     ai_csrf_token = Some ''t'', ai_expected_csrf = Some ''t'', ai_timestamp = Some ''2026-01-01T00:00:00.000Z'',
     ai_max_age = age\<rparr>"

lemma sample_date: "dateParse ''2026-01-01T00:00:00.000Z'' = Some 1767225600000"
  by (simp add: date_eval)

lemma sample_texts:
  "trim ''resume'' = ''resume''" "trim ''drill is over'' = ''drill is over''" "trim ''k1'' = ''k1''"
  "trim ''2026-01-01T00:00:00.000Z'' = ''2026-01-01T00:00:00.000Z''" "trim (toUpperCase ''PASSKEY'') = ''PASSKEY''"
  by code_simp+

text \<open>A maximal age that is \<open>NaN\<close> passes its check and never makes an authentication too old, and
  an action without a verification time takes the time of its request for it.\<close>

theorem step_up_freshness_evaded:
  "is_ok (validateHighImpactAction (\<lambda>s. s) 4000000000000 ''a1'' (sample_action (Some None) (Some ''2026-01-01T00:00:00.000Z''))) \<and>
   \<not> is_ok (validateHighImpactAction (\<lambda>s. s) 4000000000000 ''a1'' (sample_action None (Some ''2026-01-01T00:00:00.000Z''))) \<and>
   is_ok (validateHighImpactAction (\<lambda>s. s) 1767225600000 ''a1'' (sample_action None None))"
  by (simp add: validateHighImpactAction_def sample_action_def sample_texts weak_method_def verified_text_def
      sample_date bad_max_age_def step_up_stale_def blank_def)

section \<open>Origins\<close>

text \<open>What the model relies on of the URL parser: a host is plain or an address in brackets.\<close>

definition plain_host :: "string \<Rightarrow> bool" where
  "plain_host h \<longleftrightarrow> CHR '':'' \<notin> set h \<and> CHR ''['' \<notin> set h"

definition bracket_host :: "string \<Rightarrow> bool" where
  "bracket_host h \<longleftrightarrow> (\<exists>x. h = ''['' @ x @ '']'' \<and> CHR '':'' \<in> set x \<and> CHR '']'' \<notin> set x)"

definition host_parser :: "(string \<Rightarrow> url option) \<Rightarrow> bool" where
  "host_parser parse \<longleftrightarrow>
     (\<forall>t u. parse t = Some u \<longrightarrow> plain_host (toLowerCase (ul_hostname u)) \<or> bracket_host (toLowerCase (ul_hostname u)))"

lemma formatted_bracket: "bracket_host h \<Longrightarrow> formatted_host h = h"
proof -
  assume "bracket_host h"
  then obtain x where x: "h = CHR ''['' # x @ '']''" "CHR '':'' \<in> set x" by (auto simp: bracket_host_def)
  then show ?thesis by (simp add: formatted_host_def strip_brackets_def startsWith_iff endsWith_iff)
qed

definition port_text :: "string \<Rightarrow> string" where
  "port_text port = (if port \<noteq> [] then CHR '':'' # port else [])"

lemma plain_split: "plain_host h \<Longrightarrow> takeWhile (\<lambda>c. c \<noteq> CHR '':'') (h @ port_text p) = h"
  by (auto simp: plain_host_def port_text_def takeWhile_append)

lemma bracket_split:
  assumes "bracket_host h"
  shows "takeWhile (\<lambda>c. c \<noteq> CHR '']'') (h @ r) @ '']'' = h"
proof -
  obtain x where x: "h = ''['' @ x @ '']''" "CHR '']'' \<notin> set x" using assms by (auto simp: bracket_host_def)
  have "takeWhile (\<lambda>c. c \<noteq> CHR '']'') (x @ '']'' @ r) = x" using x(2) by (subst takeWhile_append2) auto
  then show ?thesis by (simp add: x(1))
qed

lemma host_port_inj:
  assumes "plain_host h \<or> bracket_host h" "plain_host k \<or> bracket_host k" "h \<noteq> []" "k \<noteq> []"
    and eq: "formatted_host h @ port_text p = formatted_host k @ port_text q"
  shows "h = k \<and> p = q"
proof -
  have f: "formatted_host x = x" if "plain_host x \<or> bracket_host x" for x
    using that formatted_bracket by (cases "plain_host x") (auto simp: plain_host_def, simp add: formatted_host_def)
  have eq: "h @ port_text p = k @ port_text q" using eq unfolding f [OF assms(1)] f [OF assms(2)] .
  have hd: "hd x \<noteq> CHR ''['' \<longleftrightarrow> plain_host x" if "plain_host x \<or> bracket_host x" "x \<noteq> []" for x
    using that by (cases x) (auto simp: plain_host_def bracket_host_def)
  have "hd h = hd k" using arg_cong [OF eq, of hd] assms(3,4) by simp
  then have same: "plain_host h \<longleftrightarrow> plain_host k" using hd [OF assms(1,3)] hd [OF assms(2,4)] by simp
  have "h = k"
  proof (cases "plain_host h")
    case True
    then have b: "plain_host h" "plain_host k" using same by blast+
    have "h = takeWhile (\<lambda>c. c \<noteq> CHR '':'') (h @ port_text p)" by (rule plain_split [OF b(1), symmetric])
    also have "\<dots> = k" unfolding eq by (rule plain_split [OF b(2)])
    finally show ?thesis .
  next
    case False
    then have b: "bracket_host h" "bracket_host k" using assms(1,2) same by blast+
    have "h = takeWhile (\<lambda>c. c \<noteq> CHR '']'') (h @ port_text p) @ '']''" by (rule bracket_split [OF b(1), symmetric])
    also have "\<dots> = k" unfolding eq by (rule bracket_split [OF b(2)])
    finally show ?thesis .
  qed
  then show ?thesis using eq by (auto simp: port_text_def split: if_splits)
qed

lemma normalizeOrigin_Inr:
  "normalizeOrigin parse t = Inr n \<Longrightarrow> \<exists>u. parse (trim t) = Some u \<and>
     toLowerCase (ul_protocol u) \<in> {''http:'', ''https:''} \<and> toLowerCase (ul_hostname u) \<noteq> [] \<and>
     ul_username u = [] \<and> ul_password u = [] \<and>
     n = toLowerCase (ul_protocol u) @ ''//'' @ formatted_host (toLowerCase (ul_hostname u)) @
       port_text (effective_port (toLowerCase (ul_protocol u)) (ul_port u))"
  by (auto simp: normalizeOrigin_def Let_def origin_text_def port_text_def split: option.splits)

lemma config_Inr:
  "validateAllowedOriginsConfig parse as = Inr ns \<Longrightarrow> n \<in> set ns \<Longrightarrow> \<exists>a\<in>set as. normalizeOrigin parse a = Inr n"
  by (induction as arbitrary: ns) (auto split: sum.splits)

text \<open>C23. A request whose origin is accepted comes, over http or https and without credentials, from an
  origin with the scheme, the host and the effective port of a configured one.\<close>

theorem accepted_origin_is_configured:
  assumes "host_parser parse" "validateOrigin parse origin allowed = Inr ()"
  shows "\<exists>t u. origin = Some t \<and> parse (trim t) = Some u \<and> ul_username u = [] \<and> ul_password u = [] \<and>
    toLowerCase (ul_protocol u) \<in> {''http:'', ''https:''} \<and>
    (\<exists>a\<in>set allowed. \<exists>v. parse (trim a) = Some v \<and> toLowerCase (ul_protocol v) = toLowerCase (ul_protocol u) \<and>
       toLowerCase (ul_hostname v) = toLowerCase (ul_hostname u) \<and>
       effective_port (toLowerCase (ul_protocol v)) (ul_port v) = effective_port (toLowerCase (ul_protocol u)) (ul_port u))"
proof -
  obtain t n ns where t: "origin = Some t" "normalizeOrigin parse t = Inr n"
    "validateAllowedOriginsConfig parse allowed = Inr ns" "n \<in> set ns"
    using assms(2) by (auto simp: validateOrigin_def split: option.splits sum.splits)
  obtain a where a: "a \<in> set allowed" "normalizeOrigin parse a = Inr n" using config_Inr [OF t(3,4)] by blast
  obtain u where u: "parse (trim t) = Some u" "toLowerCase (ul_protocol u) \<in> {''http:'', ''https:''}"
    "toLowerCase (ul_hostname u) \<noteq> []" "ul_username u = []" "ul_password u = []"
    "n = toLowerCase (ul_protocol u) @ ''//'' @ formatted_host (toLowerCase (ul_hostname u)) @
       port_text (effective_port (toLowerCase (ul_protocol u)) (ul_port u))"
    using normalizeOrigin_Inr [OF t(2)] by blast
  obtain v where v: "parse (trim a) = Some v" "toLowerCase (ul_protocol v) \<in> {''http:'', ''https:''}"
    "toLowerCase (ul_hostname v) \<noteq> []"
    "n = toLowerCase (ul_protocol v) @ ''//'' @ formatted_host (toLowerCase (ul_hostname v)) @
       port_text (effective_port (toLowerCase (ul_protocol v)) (ul_port v))"
    using normalizeOrigin_Inr [OF a(2)] by blast
  have p: "toLowerCase (ul_protocol v) = toLowerCase (ul_protocol u)" using u(2,6) v(2,4) by auto
  then have "formatted_host (toLowerCase (ul_hostname v)) @ port_text (effective_port (toLowerCase (ul_protocol v)) (ul_port v)) =
      formatted_host (toLowerCase (ul_hostname u)) @ port_text (effective_port (toLowerCase (ul_protocol u)) (ul_port u))"
    using u(6) v(4) by simp
  from host_port_inj [OF _ _ v(3) u(3) this] assms(1) u(1) v(1)
  have "toLowerCase (ul_hostname v) = toLowerCase (ul_hostname u) \<and>
      effective_port (toLowerCase (ul_protocol v)) (ul_port v) = effective_port (toLowerCase (ul_protocol u)) (ul_port u)"
    unfolding host_parser_def by blast
  with t(1) a(1) u v p show ?thesis by blast
qed

definition two_urls :: "string \<Rightarrow> url option" where
  "two_urls t =
     (if t = ''https://app.example'' then Some \<lparr>ul_protocol = ''https:'', ul_username = [], ul_password = [],
        ul_hostname = ''app.example'', ul_port = []\<rparr>
      else if t = ''HTTPS://App.Example:443/x'' then Some \<lparr>ul_protocol = ''https:'', ul_username = [], ul_password = [],
        ul_hostname = ''App.Example'', ul_port = ''443''\<rparr>
      else None)"

theorem accepted_origin_is_configured_witness:
  "validateOrigin two_urls (Some ''HTTPS://App.Example:443/x'') [''https://app.example ''] = Inr () \<and>
   (\<exists>v. two_urls ''https://app.example'' = Some v \<and> toLowerCase (ul_hostname v) = ''app.example'')"
proof -
  have ok: "validateOrigin two_urls (Some ''HTTPS://App.Example:443/x'') [''https://app.example ''] = Inr ()" by code_simp
  have "plain_host (toLowerCase ''app.example'')" "plain_host (toLowerCase ''App.Example'')" by code_simp+
  then have "host_parser two_urls" by (auto simp: host_parser_def two_urls_def split: if_splits)
  from accepted_origin_is_configured [OF this ok] obtain u a v where
    "two_urls (trim ''HTTPS://App.Example:443/x'') = Some u" "a = ''https://app.example ''" "two_urls (trim a) = Some v"
    "toLowerCase (ul_hostname v) = toLowerCase (ul_hostname u)" by auto
  moreover have "trim ''HTTPS://App.Example:443/x'' = ''HTTPS://App.Example:443/x''" "trim ''https://app.example '' = ''https://app.example''"
    "toLowerCase ''App.Example'' = ''app.example''" by code_simp+
  ultimately show ?thesis using ok by (auto simp: two_urls_def)
qed

end
