(* ===== verification/Api_Gateway.thy ===== *)
theory Api_Gateway
  imports Security_Guards Workflow_Facts
begin

text \<open>
  apps/api/src/app.ts: the guards of a request to /mcp with its rate windows and its count of requests
  in progress, and the endpoint that takes schedule triggers. The part of /mcp between the last
  \<open>await\<close> and the start of the transport runs without interruption, so that a request is one step of
  the gateway and its end another; the transport itself is a library. Headers are as the server
  received them, \<open>None\<close> where absent.
\<close>

section \<open>Requests to /mcp\<close>

record rate_window =
  rw_started :: int
  rw_count :: int

record gateway =
  gw_active :: int
  gw_windows :: "(string \<times> rate_window) list"

record gateway_config =
  gc_allowed_origins :: "string list"
  gc_allowed_tools :: "string list option"
  gc_auth_token :: "string option"
  gc_max_body :: int
  gc_max_concurrent :: int
  gc_rate_per_minute :: int
  gc_max_clients :: int
  gc_test_mode :: bool

record mcp_request =
  mq_origin :: "string option"
  mq_test_error :: "string option"
  mq_authorization :: "string option"
  mq_content_type :: "string option"
  mq_content_length :: "string option"
  mq_body_size :: int
  mq_protocol :: "string option"
  mq_client_id :: "string option"
  mq_forwarded_for :: "string option"
  mq_session_id :: "string option"
  mq_session_expires :: "string option"

text \<open>An answer without the transport: status and code.\<close>

datatype verdict = Refused int string | Served

text \<open>\<open>app.onError\<close>.\<close>

definition on_error :: "error \<Rightarrow> verdict" where
  "on_error e =
     (if e \<in> Error ` {''MCP_ORIGIN_FORBIDDEN'', ''MCP_ORIGIN_REQUIRED'', ''MCP_ORIGIN_MALFORMED''}
      then Refused 403 ''ORIGIN_FORBIDDEN'' else Refused 500 ''INTERNAL_ERROR'')"

definition raw_client_id :: "mcp_request \<Rightarrow> string" where
  "raw_client_id q =
     (case mq_client_id q of Some c \<Rightarrow> c
      | None \<Rightarrow> (case mq_forwarded_for q of Some c \<Rightarrow> c | None \<Rightarrow> ''anonymous''))"

definition session_error :: "error \<Rightarrow> verdict" where
  "session_error e =
     (if e = Error ''SESSION_EXPIRED'' then Refused 401 ''SESSION_EXPIRED''
      else if e = Error ''INVALID_CLIENT_ID'' \<or> e = Error ''INVALID_SESSION_ID'' then Refused 400 ''INVALID_SESSION''
      else Refused 403 ''TOOL_ACCESS_FORBIDDEN'')"

definition session_tools :: "gateway_config \<Rightarrow> string list" where
  "session_tools cf = (case gc_allowed_tools cf of None \<Rightarrow> [''system_readiness''] | Some ts \<Rightarrow> ts)"

definition too_large :: "gateway_config \<Rightarrow> mcp_request \<Rightarrow> bool" where
  "too_large cf q =
     ((case to_number (case mq_content_length q of None \<Rightarrow> ''0'' | Some t \<Rightarrow> t) of
         Some (Finite n) \<Rightarrow> of_int (gc_max_body cf) < n | _ \<Rightarrow> False) \<or> gc_max_body cf < mq_body_size q)"

text \<open>The guards before the rate limit; \<open>None\<close> lets the request through.\<close>

definition guard_verdict ::
  "(string \<Rightarrow> 'd) \<Rightarrow> (string \<Rightarrow> url option) \<Rightarrow> gateway_config \<Rightarrow> int \<Rightarrow> mcp_request \<Rightarrow> verdict option" where
  "guard_verdict sha parse cf now q =
     (case validateOrigin parse (mq_origin q) (gc_allowed_origins cf) of
        Inl e \<Rightarrow> Some (on_error e)
      | Inr _ \<Rightarrow>
      if gc_test_mode cf \<and> mq_test_error q = Some ''1'' then Some (on_error (Error ''MCP_TEST_INTERNAL_ERROR''))
      else if \<not> blank (gc_auth_token cf) \<and> \<not> is_ok (validateBearerAuth sha (mq_authorization q) (gc_auth_token cf))
        then Some (Refused 401 ''UNAUTHORIZED'')
      else if \<not> is_ok (validateMcpContentType (mq_content_type q)) then Some (Refused 415 ''UNSUPPORTED_MEDIA_TYPE'')
      else if too_large cf q then Some (Refused 413 ''PAYLOAD_TOO_LARGE'')
      else if \<not> is_ok (validateMcpProtocol (mq_protocol q) [''2025-11-25''] True)
        then Some (Refused 400 ''UNSUPPORTED_PROTOCOL_VERSION'')
      else if 128 < length (raw_client_id q) then Some (Refused 400 ''INVALID_CLIENT_ID'')
      else case mq_session_id q of
        None \<Rightarrow> None
      | Some sid \<Rightarrow>
          (case validateMcpSessionScope now
             \<lparr>ss_session_id = sid, ss_client_id = raw_client_id q, ss_allowed_tools = Some (session_tools cf),
              ss_expires_at = mq_session_expires q\<rparr> ''system_readiness'' of
             Inl e \<Rightarrow> Some (session_error e)
           | Inr _ \<Rightarrow> None))"

section \<open>Rate windows\<close>

definition window_lapsed :: "int \<Rightarrow> rate_window \<Rightarrow> bool" where
  "window_lapsed current w = (60000 \<le> current - rw_started w)"

definition pruned :: "gateway_config \<Rightarrow> int \<Rightarrow> (string \<times> rate_window) list \<Rightarrow> (string \<times> rate_window) list" where
  "pruned cf current ws =
     (if gc_max_clients cf \<le> int (length ws) then filter (\<lambda>(k, w). \<not> window_lapsed current w) ws else ws)"

definition next_window :: "int \<Rightarrow> rate_window option \<Rightarrow> rate_window" where
  "next_window current previous =
     (case previous of
        Some w \<Rightarrow> if window_lapsed current w then \<lparr>rw_started = current, rw_count = 1\<rparr> else w\<lparr>rw_count := rw_count w + 1\<rparr>
      | None \<Rightarrow> \<lparr>rw_started = current, rw_count = 1\<rparr>)"

text \<open>\<open>createMcpServer\<close> throws when the list of tools does not name the one it registers.\<close>

definition server_starts :: "gateway_config \<Rightarrow> bool" where
  "server_starts cf =
     is_ok (validateToolAllowlist ''system_readiness''
       (session_tools cf @ (if gc_test_mode cf then [''__test_slow''] else [])))"

definition rate_verdict :: "gateway_config \<Rightarrow> string \<Rightarrow> int \<Rightarrow> gateway \<Rightarrow> verdict \<times> gateway" where
  "rate_verdict cf client current g =
     (let ws = pruned cf current (gw_windows g); previous = map_of ws client in
      if previous = None \<and> gc_max_clients cf \<le> int (length ws)
      then (Refused 429 ''MCP_LIMIT_EXCEEDED'', g\<lparr>gw_windows := ws\<rparr>)
      else
        (let w = next_window current previous; g' = g\<lparr>gw_windows := assoc_set client w ws\<rparr> in
         if gc_rate_per_minute cf < rw_count w \<or> gc_max_concurrent cf \<le> gw_active g
         then (Refused 429 ''MCP_LIMIT_EXCEEDED'', g')
         else if \<not> server_starts cf then (Refused 500 ''INTERNAL_ERROR'', g')
         else (Served, g'\<lparr>gw_active := gw_active g' + 1\<rparr>)))"

text \<open>The handler of /mcp: \<open>now\<close> is the clock of the session check, \<open>current\<close> the one of the rate limit.\<close>

definition post_mcp ::
  "(string \<Rightarrow> 'd) \<Rightarrow> (string \<Rightarrow> url option) \<Rightarrow> gateway_config \<Rightarrow> int \<Rightarrow> int \<Rightarrow> mcp_request \<Rightarrow> gateway \<Rightarrow>
   verdict \<times> gateway" where
  "post_mcp sha parse cf now current q g =
     (case guard_verdict sha parse cf now q of
        Some v \<Rightarrow> (v, g)
      | None \<Rightarrow> rate_verdict cf (raw_client_id q) current g)"

definition finish_mcp :: "gateway \<Rightarrow> gateway" where
  "finish_mcp g = g\<lparr>gw_active := gw_active g - 1\<rparr>"

definition empty_gateway :: gateway where
  "empty_gateway = \<lparr>gw_active = 0, gw_windows = []\<rparr>"

section \<open>Schedule triggers\<close>

text \<open>The body as the handler reads it; \<open>tb_whole\<close> is all of it. A time is one the database can read.\<close>

record trigger_body =
  tb_external :: "string option"
  tb_external_snake :: "string option"
  tb_source :: "string option"
  tb_schedule :: "string option"
  tb_schedule_snake :: "string option"
  tb_scheduled_for :: "int option"
  tb_scheduled_for_snake :: "int option"
  tb_payload :: "json option"
  tb_whole :: json

record trigger_headers =
  th_qstash_id :: "string option"
  th_external_id :: "string option"
  th_signature :: "string option"

datatype trigger_answer = Rejected int string | Accepted trigger_response

abbreviation or_else :: "'a option \<Rightarrow> 'a option \<Rightarrow> 'a option" where
  "or_else a b \<equiv> (case a of None \<Rightarrow> b | Some x \<Rightarrow> Some x)"

definition canonical_id :: "trigger_headers \<Rightarrow> trigger_body \<Rightarrow> string" where
  "canonical_id h b =
     trim (case or_else (or_else (tb_external b) (tb_external_snake b)) (or_else (th_qstash_id h) (th_external_id h)) of
             None \<Rightarrow> [] | Some i \<Rightarrow> i)"

definition trigger_request_of :: "int \<Rightarrow> trigger_headers \<Rightarrow> trigger_body \<Rightarrow> trigger_request" where
  "trigger_request_of now h b =
     \<lparr>tr_source = (case tb_source b of None \<Rightarrow> ''qstash'' | Some s \<Rightarrow> s), tr_external = canonical_id h b,
      tr_schedule_id = or_else (tb_schedule b) (tb_schedule_snake b),
      tr_scheduled_for = or_else (tb_scheduled_for b) (tb_scheduled_for_snake b),
      tr_payload = Some (case tb_payload b of None \<Rightarrow> tb_whole b | Some p \<Rightarrow> p),
      tr_received_at = now, tr_verified_at = Some now\<rparr>"

definition error_text :: "error \<Rightarrow> string" where
  "error_text e = (case e of Error m \<Rightarrow> m | RangeError m \<Rightarrow> m | TypeError m \<Rightarrow> m | DatabaseError m \<Rightarrow> m)"

definition post_trigger ::
  "(string \<Rightarrow> string) \<Rightarrow> string option \<Rightarrow> int \<Rightarrow> trigger_headers \<Rightarrow> trigger_body option \<Rightarrow> wf_db option \<Rightarrow>
   trigger_answer \<times> wf_db option" where
  "post_trigger sha signingKey now h body database =
     (case database of
        None \<Rightarrow> (Rejected 503 ''SERVICE_UNAVAILABLE'', None)
      | Some db \<Rightarrow>
      case body of
        None \<Rightarrow> (Rejected 400 ''INVALID_INPUT'', Some db)
      | Some b \<Rightarrow>
          if canonical_id h b = [] then (Rejected 400 ''INVALID_INPUT'', Some db)
          else if \<not> blank signingKey \<and> blank (th_signature h) then (Rejected 401 ''UNAUTHORIZED'', Some db)
          else
            (case handleTriggerInboxRequest sha (trigger_request_of now h b) db of
               (Inr r, db') \<Rightarrow> (Accepted r, Some db')
             | (Inl e, db') \<Rightarrow>
                 (if text_includes (error_text e) ''EXTERNAL_MESSAGE_ID'' then Rejected 400 ''INVALID_INPUT''
                  else Rejected 500 ''INTERNAL_ERROR'', Some db')))"

end
