(* ===== verification/Gateway_Claims.thy ===== *)
theory Gateway_Claims
  imports Api_Gateway
begin

text \<open>
  What the gateway promises: bounded concurrency and memory, a bound on what a client gets through
  within a minute, triggers that are processed once; and two guards that do not guard, the client
  id the caller chooses and the signature that is never verified.
\<close>

section \<open>Runs\<close>

datatype gateway_event = Post int int mcp_request | Finish

text \<open>Only a request in progress can finish.\<close>

definition gateway_step ::
  "(string \<Rightarrow> 'd) \<Rightarrow> (string \<Rightarrow> url option) \<Rightarrow> gateway_config \<Rightarrow> gateway_event \<Rightarrow> gateway \<Rightarrow> gateway" where
  "gateway_step sha parse cf ev g =
     (case ev of
        Post now current q \<Rightarrow> snd (post_mcp sha parse cf now current q g)
      | Finish \<Rightarrow> if 0 < gw_active g then finish_mcp g else g)"

definition bounded_gateway :: "gateway_config \<Rightarrow> gateway \<Rightarrow> bool" where
  "bounded_gateway cf g \<longleftrightarrow>
     0 \<le> gw_active g \<and> gw_active g \<le> max 0 (gc_max_concurrent cf) \<and> distinct (map fst (gw_windows g)) \<and>
     int (length (gw_windows g)) \<le> max 0 (gc_max_clients cf)"

lemma length_assoc_set: "length (assoc_set k v m) = (if map_of m k = None then Suc (length m) else length m)"
  by (induction k v m rule: assoc_set.induct) auto

lemma pruned_part: "set (pruned cf current ws) \<subseteq> set ws" "length (pruned cf current ws) \<le> length ws"
  "distinct (map fst ws) \<Longrightarrow> distinct (map fst (pruned cf current ws))"
  by (auto simp: pruned_def intro: distinct_map_filter)

lemma map_of_pruned:
  assumes "distinct (map fst ws)"
  shows "map_of (pruned cf current ws) c =
    (case map_of ws c of
       None \<Rightarrow> None
     | Some w \<Rightarrow> if gc_max_clients cf \<le> int (length ws) \<and> window_lapsed current w then None else Some w)"
proof (cases "gc_max_clients cf \<le> int (length ws)")
  case True
  have "map_of (filter (\<lambda>(k, w). P w) ws) c = (case map_of ws c of None \<Rightarrow> None | Some w \<Rightarrow> if P w then Some w else None)" for P
    using assms by (induction ws) (auto split: option.splits simp: map_of_eq_None_iff image_iff)
  then show ?thesis using True by (simp add: pruned_def split: option.splits)
qed (simp add: pruned_def split: option.splits)

lemma rate_bounded:
  assumes "bounded_gateway cf g"
  shows "bounded_gateway cf (snd (rate_verdict cf c t g))"
proof -
  define ws where "ws = pruned cf t (gw_windows g)"
  have d: "distinct (map fst ws)" "int (length ws) \<le> max 0 (gc_max_clients cf)"
    using assms pruned_part [where cf = cf and current = t and ws = "gw_windows g"] by (auto simp: bounded_gateway_def ws_def)
  then have "int (length (assoc_set c w ws)) \<le> max 0 (gc_max_clients cf)"
    if "\<not> (map_of ws c = None \<and> gc_max_clients cf \<le> int (length ws))" for w
    using that by (auto simp: length_assoc_set)
  then show ?thesis using assms d
    by (auto simp: rate_verdict_def Let_def bounded_gateway_def distinct_assoc_set simp flip: ws_def)
qed

interpretation gateway: invariant_machine "gateway_step sha parse cf" "bounded_gateway cf" for sha parse cf
proof unfold_locales
  fix g ev
  assume g: "bounded_gateway cf g"
  show "bounded_gateway cf (gateway_step sha parse cf ev g)"
  proof (cases ev)
    case (Post now t q)
    then show ?thesis using g rate_bounded [OF g] by (simp add: gateway_step_def post_mcp_def split: option.split)
  next
    case Finish
    then show ?thesis using g by (auto simp: gateway_step_def finish_mcp_def bounded_gateway_def)
  qed
qed

lemma empty_bounded: "bounded_gateway cf empty_gateway"
  by (simp add: bounded_gateway_def empty_gateway_def)

text \<open>C15. Whatever requests arrive and end in whatever order, the gateway never has more than
  mcpMaxConcurrent requests in progress and never tracks more than mcpMaxTrackedClients clients.\<close>

theorem gateway_stays_bounded:
  "bounded_gateway cf (fold (gateway_step sha parse cf) evs empty_gateway)"
  by (rule gateway.run_inv [OF empty_bounded])

section \<open>The rate limit\<close>

text \<open>What client \<open>c\<close> was served in a run: for each request the start of its window and its time.\<close>

definition entry :: "string \<Rightarrow> string \<Rightarrow> int \<Rightarrow> verdict \<times> gateway \<Rightarrow> (int \<times> int) list" where
  "entry c d t r =
     (if fst r = Served \<and> d = c then [(rw_started (the (map_of (gw_windows (snd r)) c)), t)] else [])"

fun served ::
  "(string \<Rightarrow> 'd) \<Rightarrow> (string \<Rightarrow> url option) \<Rightarrow> gateway_config \<Rightarrow> string \<Rightarrow> gateway_event list \<Rightarrow> gateway \<Rightarrow>
   (int \<times> int) list" where
  "served sha parse cf c [] g = []"
| "served sha parse cf c (Post now t q # evs) g =
     entry c (raw_client_id q) t (post_mcp sha parse cf now t q g) @
     served sha parse cf c evs (gateway_step sha parse cf (Post now t q) g)"
| "served sha parse cf c (Finish # evs) g = served sha parse cf c evs (gateway_step sha parse cf Finish g)"

fun post_times :: "gateway_event list \<Rightarrow> int list" where
  "post_times [] = []"
| "post_times (Post now t q # evs) = t # post_times evs"
| "post_times (Finish # evs) = post_times evs"

text \<open>How the window of the client, if any, relates to what it was served.\<close>

definition window_fits :: "int \<Rightarrow> (int \<times> int) list \<Rightarrow> rate_window option \<Rightarrow> bool" where
  "window_fits now L wo \<longleftrightarrow>
     (case wo of
        None \<Rightarrow> \<forall>(s, x)\<in>set L. s + 60000 \<le> now
      | Some w \<Rightarrow> rw_started w \<le> now \<and> 0 \<le> rw_count w \<and> int (count_list (map fst L) (rw_started w)) \<le> rw_count w \<and>
          (\<forall>(s, x)\<in>set L. s = rw_started w \<or> s + 60000 \<le> rw_started w))"

text \<open>What is known of the requests served so far, the last one at time \<open>now\<close> or before.\<close>

definition served_within :: "gateway_config \<Rightarrow> string \<Rightarrow> int \<Rightarrow> gateway \<Rightarrow> (int \<times> int) list \<Rightarrow> bool" where
  "served_within cf c now g L \<longleftrightarrow>
     distinct (map fst (gw_windows g)) \<and>
     (\<forall>s. int (count_list (map fst L) s) \<le> max 0 (gc_rate_per_minute cf)) \<and>
     (\<forall>(s, x)\<in>set L. \<forall>(s', x')\<in>set L. s = s' \<or> 60000 \<le> \<bar>s - s'\<bar>) \<and>
     (\<forall>(s, x)\<in>set L. s \<le> x \<and> x < s + 60000) \<and>
     window_fits now L (map_of (gw_windows g) c)"

lemma rate_windows:
  assumes "distinct (map fst (gw_windows g))" "rate_verdict cf d t g = (v, g')"
  defines "ws \<equiv> pruned cf t (gw_windows g)"
  shows "distinct (map fst (gw_windows g'))"
    "map_of (gw_windows g') c =
      (if c = d \<and> (map_of ws d \<noteq> None \<or> int (length ws) < gc_max_clients cf) then Some (next_window t (map_of ws d))
       else map_of ws c)"
    "v = Served \<Longrightarrow> (map_of ws d \<noteq> None \<or> int (length ws) < gc_max_clients cf) \<and>
      rw_count (next_window t (map_of ws d)) \<le> gc_rate_per_minute cf"
proof -
  have "distinct (map fst ws)" unfolding ws_def by (rule pruned_part(3) [OF assms(1)])
  with assms(2) show "distinct (map fst (gw_windows g'))"
    "map_of (gw_windows g') c =
      (if c = d \<and> (map_of ws d \<noteq> None \<or> int (length ws) < gc_max_clients cf) then Some (next_window t (map_of ws d))
       else map_of ws c)"
    "v = Served \<Longrightarrow> (map_of ws d \<noteq> None \<or> int (length ws) < gc_max_clients cf) \<and>
      rw_count (next_window t (map_of ws d)) \<le> gc_rate_per_minute cf"
    by (auto simp: rate_verdict_def Let_def distinct_assoc_set simp flip: ws_def split: if_splits)
qed

lemma window_fits_later:
  assumes "window_fits now L wo" "now \<le> t"
  shows "window_fits t L wo" "window_fits t L (case wo of None \<Rightarrow> None | Some w \<Rightarrow> if B \<and> window_lapsed t w then None else Some w)"
  using assms by (fastforce simp: window_fits_def window_lapsed_def split: option.splits)+

lemma window_fits_next:
  assumes "window_fits t L wo"
  defines "w \<equiv> next_window t wo"
  shows "window_fits t L (Some w)" "rw_started w \<le> t" "t < rw_started w + 60000"
    "int (count_list (map fst L) (rw_started w)) < rw_count w"
proof -
  have fresh: "count_list (map fst L) t = 0" if "\<forall>(s, x)\<in>set L. s + 60000 \<le> t"
    using that by (intro count_list_0_iff [THEN iffD2]) force
  have "window_fits t L (Some w) \<and> rw_started w \<le> t \<and> t < rw_started w + 60000 \<and>
      int (count_list (map fst L) (rw_started w)) < rw_count w"
  proof (cases wo)
    case None
    then have "\<forall>(s, x)\<in>set L. s + 60000 \<le> t" using assms(1) by (simp add: window_fits_def)
    then show ?thesis using fresh by (auto simp: w_def None next_window_def window_fits_def)
  next
    case (Some w0)
    show ?thesis
    proof (cases "window_lapsed t w0")
      case True
      then have "\<forall>(s, x)\<in>set L. s + 60000 \<le> t" using assms(1) by (fastforce simp: Some window_fits_def window_lapsed_def)
      then show ?thesis using fresh True by (auto simp: w_def Some next_window_def window_fits_def)
    next
      case False
      then show ?thesis using assms(1) by (auto simp: w_def Some next_window_def window_fits_def window_lapsed_def)
    qed
  qed
  then show "window_fits t L (Some w)" "rw_started w \<le> t" "t < rw_started w + 60000"
    "int (count_list (map fst L) (rw_started w)) < rw_count w" by blast+
qed

lemma served_add:
  assumes "served_within cf c t g L" "window_fits t L (Some w)" "t < rw_started w + 60000"
    "int (count_list (map fst L) (rw_started w)) < rw_count w" "rw_count w \<le> gc_rate_per_minute cf"
    "map_of (gw_windows g) c = Some w"
  shows "served_within cf c t g (L @ [(rw_started w, t)])"
proof -
  have "rw_started w \<le> t" using assms(2) by (simp add: window_fits_def)
  then show ?thesis using assms unfolding served_within_def
    by (auto simp: window_fits_def)
qed

lemma served_step:
  assumes "served_within cf c now g L" "now \<le> t" "rate_verdict cf d t g = (v, g')"
  shows "served_within cf c t g' (L @ entry c d t (v, g'))"
proof -
  define ws where "ws = pruned cf t (gw_windows g)"
  have dist: "distinct (map fst (gw_windows g))" and fits: "window_fits now L (map_of (gw_windows g) c)"
    using assms(1) by (simp_all add: served_within_def)
  note r = rate_windows [OF dist assms(3), folded ws_def]
  have f: "window_fits t L (map_of ws c)"
    unfolding ws_def map_of_pruned [OF dist] by (rule window_fits_later(2) [OF fits assms(2)])
  define w where "w = next_window t (map_of ws c)"
  note n = window_fits_next [OF f, folded w_def]
  let ?let = "map_of ws d \<noteq> None \<or> int (length ws) < gc_max_clients cf"
  have keep: "served_within cf c t g' L" if "window_fits t L (map_of (gw_windows g') c)"
    using assms(1) that r(1) by (simp add: served_within_def)
  show ?thesis
  proof (cases "c = d \<and> ?let")
    case True
    then have g': "map_of (gw_windows g') c = Some w" unfolding r(2) by (simp add: w_def)
    then have k: "served_within cf c t g' L" using keep n(1) by simp
    show ?thesis
    proof (cases "v = Served")
      case v: True
      then have "rw_count w \<le> gc_rate_per_minute cf" using r(3) True by (simp add: w_def)
      then show ?thesis using served_add [OF k n(1,3,4) _ g'] True v g' by (simp add: entry_def)
    qed (simp add: entry_def k)
  next
    case False
    then have "map_of (gw_windows g') c = map_of ws c" unfolding r(2) by (rule if_not_P)
    then have "served_within cf c t g' L" using keep f by simp
    moreover have "entry c d t (v, g') = []" using False r(3) by (auto simp: entry_def)
    ultimately show ?thesis by simp
  qed
qed

lemma served_run:
  assumes "served_within cf c now g L" "sorted (post_times evs)" "\<forall>t\<in>set (post_times evs). now \<le> t"
  shows "\<exists>now' g'. served_within cf c now' g' (L @ served sha parse cf c evs g)"
  using assms
proof (induction evs arbitrary: now g L)
  case Nil
  then show ?case by auto
next
  case (Cons ev evs)
  show ?case
  proof (cases ev)
    case (Post n t q)
    let ?r = "post_mcp sha parse cf n t q g"
    have t: "now \<le> t" and rest: "sorted (post_times evs)" "\<forall>u\<in>set (post_times evs). t \<le> u"
      using Cons.prems Post by auto
    have "served_within cf c t (snd ?r) (L @ entry c (raw_client_id q) t ?r)"
    proof (cases "guard_verdict sha parse cf n q")
      case None
      then have "?r = rate_verdict cf (raw_client_id q) t g" by (simp add: post_mcp_def)
      then show ?thesis using served_step [OF Cons.prems(1) t] by (metis prod.collapse)
    next
      case (Some v)
      then have "v \<noteq> Served" by (auto simp: guard_verdict_def on_error_def session_error_def split: sum.splits if_splits option.splits)
      moreover have "?r = (v, g)" using Some by (simp add: post_mcp_def)
      moreover have "served_within cf c t g L"
        using Cons.prems(1) window_fits_later(1) [OF _ t] by (simp add: served_within_def)
      ultimately show ?thesis by (simp add: entry_def)
    qed
    from Cons.IH [OF this rest] show ?thesis by (simp add: Post gateway_step_def)
  next
    case Finish
    have "served_within cf c now (gateway_step sha parse cf Finish g) L"
      using Cons.prems(1) by (auto simp: gateway_step_def finish_mcp_def served_within_def)
    from Cons.IH [OF this] Cons.prems(2,3) show ?thesis by (simp add: Finish)
  qed
qed

text \<open>Numbers that lie at least a minute apart and less than a minute before or after \<open>t\<close> are two at most.\<close>

lemma two_windows:
  assumes "finite (S :: int set)" "\<forall>s\<in>S. \<forall>s'\<in>S. s = s' \<or> 60000 \<le> \<bar>s - s'\<bar>" "\<forall>s\<in>S. t - 60000 < s \<and> s < t + 60000"
  shows "card S \<le> 2"
proof (rule ccontr)
  assume "\<not> card S \<le> 2"
  then have "3 \<le> card S" by simp
  then obtain T where T: "T \<subseteq> S" "card T = 3" by (meson obtain_subset_with_card_n)
  then obtain a b c where abc: "T = {a, b, c}" "a \<noteq> b" "b \<noteq> c" "a \<noteq> c" by (auto simp: card_3_iff)
  then have "a \<in> S" "b \<in> S" "c \<in> S" using T by auto
  with assms(2) abc have "60000 \<le> \<bar>a - b\<bar>" "60000 \<le> \<bar>b - c\<bar>" "60000 \<le> \<bar>a - c\<bar>" by blast+
  moreover have "t - 60000 < a" "a < t + 60000" "t - 60000 < b" "b < t + 60000" "t - 60000 < c" "c < t + 60000"
    using assms(3) \<open>a \<in> S\<close> \<open>b \<in> S\<close> \<open>c \<in> S\<close> by auto
  ultimately show False by linarith
qed

lemma length_by_tags: "length L = (\<Sum>s\<in>set (map fst L). count_list (map fst L) s)"
  using sum_count_set [of "map fst L" "set (map fst L)"] by simp

text \<open>C16. In any minute a client is served at most twice the configured number of requests, whatever
  else arrives and however long requests take, as long as the clock does not run backwards.\<close>

theorem rate_bound_per_minute:
  assumes "sorted (post_times evs)"
  shows "int (length (filter (\<lambda>(s, x). t \<le> x \<and> x < t + 60000) (served sha parse cf c evs empty_gateway)))
    \<le> 2 * max 0 (gc_rate_per_minute cf)"
proof -
  let ?M = "max 0 (gc_rate_per_minute cf)"
  define now where "now = (if post_times evs = [] then 0 else hd (post_times evs))"
  have "served_within cf c now empty_gateway []"
    by (simp add: served_within_def window_fits_def empty_gateway_def)
  moreover have "\<forall>u\<in>set (post_times evs). now \<le> u"
    using assms by (cases "post_times evs") (auto simp: now_def)
  ultimately obtain n g where "served_within cf c n g ([] @ served sha parse cf c evs empty_gateway)"
    using served_run [OF _ assms] by blast
  then obtain L where L: "L = served sha parse cf c evs empty_gateway" "served_within cf c n g L" by simp
  define F where "F = filter (\<lambda>(s, x). t \<le> x \<and> x < t + 60000) L"
  have sub: "set F \<subseteq> set L" by (auto simp: F_def)
  have "card (set (map fst F)) \<le> 2"
    by (rule two_windows [where t = t]) (use L(2) sub in \<open>fastforce simp: served_within_def F_def\<close>)+
  have "int (count_list (map fst F) s) \<le> ?M" for s
  proof -
    have "count_list (map fst F) s \<le> count_list (map fst L) s"
      unfolding F_def by (induction L) auto
    moreover have "int (count_list (map fst L) s) \<le> ?M" using L(2) by (simp add: served_within_def)
    ultimately show ?thesis by (meson order_trans of_nat_mono)
  qed
  then have "(\<Sum>s\<in>set (map fst F). int (count_list (map fst F) s)) \<le> int (card (set (map fst F))) * ?M"
    by (intro sum_bounded_above [where K = ?M, simplified]) simp
  moreover have "int (length F) = (\<Sum>s\<in>set (map fst F). int (count_list (map fst F) s))"
    by (subst length_by_tags) simp
  ultimately have "int (length F) \<le> int (card (set (map fst F))) * ?M" by simp
  also have "\<dots> \<le> 2 * ?M" using \<open>card (set (map fst F)) \<le> 2\<close> by (intro mult_right_mono) simp_all
  finally show ?thesis unfolding L(1) [symmetric] F_def [symmetric] .
qed

definition sample_config :: gateway_config where
  "sample_config = \<lparr>gc_allowed_origins = [''https://app.example''], gc_allowed_tools = None,
     gc_auth_token = Some ''secret'', gc_max_body = 65536, gc_max_concurrent = 4, gc_rate_per_minute = 1,
     gc_max_clients = 1, gc_test_mode = False\<rparr>"

definition sample_parser :: "string \<Rightarrow> url option" where
  "sample_parser t = Some \<lparr>ul_protocol = ''https:'', ul_username = [], ul_password = [],
     ul_hostname = ''app.example'', ul_port = []\<rparr>"

definition sample_request :: mcp_request where
  "sample_request = \<lparr>mq_origin = Some ''https://app.example/'', mq_test_error = None,
     mq_authorization = Some ''Bearer secret'', mq_content_type = Some ''application/json; charset=utf-8'',
     mq_content_length = Some ''12'', mq_body_size = 12, mq_protocol = None, mq_client_id = Some ''a'',
     mq_forwarded_for = None, mq_session_id = None, mq_session_expires = None\<rparr>"

lemma sample_guards: "guard_verdict (\<lambda>s. s) sample_parser sample_config now (sample_request\<lparr>mq_client_id := Some [c]\<rparr>) = None"
proof -
  have "is_ok (validateOrigin sample_parser (mq_origin sample_request) (gc_allowed_origins sample_config)) \<and>
    is_ok (validateBearerAuth (\<lambda>s. s) (mq_authorization sample_request) (gc_auth_token sample_config)) \<and>
    is_ok (validateMcpContentType (mq_content_type sample_request)) \<and> \<not> too_large sample_config sample_request \<and>
    is_ok (validateMcpProtocol (mq_protocol sample_request) [''2025-11-25''] True) \<and> \<not> gc_test_mode sample_config \<and>
    mq_session_id sample_request = None" by code_simp
  then show ?thesis
    by (auto simp: guard_verdict_def raw_client_id_def too_large_def is_ok_iff)
qed

lemma sample_server: "server_starts sample_config"
  by code_simp

lemma sample_post:
  "post_mcp (\<lambda>s. s) sample_parser sample_config now t (sample_request\<lparr>mq_client_id := Some [c]\<rparr>) g =
   rate_verdict sample_config [c] t g"
  by (simp add: post_mcp_def sample_guards raw_client_id_def)

definition sample_gateway :: "int \<Rightarrow> int \<Rightarrow> int \<Rightarrow> gateway" where
  "sample_gateway active t n = \<lparr>gw_active = active, gw_windows = [(''a'', \<lparr>rw_started = t, rw_count = n\<rparr>)]\<rparr>"

lemma sample_rates:
  "rate_verdict sample_config ''a'' 0 empty_gateway = (Served, sample_gateway 1 0 1)"
  "rate_verdict sample_config ''a'' 59999 (sample_gateway 1 0 1) = (Refused 429 ''MCP_LIMIT_EXCEEDED'', sample_gateway 1 0 2)"
  "rate_verdict sample_config ''a'' 60000 (sample_gateway 0 0 2) = (Served, sample_gateway 1 60000 1)"
  by code_simp+

lemma sample_finish: "gateway_step sha parse cf Finish (sample_gateway 1 t n) = sample_gateway 0 t n"
  by (simp add: gateway_step_def finish_mcp_def sample_gateway_def)

lemma sample_served:
  "served (\<lambda>s. s) sample_parser sample_config ''a''
     [Post 0 0 (sample_request\<lparr>mq_client_id := Some ''a''\<rparr>), Post 0 59999 (sample_request\<lparr>mq_client_id := Some ''a''\<rparr>), Finish,
      Post 0 60000 (sample_request\<lparr>mq_client_id := Some ''a''\<rparr>)] empty_gateway = [(0, 0), (60000, 60000)]"
proof -
  have step: "gateway_step (\<lambda>s. s) sample_parser sample_config (Post 0 t (sample_request\<lparr>mq_client_id := Some ''a''\<rparr>)) g =
      snd (rate_verdict sample_config ''a'' t g)" for t g
    by (simp add: gateway_step_def sample_post)
  have "raw_client_id (sample_request\<lparr>mq_client_id := Some ''a''\<rparr>) = ''a''" by (simp add: raw_client_id_def)
  then show ?thesis
    by (simp only: served.simps step sample_post sample_rates fst_conv snd_conv sample_finish entry_def)
      (simp add: sample_gateway_def)
qed

theorem rate_bound_per_minute_witness:
  "\<exists>L. served (\<lambda>s. s) sample_parser sample_config ''a''
     [Post 0 0 (sample_request\<lparr>mq_client_id := Some ''a''\<rparr>), Post 0 59999 (sample_request\<lparr>mq_client_id := Some ''a''\<rparr>), Finish,
      Post 0 60000 (sample_request\<lparr>mq_client_id := Some ''a''\<rparr>)] empty_gateway = L \<and> length L = 2 \<and>
   int (length (filter (\<lambda>(s, x). 1 \<le> x \<and> x < 60001) L)) \<le> 2"
  using rate_bound_per_minute [of "[Post 0 0 (sample_request\<lparr>mq_client_id := Some ''a''\<rparr>),
     Post 0 59999 (sample_request\<lparr>mq_client_id := Some ''a''\<rparr>), Finish, Post 0 60000 (sample_request\<lparr>mq_client_id := Some ''a''\<rparr>)]"
     1 "\<lambda>s. s" sample_parser sample_config "''a''"]
  unfolding sample_served by (simp add: sample_config_def)

section \<open>Triggers\<close>

text \<open>A schedule message that the endpoint accepted is answered as its duplicate when it is posted
  again, in the body or in a header and with any white space around its id, with the same inbox entry
  and the same run and without a change to the database, whatever operations ran in between.\<close>

theorem trigger_endpoint_exactly_once:
  assumes "wf_inv db" and first: "post_trigger sha key now h (Some b) (Some db) = (Accepted a, Some db1)"
    and same: "canonical_id h' b' = canonical_id h b" and signed: "blank key \<or> \<not> blank (th_signature h')"
    and later: "db2 = fold (wf_exec sha) ops db1"
  shows "post_trigger sha key now' h' (Some b') (Some db2) =
    (Accepted \<lparr>tp_inbox_id = tp_inbox_id a, tp_run = tp_run a, tp_duplicate = True\<rparr>, Some db2)"
proof -
  have f: "handleTriggerInboxRequest sha (trigger_request_of now h b) db = (Inr a, db1)" "canonical_id h b \<noteq> []"
    using first by (auto simp: post_trigger_def split: if_splits prod.splits sum.splits)
  have "trim (tr_external (trigger_request_of now' h' b')) = trim (tr_external (trigger_request_of now h b))"
    using same by (simp add: trigger_request_of_def)
  from handle_again [OF assms(1) f(1) this later] show ?thesis
    using f(2) same signed by (auto simp: post_trigger_def)
qed

definition sample_body :: trigger_body where
  "sample_body = \<lparr>tb_external = Some '' m1'', tb_external_snake = None, tb_source = None, tb_schedule = None,
     tb_schedule_snake = None, tb_scheduled_for = None, tb_scheduled_for_snake = None, tb_payload = None,
     tb_whole = JNull\<rparr>"

definition sample_headers :: trigger_headers where
  "sample_headers = \<lparr>th_qstash_id = Some ''m1'', th_external_id = None, th_signature = Some ''x''\<rparr>"

theorem trigger_endpoint_exactly_once_witness:
  "\<exists>a db1. post_trigger (\<lambda>s. s) (Some ''key'') 5 sample_headers (Some sample_body) (Some empty_db) = (Accepted a, Some db1) \<and>
     post_trigger (\<lambda>s. s) (Some ''key'') 9 sample_headers (Some (sample_body\<lparr>tb_external := None\<rparr>)) (Some db1) =
       (Accepted \<lparr>tp_inbox_id = tp_inbox_id a, tp_run = tp_run a, tp_duplicate = True\<rparr>, Some db1)"
proof -
  let ?p = "post_trigger (\<lambda>s. s) (Some ''key'') 5 sample_headers (Some sample_body) (Some empty_db)"
  have "case ?p of (Accepted a, Some db1) \<Rightarrow> True | _ \<Rightarrow> False" by code_simp
  then obtain a db1 where p: "?p = (Accepted a, Some db1)" by (auto split: prod.splits trigger_answer.splits option.splits)
  have same: "canonical_id sample_headers (sample_body\<lparr>tb_external := None\<rparr>) = canonical_id sample_headers sample_body"
    by code_simp
  have "blank (Some ''key'') \<or> \<not> blank (th_signature sample_headers)" by code_simp
  from trigger_endpoint_exactly_once [OF wf_inv_empty p same this, of db1 "[]"] p show ?thesis by auto
qed

text \<open>C37. The signature of a trigger is never verified: every nonempty text in its header is answered
  alike, so that with a signing key configured anybody can start a run.\<close>

theorem any_signature_is_accepted:
  assumes "s \<noteq> []" "s' \<noteq> []"
  shows "post_trigger sha key now (h\<lparr>th_signature := Some s\<rparr>) body db =
    post_trigger sha key now (h\<lparr>th_signature := Some s'\<rparr>) body db"
proof -
  have "canonical_id (h\<lparr>th_signature := Some z\<rparr>) b = canonical_id h b \<and>
      trigger_request_of now (h\<lparr>th_signature := Some z\<rparr>) b = trigger_request_of now h b" for z b
    by (simp add: canonical_id_def trigger_request_of_def cong: option.case_cong)
  moreover have "blank (Some s) = False" "blank (Some s') = False" using assms by (simp_all add: blank_def)
  ultimately show ?thesis by (simp add: post_trigger_def cong: option.case_cong if_cong)
qed

theorem any_signature_is_accepted_witness:
  "fst (post_trigger (\<lambda>s. s) (Some ''key'') 5 (sample_headers\<lparr>th_signature := Some ''forged''\<rparr>) (Some sample_body) (Some empty_db)) =
   fst (post_trigger (\<lambda>s. s) (Some ''key'') 5 (sample_headers\<lparr>th_signature := Some ''x''\<rparr>) (Some sample_body) (Some empty_db))"
  using any_signature_is_accepted [of "''forged''" "''x''" "\<lambda>s. s" "Some ''key''" 5 sample_headers "Some sample_body" "Some empty_db"]
  by simp

section \<open>Client ids\<close>

text \<open>The rate limit counts by an id the caller chooses: a caller that takes a new id for every
  request is served as often as there is room in the table, and once the table is full every other
  client is refused for a minute.\<close>

lemma fresh_client_served:
  assumes "map_of ws c = None" "int (length ws) < gc_max_clients cf" "1 \<le> gc_rate_per_minute cf"
    "1 \<le> gc_max_concurrent cf" "server_starts cf"
  shows "rate_verdict cf c t \<lparr>gw_active = 0, gw_windows = ws\<rparr> =
    (Served, \<lparr>gw_active = 1, gw_windows = ws @ [(c, \<lparr>rw_started = t, rw_count = 1\<rparr>)]\<rparr>)"
proof -
  have "assoc_set c w ws = ws @ [(c, w)]" for w
    using assms(1) by (induction ws) (auto split: if_splits)
  then show ?thesis using assms by (simp add: rate_verdict_def pruned_def next_window_def Let_def)
qed

definition serve_each :: "gateway_config \<Rightarrow> int \<Rightarrow> string list \<Rightarrow> gateway \<Rightarrow> verdict list \<times> gateway" where
  "serve_each cf t cs g =
     fold (\<lambda>c (vs, g). case rate_verdict cf c t g of (v, g') \<Rightarrow> (vs @ [v], if v = Served then finish_mcp g' else g')) cs ([], g)"

lemma serve_each_fresh:
  assumes "1 \<le> gc_rate_per_minute cf" "1 \<le> gc_max_concurrent cf" "server_starts cf"
  shows "distinct (map fst ws @ cs) \<Longrightarrow> int (length ws + length cs) \<le> gc_max_clients cf \<Longrightarrow>
    fold (\<lambda>c (vs, g). case rate_verdict cf c t g of (v, g') \<Rightarrow> (vs @ [v], if v = Served then finish_mcp g' else g'))
      cs (vs, \<lparr>gw_active = 0, gw_windows = ws\<rparr>) =
    (vs @ map (\<lambda>_. Served) cs,
     \<lparr>gw_active = 0, gw_windows = ws @ map (\<lambda>c. (c, \<lparr>rw_started = t, rw_count = 1\<rparr>)) cs\<rparr>)"
proof (induction cs arbitrary: vs ws)
  case (Cons c cs)
  have "map_of ws c = None" using Cons.prems(1) by (auto simp: map_of_eq_None_iff)
  then have r: "rate_verdict cf c t \<lparr>gw_active = 0, gw_windows = ws\<rparr> =
    (Served, \<lparr>gw_active = 1, gw_windows = ws @ [(c, \<lparr>rw_started = t, rw_count = 1\<rparr>)]\<rparr>)"
    using Cons.prems(2) assms by (intro fresh_client_served) auto
  show ?case using Cons.prems
    by (simp add: r finish_mcp_def) (subst Cons.IH, auto)
qed simp

theorem client_ids_evade_rate_limit:
  assumes "1 \<le> gc_rate_per_minute cf" "1 \<le> gc_max_concurrent cf" "server_starts cf"
    and "distinct cs" "int (length cs) = gc_max_clients cf" "d \<notin> set cs" "t \<le> u" "u < t + 60000"
  shows "fst (serve_each cf t cs empty_gateway) = map (\<lambda>_. Served) cs \<and>
    fst (rate_verdict cf d u (snd (serve_each cf t cs empty_gateway))) = Refused 429 ''MCP_LIMIT_EXCEEDED''"
proof -
  let ?ws = "map (\<lambda>c. (c, \<lparr>rw_started = t, rw_count = 1\<rparr>)) cs"
  have e: "serve_each cf t cs empty_gateway = (map (\<lambda>_. Served) cs, \<lparr>gw_active = 0, gw_windows = ?ws\<rparr>)"
    unfolding serve_each_def empty_gateway_def using assms(4,5)
    by (subst serve_each_fresh [OF assms(1-3)]) simp_all
  have "pruned cf u ?ws = ?ws" using assms(8) by (simp add: pruned_def window_lapsed_def filter_True)
  moreover have "map_of ?ws d = None" using assms(6) by (simp add: map_of_eq_None_iff image_image)
  ultimately show ?thesis unfolding e using assms(5) by (simp add: rate_verdict_def Let_def)
qed

theorem client_ids_evade_rate_limit_witness:
  "fst (serve_each sample_config 0 [''x''] empty_gateway) = [Served] \<and>
   fst (rate_verdict sample_config ''honest'' 59999 (snd (serve_each sample_config 0 [''x''] empty_gateway))) =
     Refused 429 ''MCP_LIMIT_EXCEEDED''"
proof -
  have "1 \<le> gc_rate_per_minute sample_config" "1 \<le> gc_max_concurrent sample_config"
    "int (length [''x'']) = gc_max_clients sample_config" by (simp_all add: sample_config_def)
  from client_ids_evade_rate_limit [OF this(1,2) sample_server _ this(3), of "''honest''" 0 59999] show ?thesis by simp
qed

end
