(* ===== verification/Tool_Core.thy ===== *)
theory Tool_Core
  imports Read_Only
begin

text \<open>
  packages/tool-core/src/index.ts: \<open>ToolCore.execute\<close> with the cache of packages/runtime-cache. Calls
  run concurrently and interleave at every \<open>await\<close>; each event below is what one call does between
  two of them, in any order the host may choose. The cost policy and the loader of a call are not
  part of the program: their answers are the arguments of the events. A call and the promise it may
  start have the same number.
\<close>

section \<open>Cache\<close>

text \<open>\<open>ExactMemoryCache\<close>: an expiry that cannot be read (\<open>None\<close>) is \<open>NaN\<close>, which is never past. The
  value \<open>undefined\<close> is \<open>None\<close>.\<close>

type_synonym js_val = "json option"

record cache_entry =
  ce_value :: js_val
  ce_expires :: "int option"

type_synonym memory_cache = "(string \<times> cache_entry) list"

definition cache_get :: "memory_cache \<Rightarrow> int \<Rightarrow> string \<Rightarrow> js_val" where
  "cache_get c now key =
     (case map_of c key of
        None \<Rightarrow> None
      | Some e \<Rightarrow> if (case ce_expires e of None \<Rightarrow> False | Some t \<Rightarrow> t \<le> now) then None else ce_value e)"

definition cache_set :: "string \<Rightarrow> js_val \<Rightarrow> string \<Rightarrow> memory_cache \<Rightarrow> memory_cache" where
  "cache_set key v expiresAt c = assoc_set key \<lparr>ce_value = v, ce_expires = dateParse expiresAt\<rparr> c"

definition cache_delete :: "string \<Rightarrow> memory_cache \<Rightarrow> memory_cache" where
  "cache_delete key c = filter (\<lambda>(k, e). k \<noteq> key) c"

section \<open>Schema drift\<close>

text \<open>\<open>allowed\<close> is the option \<open>allowedFields\<close>, \<open>None\<close> where it is left out.\<close>

definition assertNoSchemaDrift :: "js_val \<Rightarrow> string list option \<Rightarrow> unit result" where
  "assertNoSchemaDrift v allowed =
     (case allowed of
        None \<Rightarrow> Inr ()
      | Some names \<Rightarrow>
          if names = [] then Inr ()
          else (case v of
                  Some (JObj kvs) \<Rightarrow> throw_if (list_ex (\<lambda>(k, x). k \<notin> set names) kvs) ''SCHEMA_DRIFT'' (Inr ())
                | _ \<Rightarrow> Inr ()))"

definition drift_marked :: "js_val \<Rightarrow> string list option \<Rightarrow> bool" where
  "drift_marked v allowed =
     (case v of
        Some (JObj kvs) \<Rightarrow> allowed = None \<and> map_of kvs ''__schemaDrift'' = Some (JBool True)
      | _ \<Rightarrow> False)"

definition drift_checked :: "js_val \<Rightarrow> string list option \<Rightarrow> unit result" where
  "drift_checked v allowed =
     bind_result (assertNoSchemaDrift v allowed) (\<lambda>_. throw_if (drift_marked v allowed) ''SCHEMA_DRIFT'' (Inr ()))"

section \<open>Calls\<close>

record tool_call =
  tl_key :: string
  tl_operation :: string
  tl_cost_class :: string
  tl_expires_at :: string
  tl_parameters :: "js_value option"
  tl_allowed :: "string list option"
  tl_heap :: js_heap
  tl_self :: nat

text \<open>The input object, at the address \<open>tl_self\<close> of the heap of its parameters.\<close>

definition call_heap :: "tool_call \<Rightarrow> js_heap" where
  "call_heap c =
     (tl_self c, NObject ([(''key'', VText (tl_key c)), (''operation'', VText (tl_operation c)),
        (''costClass'', VText (tl_cost_class c)), (''expiresAt'', VText (tl_expires_at c))] @
        (case tl_parameters c of None \<Rightarrow> [] | Some v \<Rightarrow> [(''parameters'', v)]))) # tl_heap c"

definition read_only_call :: "tool_call \<Rightarrow> unit result" where
  "read_only_call c = assertReadOnlyExecution (call_heap c) (tl_operation c) (Some (VRef (tl_self c)))"

record authorization =
  au_status :: string
  au_reason :: "string option"
  au_quota :: "int option"

definition hit_refused :: "authorization \<Rightarrow> bool" where
  "hit_refused a \<longleftrightarrow> au_status a \<noteq> ''AVAILABLE'' \<or> au_quota a \<noteq> Some 0"

record answer =
  an_value :: js_val
  an_cached :: bool
  an_freshness :: rat
  an_quota :: int

text \<open>Where a call stands: it waits for the cache, for the policy after a hit, for the promise of
  another call, for the policy after that, for its own promise, or it is done.\<close>

datatype call_state =
    Getting js_val
  | HitAuth js_val
  | Joined nat
  | JoinAuth js_val
  | Leading
  | Done "answer result"

text \<open>Where a promise stands: it waits for the policy, the loader or the cache, or is settled.\<close>

datatype promise_state = PAuth | PLoad | PSet js_val | PSettled "js_val result"

record tool_core =
  tc_cache :: memory_cache
  tc_inflight :: "(string \<times> nat) list"
  tc_fresh :: "(string \<times> int) list"
  tc_calls :: "(nat \<times> tool_call \<times> call_state) list"
  tc_promises :: "(nat \<times> promise_state) list"

definition empty_core :: tool_core where
  "empty_core = \<lparr>tc_cache = [], tc_inflight = [], tc_fresh = [], tc_calls = [], tc_promises = []\<rparr>"

definition without :: "'k \<Rightarrow> ('k \<times> 'v) list \<Rightarrow> ('k \<times> 'v) list" where
  "without k m = filter (\<lambda>(k', v). k' \<noteq> k) m"

definition set_call :: "nat \<Rightarrow> tool_call \<Rightarrow> call_state \<Rightarrow> tool_core \<Rightarrow> tool_core" where
  "set_call i c p s = s\<lparr>tc_calls := assoc_set i (c, p) (tc_calls s)\<rparr>"

definition set_promise :: "nat \<Rightarrow> promise_state \<Rightarrow> tool_core \<Rightarrow> tool_core" where
  "set_promise i p s = s\<lparr>tc_promises := assoc_set i p (tc_promises s)\<rparr>"

definition answer_freshness :: "tool_core \<Rightarrow> string \<Rightarrow> int \<Rightarrow> rat" where
  "answer_freshness s key now =
     (case map_of (tc_fresh s) key of None \<Rightarrow> 0 | Some t \<Rightarrow> max 0 (of_int (now - t) / 1000))"

section \<open>Steps\<close>

datatype tool_event =
    Call nat int tool_call
  | Got nat
  | HitAuthorized nat authorization int
  | MissAuthorized nat authorization
  | Loaded nat "js_val result"
  | Stored nat int
  | Resumed nat

definition start_call :: "nat \<Rightarrow> int \<Rightarrow> tool_call \<Rightarrow> tool_core \<Rightarrow> tool_core" where
  "start_call i now c s =
     (case read_only_call c of
        Inl e \<Rightarrow> set_call i c (Done (Inl e)) s
      | Inr _ \<Rightarrow> set_call i c (Getting (cache_get (tc_cache s) now (tl_key c))) s)"

text \<open>After the cache has answered: a hit, a call of the same key in flight, or a new promise.\<close>

definition after_get :: "nat \<Rightarrow> tool_call \<Rightarrow> js_val \<Rightarrow> tool_core \<Rightarrow> tool_core" where
  "after_get i c v s =
     (if v \<noteq> None then set_call i c (HitAuth v) s
      else case map_of (tc_inflight s) (tl_key c) of
        Some p \<Rightarrow> set_call i c (Joined p) s
      | None \<Rightarrow>
          (set_call i c Leading (set_promise i PAuth s))\<lparr>tc_inflight := assoc_set (tl_key c) i (tc_inflight s)\<rparr>)"

definition after_hit :: "nat \<Rightarrow> tool_call \<Rightarrow> js_val \<Rightarrow> authorization \<Rightarrow> int \<Rightarrow> tool_core \<Rightarrow> tool_core" where
  "after_hit i c v a now s =
     set_call i c (Done (throw_if (hit_refused a) ''CACHE_HIT_QUOTA_INVARIANT''
       (Inr \<lparr>an_value = v, an_cached = True, an_freshness = answer_freshness s (tl_key c) now, an_quota = 0\<rparr>))) s"

definition after_miss :: "nat \<Rightarrow> authorization \<Rightarrow> tool_core \<Rightarrow> tool_core" where
  "after_miss i a s =
     set_promise i
       (if au_status a \<noteq> ''AVAILABLE''
        then PSettled (Inl (Error (case au_reason a of None \<Rightarrow> ''COST_POLICY_DENIED'' | Some r \<Rightarrow> r)))
        else PLoad) s"

definition after_load :: "nat \<Rightarrow> tool_call \<Rightarrow> js_val result \<Rightarrow> tool_core \<Rightarrow> tool_core" where
  "after_load i c r s =
     (case bind_result r (\<lambda>v. bind_result (drift_checked v (tl_allowed c)) (\<lambda>_. Inr v)) of
        Inl e \<Rightarrow> set_promise i (PSettled (Inl e)) s
      | Inr v \<Rightarrow> (set_promise i (PSet v) s)\<lparr>tc_cache := cache_set (tl_key c) v (tl_expires_at c) (tc_cache s)\<rparr>)"

definition after_store :: "nat \<Rightarrow> tool_call \<Rightarrow> js_val \<Rightarrow> int \<Rightarrow> tool_core \<Rightarrow> tool_core" where
  "after_store i c v now s =
     (set_promise i (PSettled (Inr v)) s)\<lparr>tc_fresh := assoc_set (tl_key c) now (tc_fresh s)\<rparr>"

text \<open>The leader resumes: it takes its promise out of the map, in its \<open>catch\<close> without looking whose
  promise is there.\<close>

definition leader_done :: "nat \<Rightarrow> tool_call \<Rightarrow> js_val result \<Rightarrow> tool_core \<Rightarrow> tool_core" where
  "leader_done i c r s =
     (case r of
        Inl e \<Rightarrow> (set_call i c (Done (Inl e)) s)\<lparr>tc_inflight := without (tl_key c) (tc_inflight s)\<rparr>
      | Inr v \<Rightarrow>
          (set_call i c (Done (Inr \<lparr>an_value = v, an_cached = False, an_freshness = 0, an_quota = 1\<rparr>)) s)
            \<lparr>tc_inflight :=
               if map_of (tc_inflight s) (tl_key c) = Some i then without (tl_key c) (tc_inflight s)
               else tc_inflight s\<rparr>)"

definition joined_done :: "nat \<Rightarrow> tool_call \<Rightarrow> js_val result \<Rightarrow> tool_core \<Rightarrow> tool_core" where
  "joined_done i c r s =
     (case r of Inl e \<Rightarrow> set_call i c (Done (Inl e)) s | Inr v \<Rightarrow> set_call i c (JoinAuth v) s)"

text \<open>An event that is not due changes nothing.\<close>

definition tool_step :: "tool_event \<Rightarrow> tool_core \<Rightarrow> tool_core" where
  "tool_step ev s =
     (case ev of
        Call i now c \<Rightarrow> if map_of (tc_calls s) i = None then start_call i now c s else s
      | Got i \<Rightarrow> (case map_of (tc_calls s) i of Some (c, Getting v) \<Rightarrow> after_get i c v s | _ \<Rightarrow> s)
      | HitAuthorized i a now \<Rightarrow>
          (case map_of (tc_calls s) i of
             Some (c, HitAuth v) \<Rightarrow> after_hit i c v a now s
           | Some (c, JoinAuth v) \<Rightarrow> after_hit i c v a now s
           | _ \<Rightarrow> s)
      | MissAuthorized i a \<Rightarrow> (case map_of (tc_promises s) i of Some PAuth \<Rightarrow> after_miss i a s | _ \<Rightarrow> s)
      | Loaded i r \<Rightarrow>
          (case (map_of (tc_promises s) i, map_of (tc_calls s) i) of
             (Some PLoad, Some (c, p)) \<Rightarrow> after_load i c r s | _ \<Rightarrow> s)
      | Stored i now \<Rightarrow>
          (case (map_of (tc_promises s) i, map_of (tc_calls s) i) of
             (Some (PSet v), Some (c, p)) \<Rightarrow> after_store i c v now s | _ \<Rightarrow> s)
      | Resumed i \<Rightarrow>
          (case map_of (tc_calls s) i of
             Some (c, Leading) \<Rightarrow>
               (case map_of (tc_promises s) i of Some (PSettled r) \<Rightarrow> leader_done i c r s | _ \<Rightarrow> s)
           | Some (c, Joined p) \<Rightarrow>
               (case map_of (tc_promises s) p of Some (PSettled r) \<Rightarrow> joined_done i c r s | _ \<Rightarrow> s)
           | _ \<Rightarrow> s))"

definition tool_run :: "tool_event list \<Rightarrow> tool_core" where
  "tool_run evs = fold tool_step evs empty_core"

end
