(* ===== verification/Tool_Claims.thy ===== *)
theory Tool_Claims
  imports Tool_Core
begin

text \<open>
  What \<open>ToolCore.execute\<close> promises however calls interleave: one load at a time per key, and answers
  that come from a load of the same key that was read-only and whose value was validated.
\<close>

definition unsettled :: "promise_state \<Rightarrow> bool" where
  "unsettled p = (case p of PSettled r \<Rightarrow> False | _ \<Rightarrow> True)"

lemma map_of_without [simp]: "map_of (without k m) = (map_of m)(k := None)"
  by (induction m) (auto simp: without_def fun_eq_iff)

section \<open>The map of promises\<close>

text \<open>A promise is in the map, under the key of its call, exactly while its call leads.\<close>

definition flights_inv :: "tool_core \<Rightarrow> bool" where
  "flights_inv s \<longleftrightarrow>
     (\<forall>k p. map_of (tc_inflight s) k = Some p \<longleftrightarrow> (\<exists>c. map_of (tc_calls s) p = Some (c, Leading) \<and> tl_key c = k)) \<and>
     (\<forall>p. map_of (tc_promises s) p \<noteq> None \<longrightarrow>
        (\<exists>c st. map_of (tc_calls s) p = Some (c, st) \<and> (st = Leading \<or> (\<exists>r. st = Done r)))) \<and>
     (\<forall>p ps. map_of (tc_promises s) p = Some ps \<and> unsettled ps \<longrightarrow>
        (\<exists>c. map_of (tc_calls s) p = Some (c, Leading)))"

lemma tables [simp]:
  "tc_calls (set_call i c p s) = assoc_set i (c, p) (tc_calls s)"
  "tc_inflight (set_call i c p s) = tc_inflight s" "tc_promises (set_call i c p s) = tc_promises s"
  "tc_cache (set_call i c p s) = tc_cache s" "tc_fresh (set_call i c p s) = tc_fresh s"
  "tc_calls (set_promise i q s) = tc_calls s" "tc_inflight (set_promise i q s) = tc_inflight s"
  "tc_promises (set_promise i q s) = assoc_set i q (tc_promises s)"
  "tc_cache (set_promise i q s) = tc_cache s" "tc_fresh (set_promise i q s) = tc_fresh s"
  by (simp_all add: set_call_def set_promise_def)

text \<open>A step that moves one call without starting or ending its lead.\<close>

lemma flights_move:
  assumes "flights_inv s" "map_of (tc_promises s) i = None \<or> (\<exists>r. st' = Done r)" "st' \<noteq> Leading"
    "\<forall>c st. map_of (tc_calls s) i = Some (c, st) \<longrightarrow> st \<noteq> Leading"
  shows "flights_inv (set_call i c st' s)"
  using assms unfolding flights_inv_def by (auto 0 4)

text \<open>A step of a promise that is under way.\<close>

lemma flights_promise:
  assumes "flights_inv s" "map_of (tc_promises s) i = Some ps" "unsettled ps"
    "tc_calls s' = tc_calls s" "tc_inflight s' = tc_inflight s" "tc_promises s' = assoc_set i q (tc_promises s)"
  shows "flights_inv s'"
  using assms unfolding flights_inv_def by (auto 0 4)

lemma leads: "flights_inv s \<Longrightarrow> map_of (tc_calls s) p = Some (c, Leading) \<Longrightarrow> map_of (tc_inflight s) (tl_key c) = Some p"
  unfolding flights_inv_def by blast

lemma flights_after_get:
  assumes "flights_inv s" "map_of (tc_calls s) i = Some (c, Getting v)"
  shows "flights_inv (after_get i c w s)"
proof -
  have n: "map_of (tc_promises s) i = None" using assms unfolding flights_inv_def by fastforce
  have m: "flights_inv (set_call i c st s)" if "st \<noteq> Leading" for st
    using assms n that by (intro flights_move) auto
  show ?thesis
  proof (cases "w = None \<and> map_of (tc_inflight s) (tl_key c) = None")
    case True
    then have l: "tl_key ca \<noteq> tl_key c" if "map_of (tc_calls s) p = Some (ca, Leading)" for p ca
      using leads [OF assms(1) that] by auto
    from True show ?thesis using assms n unfolding flights_inv_def after_get_def by (auto 0 4 dest: l)
  next
    case False
    then show ?thesis using m by (auto simp: after_get_def split: option.splits)
  qed
qed

lemma flights_end:
  assumes "flights_inv s" "map_of (tc_calls s) i = Some (c, Leading)" "map_of (tc_promises s) i = Some (PSettled r)"
    and s': "tc_calls s' = assoc_set i (c, Done x) (tc_calls s)" "tc_promises s' = tc_promises s"
      "map_of (tc_inflight s') = (map_of (tc_inflight s))(tl_key c := None)"
  shows "flights_inv s'"
  unfolding flights_inv_def
proof (intro conjI allI impI)
  fix k p
  have l: "tl_key d = tl_key c \<Longrightarrow> p = i" if "map_of (tc_calls s) p = Some (d, Leading)" for d
    using leads [OF assms(1) that] leads [OF assms(1,2)] by simp
  have old: "map_of (tc_inflight s) k = Some p \<longleftrightarrow> (\<exists>d. map_of (tc_calls s) p = Some (d, Leading) \<and> tl_key d = k)"
    using assms(1) unfolding flights_inv_def by blast
  show "map_of (tc_inflight s') k = Some p \<longleftrightarrow> (\<exists>d. map_of (tc_calls s') p = Some (d, Leading) \<and> tl_key d = k)"
  proof (cases "p = i")
    case True
    then show ?thesis using old assms(2) by (auto simp: s')
  next
    case False
    then have "k = tl_key c \<Longrightarrow> map_of (tc_calls s) p = Some (d, Leading) \<Longrightarrow> tl_key d \<noteq> k" for d using l by blast
    with False old show ?thesis by (auto simp: s')
  qed
next
  fix p
  assume "map_of (tc_promises s') p \<noteq> None"
  then have "\<exists>d st. map_of (tc_calls s) p = Some (d, st) \<and> (st = Leading \<or> (\<exists>r. st = Done r))"
    using assms(1) unfolding flights_inv_def s' by blast
  then show "\<exists>d st. map_of (tc_calls s') p = Some (d, st) \<and> (st = Leading \<or> (\<exists>r. st = Done r))"
    by (cases "p = i") (simp_all add: s')
next
  fix p ps
  assume p: "map_of (tc_promises s') p = Some ps \<and> unsettled ps"
  then have "p \<noteq> i" using assms(3) by (auto simp: s' unsettled_def)
  moreover have "\<exists>d. map_of (tc_calls s) p = Some (d, Leading)" using p assms(1) unfolding flights_inv_def s' by blast
  ultimately show "\<exists>d. map_of (tc_calls s') p = Some (d, Leading)" by (simp add: s')
qed

lemma flights_leader_done:
  assumes "flights_inv s" "map_of (tc_calls s) i = Some (c, Leading)" "map_of (tc_promises s) i = Some (PSettled r)"
  shows "flights_inv (leader_done i c r s)"
  using flights_end [OF assms] leads [OF assms(1,2)] by (cases r) (simp_all add: leader_done_def)

lemma flights_step: "flights_inv s \<Longrightarrow> flights_inv (tool_step ev s)"
proof (cases ev)
  case (Call i now c)
  assume f: "flights_inv s"
  show ?thesis
  proof (cases "map_of (tc_calls s) i")
    case None
    then have "map_of (tc_promises s) i = None" using f unfolding flights_inv_def by fastforce
    then have "flights_inv (set_call i c st s)" if "st \<noteq> Leading" for st
      using f None that by (intro flights_move) auto
    then show ?thesis using None by (simp add: Call tool_step_def start_call_def split: sum.split)
  qed (simp add: Call tool_step_def f)
next
  case (Got i)
  assume "flights_inv s"
  then show ?thesis using flights_after_get
    by (simp add: Got tool_step_def split: option.split prod.split call_state.split)
next
  case (HitAuthorized i a now)
  assume f: "flights_inv s"
  have "flights_inv (set_call i c (Done r) s)" if "map_of (tc_calls s) i = Some (c, st)" "st \<noteq> Leading" for c st r
    using f that by (intro flights_move) auto
  then show ?thesis using f
    by (simp add: HitAuthorized tool_step_def after_hit_def split: option.split prod.split call_state.split)
next
  case (MissAuthorized i a)
  assume f: "flights_inv s"
  have "flights_inv (after_miss i a s)" if "map_of (tc_promises s) i = Some PAuth"
    by (rule flights_promise [OF f that]) (simp_all add: unsettled_def after_miss_def)
  then show ?thesis using f by (simp add: MissAuthorized tool_step_def split: option.split promise_state.split)
next
  case (Loaded i r)
  assume f: "flights_inv s"
  have "flights_inv (after_load i c r s)" if "map_of (tc_promises s) i = Some PLoad" for c
    unfolding after_load_def by (cases "bind_result r (\<lambda>v. bind_result (drift_checked v (tl_allowed c)) (\<lambda>_. Inr v))")
      (simp_all add: flights_promise [OF f that] unsettled_def)
  then show ?thesis using f by (simp add: Loaded tool_step_def split: option.split prod.split promise_state.split)
next
  case (Stored i now)
  assume f: "flights_inv s"
  have "flights_inv (after_store i c v now s)" if "map_of (tc_promises s) i = Some (PSet v)" for c v
    by (rule flights_promise [OF f that]) (simp_all add: unsettled_def after_store_def)
  then show ?thesis using f by (simp add: Stored tool_step_def split: option.split prod.split promise_state.split)
next
  case (Resumed i)
  assume f: "flights_inv s"
  have "flights_inv (set_call i c st s)" if "map_of (tc_calls s) i = Some (c, Joined p)" "st \<noteq> Leading" for c p st
    using f that by (intro flights_move) (auto 0 4 simp: flights_inv_def)
  then have "flights_inv (joined_done i c r s)" if "map_of (tc_calls s) i = Some (c, Joined p)" for c p r
    using that by (cases r) (simp_all add: joined_done_def)
  then show ?thesis using f flights_leader_done
    by (simp add: Resumed tool_step_def split: option.split prod.split call_state.split promise_state.split)
qed

interpretation flights: invariant_machine tool_step flights_inv
  by unfold_locales (rule flights_step)

lemma empty_flights: "flights_inv empty_core"
  by (simp add: flights_inv_def empty_core_def)

text \<open>C6. However calls interleave, two loads of the same key are never under way at once: a promise
  that waits for the policy, the loader or the cache is the one the map has for its key.\<close>

theorem single_flight_per_key:
  assumes "map_of (tc_promises (tool_run evs)) p = Some ps" "unsettled ps"
    and "map_of (tc_promises (tool_run evs)) q = Some qs" "unsettled qs"
    and "map_of (tc_calls (tool_run evs)) p = Some (c, st)" "map_of (tc_calls (tool_run evs)) q = Some (d, st')"
    and "tl_key c = tl_key d"
  shows "p = q \<and> map_of (tc_inflight (tool_run evs)) (tl_key c) = Some p"
proof -
  have "flights_inv (tool_run evs)" unfolding tool_run_def by (rule flights.run_inv [OF empty_flights])
  note f = this
  have lead: "st = Leading" if "map_of (tc_promises (tool_run evs)) p = Some ps" "unsettled ps"
    "map_of (tc_calls (tool_run evs)) p = Some (c, st)" for p ps c st
    using f that unfolding flights_inv_def by fastforce
  have "map_of (tc_inflight (tool_run evs)) (tl_key c) = Some p" "map_of (tc_inflight (tool_run evs)) (tl_key d) = Some q"
    using leads [OF f] assms(5,6) lead [OF assms(1,2,5)] lead [OF assms(3,4,6)] by simp_all
  with assms(7) show ?thesis by simp
qed

section \<open>Answers\<close>

text \<open>The loads of a run: the loader of call \<open>j\<close> answered \<open>v\<close> while the call waited for it.\<close>

definition loads :: "tool_event list \<Rightarrow> (nat \<times> js_val) set" where
  "loads evs =
     {(j, v). \<exists>pre post. evs = pre @ Loaded j (Inr v) # post \<and> map_of (tc_promises (tool_run pre)) j = Some PLoad}"

text \<open>A value of a key has an origin when a read-only call of the key loaded and validated it.\<close>

definition has_origin :: "(nat \<times> js_val) set \<Rightarrow> tool_core \<Rightarrow> string \<Rightarrow> js_val \<Rightarrow> bool" where
  "has_origin L s k v \<longleftrightarrow>
     (\<exists>i c st. (i, v) \<in> L \<and> map_of (tc_calls s) i = Some (c, st) \<and> tl_key c = k \<and>
        drift_checked v (tl_allowed c) = Inr () \<and> read_only_call c = Inr ())"

fun carried :: "call_state \<Rightarrow> js_val option" where
  "carried (Getting v) = (if v = None then None else Some v)"
| "carried (HitAuth v) = Some v"
| "carried (JoinAuth v) = Some v"
| "carried (Done (Inr a)) = Some (an_value a)"
| "carried _ = None"

fun promised :: "promise_state \<Rightarrow> js_val option" where
  "promised (PSet v) = Some v"
| "promised (PSettled (Inr v)) = Some v"
| "promised _ = None"

text \<open>What is known of one call.\<close>

definition call_ok :: "(nat \<times> js_val) set \<Rightarrow> tool_core \<Rightarrow> tool_call \<Rightarrow> call_state \<Rightarrow> bool" where
  "call_ok L s c st \<longleftrightarrow>
     (read_only_call c = Inr () \<or> (\<exists>e. st = Done (Inl e))) \<and>
     (\<forall>v. carried st = Some v \<longrightarrow> has_origin L s (tl_key c) v) \<and>
     (\<forall>p. st = Joined p \<longrightarrow> (\<exists>d st'. map_of (tc_calls s) p = Some (d, st') \<and> tl_key d = tl_key c))"

definition values_inv :: "(nat \<times> js_val) set \<Rightarrow> tool_core \<Rightarrow> bool" where
  "values_inv L s \<longleftrightarrow>
     (\<forall>i c st. map_of (tc_calls s) i = Some (c, st) \<longrightarrow> call_ok L s c st) \<and>
     (\<forall>k e. map_of (tc_cache s) k = Some e \<longrightarrow> has_origin L s k (ce_value e)) \<and>
     (\<forall>p q v c st. map_of (tc_promises s) p = Some q \<and> promised q = Some v \<and> map_of (tc_calls s) p = Some (c, st) \<longrightarrow>
        has_origin L s (tl_key c) v)"

definition keeps_calls :: "tool_core \<Rightarrow> tool_core \<Rightarrow> bool" where
  "keeps_calls s s' \<longleftrightarrow>
     (\<forall>i c st. map_of (tc_calls s) i = Some (c, st) \<longrightarrow> (\<exists>st'. map_of (tc_calls s') i = Some (c, st')))"

lemma has_origin_mono: "keeps_calls s s' \<Longrightarrow> has_origin L s k v \<Longrightarrow> has_origin L s' k v"
  unfolding has_origin_def keeps_calls_def by blast

lemma call_ok_mono:
  assumes "keeps_calls s s'" "call_ok L s c st"
  shows "call_ok L s' c st"
proof -
  have "\<exists>d st'. map_of (tc_calls s') p = Some (d, st') \<and> tl_key d = tl_key c" if "st = Joined p" for p
    using assms that unfolding call_ok_def keeps_calls_def by blast
  then show ?thesis using assms has_origin_mono [OF assms(1)] unfolding call_ok_def by blast
qed

text \<open>A call moves or begins; the map of calls in flight does not matter.\<close>

lemma values_call:
  assumes "values_inv L s" "call_ok L s c st"
    "map_of (tc_calls s) i = None \<and> map_of (tc_promises s) i = None \<or> (\<exists>st0. map_of (tc_calls s) i = Some (c, st0))"
    and s': "tc_calls s' = assoc_set i (c, st) (tc_calls s)" "tc_cache s' = tc_cache s"
      "\<And>p q. map_of (tc_promises s') p = Some q \<Longrightarrow> map_of (tc_promises s) p = Some q \<or> promised q = None"
  shows "values_inv L s'"
proof -
  have mono: "keeps_calls s s'" using assms(3) by (auto simp: s' keeps_calls_def)
  note o = has_origin_mono [OF mono] and k = call_ok_mono [OF mono]
  show ?thesis unfolding values_inv_def
  proof (intro conjI allI impI)
    fix j d st1
    assume "map_of (tc_calls s') j = Some (d, st1)"
    then have "call_ok L s d st1" using assms(1,2) unfolding values_inv_def by (cases "j = i") (simp_all add: s')
    then show "call_ok L s' d st1" by (rule k)
  next
    fix key e
    assume "map_of (tc_cache s') key = Some e"
    then show "has_origin L s' key (ce_value e)" using assms(1) o unfolding values_inv_def s' by blast
  next
    fix p q v d st1
    assume a: "map_of (tc_promises s') p = Some q \<and> promised q = Some v \<and> map_of (tc_calls s') p = Some (d, st1)"
    then have q: "map_of (tc_promises s) p = Some q" using s'(3) [of p q] by auto
    have "\<exists>st2. map_of (tc_calls s) p = Some (d, st2)" using a assms(3) q by (cases "p = i") (auto simp: s')
    then have "has_origin L s (tl_key d) v" using assms(1) a q unfolding values_inv_def by blast
    then show "has_origin L s' (tl_key d) v" by (rule o)
  qed
qed

text \<open>A promise moves, and possibly the cache gets the value it promises.\<close>

lemma values_promise:
  assumes "values_inv L s" "map_of (tc_calls s) i = Some (c, st)"
    "\<And>v. promised q = Some v \<Longrightarrow> has_origin L s (tl_key c) v"
    and s': "tc_calls s' = tc_calls s" "tc_promises s' = assoc_set i q (tc_promises s)"
      "\<And>k e. map_of (tc_cache s') k = Some e \<Longrightarrow> map_of (tc_cache s) k = Some e \<or> has_origin L s k (ce_value e)"
  shows "values_inv L s'"
proof -
  have o: "has_origin L s' k v \<longleftrightarrow> has_origin L s k v" for k v by (simp add: has_origin_def s')
  have k: "call_ok L s' d st1 \<longleftrightarrow> call_ok L s d st1" for d st1 by (simp add: call_ok_def o s')
  show ?thesis unfolding values_inv_def o k
  proof (intro conjI allI impI)
    fix j d st1
    assume "map_of (tc_calls s') j = Some (d, st1)"
    then show "call_ok L s d st1" using assms(1) unfolding values_inv_def s' by blast
  next
    fix key e
    assume "map_of (tc_cache s') key = Some e"
    then show "has_origin L s key (ce_value e)" using assms(1) s'(3) unfolding values_inv_def by blast
  next
    fix p r v d st1
    assume a: "map_of (tc_promises s') p = Some r \<and> promised r = Some v \<and> map_of (tc_calls s') p = Some (d, st1)"
    show "has_origin L s (tl_key d) v"
    proof (cases "p = i")
      case True
      then show ?thesis using a assms(2,3) by (simp add: s')
    next
      case False
      then have "map_of (tc_promises s) p = Some r \<and> map_of (tc_calls s) p = Some (d, st1)" using a by (simp add: s')
      then show ?thesis using a assms(1) unfolding values_inv_def by blast
    qed
  qed
qed

lemma valuesD:
  assumes "values_inv L s"
  shows "map_of (tc_calls s) i = Some (c, st) \<Longrightarrow> call_ok L s c st"
    "map_of (tc_cache s) k = Some e \<Longrightarrow> has_origin L s k (ce_value e)"
    "map_of (tc_promises s) i = Some q \<Longrightarrow> promised q = Some v \<Longrightarrow> map_of (tc_calls s) i = Some (c, st) \<Longrightarrow>
      has_origin L s (tl_key c) v"
  using assms unfolding values_inv_def by blast+

text \<open>The steps.\<close>

lemma cache_get_origin: "values_inv L s \<Longrightarrow> cache_get (tc_cache s) now k = Some x \<Longrightarrow> has_origin L s k (Some x)"
  by (auto simp: cache_get_def split: option.splits if_splits dest!: valuesD(2))

lemma values_start:
  assumes "values_inv L s" "flights_inv s" "map_of (tc_calls s) i = None"
  shows "values_inv L (start_call i now c s)"
proof -
  have "map_of (tc_promises s) i = None" using assms(2,3) unfolding flights_inv_def by fastforce
  then have "values_inv L (set_call i c st s)" if "call_ok L s c st" for st
    by (intro values_call [OF assms(1) that]) (simp_all add: assms(3))
  moreover have "call_ok L s c (Getting (cache_get (tc_cache s) now (tl_key c)))" if "read_only_call c = Inr ()"
    using that cache_get_origin [OF assms(1)] by (auto simp: call_ok_def)
  moreover have "call_ok L s c (Done (Inl e))" for e by (simp add: call_ok_def)
  ultimately show ?thesis by (auto simp: start_call_def split: sum.split)
qed

lemma values_moved:
  assumes "values_inv L s" "map_of (tc_calls s) i = Some (c, st0)" "\<not> (\<exists>e. st0 = Done (Inl e))"
    "\<And>v. carried st = Some v \<Longrightarrow> has_origin L s (tl_key c) v"
    "\<And>p. st = Joined p \<Longrightarrow> \<exists>d st'. map_of (tc_calls s) p = Some (d, st') \<and> tl_key d = tl_key c"
    "tc_calls s' = assoc_set i (c, st) (tc_calls s)" "tc_cache s' = tc_cache s"
    "\<And>p q. map_of (tc_promises s') p = Some q \<Longrightarrow> map_of (tc_promises s) p = Some q \<or> promised q = None"
  shows "values_inv L s'"
proof (rule values_call [OF assms(1) _ _ assms(6-8)])
  show "call_ok L s c st" using valuesD(1) [OF assms(1,2)] assms(3-5) unfolding call_ok_def by blast
qed (use assms(2) in simp_all)

lemma values_after_get:
  assumes "values_inv L s" "flights_inv s" "map_of (tc_calls s) i = Some (c, Getting v)"
  shows "values_inv L (after_get i c v s)"
proof (cases v)
  case (Some x)
  have "has_origin L s (tl_key c) (Some x)" using valuesD(1) [OF assms(1,3)] by (simp add: call_ok_def Some)
  then have "values_inv L (set_call i c (HitAuth (Some x)) s)"
    by (intro values_moved [OF assms(1,3)]) auto
  then show ?thesis by (simp add: after_get_def Some)
next
  case None
  show ?thesis
  proof (cases "map_of (tc_inflight s) (tl_key c)")
    case f: None
    show ?thesis unfolding after_get_def using None f
      by (simp, intro values_moved [OF assms(1,3), where st = Leading]) (auto split: if_splits)
  next
    case (Some p)
    then have "\<exists>d st'. map_of (tc_calls s) p = Some (d, st') \<and> tl_key d = tl_key c"
      using assms(2) unfolding flights_inv_def by blast
    then have "values_inv L (set_call i c (Joined p) s)"
      by (intro values_moved [OF assms(1,3), where st = "Joined p"]) auto
    then show ?thesis by (simp add: after_get_def None Some)
  qed
qed

lemma values_after_hit:
  assumes "values_inv L s" "map_of (tc_calls s) i = Some (c, st0)" "carried st0 = Some v" "\<forall>r. st0 \<noteq> Done r"
  shows "values_inv L (after_hit i c v a now s)"
proof -
  have "has_origin L s (tl_key c) v" using valuesD(1) [OF assms(1,2)] assms(3) by (simp add: call_ok_def)
  then show ?thesis unfolding after_hit_def using assms(4)
    by (intro values_moved [OF assms(1,2), where st = "Done (throw_if (hit_refused a) ''CACHE_HIT_QUOTA_INVARIANT''
       (Inr \<lparr>an_value = v, an_cached = True, an_freshness = answer_freshness s (tl_key c) now, an_quota = 0\<rparr>))"])
      (auto simp: throw_if_def split: if_splits)
qed

lemma values_after_load:
  assumes "values_inv L s" "map_of (tc_calls s) i = Some (c, Leading)" "\<And>v. r = Inr v \<Longrightarrow> (i, v) \<in> L"
  shows "values_inv L (after_load i c r s)"
proof (cases "bind_result r (\<lambda>v. bind_result (drift_checked v (tl_allowed c)) (\<lambda>_. Inr v))")
  case (Inl e)
  have "values_inv L (set_promise i (PSettled (Inl e)) s)"
    by (rule values_promise [OF assms(1,2), where q = "PSettled (Inl e)"]) simp_all
  then show ?thesis by (simp add: after_load_def Inl)
next
  case (Inr v)
  then have "drift_checked v (tl_allowed c) = Inr ()" "(i, v) \<in> L" using assms(3) by auto
  moreover have "read_only_call c = Inr ()" using valuesD(1) [OF assms(1,2)] by (simp add: call_ok_def)
  ultimately have o: "has_origin L s (tl_key c) v" using assms(2) unfolding has_origin_def by blast
  show ?thesis unfolding after_load_def Inr
    by (simp, rule values_promise [OF assms(1,2), where q = "PSet v"])
      (auto simp: o cache_set_def split: if_splits)
qed

lemma values_resumed:
  assumes "values_inv L s" "flights_inv s" "map_of (tc_promises s) p = Some (PSettled r)"
  shows "map_of (tc_calls s) p = Some (c, Leading) \<Longrightarrow> values_inv L (leader_done p c r s)"
    "map_of (tc_calls s) i = Some (c, Joined p) \<Longrightarrow> values_inv L (joined_done i c r s)"
proof -
  have o: "has_origin L s (tl_key d) v" if "r = Inr v" "map_of (tc_calls s) p = Some (d, st)" for d v st
    using valuesD(3) [OF assms(1,3), of v d st] that by simp
  show "values_inv L (leader_done p c r s)" if c: "map_of (tc_calls s) p = Some (c, Leading)"
  proof (cases r)
    case (Inl e)
    then show ?thesis unfolding leader_done_def
      by (simp, intro values_moved [OF assms(1) c, where st = "Done (Inl e)"]) auto
  next
    case (Inr v)
    show ?thesis unfolding leader_done_def Inr sum.case
      by (rule values_moved [OF assms(1) c,
            where st = "Done (Inr \<lparr>an_value = v, an_cached = False, an_freshness = 0, an_quota = 1\<rparr>)"])
        (use o [OF Inr c] in auto)
  qed
  show "values_inv L (joined_done i c r s)" if c: "map_of (tc_calls s) i = Some (c, Joined p)"
  proof -
    obtain d st' where d: "map_of (tc_calls s) p = Some (d, st')" "tl_key d = tl_key c"
      using valuesD(1) [OF assms(1) c] by (auto simp: call_ok_def)
    show ?thesis
    proof (cases r)
      case (Inl e)
      then show ?thesis unfolding joined_done_def
        by (simp, intro values_moved [OF assms(1) c, where st = "Done (Inl e)"]) auto
    next
      case (Inr v)
      then show ?thesis using o [OF Inr d(1)] d(2) unfolding joined_done_def
        by (simp, intro values_moved [OF assms(1) c, where st = "JoinAuth v"]) auto
    qed
  qed
qed

lemma values_step:
  assumes "flights_inv s" "values_inv L s"
    and new: "\<And>i v. ev = Loaded i (Inr v) \<Longrightarrow> map_of (tc_promises s) i = Some PLoad \<Longrightarrow> (i, v) \<in> L"
  shows "values_inv L (tool_step ev s)"
proof (cases ev)
  case (Call i now c)
  then show ?thesis using assms values_start by (simp add: tool_step_def)
next
  case (Got i)
  then show ?thesis using assms values_after_get
    by (simp add: tool_step_def split: option.split prod.split call_state.split)
next
  case (HitAuthorized i a now)
  have "values_inv L (after_hit i c v a now s)" if "map_of (tc_calls s) i = Some (c, st)" "st = HitAuth v \<or> st = JoinAuth v" for c st v
    using that by (intro values_after_hit [OF assms(2) that(1)]) auto
  then show ?thesis using assms(2)
    by (simp add: HitAuthorized tool_step_def split: option.split prod.split call_state.split)
next
  case (MissAuthorized i a)
  have "values_inv L (after_miss i a s)" if q: "map_of (tc_promises s) i = Some PAuth"
  proof -
    obtain c where "map_of (tc_calls s) i = Some (c, Leading)" using q assms(1) unfolding flights_inv_def unsettled_def by fastforce
    then show ?thesis unfolding after_miss_def by (rule values_promise [OF assms(2)]) (auto split: if_splits)
  qed
  then show ?thesis using assms(2) by (simp add: MissAuthorized tool_step_def split: option.split promise_state.split)
next
  case (Loaded i r)
  have "values_inv L (after_load i c r s)" if "map_of (tc_promises s) i = Some PLoad" "map_of (tc_calls s) i = Some (c, st)" for c st
  proof -
    have "st = Leading" using that assms(1) unfolding flights_inv_def unsettled_def by fastforce
    then show ?thesis using values_after_load [OF assms(2)] that new Loaded by blast
  qed
  then show ?thesis using assms(2) by (simp add: Loaded tool_step_def split: option.split prod.split promise_state.split) blast
next
  case (Stored i now)
  have "values_inv L (after_store i c v now s)" if "map_of (tc_promises s) i = Some (PSet v)" "map_of (tc_calls s) i = Some (c, st)" for c st v
    unfolding after_store_def
    by (rule values_promise [OF assms(2) that(2), where q = "PSettled (Inr v)"])
      (use valuesD(3) [OF assms(2) that(1) _ that(2)] in auto)
  then show ?thesis using assms(2) by (simp add: Stored tool_step_def split: option.split prod.split promise_state.split)
next
  case (Resumed i)
  then show ?thesis using assms values_resumed [OF assms(2,1)]
    by (simp add: tool_step_def split: option.split prod.split call_state.split promise_state.split)
qed

lemma values_mono: "L \<subseteq> L' \<Longrightarrow> values_inv L s \<Longrightarrow> values_inv L' s"
  unfolding values_inv_def call_ok_def has_origin_def by blast

lemma run_flights: "flights_inv (tool_run evs)"
  unfolding tool_run_def by (rule flights.run_inv [OF empty_flights])

lemma loads_snoc:
  "loads evs \<subseteq> loads (evs @ [ev])"
  "map_of (tc_promises (tool_run evs)) i = Some PLoad \<Longrightarrow> (i, v) \<in> loads (evs @ [Loaded i (Inr v)])"
  unfolding loads_def by (fastforce simp: Cons_eq_append_conv)+

lemma run_values: "values_inv (loads evs) (tool_run evs)"
proof (induction evs rule: rev_induct)
  case Nil
  show ?case by (simp add: values_inv_def tool_run_def empty_core_def)
next
  case (snoc ev evs)
  have "values_inv (loads (evs @ [ev])) (tool_run evs)" by (rule values_mono [OF loads_snoc(1) snoc])
  then have "values_inv (loads (evs @ [ev])) (tool_step ev (tool_run evs))"
    by (rule values_step [OF run_flights]) (simp add: loads_snoc(2))
  then show ?case by (simp add: tool_run_def)
qed

text \<open>C7. Every answer, loaded, joined or from the cache, is the value that the loader of a read-only
  call of the same key returned in this run, validated against that call's own list of fields; the call
  that gets it is read-only too.\<close>

theorem answers_have_origin:
  assumes "map_of (tc_calls (tool_run evs)) i = Some (c, Done (Inr a))"
  shows "is_ok (read_only_call c) \<and>
    (\<exists>j d st pre post. evs = pre @ Loaded j (Inr (an_value a)) # post \<and>
       map_of (tc_promises (tool_run pre)) j = Some PLoad \<and>
       map_of (tc_calls (tool_run evs)) j = Some (d, st) \<and> tl_key d = tl_key c \<and> is_ok (read_only_call d) \<and>
       is_ok (drift_checked (an_value a) (tl_allowed d)))"
proof -
  have "call_ok (loads evs) (tool_run evs) c (Done (Inr a))" by (rule valuesD(1) [OF run_values assms])
  then have "read_only_call c = Inr ()" "has_origin (loads evs) (tool_run evs) (tl_key c) (an_value a)"
    by (simp_all add: call_ok_def)
  then show ?thesis unfolding has_origin_def loads_def is_ok_iff by blast
qed

section \<open>A run\<close>

definition sample_call :: "string list option \<Rightarrow> tool_call" where
  "sample_call allowed = \<lparr>tl_key = ''pool:1'', tl_operation = ''getPool'', tl_cost_class = ''METERED'',
     tl_expires_at = ''soon'', tl_parameters = None, tl_allowed = allowed, tl_heap = [], tl_self = 0\<rparr>"

definition free_of_charge :: authorization where
  "free_of_charge = \<lparr>au_status = ''AVAILABLE'', au_reason = None, au_quota = Some 0\<rparr>"

definition sample_value :: js_val where
  "sample_value = Some (JObj [(''price'', JNum 1), (''owner'', JStr ''x'')])"

text \<open>Two calls of one key; the second joins the load of the first.\<close>

definition sample_events :: "tool_event list" where
  "sample_events =
     [Call 1 0 (sample_call None), Got 1, Call 2 0 (sample_call (Some [''price''])), Got 2,
      MissAuthorized 1 free_of_charge]"

definition sample_rest :: "tool_event list" where
  "sample_rest = [Loaded 1 (Inr sample_value), Stored 1 5, Resumed 1, Resumed 2, HitAuthorized 2 free_of_charge 5]"

lemma sample_fields [simp]:
  "tl_key (sample_call allowed) = ''pool:1''" "tl_allowed (sample_call allowed) = allowed"
  "tl_expires_at (sample_call allowed) = ''soon''"
  by (simp_all add: sample_call_def)

lemma sample_read_only: "is_ok (read_only_call (sample_call allowed))"
proof -
  have "is_ok (read_only_call (sample_call None))" by code_simp
  moreover have "call_heap (sample_call allowed) = call_heap (sample_call None)"
    "tl_operation (sample_call allowed) = tl_operation (sample_call None)"
    "tl_self (sample_call allowed) = tl_self (sample_call None)"
    by (simp_all only: call_heap_def sample_call_def tool_call.select_convs)
  ultimately show ?thesis unfolding read_only_call_def by (simp only:)
qed

lemma sample_started [simp]:
  "start_call i now (sample_call allowed) s =
   set_call i (sample_call allowed) (Getting (cache_get (tc_cache s) now ''pool:1'')) s"
  using sample_read_only [of allowed] by (auto simp: start_call_def is_ok_iff sample_call_def)

lemmas sample_eval = tool_run_def empty_core_def tool_step_def sample_events_def sample_rest_def after_get_def
  after_miss_def after_load_def after_store_def leader_done_def joined_done_def after_hit_def cache_get_def
  cache_set_def free_of_charge_def hit_refused_def

lemma sample_flying:
  "map_of (tc_promises (tool_run sample_events)) 1 = Some PLoad"
  "map_of (tc_calls (tool_run sample_events)) 1 = Some (sample_call None, Leading)"
  "map_of (tc_calls (tool_run sample_events)) 2 = Some (sample_call (Some [''price'']), Joined 1)"
  by (simp_all add: sample_eval)

lemma sample_valid: "drift_checked sample_value None = Inr ()"
  by (simp add: drift_checked_def assertNoSchemaDrift_def drift_marked_def sample_value_def)

lemma sample_finished:
  "map_of (tc_calls (tool_run (sample_events @ sample_rest))) 2 =
    Some (sample_call (Some [''price'']),
      Done (Inr \<lparr>an_value = sample_value, an_cached = True, an_freshness = 0, an_quota = 0\<rparr>))"
  by (simp add: sample_eval sample_valid answer_freshness_def)

theorem single_flight_per_key_witness:
  "map_of (tc_inflight (tool_run sample_events)) ''pool:1'' = Some 1 \<and>
   map_of (tc_calls (tool_run sample_events)) 2 = Some (sample_call (Some [''price'']), Joined 1)"
proof -
  have "unsettled PLoad" by (simp add: unsettled_def)
  from single_flight_per_key [OF sample_flying(1) this sample_flying(1) this sample_flying(2) sample_flying(2) refl]
  show ?thesis using sample_flying(3) by simp
qed

theorem answers_have_origin_witness:
  "\<exists>j d st. map_of (tc_calls (tool_run (sample_events @ sample_rest))) j = Some (d, st) \<and> tl_key d = ''pool:1'' \<and>
     is_ok (drift_checked sample_value (tl_allowed d)) \<and> Loaded j (Inr sample_value) \<in> set (sample_events @ sample_rest)"
proof -
  obtain j d st pre post where e: "sample_events @ sample_rest = pre @ Loaded j (Inr sample_value) # post"
    "map_of (tc_calls (tool_run (sample_events @ sample_rest))) j = Some (d, st)" "tl_key d = ''pool:1''"
    "is_ok (drift_checked sample_value (tl_allowed d))"
    using answers_have_origin [OF sample_finished] by auto
  have "Loaded j (Inr sample_value) \<in> set (sample_events @ sample_rest)" unfolding e(1) by simp
  with e show ?thesis by blast
qed

text \<open>A call that joins a load gets its value unchecked: the second caller allows the field price
  only and is answered a value with the field owner, which its own list rejects.\<close>

theorem joined_answer_unchecked:
  "\<exists>a. map_of (tc_calls (tool_run (sample_events @ sample_rest))) 2 = Some (sample_call (Some [''price'']), Done (Inr a)) \<and>
     drift_checked (an_value a) (Some [''price'']) = Inl (Error ''SCHEMA_DRIFT'')"
  unfolding sample_finished
  by (simp add: drift_checked_def assertNoSchemaDrift_def sample_value_def)

text \<open>A value stored with an expiry that cannot be read stays in the cache for ever.\<close>

theorem unreadable_expiry_never_lapses:
  assumes "dateParse expiresAt = None"
  shows "cache_get (cache_set key v expiresAt c) now key = v"
  using assms by (simp add: cache_get_def cache_set_def)

theorem unreadable_expiry_never_lapses_witness:
  "cache_get (cache_set ''k'' sample_value ''soon'' []) 9999999999999 ''k'' = sample_value"
proof -
  have "dateParse ''soon'' = None" by code_simp
  then show ?thesis by (rule unreadable_expiry_never_lapses)
qed

end
