(* ===== verification/Admin_Store.thy ===== *)
theory Admin_Store
  imports Js_Text Sql_Table
begin

text \<open>
  apps/api/src/routes/admin: store.ts (kill switches, incidents and the chain of audit records, all in
  memory, with a copy of some records in the database) and the handlers of router.ts that change
  it. \<open>now\<close> is the text of the clock, \<open>uuid\<close> an identifier of \<open>randomUUID\<close>, \<open>sha\<close> the SHA-256 digest;
  \<open>dbOk\<close> says whether the database takes an insert, which the code ignores.
\<close>

section \<open>State\<close>

datatype kill_switch =
    DISABLE_ALL_AUTOMATION
  | DISABLE_ALL_MODEL_CALLS
  | DISABLE_ALL_PROVIDER_CALLS
  | DISABLE_NOTIFICATIONS
  | REVOKE_ALL_MCP_CLIENTS
  | EMERGENCY_READ_ONLY_MODE

fun switch_text :: "kill_switch \<Rightarrow> string" where
  "switch_text DISABLE_ALL_AUTOMATION = ''DISABLE_ALL_AUTOMATION''"
| "switch_text DISABLE_ALL_MODEL_CALLS = ''DISABLE_ALL_MODEL_CALLS''"
| "switch_text DISABLE_ALL_PROVIDER_CALLS = ''DISABLE_ALL_PROVIDER_CALLS''"
| "switch_text DISABLE_NOTIFICATIONS = ''DISABLE_NOTIFICATIONS''"
| "switch_text REVOKE_ALL_MCP_CLIENTS = ''REVOKE_ALL_MCP_CLIENTS''"
| "switch_text EMERGENCY_READ_ONLY_MODE = ''EMERGENCY_READ_ONLY_MODE''"

definition ALL_KILL_SWITCHES :: "kill_switch list" where
  "ALL_KILL_SWITCHES =
     [DISABLE_ALL_AUTOMATION, DISABLE_ALL_MODEL_CALLS, DISABLE_ALL_PROVIDER_CALLS, DISABLE_NOTIFICATIONS,
      REVOKE_ALL_MCP_CLIENTS, EMERGENCY_READ_ONLY_MODE]"

record switch_state =
  ks_enabled :: bool
  ks_enabled_at :: "string option"
  ks_enabled_by :: "string option"
  ks_reason :: "string option"
  ks_audit_logged :: bool

datatype system_mode = SYNTHETIC_SHADOW | MODE_ACTIVE | MODE_DEGRADED | READ_ONLY | MAINTENANCE

datatype incident_status = IN_OPEN | IN_ACKNOWLEDGED | IN_CONTAINED | IN_REVALIDATING | IN_RESOLVED | IN_DISMISSED

datatype incident_severity = SV_LOW | SV_MEDIUM | SV_HIGH | SV_CRITICAL

fun severity_text :: "incident_severity \<Rightarrow> string" where
  "severity_text SV_LOW = ''LOW''"
| "severity_text SV_MEDIUM = ''MEDIUM''"
| "severity_text SV_HIGH = ''HIGH''"
| "severity_text SV_CRITICAL = ''CRITICAL''"

datatype incident_type =
    PROVIDER_OUTAGE
  | PROVIDER_DEPRECATION
  | PROVIDER_PLAN_OR_RIGHTS_DRIFT
  | SCHEMA_DRIFT
  | SOURCE_DEPENDENCE_CHANGE
  | COLLECTOR_OUTAGE
  | COLLECTOR_GAP
  | COLLECTOR_REORG_ERROR
  | POOL_ADAPTER_PARITY_FAILURE
  | SCHEDULE_DRIFT
  | WORKFLOW_FAILURE
  | DATABASE_DEGRADED
  | OBJECT_STORE_FAILURE
  | MODEL_FAILURE
  | QUOTA_EXHAUSTION
  | CAPACITY_CONTRACT_BREACH
  | NOTIFICATION_FAILURE
  | SECURITY_EVENT
  | MCP_ORIGIN_OR_AUTH_EVENT
  | EVALUATION_LEAKAGE
  | HOLDOUT_EXHAUSTION
  | PUBLIC_CLAIM_OR_RIGHTS_EVENT

fun type_text :: "incident_type \<Rightarrow> string" where
  "type_text PROVIDER_OUTAGE = ''PROVIDER_OUTAGE''"
| "type_text PROVIDER_DEPRECATION = ''PROVIDER_DEPRECATION''"
| "type_text PROVIDER_PLAN_OR_RIGHTS_DRIFT = ''PROVIDER_PLAN_OR_RIGHTS_DRIFT''"
| "type_text SCHEMA_DRIFT = ''SCHEMA_DRIFT''"
| "type_text SOURCE_DEPENDENCE_CHANGE = ''SOURCE_DEPENDENCE_CHANGE''"
| "type_text COLLECTOR_OUTAGE = ''COLLECTOR_OUTAGE''"
| "type_text COLLECTOR_GAP = ''COLLECTOR_GAP''"
| "type_text COLLECTOR_REORG_ERROR = ''COLLECTOR_REORG_ERROR''"
| "type_text POOL_ADAPTER_PARITY_FAILURE = ''POOL_ADAPTER_PARITY_FAILURE''"
| "type_text SCHEDULE_DRIFT = ''SCHEDULE_DRIFT''"
| "type_text WORKFLOW_FAILURE = ''WORKFLOW_FAILURE''"
| "type_text DATABASE_DEGRADED = ''DATABASE_DEGRADED''"
| "type_text OBJECT_STORE_FAILURE = ''OBJECT_STORE_FAILURE''"
| "type_text MODEL_FAILURE = ''MODEL_FAILURE''"
| "type_text QUOTA_EXHAUSTION = ''QUOTA_EXHAUSTION''"
| "type_text CAPACITY_CONTRACT_BREACH = ''CAPACITY_CONTRACT_BREACH''"
| "type_text NOTIFICATION_FAILURE = ''NOTIFICATION_FAILURE''"
| "type_text SECURITY_EVENT = ''SECURITY_EVENT''"
| "type_text MCP_ORIGIN_OR_AUTH_EVENT = ''MCP_ORIGIN_OR_AUTH_EVENT''"
| "type_text EVALUATION_LEAKAGE = ''EVALUATION_LEAKAGE''"
| "type_text HOLDOUT_EXHAUSTION = ''HOLDOUT_EXHAUSTION''"
| "type_text PUBLIC_CLAIM_OR_RIGHTS_EVENT = ''PUBLIC_CLAIM_OR_RIGHTS_EVENT''"

record containment =
  ct_action :: string
  ct_applied_at :: string
  ct_success :: bool
  ct_detail :: "string option"

record admin_incident =
  in_id :: string
  in_type :: incident_type
  in_severity :: incident_severity
  in_owner :: string
  in_status :: incident_status
  in_created_at :: string
  in_updated_at :: string
  in_acknowledged_at :: "string option"
  in_resolved_at :: "string option"
  in_scopes :: "string list"
  in_containment :: "containment option"
  in_evidence :: "string list"
  in_revalidation :: "string list"
  in_root_cause :: "string option"
  in_corrective_action :: "string option"
  in_resolution_notes :: "string option"

datatype audit_action = KILL_SWITCH_ENABLED | KILL_SWITCH_DISABLED | INCIDENT_CREATED | INCIDENT_ACKNOWLEDGED

fun action_text :: "audit_action \<Rightarrow> string" where
  "action_text KILL_SWITCH_ENABLED = ''KILL_SWITCH_ENABLED''"
| "action_text KILL_SWITCH_DISABLED = ''KILL_SWITCH_DISABLED''"
| "action_text INCIDENT_CREATED = ''INCIDENT_CREATED''"
| "action_text INCIDENT_ACKNOWLEDGED = ''INCIDENT_ACKNOWLEDGED''"

record admin_audit =
  aa_id :: string
  aa_action :: audit_action
  aa_actor :: string
  aa_target :: string
  aa_timestamp :: string
  aa_reauth :: bool
  aa_detail :: json
  aa_prev :: "string option"
  aa_hash :: string

text \<open>A row of the table audit_records.\<close>

record audit_db_row =
  ad_id :: string
  ad_event :: string
  ad_actor :: string
  ad_payload :: string
  ad_prev :: "string option"
  ad_hash :: string
  ad_recorded_at :: string

record admin_store =
  as_switches :: "(kill_switch \<times> switch_state) list"
  as_incidents :: "(string \<times> admin_incident) list"
  as_audit :: "admin_audit list"
  as_last_hash :: "string option"
  as_mode :: system_mode
  as_database :: "audit_db_row list option"

definition switch_off :: switch_state where
  "switch_off = \<lparr>ks_enabled = False, ks_enabled_at = None, ks_enabled_by = None, ks_reason = None,
     ks_audit_logged = False\<rparr>"

definition new_admin_store :: "audit_db_row list option \<Rightarrow> admin_store" where
  "new_admin_store database = \<lparr>as_switches = map (\<lambda>n. (n, switch_off)) ALL_KILL_SWITCHES, as_incidents = [], as_audit = [],
     as_last_hash = None, as_mode = SYNTHETIC_SHADOW, as_database = database\<rparr>"

text \<open>The database stays attached.\<close>

definition reset_store :: "admin_store \<Rightarrow> admin_store" where
  "reset_store s = new_admin_store (as_database s)"

definition setSystemMode :: "system_mode \<Rightarrow> admin_store \<Rightarrow> admin_store" where
  "setSystemMode m s = s\<lparr>as_mode := m\<rparr>"

section \<open>Audit chain\<close>

definition hashRecord :: "(string \<Rightarrow> string) \<Rightarrow> string option \<Rightarrow> json \<Rightarrow> string" where
  "hashRecord sha previousHash payload =
     sha ((case previousHash of None \<Rightarrow> [] | Some h \<Rightarrow> h) @ '':'' @ stringify payload)"

definition opt_text_member :: "string \<Rightarrow> string option \<Rightarrow> (string \<times> json) list" where
  "opt_text_member k v = (case v of None \<Rightarrow> [] | Some t \<Rightarrow> [(k, JStr t)])"

definition push_audit ::
  "(string \<Rightarrow> string) \<Rightarrow> string \<Rightarrow> audit_action \<Rightarrow> string \<Rightarrow> string \<Rightarrow> string \<Rightarrow> bool \<Rightarrow> json \<Rightarrow> json \<Rightarrow> admin_store \<Rightarrow>
   admin_store" where
  "push_audit sha uuid action actor aim now reauth payload detail s =
     (let h = hashRecord sha (as_last_hash s) payload in
      s\<lparr>as_audit := as_audit s @ [\<lparr>aa_id = uuid, aa_action = action, aa_actor = actor, aa_target = aim,
          aa_timestamp = now, aa_reauth = reauth, aa_detail = detail, aa_prev = as_last_hash s, aa_hash = h\<rparr>],
        as_last_hash := Some h\<rparr>)"

section \<open>Kill switches\<close>

definition persist_audit :: "bool \<Rightarrow> audit_db_row \<Rightarrow> admin_store \<Rightarrow> admin_store" where
  "persist_audit dbOk row s =
     (case as_database s of
        None \<Rightarrow> s
      | Some rows \<Rightarrow> if dbOk then s\<lparr>as_database := Some (insert_new ad_id row rows)\<rparr> else s)"

definition setKillSwitch ::
  "(string \<Rightarrow> string) \<Rightarrow> string \<Rightarrow> string \<Rightarrow> bool \<Rightarrow> kill_switch \<Rightarrow> bool \<Rightarrow> string \<Rightarrow> string option \<Rightarrow> bool \<Rightarrow> admin_store \<Rightarrow>
   switch_state result \<times> admin_store" where
  "setKillSwitch sha now uuid dbOk name enabled actor reason reauthVerified s =
     (if \<not> reauthVerified then (Inl (Error ''REAUTH_REQUIRED''), s)
      else case map_of (as_switches s) name of
        None \<Rightarrow> (Inl (Error ''UNKNOWN_KILL_SWITCH''), s)
      | Some previous \<Rightarrow>
          (let updated = \<lparr>ks_enabled = enabled, ks_enabled_at = (if enabled then Some now else None),
                 ks_enabled_by = (if enabled then Some actor else None), ks_reason = reason, ks_audit_logged = True\<rparr>;
               s1 = s\<lparr>as_switches := assoc_set name updated (as_switches s),
                 as_mode := (if name = EMERGENCY_READ_ONLY_MODE
                             then (if enabled then READ_ONLY else SYNTHETIC_SHADOW) else as_mode s)\<rparr>;
               action = (if enabled then KILL_SWITCH_ENABLED else KILL_SWITCH_DISABLED);
               payload = JObj ([(''action'', JStr (action_text action)), (''target'', JStr (switch_text name)),
                 (''actor'', JStr actor), (''enabled'', JBool enabled)] @ opt_text_member ''reason'' reason @
                 [(''timestamp'', JStr now), (''reauthVerified'', JBool reauthVerified)]);
               s2 = push_audit sha uuid action actor (switch_text name) now reauthVerified payload
                 (JObj (opt_text_member ''reason'' reason @ [(''enabled'', JBool enabled)])) s1;
               row = \<lparr>ad_id = uuid, ad_event = action_text action, ad_actor = actor,
                 ad_payload = stringify (JObj ((''target'', JStr (switch_text name)) # opt_text_member ''reason'' reason @
                   [(''enabled'', JBool enabled), (''reauthVerified'', JBool reauthVerified)])),
                 ad_prev = as_last_hash s1, ad_hash = hashRecord sha (as_last_hash s1) payload, ad_recorded_at = now\<rparr>
           in (Inr updated, persist_audit dbOk row s2)))"

section \<open>Incidents\<close>

record incident_input =
  ip_type :: incident_type
  ip_severity :: incident_severity
  ip_owner :: string
  ip_scopes :: "string list"
  ip_containment :: "(string \<times> bool \<times> string option) option"
  ip_evidence :: "string list option"
  ip_revalidation :: "string list option"
  ip_root_cause :: "string option"

definition createIncident ::
  "(string \<Rightarrow> string) \<Rightarrow> string \<Rightarrow> string \<Rightarrow> string \<Rightarrow> incident_input \<Rightarrow> admin_store \<Rightarrow> admin_incident \<times> admin_store" where
  "createIncident sha now uuid auditUuid q s =
     (let id' = ''inc_'' @ take 8 uuid;
          inc = \<lparr>in_id = id', in_type = ip_type q, in_severity = ip_severity q, in_owner = ip_owner q, in_status = IN_OPEN,
            in_created_at = now, in_updated_at = now, in_acknowledged_at = None, in_resolved_at = None,
            in_scopes = ip_scopes q,
            in_containment = map_option (\<lambda>(a, ok, d). \<lparr>ct_action = a, ct_applied_at = now, ct_success = ok, ct_detail = d\<rparr>)
              (ip_containment q),
            in_evidence = (case ip_evidence q of None \<Rightarrow> [] | Some es \<Rightarrow> es),
            in_revalidation = (case ip_revalidation q of None \<Rightarrow> [] | Some rs \<Rightarrow> rs), in_root_cause = ip_root_cause q,
            in_corrective_action = None, in_resolution_notes = None\<rparr>;
          payload = JObj [(''action'', JStr ''INCIDENT_CREATED''), (''target'', JStr id'), (''type'', JStr (type_text (ip_type q))),
            (''severity'', JStr (severity_text (ip_severity q)))]
      in (inc, push_audit sha auditUuid INCIDENT_CREATED (ip_owner q) id' now False payload payload
            (s\<lparr>as_incidents := assoc_set id' inc (as_incidents s)\<rparr>)))"

definition acknowledgeIncident ::
  "(string \<Rightarrow> string) \<Rightarrow> string \<Rightarrow> string \<Rightarrow> string \<Rightarrow> string \<Rightarrow> admin_store \<Rightarrow> admin_incident result \<times> admin_store" where
  "acknowledgeIncident sha now auditUuid i actor s =
     (case map_of (as_incidents s) i of
        None \<Rightarrow> (Inl (Error ''INCIDENT_NOT_FOUND''), s)
      | Some inc \<Rightarrow>
          if in_status inc \<noteq> IN_OPEN then (Inl (Error ''INCIDENT_NOT_OPEN''), s)
          else
            (let upd = inc\<lparr>in_status := IN_ACKNOWLEDGED, in_acknowledged_at := Some now, in_updated_at := now\<rparr>;
                 payload = JObj [(''action'', JStr ''INCIDENT_ACKNOWLEDGED''), (''target'', JStr i), (''actor'', JStr actor)]
             in (Inr upd, push_audit sha auditUuid INCIDENT_ACKNOWLEDGED actor i now False payload payload
                   (s\<lparr>as_incidents := assoc_set i upd (as_incidents s)\<rparr>))))"

section \<open>Handlers\<close>

record admin_headers =
  ah_reauth_verified :: "string option"
  ah_step_up_verified :: "string option"
  ah_reauth_token :: "string option"
  ah_step_up_token :: "string option"
  ah_passkey_token :: "string option"
  ah_authorization :: "string option"
  ah_actor :: "string option"
  ah_user_email :: "string option"
  ah_test_reset :: "string option"

abbreviation nullish :: "'a option \<Rightarrow> 'a option \<Rightarrow> 'a option" where
  "nullish a b \<equiv> (case a of None \<Rightarrow> b | Some x \<Rightarrow> Some x)"

definition isReauthVerified :: "admin_headers \<Rightarrow> bool" where
  "isReauthVerified h =
     (if nullish (ah_reauth_verified h) (ah_step_up_verified h) \<in> {Some ''true'', Some ''1''} then True
      else if (case nullish (nullish (ah_reauth_token h) (ah_step_up_token h)) (ah_passkey_token h) of
          None \<Rightarrow> False | Some t \<Rightarrow> 8 \<le> length t) then True
      else (let auth = (case ah_authorization h of None \<Rightarrow> [] | Some a \<Rightarrow> a) in
            startsWith (toLowerCase auth) ''stepup '' \<and> 10 < length auth))"

text \<open>An answer: its status and code, or what the store returned.\<close>

datatype 'a reply = Fail int string | Reply int 'a

definition parse_switch :: "string \<Rightarrow> kill_switch option" where
  "parse_switch t = find (\<lambda>n. switch_text n = t) ALL_KILL_SWITCHES"

definition toggleKillSwitch ::
  "(string \<Rightarrow> string) \<Rightarrow> string \<Rightarrow> string \<Rightarrow> bool \<Rightarrow> admin_headers \<Rightarrow> string option \<Rightarrow> string option \<Rightarrow> string \<Rightarrow> bool \<Rightarrow>
   admin_store \<Rightarrow> switch_state reply \<times> admin_store" where
  "toggleKillSwitch sha now uuid dbOk h bodyActor bodyReason rawName enabled s =
     (case parse_switch rawName of
        None \<Rightarrow> (Fail 400 ''INVALID_KILL_SWITCH'', s)
      | Some name \<Rightarrow>
          if \<not> isReauthVerified h then (Fail 401 ''REAUTH_REQUIRED'', s)
          else
            (let actor = (case nullish (nullish bodyActor (ah_actor h)) (ah_user_email h) of None \<Rightarrow> ''admin'' | Some a \<Rightarrow> a) in
             case setKillSwitch sha now uuid dbOk name enabled actor bodyReason True s of
               (Inr u, s') \<Rightarrow> (Reply 200 u, s')
             | (Inl e, s') \<Rightarrow>
                 (if e = Error ''REAUTH_REQUIRED'' then Fail 401 ''REAUTH_REQUIRED'' else Fail 500 ''INTERNAL_ERROR'', s')))"

text \<open>What the schema of a new incident requires beyond the types of its members; the framework refuses
  other bodies with an answer of its own, without a code.\<close>

definition incident_valid :: "incident_input \<Rightarrow> bool" where
  "incident_valid q \<longleftrightarrow>
     ip_owner q \<noteq> [] \<and> ip_scopes q \<noteq> [] \<and> [] \<notin> set (ip_scopes q) \<and>
     (case ip_containment q of None \<Rightarrow> True | Some (a, ok, d) \<Rightarrow> a \<noteq> [])"

definition post_incident ::
  "(string \<Rightarrow> string) \<Rightarrow> string \<Rightarrow> string \<Rightarrow> string \<Rightarrow> incident_input \<Rightarrow> admin_store \<Rightarrow> admin_incident reply \<times> admin_store" where
  "post_incident sha now uuid auditUuid q s =
     (if \<not> incident_valid q then (Fail 400 [], s)
      else (case createIncident sha now uuid auditUuid q s of (inc, s') \<Rightarrow> (Reply 201 inc, s')))"

definition post_acknowledge ::
  "(string \<Rightarrow> string) \<Rightarrow> string \<Rightarrow> string \<Rightarrow> admin_headers \<Rightarrow> string option \<Rightarrow> string \<Rightarrow> admin_store \<Rightarrow> admin_incident reply \<times> admin_store" where
  "post_acknowledge sha now auditUuid h bodyActor i s =
     (let actor = (case nullish bodyActor (ah_actor h) of None \<Rightarrow> ''admin'' | Some a \<Rightarrow> a) in
      case acknowledgeIncident sha now auditUuid i actor s of
        (Inr inc, s') \<Rightarrow> (Reply 200 inc, s')
      | (Inl e, s') \<Rightarrow>
          (if e = Error ''INCIDENT_NOT_FOUND'' then Fail 404 ''INCIDENT_NOT_FOUND''
           else if e = Error ''INCIDENT_NOT_OPEN'' then Fail 409 ''INCIDENT_NOT_OPEN'' else Fail 500 ''INTERNAL_ERROR'', s'))"

definition post_reset :: "admin_headers \<Rightarrow> admin_store \<Rightarrow> unit reply \<times> admin_store" where
  "post_reset h s =
     (if ah_test_reset h \<noteq> Some ''true'' then (Fail 403 ''FORBIDDEN'', s) else (Reply 200 (), reset_store s))"

end
