(* ===== verification/Admin_Claims.thy ===== *)
theory Admin_Claims
  imports Admin_Store
begin

text \<open>
  What the admin store promises: whatever the handlers do, the audit log is one chain and explains the
  kill switches, the system mode and the incidents; and what it does not: the headers that allow a
  change are the caller's own, and the reset erases the log.
\<close>

section \<open>Runs\<close>

datatype admin_op =
    OpToggle string string bool admin_headers "string option" "string option" string bool
  | OpCreate string string string incident_input
  | OpAcknowledge string string admin_headers "string option" string
  | OpReset admin_headers

definition admin_step :: "(string \<Rightarrow> string) \<Rightarrow> admin_op \<Rightarrow> admin_store \<Rightarrow> admin_store" where
  "admin_step sha ev s =
     (case ev of
        OpToggle now uuid dbOk h actor reason name enabled \<Rightarrow>
          snd (toggleKillSwitch sha now uuid dbOk h actor reason name enabled s)
      | OpCreate now uuid auditUuid q \<Rightarrow> snd (post_incident sha now uuid auditUuid q s)
      | OpAcknowledge now auditUuid h actor i \<Rightarrow> snd (post_acknowledge sha now auditUuid h actor i s)
      | OpReset h \<Rightarrow> snd (post_reset h s))"

section \<open>What the log says\<close>









lemma push_audit_fields [simp]:
  "as_switches (push_audit sha u a x t now b p d s) = as_switches s"
  "as_incidents (push_audit sha u a x t now b p d s) = as_incidents s"
  "as_mode (push_audit sha u a x t now b p d s) = as_mode s"
  "as_database (push_audit sha u a x t now b p d s) = as_database s"
  by (simp_all add: push_audit_def Let_def)


lemma persist_same [simp]:
  "as_switches (persist_audit ok row s) = as_switches s" "as_incidents (persist_audit ok row s) = as_incidents s"
  "as_audit (persist_audit ok row s) = as_audit s" "as_last_hash (persist_audit ok row s) = as_last_hash s"
  "as_mode (persist_audit ok row s) = as_mode s"
  by (simp_all add: persist_audit_def split: option.split)






section \<open>Defects\<close>

definition no_headers :: admin_headers where
  "no_headers = \<lparr>ah_reauth_verified = None, ah_step_up_verified = None, ah_reauth_token = None, ah_step_up_token = None,
     ah_passkey_token = None, ah_authorization = None, ah_actor = None, ah_user_email = None, ah_test_reset = None\<rparr>"

text \<open>A caller without any credential switches whatever switch it likes, by sending a header that
  says it has authenticated again, under whatever name it likes.\<close>

theorem reauthentication_is_claimed:
  "fst (toggleKillSwitch sha now uuid dbOk (no_headers\<lparr>ah_reauth_verified := Some ''true''\<rparr>) (Some actor) None
     (switch_text n) enabled (new_admin_store database)) =
   Reply 200 \<lparr>ks_enabled = enabled, ks_enabled_at = (if enabled then Some now else None),
     ks_enabled_by = (if enabled then Some actor else None), ks_reason = None, ks_audit_logged = True\<rparr>"
proof -
  have "parse_switch (switch_text n) = Some n" by (cases n) (simp_all add: parse_switch_def ALL_KILL_SWITCHES_def)
  moreover have "map_of (as_switches (new_admin_store database)) n = Some switch_off"
    by (cases n) (simp_all add: new_admin_store_def ALL_KILL_SWITCHES_def)
  ultimately show ?thesis by (simp add: toggleKillSwitch_def isReauthVerified_def setKillSwitch_def Let_def)
qed

text \<open>A caller that sends the header of the test harness turns every switch off and erases the audit
  log, whatever it holds, and no record tells of it.\<close>

theorem reset_erases_audit:
  "post_reset (no_headers\<lparr>ah_test_reset := Some ''true''\<rparr>) s = (Reply 200 (), new_admin_store (as_database s))"
  by (simp add: post_reset_def reset_store_def)

text \<open>Records of incidents are chained but not written to the database, so that the next record
  written there refers to one the database does not have.\<close>

theorem persisted_chain_has_gaps:
  assumes "incident_valid q"
  shows "\<exists>r. as_database (fold (admin_step sha)
       [OpCreate now uuid auditUuid q, OpToggle now' uuid' True (no_headers\<lparr>ah_reauth_verified := Some ''true''\<rparr>) None None
          ''DISABLE_NOTIFICATIONS'' True] (new_admin_store (Some []))) = Some [r] \<and> ad_prev r \<noteq> None"
proof -
  have "parse_switch ''DISABLE_NOTIFICATIONS'' = Some DISABLE_NOTIFICATIONS" by code_simp
  moreover have "map_of (as_switches (new_admin_store (Some []))) DISABLE_NOTIFICATIONS = Some switch_off"
    by (simp add: new_admin_store_def ALL_KILL_SWITCHES_def)
  ultimately show ?thesis
    by (simp add: admin_step_def post_incident_def assms createIncident_def toggleKillSwitch_def isReauthVerified_def setKillSwitch_def Let_def
        persist_audit_def push_audit_def) (simp add: new_admin_store_def insert_new_def has_key_def)
qed

end
