(* ===== verification/Spec2Isabelle.thy ===== *)
theory Spec2Isabelle
  imports Workflow_Lease Workflow_Facts Alert_Outbox Alert_Metrics Scheduler_Sync Domain_Temporal
    Asset_Identity Module_Registry Chain_Collector Recovery_Claims Decision_Claims Runtime_Progress
    Egress_Claims Guard_Claims Gateway_Claims Tool_Claims Admin_Claims
begin

text \<open>
  A model of chain-sieve, a TypeScript monorepo that discovers crypto assets, decides about alerts
  and runs its work as durable workflows, and the theorems that make its core correct. Everything
  is under src/packages unless another directory is named.

  \<^bold>\<open>Parts and theories.\<close>
  \<^item> The language. Js_Prelude: thrown errors as the left of a sum, \<open>await a; b\<close> on a state
    (\<open>and_then\<close>), texts, decimal numerals, insertion-ordered maps, object spread, JSON, and the
    interfaces \<open>invariant_machine\<close> and \<open>monotone_machine\<close> for components that are step functions.
    Js_Date: \<open>toISOString\<close>, \<open>Date.parse\<close> and their round trip. Js_Number: rounding, \<open>toFixed\<close>,
    stable sort, canonical JSON. Sql_Table: a table is the list of its rows; \<open>keyed_table\<close> is the
    interface of a table with a unique key, interpreted on lists.
  \<^item> workflow-runtime/src/index.ts. Workflow_Lease: leases with fencing tokens; \<open>acquireLease\<close> is cut
    into its SQL statements (\<open>acq_step\<close>) so that concurrent calls interleave, together with
    \<open>renewLease\<close> and \<open>validateFencingToken\<close> of recovery-continuity.ts. Workflow_Steps: the trigger
    inbox, runs, steps, claims, fenced commits, the retry taxonomy, dead letters and the handler
    of a trigger. Workflow_Facts: their properties; it interprets the two machine interfaces on the
    operations of the runtime.
  \<^item> workflow-runtime/src/recovery-continuity.ts and shared-schemas/src/dr.ts. Recovery_Audit: the
    hash chain of the backup audit log and its verification against a reference, a linked list of
    records. Recovery_Continuity: retention policies, backups, legal holds, restore access and
    degraded mode. Recovery_Facts: what every operation keeps. Recovery_Drill: the restore drill and
    the reconciliation, which read the tables of the durable core, the leases and the alerts.
    Recovery_Claims: when a drill passes and when automation resumes.
  \<^item> alerts and shared-schemas/src/alert.ts. Alert_Types, Alert_Guardrails, Alert_Policy
    (\<open>evaluateAlertPolicy\<close>), Alert_Lifecycle (\<open>evaluateAlertLifecycle\<close>), Alert_Outbox (the atomic
    commit and \<open>processOutboxEntry\<close>), Alert_Metrics (metrics and renderer).
  \<^item> scheduler/src/index.ts. Scheduler_Config: schedules, versions, cron, validation, precedence of
    configuration layers, hash. Scheduler_Service: the two stores and \<open>SchedulerService\<close>.
    Scheduler_Facts: the interface \<open>schedule_store\<close> states what the service needs of a store; the
    life of schedules and versions is proved once inside it and holds for \<open>InMemoryScheduleStore\<close>
    and \<open>DatabaseScheduleStore\<close> by the interpretations \<open>memory\<close> and \<open>database\<close>. Scheduler_Claims:
    the properties. Scheduler_Reconcile and Scheduler_Sync: \<open>reconcileSchedules\<close> and when it is
    silent.
  \<^item> domain/src. Domain_States: candidate lifecycle and risk, hysteresis. Domain_Temporal:
    point-in-time availability and revisions. Asset_Identity: chains, addresses, assets, pools and
    the ranking of pool candidates.
  \<^item> capability-registry/src/index.ts. Module_Registry: modules with independent dimensions, refined
    to a map; deployment evaluation, build order, strict-free policy.
  \<^item> collector-core, collector-solana and apps/collector/src. Chain_Collector: envelopes,
    checkpoints, gaps, the idempotent ingestion store, supported programs.
  \<^item> agent-runtime/src. Js_Text: case, search, numerals and numbers of JavaScript texts, URLs.
    Agent_Budget (budget-tracker.ts), Agent_Confinement (confinement.ts) and Confinement_Facts (a
    reference reading of an envelope on every member of the arguments, narrower envelopes, what
    escapes), Agent_Profiles (model-profiles.ts), Agent_Planner (deterministic-planner.ts) and
    Planner_Facts, Agent_Evidence (evidence-validator.ts), Agent_Decision (decision-engine.ts),
    Decision_Facts and Decision_Claims, Agent_Runtime (bounded-runtime.ts, the execution of a plan in
    a \<open>world\<close> that answers for clock, signal and tools), Runtime_Facts and Runtime_Claims (safety of
    every run) and Runtime_Progress (when a run completes, what its decision says).
  \<^item> security/src. Security_Egress: egress.ts, with the words of 32 bits its octets are cut from.
    Egress_Facts: a reference that reads a host as inet_aton does and looks it up in a list of
    networks, and agreement of the code with it. Egress_Claims: the verdicts. Js_Regex: regular
    expressions and their test, with the relation it decides. Read_Only: negative-capability.ts, the
    patterns and the scan of a heap of values. Security_Guards: step-up.ts, origin.ts and mcp-guard.ts.
    Guard_Claims: what the guards let through.
  \<^item> tool-core/src/index.ts and runtime-cache/src/index.ts. Tool_Core: \<open>execute\<close> cut at every await into
    the events of a \<open>tool_core\<close>, so that calls interleave. Tool_Claims: one load per key, the origin of
    answers.
  \<^item> apps/api/src. Api_Gateway (app.ts): the guards, rate windows and concurrency of /mcp and the
    endpoint of schedule triggers, on top of Workflow_Steps. Gateway_Claims: its bounds. Admin_Store
    (routes/admin): kill switches, incidents, the audit chain and their handlers. Admin_Claims: what
    the audit log explains.

  \<^bold>\<open>How they interact.\<close> A trigger message enters the inbox, which starts a workflow run exactly once; the
  steps of a run are claimed under a lease, committed under its fencing token and retried or
  dead-lettered. The policy turns a candidate into an alert record and an outbox entry that are
  stored in one transaction; the outbox is delivered with retries; later candidates update the
  alert through its lifecycle. The scheduler keeps schedules and their immutable versions, resolves
  the configuration of a run and compares itself with an external scheduler. An agent run requires a
  profile, plans its calls within budget and envelope, checks each call again and charges it before
  its tool is invoked, turns the records into evidence and claims and lets the decision engine, which
  asks the evidence validator, decide or abstain. Requests from
  outside pass the guards of origin, token and session and the rate limit; a schedule trigger goes on
  to the inbox of the durable core; a tool call passes the read-only guard before cache and loader.
  The collector,
  identity, temporal and budget modules are libraries the rest is built on.

  \<^bold>\<open>Reading the model.\<close> A class or interface is a record, a union of names a datatype, an async method a
  function to a result and the state afterwards; a \<open>throw\<close> is a branch. Values of clocks, random
  identifiers and of injected checks are arguments. The digest \<open>sha\<close>, the host's collation \<open>lc\<close>
  and time zone data, URL parser, tool handlers, transports and the external scheduler are parameters without assumptions,
  except that identifiers returned by \<open>randomUUID\<close> in a run are not in use (\<open>fresh_op\<close>). Texts are
  lists of code units below 256. Amounts and scores are exact rationals; rounding of double
  precision numbers is not modelled. A jsonb column keeps the value that was written; only in
  Recovery_Audit, where a digest depends on the text, the column is a parameter.

  \<^bold>\<open>Bounds and fuel.\<close> The loops recur over lists and need no fuel, except the one that
  verifies the audit log and the read-only scan, which enters every object of a heap once and so needs
  no more depth than there are objects. The former follows digests, gets one unit of fuel more than there are records, and
  returns within it when no two records have the same digest (\<open>audit_verification_exact\<close>). The run of failures that ends in
  the dead letters is bounded by ten, twice the largest number of attempts of the taxonomy.

  \<^bold>\<open>What the lemmas show.\<close> Safety of leases and fencing under interleaving, exactly-once triggers, the end
  of retries and resumption; exactness of the alert gates, integrity of what is emitted, atomic and
  idempotent commits and deliveries; lives of schedules, immutability of versions, validity of what
  is enabled, precedence, cron, reconciliation; absence of look-ahead in replay and of oscillation
  in hysteresis; well-formed identities, a ranking that is a stable sort by a key; refinement of the
  module registry to independent dimensions and of ingestion to first observations; budgets that
  are never exceeded; agreement of the argument scan with its reference, delegation, plans and runs that
  stay confined and within budget, runs that complete, decisions that are supported or abstained
  from, rankings; egress that reaches public addresses only; a read-only guard that is exact on graphs with cycles,
  origins, step-up authentication; one load per key and answers with an origin under every
  interleaving; a gateway of bounded concurrency, memory and rate; an audit log that explains the
  kill switches. Some theorems state defects: a schedule cannot be created in the database,
  the hash of a version ignores its budgets, an exhausted delivery is retried forever,
  lists of URLs escape the argument scan, hypotheses without evidence escape the language check,
  a trigger's signature is never verified.

  \<^bold>\<open>Not modelled.\<close> Of the agent runtime the value-of-information planner, the
  skeptic and its stores, which options switch on; signal-intelligence and evaluation (floating-point formulas), prompt-injection.ts of security, pool-adapter and
  program-decoders; provider-contracts and mcp-adapter (interfaces and constants); persistence,
  object-store, configuration and observability, which are input and output over libraries; of the
  API the health, readiness and overview endpoints, which only read, and the transport; the
  dashboard; the declarative schemas other than those named above; tools, tests, deployment files. Of the modelled files: the
  walking-skeleton code at the head of workflow-runtime and scheduler, \<open>dryRun\<close> with overrides and
  the read-only listings.
\<close>

end
